(* ===== verification/Prelude.thy ===== *)
theory Prelude
  imports Main "HOL-Library.Char_ord" "HOL-Library.List_Lexorder" "HOL-Library.AList"
begin

text \<open>
  Shared vocabulary of the development: errors as values of a sum type, the sequencing
  combinators that stand for the code's statements (a throw leaves the rest undone), the
  state-and-error computations of the workflow runner, and the JavaScript primitives that the
  components use (truthiness of an optional string, safe integers, the ordering of strings by
  code unit, the stable array sort with a comparator, the update of a \<open>Map\<close>).

  A JavaScript string is a \<open>string\<close> here, one \<open>char\<close> per UTF-16 code unit. The model
  therefore ranges over strings whose code units are below 256. A JavaScript number is an
  \<open>int\<close>: non-integral numbers are outside the model.
\<close>

named_theorems err_simps "rules that take a successful checked computation apart"

subsection \<open>Errors\<close>

text \<open>
  \<open>WorkflowValidationErrorV1\<close> carries the message, \<open>CollectiveAgreementCodecErrorV1\<close> and
  \<open>CollectiveQuorumCryptoErrorV1\<close> their code; \<open>RangeError\<close> is what the JavaScript date library throws for a date it cannot represent,
  \<open>TypeError\<close> what reading a property of \<open>undefined\<close> throws. An exception of a port (a
  callback of the embedding application) is a \<open>PortError\<close>.
\<close>

datatype js_error =
    WorkflowValidationErrorV1 string
  | CollectiveAgreementCodecErrorV1 string
  | CollectiveQuorumCryptoErrorV1 string
  | RangeError string
  | TypeError string
  | PortError string

type_synonym 'a res = "js_error + 'a"

definition fail :: "string \<Rightarrow> 'a res" where
  "fail message = Inl (WorkflowValidationErrorV1 message)"

definition conflict :: "string \<Rightarrow> 'a res" where
  "conflict message = Inl (WorkflowValidationErrorV1 message)"

definition require :: "bool \<Rightarrow> string \<Rightarrow> unit res" where
  "require b message = (if b then Inr () else fail message)"

definition bindE :: "'e + 'a \<Rightarrow> ('a \<Rightarrow> 'e + 'b) \<Rightarrow> 'e + 'b" where
  "bindE m f = (case m of Inl e \<Rightarrow> Inl e | Inr x \<Rightarrow> f x)"

text \<open>Statements that only check, run in order until the first one throws.\<close>

fun seqE :: "('e + unit) list \<Rightarrow> 'e + unit" where
  "seqE [] = Inr ()"
| "seqE (m # ms) = bindE m (\<lambda>_. seqE ms)"

text \<open>A \<open>for \<dots> of\<close> loop that carries an accumulator and may throw.\<close>

fun foldE :: "('s \<Rightarrow> 'a \<Rightarrow> 'e + 's) \<Rightarrow> 's \<Rightarrow> 'a list \<Rightarrow> 'e + 's" where
  "foldE f s [] = Inr s"
| "foldE f s (x # xs) = bindE (f s x) (\<lambda>s'. foldE f s' xs)"

text \<open>\<open>Array.prototype.map\<close>, \<open>filter\<close>, \<open>some\<close> and \<open>every\<close> with a callback that may throw.\<close>

fun mapE :: "('a \<Rightarrow> 'e + 'b) \<Rightarrow> 'a list \<Rightarrow> 'e + 'b list" where
  "mapE f [] = Inr []"
| "mapE f (x # xs) = bindE (f x) (\<lambda>y. bindE (mapE f xs) (\<lambda>ys. Inr (y # ys)))"

fun filterE :: "('a \<Rightarrow> 'e + bool) \<Rightarrow> 'a list \<Rightarrow> 'e + 'a list" where
  "filterE p [] = Inr []"
| "filterE p (x # xs) =
     bindE (p x) (\<lambda>b. bindE (filterE p xs) (\<lambda>ys. Inr (if b then x # ys else ys)))"

fun anyE :: "('a \<Rightarrow> 'e + bool) \<Rightarrow> 'a list \<Rightarrow> 'e + bool" where
  "anyE p [] = Inr False"
| "anyE p (x # xs) = bindE (p x) (\<lambda>b. if b then Inr True else anyE p xs)"

fun everyE :: "('a \<Rightarrow> 'e + bool) \<Rightarrow> 'a list \<Rightarrow> 'e + bool" where
  "everyE p [] = Inr True"
| "everyE p (x # xs) = bindE (p x) (\<lambda>b. if b then everyE p xs else Inr False)"

lemma bindE_simps [simp]:
  "bindE (Inl e) f = Inl e"
  "bindE (Inr x) f = f x"
  by (simp_all add: bindE_def)

lemma bindE_Inr_iff [err_simps]: "bindE m f = Inr y \<longleftrightarrow> (\<exists>x. m = Inr x \<and> f x = Inr y)"
  by (cases m) simp_all

lemma bindE_assoc [simp]: "bindE (bindE m f) g = bindE m (\<lambda>x. bindE (f x) g)"
  by (cases m) simp_all

lemma bindE_right_unit [simp]: "bindE m Inr = m"
  by (cases m) simp_all

lemma fail_not_Inr [simp]: "fail e \<noteq> Inr x" "Inr x \<noteq> fail e"
  by (simp_all add: fail_def)

lemma conflict_not_Inr [simp]: "conflict e \<noteq> Inr x" "Inr x \<noteq> conflict e"
  by (simp_all add: conflict_def)

lemma require_Inr_iff [simp]: "require b e = Inr u \<longleftrightarrow> b"
  by (simp add: require_def)

lemma seqE_Inr_iff [err_simps]: "seqE ms = Inr u \<longleftrightarrow> (\<forall>m \<in> set ms. m = Inr ())"
  by (induction ms) (auto simp: bindE_Inr_iff)

declare seqE.simps [simp del]

lemma if_fail_Inr_iff [err_simps]: "(if b then fail e else m) = Inr x \<longleftrightarrow> \<not> b \<and> m = Inr x"
  by simp

lemma if_conflict_Inr_iff [err_simps]:
  "(if b then conflict e else m) = Inr x \<longleftrightarrow> \<not> b \<and> m = Inr x"
  by simp

lemma callbacks_pure:
  "(\<And>x. x \<in> set xs \<Longrightarrow> f x = Inr (g x)) \<Longrightarrow> mapE f xs = Inr (map g xs)"
  "(\<And>x. x \<in> set xs \<Longrightarrow> p x = Inr (q x)) \<Longrightarrow> filterE p xs = Inr (filter q xs)"
  "(\<And>x. x \<in> set xs \<Longrightarrow> p x = Inr (q x)) \<Longrightarrow> anyE p xs = Inr (list_ex q xs)"
  "(\<And>x. x \<in> set xs \<Longrightarrow> p x = Inr (q x)) \<Longrightarrow> everyE p xs = Inr (list_all q xs)"
  by (induction xs) simp_all

lemma mapE_Inr: "mapE f xs = Inr ys \<Longrightarrow> list_all2 (\<lambda>x y. f x = Inr y) xs ys"
  by (induction xs arbitrary: ys) (auto simp: bindE_Inr_iff)

lemma foldE_append: "foldE f s (xs @ ys) = bindE (foldE f s xs) (\<lambda>s'. foldE f s' ys)"
  by (induction xs arbitrary: s) simp_all

lemma foldE_invariant:
  assumes "foldE f s xs = Inr t" "P s"
    and "\<And>s x s'. P s \<Longrightarrow> x \<in> set xs \<Longrightarrow> f s x = Inr s' \<Longrightarrow> P s'"
  shows "P t"
  using assms
proof (induction xs arbitrary: s)
  case Nil
  then show ?case by simp
next
  case (Cons x xs)
  from Cons.prems(1) obtain s' where s': "f s x = Inr s'" "foldE f s' xs = Inr t"
    by (auto simp: bindE_Inr_iff)
  have p: "P s'" by (rule Cons.prems(3)[OF Cons.prems(2) _ s'(1)]) simp
  show ?case
  proof (rule Cons.IH[OF s'(2) p])
    fix a x b assume "P a" "x \<in> set xs" "f a x = Inr b"
    then show "P b" by (intro Cons.prems(3)[of a x b]) simp_all
  qed
qed

subsection \<open>Computations over a state\<close>

text \<open>
  A method that reads and writes the store. A throw keeps the writes that were already done:
  the state is returned in both cases, as it is in the code.
\<close>

type_synonym ('s, 'a) comp = "'s \<Rightarrow> 'a res \<times> 's"

definition retS :: "'a \<Rightarrow> ('s, 'a) comp" where
  "retS x s = (Inr x, s)"

definition bindS :: "('s, 'a) comp \<Rightarrow> ('a \<Rightarrow> ('s, 'b) comp) \<Rightarrow> ('s, 'b) comp" where
  "bindS m f s = (case m s of (Inl e, s') \<Rightarrow> (Inl e, s') | (Inr x, s') \<Rightarrow> f x s')"

definition liftE :: "'a res \<Rightarrow> ('s, 'a) comp" where
  "liftE r s = (r, s)"

definition getsS :: "('s \<Rightarrow> 'a) \<Rightarrow> ('s, 'a) comp" where
  "getsS g s = (Inr (g s), s)"

lemma retS_simp [simp]: "retS x s = (Inr x, s)"
  by (simp add: retS_def)

lemma liftE_simp [simp]: "liftE r s = (r, s)"
  by (simp add: liftE_def)

lemma getsS_simp [simp]: "getsS g s = (Inr (g s), s)"
  by (simp add: getsS_def)

lemma bindS_Inr_iff [err_simps]:
  "bindS m f s = (Inr y, t) \<longleftrightarrow> (\<exists>x s'. m s = (Inr x, s') \<and> f x s' = (Inr y, t))"
  by (auto simp: bindS_def split: prod.splits sum.splits)

lemma bindS_run [simp]:
  "m s = (Inr x, s') \<Longrightarrow> bindS m f s = f x s'"
  "m s = (Inl e, s') \<Longrightarrow> bindS m f s = (Inl e, s')"
  by (simp_all add: bindS_def)

text \<open>A relation between the states before and after, kept by every step, is kept by a sequence.\<close>

lemma bindS_state:
  assumes "bindS m f s = (r, t)"
    and "\<And>r' t'. m s = (r', t') \<Longrightarrow> R s t'"
    and "\<And>x t' r' t''. m s = (Inr x, t') \<Longrightarrow> f x t' = (r', t'') \<Longrightarrow> R t' t''"
    and "\<And>a b c. R a b \<Longrightarrow> R b c \<Longrightarrow> R a c"
  shows "R s t"
proof (cases "m s")
  case (Pair r' t')
  show ?thesis
  proof (cases r')
    case (Inl e)
    with Pair assms(1) have "t = t'" by (simp add: bindS_def)
    with assms(2)[OF Pair] show ?thesis by simp
  next
    case (Inr x)
    with Pair assms(1) have f: "f x t' = (r, t)" by (simp add: bindS_def)
    from assms(2)[OF Pair] assms(3)[OF _ f] Pair Inr show ?thesis
      by (auto intro: assms(4))
  qed
qed

subsection \<open>JavaScript primitives\<close>

text \<open>An optional string is truthy when it is present and not empty.\<close>

definition truthy :: "string option \<Rightarrow> bool" where
  "truthy v = (case v of None \<Rightarrow> False | Some s \<Rightarrow> s \<noteq> [])"

definition maximumSafeInteger :: int where
  "maximumSafeInteger = 9007199254740991"

definition isSafeInteger :: "int \<Rightarrow> bool" where
  "isSafeInteger n \<longleftrightarrow> \<bar>n\<bar> \<le> maximumSafeInteger"

text \<open>Comparisons of numbers that may be \<open>NaN\<close> (here \<open>None\<close>): false when either is.\<close>

definition js_lt :: "int option \<Rightarrow> int option \<Rightarrow> bool" where
  "js_lt a b = (case (a, b) of (Some x, Some y) \<Rightarrow> x < y | _ \<Rightarrow> False)"

definition js_le :: "int option \<Rightarrow> int option \<Rightarrow> bool" where
  "js_le a b = (case (a, b) of (Some x, Some y) \<Rightarrow> x \<le> y | _ \<Rightarrow> False)"

lemma js_lt_Some [simp]: "js_lt (Some x) (Some y) \<longleftrightarrow> x < y"
  by (simp add: js_lt_def)

lemma js_le_Some [simp]: "js_le (Some x) (Some y) \<longleftrightarrow> x \<le> y"
  by (simp add: js_le_def)

lemma js_cmp_None [simp]:
  "\<not> js_lt None b" "\<not> js_lt a None" "\<not> js_le None b" "\<not> js_le a None"
  by (auto simp: js_lt_def js_le_def split: option.splits)

text \<open>\<open>Array.prototype.sort\<close> with a comparator: a stable sort.\<close>

fun sort_insert :: "('a \<Rightarrow> 'a \<Rightarrow> int) \<Rightarrow> 'a \<Rightarrow> 'a list \<Rightarrow> 'a list" where
  "sort_insert cmp x [] = [x]"
| "sort_insert cmp x (y # ys) = (if cmp x y \<le> 0 then x # y # ys else y # sort_insert cmp x ys)"

definition js_sort :: "('a \<Rightarrow> 'a \<Rightarrow> int) \<Rightarrow> 'a list \<Rightarrow> 'a list" where
  "js_sort cmp xs = foldr (sort_insert cmp) xs []"

lemma set_sort_insert [simp]: "set (sort_insert cmp x xs) = insert x (set xs)"
  by (induction xs) auto

lemma set_js_sort [simp]: "set (js_sort cmp xs) = set xs"
  unfolding js_sort_def by (induction xs) auto

lemma length_sort_insert [simp]: "length (sort_insert cmp x xs) = Suc (length xs)"
  by (induction xs) auto

lemma length_js_sort [simp]: "length (js_sort cmp xs) = length xs"
  unfolding js_sort_def by (induction xs) auto

lemma js_sort_simps: "js_sort cmp [] = []" "js_sort cmp (x # xs) = sort_insert cmp x (js_sort cmp xs)"
  by (simp_all add: js_sort_def)

lemma distinct_sort_insert: "distinct (map f (sort_insert cmp x ys)) \<longleftrightarrow> f x \<notin> f ` set ys \<and> distinct (map f ys)"
  by (induction ys) auto

lemma distinct_js_sort: "distinct (map f (js_sort cmp xs)) = distinct (map f xs)"
  by (induction xs) (simp_all add: js_sort_simps distinct_sort_insert)

lemma count_sort_insert: "length (filter P (sort_insert cmp x ys)) = length (filter P (x # ys))"
  by (induction ys) auto

lemma count_js_sort [simp]: "length (filter P (js_sort cmp xs)) = length (filter P xs)"
  by (induction xs) (simp_all add: js_sort_simps count_sort_insert)

text \<open>Adjacent elements are in order; a list whose adjacent elements are in order is not changed.\<close>

lemma sort_insert_adjacent:
  assumes "successively (\<lambda>x y. cmp x y \<le> 0) ys" "\<And>y. y \<in> set ys \<Longrightarrow> cmp x y > 0 \<Longrightarrow> cmp y x \<le> 0"
  shows "successively (\<lambda>x y. cmp x y \<le> 0) (sort_insert cmp x ys)"
  using assms
proof (induction ys)
  case (Cons y ys)
  then have "successively (\<lambda>x y. cmp x y \<le> 0) (sort_insert cmp x ys)" by (cases ys) simp_all
  with Cons show ?case by (cases ys) auto
qed simp

lemma js_sort_adjacent:
  assumes "\<And>x y. x \<in> set xs \<Longrightarrow> y \<in> set xs \<Longrightarrow> cmp x y > 0 \<Longrightarrow> cmp y x \<le> 0"
  shows "successively (\<lambda>x y. cmp x y \<le> 0) (js_sort cmp xs)"
  using assms
proof (induction xs)
  case (Cons x xs)
  then show ?case by (auto simp: js_sort_simps intro!: sort_insert_adjacent)
qed (simp add: js_sort_simps)

lemma js_sort_fixed: "successively (\<lambda>x y. cmp x y \<le> 0) xs \<Longrightarrow> js_sort cmp xs = xs"
proof (induction xs)
  case (Cons x xs)
  then have "js_sort cmp xs = xs" by (cases xs) simp_all
  with Cons show ?case by (cases xs) (simp_all add: js_sort_simps)
qed (simp add: js_sort_simps)

subsection \<open>Decimal numerals\<close>

fun digits_nat :: "nat \<Rightarrow> string" where
  "digits_nat n = (if n < 10 then [char_of (48 + n)] else digits_nat (n div 10) @ [char_of (48 + n mod 10)])"

declare digits_nat.simps [simp del]

definition show_int :: "int \<Rightarrow> string" where
  "show_int n = (if n < 0 then CHR ''-'' # digits_nat (nat (- n)) else digits_nat (nat n))"

definition is_digit :: "char \<Rightarrow> bool" where
  "is_digit c \<longleftrightarrow> 48 \<le> (of_char c :: nat) \<and> (of_char c :: nat) \<le> 57"

definition digit_val :: "char \<Rightarrow> nat" where
  "digit_val c = of_char c - 48"

fun nat_of_digits :: "nat \<Rightarrow> string \<Rightarrow> nat" where
  "nat_of_digits acc [] = acc"
| "nat_of_digits acc (c # cs) = nat_of_digits (10 * acc + digit_val c) cs"

lemma of_char_char_of_small [simp]: "n < 256 \<Longrightarrow> of_char (char_of n) = (n :: nat)"
  by (simp add: of_char_of)

lemma digit_val_char_of [simp]: "n < 10 \<Longrightarrow> digit_val (char_of (48 + n)) = n"
  by (simp add: digit_val_def)

lemma is_digit_char_of [simp]: "n < (10 :: nat) \<Longrightarrow> is_digit (char_of (48 + n))"
  by (simp add: is_digit_def)

lemma nat_of_digits_append:
  "nat_of_digits acc (xs @ ys) = nat_of_digits (nat_of_digits acc xs) ys"
  by (induction xs arbitrary: acc) auto

lemma nat_of_digits_digits_nat [simp]: "nat_of_digits 0 (digits_nat n) = n"
proof (induction n rule: digits_nat.induct)
  case (1 n)
  then show ?case
    by (cases "n < 10") (subst digits_nat.simps, simp add: nat_of_digits_append)+
qed

lemma digits_nat_all: "\<forall>c \<in> set (digits_nat n). is_digit c"
proof (induction n rule: digits_nat.induct)
  case (1 n)
  then show ?case
    by (cases "n < 10") (subst digits_nat.simps, simp)+
qed

lemma digits_nat_not_Nil [simp]: "digits_nat n \<noteq> []"
  by (subst digits_nat.simps) simp

lemma digits_nat_inject [simp]: "digits_nat m = digits_nat n \<longleftrightarrow> m = n"
  by (metis nat_of_digits_digits_nat)

end
