(* ===== verification/CanonicalJson.thy ===== *)
theory CanonicalJson
  imports Prelude
begin

text \<open>
  The canonical JSON text of \<open>packages/workflows/src/v1-canonical.ts\<close>: the checks and the
  rendering of \<open>canonical\<close>, with its depth and node counters. A JavaScript value that is a
  tree is a \<open>json\<close> term, so the cycle check never fires and is not modelled; accessor
  properties, symbols, sparse arrays and class instances have no \<open>json\<close> counterpart.
  The properties: the text is independent of the insertion order of object keys, and two
  values with the same text are equal up to that order, so a digest's preimage names one value.
\<close>

datatype json =
    JNull
  | JBool bool
  | JNum int
  | JStr string
  | JArr "json list"
  | JObj "(string \<times> json) list"

subsection \<open>Rendering of scalars\<close>

text \<open>\<open>assertUnicode\<close>, on the UTF-16 code units of the string.\<close>

fun assertUnicode :: "nat list \<Rightarrow> string \<Rightarrow> unit res" where
  "assertUnicode [] label = Inr ()"
| "assertUnicode (code # rest) label =
     (if 0xd800 \<le> code \<and> code \<le> 0xdbff then
        (case rest of
           [] \<Rightarrow> fail (label @ '' contains an unpaired surrogate'')
         | low # rest' \<Rightarrow>
             if low < 0xdc00 \<or> 0xdfff < low then fail (label @ '' contains an unpaired surrogate'')
             else assertUnicode rest' label)
      else if 0xdc00 \<le> code \<and> code \<le> 0xdfff then fail (label @ '' contains an unpaired surrogate'')
      else assertUnicode rest label)"

definition code_units :: "string \<Rightarrow> nat list" where
  "code_units s = map of_char s"

lemma assertUnicode_char [simp]: "assertUnicode (code_units s) label = Inr ()"
proof (induction s)
  case Nil
  then show ?case by (simp add: code_units_def)
next
  case (Cons c s)
  have "(of_char c :: nat) < 256" by (rule nat_of_char_less_256)
  then have "\<not> 55296 \<le> (of_char c :: nat)" "\<not> 56320 \<le> (of_char c :: nat)" by linarith+
  with Cons show ?case by (simp add: code_units_def)
qed

definition hexdig :: "nat \<Rightarrow> char" where
  "hexdig n = (if n < 10 then char_of (48 + n) else char_of (87 + n))"

text \<open>\<open>JSON.stringify\<close> of a string: the two-character escapes, \<open>\u00XX\<close> for the other control characters.\<close>

definition escape_char :: "char \<Rightarrow> string" where
  "escape_char c =
     (let n = (of_char c :: nat) in
      if n = 34 then [CHR 0x5C, CHR 0x22]
      else if n = 92 then [CHR 0x5C, CHR 0x5C]
      else if n = 8 then [CHR 0x5C, CHR ''b'']
      else if n = 9 then [CHR 0x5C, CHR ''t'']
      else if n = 10 then [CHR 0x5C, CHR ''n'']
      else if n = 12 then [CHR 0x5C, CHR ''f'']
      else if n = 13 then [CHR 0x5C, CHR ''r'']
      else if n < 32 then [CHR 0x5C, CHR ''u'', CHR ''0'', CHR ''0'', hexdig (n div 16), hexdig (n mod 16)]
      else [c])"

definition quote :: char where
  "quote = CHR 0x22"

definition stringify_string :: "string \<Rightarrow> string" where
  "stringify_string s = quote # concat (map escape_char s) @ [quote]"

fun joined :: "string list \<Rightarrow> string" where
  "joined [] = []"
| "joined [x] = x"
| "joined (x # y # zs) = x @ CHR '','' # joined (y # zs)"

subsection \<open>The canonical text\<close>

text \<open>
  The recursion stops because the depth grows and is bounded by 32. The counter of nodes is
  shared by the whole traversal, so it is threaded. Array items and object fields are visited
  in order; the fields in the order of their sorted keys.
\<close>

function (sequential) canonical :: "nat \<Rightarrow> nat \<Rightarrow> json \<Rightarrow> (string \<times> nat) res"
  and canonical_items :: "nat \<Rightarrow> nat \<Rightarrow> json list \<Rightarrow> (string list \<times> nat) res"
  and canonical_fields :: "nat \<Rightarrow> nat \<Rightarrow> (string \<times> json) list \<Rightarrow> (string list \<times> nat) res"
where
  "canonical depth nodes v =
     (if depth > 32 then fail ''workflow JSON maximum depth exceeded''
      else if nodes + 1 > 16384 then fail ''workflow JSON maximum nodes exceeded''
      else case v of
        JNull \<Rightarrow> Inr (''null'', nodes + 1)
      | JBool b \<Rightarrow> Inr (if b then ''true'' else ''false'', nodes + 1)
      | JStr s \<Rightarrow>
          bindE (assertUnicode (code_units s) ''workflow JSON string'')
            (\<lambda>_. Inr (stringify_string s, nodes + 1))
      | JNum n \<Rightarrow>
          if \<not> isSafeInteger n then fail ''workflow JSON integers must be safe''
          else Inr (show_int n, nodes + 1)
      | JArr vs \<Rightarrow>
          if length vs > 4096 then fail ''workflow JSON maximum array items exceeded''
          else bindE (canonical_items (depth + 1) (nodes + 1) vs)
            (\<lambda>(ss, n). Inr (CHR ''['' # joined ss @ '']'', n))
      | JObj fs \<Rightarrow>
          if length fs > 256 then fail ''workflow JSON object shape is invalid''
          else bindE (canonical_fields (depth + 1) (nodes + 1) (sort_key fst fs))
            (\<lambda>(ss, n). Inr (CHR ''{'' # joined ss @ ''}'', n)))"
| "canonical_items depth nodes [] = Inr ([], nodes)"
| "canonical_items depth nodes (v # vs) =
     bindE (canonical depth nodes v)
       (\<lambda>(s, n). bindE (canonical_items depth n vs) (\<lambda>(ss, n'). Inr (s # ss, n')))"
| "canonical_fields depth nodes [] = Inr ([], nodes)"
| "canonical_fields depth nodes ((k, v) # fs) =
     bindE (assertUnicode (code_units k) ''workflow JSON key'') (\<lambda>_.
       bindE (canonical depth nodes v) (\<lambda>(s, n).
         bindE (canonical_fields depth n fs)
           (\<lambda>(ss, n'). Inr ((stringify_string k @ CHR '':'' # s) # ss, n'))))"
  by pat_completeness auto
termination
  by (relation "measures [\<lambda>x. case x of Inl (d, n, v) \<Rightarrow> 34 - d | Inr (Inl (d, n, vs)) \<Rightarrow> 34 - d
        | Inr (Inr (d, n, fs)) \<Rightarrow> 34 - d,
      \<lambda>x. case x of Inl (d, n, v) \<Rightarrow> 0 | Inr (Inl (d, n, vs)) \<Rightarrow> Suc (length vs)
        | Inr (Inr (d, n, fs)) \<Rightarrow> Suc (length fs)]") auto

declare canonical.simps [simp del]

definition canonicalizeWorkflowJsonV1 :: "json \<Rightarrow> string res" where
  "canonicalizeWorkflowJsonV1 v = bindE (canonical 0 0 v) (\<lambda>(s, n). Inr s)"

text \<open>An object literal whose optional properties are spread in only when present.\<close>

definition jobject :: "(string \<times> json option) list \<Rightarrow> json" where
  "jobject fs = JObj (List.map_filter (\<lambda>(k, v). map_option (Pair k) v) fs)"

subsection \<open>What the text depends on\<close>

text \<open>Values are compared up to the insertion order of object keys: \<open>json_norm\<close> sorts them.\<close>

fun json_norm :: "json \<Rightarrow> json" where
  "json_norm (JArr vs) = JArr (map json_norm vs)"
| "json_norm (JObj fs) = JObj (sort_key fst (map (\<lambda>(k, v). (k, json_norm v)) fs))"
| "json_norm v = v"

fun render :: "json \<Rightarrow> string" where
  "render JNull = ''null''"
| "render (JBool b) = (if b then ''true'' else ''false'')"
| "render (JNum n) = show_int n"
| "render (JStr s) = stringify_string s"
| "render (JArr vs) = CHR ''['' # joined (map render vs) @ '']''"
| "render (JObj fs) =
     CHR ''{'' # joined (map (\<lambda>(k, v). stringify_string k @ CHR '':'' # render v) fs) @ ''}''"

lemma insort_key_map_snd:
  "map (\<lambda>(k, v). (k, f v)) (insort_key fst x xs) =
   insort_key fst (fst x, f (snd x)) (map (\<lambda>(k, v). (k, f v)) xs)"
  by (induction xs) (auto split: prod.splits)

lemma sort_key_map_snd:
  "map (\<lambda>(k, v). (k, f v)) (sort_key fst xs) = sort_key fst (map (\<lambda>(k, v). (k, f v)) xs)"
  by (induction xs) (auto simp: insort_key_map_snd)

lemma canonical_render_aux:
  "canonical d n v = Inr (s, n') \<Longrightarrow> s = render (json_norm v)"
  "canonical_items d n vs = Inr (ss, n') \<Longrightarrow> ss = map (\<lambda>v. render (json_norm v)) vs"
  "canonical_fields d n fs = Inr (ss, n') \<Longrightarrow>
     ss = map (\<lambda>(k, v). stringify_string k @ CHR '':'' # render v) (map (\<lambda>(k, v). (k, json_norm v)) fs)"
proof (induction d n v and d n vs and d n fs arbitrary: s n' and ss n' and ss n'
    rule: canonical_canonical_items_canonical_fields.induct)
  case (1 d n v)
  from "1.prems" have d: "\<not> d > 32" "\<not> n + 1 > 16384"
    by (auto simp: canonical.simps split: if_splits)
  show ?case
  proof (cases v)
    case (JObj fs)
    from "1.prems" d obtain ss m where
      f: "canonical_fields (d + 1) (n + 1) (sort_key fst fs) = Inr (ss, m)"
      and s: "s = CHR ''{'' # joined ss @ ''}''" "\<not> length fs > 256"
      by (auto simp: canonical.simps JObj bindE_Inr_iff split: if_splits prod.splits)
    from "1.IH"(2)[OF d JObj s(2) f] s show ?thesis
      by (simp add: JObj sort_key_map_snd)
  next
    case (JArr vs)
    from "1.prems" d obtain ss m where
      f: "canonical_items (d + 1) (n + 1) vs = Inr (ss, m)"
      and s: "s = CHR ''['' # joined ss @ '']''" "\<not> length vs > 4096"
      by (auto simp: canonical.simps JArr bindE_Inr_iff split: if_splits prod.splits)
    from "1.IH"(1)[OF d JArr s(2) f] s show ?thesis
      by (simp add: JArr comp_def)
  qed (use "1.prems" d in \<open>auto simp: canonical.simps split: if_splits\<close>)
next
  case (3 d n v vs)
  then show ?case by (auto simp: bindE_Inr_iff split: prod.splits)
next
  case (5 d n k v fs)
  then show ?case by (auto simp: bindE_Inr_iff split: prod.splits)
qed auto

lemma canonicalize_render:
  "canonicalizeWorkflowJsonV1 v = Inr s \<Longrightarrow> s = render (json_norm v)"
  by (auto simp: canonicalizeWorkflowJsonV1_def bindE_Inr_iff dest: canonical_render_aux(1))

subsection \<open>The text is unambiguous\<close>

text \<open>
  Each rendering is decodable from the front: a decoder for one escaped character, then
  cancellation of quoted strings, numerals and values followed by any rest that does not
  continue a numeral.
\<close>

definition hexval :: "char \<Rightarrow> nat" where
  "hexval c = (let n = (of_char c :: nat) in if n < 58 then n - 48 else n - 87)"

lemma hexval_hexdig [simp]: "n < 16 \<Longrightarrow> hexval (hexdig n) = n"
  by (simp add: hexval_def hexdig_def Let_def)

fun unescape :: "string \<Rightarrow> (char \<times> string) option" where
  "unescape (x # y # r) =
     (if (of_char x :: nat) \<noteq> 92 then Some (x, y # r)
      else if y = CHR ''b'' then Some (char_of (8::nat), r)
      else if y = CHR ''t'' then Some (char_of (9::nat), r)
      else if y = CHR ''n'' then Some (char_of (10::nat), r)
      else if y = CHR ''f'' then Some (char_of (12::nat), r)
      else if y = CHR ''r'' then Some (char_of (13::nat), r)
      else if y = CHR ''u'' then
        (case r of _ # _ # a # b # r' \<Rightarrow> Some (char_of (16 * hexval a + hexval b), r') | _ \<Rightarrow> None)
      else Some (y, r))"
| "unescape _ = None"

lemma char_of_eq_iff_of_char: "n < 256 \<Longrightarrow> char_of n = c \<longleftrightarrow> (of_char c :: nat) = n"
  by (metis char_of_char of_char_char_of_small)

lemma code_of_quote_backslash:
  "(of_char c :: nat) = 34 \<longleftrightarrow> c = CHR 0x22"
  "(of_char c :: nat) = 92 \<longleftrightarrow> c = CHR 0x5C"
  using of_char_eq_iff[of c "CHR 0x22", where 'a = nat] of_char_eq_iff[of c "CHR 0x5C", where 'a = nat]
  by simp_all

lemma unescape_escape_char: "r \<noteq> [] \<Longrightarrow> unescape (escape_char c @ r) = Some (c, r)"
proof (cases "(of_char c :: nat) \<in> {34, 92, 8, 9, 10, 12, 13}")
  case True
  then show ?thesis
    by (auto simp: escape_char_def Let_def char_of_eq_iff_of_char code_of_quote_backslash)
next
  case False
  assume "r \<noteq> []"
  then obtain y ys where r: "r = y # ys" by (cases r) auto
  let ?n = "of_char c :: nat"
  show ?thesis
  proof (cases "?n < 32")
    case True
    then have "?n div 16 < 16" by simp
    then have "16 * hexval (hexdig (?n div 16)) + hexval (hexdig (?n mod 16)) = ?n" by simp
    with False True show ?thesis
      by (simp add: escape_char_def Let_def)
  next
    case 2: False
    with False show ?thesis by (simp add: escape_char_def Let_def r)
  qed
qed

lemma escape_char_not_quote: "escape_char c @ r \<noteq> quote # s"
  by (auto simp: escape_char_def Let_def quote_def)

lemma escaped_cancel:
  "concat (map escape_char s) @ quote # r = concat (map escape_char t) @ quote # u \<Longrightarrow> s = t \<and> r = u"
proof (induction s arbitrary: t)
  case Nil
  then show ?case
    by (cases t) (auto simp: escape_char_not_quote[symmetric])
next
  case (Cons c s)
  show ?case
  proof (cases t)
    case Nil
    with Cons.prems show ?thesis by (simp add: escape_char_not_quote)
  next
    case t: (Cons d t')
    from Cons.prems have e: "escape_char c @ (concat (map escape_char s) @ quote # r) =
        escape_char d @ (concat (map escape_char t') @ quote # u)"
      by (simp add: t)
    from arg_cong[OF e, of unescape] have "c = d \<and>
        concat (map escape_char s) @ quote # r = concat (map escape_char t') @ quote # u"
      by (simp add: unescape_escape_char)
    with Cons.IH show ?thesis by (auto simp: t)
  qed
qed

lemma stringify_string_cancel:
  "stringify_string s @ r = stringify_string t @ u \<Longrightarrow> s = t \<and> r = u"
  using escaped_cancel[of s r t u] by (simp add: stringify_string_def)

definition no_digit :: "string \<Rightarrow> bool" where
  "no_digit r \<longleftrightarrow> (case r of [] \<Rightarrow> True | c # _ \<Rightarrow> \<not> is_digit c)"

lemma digits_cancel:
  assumes "digits_nat m @ r = digits_nat n @ s" "no_digit r" "no_digit s"
  shows "m = n \<and> r = s"
proof -
  have tw: "takeWhile is_digit (digits_nat k @ x) = digits_nat k" if "no_digit x" for k x
    using that digits_nat_all[of k] by (cases x) (auto simp: no_digit_def)
  from assms have "digits_nat m = digits_nat n"
    by (metis tw)
  with assms(1) show ?thesis by simp
qed

lemma digits_nat_not_minus: "digits_nat n @ r \<noteq> CHR ''-'' # s"
proof
  assume e: "digits_nat n @ r = CHR ''-'' # s"
  obtain c cs where d: "digits_nat n = c # cs" by (cases "digits_nat n") auto
  with digits_nat_all[of n] have "is_digit c" by simp
  with e d show False by (simp add: is_digit_def)
qed

lemma show_int_cancel:
  assumes "show_int m @ r = show_int n @ s" "no_digit r" "no_digit s"
  shows "m = n \<and> r = s"
proof (cases "m < 0"; cases "n < 0")
  assume "m < 0" "n < 0"
  with assms(1) have "digits_nat (nat (- m)) @ r = digits_nat (nat (- n)) @ s"
    by (simp add: show_int_def)
  with digits_cancel assms(2,3) have "nat (- m) = nat (- n) \<and> r = s" by blast
  with \<open>m < 0\<close> \<open>n < 0\<close> show ?thesis by linarith
next
  assume "\<not> m < 0" "\<not> n < 0"
  with assms(1) have "digits_nat (nat m) @ r = digits_nat (nat n) @ s"
    by (simp add: show_int_def)
  with digits_cancel assms(2,3) have "nat m = nat n \<and> r = s" by blast
  with \<open>\<not> m < 0\<close> \<open>\<not> n < 0\<close> show ?thesis by linarith
next
  assume "m < 0" "\<not> n < 0"
  with assms(1) digits_nat_not_minus[of "nat n" s] show ?thesis
    by (simp add: show_int_def) metis
next
  assume "\<not> m < 0" "n < 0"
  with assms(1) digits_nat_not_minus[of "nat m" r] show ?thesis
    by (simp add: show_int_def)
qed

text \<open>A comma-separated sequence closed by a bracket is cancelled item by item.\<close>

lemma joined_Cons: "joined (x # xs) = x @ (if xs = [] then [] else CHR '','' # joined xs)"
  by (cases xs) auto

lemma joined_cancel:
  assumes item: "\<And>x y r s. x \<in> set xs \<Longrightarrow> e x @ r = e y @ s \<Longrightarrow> no_digit r \<Longrightarrow> no_digit s
      \<Longrightarrow> x = y \<and> r = s"
    and open_item: "\<And>x r s. e x @ r \<noteq> close # s"
    and close: "\<not> is_digit close" "close \<noteq> CHR '',''"
  shows "joined (map e xs) @ close # r = joined (map e ys) @ close # s \<Longrightarrow> xs = ys \<and> r = s"
  using item
proof (induction xs arbitrary: ys)
  case Nil
  show ?case
  proof (cases ys)
    case (Cons y ys')
    with Nil.prems(1) show ?thesis
      by (simp add: joined_Cons open_item[symmetric])
  qed (use Nil.prems(1) in simp)
next
  case (Cons x xs)
  show ?case
  proof (cases ys)
    case Nil
    with Cons.prems(1) show ?thesis by (simp add: joined_Cons open_item)
  next
    case ys: (Cons y ys')
    let ?rest = "\<lambda>zs t. (if zs = [] then [] else CHR '','' # joined (map e zs)) @ close # t"
    have nd: "no_digit (?rest zs t)" for zs t
      using close by (simp add: no_digit_def is_digit_def)
    from Cons.prems(1) have "e x @ ?rest xs r = e y @ ?rest ys' s"
      by (simp add: ys joined_Cons)
    with Cons.prems(2)[of x "?rest xs r" y "?rest ys' s"] nd
    have xy: "x = y" and rest: "?rest xs r = ?rest ys' s" by auto
    have "xs = ys' \<and> r = s"
    proof (cases "xs = [] \<or> ys' = []")
      case True
      with rest close(2) show ?thesis by (auto split: if_splits)
    next
      case False
      with rest have "joined (map e xs) @ close # r = joined (map e ys') @ close # s" by simp
      then show ?thesis
        by (rule Cons.IH) (rule Cons.prems(2); simp)
    qed
    with xy show ?thesis by (simp add: ys)
  qed
qed

lemma show_int_head: "\<exists>c cs. show_int n = c # cs \<and> (is_digit c \<or> c = CHR ''-'')"
proof -
  have "\<exists>c cs. digits_nat k = c # cs \<and> is_digit c" for k
    using digits_nat_all[of k] by (cases "digits_nat k") auto
  from this[of "nat n"] show ?thesis by (auto simp: show_int_def)
qed

definition render_head :: "json \<Rightarrow> char \<Rightarrow> bool" where
  "render_head v c = (case v of
      JNull \<Rightarrow> c = CHR ''n'' | JBool b \<Rightarrow> c = (if b then CHR ''t'' else CHR ''f'')
    | JNum n \<Rightarrow> is_digit c \<or> c = CHR ''-'' | JStr s \<Rightarrow> c = quote
    | JArr vs \<Rightarrow> c = CHR ''['' | JObj fs \<Rightarrow> c = CHR ''{'')"

lemma render_head: "\<exists>c cs. render v = c # cs \<and> render_head v c"
  using show_int_head by (cases v) (auto simp: render_head_def stringify_string_def)

lemma render_not_close:
  "c = CHR '']'' \<or> c = CHR ''}'' \<Longrightarrow> render v @ r \<noteq> c # s"
  using render_head[of v]
  by (cases v) (auto simp: render_head_def is_digit_def quote_def)

lemma render_same_kind:
  assumes "render v @ r = render w @ s"
  shows "\<exists>c. render_head v c \<and> render_head w c"
  using assms render_head[of v] render_head[of w] by fastforce

lemma render_cancel:
  "render v @ r = render w @ s \<Longrightarrow> no_digit r \<Longrightarrow> no_digit s \<Longrightarrow> v = w \<and> r = s"
proof (induction v arbitrary: w r s)
  case (JNum n)
  from render_same_kind[OF JNum.prems(1)] obtain m where "w = JNum m"
    by (cases w) (auto simp: render_head_def is_digit_def quote_def split: if_splits)
  with JNum.prems show_int_cancel[of n r m s] show ?case by simp
next
  case (JStr t)
  from render_same_kind[OF JStr.prems(1)] obtain u where "w = JStr u"
    by (cases w) (auto simp: render_head_def is_digit_def quote_def split: if_splits)
  with JStr.prems stringify_string_cancel[of t r u s] show ?case by simp
next
  case (JArr vs)
  from render_same_kind[OF JArr.prems(1)] obtain ws where w: "w = JArr ws"
    by (cases w) (auto simp: render_head_def is_digit_def quote_def split: if_splits)
  from JArr.prems(1) have "joined (map render vs) @ CHR '']'' # r = joined (map render ws) @ CHR '']'' # s"
    by (simp add: w)
  then have "vs = ws \<and> r = s"
    by (rule joined_cancel[rotated -1])
       (use JArr.IH render_not_close in \<open>auto simp: is_digit_def\<close>)
  with w show ?case by simp
next
  case (JObj fs)
  from render_same_kind[OF JObj.prems(1)] obtain gs where w: "w = JObj gs"
    by (cases w) (auto simp: render_head_def is_digit_def quote_def split: if_splits)
  let ?e = "\<lambda>(k, v). stringify_string k @ CHR '':'' # render v"
  from JObj.prems(1) have "joined (map ?e fs) @ CHR ''}'' # r = joined (map ?e gs) @ CHR ''}'' # s"
    by (simp add: w)
  moreover have "x = y \<and> a = b"
    if x: "x \<in> set fs" and eq: "?e x @ a = ?e y @ b" and nd: "no_digit a" "no_digit b" for x y a b
  proof -
    obtain k u l t where p: "x = (k, u)" "y = (l, t)" by fastforce
    from eq have "stringify_string k @ (CHR '':'' # render u @ a) = stringify_string l @ (CHR '':'' # render t @ b)"
      by (simp add: p)
    from stringify_string_cancel[OF this] have "k = l" "render u @ a = render t @ b" by auto
    with JObj.IH[of x u] x nd show ?thesis by (auto simp: p)
  qed
  moreover have "?e x @ a \<noteq> CHR ''}'' # b" for x a b
    by (cases x) (auto simp: stringify_string_def quote_def)
  ultimately have "fs = gs \<and> r = s"
    by (intro joined_cancel[where e = ?e and close = "CHR ''}''"]) (auto simp: is_digit_def)
  with w show ?case by simp
next
  case JNull
  from render_same_kind[OF JNull.prems(1)] have "w = JNull"
    by (cases w) (auto simp: render_head_def is_digit_def quote_def split: if_splits)
  with JNull.prems show ?case by simp
next
  case (JBool b)
  from render_same_kind[OF JBool.prems(1)] have "w = JBool b"
    by (cases w) (auto simp: render_head_def is_digit_def quote_def split: if_splits)
  with JBool.prems show ?case by simp
qed

lemma canonicalize_unambiguous:
  assumes "canonicalizeWorkflowJsonV1 v = Inr s" "canonicalizeWorkflowJsonV1 w = Inr s"
  shows "json_norm v = json_norm w"
  using assms render_cancel[of "json_norm v" "[]" "json_norm w" "[]"]
  by (auto dest!: canonicalize_render simp: no_digit_def)

text \<open>Conversely the text, errors included, depends only on the value up to key order.\<close>

lemma sort_key_fst_idem: "sort_key fst (sort_key fst xs) = sort_key fst (xs :: (string \<times> json) list)"
  by (simp add: sorted_sort_id sort_key_id_if_sorted)

lemma canonical_json_norm_aux:
  "canonical d n (json_norm v) = canonical d n v"
  "canonical_items d n (map json_norm vs) = canonical_items d n vs"
  "canonical_fields d n (map (\<lambda>(k, v). (k, json_norm v)) fs) = canonical_fields d n fs"
proof (induction d n v and d n vs and d n fs rule: canonical_canonical_items_canonical_fields.induct)
  case (1 d n v)
  show ?case
  proof (cases "d > 32 \<or> n + 1 > 16384")
    case True
    then show ?thesis by (auto simp: canonical.simps)
  next
    case False
    then have d: "\<not> d > 32" "\<not> n + 1 > 16384" by simp_all
    show ?thesis
    proof (cases v)
      case (JObj fs)
      show ?thesis
      proof (cases "length fs > 256")
        case False
        from "1.IH"(2)[OF d JObj False] show ?thesis
          using d False by (simp add: JObj canonical.simps sort_key_fst_idem flip: sort_key_map_snd)
      qed (simp add: JObj canonical.simps)
    next
      case (JArr vs)
      show ?thesis
      proof (cases "length vs > 4096")
        case False
        from "1.IH"(1)[OF d JArr False] show ?thesis
          using d False by (simp add: JArr canonical.simps)
      qed (simp add: JArr canonical.simps)
    qed (simp_all only: json_norm.simps)
  qed
next
  case (3 d n v vs)
  then show ?case by (cases "canonical d n v") auto
next
  case (5 d n k v fs)
  then show ?case by (cases "canonical d n v") auto
qed simp_all

lemma canonicalize_key_order:
  "json_norm v = json_norm w \<Longrightarrow> canonicalizeWorkflowJsonV1 v = canonicalizeWorkflowJsonV1 w"
  unfolding canonicalizeWorkflowJsonV1_def by (metis canonical_json_norm_aux(1))

end
