(* ===== verification/Sha256.thy ===== *)
theory Sha256
  imports Prelude "HOL-Library.Word"
begin

unbundle bit_operations_syntax

text \<open>
  The hash of \<open>packages/workflows/src/v1-canonical.ts\<close> (\<open>rotateRight\<close>,
  \<open>sha256Hex\<close>), on 32-bit words: the code forces every intermediate value back to 32 bits
  with \<open>>>> 0\<close> or a bitwise operator, so word arithmetic is what it computes. The message
  is a list of bytes; \<open>TextEncoder\<close> yields one byte for a code unit below 128 and two for
  the rest of the modelled range.
\<close>

definition encode_utf8 :: "string \<Rightarrow> int list" where
  "encode_utf8 s = concat (map (\<lambda>c. let n = of_char c in
     if n < 128 then [n] else [192 + n div 64, 128 + n mod 64]) s)"

text \<open>The table of the source, which has it in hexadecimal: \<open>0x428a2f98\<close> to \<open>0xc67178f2\<close>.\<close>

definition SHA256_CONSTANTS :: "32 word list" where
  "SHA256_CONSTANTS = [
   1116352408, 1899447441, 3049323471, 3921009573, 961987163, 1508970993,
   2453635748, 2870763221, 3624381080, 310598401, 607225278, 1426881987,
   1925078388, 2162078206, 2614888103, 3248222580, 3835390401, 4022224774,
   264347078, 604807628, 770255983, 1249150122, 1555081692, 1996064986,
   2554220882, 2821834349, 2952996808, 3210313671, 3336571891, 3584528711,
   113926993, 338241895, 666307205, 773529912, 1294757372, 1396182291,
   1695183700, 1986661051, 2177026350, 2456956037, 2730485921, 2820302411,
   3259730800, 3345764771, 3516065817, 3600352804, 4094571909, 275423344,
   430227734, 506948616, 659060556, 883997877, 958139571, 1322822218,
   1537002063, 1747873779, 1955562222, 2024104815, 2227730452, 2361852424,
   2428436474, 2756734187, 3204031479, 3329325298]"

definition rotateRight :: "32 word \<Rightarrow> nat \<Rightarrow> 32 word" where
  "rotateRight value count = drop_bit count value OR push_bit (32 - count) value"

text \<open>
  The padded message: the bytes, \<open>0x80\<close>, zeros up to \<open>paddedLength - 8\<close>, and the
  bit length as a 64-bit big-endian number written as two 32-bit halves.
\<close>

definition be32 :: "int \<Rightarrow> int list" where
  "be32 n = [n div 16777216 mod 256, n div 65536 mod 256, n div 256 mod 256, n mod 256]"

definition paddedLength :: "nat \<Rightarrow> nat" where
  "paddedLength n = (n + 72) div 64 * 64"

definition sha256_pad :: "int list \<Rightarrow> int list" where
  "sha256_pad bytes =
     (let bitLength = int (length bytes) * 8 in
      bytes @ [0x80] @ replicate (paddedLength (length bytes) - length bytes - 9) 0
        @ be32 (bitLength div 0x100000000) @ be32 (bitLength mod 0x100000000))"

text \<open>\<open>getUint32\<close>, big-endian, over the 64 bytes of a block: its 16 words.\<close>

fun words_of :: "int list \<Rightarrow> 32 word list" where
  "words_of (a # b # c # d # rest) =
     of_int (((a * 256 + b) * 256 + c) * 256 + d) # words_of rest"
| "words_of _ = []"

text \<open>
  The message schedule. \<open>extend n ws\<close> appends \<open>n\<close> words; the code indexes
  backwards from the end (\<open>index - 15\<close>, \<open>index - 2\<close>, \<open>index - 16\<close>,
  \<open>index - 7\<close>), and so does the list kept in reverse.
\<close>

fun extend :: "nat \<Rightarrow> 32 word list \<Rightarrow> 32 word list" where
  "extend 0 rws = rws"
| "extend (Suc n) rws =
     (let x = rws ! 14; y = rws ! 1 in
      extend n (((rotateRight x 7 XOR rotateRight x 18 XOR drop_bit 3 x) + rws ! 15
        + (rotateRight y 17 XOR rotateRight y 19 XOR drop_bit 10 y) + rws ! 6) # rws))"

type_synonym sha_state = "32 word \<times> 32 word \<times> 32 word \<times> 32 word \<times> 32 word \<times> 32 word \<times> 32 word \<times> 32 word"

fun sha_round :: "sha_state \<Rightarrow> 32 word \<times> 32 word \<Rightarrow> sha_state" where
  "sha_round (aa, bb, cc, dd, ee, ff, gg, hh) (k, w) =
     (let first = hh + (rotateRight ee 6 XOR rotateRight ee 11 XOR rotateRight ee 25)
            + ((ee AND ff) XOR (NOT ee AND gg)) + k + w;
          second = (rotateRight aa 2 XOR rotateRight aa 13 XOR rotateRight aa 22)
            + ((aa AND bb) XOR (aa AND cc) XOR (bb AND cc))
      in (first + second, aa, bb, cc, dd + first, ee, ff, gg))"

definition add_state :: "sha_state \<Rightarrow> sha_state \<Rightarrow> sha_state" where
  "add_state s t = (case (s, t) of ((a, b, c, d, e, f, g, h), (aa, bb, cc, dd, ee, ff, gg, hh)) \<Rightarrow>
     (a + aa, b + bb, c + cc, d + dd, e + ee, f + ff, g + gg, h + hh))"

definition sha_block :: "sha_state \<Rightarrow> int list \<Rightarrow> sha_state" where
  "sha_block s block =
     add_state s (foldl sha_round s (zip SHA256_CONSTANTS (rev (extend 48 (rev (words_of block))))))"

text \<open>The loop over the blocks, one per 64 bytes.\<close>

fun sha_blocks :: "nat \<Rightarrow> sha_state \<Rightarrow> int list \<Rightarrow> sha_state" where
  "sha_blocks 0 s data = s"
| "sha_blocks (Suc n) s data = sha_blocks n (sha_block s (take 64 data)) (drop 64 data)"

definition initial_state :: sha_state where
  "initial_state = (0x6a09e667, 0xbb67ae85, 0x3c6ef372, 0xa54ff53a,
     0x510e527f, 0x9b05688c, 0x1f83d9ab, 0x5be0cd19)"

definition hex_digit :: "int \<Rightarrow> char" where
  "hex_digit n = (if n < 10 then char_of (48 + n) else char_of (87 + n))"

text \<open>\<open>toString(16).padStart(8, "0")\<close>: eight hexadecimal digits.\<close>

definition hex8 :: "32 word \<Rightarrow> string" where
  "hex8 w = map (\<lambda>i. hex_digit (uint w div 16 ^ i mod 16)) [7, 6, 5, 4, 3, 2, 1, 0]"

definition sha256Hex :: "int list \<Rightarrow> string" where
  "sha256Hex bytes =
     (let data = sha256_pad bytes in
      case sha_blocks (length data div 64) initial_state data of
        (a, b, c, d, e, f, g, h) \<Rightarrow> concat (map hex8 [a, b, c, d, e, f, g, h]))"

subsection \<open>Padding and output format\<close>

lemma be32_length [simp]: "length (be32 n) = 4"
  by (simp add: be32_def)

lemma paddedLength_ge: "n + 9 \<le> paddedLength n" "paddedLength n < n + 9 + 64"
proof -
  have "(n + 72) div 64 * 64 + (n + 72) mod 64 = n + 72" by simp
  moreover have "(n + 72) mod 64 < 64" by simp
  ultimately show "n + 9 \<le> paddedLength n" "paddedLength n < n + 9 + 64"
    unfolding paddedLength_def by linarith+
qed

lemma length_sha256_pad: "length (sha256_pad bytes) = paddedLength (length bytes)"
  using paddedLength_ge(1)[of "length bytes"] by (simp add: sha256_pad_def Let_def)

lemma sha256_pad_blocks: "64 dvd length (sha256_pad bytes)"
  by (simp add: length_sha256_pad paddedLength_def)

definition lower_hex :: "char \<Rightarrow> bool" where
  "lower_hex c \<longleftrightarrow> (let n = (of_char c :: int) in (48 \<le> n \<and> n \<le> 57) \<or> (97 \<le> n \<and> n \<le> 102))"

lemma lower_hex_hex_digit: "0 \<le> n \<Longrightarrow> n < 16 \<Longrightarrow> lower_hex (hex_digit n)"
  by (auto simp: lower_hex_def hex_digit_def Let_def of_char_of)

lemma sha256Hex_format:
  "length (sha256Hex bytes) = 64" "\<forall>c \<in> set (sha256Hex bytes). lower_hex c"
proof -
  have "length (hex8 w) = 8" for w by (simp add: hex8_def)
  then show "length (sha256Hex bytes) = 64"
    by (simp add: sha256Hex_def Let_def split: prod.splits)
  have "\<forall>c \<in> set (hex8 w). lower_hex c" for w
    by (auto simp: hex8_def intro: lower_hex_hex_digit)
  then show "\<forall>c \<in> set (sha256Hex bytes). lower_hex c"
    by (auto simp: sha256Hex_def Let_def split: prod.splits)
qed

end
