(* ===== verification/IsoTime.thy ===== *)
theory IsoTime
  imports Prelude
begin

text \<open>
  The part of the JavaScript \<open>Date\<close> library that the packages use on logical times:
  \<open>Date.parse\<close> on the 24-character form \<open>YYYY-MM-DDTHH:MM:SS.mmmZ\<close> that every
  timestamp check demands, and \<open>toISOString\<close>. \<open>Date.parse\<close> accepts what the engine
  named by the package (Node.js 22) accepts: months 1 to 12, days 1 to 31 in every month, hours
  0 to 23 or exactly 24:00:00.000. A string of another form is \<open>NaN\<close> (\<open>None\<close>) here.
  The calendar is the proleptic Gregorian one; the round trip shows that adding milliseconds to
  a timestamp moves its instant by exactly that amount.
\<close>

subsection \<open>Days and civil dates\<close>

definition days_from_civil :: "int \<Rightarrow> int \<Rightarrow> int \<Rightarrow> int" where
  "days_from_civil y m d =
     (let y' = (if m \<le> 2 then y - 1 else y);
          era = y' div 400; yoe = y' mod 400;
          doy = (153 * (if m > 2 then m - 3 else m + 9) + 2) div 5 + d - 1;
          doe = yoe * 365 + yoe div 4 - yoe div 100 + doy
      in era * 146097 + doe - 719468)"

definition civil_from_days :: "int \<Rightarrow> int \<times> int \<times> int" where
  "civil_from_days days =
     (let z = days + 719468;
          era = z div 146097; doe = z mod 146097;
          c = min 3 (doe div 36524); r = doe - c * 36524;
          q = r div 1461; r2 = r - q * 1461;
          y = min 3 (r2 div 365); doy = r2 - y * 365;
          mp = (5 * doy + 2) div 153;
          d = doy - (153 * mp + 2) div 5 + 1;
          m = (if mp < 10 then mp + 3 else mp - 9);
          year = era * 400 + (100 * c + 4 * q + y)
      in (if m \<le> 2 then year + 1 else year, m, d))"

lemma year_of_era:
  fixes doe :: int
  assumes "0 \<le> doe" "doe < 146097"
  defines "c \<equiv> min 3 (doe div 36524)"
  defines "r \<equiv> doe - c * 36524"
  defines "q \<equiv> r div 1461"
  defines "r2 \<equiv> r - q * 1461"
  defines "y \<equiv> min 3 (r2 div 365)"
  defines "doy \<equiv> r2 - y * 365"
  shows "0 \<le> c" "c \<le> 3" "0 \<le> q" "q \<le> 24" "0 \<le> y" "y \<le> 3" "0 \<le> doy" "doy \<le> 365"
    "doe = c * 36524 + q * 1461 + y * 365 + doy"
proof -
  have c: "0 \<le> c" "c \<le> 3" "c * 36524 \<le> doe" "doe \<le> c * 36524 + 36524"
    using assms(1,2) unfolding c_def by linarith+
  then have r: "0 \<le> r" "r \<le> 36524" unfolding r_def by linarith+
  then have q: "0 \<le> q" "q \<le> 24" "0 \<le> r2" "r2 \<le> 1460" unfolding q_def r2_def by linarith+
  then have y: "0 \<le> y" "y \<le> 3" "0 \<le> doy" "doy \<le> 365" unfolding y_def doy_def by linarith+
  show "0 \<le> c" "c \<le> 3" "0 \<le> q" "q \<le> 24" "0 \<le> y" "y \<le> 3" "0 \<le> doy" "doy \<le> 365"
    using c q y by simp_all
  show "doe = c * 36524 + q * 1461 + y * 365 + doy"
    unfolding doy_def r2_def r_def by simp
qed

lemma month_of_year:
  fixes doy :: int
  assumes "0 \<le> doy" "doy \<le> 365"
  defines "mp \<equiv> (5 * doy + 2) div 153"
  defines "d \<equiv> doy - (153 * mp + 2) div 5 + 1"
  shows "0 \<le> mp" "mp \<le> 11" "1 \<le> d" "d \<le> 31"
  using assms(1,2) unfolding d_def mp_def by linarith+

lemma days_civil_roundtrip:
  assumes "civil_from_days days = (y, m, d)"
  shows "days_from_civil y m d = days" "1 \<le> m" "m \<le> 12" "1 \<le> d" "d \<le> 31"
proof -
  define z where "z = days + 719468"
  define doe where "doe = z mod 146097"
  define c where "c = min 3 (doe div 36524)"
  define r where "r = doe - c * 36524"
  define q where "q = r div 1461"
  define r2 where "r2 = r - q * 1461"
  define yy where "yy = min 3 (r2 div 365)"
  define doy where "doy = r2 - yy * 365"
  define mp where "mp = (5 * doy + 2) div 153"
  have doe: "0 \<le> doe" "doe < 146097" by (simp_all add: doe_def)
  note era = year_of_era[OF doe, folded c_def, folded r_def, folded q_def, folded r2_def,
      folded yy_def, folded doy_def]
  note month = month_of_year[OF era(7,8), folded mp_def]
  define yoe where "yoe = 100 * c + 4 * q + yy"
  have yoe: "0 \<le> yoe" "yoe < 400" "yoe div 4 = 25 * c + q" "yoe div 100 = c"
    unfolding yoe_def using era by linarith+
  have md: "m = (if mp < 10 then mp + 3 else mp - 9)" "d = doy - (153 * mp + 2) div 5 + 1"
    "y = (if m \<le> 2 then z div 146097 * 400 + yoe + 1 else z div 146097 * 400 + yoe)"
    using assms
    unfolding civil_from_days_def Let_def z_def[symmetric] doe_def[symmetric] c_def[symmetric]
      r_def[symmetric] q_def[symmetric] r2_def[symmetric] yy_def[symmetric] doy_def[symmetric]
      mp_def[symmetric] yoe_def[symmetric]
    by auto
  have mp_m: "(if m > 2 then m - 3 else m + 9) = mp" using md(1) month by auto
  have y': "(if m \<le> 2 then y - 1 else y) = z div 146097 * 400 + yoe" using md(3) by simp
  have yo: "(z div 146097 * 400 + yoe) div 400 = z div 146097"
    "(z div 146097 * 400 + yoe) mod 400 = yoe" using yoe(1,2) by simp_all
  have "days_from_civil y m d =
      z div 146097 * 146097 + (yoe * 365 + (25 * c + q) - c + doy) - 719468"
    unfolding days_from_civil_def Let_def mp_m y' yo yoe(3,4) md(2) by simp
  also have "yoe * 365 + (25 * c + q) - c + doy = doe"
    unfolding yoe_def using era(9) by simp
  also have "z div 146097 * 146097 + doe - 719468 = days"
    unfolding doe_def by (simp add: z_def)
  finally show "days_from_civil y m d = days" .
  show "1 \<le> m" "m \<le> 12" "1 \<le> d" "d \<le> 31" using md month by auto
qed

subsection \<open>Timestamps\<close>

text \<open>A number printed in exactly \<open>k\<close> digits, and read back.\<close>

fun pad_digits :: "nat \<Rightarrow> int \<Rightarrow> string" where
  "pad_digits 0 n = []"
| "pad_digits (Suc k) n = pad_digits k (n div 10) @ [char_of (48 + nat (n mod 10))]"

definition read_digits :: "string \<Rightarrow> int option" where
  "read_digits s = (if list_all is_digit s then Some (int (nat_of_digits 0 s)) else None)"

lemma length_pad_digits [simp]: "length (pad_digits k n) = k"
  by (induction k arbitrary: n) auto

lemma pad_digits_digits: "list_all is_digit (pad_digits k n)"
  by (induction k arbitrary: n) auto

lemma nat_of_pad_digits: "0 \<le> n \<Longrightarrow> n < 10 ^ k \<Longrightarrow> int (nat_of_digits 0 (pad_digits k n)) = n"
proof (induction k arbitrary: n)
  case (Suc k)
  have "n div 10 < 10 ^ k" using Suc.prems by simp
  moreover have "0 \<le> n div 10" using Suc.prems by simp
  ultimately have "int (nat_of_digits 0 (pad_digits k (n div 10))) = n div 10"
    by (intro Suc.IH)
  then show ?case by (simp add: nat_of_digits_append)
qed simp

lemma read_pad_digits [simp]: "0 \<le> n \<Longrightarrow> n < 10 ^ k \<Longrightarrow> read_digits (pad_digits k n) = Some n"
  by (simp add: read_digits_def pad_digits_digits nat_of_pad_digits)

definition iso_shape :: "string \<Rightarrow> bool" where
  "iso_shape s \<longleftrightarrow> length s = 24
     \<and> list_all is_digit (take 4 s) \<and> s ! 4 = CHR ''-''
     \<and> list_all is_digit (take 2 (drop 5 s)) \<and> s ! 7 = CHR ''-''
     \<and> list_all is_digit (take 2 (drop 8 s)) \<and> s ! 10 = CHR ''T''
     \<and> list_all is_digit (take 2 (drop 11 s)) \<and> s ! 13 = CHR '':''
     \<and> list_all is_digit (take 2 (drop 14 s)) \<and> s ! 16 = CHR '':''
     \<and> list_all is_digit (take 2 (drop 17 s)) \<and> s ! 19 = CHR ''.''
     \<and> list_all is_digit (take 3 (drop 20 s)) \<and> s ! 23 = CHR ''Z''"

definition field :: "string \<Rightarrow> nat \<Rightarrow> nat \<Rightarrow> int" where
  "field s i k = int (nat_of_digits 0 (take k (drop i s)))"

definition date_parse :: "string \<Rightarrow> int option" where
  "date_parse s =
     (if \<not> iso_shape s then None
      else let y = field s 0 4; mo = field s 5 2; d = field s 8 2;
               h = field s 11 2; mi = field s 14 2; se = field s 17 2; ms = field s 20 3
        in if 1 \<le> mo \<and> mo \<le> 12 \<and> 1 \<le> d \<and> d \<le> 31 \<and> mi \<le> 59 \<and> se \<le> 59
             \<and> (h \<le> 23 \<or> (h = 24 \<and> mi = 0 \<and> se = 0 \<and> ms = 0))
           then Some (((days_from_civil y mo d * 24 + h) * 60 + mi) * 60000 + se * 1000 + ms)
           else None)"

text \<open>
  \<open>new Date(ms).toISOString()\<close>: a \<open>RangeError\<close> beyond the range of a date; years
  outside 0 to 9999 are printed with a sign and six digits.
\<close>

definition toISOString :: "int \<Rightarrow> string res" where
  "toISOString t =
     (if \<bar>t\<bar> > 8640000000000000 then Inl (RangeError ''Invalid time value'')
      else case civil_from_days (t div 86400000) of (y, mo, d) \<Rightarrow>
        let r = t mod 86400000;
            year = (if 0 \<le> y \<and> y \<le> 9999 then pad_digits 4 y
                    else (if y < 0 then CHR ''-'' else CHR ''+'') # pad_digits 6 \<bar>y\<bar>)
        in Inr (year @ CHR ''-'' # pad_digits 2 mo @ CHR ''-'' # pad_digits 2 d
             @ CHR ''T'' # pad_digits 2 (r div 3600000) @ CHR '':'' # pad_digits 2 (r div 60000 mod 60)
             @ CHR '':'' # pad_digits 2 (r div 1000 mod 60) @ CHR ''.'' # pad_digits 3 (r mod 1000)
             @ [CHR ''Z'']))"

text \<open>The instants whose year has four digits.\<close>

definition four_digit_year :: "int \<Rightarrow> bool" where
  "four_digit_year t \<longleftrightarrow> (case civil_from_days (t div 86400000) of (y, _, _) \<Rightarrow> 0 \<le> y \<and> y \<le> 9999)"

lemma nth_append_at: "length xs = n \<Longrightarrow> (xs @ c # ys) ! n = c"
  by auto

lemma list2E: assumes "length xs = 2" obtains a b where "xs = [a, b]"
  using assms by (auto simp: numeral_2_eq_2 length_Suc_conv)

lemma list3E: assumes "length xs = 3" obtains a b c where "xs = [a, b, c]"
  using assms by (auto simp: numeral_3_eq_3 length_Suc_conv)

lemma list4E: assumes "length xs = 4" obtains a b c d where "xs = [a, b, c, d]"
  using assms by (auto simp: numeral_eq_Suc length_Suc_conv)

lemma date_parse_fields:
  assumes "y = pad_digits 4 yv" "mo = pad_digits 2 mov" "d = pad_digits 2 dv" "h = pad_digits 2 hv"
    "mi = pad_digits 2 miv" "se = pad_digits 2 sev" "ms = pad_digits 3 msv"
    "0 \<le> yv" "yv \<le> 9999" "1 \<le> mov" "mov \<le> 12" "1 \<le> dv" "dv \<le> 31" "0 \<le> hv" "hv \<le> 23"
    "0 \<le> miv" "miv \<le> 59" "0 \<le> sev" "sev \<le> 59" "0 \<le> msv" "msv \<le> 999"
  shows "date_parse (y @ CHR ''-'' # mo @ CHR ''-'' # d @ CHR ''T'' # h @ CHR '':'' # mi @ CHR '':'' # se
      @ CHR ''.'' # ms @ [CHR ''Z'']) =
    Some (((days_from_civil yv mov dv * 24 + hv) * 60 + miv) * 60000 + sev * 1000 + msv)"
proof -
  have len: "length y = 4" "length mo = 2" "length d = 2" "length h = 2" "length mi = 2"
    "length se = 2" "length ms = 3" using assms(1-7) by simp_all
  have dig: "list_all is_digit y" "list_all is_digit mo" "list_all is_digit d"
    "list_all is_digit h" "list_all is_digit mi" "list_all is_digit se" "list_all is_digit ms"
    using assms(1-7) by (simp_all add: pad_digits_digits)
  have val: "int (nat_of_digits 0 y) = yv" "int (nat_of_digits 0 mo) = mov"
    "int (nat_of_digits 0 d) = dv" "int (nat_of_digits 0 h) = hv" "int (nat_of_digits 0 mi) = miv"
    "int (nat_of_digits 0 se) = sev" "int (nat_of_digits 0 ms) = msv"
    using assms by (simp_all add: nat_of_pad_digits)
  let ?s = "y @ CHR ''-'' # mo @ CHR ''-'' # d @ CHR ''T'' # h @ CHR '':'' # mi @ CHR '':'' # se
      @ CHR ''.'' # ms @ [CHR ''Z'']"
  obtain y1 y2 y3 y4 where y: "y = [y1, y2, y3, y4]" using len(1) by (rule list4E)
  obtain a1 a2 where a: "mo = [a1, a2]" using len(2) by (rule list2E)
  obtain b1 b2 where b: "d = [b1, b2]" using len(3) by (rule list2E)
  obtain c1 c2 where c: "h = [c1, c2]" using len(4) by (rule list2E)
  obtain e1 e2 where e: "mi = [e1, e2]" using len(5) by (rule list2E)
  obtain f1 f2 where f: "se = [f1, f2]" using len(6) by (rule list2E)
  obtain g1 g2 g3 where g: "ms = [g1, g2, g3]" using len(7) by (rule list3E)
  note parts = y a b c e f g
  have shape: "iso_shape ?s"
    using dig by (simp add: iso_shape_def parts numeral_eq_Suc)
  have fields: "field ?s 0 4 = yv" "field ?s 5 2 = mov" "field ?s 8 2 = dv"
    "field ?s 11 2 = hv" "field ?s 14 2 = miv" "field ?s 17 2 = sev" "field ?s 20 3 = msv"
    unfolding val[symmetric] by (simp_all add: field_def parts numeral_eq_Suc)
  show ?thesis
    unfolding date_parse_def Let_def fields using shape assms(8-) by simp
qed

lemma clock_sum:
  fixes a b :: int
  assumes "b = h * 60 + m" "a = b * 60 + s" "r = a * 1000 + x"
  shows "((D * 24 + h) * 60 + m) * 60000 + s * 1000 + x = D * 86400000 + r"
  using assms by simp

lemma parse_toISOString:
  assumes "toISOString t = Inr s" "four_digit_year t"
  shows "date_parse s = Some t"
proof -
  obtain y mo d where c: "civil_from_days (t div 86400000) = (y, mo, d)"
    by (cases "civil_from_days (t div 86400000)") auto
  note rt = days_civil_roundtrip[OF c]
  from assms(2) c have y: "0 \<le> y" "y \<le> 9999" by (simp_all add: four_digit_year_def)
  define r where "r = t mod 86400000"
  have r: "0 \<le> r" "r < 86400000" by (simp_all add: r_def)
  have s: "s = pad_digits 4 y @ CHR ''-'' # pad_digits 2 mo @ CHR ''-'' # pad_digits 2 d
             @ CHR ''T'' # pad_digits 2 (r div 3600000) @ CHR '':'' # pad_digits 2 (r div 60000 mod 60)
             @ CHR '':'' # pad_digits 2 (r div 1000 mod 60) @ CHR ''.'' # pad_digits 3 (r mod 1000)
             @ [CHR ''Z'']"
    using assms(1) c y by (simp add: toISOString_def Let_def r_def split: if_splits)
  have h: "r div 3600000 \<le> 23" "0 \<le> r div 3600000" using r by linarith+
  have "date_parse s = Some (((days_from_civil y mo d * 24 + r div 3600000) * 60 + r div 60000 mod 60) * 60000
      + r div 1000 mod 60 * 1000 + r mod 1000)"
    unfolding s by (rule date_parse_fields[OF refl refl refl refl refl refl refl y rt(2-5) h(2,1)]) auto
  also have "\<dots> = Some t"
  proof -
    have "r div 60000 div 60 = r div 3600000" "r div 1000 div 60 = r div 60000"
      using zdiv_zmult2_eq[of 60 r 60000] zdiv_zmult2_eq[of 60 r 1000] by simp_all
    then have b: "r div 60000 = r div 3600000 * 60 + r div 60000 mod 60"
      and a: "r div 1000 = r div 60000 * 60 + r div 1000 mod 60"
      using div_mult_mod_eq[of "r div 60000" 60] div_mult_mod_eq[of "r div 1000" 60] by metis+
    have x: "r = r div 1000 * 1000 + r mod 1000" by (rule div_mult_mod_eq[symmetric])
    have t: "days_from_civil y mo d * 86400000 + r = t" unfolding rt(1) r_def by (rule div_mult_mod_eq)
    show ?thesis unfolding clock_sum[OF b a x] t ..
  qed
  finally show ?thesis .
qed

end
