(* ===== verification/WfBase.thy ===== *)
theory WfBase
  imports CanonicalJson Sha256 IsoTime
begin

text \<open>
  The field checks and the digest that every file of \<open>packages/workflows/src\<close> repeats
  (\<open>token\<close>, \<open>text\<close>, \<open>positive\<close>, \<open>nonNegative\<close>, \<open>digest\<close>,
  \<open>time\<close>/\<open>timestamp\<close>, \<open>checkedAdd\<close>), the time arithmetic of the runner
  (\<open>addMilliseconds\<close>, \<open>reached\<close>), and \<open>digestWorkflowJsonV1\<close>. The digest's
  preimage separates domains and values; its format is the one the \<open>digest\<close> check accepts.
\<close>

subsection \<open>Field checks\<close>

definition control :: "char \<Rightarrow> bool" where
  "control c \<longleftrightarrow> (let n = (of_char c :: nat) in n \<le> 31 \<or> n = 127)"

definition valid_token :: "string \<Rightarrow> bool" where
  "valid_token v \<longleftrightarrow> 1 \<le> length v \<and> length v \<le> 160 \<and> \<not> list_ex control v"

definition token :: "string \<Rightarrow> string \<Rightarrow> unit res" where
  "token v label = require (valid_token v) (label @ '' is invalid'')"

text \<open>\<open>text\<close> also lets tab, line feed and carriage return through.\<close>

definition valid_text :: "string \<Rightarrow> nat \<Rightarrow> bool" where
  "valid_text v maximum \<longleftrightarrow> 1 \<le> length v \<and> length v \<le> maximum
     \<and> \<not> list_ex (\<lambda>c. control c \<and> (of_char c :: nat) \<notin> {9, 10, 13}) v"

definition text_check :: "string \<Rightarrow> string \<Rightarrow> nat \<Rightarrow> unit res" where
  "text_check v label maximum = require (valid_text v maximum) (label @ '' is invalid'')"

definition positive :: "int \<Rightarrow> string \<Rightarrow> unit res" where
  "positive n label =
     require (isSafeInteger n \<and> 1 \<le> n) (label @ '' must be a positive safe integer'')"

definition nonNegative :: "int \<Rightarrow> string \<Rightarrow> unit res" where
  "nonNegative n label =
     require (isSafeInteger n \<and> 0 \<le> n) (label @ '' must be a non-negative safe integer'')"

definition checkedAdd :: "int \<Rightarrow> int \<Rightarrow> string \<Rightarrow> int res" where
  "checkedAdd left right message =
     (if isSafeInteger (left + right) then Inr (left + right) else fail message)"

definition valid_digest :: "string \<Rightarrow> bool" where
  "valid_digest v \<longleftrightarrow> take 7 v = ''sha256:'' \<and> length v = 71 \<and> list_all lower_hex (drop 7 v)"

definition digest :: "string \<Rightarrow> string \<Rightarrow> unit res" where
  "digest v label = require (valid_digest v) (label @ '' is invalid'')"

definition timestamp :: "string \<Rightarrow> string \<Rightarrow> unit res" where
  "timestamp v label = require (date_parse v \<noteq> None) (label @ '' is invalid'')"

text \<open>The check of an optional property that is present.\<close>

definition optional :: "'a option \<Rightarrow> ('a \<Rightarrow> unit res) \<Rightarrow> unit res" where
  "optional v chk = (case v of None \<Rightarrow> Inr () | Some x \<Rightarrow> chk x)"

text \<open>\<open>if (value) check(value)\<close>: an empty string is skipped like an absent one.\<close>

definition if_truthy :: "string option \<Rightarrow> (string \<Rightarrow> unit res) \<Rightarrow> unit res" where
  "if_truthy v chk = (case v of None \<Rightarrow> Inr () | Some s \<Rightarrow> if s = [] then Inr () else chk s)"

text \<open>\<open>...(value ? {value} : {})\<close>: an empty string is left out like an absent one.\<close>

definition given :: "string option \<Rightarrow> string option" where
  "given v = (if truthy v then v else None)"

lemma given_simps [simp]: "given None = None" "truthy (given v) = truthy v" "truthy v \<Longrightarrow> given v = v"
  by (simp_all add: given_def truthy_def)

lemma checks_Inr_iff [simp]:
  "token v l = Inr u \<longleftrightarrow> valid_token v"
  "text_check v l k = Inr u \<longleftrightarrow> valid_text v k"
  "positive n l = Inr u \<longleftrightarrow> isSafeInteger n \<and> 1 \<le> n"
  "nonNegative n l = Inr u \<longleftrightarrow> isSafeInteger n \<and> 0 \<le> n"
  "digest v l = Inr u \<longleftrightarrow> valid_digest v"
  "timestamp v l = Inr u \<longleftrightarrow> date_parse v \<noteq> None"
  by (simp_all add: token_def text_check_def positive_def nonNegative_def digest_def timestamp_def)

lemma optional_Inr_iff [simp]: "optional v chk = Inr u \<longleftrightarrow> (\<forall>x. v = Some x \<longrightarrow> chk x = Inr ())"
  by (cases v) (auto simp: optional_def)

lemma if_truthy_Inr_iff [simp]:
  "if_truthy v chk = Inr u \<longleftrightarrow> (\<forall>s. v = Some s \<longrightarrow> s \<noteq> [] \<longrightarrow> chk s = Inr ())"
  by (cases v) (auto simp: if_truthy_def)

lemma checkedAdd_Inr_iff [simp]:
  "checkedAdd a b m = Inr c \<longleftrightarrow> c = a + b \<and> isSafeInteger (a + b)"
  by (auto simp: checkedAdd_def)

subsection \<open>Time arithmetic of the runner\<close>

definition addMilliseconds :: "string \<Rightarrow> int \<Rightarrow> string res" where
  "addMilliseconds v milliseconds =
     (case date_parse v of
        None \<Rightarrow> fail ''workflow wait time overflowed''
      | Some t \<Rightarrow>
          if \<not> isSafeInteger (t + milliseconds) then fail ''workflow wait time overflowed''
          else toISOString (t + milliseconds))"

definition reached :: "string \<Rightarrow> string option \<Rightarrow> bool" where
  "reached current target \<longleftrightarrow> truthy target \<and> js_le (date_parse (the target)) (date_parse current)"

lemma addMilliseconds_parse:
  assumes "addMilliseconds v d = Inr w" "date_parse v = Some t" "four_digit_year (t + d)"
  shows "date_parse w = Some (t + d)"
  using assms by (auto simp: addMilliseconds_def intro: parse_toISOString split: if_splits)

subsection \<open>The workflow digest\<close>

definition workflow_digest_bytes :: "string \<Rightarrow> json \<Rightarrow> int list res" where
  "workflow_digest_bytes domain v =
     bindE (token domain ''digest domain'') (\<lambda>_.
     bindE (canonicalizeWorkflowJsonV1 v) (\<lambda>s.
       Inr (encode_utf8 (''agentplat.workflows/'' @ domain @ ''/v1'' @ CHR 0x00 # s))))"

definition digestWorkflowJsonV1 :: "string \<Rightarrow> json \<Rightarrow> string res" where
  "digestWorkflowJsonV1 domain v =
     bindE (workflow_digest_bytes domain v) (\<lambda>bytes.
       if length bytes > 1048576 then fail ''workflow digest input is too large''
       else Inr (''sha256:'' @ sha256Hex bytes))"

lemma digestWorkflowJsonV1_valid: "digestWorkflowJsonV1 domain v = Inr d \<Longrightarrow> valid_digest d"
  using sha256Hex_format
  by (auto simp: digestWorkflowJsonV1_def bindE_Inr_iff valid_digest_def list_all_iff split: if_splits)

text \<open>UTF-8 is a prefix code, so the bytes name the text.\<close>

lemma encode_utf8_inject: "encode_utf8 s = encode_utf8 t \<Longrightarrow> s = t"
proof (induction s arbitrary: t)
  case Nil
  then show ?case by (cases t) (auto simp: encode_utf8_def Let_def split: if_splits)
next
  case (Cons c s)
  obtain d t' where t: "t = d # t'"
    using Cons.prems by (cases t) (auto simp: encode_utf8_def Let_def split: if_splits)
  have "of_char c = (of_char d :: int) \<and> encode_utf8 s = encode_utf8 t'"
  proof (cases "(of_char c :: int) < 128"; cases "(of_char d :: int) < 128")
    assume "\<not> (of_char c :: int) < 128" "\<not> (of_char d :: int) < 128"
    with Cons.prems have "(of_char c :: int) div 64 = of_char d div 64"
      "(of_char c :: int) mod 64 = of_char d mod 64" "encode_utf8 s = encode_utf8 t'"
      by (simp_all add: t encode_utf8_def Let_def)
    then show ?thesis by (metis div_mult_mod_eq)
  next
    assume h: "(of_char c :: int) < 128" "\<not> (of_char d :: int) < 128"
    then have "2 \<le> (of_char d :: int) div 64" by simp
    with h Cons.prems show ?thesis by (simp add: t encode_utf8_def Let_def)
  next
    assume h: "\<not> (of_char c :: int) < 128" "(of_char d :: int) < 128"
    then have "2 \<le> (of_char c :: int) div 64" by simp
    with h Cons.prems show ?thesis by (simp add: t encode_utf8_def Let_def)
  qed (use Cons.prems in \<open>simp_all add: t encode_utf8_def Let_def\<close>)
  then have "c = d" "encode_utf8 s = encode_utf8 t'" by simp_all
  with Cons.IH show ?case by (simp add: t)
qed

lemma separator_cancel:
  assumes "xs @ c # ys = us @ c # vs" "c \<notin> set xs" "c \<notin> set us"
  shows "xs = us \<and> ys = vs"
  using assms
proof (induction xs arbitrary: us)
  case Nil
  then show ?case by (cases us) auto
next
  case (Cons x xs)
  then obtain u us' where us: "us = u # us'" by (cases us) auto
  from Cons.prems have "xs @ c # ys = us' @ c # vs" "c \<notin> set xs" "c \<notin> set us'" "x = u"
    by (simp_all add: us)
  with Cons.IH[of us'] show ?case by (simp add: us)
qed

lemma valid_token_no_nul: "valid_token v \<Longrightarrow> CHR 0x00 \<notin> set v"
  by (auto simp: valid_token_def list_ex_iff control_def Let_def)

lemma workflow_digest_bytes_unambiguous:
  assumes "workflow_digest_bytes d v = Inr bs" "workflow_digest_bytes e w = Inr bs"
  shows "d = e \<and> json_norm v = json_norm w"
proof -
  from assms obtain s t where
    st: "valid_token d" "valid_token e" "canonicalizeWorkflowJsonV1 v = Inr s" "canonicalizeWorkflowJsonV1 w = Inr t"
    and eq: "encode_utf8 (''agentplat.workflows/'' @ d @ ''/v1'' @ CHR 0x00 # s) =
      encode_utf8 (''agentplat.workflows/'' @ e @ ''/v1'' @ CHR 0x00 # t)"
    by (auto simp: workflow_digest_bytes_def bindE_Inr_iff)
  from encode_utf8_inject[OF eq] have "(d @ ''/v1'') @ CHR 0x00 # s = (e @ ''/v1'') @ CHR 0x00 # t"
    by simp
  from separator_cancel[OF this] st(1,2) valid_token_no_nul have "d @ ''/v1'' = e @ ''/v1''" "s = t"
    by auto
  then have "d = e" "canonicalizeWorkflowJsonV1 w = Inr s" using st(4) by simp_all
  with canonicalize_unambiguous[OF st(3)] show ?thesis by blast
qed

text \<open>The composite keys \<open>`${a}\0${b}`\<close> of the in-memory maps.\<close>

definition key2 :: "string \<Rightarrow> string \<Rightarrow> string" where
  "key2 a b = a @ CHR 0x00 # b"

definition key3 :: "string \<Rightarrow> string \<Rightarrow> string \<Rightarrow> string" where
  "key3 a b c = a @ CHR 0x00 # b @ CHR 0x00 # c"

lemma key2_inject:
  assumes "valid_token a" "valid_token a'"
  shows "key2 a b = key2 a' b' \<longleftrightarrow> a = a' \<and> b = b'"
  using separator_cancel[of a "CHR 0x00" b a' b'] assms[THEN valid_token_no_nul]
  by (auto simp: key2_def)

lemma key3_inject:
  assumes "valid_token a" "valid_token a'" "valid_token b" "valid_token b'"
  shows "key3 a b c = key3 a' b' c' \<longleftrightarrow> a = a' \<and> b = b' \<and> c = c'"
  using key2_inject[OF assms(1,2), of "key2 b c" "key2 b' c'"] key2_inject[OF assms(3,4), of c c']
  by (simp add: key3_def key2_def)

end
