(* ===== verification/WfContracts.thy ===== *)
theory WfContracts
  imports WfBase
begin

text \<open>
  The contracts of \<open>packages/workflows/src/v1-contracts.ts\<close>: enumerations as datatypes,
  interfaces as records, an optional property as an \<open>option\<close>. A record carries exactly the
  properties of its interface, so the \<open>exactKeys\<close> shape checks hold by typing and are not
  repeated in the operations; \<open>clone\<close> and \<open>deepFreeze\<close> are the identity on values.
  The second part is the JSON view of each record that is hashed: an absent optional property is
  left out, and the record's own digest is not part of it.
\<close>

subsection \<open>Definitions\<close>

record process_definition_limits =
  maximumStages :: int
  maximumDependenciesPerStage :: int
  maximumDependentsPerStage :: int
  maximumAttemptsPerTask :: int
  maximumSignalBytes :: int
  maximumRetainedSignals :: int
  maximumTransitionsPerAdvance :: int
  maximumRetainedOperations :: int
  maximumRunDurationMs :: int
  maximumGateDurationMs :: int

definition DEFAULT_PROCESS_DEFINITION_LIMITS_V1 :: process_definition_limits where
  "DEFAULT_PROCESS_DEFINITION_LIMITS_V1 = \<lparr>
     maximumStages = 256,
     maximumDependenciesPerStage = 32,
     maximumDependentsPerStage = 64,
     maximumAttemptsPerTask = 16,
     maximumSignalBytes = 65536,
     maximumRetainedSignals = 1024,
     maximumTransitionsPerAdvance = 256,
     maximumRetainedOperations = 65536,
     maximumRunDurationMs = 366 * 24 * 60 * 60 * 1000,
     maximumGateDurationMs = 30 * 24 * 60 * 60 * 1000\<rparr>"

datatype stage_outcome =
  Succeeded | Failed | TimedOut | Canceled | Skipped | SignalReceived | Approved | Rejected | Expired

record stage_dependency =
  dep_stageId :: string
  dep_outcomes :: "stage_outcome list"

datatype dependency_mode = ModeAll | ModeAny

text \<open>The union over \<open>kind\<close>, with the properties each kind adds to the base.\<close>

datatype stage_kind =
    TaskStage (task_definitionId: string) (task_definitionVersion: string)
      (task_retryMaximumAttempts: "int option") (task_compensationFor: "string option")
  | WaitStage (wait_durationMs: int)
  | AwaitSignalStage (await_signalType: string) (await_correlationKey: "string option")
  | GateStage (gate_type: string) (gate_definitionId: string)
      (gate_configuration: "json option") (gate_expiresInMs: "int option")

record process_stage =
  st_schemaVersion :: int
  st_stageId :: string
  st_name :: string
  st_dependsOn :: "stage_dependency list"
  st_dependencyMode :: "dependency_mode option"
  st_timeoutMs :: "int option"
  st_metadata :: "json option"
  st_kind :: stage_kind

record cancellation_trigger =
  trig_signalType :: string
  trig_correlationKey :: "string option"
  trig_reasonCode :: string

record process_definition =
  pd_schemaVersion :: int
  pd_processId :: string
  pd_version :: string
  pd_name :: string
  pd_stages :: "process_stage list"
  pd_cancellationTriggers :: "cancellation_trigger list option"
  pd_limits :: process_definition_limits
  pd_definitionDigest :: string

record action_binding =
  ab_namespace :: string
  ab_toolId :: string
  ab_operation :: string

datatype effect_class = Internal | ProtectedExternal

record task_definition =
  td_schemaVersion :: int
  td_taskDefinitionId :: string
  td_version :: string
  td_name :: string
  td_handlerKey :: string
  td_handlerDigest :: string
  td_effectClass :: effect_class
  td_actionBinding :: "action_binding option"
  td_definitionDigest :: string

subsection \<open>Task runs\<close>

record binding_input =
  bi_promptRevision :: "string option"
  bi_promptDigest :: "string option"
  bi_modelProvider :: "string option"
  bi_modelName :: "string option"
  bi_modelRevision :: "string option"
  bi_modelConfigurationDigest :: "string option"
  bi_policyDigest :: "string option"
  bi_toolsetDigest :: "string option"
  bi_runtimeImplementationDigest :: "string option"

definition no_binding_input :: binding_input where
  "no_binding_input = \<lparr>bi_promptRevision = None, bi_promptDigest = None, bi_modelProvider = None,
     bi_modelName = None, bi_modelRevision = None, bi_modelConfigurationDigest = None,
     bi_policyDigest = None, bi_toolsetDigest = None, bi_runtimeImplementationDigest = None\<rparr>"

record execution_binding =
  eb_taskDefinitionId :: string
  eb_taskDefinitionVersion :: string
  eb_handlerDigest :: string
  eb_input :: binding_input
  eb_bindingDigest :: string

record usage_cost =
  uc_currency :: string
  uc_micros :: int

record task_usage =
  us_inputTokens :: "int option"
  us_outputTokens :: "int option"
  us_totalTokens :: "int option"
  us_durationMs :: "int option"
  us_cost :: "usage_cost option"

record usage_aggregate =
  ua_inputTokens :: int
  ua_outputTokens :: int
  ua_totalTokens :: int
  ua_durationMs :: int
  ua_costs :: "usage_cost list"

datatype task_run_status =
  TRClaimed | TRRunning | TRCompleted | TRFailed | TRCanceled | TRIndeterminate

record subject_reference =
  sr_subjectType :: string
  sr_subjectId :: string

record task_run =
  tr_schemaVersion :: int
  tr_tenantId :: string
  tr_taskRunId :: string
  tr_processRunId :: string
  tr_stageId :: string
  tr_attempt :: int
  tr_revision :: int
  tr_idempotencyKey :: string
  tr_inputDigest :: string
  tr_status :: task_run_status
  tr_binding :: execution_binding
  tr_subject :: "subject_reference option"
  tr_usage :: "task_usage option"
  tr_resultReference :: "string option"
  tr_resultDigest :: "string option"
  tr_reasonCode :: "string option"
  tr_retryable :: "bool option"
  tr_leaseOwnerId :: string
  tr_leaseToken :: string
  tr_leaseGeneration :: int
  tr_leaseExpiresAt :: string
  tr_startedAt :: "string option"
  tr_finishedAt :: "string option"
  tr_createdAt :: string
  tr_updatedAt :: string
  tr_stateDigest :: string

subsection \<open>Process runs\<close>

datatype run_status =
  RPending | RRunning | RWaiting | RCanceling | RCompleted | RFailed | RCanceled

datatype stage_status = Blocked | Ready | Running | Waiting | Terminal

record stage_state =
  ss_stageId :: string
  ss_status :: stage_status
  ss_outcome :: "stage_outcome option"
  ss_attempt :: int
  ss_taskRunId :: "string option"
  ss_waitUntil :: "string option"
  ss_consumedSignalId :: "string option"
  ss_gateRequestId :: "string option"
  ss_startedAt :: "string option"
  ss_finishedAt :: "string option"
  ss_reasonCode :: "string option"

record cancellation_state =
  cn_operationId :: string
  cn_reasonCode :: string
  cn_requestedAt :: string
  cn_pendingCompensationStageIds :: "string list"

record process_run =
  pr_schemaVersion :: int
  pr_tenantId :: string
  pr_runId :: string
  pr_processId :: string
  pr_processVersion :: string
  pr_definitionDigest :: string
  pr_revision :: int
  pr_status :: run_status
  pr_stageStates :: "stage_state list"
  pr_input :: "json option"
  pr_result :: "json option"
  pr_subject :: "subject_reference option"
  pr_cancellation :: "cancellation_state option"
  pr_createdAt :: string
  pr_updatedAt :: string
  pr_stateDigest :: string

record process_signal =
  sg_schemaVersion :: int
  sg_tenantId :: string
  sg_runId :: string
  sg_signalId :: string
  sg_signalType :: string
  sg_correlationKey :: "string option"
  sg_payload :: "json option"
  sg_sourceType :: string
  sg_sourceId :: string
  sg_sourceRevision :: "int option"
  sg_receivedAt :: string
  sg_signalDigest :: string

subsection \<open>Inputs and results of the runner\<close>

record start_input =
  si_tenantId :: string
  si_runId :: string
  si_processId :: string
  si_processVersion :: string
  si_operationId :: string
  si_idempotencyKey :: string
  si_input :: "json option"
  si_subject :: "subject_reference option"
  si_logicalTime :: string

text \<open>The signal of a signal operation, without tenant, run, schema and digest.\<close>

record signal_content =
  sc_signalId :: string
  sc_signalType :: string
  sc_correlationKey :: "string option"
  sc_payload :: "json option"
  sc_sourceType :: string
  sc_sourceId :: string
  sc_sourceRevision :: "int option"
  sc_receivedAt :: string

record signal_input =
  gi_tenantId :: string
  gi_runId :: string
  gi_operationId :: string
  gi_idempotencyKey :: string
  gi_signal :: signal_content
  gi_logicalTime :: string

record cancel_input =
  ci_tenantId :: string
  ci_runId :: string
  ci_operationId :: string
  ci_idempotencyKey :: string
  ci_reasonCode :: string
  ci_logicalTime :: string

record advance_input =
  ai_tenantId :: string
  ai_runId :: string
  ai_operationId :: string
  ai_idempotencyKey :: string
  ai_logicalTime :: string
  ai_maximumTransitions :: "int option"

datatype disposition = Applied | Replayed

record operation_result =
  or_disposition :: disposition
  or_run :: process_run

datatype task_result =
    TaskCompleted (res_result: "json option") (res_resultReference: "string option")
      (res_resultDigest: "string option") (res_usage: "task_usage option")
  | TaskFailed (fail_reasonCode: string) (fail_retryable: "bool option") (fail_usage: "task_usage option")
  | TaskIndeterminate (ind_reasonCode: string) (ind_usage: "task_usage option")
  | TaskInFlight (fly_reasonCode: string)

datatype gate_status = GWaiting | GApproved | GRejected | GExpired | GFailed

record gate_result =
  gr_status :: gate_status
  gr_gateRequestId :: string
  gr_reasonCode :: "string option"

record gate_request =
  gq_tenantId :: string
  gq_runId :: string
  gq_stageId :: string
  gq_gateType :: string
  gq_gateDefinitionId :: string
  gq_configuration :: "json option"
  gq_processInput :: "json option"
  gq_requestedAt :: string
  gq_expiresAt :: "string option"
  gq_logicalTime :: string

record task_request =
  rq_tenantId :: string
  rq_runId :: string
  rq_stage :: process_stage
  rq_taskDefinition :: task_definition
  rq_attempt :: int
  rq_taskRunId :: string
  rq_idempotencyKey :: string
  rq_binding :: execution_binding
  rq_processInput :: "json option"
  rq_leaseOwnerId :: string
  rq_leaseToken :: string
  rq_leaseGeneration :: int
  rq_leaseExpiresAt :: string

datatype operation_kind = OpStart | OpSignal | OpCancel | OpAdvance

record operation_record =
  op_tenantId :: string
  op_operationKind :: operation_kind
  op_idempotencyKey :: string
  op_requestDigest :: string
  op_runId :: string

subsection \<open>The JSON view of the hashed records\<close>

fun outcome_string :: "stage_outcome \<Rightarrow> string" where
  "outcome_string Succeeded = ''succeeded''"
| "outcome_string Failed = ''failed''"
| "outcome_string TimedOut = ''timed_out''"
| "outcome_string Canceled = ''canceled''"
| "outcome_string Skipped = ''skipped''"
| "outcome_string SignalReceived = ''signal_received''"
| "outcome_string Approved = ''approved''"
| "outcome_string Rejected = ''rejected''"
| "outcome_string Expired = ''expired''"

fun task_status_string :: "task_run_status \<Rightarrow> string" where
  "task_status_string TRClaimed = ''claimed''"
| "task_status_string TRRunning = ''running''"
| "task_status_string TRCompleted = ''completed''"
| "task_status_string TRFailed = ''failed''"
| "task_status_string TRCanceled = ''canceled''"
| "task_status_string TRIndeterminate = ''indeterminate''"

fun run_status_string :: "run_status \<Rightarrow> string" where
  "run_status_string RPending = ''pending''"
| "run_status_string RRunning = ''running''"
| "run_status_string RWaiting = ''waiting''"
| "run_status_string RCanceling = ''canceling''"
| "run_status_string RCompleted = ''completed''"
| "run_status_string RFailed = ''failed''"
| "run_status_string RCanceled = ''canceled''"

fun stage_status_string :: "stage_status \<Rightarrow> string" where
  "stage_status_string Blocked = ''blocked''"
| "stage_status_string Ready = ''ready''"
| "stage_status_string Running = ''running''"
| "stage_status_string Waiting = ''waiting''"
| "stage_status_string Terminal = ''terminal''"

fun operation_kind_string :: "operation_kind \<Rightarrow> string" where
  "operation_kind_string OpStart = ''start''"
| "operation_kind_string OpSignal = ''signal''"
| "operation_kind_string OpCancel = ''cancel''"
| "operation_kind_string OpAdvance = ''advance''"

definition limits_json :: "process_definition_limits \<Rightarrow> json" where
  "limits_json l = JObj [
     (''maximumStages'', JNum (maximumStages l)),
     (''maximumDependenciesPerStage'', JNum (maximumDependenciesPerStage l)),
     (''maximumDependentsPerStage'', JNum (maximumDependentsPerStage l)),
     (''maximumAttemptsPerTask'', JNum (maximumAttemptsPerTask l)),
     (''maximumSignalBytes'', JNum (maximumSignalBytes l)),
     (''maximumRetainedSignals'', JNum (maximumRetainedSignals l)),
     (''maximumTransitionsPerAdvance'', JNum (maximumTransitionsPerAdvance l)),
     (''maximumRetainedOperations'', JNum (maximumRetainedOperations l)),
     (''maximumRunDurationMs'', JNum (maximumRunDurationMs l)),
     (''maximumGateDurationMs'', JNum (maximumGateDurationMs l))]"

definition dependency_json :: "stage_dependency \<Rightarrow> json" where
  "dependency_json d = JObj [
     (''stageId'', JStr (dep_stageId d)),
     (''outcomes'', JArr (map (JStr \<circ> outcome_string) (dep_outcomes d)))]"

definition stage_kind_fields :: "stage_kind \<Rightarrow> (string \<times> json option) list" where
  "stage_kind_fields k = (case k of
     TaskStage i v r c \<Rightarrow>
       [(''kind'', Some (JStr ''task'')), (''taskDefinitionId'', Some (JStr i)),
        (''taskDefinitionVersion'', Some (JStr v)),
        (''retryPolicy'', map_option (\<lambda>n. JObj [(''maximumAttempts'', JNum n)]) r),
        (''compensationForStageId'', map_option JStr c)]
   | WaitStage d \<Rightarrow> [(''kind'', Some (JStr ''wait'')), (''durationMs'', Some (JNum d))]
   | AwaitSignalStage t c \<Rightarrow>
       [(''kind'', Some (JStr ''await_signal'')), (''signalType'', Some (JStr t)),
        (''correlationKey'', map_option JStr c)]
   | GateStage t i c e \<Rightarrow>
       [(''kind'', Some (JStr ''gate'')), (''gateType'', Some (JStr t)),
        (''gateDefinitionId'', Some (JStr i)), (''configuration'', c),
        (''expiresInMs'', map_option JNum e)])"

definition stage_json :: "process_stage \<Rightarrow> json" where
  "stage_json s = jobject ([
     (''schemaVersion'', Some (JNum (st_schemaVersion s))),
     (''stageId'', Some (JStr (st_stageId s))),
     (''name'', Some (JStr (st_name s))),
     (''dependsOn'', Some (JArr (map dependency_json (st_dependsOn s)))),
     (''dependencyMode'', map_option (\<lambda>m. JStr (case m of ModeAll \<Rightarrow> ''all'' | ModeAny \<Rightarrow> ''any''))
        (st_dependencyMode s)),
     (''timeoutMs'', map_option JNum (st_timeoutMs s)),
     (''metadata'', st_metadata s)] @ stage_kind_fields (st_kind s))"

definition trigger_json :: "cancellation_trigger \<Rightarrow> json" where
  "trigger_json t = jobject [
     (''kind'', Some (JStr ''signal'')),
     (''signalType'', Some (JStr (trig_signalType t))),
     (''correlationKey'', map_option JStr (trig_correlationKey t)),
     (''reasonCode'', Some (JStr (trig_reasonCode t)))]"

definition process_definition_json :: "process_definition \<Rightarrow> json" where
  "process_definition_json d = jobject [
     (''schemaVersion'', Some (JNum (pd_schemaVersion d))),
     (''processId'', Some (JStr (pd_processId d))),
     (''version'', Some (JStr (pd_version d))),
     (''name'', Some (JStr (pd_name d))),
     (''stages'', Some (JArr (map stage_json (pd_stages d)))),
     (''cancellationTriggers'', map_option (\<lambda>ts. JArr (map trigger_json ts)) (pd_cancellationTriggers d)),
     (''limits'', Some (limits_json (pd_limits d)))]"

definition action_binding_json :: "action_binding \<Rightarrow> json" where
  "action_binding_json a = JObj [
     (''namespace'', JStr (ab_namespace a)), (''toolId'', JStr (ab_toolId a)),
     (''operation'', JStr (ab_operation a))]"

definition task_definition_json :: "task_definition \<Rightarrow> json" where
  "task_definition_json d = jobject [
     (''schemaVersion'', Some (JNum (td_schemaVersion d))),
     (''taskDefinitionId'', Some (JStr (td_taskDefinitionId d))),
     (''version'', Some (JStr (td_version d))),
     (''name'', Some (JStr (td_name d))),
     (''handlerKey'', Some (JStr (td_handlerKey d))),
     (''handlerDigest'', Some (JStr (td_handlerDigest d))),
     (''effectClass'', Some (JStr (case td_effectClass d of Internal \<Rightarrow> ''internal''
        | ProtectedExternal \<Rightarrow> ''protected_external''))),
     (''actionBinding'', map_option action_binding_json (td_actionBinding d))]"

definition binding_input_fields :: "binding_input \<Rightarrow> (string \<times> string option) list" where
  "binding_input_fields b = [
     (''promptRevision'', bi_promptRevision b),
     (''promptDigest'', bi_promptDigest b),
     (''modelProvider'', bi_modelProvider b),
     (''modelName'', bi_modelName b),
     (''modelRevision'', bi_modelRevision b),
     (''modelConfigurationDigest'', bi_modelConfigurationDigest b),
     (''policyDigest'', bi_policyDigest b),
     (''toolsetDigest'', bi_toolsetDigest b),
     (''runtimeImplementationDigest'', bi_runtimeImplementationDigest b)]"

definition binding_fields :: "execution_binding \<Rightarrow> (string \<times> json option) list" where
  "binding_fields b =
     [(''taskDefinitionId'', Some (JStr (eb_taskDefinitionId b))),
      (''taskDefinitionVersion'', Some (JStr (eb_taskDefinitionVersion b))),
      (''handlerDigest'', Some (JStr (eb_handlerDigest b)))]
     @ map (\<lambda>(k, v). (k, map_option JStr v)) (binding_input_fields (eb_input b))"

text \<open>The binding inside a task run is hashed with its own digest; the digest of a binding is not.\<close>

definition binding_body_json :: "execution_binding \<Rightarrow> json" where
  "binding_body_json b = jobject (binding_fields b)"

definition binding_json :: "execution_binding \<Rightarrow> json" where
  "binding_json b = jobject (binding_fields b @ [(''bindingDigest'', Some (JStr (eb_bindingDigest b)))])"

definition cost_json :: "usage_cost \<Rightarrow> json" where
  "cost_json c = JObj [(''currency'', JStr (uc_currency c)), (''micros'', JNum (uc_micros c))]"

definition usage_json :: "task_usage \<Rightarrow> json" where
  "usage_json u = jobject [
     (''inputTokens'', map_option JNum (us_inputTokens u)),
     (''outputTokens'', map_option JNum (us_outputTokens u)),
     (''totalTokens'', map_option JNum (us_totalTokens u)),
     (''durationMs'', map_option JNum (us_durationMs u)),
     (''cost'', map_option cost_json (us_cost u))]"

definition subject_json :: "subject_reference \<Rightarrow> json" where
  "subject_json s = JObj [(''subjectType'', JStr (sr_subjectType s)), (''subjectId'', JStr (sr_subjectId s))]"

definition task_run_json :: "task_run \<Rightarrow> json" where
  "task_run_json r = jobject [
     (''schemaVersion'', Some (JNum (tr_schemaVersion r))),
     (''tenantId'', Some (JStr (tr_tenantId r))),
     (''taskRunId'', Some (JStr (tr_taskRunId r))),
     (''processRunId'', Some (JStr (tr_processRunId r))),
     (''stageId'', Some (JStr (tr_stageId r))),
     (''attempt'', Some (JNum (tr_attempt r))),
     (''revision'', Some (JNum (tr_revision r))),
     (''idempotencyKey'', Some (JStr (tr_idempotencyKey r))),
     (''inputDigest'', Some (JStr (tr_inputDigest r))),
     (''status'', Some (JStr (task_status_string (tr_status r)))),
     (''binding'', Some (binding_json (tr_binding r))),
     (''subject'', map_option subject_json (tr_subject r)),
     (''usage'', map_option usage_json (tr_usage r)),
     (''resultReference'', map_option JStr (tr_resultReference r)),
     (''resultDigest'', map_option JStr (tr_resultDigest r)),
     (''reasonCode'', map_option JStr (tr_reasonCode r)),
     (''retryable'', map_option JBool (tr_retryable r)),
     (''leaseOwnerId'', Some (JStr (tr_leaseOwnerId r))),
     (''leaseToken'', Some (JStr (tr_leaseToken r))),
     (''leaseGeneration'', Some (JNum (tr_leaseGeneration r))),
     (''leaseExpiresAt'', Some (JStr (tr_leaseExpiresAt r))),
     (''startedAt'', map_option JStr (tr_startedAt r)),
     (''finishedAt'', map_option JStr (tr_finishedAt r)),
     (''createdAt'', Some (JStr (tr_createdAt r))),
     (''updatedAt'', Some (JStr (tr_updatedAt r)))]"

definition stage_state_json :: "stage_state \<Rightarrow> json" where
  "stage_state_json s = jobject [
     (''stageId'', Some (JStr (ss_stageId s))),
     (''status'', Some (JStr (stage_status_string (ss_status s)))),
     (''outcome'', map_option (JStr \<circ> outcome_string) (ss_outcome s)),
     (''attempt'', Some (JNum (ss_attempt s))),
     (''taskRunId'', map_option JStr (ss_taskRunId s)),
     (''waitUntil'', map_option JStr (ss_waitUntil s)),
     (''consumedSignalId'', map_option JStr (ss_consumedSignalId s)),
     (''gateRequestId'', map_option JStr (ss_gateRequestId s)),
     (''startedAt'', map_option JStr (ss_startedAt s)),
     (''finishedAt'', map_option JStr (ss_finishedAt s)),
     (''reasonCode'', map_option JStr (ss_reasonCode s))]"

definition cancellation_json :: "cancellation_state \<Rightarrow> json" where
  "cancellation_json c = JObj [
     (''operationId'', JStr (cn_operationId c)),
     (''reasonCode'', JStr (cn_reasonCode c)),
     (''requestedAt'', JStr (cn_requestedAt c)),
     (''pendingCompensationStageIds'', JArr (map JStr (cn_pendingCompensationStageIds c)))]"

definition process_run_json :: "process_run \<Rightarrow> json" where
  "process_run_json r = jobject [
     (''schemaVersion'', Some (JNum (pr_schemaVersion r))),
     (''tenantId'', Some (JStr (pr_tenantId r))),
     (''runId'', Some (JStr (pr_runId r))),
     (''processId'', Some (JStr (pr_processId r))),
     (''processVersion'', Some (JStr (pr_processVersion r))),
     (''definitionDigest'', Some (JStr (pr_definitionDigest r))),
     (''revision'', Some (JNum (pr_revision r))),
     (''status'', Some (JStr (run_status_string (pr_status r)))),
     (''stageStates'', Some (JArr (map stage_state_json (pr_stageStates r)))),
     (''input'', pr_input r),
     (''result'', pr_result r),
     (''subject'', map_option subject_json (pr_subject r)),
     (''cancellation'', map_option cancellation_json (pr_cancellation r)),
     (''createdAt'', Some (JStr (pr_createdAt r))),
     (''updatedAt'', Some (JStr (pr_updatedAt r)))]"

definition signal_json :: "process_signal \<Rightarrow> json" where
  "signal_json s = jobject [
     (''schemaVersion'', Some (JNum (sg_schemaVersion s))),
     (''tenantId'', Some (JStr (sg_tenantId s))),
     (''runId'', Some (JStr (sg_runId s))),
     (''signalId'', Some (JStr (sg_signalId s))),
     (''signalType'', Some (JStr (sg_signalType s))),
     (''correlationKey'', map_option JStr (sg_correlationKey s)),
     (''payload'', sg_payload s),
     (''sourceType'', Some (JStr (sg_sourceType s))),
     (''sourceId'', Some (JStr (sg_sourceId s))),
     (''sourceRevision'', map_option JNum (sg_sourceRevision s)),
     (''receivedAt'', Some (JStr (sg_receivedAt s)))]"

definition start_input_json :: "start_input \<Rightarrow> json" where
  "start_input_json i = jobject [
     (''tenantId'', Some (JStr (si_tenantId i))),
     (''runId'', Some (JStr (si_runId i))),
     (''processId'', Some (JStr (si_processId i))),
     (''processVersion'', Some (JStr (si_processVersion i))),
     (''operationId'', Some (JStr (si_operationId i))),
     (''idempotencyKey'', Some (JStr (si_idempotencyKey i))),
     (''input'', si_input i),
     (''subject'', map_option subject_json (si_subject i)),
     (''logicalTime'', Some (JStr (si_logicalTime i)))]"

definition signal_content_json :: "signal_content \<Rightarrow> json" where
  "signal_content_json s = jobject [
     (''signalId'', Some (JStr (sc_signalId s))),
     (''signalType'', Some (JStr (sc_signalType s))),
     (''correlationKey'', map_option JStr (sc_correlationKey s)),
     (''payload'', sc_payload s),
     (''sourceType'', Some (JStr (sc_sourceType s))),
     (''sourceId'', Some (JStr (sc_sourceId s))),
     (''sourceRevision'', map_option JNum (sc_sourceRevision s)),
     (''receivedAt'', Some (JStr (sc_receivedAt s)))]"

definition signal_input_json :: "signal_input \<Rightarrow> json" where
  "signal_input_json i = jobject [
     (''tenantId'', Some (JStr (gi_tenantId i))),
     (''runId'', Some (JStr (gi_runId i))),
     (''operationId'', Some (JStr (gi_operationId i))),
     (''idempotencyKey'', Some (JStr (gi_idempotencyKey i))),
     (''signal'', Some (signal_content_json (gi_signal i))),
     (''logicalTime'', Some (JStr (gi_logicalTime i)))]"

definition cancel_input_json :: "cancel_input \<Rightarrow> json" where
  "cancel_input_json i = jobject [
     (''tenantId'', Some (JStr (ci_tenantId i))),
     (''runId'', Some (JStr (ci_runId i))),
     (''operationId'', Some (JStr (ci_operationId i))),
     (''idempotencyKey'', Some (JStr (ci_idempotencyKey i))),
     (''reasonCode'', Some (JStr (ci_reasonCode i))),
     (''logicalTime'', Some (JStr (ci_logicalTime i)))]"

definition advance_input_json :: "advance_input \<Rightarrow> json" where
  "advance_input_json i = jobject [
     (''tenantId'', Some (JStr (ai_tenantId i))),
     (''runId'', Some (JStr (ai_runId i))),
     (''operationId'', Some (JStr (ai_operationId i))),
     (''idempotencyKey'', Some (JStr (ai_idempotencyKey i))),
     (''logicalTime'', Some (JStr (ai_logicalTime i))),
     (''maximumTransitions'', map_option JNum (ai_maximumTransitions i))]"

end
