(* ===== verification/WfValidation.thy ===== *)
theory WfValidation
  imports WfContracts
begin

text \<open>
  \<open>packages/workflows/src/v1-validation.ts\<close>: the checks of a process or task definition, the
  depth-first search that rejects cyclic stage graphs and yields the topological order, and the
  constructors that compute the definition digest. The lemmas: the search succeeds exactly on
  acyclic graphs and lists every stage after its dependencies; a validated definition respects
  its own limits, and its compensation stages target normal task stages.
\<close>

subsection \<open>Stages and limits\<close>

fun stageOutcomes :: "stage_kind \<Rightarrow> stage_outcome list" where
  "stageOutcomes (TaskStage _ _ _ _) = [Succeeded, Failed, TimedOut, Canceled, Skipped]"
| "stageOutcomes (WaitStage _) = [Succeeded, Canceled, Skipped]"
| "stageOutcomes (AwaitSignalStage _ _) = [SignalReceived, TimedOut, Canceled, Skipped]"
| "stageOutcomes (GateStage _ _ _ _) = [Approved, Rejected, Expired, Failed, Canceled, Skipped]"

text \<open>\<open>stage.kind === "task" && stage.compensationForStageId\<close>\<close>

definition is_compensation :: "process_stage \<Rightarrow> bool" where
  "is_compensation s = (case st_kind s of TaskStage _ _ _ c \<Rightarrow> truthy c | _ \<Rightarrow> False)"

definition compensation_target :: "process_stage \<Rightarrow> string" where
  "compensation_target s = (case st_kind s of TaskStage _ _ _ (Some t) \<Rightarrow> t | _ \<Rightarrow> [])"

definition is_task :: "process_stage \<Rightarrow> bool" where
  "is_task s = (case st_kind s of TaskStage _ _ _ _ \<Rightarrow> True | _ \<Rightarrow> False)"

definition validateLimits :: "process_definition_limits \<Rightarrow> unit res" where
  "validateLimits l = seqE [
     positive (maximumStages l) ''maximumStages'',
     positive (maximumDependenciesPerStage l) ''maximumDependenciesPerStage'',
     positive (maximumDependentsPerStage l) ''maximumDependentsPerStage'',
     positive (maximumAttemptsPerTask l) ''maximumAttemptsPerTask'',
     positive (maximumSignalBytes l) ''maximumSignalBytes'',
     positive (maximumRetainedSignals l) ''maximumRetainedSignals'',
     positive (maximumTransitionsPerAdvance l) ''maximumTransitionsPerAdvance'',
     positive (maximumRetainedOperations l) ''maximumRetainedOperations'',
     positive (maximumRunDurationMs l) ''maximumRunDurationMs'',
     positive (maximumGateDurationMs l) ''maximumGateDurationMs'',
     require (maximumStages l \<le> maximumStages DEFAULT_PROCESS_DEFINITION_LIMITS_V1)
       ''maximumStages exceeds the V1 ceiling'',
     require (maximumDependenciesPerStage l
         \<le> maximumDependenciesPerStage DEFAULT_PROCESS_DEFINITION_LIMITS_V1)
       ''maximumDependenciesPerStage exceeds the V1 ceiling'',
     require (maximumDependentsPerStage l
         \<le> maximumDependentsPerStage DEFAULT_PROCESS_DEFINITION_LIMITS_V1)
       ''maximumDependentsPerStage exceeds the V1 ceiling'',
     require (maximumAttemptsPerTask l \<le> maximumAttemptsPerTask DEFAULT_PROCESS_DEFINITION_LIMITS_V1
         \<and> maximumSignalBytes l \<le> maximumSignalBytes DEFAULT_PROCESS_DEFINITION_LIMITS_V1
         \<and> maximumRetainedSignals l \<le> maximumRetainedSignals DEFAULT_PROCESS_DEFINITION_LIMITS_V1
         \<and> maximumTransitionsPerAdvance l \<le> maximumTransitionsPerAdvance DEFAULT_PROCESS_DEFINITION_LIMITS_V1
         \<and> maximumRetainedOperations l \<le> maximumRetainedOperations DEFAULT_PROCESS_DEFINITION_LIMITS_V1
         \<and> maximumRunDurationMs l \<le> maximumRunDurationMs DEFAULT_PROCESS_DEFINITION_LIMITS_V1
         \<and> maximumGateDurationMs l \<le> maximumGateDurationMs DEFAULT_PROCESS_DEFINITION_LIMITS_V1)
       ''process definition limit exceeds the V1 ceiling'']"

definition json_check :: "json \<Rightarrow> unit res" where
  "json_check v = bindE (canonicalizeWorkflowJsonV1 v) (\<lambda>_. Inr ())"

text \<open>The loop over the dependencies of a stage, with the set of the IDs already seen.\<close>

definition validate_dependency :: "string list \<Rightarrow> stage_dependency \<Rightarrow> string list res" where
  "validate_dependency dependencyIds dependency =
     bindE (token (dep_stageId dependency) ''dependency stageId'') (\<lambda>_.
       if dep_outcomes dependency = [] \<or> \<not> distinct (dep_outcomes dependency)
         then fail ''stage dependency outcomes are invalid''
       else if dep_stageId dependency \<in> set dependencyIds
         then fail ''stage dependency is duplicated''
       else Inr (dep_stageId dependency # dependencyIds))"

definition validate_stage_kind :: "stage_kind \<Rightarrow> process_definition_limits \<Rightarrow> unit res" where
  "validate_stage_kind k limits = (case k of
     TaskStage i v retry target \<Rightarrow> seqE [
       token i ''taskDefinitionId'',
       token v ''taskDefinitionVersion'',
       optional retry (\<lambda>n. seqE [
         positive n ''maximumAttempts'',
         require (n \<le> maximumAttemptsPerTask limits) ''task retry attempts exceed definition limits'']),
       if_truthy target (\<lambda>c. token c ''compensationForStageId'')]
   | WaitStage duration \<Rightarrow> seqE [
       positive duration ''durationMs'',
       require (duration \<le> maximumRunDurationMs limits) ''wait duration exceeds maximum run duration'']
   | AwaitSignalStage t c \<Rightarrow> seqE [
       token t ''signalType'',
       if_truthy c (\<lambda>c. token c ''correlationKey'')]
   | GateStage t i conf expires \<Rightarrow> seqE [
       token t ''gateType'',
       token i ''gateDefinitionId'',
       optional conf json_check,
       optional expires (\<lambda>e. positive e ''expiresInMs''),
       optional expires (\<lambda>e. require (e \<le> maximumGateDurationMs limits)
         ''gate duration exceeds definition limits'')])"

definition validateStage :: "process_stage \<Rightarrow> process_definition_limits \<Rightarrow> unit res" where
  "validateStage stage limits = seqE [
     require (st_schemaVersion stage = 1) ''process stage schema is invalid'',
     token (st_stageId stage) ''stageId'',
     text_check (st_name stage) ''stage name'' 256,
     require (int (length (st_dependsOn stage)) \<le> maximumDependenciesPerStage limits)
       ''stage dependencies are outside limits'',
     optional (st_timeoutMs stage) (\<lambda>t. positive t ''timeoutMs''),
     optional (st_timeoutMs stage) (\<lambda>t. require (t \<le> maximumRunDurationMs limits)
       ''stage timeout exceeds maximum run duration''),
     optional (st_metadata stage) json_check,
     bindE (foldE validate_dependency [] (st_dependsOn stage)) (\<lambda>_. Inr ()),
     validate_stage_kind (st_kind stage) limits]"

subsection \<open>The stage graph\<close>

text \<open>\<open>new Map(stages.map(stage => [stage.stageId, stage]))\<close>: the last entry of a key wins.\<close>

definition stage_by_id :: "process_stage list \<Rightarrow> string \<Rightarrow> process_stage option" where
  "stage_by_id stages i = find (\<lambda>s. st_stageId s = i) (rev stages)"

text \<open>
  The recursive closure \<open>visit\<close> of \<open>assertAcyclic\<close> and \<open>topologicalProcessStageIdsV1\<close>.
  \<open>visiting\<close> is the stack of the calls in progress: the code adds a stage before its
  dependencies and deletes it after them. \<open>result\<close> lists the visited stages in the order in
  which they were completed; \<open>visited\<close> is its set.
\<close>

function visit :: "process_stage list \<Rightarrow> string list \<Rightarrow> string \<Rightarrow> string list \<Rightarrow> string list res"
  and visit_all :: "process_stage list \<Rightarrow> string list \<Rightarrow> string list \<Rightarrow> string list \<Rightarrow> string list res"
where
  "visit stages visiting stageId result =
     (if stageId \<in> set result then Inr result
      else if stageId \<in> set visiting then fail ''process definition contains a cycle''
      else case stage_by_id stages stageId of
        None \<Rightarrow> Inl (TypeError ''dependsOn'')
      | Some stage \<Rightarrow>
          bindE (visit_all stages (stageId # visiting) (map dep_stageId (st_dependsOn stage)) result)
            (\<lambda>result'. Inr (result' @ [stageId])))"
| "visit_all stages visiting [] result = Inr result"
| "visit_all stages visiting (i # is) result =
     bindE (visit stages visiting i result) (\<lambda>result'. visit_all stages visiting is result')"
  by pat_completeness auto

lemma stage_by_id_Some:
  assumes "stage_by_id stages i = Some s"
  shows "s \<in> set stages" "st_stageId s = i"
proof -
  from assms obtain k where "k < length (rev stages)" "st_stageId (rev stages ! k) = i" "s = rev stages ! k"
    by (auto simp: stage_by_id_def find_Some_iff)
  then show "s \<in> set stages" "st_stageId s = i"
    using nth_mem[of k "rev stages"] by auto
qed

termination visit
proof (relation "measures [\<lambda>x. case x of
      Inl (stages, visiting, _, _) \<Rightarrow> card (st_stageId ` set stages - set visiting)
    | Inr (stages, visiting, _, _) \<Rightarrow> card (st_stageId ` set stages - set visiting),
    \<lambda>x. case x of Inl _ \<Rightarrow> 0 | Inr (_, _, is, _) \<Rightarrow> Suc (length is)]", goal_cases)
  case 1
  then show ?case by simp
next
  case (2 stages visiting stageId result stage)
  then have "stageId \<in> st_stageId ` set stages - set visiting"
    using stage_by_id_Some[of stages stageId stage] by auto
  moreover have "st_stageId ` set stages - set (stageId # visiting) =
      (st_stageId ` set stages - set visiting) - {stageId}"
    by auto
  ultimately have "card (st_stageId ` set stages - set (stageId # visiting)) <
      card (st_stageId ` set stages - set visiting)"
    by (metis card_Diff1_less finite_Diff finite_imageI finite_set)
  then show ?case by simp
qed auto

declare visit.simps [simp del]

definition assertAcyclic :: "process_stage list \<Rightarrow> unit res" where
  "assertAcyclic stages = bindE (visit_all stages [] (map st_stageId stages) []) (\<lambda>_. Inr ())"

text \<open>The edges from a dependency to the stage that depends on it.\<close>

definition stage_graph :: "process_stage list \<Rightarrow> (string \<times> string) set" where
  "stage_graph stages =
     {(dep_stageId d, i) | d i s. stage_by_id stages i = Some s \<and> d \<in> set (st_dependsOn s)}"

definition topo_ordered :: "process_stage list \<Rightarrow> string list \<Rightarrow> bool" where
  "topo_ordered stages order \<longleftrightarrow> distinct order \<and>
     (\<forall>xs i ys. order = xs @ i # ys \<longrightarrow>
        (\<exists>s. stage_by_id stages i = Some s \<and> dep_stageId ` set (st_dependsOn s) \<subseteq> set xs))"

definition closed_stages :: "process_stage list \<Rightarrow> bool" where
  "closed_stages stages \<longleftrightarrow>
     (\<forall>s \<in> set stages. \<forall>d \<in> set (st_dependsOn s). stage_by_id stages (dep_stageId d) \<noteq> None)"

lemma topo_ordered_Nil [simp]: "topo_ordered stages []"
  by (simp add: topo_ordered_def)

lemma topo_ordered_snoc:
  assumes "topo_ordered stages order" "i \<notin> set order" "stage_by_id stages i = Some s"
    "dep_stageId ` set (st_dependsOn s) \<subseteq> set order"
  shows "topo_ordered stages (order @ [i])"
proof -
  have "\<exists>s. stage_by_id stages j = Some s \<and> dep_stageId ` set (st_dependsOn s) \<subseteq> set xs"
    if "order @ [i] = xs @ j # ys" for xs j ys
  proof (cases ys rule: rev_cases)
    case Nil
    with that assms(3,4) show ?thesis by auto
  next
    case (snoc ys' y)
    with that have "order = xs @ j # ys'" by auto
    with assms(1) show ?thesis by (auto simp: topo_ordered_def)
  qed
  with assms(1,2) show ?thesis by (simp add: topo_ordered_def)
qed

lemma visit_sound:
  "visit stages visiting i result = Inr result' \<Longrightarrow> topo_ordered stages result \<Longrightarrow>
     set visiting \<inter> set result = {} \<Longrightarrow>
     topo_ordered stages result' \<and> set visiting \<inter> set result' = {} \<and> insert i (set result) \<subseteq> set result'
     \<and> set result' \<subseteq> set result \<union> {j. stage_by_id stages j \<noteq> None}"
  "visit_all stages visiting is result = Inr result' \<Longrightarrow> topo_ordered stages result \<Longrightarrow>
     set visiting \<inter> set result = {} \<Longrightarrow>
     topo_ordered stages result' \<and> set visiting \<inter> set result' = {} \<and> set is \<union> set result \<subseteq> set result'
     \<and> set result' \<subseteq> set result \<union> {j. stage_by_id stages j \<noteq> None}"
proof (induction stages visiting i result and stages visiting "is" result
    arbitrary: result' and result' rule: visit_visit_all.induct)
  case (1 stages visiting i result)
  show ?case
  proof (cases "i \<in> set result")
    case True
    with 1 show ?thesis by (simp add: visit.simps)
  next
    case False
    with "1.prems"(1) obtain s r where s: "i \<notin> set visiting" "stage_by_id stages i = Some s"
      and r: "visit_all stages (i # visiting) (map dep_stageId (st_dependsOn s)) result = Inr r"
        "result' = r @ [i]"
      by (subst (asm) visit.simps) (auto simp: bindE_Inr_iff split: if_splits option.splits)
    have "set (i # visiting) \<inter> set result = {}" using "1.prems"(3) False by auto
    from "1.IH"[OF False s r(1) "1.prems"(2) this]
    have "topo_ordered stages r" "set (i # visiting) \<inter> set r = {}" "set result \<subseteq> set r"
      "dep_stageId ` set (st_dependsOn s) \<subseteq> set r"
      "set r \<subseteq> set result \<union> {j. stage_by_id stages j \<noteq> None}" by auto
    with s r(2) topo_ordered_snoc[of stages r i s] show ?thesis by auto
  qed
next
  case (2 stages visiting result)
  then show ?case by simp
next
  case (3 stages visiting i "is" result)
  from "3.prems"(1) obtain r where r: "visit stages visiting i result = Inr r"
    "visit_all stages visiting is r = Inr result'" by (auto simp: bindE_Inr_iff)
  from "3.IH"(1)[OF r(1) "3.prems"(2,3)]
  have *: "topo_ordered stages r" "set visiting \<inter> set r = {}" "insert i (set result) \<subseteq> set r"
    "set r \<subseteq> set result \<union> {j. stage_by_id stages j \<noteq> None}" by auto
  from "3.IH"(2)[OF r(2) *(1,2)] *(3,4) show ?case by auto
qed

lemma visit_complete:
  "visit stages visiting i result = Inl e \<Longrightarrow> closed_stages stages \<Longrightarrow> stage_by_id stages i \<noteq> None \<Longrightarrow>
     (\<forall>v \<in> set visiting. (i, v) \<in> (stage_graph stages)\<^sup>+) \<Longrightarrow> \<exists>x. (x, x) \<in> (stage_graph stages)\<^sup>+"
  "visit_all stages visiting is result = Inl e \<Longrightarrow> closed_stages stages \<Longrightarrow>
     (\<forall>i \<in> set is. stage_by_id stages i \<noteq> None) \<Longrightarrow>
     (\<forall>i \<in> set is. \<forall>v \<in> set visiting. (i, v) \<in> (stage_graph stages)\<^sup>+) \<Longrightarrow>
     \<exists>x. (x, x) \<in> (stage_graph stages)\<^sup>+"
proof (induction stages visiting i result and stages visiting "is" result
    rule: visit_visit_all.induct)
  case (1 stages visiting i result)
  show ?case
  proof (cases "i \<in> set visiting")
    case True
    with "1.prems"(4) show ?thesis by auto
  next
    case False
    with "1.prems"(1,3) obtain s where res: "i \<notin> set result" and s: "stage_by_id stages i = Some s"
      and r: "visit_all stages (i # visiting) (map dep_stageId (st_dependsOn s)) result = Inl e"
      by (subst (asm) visit.simps) (auto simp: bindE_def split: if_splits option.splits sum.splits)
    have known: "\<forall>j \<in> set (map dep_stageId (st_dependsOn s)). stage_by_id stages j \<noteq> None"
      using "1.prems"(2) stage_by_id_Some[OF s] by (auto simp: closed_stages_def)
    have edge: "(j, i) \<in> stage_graph stages" if "j \<in> set (map dep_stageId (st_dependsOn s))" for j
      using that s by (auto simp: stage_graph_def)
    have "\<forall>j \<in> set (map dep_stageId (st_dependsOn s)). \<forall>v \<in> set (i # visiting).
        (j, v) \<in> (stage_graph stages)\<^sup>+"
      using edge "1.prems"(4) by (auto intro: trancl_into_trancl2)
    from "1.IH"[OF res False s r "1.prems"(2) known this] show ?thesis .
  qed
next
  case (2 stages visiting result)
  then show ?case by simp
next
  case (3 stages visiting i "is" result)
  show ?case
  proof (cases "visit stages visiting i result")
    case (Inl e')
    with "3.IH"(1)[OF _ "3.prems"(2)] "3.prems"(1,3,4) show ?thesis by auto
  next
    case (Inr r)
    with "3.IH"(2)[OF _ "3.prems"(2)] "3.prems"(1,3,4) show ?thesis by auto
  qed
qed

lemma takeWhile_neq_split: "x \<notin> set xs \<Longrightarrow> takeWhile (\<lambda>y. y \<noteq> x) (xs @ x # ys) = xs"
  by (induction xs) auto

lemma topo_ordered_acyclic:
  assumes "topo_ordered stages order" "\<And>i. stage_by_id stages i \<noteq> None \<Longrightarrow> i \<in> set order"
  shows "acyclic (stage_graph stages)"
proof -
  let ?pos = "\<lambda>i. length (takeWhile (\<lambda>x. x \<noteq> i) order)"
  have "stage_graph stages \<subseteq> measure ?pos"
  proof
    fix e assume "e \<in> stage_graph stages"
    then obtain d i s where e: "e = (dep_stageId d, i)" "stage_by_id stages i = Some s" "d \<in> set (st_dependsOn s)"
      by (auto simp: stage_graph_def)
    with assms(2) have "i \<in> set order" by auto
    then obtain xs ys where o: "order = xs @ i # ys" "i \<notin> set xs" by (meson split_list_first)
    from assms(1) o(1) have "\<exists>s'. stage_by_id stages i = Some s' \<and>
        dep_stageId ` set (st_dependsOn s') \<subseteq> set xs"
      unfolding topo_ordered_def by blast
    with e have "dep_stageId d \<in> set xs" by auto
    then obtain us vs where xs: "xs = us @ dep_stageId d # vs" "dep_stageId d \<notin> set us" by (meson split_list_first)
    have "takeWhile (\<lambda>x. x \<noteq> dep_stageId d) order = us"
      using takeWhile_neq_split[OF xs(2)] by (simp add: o xs(1))
    moreover have "takeWhile (\<lambda>x. x \<noteq> i) order = xs"
      using takeWhile_neq_split[OF o(2)] by (simp add: o(1))
    ultimately show "e \<in> measure ?pos" by (simp add: e(1) xs(1))
  qed
  then show ?thesis by (meson acyclic_subset wf_acyclic wf_measure)
qed

lemma stage_by_id_mem: "s \<in> set stages \<Longrightarrow> stage_by_id stages (st_stageId s) \<noteq> None"
  by (auto simp: stage_by_id_def find_None_iff)

lemma visit_all_stages:
  assumes "visit_all stages [] (map st_stageId stages) [] = Inr order"
  shows "topo_ordered stages order" "set order = st_stageId ` set stages"
proof -
  from visit_sound(2)[OF assms] show "topo_ordered stages order" by simp
  from visit_sound(2)[OF assms] have "st_stageId ` set stages \<subseteq> set order"
    "set order \<subseteq> {j. stage_by_id stages j \<noteq> None}" by auto
  moreover have "{j. stage_by_id stages j \<noteq> None} \<subseteq> st_stageId ` set stages"
    using stage_by_id_Some by fastforce
  ultimately show "set order = st_stageId ` set stages" by blast
qed

lemma assertAcyclic_iff:
  assumes "closed_stages stages"
  shows "assertAcyclic stages = Inr () \<longleftrightarrow> acyclic (stage_graph stages)"
proof
  assume "assertAcyclic stages = Inr ()"
  then obtain order where o: "visit_all stages [] (map st_stageId stages) [] = Inr order"
    by (auto simp: assertAcyclic_def bindE_Inr_iff)
  note visit_all_stages[OF o]
  then show "acyclic (stage_graph stages)"
    using stage_by_id_Some by (intro topo_ordered_acyclic[of stages order]) fastforce+
next
  assume ac: "acyclic (stage_graph stages)"
  show "assertAcyclic stages = Inr ()"
  proof (cases "visit_all stages [] (map st_stageId stages) []")
    case (Inl e)
    from visit_complete(2)[OF Inl assms] have "\<exists>x. (x, x) \<in> (stage_graph stages)\<^sup>+"
      using stage_by_id_mem by auto
    with ac show ?thesis by (auto simp: acyclic_def)
  qed (simp add: assertAcyclic_def)
qed

subsection \<open>Definitions\<close>

text \<open>The two nested loops that count the dependents of each stage and check the edges.\<close>

definition validate_edge ::
  "process_stage list \<Rightarrow> int \<Rightarrow> process_stage \<Rightarrow> (string \<Rightarrow> int option) \<Rightarrow> stage_dependency
    \<Rightarrow> (string \<Rightarrow> int option) res" where
  "validate_edge stages maximumDependents stage counts dependency =
     (case stage_by_id stages (dep_stageId dependency) of
        None \<Rightarrow> fail ''process stage dependency is missing''
      | Some source \<Rightarrow>
          let dependentCount = (case counts (st_stageId source) of None \<Rightarrow> 0 | Some n \<Rightarrow> n) + 1
          in if dependentCount > maximumDependents
               then fail ''process stage fan-out exceeds definition limits''
             else if st_stageId source = st_stageId stage
               then fail ''process stage cannot depend on itself''
             else if \<not> list_all (\<lambda>outcome. outcome \<in> set (stageOutcomes (st_kind source)))
                  (dep_outcomes dependency)
               then fail ''process stage dependency outcome is impossible''
             else Inr (counts(st_stageId source \<mapsto> dependentCount)))"

definition validate_compensation :: "process_stage list \<Rightarrow> process_stage \<Rightarrow> unit res" where
  "validate_compensation stages stage =
     (if \<not> is_compensation stage then Inr ()
      else case stage_by_id stages (compensation_target stage) of
        None \<Rightarrow> fail ''compensation target is invalid''
      | Some target \<Rightarrow>
          if \<not> is_task target \<or> is_compensation target then fail ''compensation target is invalid''
          else if st_dependsOn stage \<noteq> []
            then fail ''compensation stage dependencies are unsupported in V1''
          else Inr ())"

definition validate_stage_edges ::
  "process_stage list \<Rightarrow> int \<Rightarrow> (string \<Rightarrow> int option) \<Rightarrow> process_stage \<Rightarrow> (string \<Rightarrow> int option) res" where
  "validate_stage_edges stages maximumDependents counts stage =
     bindE (foldE (validate_edge stages maximumDependents stage) counts (st_dependsOn stage)) (\<lambda>counts'.
     bindE (validate_compensation stages stage) (\<lambda>_. Inr counts'))"

definition validate_new_stage ::
  "process_definition_limits \<Rightarrow> string list \<Rightarrow> process_stage \<Rightarrow> string list res" where
  "validate_new_stage limits stageIds stage =
     bindE (validateStage stage limits) (\<lambda>_.
       if st_stageId stage \<in> set stageIds then fail ''process stage ID is duplicated''
       else Inr (st_stageId stage # stageIds))"

definition trigger_identity :: "cancellation_trigger \<Rightarrow> string" where
  "trigger_identity t = key2 (trig_signalType t) (case trig_correlationKey t of None \<Rightarrow> [] | Some c \<Rightarrow> c)"

text \<open>An empty correlation key is a key that the shape of the trigger does not expect.\<close>

definition validate_trigger :: "string list \<Rightarrow> cancellation_trigger \<Rightarrow> string list res" where
  "validate_trigger identities trigger =
     bindE (seqE [
       require (trig_correlationKey trigger \<noteq> Some []) ''cancellation trigger has an unexpected shape'',
       token (trig_signalType trigger) ''cancellation signalType'',
       if_truthy (trig_correlationKey trigger) (\<lambda>c. token c ''cancellation correlationKey''),
       token (trig_reasonCode trigger) ''cancellation reasonCode'']) (\<lambda>_.
     if trigger_identity trigger \<in> set identities then fail ''cancellation trigger is duplicated''
     else Inr (trigger_identity trigger # identities))"

definition validateProcessDefinitionBodyV1 :: "process_definition \<Rightarrow> unit res" where
  "validateProcessDefinitionBodyV1 d =
     bindE (seqE [
       token (pd_processId d) ''processId'',
       token (pd_version d) ''version'',
       text_check (pd_name d) ''name'' 256,
       validateLimits (pd_limits d),
       require (pd_stages d \<noteq> [] \<and> int (length (pd_stages d)) \<le> maximumStages (pd_limits d))
         ''process stages are outside limits'']) (\<lambda>_.
     bindE (foldE (validate_new_stage (pd_limits d)) [] (pd_stages d)) (\<lambda>_.
     bindE (require (list_ex (\<lambda>stage. \<not> is_compensation stage) (pd_stages d))
         ''process definition requires a normal stage'') (\<lambda>_.
     bindE (foldE (validate_stage_edges (pd_stages d) (maximumDependentsPerStage (pd_limits d)))
         Map.empty (pd_stages d)) (\<lambda>_.
     bindE (assertAcyclic (pd_stages d)) (\<lambda>_.
     bindE (foldE validate_trigger [] (case pd_cancellationTriggers d of None \<Rightarrow> [] | Some ts \<Rightarrow> ts))
       (\<lambda>_. Inr ()))))))"

definition validateProcessDefinitionV1 :: "process_definition \<Rightarrow> process_definition res" where
  "validateProcessDefinitionV1 d =
     bindE (require (pd_schemaVersion d = 1) ''process definition schema is invalid'') (\<lambda>_.
     bindE (validateProcessDefinitionBodyV1 d) (\<lambda>_.
     bindE (digest (pd_definitionDigest d) ''definitionDigest'') (\<lambda>_.
     bindE (digestWorkflowJsonV1 ''process-definition'' (process_definition_json d)) (\<lambda>expected.
       if pd_definitionDigest d \<noteq> expected then fail ''process definition digest does not match''
       else Inr d))))"

text \<open>\<open>{...DEFAULT_PROCESS_DEFINITION_LIMITS_V1, ...input.limits}\<close>: a partial override.\<close>

definition createProcessDefinitionV1 ::
  "string \<Rightarrow> string \<Rightarrow> string \<Rightarrow> process_stage list \<Rightarrow> cancellation_trigger list option
    \<Rightarrow> (process_definition_limits \<Rightarrow> process_definition_limits) \<Rightarrow> process_definition res" where
  "createProcessDefinitionV1 processId version name stages triggers override =
     (let body = \<lparr>pd_schemaVersion = 1, pd_processId = processId, pd_version = version, pd_name = name,
            pd_stages = stages, pd_cancellationTriggers = triggers,
            pd_limits = override DEFAULT_PROCESS_DEFINITION_LIMITS_V1, pd_definitionDigest = []\<rparr>
      in bindE (validateProcessDefinitionBodyV1 body) (\<lambda>_.
         bindE (digestWorkflowJsonV1 ''process-definition'' (process_definition_json body)) (\<lambda>dg.
           Inr (body\<lparr>pd_definitionDigest := dg\<rparr>))))"

definition topologicalProcessStageIdsV1 :: "process_definition \<Rightarrow> string list res" where
  "topologicalProcessStageIdsV1 definition =
     bindE (validateProcessDefinitionV1 definition) (\<lambda>_.
       visit_all (pd_stages definition) [] (map st_stageId (pd_stages definition)) [])"

definition validateTaskDefinitionBody :: "task_definition \<Rightarrow> unit res" where
  "validateTaskDefinitionBody d = seqE [
     require (td_schemaVersion d = 1) ''task definition schema is invalid'',
     token (td_taskDefinitionId d) ''taskDefinitionId'',
     token (td_version d) ''task definition version'',
     text_check (td_name d) ''task definition name'' 256,
     token (td_handlerKey d) ''handlerKey'',
     digest (td_handlerDigest d) ''handlerDigest'',
     require (\<not> (td_effectClass d = ProtectedExternal \<and> td_actionBinding d = None))
       ''protected external task requires an action binding'',
     require (\<not> (td_effectClass d = Internal \<and> td_actionBinding d \<noteq> None))
       ''internal task cannot declare an action binding'',
     optional (td_actionBinding d) (\<lambda>a. seqE [
       token (ab_namespace a) ''action namespace'',
       token (ab_toolId a) ''action toolId'',
       token (ab_operation a) ''action operation''])]"

definition validateTaskDefinitionV1 :: "task_definition \<Rightarrow> task_definition res" where
  "validateTaskDefinitionV1 d =
     bindE (validateTaskDefinitionBody d) (\<lambda>_.
     bindE (digest (td_definitionDigest d) ''definitionDigest'') (\<lambda>_.
     bindE (digestWorkflowJsonV1 ''task-definition'' (task_definition_json d)) (\<lambda>expected.
       if td_definitionDigest d \<noteq> expected then fail ''task definition digest does not match''
       else Inr d)))"

text \<open>The input of \<open>createTaskDefinitionV1\<close> is a definition whose schema and digest are ignored.\<close>

definition createTaskDefinitionV1 :: "task_definition \<Rightarrow> task_definition res" where
  "createTaskDefinitionV1 input =
     (let body = input\<lparr>td_schemaVersion := 1\<rparr>
      in bindE (validateTaskDefinitionBody body) (\<lambda>_.
         bindE (digestWorkflowJsonV1 ''task-definition'' (task_definition_json body)) (\<lambda>dg.
           Inr (body\<lparr>td_definitionDigest := dg\<rparr>))))"

subsection \<open>What a validated definition guarantees\<close>

lemma validate_new_stage_iff:
  "validate_new_stage limits ids s = Inr ids' \<longleftrightarrow>
     validateStage s limits = Inr () \<and> st_stageId s \<notin> set ids \<and> ids' = st_stageId s # ids"
  by (auto simp: validate_new_stage_def bindE_Inr_iff split: if_splits)

lemma validate_new_stages:
  assumes "foldE (validate_new_stage limits) ids stages = Inr ids'" "distinct ids"
  shows "ids' = rev (map st_stageId stages) @ ids \<and> distinct ids'
    \<and> (\<forall>s \<in> set stages. validateStage s limits = Inr ())"
  using assms
  by (induction stages arbitrary: ids) (auto simp: bindE_Inr_iff validate_new_stage_iff)

definition dependents :: "process_stage list \<Rightarrow> string \<Rightarrow> nat" where
  "dependents stages i = length (filter (\<lambda>d. dep_stageId d = i) (concat (map st_dependsOn stages)))"

definition count_of :: "(string \<Rightarrow> int option) \<Rightarrow> string \<Rightarrow> int" where
  "count_of counts i = (case counts i of None \<Rightarrow> 0 | Some n \<Rightarrow> n)"

lemma validate_edges:
  assumes "foldE (validate_edge stages m stage) counts ds = Inr counts'"
  shows "count_of counts' i = count_of counts i + int (length (filter (\<lambda>d. dep_stageId d = i) ds))"
    "count_of counts i \<le> m \<Longrightarrow> count_of counts' i \<le> m"
    "\<forall>d \<in> set ds. \<exists>source. stage_by_id stages (dep_stageId d) = Some source \<and>
       dep_stageId d \<noteq> st_stageId stage \<and> set (dep_outcomes d) \<subseteq> set (stageOutcomes (st_kind source))"
proof -
  have edge: "(\<exists>source. stage_by_id stages (dep_stageId d) = Some source \<and> dep_stageId d \<noteq> st_stageId stage
      \<and> set (dep_outcomes d) \<subseteq> set (stageOutcomes (st_kind source)))
    \<and> count_of c' i = count_of c i + (if dep_stageId d = i then 1 else 0)
    \<and> (count_of c i \<le> m \<longrightarrow> count_of c' i \<le> m)"
    if e: "validate_edge stages m stage c d = Inr c'" for c d c' i
  proof -
    from e obtain source where src: "stage_by_id stages (dep_stageId d) = Some source"
      by (auto simp: validate_edge_def split: option.splits)
    note id = stage_by_id_Some(2)[OF src]
    from e src id show ?thesis
      by (auto simp: validate_edge_def Let_def count_of_def list_all_iff split: if_splits)
  qed
  from assms show "count_of counts' i = count_of counts i + int (length (filter (\<lambda>d. dep_stageId d = i) ds))"
    by (induction ds arbitrary: counts) (auto simp: bindE_Inr_iff dest!: edge[where i = i])
  from assms show "count_of counts i \<le> m \<Longrightarrow> count_of counts' i \<le> m"
    by (induction ds arbitrary: counts) (auto simp: bindE_Inr_iff dest!: edge[where i = i])
  from assms show "\<forall>d \<in> set ds. \<exists>source. stage_by_id stages (dep_stageId d) = Some source \<and>
       dep_stageId d \<noteq> st_stageId stage \<and> set (dep_outcomes d) \<subseteq> set (stageOutcomes (st_kind source))"
    by (induction ds arbitrary: counts) (auto simp: bindE_Inr_iff dest!: edge)
qed

lemma validate_all_edges:
  assumes "foldE (validate_stage_edges stages m) counts ss = Inr counts'"
  shows "count_of counts' i = count_of counts i + int (dependents ss i)"
    "count_of counts i \<le> m \<Longrightarrow> count_of counts' i \<le> m"
    "\<forall>s \<in> set ss. \<forall>d \<in> set (st_dependsOn s). \<exists>source. stage_by_id stages (dep_stageId d) = Some source \<and>
       dep_stageId d \<noteq> st_stageId s \<and> set (dep_outcomes d) \<subseteq> set (stageOutcomes (st_kind source))"
    "\<forall>s \<in> set ss. validate_compensation stages s = Inr ()"
proof -
  have step: "foldE (validate_edge stages m s) c (st_dependsOn s) = Inr c' \<and>
      validate_compensation stages s = Inr ()"
    if "validate_stage_edges stages m c s = Inr c'" for c s c'
    using that by (auto simp: validate_stage_edges_def bindE_Inr_iff)
  from assms show "count_of counts' i = count_of counts i + int (dependents ss i)"
    by (induction ss arbitrary: counts)
       (auto simp: bindE_Inr_iff dependents_def dest!: step dest: validate_edges(1)[where i = i])
  show "count_of counts' i \<le> m" if "count_of counts i \<le> m"
    by (rule foldE_invariant[OF assms, where P = "\<lambda>c. count_of c i \<le> m"])
       (use that step validate_edges(2)[where i = i] in blast)+
  from assms show "\<forall>s \<in> set ss. \<forall>d \<in> set (st_dependsOn s). \<exists>source.
       stage_by_id stages (dep_stageId d) = Some source \<and>
       dep_stageId d \<noteq> st_stageId s \<and> set (dep_outcomes d) \<subseteq> set (stageOutcomes (st_kind source))"
    by (induction ss arbitrary: counts) (auto simp: bindE_Inr_iff dest!: step dest: validate_edges(3))
  from assms show "\<forall>s \<in> set ss. validate_compensation stages s = Inr ()"
    by (induction ss arbitrary: counts) (auto simp: bindE_Inr_iff dest!: step)
qed

text \<open>The facts about a definition that passed the checks, used by the runner.\<close>

definition well_formed_stages :: "process_stage list \<Rightarrow> bool" where
  "well_formed_stages stages \<longleftrightarrow> distinct (map st_stageId stages) \<and> closed_stages stages
     \<and> acyclic (stage_graph stages)
     \<and> list_ex (\<lambda>s. \<not> is_compensation s) stages
     \<and> list_all (\<lambda>s. validate_compensation stages s = Inr ()) stages"

lemma validateProcessDefinitionBodyV1_facts:
  assumes "validateProcessDefinitionBodyV1 d = Inr ()"
  shows "well_formed_stages (pd_stages d)"
    "\<forall>s \<in> set (pd_stages d). validateStage s (pd_limits d) = Inr ()"
    "int (dependents (pd_stages d) i) \<le> maximumDependentsPerStage (pd_limits d)"
    "\<forall>s \<in> set (pd_stages d). \<forall>e \<in> set (st_dependsOn s). \<exists>source.
       stage_by_id (pd_stages d) (dep_stageId e) = Some source \<and>
       set (dep_outcomes e) \<subseteq> set (stageOutcomes (st_kind source))"
proof -
  from assms obtain ids counts where
    lim: "validateLimits (pd_limits d) = Inr ()"
    and new: "foldE (validate_new_stage (pd_limits d)) [] (pd_stages d) = Inr ids"
    and normal: "list_ex (\<lambda>s. \<not> is_compensation s) (pd_stages d)"
    and edges: "foldE (validate_stage_edges (pd_stages d) (maximumDependentsPerStage (pd_limits d)))
      Map.empty (pd_stages d) = Inr counts"
    and ac: "assertAcyclic (pd_stages d) = Inr ()"
    by (auto simp: validateProcessDefinitionBodyV1_def bindE_Inr_iff seqE_Inr_iff)
  note e = validate_all_edges[OF edges]
  have closed: "closed_stages (pd_stages d)" using e(3) by (fastforce simp: closed_stages_def)
  have "distinct (map st_stageId (pd_stages d))"
    using validate_new_stages[OF new] by (metis append_Nil2 distinct.simps(1) distinct_rev)
  with closed ac normal e(4) show "well_formed_stages (pd_stages d)"
    by (simp add: well_formed_stages_def assertAcyclic_iff list_all_iff)
  show "\<forall>s \<in> set (pd_stages d). validateStage s (pd_limits d) = Inr ()"
    using validate_new_stages[OF new] by simp
  have "0 \<le> maximumDependentsPerStage (pd_limits d)"
    using lim by (simp add: validateLimits_def seqE_Inr_iff)
  with e(1)[of i] e(2)[of i] show "int (dependents (pd_stages d) i) \<le> maximumDependentsPerStage (pd_limits d)"
    by (simp add: count_of_def)
  show "\<forall>s \<in> set (pd_stages d). \<forall>e \<in> set (st_dependsOn s). \<exists>source.
       stage_by_id (pd_stages d) (dep_stageId e) = Some source \<and>
       set (dep_outcomes e) \<subseteq> set (stageOutcomes (st_kind source))"
    using e(3) by blast
qed

lemma validateProcessDefinitionV1_body:
  "validateProcessDefinitionV1 d = Inr d' \<Longrightarrow> d' = d \<and> validateProcessDefinitionBodyV1 d = Inr ()"
  by (auto simp: validateProcessDefinitionV1_def bindE_Inr_iff split: if_splits)

lemma process_definition_digest_irrelevant:
  "process_definition_json (d\<lparr>pd_definitionDigest := x\<rparr>) = process_definition_json d"
  "validateProcessDefinitionBodyV1 (d\<lparr>pd_definitionDigest := x\<rparr>) = validateProcessDefinitionBodyV1 d"
  by (simp_all add: process_definition_json_def validateProcessDefinitionBodyV1_def)

lemma createProcessDefinitionV1_valid:
  assumes "createProcessDefinitionV1 p v n ss ts ov = Inr d"
  shows "validateProcessDefinitionV1 d = Inr d"
proof -
  define b where "b = \<lparr>pd_schemaVersion = 1, pd_processId = p, pd_version = v, pd_name = n,
    pd_stages = ss, pd_cancellationTriggers = ts,
    pd_limits = ov DEFAULT_PROCESS_DEFINITION_LIMITS_V1, pd_definitionDigest = []\<rparr>"
  from assms obtain dg where "validateProcessDefinitionBodyV1 b = Inr ()"
    "digestWorkflowJsonV1 ''process-definition'' (process_definition_json b) = Inr dg"
    "d = b\<lparr>pd_definitionDigest := dg\<rparr>"
    by (auto simp: createProcessDefinitionV1_def Let_def bindE_Inr_iff b_def[symmetric])
  moreover have "pd_schemaVersion b = 1" by (simp add: b_def)
  ultimately show ?thesis
    using digestWorkflowJsonV1_valid
    by (simp add: validateProcessDefinitionV1_def process_definition_digest_irrelevant bindE_Inr_iff)
qed

lemma task_definition_digest_irrelevant:
  "task_definition_json (d\<lparr>td_definitionDigest := x\<rparr>) = task_definition_json d"
  "validateTaskDefinitionBody (d\<lparr>td_definitionDigest := x\<rparr>) = validateTaskDefinitionBody d"
  by (simp_all add: task_definition_json_def validateTaskDefinitionBody_def)

lemma createTaskDefinitionV1_valid:
  assumes "createTaskDefinitionV1 input = Inr d"
  shows "validateTaskDefinitionV1 d = Inr d"
proof -
  define b where "b = input\<lparr>td_schemaVersion := 1\<rparr>"
  from assms obtain dg where "validateTaskDefinitionBody b = Inr ()"
    "digestWorkflowJsonV1 ''task-definition'' (task_definition_json b) = Inr dg"
    "d = b\<lparr>td_definitionDigest := dg\<rparr>"
    by (auto simp: createTaskDefinitionV1_def Let_def bindE_Inr_iff b_def[symmetric])
  then show ?thesis
    using digestWorkflowJsonV1_valid
    by (simp add: validateTaskDefinitionV1_def task_definition_digest_irrelevant bindE_Inr_iff)
qed

end
