(* ===== verification/JsonLimits.thy ===== *)
theory JsonLimits
  imports WfBase
begin

text \<open>
  Which values the canonicalizer accepts: nesting up to depth 32, at most 16384 nodes, at most
  4096 items in an array and 256 fields in an object, safe integers. \<open>canonicalize_accepts\<close>
  is the exact characterisation; \<open>digest_total\<close> turns it, with a bound of the length of
  the text, into a sufficient condition for a digest to exist.
\<close>

subsection \<open>The limits\<close>

fun fits :: "nat \<Rightarrow> json \<Rightarrow> bool" where
  "fits d (JArr vs) \<longleftrightarrow> d \<le> 32 \<and> length vs \<le> 4096 \<and> list_all (fits (d + 1)) vs"
| "fits d (JObj fs) \<longleftrightarrow> d \<le> 32 \<and> length fs \<le> 256 \<and> list_all (\<lambda>(k, v). fits (d + 1) v) fs"
| "fits d (JNum n) \<longleftrightarrow> d \<le> 32 \<and> isSafeInteger n"
| "fits d v \<longleftrightarrow> d \<le> 32"

fun json_nodes :: "json \<Rightarrow> nat" where
  "json_nodes (JArr vs) = Suc (sum_list (map json_nodes vs))"
| "json_nodes (JObj fs) = Suc (sum_list (map (\<lambda>(k, v). json_nodes v) fs))"
| "json_nodes v = 1"

lemma json_nodes_pos: "0 < json_nodes v"
  by (cases v) simp_all

lemma sum_list_sort_key: "sum_list (map f (sort_key g xs)) = (sum_list (map f xs) :: nat)"
proof -
  have "sum_list (map f (insort_key g x ys)) = f x + (sum_list (map f ys) :: nat)" for x ys
    by (induction ys) simp_all
  then show ?thesis by (induction xs) simp_all
qed

lemma canonical_fits:
  "canonical d n v = Inr (s, n') \<longleftrightarrow>
     fits d v \<and> n + json_nodes v \<le> 16384 \<and> n' = n + json_nodes v \<and> s = render (json_norm v)"
  "n \<le> 16384 \<Longrightarrow> canonical_items d n vs = Inr (ss, n') \<longleftrightarrow>
     list_all (fits d) vs \<and> n + sum_list (map json_nodes vs) \<le> 16384
     \<and> n' = n + sum_list (map json_nodes vs) \<and> ss = map (\<lambda>v. render (json_norm v)) vs"
  "n \<le> 16384 \<Longrightarrow> canonical_fields d n fs = Inr (ss, n') \<longleftrightarrow>
     list_all (\<lambda>(k, v). fits d v) fs \<and> n + sum_list (map (\<lambda>(k, v). json_nodes v) fs) \<le> 16384
     \<and> n' = n + sum_list (map (\<lambda>(k, v). json_nodes v) fs)
     \<and> ss = map (\<lambda>(k, v). stringify_string k @ CHR '':'' # render v) (map (\<lambda>(k, v). (k, json_norm v)) fs)"
proof (induction d n v and d n vs and d n fs arbitrary: s n' and ss n' and ss n'
    rule: canonical_canonical_items_canonical_fields.induct)
  case (1 d n v)
  show ?case
  proof (cases "d > 32 \<or> n + 1 > 16384")
    case True
    then show ?thesis
      using json_nodes_pos[of v] by (cases v) (auto simp: canonical.simps)
  next
    case False
    then have d: "\<not> d > 32" "\<not> n + 1 > 16384" and n: "n + 1 \<le> 16384" by simp_all
    show ?thesis
    proof (cases v)
      case (JArr vs)
      show ?thesis
      proof (cases "length vs > 4096")
        case False
        note IH = "1.IH"(1)[OF d JArr False n, unfolded Suc_eq_plus1[symmetric]]
        show ?thesis
          using d False by (auto simp: JArr canonical.simps bindE_Inr_iff IH comp_def split: prod.splits)
      qed (simp add: JArr canonical.simps d)
    next
      case (JObj fs)
      show ?thesis
      proof (cases "length fs > 256")
        case False
        note IH = "1.IH"(2)[OF d JObj False n, unfolded Suc_eq_plus1[symmetric]]
        have set: "list_all P (sort_key fst fs) = list_all P fs" for P by (simp add: list_all_iff)
        show ?thesis
          using d False
          by (auto simp: JObj canonical.simps bindE_Inr_iff IH set sum_list_sort_key sort_key_map_snd
              split: prod.splits)
      qed (simp add: JObj canonical.simps d)
    qed (use d in \<open>auto simp: canonical.simps\<close>)
  qed
next
  case (3 d n v vs)
  show ?case
  proof (cases "fits d v \<and> n + json_nodes v \<le> 16384")
    case True
    then have c: "canonical d n v = Inr (render (json_norm v), n + json_nodes v)" by (simp add: 3)
    have "canonical_items d (n + json_nodes v) vs = Inr (ss, n') \<longleftrightarrow>
      list_all (fits d) vs \<and> n + json_nodes v + sum_list (map json_nodes vs) \<le> 16384
      \<and> n' = n + json_nodes v + sum_list (map json_nodes vs) \<and> ss = map (\<lambda>v. render (json_norm v)) vs" for ss n'
      by (rule "3.IH"(2)) (use True c in auto)
    then show ?thesis using True by (auto simp: c bindE_Inr_iff add.assoc)
  next
    case False
    then show ?thesis by (auto simp: bindE_Inr_iff 3)
  qed
next
  case (5 d n k v fs)
  show ?case
  proof (cases "fits d v \<and> n + json_nodes v \<le> 16384")
    case True
    then have c: "canonical d n v = Inr (render (json_norm v), n + json_nodes v)" by (simp add: 5)
    have "canonical_fields d (n + json_nodes v) fs = Inr (ss, n') \<longleftrightarrow>
      list_all (\<lambda>(k, v). fits d v) fs \<and> n + json_nodes v + sum_list (map (\<lambda>(k, v). json_nodes v) fs) \<le> 16384
      \<and> n' = n + json_nodes v + sum_list (map (\<lambda>(k, v). json_nodes v) fs)
      \<and> ss = map (\<lambda>(k, v). stringify_string k @ CHR '':'' # render v) (map (\<lambda>(k, v). (k, json_norm v)) fs)" for ss n'
      by (rule "5.IH"(2)) (use True c in auto)
    then show ?thesis using True by (auto simp: c bindE_Inr_iff add.assoc)
  next
    case False
    then show ?thesis by (auto simp: bindE_Inr_iff 5)
  qed
qed auto

lemma canonicalize_accepts:
  "canonicalizeWorkflowJsonV1 v = Inr s \<longleftrightarrow>
     fits 0 v \<and> json_nodes v \<le> 16384 \<and> s = render (json_norm v)"
  by (auto simp: canonicalizeWorkflowJsonV1_def bindE_Inr_iff canonical_fits)

subsection \<open>A bound of the text\<close>

fun json_weight :: "json \<Rightarrow> nat" where
  "json_weight JNull = 4"
| "json_weight (JBool b) = 5"
| "json_weight (JNum n) = 17"
| "json_weight (JStr s) = 6 * length s + 2"
| "json_weight (JArr vs) = 2 + sum_list (map (\<lambda>v. json_weight v + 1) vs)"
| "json_weight (JObj fs) = 2 + sum_list (map (\<lambda>(k, v). 6 * length k + 4 + json_weight v) fs)"

lemma length_digits_nat: "n < 10 ^ k \<Longrightarrow> 0 < k \<Longrightarrow> length (digits_nat n) \<le> k"
proof (induction n arbitrary: k rule: digits_nat.induct)
  case (1 n)
  show ?case
  proof (cases "n < 10")
    case True
    then show ?thesis using "1.prems" by (subst digits_nat.simps) simp
  next
    case False
    then obtain j where k: "k = Suc j" "0 < j"
      using "1.prems" by (cases k) (auto simp: Suc_lessI split: nat.splits, cases "k - 1", auto)
    have "n div 10 < 10 ^ j" using "1.prems" k by (simp add: less_mult_imp_div_less mult.commute)
    from "1.IH"[OF False this k(2)] show ?thesis using False k by (subst digits_nat.simps) simp
  qed
qed

lemma length_show_int: "isSafeInteger n \<Longrightarrow> length (show_int n) \<le> 17"
proof -
  assume "isSafeInteger n"
  then have "nat \<bar>n\<bar> < 10 ^ 16" by (simp add: isSafeInteger_def maximumSafeInteger_def)
  from length_digits_nat[OF this] show ?thesis by (auto simp: show_int_def)
qed

lemma length_escape_char: "length (escape_char c) \<le> 6"
  by (auto simp: escape_char_def Let_def)

lemma length_stringify: "length (stringify_string s) \<le> 6 * length s + 2"
proof -
  have "length (concat (map escape_char s)) \<le> 6 * length s"
    by (induction s) (use length_escape_char in \<open>auto intro: add_mono\<close>)
  then show ?thesis by (simp add: stringify_string_def)
qed

lemma length_joined: "length (joined ss) \<le> sum_list (map (\<lambda>s. length s + 1) ss)"
  by (induction ss rule: joined.induct) auto

lemma length_render: "fits d v \<Longrightarrow> length (render v) \<le> json_weight v"
proof (induction v arbitrary: d)
  case (JArr vs)
  have "sum_list (map (\<lambda>s. length s + 1) (map render vs)) \<le> sum_list (map (\<lambda>v. json_weight v + 1) vs)"
    unfolding map_map by (rule sum_list_mono) (use JArr in \<open>auto simp: list_all_iff\<close>)
  with length_joined[of "map render vs"] show ?case by simp
next
  case (JObj fs)
  have "length (stringify_string k @ CHR '':'' # render v) + 1 \<le> 6 * length k + 4 + json_weight v"
    if "(k, v) \<in> set fs" for k v
    using JObj.IH[OF that, of v "d + 1"] JObj.prems that length_stringify[of k]
    by (fastforce simp: list_all_iff)
  then have "sum_list (map (\<lambda>s. length s + 1) (map (\<lambda>(k, v). stringify_string k @ CHR '':'' # render v) fs))
      \<le> sum_list (map (\<lambda>(k, v). 6 * length k + 4 + json_weight v) fs)"
    unfolding map_map by (intro sum_list_mono) auto
  with length_joined[of "map (\<lambda>(k, v). stringify_string k @ CHR '':'' # render v) fs"] show ?case by simp
qed (auto intro: length_show_int length_stringify[THEN order_trans])

lemma json_norm_fits: "fits d (json_norm v) = fits d v"
  by (induction v arbitrary: d) (auto simp: list_all_iff)

lemma json_norm_weight: "json_weight (json_norm v) = json_weight v"
proof (induction v)
  case (JArr vs)
  then have "map (\<lambda>v. Suc (json_weight (json_norm v))) vs = map (\<lambda>v. Suc (json_weight v)) vs" by auto
  from arg_cong[OF this, of sum_list] show ?case by (simp add: comp_def)
next
  case (JObj fs)
  then have "map ((\<lambda>(k, v). 6 * length k + 4 + json_weight v) \<circ> (\<lambda>(k, v). (k, json_norm v))) fs
      = map (\<lambda>(k, v). 6 * length k + 4 + json_weight v) fs" by force
  from arg_cong[OF this, of sum_list] show ?case by (simp only: json_norm.simps json_weight.simps
        sum_list_sort_key map_map)
qed simp_all

lemma length_encode_utf8: "length (encode_utf8 s) \<le> 2 * length s"
  by (induction s) (auto simp: encode_utf8_def Let_def)

definition digestible :: "json \<Rightarrow> bool" where
  "digestible v \<longleftrightarrow> fits 0 v \<and> json_nodes v \<le> 16384 \<and> json_weight v \<le> 500000"

lemma digest_total:
  assumes "digestible v" "valid_token domain"
  obtains d where "digestWorkflowJsonV1 domain v = Inr d" "valid_digest d"
proof -
  let ?text = "''agentplat.workflows/'' @ domain @ ''/v1'' @ CHR 0x00 # render (json_norm v)"
  have "length (render (json_norm v)) \<le> 500000"
    using length_render[of 0 "json_norm v"] assms(1)
    by (simp add: digestible_def json_norm_fits json_norm_weight)
  moreover have "length domain \<le> 160" using assms(2) by (simp add: valid_token_def)
  ultimately have short: "\<not> 1048576 < length (encode_utf8 ?text)"
    using length_encode_utf8[of ?text] by simp
  have canonical_text: "canonicalizeWorkflowJsonV1 v = Inr (render (json_norm v))"
    using assms(1) by (simp add: canonicalize_accepts digestible_def)
  have "digestWorkflowJsonV1 domain v = Inr (''sha256:'' @ sha256Hex (encode_utf8 ?text))"
    using assms(2) canonical_text short
    by (simp only: digestWorkflowJsonV1_def workflow_digest_bytes_def token_def require_def if_True
        bindE_simps if_False)
  with digestWorkflowJsonV1_valid that show thesis by blast
qed

end
