(* ===== verification/WfTaskRuns.thy ===== *)
theory WfTaskRuns
  imports WfValidation JsonLimits
begin

text \<open>
  \<open>packages/workflows/src/v1-task-runs.ts\<close>: execution bindings, the task run with its lease,
  its transitions (\<open>transitionTaskRunV1\<close>, \<open>heartbeatTaskRunV1\<close>,
  \<open>takeOverExpiredTaskRunV1\<close>, \<open>reconcileIndeterminateTaskRunV1\<close>), its validation and the
  usage totals. The lemmas: every operation returns a run that validates, increments the
  revision, keeps the run's identity and follows the status graph; a heartbeat needs the current
  lease token; a takeover needs an expired lease and makes a new token and generation.
\<close>

subsection \<open>Bindings\<close>

definition ends_with_Digest :: "string \<Rightarrow> bool" where
  "ends_with_Digest k \<longleftrightarrow> 6 \<le> length k \<and> drop (length k - 6) k = ''Digest''"

text \<open>The entries that are present, in declaration order.\<close>

definition validateBindingInput :: "binding_input \<Rightarrow> unit res" where
  "validateBindingInput b = seqE (
     map (\<lambda>(k, v). optional v (\<lambda>s. if ends_with_Digest k then digest s k else token s k))
       (binding_input_fields b)
     @ [require (\<not> (truthy (bi_promptDigest b) \<and> \<not> truthy (bi_promptRevision b)))
          ''promptDigest requires promptRevision'',
        require (\<not> ((truthy (bi_modelName b) \<or> truthy (bi_modelRevision b)
            \<or> truthy (bi_modelConfigurationDigest b)) \<and> \<not> truthy (bi_modelProvider b)))
          ''model details require modelProvider''])"

definition createTaskExecutionBindingV1 :: "task_definition \<Rightarrow> binding_input \<Rightarrow> execution_binding res" where
  "createTaskExecutionBindingV1 taskDefinition input =
     bindE (validateTaskDefinitionV1 taskDefinition) (\<lambda>definition.
     bindE (validateBindingInput input) (\<lambda>_.
       let body = \<lparr>eb_taskDefinitionId = td_taskDefinitionId definition,
                   eb_taskDefinitionVersion = td_version definition,
                   eb_handlerDigest = td_handlerDigest definition,
                   eb_input = input, eb_bindingDigest = []\<rparr>
       in bindE (digestWorkflowJsonV1 ''task-execution-binding'' (binding_body_json body)) (\<lambda>dg.
            Inr (body\<lparr>eb_bindingDigest := dg\<rparr>))))"

definition validateTaskExecutionBindingV1 :: "execution_binding \<Rightarrow> unit res" where
  "validateTaskExecutionBindingV1 b =
     bindE (seqE [
       token (eb_taskDefinitionId b) ''taskDefinitionId'',
       token (eb_taskDefinitionVersion b) ''taskDefinitionVersion'',
       digest (eb_handlerDigest b) ''handlerDigest'',
       validateBindingInput (eb_input b),
       digest (eb_bindingDigest b) ''bindingDigest'']) (\<lambda>_.
     bindE (digestWorkflowJsonV1 ''task-execution-binding'' (binding_body_json b)) (\<lambda>expected.
       require (eb_bindingDigest b = expected) ''task execution binding digest does not match''))"

subsection \<open>Usage\<close>

definition validateTaskUsageV1 :: "task_usage \<Rightarrow> unit res" where
  "validateTaskUsageV1 u = seqE [
     require (\<not> (us_inputTokens u = None \<and> us_outputTokens u = None \<and> us_totalTokens u = None
       \<and> us_durationMs u = None \<and> us_cost u = None)) ''task usage cannot be empty'',
     optional (us_inputTokens u) (\<lambda>n. nonNegative n ''inputTokens''),
     optional (us_outputTokens u) (\<lambda>n. nonNegative n ''outputTokens''),
     optional (us_totalTokens u) (\<lambda>n. nonNegative n ''totalTokens''),
     (case (us_inputTokens u, us_outputTokens u, us_totalTokens u) of
        (Some i, Some out, Some tot) \<Rightarrow>
          bindE (checkedAdd i out ''token usage overflow'') (\<lambda>expected.
            require (expected = tot) ''totalTokens does not equal inputTokens plus outputTokens'')
      | _ \<Rightarrow> Inr ()),
     optional (us_durationMs u) (\<lambda>n. nonNegative n ''durationMs''),
     optional (us_cost u) (\<lambda>c. seqE [
       token (uc_currency c) ''cost currency'',
       nonNegative (uc_micros c) ''cost micros''])]"

definition or_zero :: "int option \<Rightarrow> int" where
  "or_zero v = (case v of None \<Rightarrow> 0 | Some n \<Rightarrow> n)"

text \<open>One round of the loop: the four totals and the map from currency to micros.\<close>

type_synonym usage_totals = "int \<times> int \<times> int \<times> int \<times> (string \<times> int) list"

definition add_usage :: "usage_totals \<Rightarrow> task_usage \<Rightarrow> usage_totals res" where
  "add_usage t u = (case t of (inputTokens, outputTokens, totalTokens, durationMs, costs) \<Rightarrow>
     bindE (validateTaskUsageV1 u) (\<lambda>_.
     bindE (checkedAdd inputTokens (or_zero (us_inputTokens u)) ''input token usage overflow'') (\<lambda>i.
     bindE (checkedAdd outputTokens (or_zero (us_outputTokens u)) ''output token usage overflow'') (\<lambda>out.
     bindE (checkedAdd totalTokens (or_zero (us_totalTokens u)) ''total token usage overflow'') (\<lambda>tot.
     bindE (checkedAdd durationMs (or_zero (us_durationMs u)) ''duration usage overflow'') (\<lambda>dur.
       case us_cost u of
         None \<Rightarrow> Inr (i, out, tot, dur, costs)
       | Some c \<Rightarrow>
           bindE (checkedAdd (or_zero (map_of costs (uc_currency c))) (uc_micros c) ''cost usage overflow'')
             (\<lambda>micros. Inr (i, out, tot, dur, AList.update (uc_currency c) micros costs))))))))"

text \<open>\<open>localeCompare\<close> is the collation of the host, given by \<open>lc\<close>.\<close>

definition sumTaskUsageV1 :: "(string \<Rightarrow> string \<Rightarrow> int) \<Rightarrow> task_usage list \<Rightarrow> usage_aggregate res" where
  "sumTaskUsageV1 lc usages =
     bindE (foldE add_usage (0, 0, 0, 0, []) usages) (\<lambda>(i, out, tot, dur, costs).
       Inr \<lparr>ua_inputTokens = i, ua_outputTokens = out, ua_totalTokens = tot, ua_durationMs = dur,
            ua_costs = map (\<lambda>(currency, micros). \<lparr>uc_currency = currency, uc_micros = micros\<rparr>)
              (js_sort (\<lambda>a b. lc (fst a) (fst b)) costs)\<rparr>)"

subsection \<open>Validation of a task run\<close>

definition terminalStatuses :: "task_run_status \<Rightarrow> bool" where
  "terminalStatuses s \<longleftrightarrow> s \<in> {TRCompleted, TRFailed, TRCanceled, TRIndeterminate}"

definition validateSubject :: "subject_reference \<Rightarrow> unit res" where
  "validateSubject s = seqE [
     token (sr_subjectType s) ''subjectType'', token (sr_subjectId s) ''subjectId'']"

definition taskRunDigest :: "task_run \<Rightarrow> string res" where
  "taskRunDigest r = digestWorkflowJsonV1 ''task-run-state'' (task_run_json r)"

definition freezeTaskRun :: "task_run \<Rightarrow> task_run res" where
  "freezeTaskRun body = bindE (taskRunDigest body) (\<lambda>dg. Inr (body\<lparr>tr_stateDigest := dg\<rparr>))"

definition task_run_checks :: "task_run \<Rightarrow> unit res" where
  "task_run_checks r = seqE [
     require (tr_schemaVersion r = 1) ''task run schema is invalid'',
     token (tr_tenantId r) ''tenantId'',
     token (tr_taskRunId r) ''taskRunId'',
     token (tr_processRunId r) ''processRunId'',
     token (tr_stageId r) ''stageId'',
     positive (tr_attempt r) ''attempt'',
     nonNegative (tr_revision r) ''revision'',
     token (tr_idempotencyKey r) ''idempotencyKey'',
     digest (tr_inputDigest r) ''inputDigest'',
     validateTaskExecutionBindingV1 (tr_binding r),
     optional (tr_subject r) validateSubject,
     optional (tr_usage r) validateTaskUsageV1,
     if_truthy (tr_resultReference r) (\<lambda>s. token s ''resultReference''),
     if_truthy (tr_resultDigest r) (\<lambda>s. digest s ''resultDigest''),
     if_truthy (tr_reasonCode r) (\<lambda>s. token s ''reasonCode''),
     require (\<not> (tr_retryable r \<noteq> None \<and> tr_status r \<noteq> TRFailed))
       ''task retryable flag is only valid for failed tasks'',
     token (tr_leaseOwnerId r) ''leaseOwnerId'',
     token (tr_leaseToken r) ''leaseToken'',
     nonNegative (tr_leaseGeneration r) ''leaseGeneration'',
     timestamp (tr_leaseExpiresAt r) ''leaseExpiresAt'',
     timestamp (tr_createdAt r) ''createdAt'',
     timestamp (tr_updatedAt r) ''updatedAt'',
     if_truthy (tr_startedAt r) (\<lambda>s. timestamp s ''startedAt''),
     if_truthy (tr_finishedAt r) (\<lambda>s. timestamp s ''finishedAt''),
     require (terminalStatuses (tr_status r) = truthy (tr_finishedAt r))
       ''task run terminal timestamp is inconsistent'',
     require (\<not> (tr_status r = TRRunning \<and> \<not> truthy (tr_startedAt r)))
       ''running task requires startedAt'',
     require (\<not> (tr_status r \<noteq> TRCompleted \<and> (truthy (tr_resultReference r) \<or> truthy (tr_resultDigest r))))
       ''non-completed task cannot retain a result'']"

definition validateTaskRunV1 :: "task_run \<Rightarrow> task_run res" where
  "validateTaskRunV1 r =
     bindE (task_run_checks r) (\<lambda>_.
     bindE (digest (tr_stateDigest r) ''stateDigest'') (\<lambda>_.
     bindE (taskRunDigest r) (\<lambda>expected.
       if tr_stateDigest r \<noteq> expected then fail ''task run state digest does not match''
       else Inr r)))"

subsection \<open>Operations\<close>

record create_task_run_input =
  ct_tenantId :: string
  ct_taskRunId :: string
  ct_processRunId :: string
  ct_stageId :: string
  ct_attempt :: int
  ct_idempotencyKey :: string
  ct_inputDigest :: string
  ct_binding :: execution_binding
  ct_subject :: "subject_reference option"
  ct_leaseOwnerId :: string
  ct_leaseToken :: string
  ct_leaseGeneration :: int
  ct_leaseExpiresAt :: string
  ct_logicalTime :: string

definition createTaskRunV1 :: "create_task_run_input \<Rightarrow> task_run res" where
  "createTaskRunV1 input =
     bindE (seqE [
       token (ct_tenantId input) ''tenantId'',
       token (ct_taskRunId input) ''taskRunId'',
       token (ct_processRunId input) ''processRunId'',
       token (ct_stageId input) ''stageId'',
       positive (ct_attempt input) ''attempt'',
       token (ct_idempotencyKey input) ''idempotencyKey'',
       digest (ct_inputDigest input) ''inputDigest'',
       validateTaskExecutionBindingV1 (ct_binding input),
       optional (ct_subject input) validateSubject,
       token (ct_leaseOwnerId input) ''leaseOwnerId'',
       token (ct_leaseToken input) ''leaseToken'',
       nonNegative (ct_leaseGeneration input) ''leaseGeneration'',
       timestamp (ct_leaseExpiresAt input) ''leaseExpiresAt'',
       require (\<not> js_le (date_parse (ct_leaseExpiresAt input)) (date_parse (ct_logicalTime input)))
         ''task lease must expire after logicalTime'',
       timestamp (ct_logicalTime input) ''logicalTime'']) (\<lambda>_.
     freezeTaskRun \<lparr>
       tr_schemaVersion = 1,
       tr_tenantId = ct_tenantId input,
       tr_taskRunId = ct_taskRunId input,
       tr_processRunId = ct_processRunId input,
       tr_stageId = ct_stageId input,
       tr_attempt = ct_attempt input,
       tr_revision = 0,
       tr_idempotencyKey = ct_idempotencyKey input,
       tr_inputDigest = ct_inputDigest input,
       tr_status = TRClaimed,
       tr_binding = ct_binding input,
       tr_subject = ct_subject input,
       tr_usage = None,
       tr_resultReference = None,
       tr_resultDigest = None,
       tr_reasonCode = None,
       tr_retryable = None,
       tr_leaseOwnerId = ct_leaseOwnerId input,
       tr_leaseToken = ct_leaseToken input,
       tr_leaseGeneration = ct_leaseGeneration input,
       tr_leaseExpiresAt = ct_leaseExpiresAt input,
       tr_startedAt = None,
       tr_finishedAt = None,
       tr_createdAt = ct_logicalTime input,
       tr_updatedAt = ct_logicalTime input,
       tr_stateDigest = []\<rparr>)"

record transition_input =
  ti_status :: task_run_status
  ti_logicalTime :: string
  ti_reasonCode :: "string option"
  ti_retryable :: "bool option"
  ti_usage :: "task_usage option"
  ti_resultReference :: "string option"
  ti_resultDigest :: "string option"

definition canonicalOptional :: "json option \<Rightarrow> string option res" where
  "canonicalOptional v = (case v of
     None \<Rightarrow> Inr None | Some j \<Rightarrow> bindE (canonicalizeWorkflowJsonV1 j) (\<lambda>s. Inr (Some s)))"

text \<open>The repeat of the transition that ended a run returns it; any other one is refused.\<close>

definition transition_terminal :: "task_run \<Rightarrow> transition_input \<Rightarrow> task_run res" where
  "transition_terminal current input =
     (if tr_status current = ti_status input \<and> tr_reasonCode current = ti_reasonCode input
         \<and> tr_retryable current = ti_retryable input
      then bindE (canonicalOptional (map_option usage_json (tr_usage current))) (\<lambda>a.
           bindE (canonicalOptional (map_option usage_json (ti_usage input))) (\<lambda>b.
             if a = b \<and> tr_resultReference current = ti_resultReference input
               \<and> tr_resultDigest current = ti_resultDigest input
             then Inr current else fail ''terminal task run is immutable''))
      else fail ''terminal task run is immutable'')"

definition transition_allowed :: "task_run_status \<Rightarrow> task_run_status \<Rightarrow> bool" where
  "transition_allowed current next \<longleftrightarrow>
     \<not> ((current = TRClaimed \<and> next \<notin> {TRRunning, TRCanceled, TRFailed, TRIndeterminate})
       \<or> (current = TRRunning \<and> next \<notin> {TRCompleted, TRFailed, TRCanceled, TRIndeterminate}))"

definition transition_checks :: "task_run \<Rightarrow> transition_input \<Rightarrow> unit res" where
  "transition_checks current input = seqE [
     require (transition_allowed (tr_status current) (ti_status input)) ''task run transition is invalid'',
     timestamp (ti_logicalTime input) ''logicalTime'',
     require (\<not> js_lt (date_parse (ti_logicalTime input)) (date_parse (tr_updatedAt current)))
       ''task run logical time moved backwards'',
     optional (ti_reasonCode input) (\<lambda>s. token s ''reasonCode''),
     require (\<not> (ti_retryable input \<noteq> None \<and> ti_status input \<noteq> TRFailed))
       ''task retryable flag is only valid for failed tasks'',
     optional (ti_usage input) validateTaskUsageV1,
     optional (ti_resultReference input) (\<lambda>s. token s ''resultReference''),
     optional (ti_resultDigest input) (\<lambda>s. digest s ''resultDigest''),
     require (\<not> (ti_status input \<noteq> TRCompleted
         \<and> (ti_resultReference input \<noteq> None \<or> ti_resultDigest input \<noteq> None)))
       ''only a completed task can retain a result'',
     require (\<not> (ti_status input \<in> {TRFailed, TRIndeterminate} \<and> \<not> truthy (ti_reasonCode input)))
       ''failed or indeterminate task requires a reasonCode'']"

definition or_else :: "'a option \<Rightarrow> 'a option \<Rightarrow> 'a option" where
  "or_else a b = (case a of None \<Rightarrow> b | Some x \<Rightarrow> Some x)"

definition transitionTaskRunV1 :: "task_run \<Rightarrow> transition_input \<Rightarrow> task_run res" where
  "transitionTaskRunV1 currentInput input =
     bindE (validateTaskRunV1 currentInput) (\<lambda>current.
       if terminalStatuses (tr_status current) then transition_terminal current input
       else bindE (transition_checks current input) (\<lambda>_.
         freezeTaskRun (current\<lparr>
           tr_revision := tr_revision current + 1,
           tr_status := ti_status input,
           tr_reasonCode := ti_reasonCode input,
           tr_retryable := ti_retryable input,
           tr_usage := or_else (ti_usage input) (tr_usage current),
           tr_resultReference := or_else (ti_resultReference input) (tr_resultReference current),
           tr_resultDigest := or_else (ti_resultDigest input) (tr_resultDigest current),
           tr_startedAt := (if ti_status input = TRRunning \<and> \<not> truthy (tr_startedAt current)
             then Some (ti_logicalTime input) else tr_startedAt current),
           tr_finishedAt := (if terminalStatuses (ti_status input)
             then Some (ti_logicalTime input) else None),
           tr_updatedAt := ti_logicalTime input\<rparr>)))"

definition heartbeatTaskRunV1 :: "task_run \<Rightarrow> string \<Rightarrow> string \<Rightarrow> string \<Rightarrow> task_run res" where
  "heartbeatTaskRunV1 currentInput leaseToken logicalTime leaseExpiresAt =
     bindE (validateTaskRunV1 currentInput) (\<lambda>current.
     bindE (seqE [
       require (tr_status current \<in> {TRClaimed, TRRunning}) ''terminal task lease cannot heartbeat'',
       require (tr_leaseToken current = leaseToken) ''task lease token is stale'',
       timestamp logicalTime ''logicalTime'',
       timestamp leaseExpiresAt ''leaseExpiresAt'',
       require (\<not> (js_lt (date_parse logicalTime) (date_parse (tr_updatedAt current))
           \<or> js_lt (date_parse (tr_leaseExpiresAt current)) (date_parse logicalTime)
           \<or> js_le (date_parse leaseExpiresAt) (date_parse logicalTime)))
         ''task lease heartbeat time is invalid'']) (\<lambda>_.
     freezeTaskRun (current\<lparr>
       tr_revision := tr_revision current + 1,
       tr_reasonCode := None,
       tr_retryable := None,
       tr_finishedAt := None,
       tr_leaseExpiresAt := leaseExpiresAt,
       tr_updatedAt := logicalTime\<rparr>)))"

definition takeOverExpiredTaskRunV1 ::
  "task_run \<Rightarrow> string \<Rightarrow> string \<Rightarrow> string \<Rightarrow> string \<Rightarrow> task_run res" where
  "takeOverExpiredTaskRunV1 currentInput leaseOwnerId leaseToken logicalTime leaseExpiresAt =
     bindE (validateTaskRunV1 currentInput) (\<lambda>current.
     bindE (seqE [
       require (tr_status current \<in> {TRClaimed, TRRunning}) ''terminal task run cannot be taken over'',
       token leaseOwnerId ''leaseOwnerId'',
       token leaseToken ''leaseToken'',
       timestamp logicalTime ''logicalTime'',
       timestamp leaseExpiresAt ''leaseExpiresAt'',
       require (\<not> (js_lt (date_parse logicalTime) (date_parse (tr_leaseExpiresAt current))
           \<or> js_le (date_parse leaseExpiresAt) (date_parse logicalTime)
           \<or> leaseToken = tr_leaseToken current))
         ''task lease takeover is invalid'']) (\<lambda>_.
     freezeTaskRun (current\<lparr>
       tr_revision := tr_revision current + 1,
       tr_status := TRClaimed,
       tr_leaseOwnerId := leaseOwnerId,
       tr_leaseToken := leaseToken,
       tr_leaseGeneration := tr_leaseGeneration current + 1,
       tr_leaseExpiresAt := leaseExpiresAt,
       tr_updatedAt := logicalTime\<rparr>)))"

datatype reconcile_input =
    ReconcileCompleted (rc_logicalTime: string) "string option" "string option" (rc_usage: "task_usage option")
  | ReconcileFailed (rc_logicalTime: string) string (rc_usage: "task_usage option")
  | ReconcileCanceled (rc_logicalTime: string) string (rc_usage: "task_usage option")

definition truthy_or :: "string option \<Rightarrow> string option \<Rightarrow> string option" where
  "truthy_or v w = (if truthy v then v else w)"

definition reconcileIndeterminateTaskRunV1 :: "task_run \<Rightarrow> reconcile_input \<Rightarrow> task_run res" where
  "reconcileIndeterminateTaskRunV1 currentInput input =
     bindE (validateTaskRunV1 currentInput) (\<lambda>current.
     bindE (seqE [
       require (tr_status current = TRIndeterminate) ''only an indeterminate task can be reconciled'',
       timestamp (rc_logicalTime input) ''logicalTime'',
       require (\<not> js_lt (date_parse (rc_logicalTime input)) (date_parse (tr_updatedAt current)))
         ''task reconciliation logical time moved backwards'',
       optional (rc_usage input) validateTaskUsageV1,
       (case input of
          ReconcileCompleted _ ref dg _ \<Rightarrow> seqE [
            if_truthy ref (\<lambda>s. token s ''resultReference''),
            if_truthy dg (\<lambda>s. digest s ''resultDigest'')]
        | ReconcileFailed _ reason _ \<Rightarrow> token reason ''reasonCode''
        | ReconcileCanceled _ reason _ \<Rightarrow> token reason ''reasonCode'')]) (\<lambda>_.
     let base = current\<lparr>
           tr_revision := tr_revision current + 1,
           tr_reasonCode := None,
           tr_retryable := None,
           tr_usage := or_else (rc_usage input) (tr_usage current),
           tr_finishedAt := Some (rc_logicalTime input),
           tr_updatedAt := rc_logicalTime input\<rparr>
     in freezeTaskRun (case input of
          ReconcileCompleted _ ref dg _ \<Rightarrow> base\<lparr>
            tr_status := TRCompleted,
            tr_resultReference := truthy_or ref (tr_resultReference current),
            tr_resultDigest := truthy_or dg (tr_resultDigest current)\<rparr>
        | ReconcileFailed _ reason _ \<Rightarrow> base\<lparr>tr_status := TRFailed, tr_reasonCode := Some reason\<rparr>
        | ReconcileCanceled _ reason _ \<Rightarrow> base\<lparr>tr_status := TRCanceled, tr_reasonCode := Some reason\<rparr>)))"

subsection \<open>Every operation returns a valid run\<close>

lemma task_run_json_digest_irrelevant [simp]:
  "task_run_json (r\<lparr>tr_stateDigest := x\<rparr>) = task_run_json r"
  "taskRunDigest (r\<lparr>tr_stateDigest := x\<rparr>) = taskRunDigest r"
  "task_run_checks (r\<lparr>tr_stateDigest := x\<rparr>) = task_run_checks r"
  by (simp_all add: task_run_json_def taskRunDigest_def task_run_checks_def)

lemma validateTaskRunV1_iff:
  "validateTaskRunV1 r = Inr r' \<longleftrightarrow>
     r' = r \<and> task_run_checks r = Inr () \<and> taskRunDigest r = Inr (tr_stateDigest r)"
  using digestWorkflowJsonV1_valid
  by (auto simp: validateTaskRunV1_def bindE_Inr_iff taskRunDigest_def split: if_splits)

lemma freezeTaskRun_iff:
  "freezeTaskRun body = Inr r \<longleftrightarrow> (\<exists>dg. taskRunDigest body = Inr dg \<and> r = body\<lparr>tr_stateDigest := dg\<rparr>)"
  by (auto simp: freezeTaskRun_def bindE_Inr_iff)

lemma freezeTaskRun_valid:
  "freezeTaskRun body = Inr r \<Longrightarrow> task_run_checks body = Inr () \<Longrightarrow> validateTaskRunV1 r = Inr r"
  by (auto simp: freezeTaskRun_iff validateTaskRunV1_iff)

lemmas task_run_op_simps = bindE_Inr_iff seqE_Inr_iff freezeTaskRun_iff validateTaskRunV1_iff

lemma truthy_Some [simp]: "truthy (Some s) \<longleftrightarrow> s \<noteq> []" "\<not> truthy None"
  by (simp_all add: truthy_def)

lemma date_parse_Nil [simp]: "date_parse [] = None"
  by (simp add: date_parse_def iso_shape_def)

lemma isSafeInteger_plus1: "isSafeInteger n \<Longrightarrow> n < maximumSafeInteger \<Longrightarrow> 0 \<le> n \<Longrightarrow> isSafeInteger (n + 1)"
  by (simp add: isSafeInteger_def)

lemma createTaskRunV1_valid:
  assumes "createTaskRunV1 input = Inr r"
  shows "validateTaskRunV1 r = Inr r"
proof -
  from assms obtain body where "freezeTaskRun body = Inr r" "task_run_checks body = Inr ()"
    by (auto simp: createTaskRunV1_def bindE_Inr_iff seqE_Inr_iff task_run_checks_def
        terminalStatuses_def isSafeInteger_def maximumSafeInteger_def)
  then show ?thesis by (rule freezeTaskRun_valid)
qed

lemma task_run_checks_iff:
  "task_run_checks r = Inr () \<longleftrightarrow>
     tr_schemaVersion r = 1 \<and> valid_token (tr_tenantId r) \<and> valid_token (tr_taskRunId r)
   \<and> valid_token (tr_processRunId r) \<and> valid_token (tr_stageId r)
   \<and> (isSafeInteger (tr_attempt r) \<and> 1 \<le> tr_attempt r)
   \<and> (isSafeInteger (tr_revision r) \<and> 0 \<le> tr_revision r)
   \<and> valid_token (tr_idempotencyKey r) \<and> valid_digest (tr_inputDigest r)
   \<and> validateTaskExecutionBindingV1 (tr_binding r) = Inr ()
   \<and> (\<forall>s. tr_subject r = Some s \<longrightarrow> validateSubject s = Inr ())
   \<and> (\<forall>u. tr_usage r = Some u \<longrightarrow> validateTaskUsageV1 u = Inr ())
   \<and> (\<forall>s. tr_resultReference r = Some s \<longrightarrow> s \<noteq> [] \<longrightarrow> valid_token s)
   \<and> (\<forall>s. tr_resultDigest r = Some s \<longrightarrow> s \<noteq> [] \<longrightarrow> valid_digest s)
   \<and> (\<forall>s. tr_reasonCode r = Some s \<longrightarrow> s \<noteq> [] \<longrightarrow> valid_token s)
   \<and> (tr_retryable r \<noteq> None \<longrightarrow> tr_status r = TRFailed)
   \<and> valid_token (tr_leaseOwnerId r) \<and> valid_token (tr_leaseToken r)
   \<and> (isSafeInteger (tr_leaseGeneration r) \<and> 0 \<le> tr_leaseGeneration r)
   \<and> date_parse (tr_leaseExpiresAt r) \<noteq> None \<and> date_parse (tr_createdAt r) \<noteq> None
   \<and> date_parse (tr_updatedAt r) \<noteq> None
   \<and> (\<forall>s. tr_startedAt r = Some s \<longrightarrow> s \<noteq> [] \<longrightarrow> date_parse s \<noteq> None)
   \<and> (\<forall>s. tr_finishedAt r = Some s \<longrightarrow> s \<noteq> [] \<longrightarrow> date_parse s \<noteq> None)
   \<and> terminalStatuses (tr_status r) = truthy (tr_finishedAt r)
   \<and> (tr_status r = TRRunning \<longrightarrow> truthy (tr_startedAt r))
   \<and> (tr_status r \<noteq> TRCompleted \<longrightarrow> \<not> truthy (tr_resultReference r) \<and> \<not> truthy (tr_resultDigest r))"
  unfolding task_run_checks_def seqE_Inr_iff list.set ball_simps checks_Inr_iff optional_Inr_iff
    if_truthy_Inr_iff require_Inr_iff
  by argo

text \<open>What no operation changes: the identity a task executor was given.\<close>

definition same_identity :: "task_run \<Rightarrow> task_run \<Rightarrow> bool" where
  "same_identity r r' \<longleftrightarrow> tr_tenantId r' = tr_tenantId r \<and> tr_taskRunId r' = tr_taskRunId r
     \<and> tr_processRunId r' = tr_processRunId r \<and> tr_stageId r' = tr_stageId r \<and> tr_attempt r' = tr_attempt r
     \<and> tr_idempotencyKey r' = tr_idempotencyKey r \<and> tr_inputDigest r' = tr_inputDigest r
     \<and> tr_binding r' = tr_binding r \<and> tr_subject r' = tr_subject r \<and> tr_createdAt r' = tr_createdAt r"

definition final_status :: "task_run_status \<Rightarrow> bool" where
  "final_status s \<longleftrightarrow> s \<in> {TRCompleted, TRFailed, TRCanceled}"

text \<open>The status graph over all operations; \<open>claimed\<close> is re-entered by a takeover.\<close>

definition status_edge :: "task_run_status \<Rightarrow> task_run_status \<Rightarrow> bool" where
  "status_edge a b \<longleftrightarrow>
     (a = TRClaimed \<and> b \<in> {TRClaimed, TRRunning, TRCanceled, TRFailed, TRIndeterminate})
   \<or> (a = TRRunning \<and> b \<in> {TRRunning, TRClaimed, TRCompleted, TRFailed, TRCanceled, TRIndeterminate})
   \<or> (a = TRIndeterminate \<and> b \<in> {TRCompleted, TRFailed, TRCanceled})"

definition task_progress :: "task_run \<Rightarrow> task_run \<Rightarrow> bool" where
  "task_progress r r' \<longleftrightarrow> same_identity r r' \<and> tr_revision r' = tr_revision r + 1
     \<and> status_edge (tr_status r) (tr_status r') \<and> tr_leaseGeneration r \<le> tr_leaseGeneration r'
     \<and> (tr_leaseGeneration r < maximumSafeInteger \<longrightarrow> tr_revision r < maximumSafeInteger
          \<longrightarrow> validateTaskRunV1 r' = Inr r')"

lemma validateTaskRunV1_arg: "validateTaskRunV1 r = Inr c \<Longrightarrow> c = r"
  by (simp add: validateTaskRunV1_iff)

lemma transition_checks_iff:
  "transition_checks c i = Inr u \<longleftrightarrow>
     transition_allowed (tr_status c) (ti_status i) \<and> (\<exists>t. date_parse (ti_logicalTime i) = Some t)
     \<and> \<not> js_lt (date_parse (ti_logicalTime i)) (date_parse (tr_updatedAt c))
     \<and> (\<forall>s. ti_reasonCode i = Some s \<longrightarrow> valid_token s)
     \<and> (ti_retryable i \<noteq> None \<longrightarrow> ti_status i = TRFailed)
     \<and> (\<forall>us. ti_usage i = Some us \<longrightarrow> validateTaskUsageV1 us = Inr ())
     \<and> (\<forall>s. ti_resultReference i = Some s \<longrightarrow> valid_token s)
     \<and> (\<forall>s. ti_resultDigest i = Some s \<longrightarrow> valid_digest s)
     \<and> (ti_status i \<noteq> TRCompleted \<longrightarrow> ti_resultReference i = None \<and> ti_resultDigest i = None)
     \<and> (ti_status i \<in> {TRFailed, TRIndeterminate} \<longrightarrow> truthy (ti_reasonCode i))"
  by (auto simp: transition_checks_def seqE_Inr_iff)

lemma transition_progress:
  assumes "transitionTaskRunV1 c i = Inr r" "\<not> terminalStatuses (tr_status c)"
  shows "task_progress c r" "tr_status r = ti_status i" "transition_allowed (tr_status c) (ti_status i)"
proof -
  from assms obtain body where c: "task_run_checks c = Inr ()" and
    ch: "transition_checks c i = Inr ()" and body: "freezeTaskRun body = Inr r" "body = c\<lparr>
           tr_revision := tr_revision c + 1, tr_status := ti_status i,
           tr_reasonCode := ti_reasonCode i, tr_retryable := ti_retryable i,
           tr_usage := or_else (ti_usage i) (tr_usage c),
           tr_resultReference := or_else (ti_resultReference i) (tr_resultReference c),
           tr_resultDigest := or_else (ti_resultDigest i) (tr_resultDigest c),
           tr_startedAt := (if ti_status i = TRRunning \<and> \<not> truthy (tr_startedAt c)
             then Some (ti_logicalTime i) else tr_startedAt c),
           tr_finishedAt := (if terminalStatuses (ti_status i) then Some (ti_logicalTime i) else None),
           tr_updatedAt := ti_logicalTime i\<rparr>"
    by (auto simp: transitionTaskRunV1_def bindE_Inr_iff validateTaskRunV1_iff)
  note ch' = ch[unfolded transition_checks_iff]
  have time: "ti_logicalTime i \<noteq> []" using ch' by auto
  have "task_run_checks body = Inr ()" if "tr_revision c < maximumSafeInteger"
  proof -
    have claimed: "ti_status i = TRClaimed \<Longrightarrow> False"
      using ch' assms(2) by (cases "tr_status c") (auto simp: transition_allowed_def terminalStatuses_def)
    note c' = c[unfolded task_run_checks_iff]
    show ?thesis
      unfolding task_run_checks_iff body(2)
    proof (intro conjI, goal_cases)
      case 8
      show ?case using c' that by (simp add: isSafeInteger_plus1)
    next
      case 14
      show ?case using c' ch' by (simp add: or_else_def split: option.splits)
    next
      case 15
      show ?case using c' ch' by (simp add: or_else_def split: option.splits)
    next
      case 16
      show ?case using c' ch' by (simp add: or_else_def split: option.splits)
    next
      case 29
      show ?case
      proof (cases "tr_status c")
        case TRClaimed
        then show ?thesis using c' ch' assms(2) time claimed by (simp add: transition_allowed_def)
      qed (use c' ch' assms(2) time claimed in \<open>simp_all add: transition_allowed_def terminalStatuses_def\<close>)
    next
      case 30
      have "\<not> truthy (tr_resultReference c)" "\<not> truthy (tr_resultDigest c)"
        using c' assms(2) by (auto simp: terminalStatuses_def)
      with ch' show ?case by (auto simp: or_else_def split: option.splits)
    qed (use c' ch' time in simp_all)
  qed
  then have valid: "tr_revision c < maximumSafeInteger \<Longrightarrow> validateTaskRunV1 r = Inr r"
    using freezeTaskRun_valid[OF body(1)] by blast
  show "tr_status r = ti_status i" "transition_allowed (tr_status c) (ti_status i)"
    using body ch' by (auto simp: freezeTaskRun_iff)
  then show "task_progress c r"
    using body assms(2) valid
    by (cases "tr_status c")
       (auto simp: task_progress_def same_identity_def status_edge_def freezeTaskRun_iff
          transition_allowed_def terminalStatuses_def)
qed

lemma heartbeat_progress:
  assumes "heartbeatTaskRunV1 c tok now until = Inr r"
  shows "task_progress c r" "tr_leaseToken c = tok" "tr_status r = tr_status c"
    "tr_leaseGeneration r = tr_leaseGeneration c" "tr_leaseToken r = tok" "tr_leaseOwnerId r = tr_leaseOwnerId c"
proof -
  from assms obtain body where c: "task_run_checks c = Inr ()" and
    st: "tr_status c \<in> {TRClaimed, TRRunning}" and tok: "tr_leaseToken c = tok" and
    time: "date_parse now \<noteq> None" "date_parse until \<noteq> None" and
    body: "freezeTaskRun body = Inr r" "body = c\<lparr>
       tr_revision := tr_revision c + 1, tr_reasonCode := None, tr_retryable := None,
       tr_finishedAt := None, tr_leaseExpiresAt := until, tr_updatedAt := now\<rparr>"
    by (auto simp: heartbeatTaskRunV1_def bindE_Inr_iff seqE_Inr_iff validateTaskRunV1_iff)
  have "task_run_checks body = Inr ()" if "tr_revision c < maximumSafeInteger"
    using c st time that unfolding task_run_checks_def seqE_Inr_iff body(2)
    by (auto simp: isSafeInteger_plus1 terminalStatuses_def)
  then have valid: "tr_revision c < maximumSafeInteger \<Longrightarrow> validateTaskRunV1 r = Inr r"
    using freezeTaskRun_valid[OF body(1)] by blast
  show "task_progress c r"
    using body st valid
    by (auto simp: task_progress_def same_identity_def status_edge_def freezeTaskRun_iff)
  show "tr_leaseToken c = tok" "tr_status r = tr_status c"
    "tr_leaseGeneration r = tr_leaseGeneration c" "tr_leaseToken r = tok" "tr_leaseOwnerId r = tr_leaseOwnerId c"
    using tok body by (auto simp: freezeTaskRun_iff)
qed

lemma takeover_progress:
  assumes "takeOverExpiredTaskRunV1 c owner tok now until = Inr r"
  shows "task_progress c r" "tr_status r = TRClaimed" "tr_leaseGeneration r = tr_leaseGeneration c + 1"
    "tr_leaseToken r = tok" "tok \<noteq> tr_leaseToken c" "tr_leaseOwnerId r = owner"
    "\<not> js_lt (date_parse now) (date_parse (tr_leaseExpiresAt c))" "tr_leaseExpiresAt r = until"
proof -
  from assms obtain body where c: "task_run_checks c = Inr ()" and
    st: "tr_status c \<in> {TRClaimed, TRRunning}" and tok: "valid_token owner" "valid_token tok" and
    time: "date_parse now \<noteq> None" "date_parse until \<noteq> None" and
    exp: "\<not> js_lt (date_parse now) (date_parse (tr_leaseExpiresAt c))" "tok \<noteq> tr_leaseToken c" and
    body: "freezeTaskRun body = Inr r" "body = c\<lparr>
       tr_revision := tr_revision c + 1, tr_status := TRClaimed, tr_leaseOwnerId := owner,
       tr_leaseToken := tok, tr_leaseGeneration := tr_leaseGeneration c + 1,
       tr_leaseExpiresAt := until, tr_updatedAt := now\<rparr>"
    by (auto simp: takeOverExpiredTaskRunV1_def bindE_Inr_iff seqE_Inr_iff validateTaskRunV1_iff)
  have "task_run_checks body = Inr ()"
    if "tr_revision c < maximumSafeInteger" "tr_leaseGeneration c < maximumSafeInteger"
    using c st tok time that unfolding task_run_checks_def seqE_Inr_iff body(2)
    by (auto simp: isSafeInteger_plus1 terminalStatuses_def)
  then have valid: "tr_revision c < maximumSafeInteger \<Longrightarrow> tr_leaseGeneration c < maximumSafeInteger
      \<Longrightarrow> validateTaskRunV1 r = Inr r"
    using freezeTaskRun_valid[OF body(1)] by blast
  show "task_progress c r"
    using body st valid
    by (auto simp: task_progress_def same_identity_def status_edge_def freezeTaskRun_iff)
  show "tr_status r = TRClaimed" "tr_leaseGeneration r = tr_leaseGeneration c + 1"
    "tr_leaseToken r = tok" "tr_leaseOwnerId r = owner" "tr_leaseExpiresAt r = until"
    using body by (auto simp: freezeTaskRun_iff)
  show "tok \<noteq> tr_leaseToken c" "\<not> js_lt (date_parse now) (date_parse (tr_leaseExpiresAt c))"
    using exp by simp_all
qed

lemma reconcile_progress:
  assumes "reconcileIndeterminateTaskRunV1 c i = Inr r"
  shows "task_progress c r" "tr_status c = TRIndeterminate" "final_status (tr_status r)"
proof -
  from assms obtain body where c: "task_run_checks c = Inr ()" and st: "tr_status c = TRIndeterminate" and
    time: "date_parse (rc_logicalTime i) \<noteq> None" and
    us: "\<forall>u. rc_usage i = Some u \<longrightarrow> validateTaskUsageV1 u = Inr ()" and
    body: "freezeTaskRun body = Inr r" and
    cases: "case i of
          ReconcileCompleted _ ref dg _ \<Rightarrow>
            (\<forall>s. ref = Some s \<longrightarrow> s \<noteq> [] \<longrightarrow> valid_token s) \<and> (\<forall>s. dg = Some s \<longrightarrow> s \<noteq> [] \<longrightarrow> valid_digest s)
            \<and> body = c\<lparr>tr_revision := tr_revision c + 1, tr_reasonCode := None, tr_retryable := None,
                tr_usage := or_else (rc_usage i) (tr_usage c), tr_finishedAt := Some (rc_logicalTime i),
                tr_updatedAt := rc_logicalTime i, tr_status := TRCompleted,
                tr_resultReference := truthy_or ref (tr_resultReference c),
                tr_resultDigest := truthy_or dg (tr_resultDigest c)\<rparr>
        | ReconcileFailed _ reason _ \<Rightarrow> valid_token reason
            \<and> body = c\<lparr>tr_revision := tr_revision c + 1, tr_retryable := None,
                tr_usage := or_else (rc_usage i) (tr_usage c), tr_finishedAt := Some (rc_logicalTime i),
                tr_updatedAt := rc_logicalTime i, tr_status := TRFailed, tr_reasonCode := Some reason\<rparr>
        | ReconcileCanceled _ reason _ \<Rightarrow> valid_token reason
            \<and> body = c\<lparr>tr_revision := tr_revision c + 1, tr_retryable := None,
                tr_usage := or_else (rc_usage i) (tr_usage c), tr_finishedAt := Some (rc_logicalTime i),
                tr_updatedAt := rc_logicalTime i, tr_status := TRCanceled, tr_reasonCode := Some reason\<rparr>"
    by (cases i) (auto simp: reconcileIndeterminateTaskRunV1_def bindE_Inr_iff seqE_Inr_iff validateTaskRunV1_iff Let_def)
  have ne: "rc_logicalTime i \<noteq> []" using time by auto
  have "task_run_checks body = Inr ()" if "tr_revision c < maximumSafeInteger"
    using c st time us that cases ne unfolding task_run_checks_def seqE_Inr_iff
    by (cases i) (auto simp: isSafeInteger_plus1 terminalStatuses_def or_else_def truthy_or_def split: option.splits)
  then have valid: "tr_revision c < maximumSafeInteger \<Longrightarrow> validateTaskRunV1 r = Inr r"
    using freezeTaskRun_valid[OF body] by blast
  show "task_progress c r"
    using body cases st valid
    by (cases i) (auto simp: task_progress_def same_identity_def status_edge_def freezeTaskRun_iff)
  show "final_status (tr_status r)"
    using body cases by (cases i) (auto simp: final_status_def freezeTaskRun_iff)
  show "tr_status c = TRIndeterminate" by (rule st)
qed

subsection \<open>Steps of a task run\<close>

inductive task_step :: "task_run \<Rightarrow> task_run \<Rightarrow> bool" where
  transition: "transitionTaskRunV1 r i = Inr r' \<Longrightarrow> task_step r r'"
| heartbeat: "heartbeatTaskRunV1 r tok now until = Inr r' \<Longrightarrow> task_step r r'"
| takeover: "takeOverExpiredTaskRunV1 r owner tok now until = Inr r' \<Longrightarrow> task_step r r'"
| reconcile: "reconcileIndeterminateTaskRunV1 r j = Inr r' \<Longrightarrow> task_step r r'"

lemma transition_terminal_same: "transition_terminal c i = Inr r \<Longrightarrow> r = c"
  by (auto simp: transition_terminal_def bindE_Inr_iff split: if_splits)

lemma task_step_cases:
  assumes "task_step r r'"
  shows "r' = r \<and> terminalStatuses (tr_status r) \<or> task_progress r r'"
  using assms
proof cases
  case (transition i)
  show ?thesis
  proof (cases "terminalStatuses (tr_status r)")
    case True
    with transition show ?thesis
      by (auto simp: transitionTaskRunV1_def bindE_Inr_iff validateTaskRunV1_iff dest: transition_terminal_same)
  next
    case False
    with transition_progress(1)[OF transition] show ?thesis by simp
  qed
qed (blast dest: heartbeat_progress(1) takeover_progress(1) reconcile_progress(1))+

lemma task_step_final:
  assumes "task_step r r'" "final_status (tr_status r)"
  shows "r' = r"
  using task_step_cases[OF assms(1)] assms(2)
  by (auto simp: task_progress_def status_edge_def final_status_def)

lemma task_steps_final: "task_step\<^sup>*\<^sup>* r r' \<Longrightarrow> final_status (tr_status r) \<Longrightarrow> r' = r"
  by (induction rule: rtranclp_induct) (auto dest: task_step_final)

lemma same_identity_refl [simp]: "same_identity r r"
  by (simp add: same_identity_def)

lemma same_identity_trans: "same_identity a b \<Longrightarrow> same_identity b c \<Longrightarrow> same_identity a c"
  by (simp add: same_identity_def)

lemma task_steps_monotone:
  "task_step\<^sup>*\<^sup>* r r' \<Longrightarrow> same_identity r r' \<and> tr_revision r \<le> tr_revision r'
     \<and> tr_leaseGeneration r \<le> tr_leaseGeneration r'"
proof (induction rule: rtranclp_induct)
  case (step y z)
  from task_step_cases[OF step.hyps(2)] step.IH show ?case
    by (auto simp: task_progress_def intro: same_identity_trans)
qed simp

subsection \<open>Usage totals\<close>

definition cost_in :: "string \<Rightarrow> task_usage \<Rightarrow> int" where
  "cost_in cur u = (case us_cost u of Some c \<Rightarrow> if uc_currency c = cur then uc_micros c else 0 | None \<Rightarrow> 0)"

definition has_cost :: "string \<Rightarrow> task_usage \<Rightarrow> bool" where
  "has_cost cur u \<longleftrightarrow> (case us_cost u of Some c \<Rightarrow> uc_currency c = cur | None \<Rightarrow> False)"

lemma add_usage_step:
  assumes "add_usage (i, out, tot, dur, costs) u = Inr (i', out', tot', dur', costs')"
  shows "i' = i + or_zero (us_inputTokens u)" "out' = out + or_zero (us_outputTokens u)"
    "tot' = tot + or_zero (us_totalTokens u)" "dur' = dur + or_zero (us_durationMs u)"
    "or_zero (map_of costs' cur) = or_zero (map_of costs cur) + cost_in cur u"
    "map_of costs' cur \<noteq> None \<longleftrightarrow> map_of costs cur \<noteq> None \<or> has_cost cur u"
    "distinct (map fst costs) \<Longrightarrow> distinct (map fst costs')"
  using assms
  by (auto simp: add_usage_def bindE_Inr_iff or_zero_def cost_in_def has_cost_def update_conv' distinct_update
      split: option.splits)

lemma fold_usage:
  assumes "foldE add_usage (i, out, tot, dur, costs) us = Inr (i', out', tot', dur', costs')"
    "distinct (map fst costs)"
  shows "i' = i + sum_list (map (\<lambda>u. or_zero (us_inputTokens u)) us)
    \<and> out' = out + sum_list (map (\<lambda>u. or_zero (us_outputTokens u)) us)
    \<and> tot' = tot + sum_list (map (\<lambda>u. or_zero (us_totalTokens u)) us)
    \<and> dur' = dur + sum_list (map (\<lambda>u. or_zero (us_durationMs u)) us)
    \<and> or_zero (map_of costs' cur) = or_zero (map_of costs cur) + sum_list (map (cost_in cur) us)
    \<and> (map_of costs' cur \<noteq> None \<longleftrightarrow> map_of costs cur \<noteq> None \<or> list_ex (has_cost cur) us)
    \<and> distinct (map fst costs')"
  using assms
proof (induction us arbitrary: i out tot dur costs)
  case (Cons u us)
  then obtain i1 o1 t1 d1 c1 where one: "add_usage (i, out, tot, dur, costs) u = Inr (i1, o1, t1, d1, c1)"
    and rest: "foldE add_usage (i1, o1, t1, d1, c1) us = Inr (i', out', tot', dur', costs')"
    by (auto simp: bindE_Inr_iff)
  note st = add_usage_step[OF one]
  from Cons.IH[OF rest st(7)[OF Cons.prems(2)]] st(1-4) st(5,6)[of cur] show ?case
    by (simp del: not_None_eq)
qed simp

end
