(* ===== verification/WfRuns.thy ===== *)
theory WfRuns
  imports WfTaskRuns
begin

text \<open>
  The process run of \<open>packages/workflows/src/v1-runtime.ts\<close> as a value: creation, the
  checks of runs and signals, and the functions that rewrite a draft of a run
  (\<open>activateStages\<close>, \<open>settleRunStatus\<close>, \<open>cancelDraft\<close>, \<open>finalizeRun\<close>, the task
  result and the compensation queue). A draft is mutated in place by the code; here each function
  returns the new draft, and a throw drops it, as the code's callers do.
\<close>

subsection \<open>Stage states\<close>

text \<open>\<open>mutableState\<close>: the first state with the identifier.\<close>

definition mutableState :: "process_run \<Rightarrow> string \<Rightarrow> stage_state res" where
  "mutableState run stageId =
     (case find (\<lambda>s. ss_stageId s = stageId) (pr_stageStates run) of
        None \<Rightarrow> fail (''process run is missing stage state '' @ stageId)
      | Some s \<Rightarrow> Inr s)"

fun update_first :: "string \<Rightarrow> (stage_state \<Rightarrow> stage_state) \<Rightarrow> stage_state list \<Rightarrow> stage_state list" where
  "update_first i f [] = []"
| "update_first i f (s # ss) = (if ss_stageId s = i then f s # ss else s # update_first i f ss)"

text \<open>The assignments through the reference that \<open>mutableState\<close> returned.\<close>

definition set_state :: "string \<Rightarrow> (stage_state \<Rightarrow> stage_state) \<Rightarrow> process_run \<Rightarrow> process_run" where
  "set_state i f run = run\<lparr>pr_stageStates := update_first i f (pr_stageStates run)\<rparr>"

definition terminal :: "stage_outcome \<Rightarrow> string \<Rightarrow> string option \<Rightarrow> stage_state \<Rightarrow> stage_state" where
  "terminal outcome logicalTime reasonCode s =
     (let t = s\<lparr>ss_status := Terminal, ss_outcome := Some outcome, ss_finishedAt := Some logicalTime\<rparr>
      in if truthy reasonCode then t\<lparr>ss_reasonCode := reasonCode\<rparr> else t)"

definition terminalRun :: "run_status \<Rightarrow> bool" where
  "terminalRun s \<longleftrightarrow> s \<in> {RCompleted, RFailed, RCanceled}"

definition successOutcomes :: "stage_outcome set" where
  "successOutcomes = {Succeeded, SignalReceived, Approved}"

subsection \<open>Creation and validation\<close>

text \<open>JavaScript truthiness of a JSON value: objects and arrays are truthy.\<close>

fun json_truthy :: "json \<Rightarrow> bool" where
  "json_truthy JNull = False"
| "json_truthy (JBool b) = b"
| "json_truthy (JNum n) = (n \<noteq> 0)"
| "json_truthy (JStr s) = (s \<noteq> [])"
| "json_truthy _ = True"

definition processRunDigest :: "process_run \<Rightarrow> string res" where
  "processRunDigest r = digestWorkflowJsonV1 ''process-run-state'' (process_run_json r)"

definition validateMutationIdentity :: "string \<Rightarrow> string \<Rightarrow> string \<Rightarrow> string \<Rightarrow> unit res" where
  "validateMutationIdentity tenantId runId operationId idempotencyKey = seqE [
     token tenantId ''tenantId'', token runId ''runId'',
     token operationId ''operationId'', token idempotencyKey ''idempotencyKey'']"

definition validateStartInput :: "start_input \<Rightarrow> unit res" where
  "validateStartInput i = seqE [
     validateMutationIdentity (si_tenantId i) (si_runId i) (si_operationId i) (si_idempotencyKey i),
     token (si_processId i) ''processId'',
     token (si_processVersion i) ''processVersion'',
     timestamp (si_logicalTime i) ''logicalTime'',
     optional (si_subject i) validateSubject]"

definition assertTimeNotBefore :: "string \<Rightarrow> string \<Rightarrow> unit res" where
  "assertTimeNotBefore current previous =
     require (\<not> js_lt (date_parse current) (date_parse previous)) ''workflow logical time moved backwards''"

definition initial_stage_state :: "process_stage list \<Rightarrow> process_stage \<Rightarrow> stage_state" where
  "initial_stage_state stages stage = \<lparr>
     ss_stageId = st_stageId stage,
     ss_status = (if st_stageId stage \<notin> st_stageId ` set (filter is_compensation stages)
       \<and> st_dependsOn stage = [] then Ready else Blocked),
     ss_outcome = None, ss_attempt = 0, ss_taskRunId = None, ss_waitUntil = None,
     ss_consumedSignalId = None, ss_gateRequestId = None, ss_startedAt = None,
     ss_finishedAt = None, ss_reasonCode = None\<rparr>"

definition createInitialProcessRunV1 :: "process_definition \<Rightarrow> start_input \<Rightarrow> process_run res" where
  "createInitialProcessRunV1 definition input =
     bindE (validateProcessDefinitionV1 definition) (\<lambda>_.
     bindE (validateStartInput input) (\<lambda>_.
       let body = \<lparr>
         pr_schemaVersion = 1,
         pr_tenantId = si_tenantId input,
         pr_runId = si_runId input,
         pr_processId = pd_processId definition,
         pr_processVersion = pd_version definition,
         pr_definitionDigest = pd_definitionDigest definition,
         pr_revision = 0,
         pr_status = RRunning,
         pr_stageStates = map (initial_stage_state (pd_stages definition)) (pd_stages definition),
         pr_input = (case si_input input of
           Some v \<Rightarrow> if json_truthy v then Some v else None | None \<Rightarrow> None),
         pr_result = None,
         pr_subject = si_subject input,
         pr_cancellation = None,
         pr_createdAt = si_logicalTime input,
         pr_updatedAt = si_logicalTime input,
         pr_stateDigest = []\<rparr>
       in bindE (processRunDigest body) (\<lambda>dg. Inr (body\<lparr>pr_stateDigest := dg\<rparr>))))"

definition validate_stage_state :: "string list \<Rightarrow> stage_state \<Rightarrow> string list res" where
  "validate_stage_state ids s = bindE (seqE [
     token (ss_stageId s) ''run stageId'',
     require (ss_stageId s \<notin> set ids) ''run stage state is duplicated'',
     require (isSafeInteger (ss_attempt s) \<and> 0 \<le> ss_attempt s) ''run stage attempt is invalid'',
     require (\<not> (ss_status s = Terminal \<and> ss_outcome s = None))
       ''terminal run stage requires an outcome'']) (\<lambda>_. Inr (ss_stageId s # ids))"

definition validateProcessRunV1 :: "process_run \<Rightarrow> process_run res" where
  "validateProcessRunV1 run =
     bindE (seqE [
       token (pr_tenantId run) ''tenantId'',
       token (pr_runId run) ''runId'',
       token (pr_processId run) ''processId'',
       token (pr_processVersion run) ''processVersion'',
       digest (pr_definitionDigest run) ''definitionDigest'',
       digest (pr_stateDigest run) ''stateDigest'',
       require (isSafeInteger (pr_revision run) \<and> 0 \<le> pr_revision run)
         ''process run revision is invalid'',
       require (pr_stageStates run \<noteq> []) ''process run stage states are invalid'']) (\<lambda>_.
     bindE (foldE validate_stage_state [] (pr_stageStates run)) (\<lambda>_.
     bindE (timestamp (pr_createdAt run) ''createdAt'') (\<lambda>_.
     bindE (timestamp (pr_updatedAt run) ''updatedAt'') (\<lambda>_.
     bindE (processRunDigest run) (\<lambda>expected.
       if pr_stateDigest run \<noteq> expected then fail ''process run state digest does not match''
       else Inr run)))))"

definition createProcessRunSnapshotV1 :: "process_run \<Rightarrow> process_run res" where
  "createProcessRunSnapshotV1 body =
     bindE (processRunDigest body) (\<lambda>dg. validateProcessRunV1 (body\<lparr>pr_stateDigest := dg\<rparr>))"

text \<open>The input is read without its digest.\<close>

definition createProcessSignalV1 :: "process_signal \<Rightarrow> process_signal res" where
  "createProcessSignalV1 input =
     bindE (seqE [
       token (sg_tenantId input) ''tenantId'',
       token (sg_runId input) ''runId'',
       token (sg_signalId input) ''signalId'',
       token (sg_signalType input) ''signalType'',
       if_truthy (sg_correlationKey input) (\<lambda>k. token k ''correlationKey''),
       token (sg_sourceType input) ''sourceType'',
       token (sg_sourceId input) ''sourceId'',
       optional (sg_sourceRevision input) (\<lambda>n.
         require (isSafeInteger n \<and> 0 \<le> n) ''sourceRevision is invalid''),
       timestamp (sg_receivedAt input) ''receivedAt'']) (\<lambda>_.
     bindE (digestWorkflowJsonV1 ''process-signal'' (signal_json input)) (\<lambda>dg.
       Inr (input\<lparr>sg_signalDigest := dg\<rparr>)))"

definition validateProcessSignalV1 :: "process_signal \<Rightarrow> process_signal res" where
  "validateProcessSignalV1 signal =
     bindE (require (valid_digest (sg_signalDigest signal)) ''workflow signal digest is invalid'') (\<lambda>_.
     bindE (digestWorkflowJsonV1 ''process-signal'' (signal_json signal)) (\<lambda>expected.
       if sg_signalDigest signal \<noteq> expected then fail ''workflow signal digest is invalid''
       else createProcessSignalV1 signal))"

subsection \<open>Activation of stages\<close>

text \<open>Whether a dependency's source is terminal, and whether its outcome matches.\<close>

definition dependency_match :: "process_run \<Rightarrow> stage_dependency \<Rightarrow> (bool \<times> bool) res" where
  "dependency_match run d = bindE (mutableState run (dep_stageId d)) (\<lambda>source.
     Inr (ss_status source = Terminal,
          ss_status source = Terminal
            \<and> (case ss_outcome source of None \<Rightarrow> False | Some oc \<Rightarrow> oc \<in> set (dep_outcomes d))))"

definition dependencies_satisfied :: "process_stage \<Rightarrow> (bool \<times> bool) list \<Rightarrow> bool" where
  "dependencies_satisfied stage matches =
     (if st_dependencyMode stage \<noteq> Some ModeAny then list_all snd matches else list_ex snd matches)"

definition dependencies_impossible :: "process_stage \<Rightarrow> (bool \<times> bool) list \<Rightarrow> bool" where
  "dependencies_impossible stage matches =
     (if st_dependencyMode stage \<noteq> Some ModeAny then list_ex (\<lambda>m. fst m \<and> \<not> snd m) matches
      else list_all fst matches)"

definition activate_stage ::
  "process_definition \<Rightarrow> string \<Rightarrow> bool \<times> process_run \<Rightarrow> process_stage \<Rightarrow> (bool \<times> process_run) res" where
  "activate_stage definition logicalTime c stage = (case c of (changed, run) \<Rightarrow>
     if st_stageId stage \<in> st_stageId ` set (filter is_compensation (pd_stages definition))
     then Inr (changed, run)
     else bindE (mutableState run (st_stageId stage)) (\<lambda>state.
       if ss_status state \<noteq> Blocked then Inr (changed, run)
       else if st_dependsOn stage = []
       then Inr (True, set_state (st_stageId stage) (\<lambda>s. s\<lparr>ss_status := Ready\<rparr>) run)
       else bindE (mapE (dependency_match run) (st_dependsOn stage)) (\<lambda>matches.
         if dependencies_satisfied stage matches
         then Inr (True, set_state (st_stageId stage) (\<lambda>s. s\<lparr>ss_status := Ready\<rparr>) run)
         else if dependencies_impossible stage matches
         then Inr (True, set_state (st_stageId stage) (terminal Skipped logicalTime None) run)
         else Inr (changed, run))))"

definition activate_pass :: "process_definition \<Rightarrow> string \<Rightarrow> process_run \<Rightarrow> (bool \<times> process_run) res" where
  "activate_pass definition logicalTime run =
     foldE (activate_stage definition logicalTime) (False, run) (pd_stages definition)"

text \<open>Each round that changes anything leaves fewer blocked stages: the loop ends.\<close>

definition blocked_count :: "process_run \<Rightarrow> nat" where
  "blocked_count run = length (filter (\<lambda>s. ss_status s = Blocked) (pr_stageStates run))"

lemma find_update_first:
  assumes "find (\<lambda>s. ss_stageId s = i) ss = Some t"
  obtains xs ys where "ss = xs @ t # ys" "update_first i f ss = xs @ f t # ys"
    "ss_stageId t = i" "\<forall>s \<in> set xs. ss_stageId s \<noteq> i"
  using assms
proof (induction ss arbitrary: thesis)
  case (Cons s ss)
  show ?case
  proof (cases "ss_stageId s = i")
    case True
    with Cons.prems show ?thesis by (auto intro!: Cons.prems(1)[of "[]"])
  next
    case False
    with Cons.prems(2) obtain xs ys where "ss = xs @ t # ys" "update_first i f ss = xs @ f t # ys"
      "ss_stageId t = i" "\<forall>s \<in> set xs. ss_stageId s \<noteq> i"
      using Cons.IH by auto
    with False show ?thesis by (auto intro!: Cons.prems(1)[of "s # xs"])
  qed
qed simp

lemma mutableState_Inr: "mutableState run i = Inr s \<longleftrightarrow> find (\<lambda>s. ss_stageId s = i) (pr_stageStates run) = Some s"
  by (simp add: mutableState_def split: option.splits)

lemma blocked_count_set_state:
  assumes "mutableState run i = Inr s" "ss_status s = Blocked" "\<And>t. ss_status (f t) \<noteq> Blocked"
  shows "blocked_count (set_state i f run) < blocked_count run"
proof -
  from assms(1) have "find (\<lambda>s. ss_stageId s = i) (pr_stageStates run) = Some s"
    by (simp add: mutableState_Inr)
  then obtain xs ys where "pr_stageStates run = xs @ s # ys"
    "update_first i f (pr_stageStates run) = xs @ f s # ys"
    by (rule find_update_first)
  with assms(2,3) show ?thesis by (simp add: blocked_count_def set_state_def)
qed

lemma terminal_status [simp]: "ss_status (terminal oc t r s) = Terminal"
  by (simp add: terminal_def Let_def)

lemma activate_stage_count:
  assumes "activate_stage d t (changed, run) stage = Inr (changed', run')"
  shows "(changed' = changed \<and> run' = run) \<or> (changed' \<and> blocked_count run' < blocked_count run)"
  using assms
  by (auto simp: activate_stage_def bindE_Inr_iff intro!: blocked_count_set_state split: if_splits)

lemma activate_stages_count:
  assumes "foldE (activate_stage d t) (changed, run) stages = Inr (changed', run')"
  shows "(changed' = changed \<and> run' = run) \<or> (changed' \<and> blocked_count run' < blocked_count run)"
  using assms
proof (induction stages arbitrary: changed run)
  case (Cons s stages)
  then obtain c r where one: "activate_stage d t (changed, run) s = Inr (c, r)"
    and rest: "foldE (activate_stage d t) (c, r) stages = Inr (changed', run')"
    by (auto simp: bindE_Inr_iff)
  from activate_stage_count[OF one] Cons.IH[OF rest] show ?case by auto
qed simp

function activate_loop :: "process_definition \<Rightarrow> string \<Rightarrow> process_run \<Rightarrow> process_run res" where
  "activate_loop definition logicalTime run =
     (case activate_pass definition logicalTime run of
        Inl e \<Rightarrow> Inl e
      | Inr (changed, run') \<Rightarrow> if changed then activate_loop definition logicalTime run' else Inr run')"
  by pat_completeness auto
termination
  by (relation "measure (\<lambda>(_, _, run). blocked_count run)")
     (auto simp: activate_pass_def dest: activate_stages_count)

declare activate_loop.simps [simp del]

definition activateStages :: "process_definition \<Rightarrow> string \<Rightarrow> process_run \<Rightarrow> process_run res" where
  "activateStages definition logicalTime run =
     (if pr_cancellation run \<noteq> None then Inr run else activate_loop definition logicalTime run)"

subsection \<open>Status of the run\<close>

text \<open>A stage whose outcome no live stage waits for.\<close>

definition is_active_leaf :: "process_definition \<Rightarrow> process_run \<Rightarrow> process_stage \<Rightarrow> bool res" where
  "is_active_leaf definition run stage =
     (if st_stageId stage \<in> st_stageId ` set (filter is_compensation (pd_stages definition)) then Inr False
      else bindE (mutableState run (st_stageId stage)) (\<lambda>state.
        if ss_outcome state = Some Skipped then Inr False
        else bindE (anyE (\<lambda>candidate.
            bindE (mutableState run (st_stageId candidate)) (\<lambda>candidateState.
              Inr (ss_outcome candidateState \<noteq> Some Skipped
                \<and> list_ex (\<lambda>dependency. dep_stageId dependency = st_stageId stage
                    \<and> (case ss_outcome state of None \<Rightarrow> False | Some oc \<Rightarrow> oc \<in> set (dep_outcomes dependency)))
                  (st_dependsOn candidate)))) (pd_stages definition))
          (\<lambda>waited. Inr (\<not> waited))))"

definition settle_leaves :: "process_definition \<Rightarrow> process_run \<Rightarrow> process_run res" where
  "settle_leaves definition run =
     bindE (filterE (is_active_leaf definition run) (pd_stages definition)) (\<lambda>activeLeaves.
       if activeLeaves = [] \<or> list_ex (\<lambda>s. st_stageId s \<notin> st_stageId ` set (pd_stages definition)) activeLeaves
       then Inr (run\<lparr>pr_status := RFailed\<rparr>)
       else bindE (everyE (\<lambda>stage. bindE (mutableState run (st_stageId stage)) (\<lambda>state.
           Inr (case ss_outcome state of None \<Rightarrow> False | Some oc \<Rightarrow> oc \<in> successOutcomes))) activeLeaves)
         (\<lambda>good. Inr (run\<lparr>pr_status := if good then RCompleted else RFailed\<rparr>)))"

definition settle_canceling :: "process_definition \<Rightarrow> cancellation_state \<Rightarrow> process_run \<Rightarrow> process_run res" where
  "settle_canceling definition cancellation run =
     bindE (mapE (\<lambda>stage. mutableState run (st_stageId stage)) (filter is_compensation (pd_stages definition)))
       (\<lambda>compensationStates.
         if list_ex (\<lambda>s. ss_status s = Terminal \<and> ss_outcome s = Some Failed) compensationStates
         then Inr (run\<lparr>pr_status := RFailed\<rparr>)
         else Inr (run\<lparr>pr_status :=
           if cn_pendingCompensationStageIds cancellation = [] then RCanceled else RCanceling\<rparr>))"

definition settleRunStatus :: "process_definition \<Rightarrow> process_run \<Rightarrow> process_run res" where
  "settleRunStatus definition run =
     (case pr_cancellation run of
        Some cancellation \<Rightarrow> settle_canceling definition cancellation run
      | None \<Rightarrow>
        (let normalStates = filter (\<lambda>s. ss_stageId s \<notin>
               st_stageId ` set (filter is_compensation (pd_stages definition))) (pr_stageStates run)
         in if list_ex (\<lambda>s. ss_status s \<in> {Ready, Running}) normalStates
            then Inr (run\<lparr>pr_status := RRunning\<rparr>)
            else if list_ex (\<lambda>s. ss_status s = Waiting) normalStates
            then Inr (run\<lparr>pr_status := RWaiting\<rparr>)
            else if list_ex (\<lambda>s. ss_status s = Blocked) normalStates
            then Inr (run\<lparr>pr_status := RFailed\<rparr>)
            else settle_leaves definition run))"

subsection \<open>Cancellation and compensation\<close>

text \<open>The map from a compensated stage to the stage that compensates it; a later stage wins.\<close>

definition compensationsByTarget :: "process_definition \<Rightarrow> (string \<times> string) list" where
  "compensationsByTarget definition =
     fold (\<lambda>s m. AList.update (compensation_target s) (st_stageId s) m)
       (filter is_compensation (pd_stages definition)) []"

definition pending_compensations :: "process_definition \<Rightarrow> process_run \<Rightarrow> string list \<Rightarrow> string list" where
  "pending_compensations definition current topological =
     (let states = map_of (rev (map (\<lambda>s. (ss_stageId s, s)) (pr_stageStates current)));
          targets = map_of (compensationsByTarget definition)
      in map (\<lambda>i. the (targets i))
           (filter (\<lambda>i. (case states i of None \<Rightarrow> False | Some s \<Rightarrow> ss_outcome s = Some Succeeded)
               \<and> targets i \<noteq> None) (rev topological)))"

definition cancel_stage_state :: "process_definition \<Rightarrow> string \<Rightarrow> stage_state \<Rightarrow> stage_state res" where
  "cancel_stage_state definition logicalTime state =
     (case find (\<lambda>s. st_stageId s = ss_stageId state) (pd_stages definition) of
        None \<Rightarrow> Inl (TypeError ''Cannot read properties of undefined'')
      | Some stage \<Rightarrow>
          Inr (if is_compensation stage then state
               else if ss_status state \<noteq> Terminal then terminal Canceled logicalTime None state
               else state))"

definition cancelDraft ::
  "process_definition \<Rightarrow> process_run \<Rightarrow> string \<Rightarrow> string \<Rightarrow> string \<Rightarrow> process_run res" where
  "cancelDraft definition current operationId reasonCode logicalTime =
     bindE (topologicalProcessStageIdsV1 definition) (\<lambda>topological.
       let pending = pending_compensations definition current topological
       in bindE (mapE (cancel_stage_state definition logicalTime) (pr_stageStates current)) (\<lambda>states.
         Inr (current\<lparr>
           pr_status := if pending = [] then RCanceled else RCanceling,
           pr_stageStates := states,
           pr_cancellation := Some \<lparr>cn_operationId = operationId, cn_reasonCode = reasonCode,
             cn_requestedAt = logicalTime, cn_pendingCompensationStageIds = pending\<rparr>\<rparr>)))"

definition advanceCompensationQueue ::
  "process_stage \<Rightarrow> stage_state \<Rightarrow> process_run \<Rightarrow> process_run" where
  "advanceCompensationQueue stage state run =
     (if \<not> is_compensation stage \<or> ss_outcome state = None then run
      else case pr_cancellation run of
        None \<Rightarrow> run
      | Some cancellation \<Rightarrow>
          (case cn_pendingCompensationStageIds cancellation of
             [] \<Rightarrow> run
           | i # rest \<Rightarrow>
               if i \<noteq> st_stageId stage then run
               else run\<lparr>pr_cancellation := Some (cancellation\<lparr>cn_pendingCompensationStageIds :=
                 if ss_outcome state = Some Succeeded then rest else i # rest\<rparr>)\<rparr>))"

subsection \<open>Task results\<close>

text \<open>\<open>result.retryable\<close> is false when absent. The result says whether anything changed.\<close>

definition applyTaskResult :: "process_stage \<Rightarrow> task_result \<Rightarrow> string \<Rightarrow> stage_state \<Rightarrow> bool \<times> stage_state" where
  "applyTaskResult stage result logicalTime state = (case result of
     TaskCompleted _ _ _ _ \<Rightarrow> (True, terminal Succeeded logicalTime None state)
   | TaskInFlight reasonCode \<Rightarrow>
       (ss_status state \<noteq> Waiting \<or> ss_reasonCode state \<noteq> Some reasonCode,
        state\<lparr>ss_status := Waiting, ss_reasonCode := Some reasonCode\<rparr>)
   | TaskIndeterminate reasonCode _ \<Rightarrow>
       (ss_status state \<noteq> Waiting \<or> ss_reasonCode state \<noteq> Some reasonCode,
        state\<lparr>ss_status := Waiting, ss_reasonCode := Some reasonCode\<rparr>)
   | TaskFailed reasonCode retryable _ \<Rightarrow>
       (let maximumAttempts = (case st_kind stage of TaskStage _ _ (Some n) _ \<Rightarrow> n | _ \<Rightarrow> 1)
        in if retryable = Some True \<and> ss_attempt state < maximumAttempts
           then (True, state\<lparr>ss_status := Ready, ss_reasonCode := Some reasonCode, ss_taskRunId := None\<rparr>)
           else (True, terminal Failed logicalTime (Some reasonCode) state)))"

subsection \<open>Finishing a draft\<close>

definition finalizeRun :: "process_run \<Rightarrow> int \<Rightarrow> string \<Rightarrow> process_run res" where
  "finalizeRun draft revision logicalTime =
     (let body = draft\<lparr>pr_revision := revision, pr_updatedAt := logicalTime\<rparr>
      in bindE (processRunDigest body) (\<lambda>dg. Inr (body\<lparr>pr_stateDigest := dg\<rparr>)))"

definition sameRunBody :: "process_run \<Rightarrow> process_run \<Rightarrow> bool res" where
  "sameRunBody left right =
     bindE (canonicalizeWorkflowJsonV1 (process_run_json left)) (\<lambda>a.
     bindE (canonicalizeWorkflowJsonV1 (process_run_json right)) (\<lambda>b. Inr (a = b)))"

end
