(* ===== verification/WfRunFacts.thy ===== *)
theory WfRunFacts
  imports WfRuns
begin

text \<open>
  Lemmas about the drafts of \<open>WfRuns\<close>: every rewriting of a draft keeps what is frozen
  in a run and never touches a terminal stage (\<open>run_evolves\<close>); \<open>activateStages\<close>
  returns, reaches a fixpoint, and leaves no stage blocked without a live stage in front of it;
  what a settled status means; the order of the compensations.
\<close>

subsection \<open>What a draft keeps\<close>

definition stage_le :: "stage_state \<Rightarrow> stage_state \<Rightarrow> bool" where
  "stage_le s s' \<longleftrightarrow> ss_stageId s' = ss_stageId s \<and> (ss_status s = Terminal \<longrightarrow> s' = s)
     \<and> ss_attempt s \<le> ss_attempt s' \<and> (ss_status s' = Blocked \<longrightarrow> ss_status s = Blocked)"

definition run_evolves :: "process_run \<Rightarrow> process_run \<Rightarrow> bool" where
  "run_evolves r r' \<longleftrightarrow> pr_tenantId r' = pr_tenantId r \<and> pr_runId r' = pr_runId r
     \<and> pr_processId r' = pr_processId r \<and> pr_processVersion r' = pr_processVersion r
     \<and> pr_definitionDigest r' = pr_definitionDigest r \<and> pr_input r' = pr_input r
     \<and> pr_subject r' = pr_subject r \<and> pr_createdAt r' = pr_createdAt r
     \<and> list_all2 stage_le (pr_stageStates r) (pr_stageStates r')
     \<and> (pr_cancellation r \<noteq> None \<longrightarrow> pr_cancellation r' \<noteq> None)"

lemma stage_le_refl [simp]: "stage_le s s"
  by (simp add: stage_le_def)

lemma stage_le_trans: "stage_le a b \<Longrightarrow> stage_le b c \<Longrightarrow> stage_le a c"
  unfolding stage_le_def by (metis order_trans)

lemma run_evolves_refl [simp]: "run_evolves r r"
  by (simp add: run_evolves_def list_all2_refl)

lemma run_evolves_trans:
  assumes "run_evolves a b" "run_evolves b c"
  shows "run_evolves a c"
proof -
  have "list_all2 stage_le (pr_stageStates a) (pr_stageStates c)"
    using assms by (auto simp: run_evolves_def intro: list_all2_trans[OF stage_le_trans])
  with assms show ?thesis by (simp add: run_evolves_def)
qed

lemma run_evolves_status [simp]: "run_evolves r (r'\<lparr>pr_status := x\<rparr>) \<longleftrightarrow> run_evolves r r'"
  by (simp add: run_evolves_def)

lemma set_state_frame [simp]:
  "pr_tenantId (set_state i f run) = pr_tenantId run" "pr_runId (set_state i f run) = pr_runId run"
  "pr_processId (set_state i f run) = pr_processId run"
  "pr_processVersion (set_state i f run) = pr_processVersion run"
  "pr_definitionDigest (set_state i f run) = pr_definitionDigest run"
  "pr_revision (set_state i f run) = pr_revision run" "pr_status (set_state i f run) = pr_status run"
  "pr_input (set_state i f run) = pr_input run" "pr_subject (set_state i f run) = pr_subject run"
  "pr_cancellation (set_state i f run) = pr_cancellation run"
  "pr_createdAt (set_state i f run) = pr_createdAt run" "pr_updatedAt (set_state i f run) = pr_updatedAt run"
  by (simp_all add: set_state_def)

lemma mutableState_id: "mutableState run i = Inr s \<Longrightarrow> ss_stageId s = i"
  by (auto simp: mutableState_Inr find_Some_iff)

lemma mutableState_mem: "mutableState run i = Inr s \<Longrightarrow> s \<in> set (pr_stageStates run)"
  by (auto simp: mutableState_Inr find_Some_iff)

lemma set_state_evolves:
  assumes "mutableState run i = Inr s" "stage_le s (f s)"
  shows "run_evolves run (set_state i f run)"
proof -
  from assms(1) have "find (\<lambda>s. ss_stageId s = i) (pr_stageStates run) = Some s"
    by (simp add: mutableState_Inr)
  then obtain xs ys where "pr_stageStates run = xs @ s # ys"
    "update_first i f (pr_stageStates run) = xs @ f s # ys"
    by (rule find_update_first)
  with assms(2) show ?thesis
    by (simp add: run_evolves_def set_state_def list_all2_appendI list_all2_refl)
qed

lemma mutableState_set_state:
  assumes "mutableState run i = Inr s" "\<And>t. ss_stageId (f t) = ss_stageId t"
  shows "mutableState (set_state i f run) j = (if j = i then Inr (f s) else mutableState run j)"
proof -
  have "find (\<lambda>s. ss_stageId s = j) (update_first i f ss) =
    (if j = i then map_option f (find (\<lambda>s. ss_stageId s = i) ss) else find (\<lambda>s. ss_stageId s = j) ss)" for ss
    by (induction ss) (auto simp: assms(2))
  with assms(1) show ?thesis
    by (auto simp: mutableState_def set_state_def split: option.splits)
qed

lemma mutableState_evolves:
  assumes "run_evolves r r'" "mutableState r i = Inr s"
  obtains s' where "mutableState r' i = Inr s'" "stage_le s s'"
proof -
  have "list_all2 stage_le ss ss' \<Longrightarrow> find (\<lambda>s. ss_stageId s = i) ss = Some s \<Longrightarrow>
    \<exists>s'. find (\<lambda>s. ss_stageId s = i) ss' = Some s' \<and> stage_le s s'" for ss ss'
    by (induction ss ss' rule: list_all2_induct) (auto simp: stage_le_def split: if_splits)
  from this[of "pr_stageStates r" "pr_stageStates r'"] assms obtain s' where
    "find (\<lambda>s. ss_stageId s = i) (pr_stageStates r') = Some s'" "stage_le s s'"
    by (auto simp: run_evolves_def mutableState_Inr)
  with that show thesis by (simp add: mutableState_Inr)
qed

lemma terminal_simps [simp]:
  "ss_stageId (terminal oc t r s) = ss_stageId s" "ss_attempt (terminal oc t r s) = ss_attempt s"
  "ss_outcome (terminal oc t r s) = Some oc" "ss_taskRunId (terminal oc t r s) = ss_taskRunId s"
  "ss_consumedSignalId (terminal oc t r s) = ss_consumedSignalId s"
  "ss_finishedAt (terminal oc t r s) = Some t"
  by (simp_all add: terminal_def Let_def)

lemma stage_le_terminal: "ss_status s \<noteq> Terminal \<Longrightarrow> stage_le s (terminal oc t r s)"
  by (simp add: stage_le_def)

lemma stage_states_ids:
  "run_evolves r r' \<Longrightarrow> map ss_stageId (pr_stageStates r') = map ss_stageId (pr_stageStates r)"
  unfolding run_evolves_def by (auto simp: stage_le_def list_all2_conv_all_nth intro: nth_equalityI)

subsection \<open>Activation\<close>

lemma activate_stage_evolves:
  assumes "activate_stage d t (c, run) stage = Inr (c', run')"
  shows "run_evolves run run'"
  using assms
  by (auto simp: activate_stage_def bindE_Inr_iff split: if_splits
      intro!: set_state_evolves stage_le_terminal) (auto simp: stage_le_def)

lemma activate_loop_Inr:
  "activate_loop d t run = Inr run' \<longleftrightarrow>
     (\<exists>c r. activate_pass d t run = Inr (c, r) \<and> (if c then activate_loop d t r = Inr run' else run' = r))"
  by (subst activate_loop.simps) (auto split: sum.splits)

text \<open>A relation that every visit of a stage keeps is kept by the whole loop.\<close>

lemma activate_pass_rel:
  assumes "activate_pass d t run = Inr (c, run')" "\<And>r. R r r" "\<And>a b c. R a b \<Longrightarrow> R b c \<Longrightarrow> R a c"
    and step: "\<And>c r s c' r'. s \<in> set (pd_stages d) \<Longrightarrow> activate_stage d t (c, r) s = Inr (c', r') \<Longrightarrow> R r r'"
  shows "R run run'"
proof -
  have "R run (snd (c, run'))"
  proof (rule foldE_invariant[where P = "\<lambda>cr. R run (snd cr)" and f = "activate_stage d t"])
    show "foldE (activate_stage d t) (False, run) (pd_stages d) = Inr (c, run')"
      using assms(1) by (simp add: activate_pass_def)
    show "R run (snd b)" if "R run (snd a)" "s \<in> set (pd_stages d)" "activate_stage d t a s = Inr b" for a s b
      using that assms(3) step by (cases a; cases b) force
  qed (simp add: assms(2))
  then show ?thesis by simp
qed

lemma activate_loop_rel:
  assumes "activate_loop d t run = Inr run'" "\<And>r. R r r" "\<And>a b c. R a b \<Longrightarrow> R b c \<Longrightarrow> R a c"
    and "\<And>c r s c' r'. s \<in> set (pd_stages d) \<Longrightarrow> activate_stage d t (c, r) s = Inr (c', r') \<Longrightarrow> R r r'"
  shows "R run run'"
  using assms(1)
proof (induction "blocked_count run" arbitrary: run rule: less_induct)
  case less
  from less.prems obtain c r where p: "activate_pass d t run = Inr (c, r)"
    and l: "if c then activate_loop d t r = Inr run' else run' = r"
    by (auto simp: activate_loop_Inr)
  have R: "R run r" by (rule activate_pass_rel[OF p assms(2-4)])
  show ?case
  proof (cases c)
    case True
    then have "blocked_count r < blocked_count run"
      using p activate_stages_count[of d t False run "pd_stages d"] by (auto simp: activate_pass_def)
    with less.hyps[of r] l True R assms(3) show ?thesis by auto
  qed (use R l in simp)
qed

lemma activateStages_rel:
  assumes "activateStages d t run = Inr run'" "\<And>r. R r r" "\<And>a b c. R a b \<Longrightarrow> R b c \<Longrightarrow> R a c"
    and "\<And>c r s c' r'. s \<in> set (pd_stages d) \<Longrightarrow> activate_stage d t (c, r) s = Inr (c', r') \<Longrightarrow> R r r'"
  shows "R run run'"
  using assms activate_loop_rel[where R = R] by (auto simp: activateStages_def split: if_splits)

lemma activateStages_evolves: "activateStages d t run = Inr run' \<Longrightarrow> run_evolves run run'"
  by (erule activateStages_rel) (auto intro: run_evolves_trans activate_stage_evolves)

lemma activateStages_cancellation:
  "activateStages d t run = Inr run' \<Longrightarrow> pr_cancellation run' = pr_cancellation run"
  by (erule activateStages_rel[where R = "\<lambda>r r'. pr_cancellation r' = pr_cancellation r"])
     (auto simp: activate_stage_def bindE_Inr_iff split: if_splits)

text \<open>When the loop ends, no visit of a stage would change the run.\<close>

lemma activate_loop_fixpoint:
  assumes "activate_loop d t run = Inr run'"
  shows "activate_pass d t run' = Inr (False, run')"
  using assms
proof (induction "blocked_count run" arbitrary: run rule: less_induct)
  case less
  from less.prems obtain c r where p: "activate_pass d t run = Inr (c, r)"
    and l: "if c then activate_loop d t r = Inr run' else run' = r"
    by (auto simp: activate_loop_Inr)
  note count = activate_stages_count[OF p[unfolded activate_pass_def]]
  show ?case
  proof (cases c)
    case True
    with count less.hyps[of r] l show ?thesis by auto
  next
    case False
    with count l p show ?thesis by auto
  qed
qed

lemma activate_pass_idle:
  assumes "activate_pass d t run = Inr (False, run)" "s \<in> set (pd_stages d)"
  shows "activate_stage d t (False, run) s = Inr (False, run)"
proof -
  obtain xs ys where st: "pd_stages d = xs @ s # ys" using assms(2) by (meson split_list)
  from assms(1) obtain c r c' r' where pre: "foldE (activate_stage d t) (False, run) xs = Inr (c, r)"
    and one: "activate_stage d t (c, r) s = Inr (c', r')"
    and post: "foldE (activate_stage d t) (c', r') ys = Inr (False, run)"
    by (auto simp: activate_pass_def st foldE_append bindE_Inr_iff)
  from activate_stages_count[OF post] have 1: "\<not> c'" "r' = run" by auto
  from activate_stage_count[OF one] 1 have 2: "\<not> c" "r = run" by auto
  from one 1 2 show ?thesis by simp
qed

subsection \<open>No stage is stuck\<close>

lemma activate_stage_idle:
  assumes "activate_stage d t (False, run) s = Inr (False, run)"
    and "st_stageId s \<notin> st_stageId ` set (filter is_compensation (pd_stages d))"
  obtains state where "mutableState run (st_stageId s) = Inr state"
    "ss_status state = Blocked \<Longrightarrow> st_dependsOn s \<noteq> [] \<and> (\<exists>matches. mapE (dependency_match run) (st_dependsOn s) = Inr matches
       \<and> \<not> dependencies_satisfied s matches \<and> \<not> dependencies_impossible s matches)"
  using assms by (force simp: activate_stage_def bindE_Inr_iff split: if_splits)

text \<open>A stage that waits has a dependency that is not terminal.\<close>

lemma undecided_dependency:
  assumes "mapE (dependency_match run) ds = Inr matches"
    "\<not> dependencies_satisfied s matches" "\<not> dependencies_impossible s matches"
  shows "\<exists>d \<in> set ds. \<exists>source. mutableState run (dep_stageId d) = Inr source \<and> ss_status source \<noteq> Terminal"
proof -
  from assms(2,3) have "\<exists>m \<in> set matches. \<not> fst m"
    by (auto simp: dependencies_satisfied_def dependencies_impossible_def list_all_iff list_ex_iff split: if_splits)
  then obtain k where k: "k < length matches" "\<not> fst (matches ! k)"
    by (metis in_set_conv_nth)
  from mapE_Inr[OF assms(1)] k(1) have "k < length ds" "dependency_match run (ds ! k) = Inr (matches ! k)"
    by (simp_all add: list_all2_conv_all_nth)
  with k(2) have "ds ! k \<in> set ds" "\<exists>source. mutableState run (dep_stageId (ds ! k)) = Inr source
      \<and> ss_status source \<noteq> Terminal"
    by (cases "matches ! k"; force simp: dependency_match_def bindE_Inr_iff)+
  then show ?thesis by blast
qed

lemma stage_by_id_unique:
  assumes "distinct (map st_stageId stages)" "s \<in> set stages"
  shows "stage_by_id stages (st_stageId s) = Some s"
proof -
  from stage_by_id_mem[OF assms(2)] obtain s' where s': "stage_by_id stages (st_stageId s) = Some s'" by auto
  from stage_by_id_Some[OF s'] assms have "s' = s" by (auto dest: map_inj_on simp: distinct_map inj_on_def)
  with s' show ?thesis by simp
qed

lemma finite_stage_graph: "finite (stage_graph stages)"
proof -
  have "stage_graph stages \<subseteq>
      (\<lambda>(s, e). (dep_stageId e, st_stageId s)) ` (\<Union>s \<in> set stages. {s} \<times> set (st_dependsOn s))"
  proof
    fix x assume "x \<in> stage_graph stages"
    then obtain e i s where x: "x = (dep_stageId e, i)" "stage_by_id stages i = Some s" "e \<in> set (st_dependsOn s)"
      by (auto simp: stage_graph_def)
    with stage_by_id_Some[OF x(2)] show "x \<in> (\<lambda>(s, e). (dep_stageId e, st_stageId s)) `
        (\<Union>s \<in> set stages. {s} \<times> set (st_dependsOn s))"
      by (auto intro!: image_eqI[where x = "(s, e)"])
  qed
  then show ?thesis by (rule finite_subset) simp
qed

text \<open>
  A normal stage of the definition depends only on normal stages. The validator does not ask for
  this: see \<open>compensation_dependency_admitted\<close>.
\<close>

definition normal_dependencies :: "process_stage list \<Rightarrow> bool" where
  "normal_dependencies stages \<longleftrightarrow> list_all (\<lambda>s. list_all (\<lambda>e.
     dep_stageId e \<notin> st_stageId ` set (filter is_compensation stages)) (st_dependsOn s)) stages"

definition normal_stage :: "process_definition \<Rightarrow> string \<Rightarrow> bool" where
  "normal_stage d i \<longleftrightarrow> i \<in> st_stageId ` set (pd_stages d)
     \<and> i \<notin> st_stageId ` set (filter is_compensation (pd_stages d))"

lemma settled_stages:
  assumes "activate_loop d t run = Inr run'" "well_formed_stages (pd_stages d)"
    "normal_dependencies (pd_stages d)"
    and idle: "\<And>i state. normal_stage d i \<Longrightarrow> mutableState run' i = Inr state \<Longrightarrow> ss_status state \<in> {Blocked, Terminal}"
    and "normal_stage d i"
  shows "\<exists>state. mutableState run' i = Inr state \<and> ss_status state = Terminal"
proof -
  have "wf (stage_graph (pd_stages d))"
    using assms(2) by (intro finite_acyclic_wf finite_stage_graph) (simp add: well_formed_stages_def)
  then show ?thesis using assms(5)
proof (induction i rule: wf_induct_rule)
  case (less i)
  note IH = less.IH and n = less.prems
  from n obtain s where s: "s \<in> set (pd_stages d)" "st_stageId s = i"
    "st_stageId s \<notin> st_stageId ` set (filter is_compensation (pd_stages d))"
    by (auto simp: normal_stage_def)
  note same = activate_pass_idle[OF activate_loop_fixpoint[OF assms(1)] s(1)]
  from activate_stage_idle[OF same s(3)] obtain state where st: "mutableState run' i = Inr state"
    and blocked: "ss_status state = Blocked \<Longrightarrow> \<exists>matches. mapE (dependency_match run') (st_dependsOn s) = Inr matches
       \<and> \<not> dependencies_satisfied s matches \<and> \<not> dependencies_impossible s matches"
    using s(2) by metis
  show "\<exists>state. mutableState run' i = Inr state \<and> ss_status state = Terminal"
  proof (rule ccontr)
    assume "\<not> ?thesis"
    with idle[OF n st] st have "ss_status state = Blocked" by auto
    with blocked obtain matches where "mapE (dependency_match run') (st_dependsOn s) = Inr matches"
      "\<not> dependencies_satisfied s matches" "\<not> dependencies_impossible s matches" by blast
    from undecided_dependency[OF this] obtain e source where e: "e \<in> set (st_dependsOn s)"
      "mutableState run' (dep_stageId e) = Inr source" "ss_status source \<noteq> Terminal" by blast
    from assms(2) s e(1) obtain s' where s': "stage_by_id (pd_stages d) (dep_stageId e) = Some s'"
      by (fastforce simp: well_formed_stages_def closed_stages_def)
    have "stage_by_id (pd_stages d) i = Some s"
      using assms(2) s stage_by_id_unique[of "pd_stages d" s] by (simp add: well_formed_stages_def)
    then have "(dep_stageId e, i) \<in> stage_graph (pd_stages d)" using e(1) by (auto simp: stage_graph_def)
    moreover have "normal_stage d (dep_stageId e)"
      using stage_by_id_Some[OF s'] assms(3) s(1) e(1) imageI[of s' "set (pd_stages d)" st_stageId]
      by (auto simp: normal_stage_def normal_dependencies_def list_all_iff)
    ultimately show False using IH e(2,3) by force
  qed
qed
qed

subsection \<open>What a settled status means\<close>

text \<open>The run has one state per stage of the definition, in its order.\<close>

definition states_match :: "process_definition \<Rightarrow> process_run \<Rightarrow> bool" where
  "states_match d run \<longleftrightarrow> map ss_stageId (pr_stageStates run) = map st_stageId (pd_stages d)"

lemma states_match_evolves: "states_match d r \<Longrightarrow> run_evolves r r' \<Longrightarrow> states_match d r'"
  by (simp add: states_match_def stage_states_ids)

lemma states_match_state:
  assumes "states_match d run" "i \<in> st_stageId ` set (pd_stages d)"
  obtains s where "mutableState run i = Inr s" "s \<in> set (pr_stageStates run)" "ss_stageId s = i"
proof -
  from assms have "i \<in> ss_stageId ` set (pr_stageStates run)"
    by (metis states_match_def image_set)
  then have "find (\<lambda>s. ss_stageId s = i) (pr_stageStates run) \<noteq> None"
    by (auto simp: find_None_iff)
  then obtain s where "mutableState run i = Inr s" by (auto simp: mutableState_Inr)
  with that mutableState_id mutableState_mem show thesis by blast
qed

lemma states_match_find:
  assumes "states_match d run" "distinct (map st_stageId (pd_stages d))" "s \<in> set (pr_stageStates run)"
  shows "mutableState run (ss_stageId s) = Inr s"
proof -
  from assms(1,3) have "ss_stageId s \<in> st_stageId ` set (pd_stages d)"
    by (metis states_match_def image_eqI image_set)
  with assms(1) obtain t where t: "mutableState run (ss_stageId s) = Inr t"
    "t \<in> set (pr_stageStates run)" "ss_stageId t = ss_stageId s" by (rule states_match_state)
  from assms(1,2) have "distinct (map ss_stageId (pr_stageStates run))" by (simp add: states_match_def)
  with t(2,3) assms(3) have "t = s" by (simp add: distinct_map inj_on_def)
  with t(1) show ?thesis by simp
qed

lemma is_active_leaf_eval:
  assumes "states_match d run" "s \<in> set (pd_stages d)"
    "st_stageId s \<notin> st_stageId ` set (filter is_compensation (pd_stages d))"
    "mutableState run (st_stageId s) = Inr state"
  shows "is_active_leaf d run s = Inr (ss_outcome state \<noteq> Some Skipped
     \<and> \<not> (\<exists>c \<in> set (pd_stages d). \<exists>cs. mutableState run (st_stageId c) = Inr cs \<and> ss_outcome cs \<noteq> Some Skipped
          \<and> (\<exists>e \<in> set (st_dependsOn c). dep_stageId e = st_stageId s
               \<and> (\<exists>oc. ss_outcome state = Some oc \<and> oc \<in> set (dep_outcomes e)))))"
proof -
  let ?q = "\<lambda>c. case mutableState run (st_stageId c) of Inl e \<Rightarrow> False | Inr cs \<Rightarrow> ss_outcome cs \<noteq> Some Skipped
     \<and> list_ex (\<lambda>dependency. dep_stageId dependency = st_stageId s
          \<and> (case ss_outcome state of None \<Rightarrow> False | Some oc \<Rightarrow> oc \<in> set (dep_outcomes dependency)))
        (st_dependsOn c)"
  have all: "\<exists>cs. mutableState run (st_stageId c) = Inr cs" if "c \<in> set (pd_stages d)" for c
    using states_match_state[OF assms(1), of "st_stageId c"] that by blast
  have "anyE (\<lambda>candidate. bindE (mutableState run (st_stageId candidate)) (\<lambda>candidateState.
              Inr (ss_outcome candidateState \<noteq> Some Skipped
                \<and> list_ex (\<lambda>dependency. dep_stageId dependency = st_stageId s
                    \<and> (case ss_outcome state of None \<Rightarrow> False | Some oc \<Rightarrow> oc \<in> set (dep_outcomes dependency)))
                  (st_dependsOn candidate)))) (pd_stages d) = Inr (list_ex ?q (pd_stages d))"
    by (rule callbacks_pure(3)) (use all in fastforce)
  moreover have "list_ex ?q (pd_stages d) \<longleftrightarrow>
    (\<exists>c \<in> set (pd_stages d). \<exists>cs. mutableState run (st_stageId c) = Inr cs \<and> ss_outcome cs \<noteq> Some Skipped
          \<and> (\<exists>e \<in> set (st_dependsOn c). dep_stageId e = st_stageId s
               \<and> (\<exists>oc. ss_outcome state = Some oc \<and> oc \<in> set (dep_outcomes e))))"
    unfolding list_ex_iff
    by (rule bex_cong[OF refl], drule all) (fastforce simp: list_ex_iff split: option.splits)
  ultimately show ?thesis using assms(3,4) by (simp add: is_active_leaf_def)
qed

lemma mapE_mem: "filterE p xs = Inr ys \<Longrightarrow> set ys = {x \<in> set xs. p x = Inr True}"
  by (induction xs arbitrary: ys) (auto simp: bindE_Inr_iff split: if_splits)

lemma everyE_True: "everyE p xs = Inr True \<longleftrightarrow> (\<forall>x \<in> set xs. p x = Inr True)"
  by (induction xs) (auto simp: bindE_Inr_iff split: if_splits)

lemma settle_completed:
  assumes "settleRunStatus d run = Inr r" "pr_status r = RCompleted" "pr_cancellation run = None"
    "states_match d run" "normal_stage d i" "mutableState run i = Inr state"
  shows "ss_status state = Terminal"
    "ss_outcome state = Some oc \<Longrightarrow> oc \<noteq> Skipped \<Longrightarrow> oc \<notin> successOutcomes \<Longrightarrow>
       \<exists>c \<in> set (pd_stages d). \<exists>cs. mutableState run (st_stageId c) = Inr cs \<and> ss_outcome cs \<noteq> Some Skipped
         \<and> (\<exists>e \<in> set (st_dependsOn c). dep_stageId e = i \<and> oc \<in> set (dep_outcomes e))"
proof -
  from assms(1-3) have no: "\<forall>s \<in> set (pr_stageStates run).
      ss_stageId s \<notin> st_stageId ` set (filter is_compensation (pd_stages d)) \<longrightarrow>
      ss_status s \<notin> {Ready, Running, Waiting, Blocked}"
    and leaves: "settle_leaves d run = Inr r"
    by (auto simp: settleRunStatus_def Let_def list_ex_iff split: if_splits)
  show "ss_status state = Terminal"
    using no mutableState_mem[OF assms(6)] mutableState_id[OF assms(6)] assms(5)
    by (cases "ss_status state") (auto simp: normal_stage_def)
  assume oc: "ss_outcome state = Some oc" "oc \<noteq> Skipped" "oc \<notin> successOutcomes"
  from leaves assms(2) obtain ls where ls: "filterE (is_active_leaf d run) (pd_stages d) = Inr ls"
    and every: "everyE (\<lambda>stage. bindE (mutableState run (st_stageId stage)) (\<lambda>state.
           Inr (case ss_outcome state of None \<Rightarrow> False | Some oc \<Rightarrow> oc \<in> successOutcomes))) ls = Inr True"
    by (auto simp: settle_leaves_def bindE_Inr_iff split: if_splits)
  note good = every[unfolded everyE_True]
  from assms(5) obtain s where s: "s \<in> set (pd_stages d)" "st_stageId s = i"
    "st_stageId s \<notin> st_stageId ` set (filter is_compensation (pd_stages d))"
    by (auto simp: normal_stage_def)
  have "\<not> is_active_leaf d run s = Inr True"
  proof
    assume "is_active_leaf d run s = Inr True"
    with ls s(1) have "s \<in> set ls" by (simp add: mapE_mem)
    with good assms(6) s(2) oc show False by auto
  qed
  with is_active_leaf_eval[OF assms(4) s(1,3)] assms(6) s(2) oc(1,2) show
    "\<exists>c \<in> set (pd_stages d). \<exists>cs. mutableState run (st_stageId c) = Inr cs \<and> ss_outcome cs \<noteq> Some Skipped
         \<and> (\<exists>e \<in> set (st_dependsOn c). dep_stageId e = i \<and> oc \<in> set (dep_outcomes e))"
    by auto
qed

lemma settle_ended:
  assumes "activate_loop d t run = Inr run'" "settleRunStatus d run' = Inr r" "terminalRun (pr_status r)"
    "pr_cancellation run' = None" "states_match d run'"
    "well_formed_stages (pd_stages d)" "normal_dependencies (pd_stages d)" "normal_stage d i"
  shows "\<exists>state. mutableState run' i = Inr state \<and> ss_status state = Terminal"
proof (rule settled_stages[OF assms(1,6,7) _ assms(8)])
  fix i state assume "normal_stage d i" and st: "mutableState run' i = Inr state"
  then have "state \<in> set (filter (\<lambda>s. ss_stageId s \<notin>
               st_stageId ` set (filter is_compensation (pd_stages d))) (pr_stageStates run'))"
    using mutableState_mem[OF st] mutableState_id[OF st] by (auto simp: normal_stage_def)
  with assms(2-4) show "ss_status state \<in> {Blocked, Terminal}"
    by (cases "ss_status state")
       (auto simp: settleRunStatus_def Let_def list_ex_iff terminalRun_def split: if_splits)
qed

lemma settle_frame:
  "settleRunStatus d run = Inr r \<Longrightarrow> \<exists>x. r = run\<lparr>pr_status := x\<rparr>"
  by (auto simp: settleRunStatus_def settle_canceling_def settle_leaves_def Let_def bindE_Inr_iff
      split: option.splits if_splits)

lemma settle_evolves: "settleRunStatus d run = Inr r \<Longrightarrow> run_evolves run r"
  by (auto dest!: settle_frame)

subsection \<open>Cancellation\<close>

lemma topo_ordered_before:
  assumes "topo_ordered stages order" "(j, i) \<in> (stage_graph stages)\<^sup>+" "order = xs @ i # ys"
  shows "j \<in> set xs"
  using assms(2,3)
proof (induction arbitrary: xs ys rule: trancl_induct)
  case (base i)
  from base.hyps obtain s e where s: "stage_by_id stages i = Some s" "e \<in> set (st_dependsOn s)" "dep_stageId e = j"
    by (auto simp: stage_graph_def)
  from assms(1) base.prems have "\<exists>s'. stage_by_id stages i = Some s' \<and> dep_stageId ` set (st_dependsOn s') \<subseteq> set xs"
    unfolding topo_ordered_def by blast
  with s show ?case by auto
next
  case (step k i)
  from step.hyps(2) obtain s e where s: "stage_by_id stages i = Some s" "e \<in> set (st_dependsOn s)" "dep_stageId e = k"
    by (auto simp: stage_graph_def)
  from assms(1) step.prems have "\<exists>s'. stage_by_id stages i = Some s' \<and> dep_stageId ` set (st_dependsOn s') \<subseteq> set xs"
    unfolding topo_ordered_def by blast
  with s have "k \<in> set xs" by auto
  then obtain us vs where xs: "xs = us @ k # vs" by (meson split_list)
  with step.IH[of us "vs @ i # ys"] step.prems show ?case by simp
qed

lemma topo_ordered_sorted:
  assumes "topo_ordered stages order"
  shows "sorted_wrt (\<lambda>i j. (j, i) \<notin> (stage_graph stages)\<^sup>+) order"
  unfolding sorted_wrt_iff_nth_less
proof (intro allI impI notI)
  fix m n assume mn: "m < n" "n < length order" and e: "(order ! n, order ! m) \<in> (stage_graph stages)\<^sup>+"
  have "order = take m order @ order ! m # drop (Suc m) order" using mn by (simp add: id_take_nth_drop)
  from topo_ordered_before[OF assms e this] obtain k where "k < m" "order ! k = order ! n"
    using mn by (auto simp: in_set_conv_nth)
  moreover have "distinct order" using assms by (simp add: topo_ordered_def)
  ultimately show False using mn by (simp add: nth_eq_iff_index_eq)
qed

lemma mapE_evolves:
  assumes "mapE (cancel_stage_state d t) ss = Inr ss'"
  shows "list_all2 stage_le ss ss'"
  using mapE_Inr[OF assms]
  by (rule list_all2_mono) (auto simp: cancel_stage_state_def stage_le_terminal split: option.splits)

lemma cancelDraft_Inr:
  assumes "cancelDraft d run opId reason t = Inr r"
  obtains topological states pending where
    "visit_all (pd_stages d) [] (map st_stageId (pd_stages d)) [] = Inr topological"
    "well_formed_stages (pd_stages d)"
    "pending = pending_compensations d run topological"
    "mapE (cancel_stage_state d t) (pr_stageStates run) = Inr states"
    "r = run\<lparr>pr_status := if pending = [] then RCanceled else RCanceling, pr_stageStates := states,
       pr_cancellation := Some \<lparr>cn_operationId = opId, cn_reasonCode = reason, cn_requestedAt = t,
         cn_pendingCompensationStageIds = pending\<rparr>\<rparr>"
  using assms validateProcessDefinitionBodyV1_facts(1)[of d] validateProcessDefinitionV1_body[of d]
  by (auto simp: cancelDraft_def topologicalProcessStageIdsV1_def bindE_Inr_iff Let_def)

lemma cancelDraft_evolves:
  assumes "cancelDraft d run opId reason t = Inr r"
  shows "run_evolves run r"
  using assms by (elim cancelDraft_Inr) (auto simp: run_evolves_def dest: mapE_evolves)

lemma cancelDraft_terminal:
  assumes "cancelDraft d run opId reason t = Inr r" "normal_stage d i" "mutableState r i = Inr s"
  shows "ss_status s = Terminal"
proof -
  from assms(1) obtain states where st: "mapE (cancel_stage_state d t) (pr_stageStates run) = Inr states"
    and r: "pr_stageStates r = states" by (elim cancelDraft_Inr) simp
  from mutableState_mem[OF assms(3)] r obtain k where k: "k < length states" "states ! k = s"
    by (auto simp: in_set_conv_nth)
  with mapE_Inr[OF st] have "cancel_stage_state d t (pr_stageStates run ! k) = Inr s"
    by (auto simp: list_all2_conv_all_nth)
  moreover have "ss_stageId s = i" by (rule mutableState_id[OF assms(3)])
  ultimately show ?thesis using assms(2)
    by (auto simp: cancel_stage_state_def normal_stage_def find_Some_iff image_iff
        split: option.splits if_splits)
qed

text \<open>The compensation that \<open>cancelDraft\<close> picks for a stage.\<close>

definition compensation_of :: "process_definition \<Rightarrow> string \<Rightarrow> string option" where
  "compensation_of d i = map_of (compensationsByTarget d) i"

lemma cancel_pending_order:
  assumes "cancelDraft d run opId reason t = Inr r"
  shows "\<exists>ids c. pr_cancellation r = Some c
    \<and> cn_pendingCompensationStageIds c = map (\<lambda>i. the (compensation_of d i)) ids \<and> distinct ids
    \<and> (\<forall>i \<in> set ids. compensation_of d i \<noteq> None)
    \<and> (\<forall>s \<in> set (pr_stageStates run). ss_outcome s = Some Succeeded \<longrightarrow> states_match d run
          \<longrightarrow> compensation_of d (ss_stageId s) \<noteq> None \<longrightarrow> ss_stageId s \<in> set ids)
    \<and> (\<forall>i \<in> set ids. \<exists>s \<in> set (pr_stageStates run). ss_stageId s = i \<and> ss_outcome s = Some Succeeded)
    \<and> sorted_wrt (\<lambda>i j. (i, j) \<notin> (stage_graph (pd_stages d))\<^sup>+) ids"
proof -
  from assms obtain topological where
    topo: "visit_all (pd_stages d) [] (map st_stageId (pd_stages d)) [] = Inr topological"
    and wf: "well_formed_stages (pd_stages d)"
    and r: "pr_cancellation r = Some \<lparr>cn_operationId = opId, cn_reasonCode = reason, cn_requestedAt = t,
         cn_pendingCompensationStageIds = pending_compensations d run topological\<rparr>"
    by (elim cancelDraft_Inr) simp
  let ?states = "map_of (rev (map (\<lambda>s. (ss_stageId s, s)) (pr_stageStates run)))"
  let ?keep = "\<lambda>i. (case ?states i of None \<Rightarrow> False | Some s \<Rightarrow> ss_outcome s = Some Succeeded)
    \<and> compensation_of d i \<noteq> None"
  let ?ids = "filter ?keep (rev topological)"
  note order = visit_all_stages[OF topo]
  have dist: "distinct topological" using order(1) by (simp add: topo_ordered_def)
  have pending: "pending_compensations d run topological = map (\<lambda>i. the (compensation_of d i)) ?ids"
    by (simp add: pending_compensations_def Let_def compensation_of_def)
  have in1: "ss_stageId s \<in> set ?ids" if s: "s \<in> set (pr_stageStates run)" "ss_outcome s = Some Succeeded"
    "states_match d run" "compensation_of d (ss_stageId s) \<noteq> None" for s
  proof -
    have "distinct (map ss_stageId (pr_stageStates run))"
      using s(3) wf by (simp add: states_match_def well_formed_stages_def)
    then have "?states (ss_stageId s) = Some s"
      using s(1) by (intro map_of_is_SomeI) (auto simp: rev_map[symmetric] comp_def)
    moreover have "ss_stageId s \<in> set topological"
      using s(1,3) order(2) by (metis imageI image_set states_match_def)
    ultimately show ?thesis using s(2,4) by simp
  qed
  have in2: "\<exists>s \<in> set (pr_stageStates run). ss_stageId s = i \<and> ss_outcome s = Some Succeeded" if "i \<in> set ?ids" for i
    using that by (auto split: option.splits dest!: map_of_SomeD)
  have ord: "sorted_wrt (\<lambda>i j. (i, j) \<notin> (stage_graph (pd_stages d))\<^sup>+) ?ids"
    using sorted_wrt_filter[OF topo_ordered_sorted[OF order(1)], of ?keep]
    by (simp add: rev_filter[symmetric] sorted_wrt_rev)
  show ?thesis
    by (intro exI conjI, rule r, simp add: pending, simp add: dist)
       (use in1 in2 ord in \<open>auto simp: dist\<close>)
qed

end
