(* ===== verification/WfStore.thy ===== *)
theory WfStore
  imports WfRunFacts
begin

text \<open>
  \<open>InMemoryWorkflowStoreV1\<close> of \<open>packages/workflows/src/v1-runtime.ts\<close>. Each
  JavaScript \<open>Map\<close> is an association list in insertion order; a method is a computation over
  the store that keeps what it wrote when it throws. The locale \<open>versioned_store\<close> states
  what the runner relies on for a value that is replaced by compare-and-set; it is interpreted on
  the process runs and on the task runs. The lemmas: the store only holds validated values under
  their own keys, a compare-and-set has at most one winner per revision, and nothing that was
  created disappears or goes back.
\<close>

record workflow_store =
  ws_taskDefinitions :: "(string \<times> task_definition) list"
  ws_taskRuns :: "(string \<times> task_run) list"
  ws_taskRunIdempotency :: "(string \<times> string) list"
  ws_definitions :: "(string \<times> process_definition) list"
  ws_runs :: "(string \<times> process_run) list"
  ws_operations :: "(string \<times> operation_record) list"
  ws_signals :: "(string \<times> process_signal) list"

definition empty_store :: workflow_store where
  "empty_store = \<lparr>ws_taskDefinitions = [], ws_taskRuns = [], ws_taskRunIdempotency = [],
     ws_definitions = [], ws_runs = [], ws_operations = [], ws_signals = []\<rparr>"

datatype registration = Created | ReplayedRegistration

subsection \<open>Definitions\<close>

definition registerTaskDefinition :: "string \<Rightarrow> task_definition \<Rightarrow> (workflow_store, registration) comp" where
  "registerTaskDefinition tenantId definition =
     bindS (liftE (token tenantId ''tenantId'')) (\<lambda>_.
     bindS (liftE (validateTaskDefinitionV1 definition)) (\<lambda>validated s.
       let key = key3 tenantId (td_taskDefinitionId validated) (td_version validated)
       in case map_of (ws_taskDefinitions s) key of
            Some current \<Rightarrow>
              (if td_definitionDigest current \<noteq> td_definitionDigest validated
               then conflict ''task definition identity was reused with different bytes''
               else Inr ReplayedRegistration, s)
          | None \<Rightarrow> (Inr Created, s\<lparr>ws_taskDefinitions := AList.update key validated (ws_taskDefinitions s)\<rparr>)))"

definition getTaskDefinition :: "string \<Rightarrow> string \<Rightarrow> string \<Rightarrow> workflow_store \<Rightarrow> task_definition option" where
  "getTaskDefinition tenantId taskDefinitionId taskDefinitionVersion s =
     map_of (ws_taskDefinitions s) (key3 tenantId taskDefinitionId taskDefinitionVersion)"

definition registerProcessDefinition :: "string \<Rightarrow> process_definition \<Rightarrow> (workflow_store, registration) comp" where
  "registerProcessDefinition tenantId definition =
     bindS (liftE (token tenantId ''tenantId'')) (\<lambda>_.
     bindS (liftE (validateProcessDefinitionV1 definition)) (\<lambda>validated s.
       let key = key3 tenantId (pd_processId validated) (pd_version validated)
       in case map_of (ws_definitions s) key of
            Some current \<Rightarrow>
              (if pd_definitionDigest current \<noteq> pd_definitionDigest validated
               then conflict ''process definition identity was reused with different bytes''
               else Inr ReplayedRegistration, s)
          | None \<Rightarrow> (Inr Created, s\<lparr>ws_definitions := AList.update key validated (ws_definitions s)\<rparr>)))"

definition getProcessDefinition :: "string \<Rightarrow> string \<Rightarrow> string \<Rightarrow> workflow_store \<Rightarrow> process_definition option" where
  "getProcessDefinition tenantId processId processVersion s =
     map_of (ws_definitions s) (key3 tenantId processId processVersion)"

subsection \<open>Task runs\<close>

definition createTaskRun :: "task_run \<Rightarrow> (workflow_store, bool) comp" where
  "createTaskRun runInput = bindS (liftE (validateTaskRunV1 runInput)) (\<lambda>run s.
     let key = key2 (tr_tenantId run) (tr_taskRunId run);
         idempotency = key2 (tr_tenantId run) (tr_idempotencyKey run);
         retainedTaskRunId = map_of (ws_taskRunIdempotency s) idempotency
     in if truthy retainedTaskRunId \<and> retainedTaskRunId \<noteq> Some (tr_taskRunId run)
        then (conflict ''task idempotency identity belongs to another task run'', s)
        else case map_of (ws_taskRuns s) key of
          Some current \<Rightarrow>
            (if tr_stateDigest current \<noteq> tr_stateDigest run
             then conflict ''task run identity was reused with different bytes'' else Inr False, s)
        | None \<Rightarrow>
            (Inr True, s\<lparr>ws_taskRuns := AList.update key run (ws_taskRuns s),
               ws_taskRunIdempotency := AList.update idempotency (tr_taskRunId run)
                 (ws_taskRunIdempotency s)\<rparr>))"

definition getTaskRun :: "string \<Rightarrow> string \<Rightarrow> (workflow_store, task_run option) comp" where
  "getTaskRun tenantId taskRunId =
     bindS (liftE (seqE [token tenantId ''tenantId'', token taskRunId ''taskRunId''])) (\<lambda>_.
     getsS (\<lambda>s. map_of (ws_taskRuns s) (key2 tenantId taskRunId)))"

definition findTaskRunByIdempotencyKey :: "string \<Rightarrow> string \<Rightarrow> (workflow_store, task_run option) comp" where
  "findTaskRunByIdempotencyKey tenantId idempotencyKey =
     bindS (liftE (seqE [token tenantId ''tenantId'', token idempotencyKey ''idempotencyKey''])) (\<lambda>_.
     bindS (getsS (\<lambda>s. map_of (ws_taskRunIdempotency s) (key2 tenantId idempotencyKey))) (\<lambda>taskRunId.
       case taskRunId of
         None \<Rightarrow> retS None
       | Some i \<Rightarrow> if i = [] then retS None else getTaskRun tenantId i))"

text \<open>The order of equal timestamps, and of timestamps, is the host's \<open>localeCompare\<close>.\<close>

definition compare_by :: "(string \<Rightarrow> string \<Rightarrow> int) \<Rightarrow> ('a \<Rightarrow> string) \<Rightarrow> ('a \<Rightarrow> string) \<Rightarrow> 'a \<Rightarrow> 'a \<Rightarrow> int" where
  "compare_by lc first second left right =
     (if first left = first right then lc (second left) (second right) else lc (first left) (first right))"

definition listTaskRuns ::
  "(string \<Rightarrow> string \<Rightarrow> int) \<Rightarrow> string \<Rightarrow> string option \<Rightarrow> task_run_status option \<Rightarrow> subject_reference option
    \<Rightarrow> (workflow_store, task_run list) comp" where
  "listTaskRuns lc tenantId processRunId status subject =
     bindS (liftE (seqE [
       token tenantId ''tenantId'',
       if_truthy processRunId (\<lambda>i. token i ''processRunId''),
       optional subject validateSubject])) (\<lambda>_.
     getsS (\<lambda>s. js_sort (compare_by lc tr_createdAt tr_taskRunId)
       (filter (\<lambda>run. tr_tenantId run = tenantId
           \<and> (\<not> truthy processRunId \<or> tr_processRunId run = the processRunId)
           \<and> (status = None \<or> Some (tr_status run) = status)
           \<and> (case subject of None \<Rightarrow> True | Some sub \<Rightarrow>
                (case tr_subject run of None \<Rightarrow> False | Some own \<Rightarrow>
                   sr_subjectType own = sr_subjectType sub \<and> sr_subjectId own = sr_subjectId sub)))
         (map snd (ws_taskRuns s)))))"

definition compareAndSetTaskRun :: "int \<Rightarrow> string \<Rightarrow> task_run \<Rightarrow> (workflow_store, bool) comp" where
  "compareAndSetTaskRun expectedRevision expectedStateDigest run =
     bindS (liftE (validateTaskRunV1 run)) (\<lambda>next s.
       let key = key2 (tr_tenantId next) (tr_taskRunId next)
       in case map_of (ws_taskRuns s) key of
            None \<Rightarrow> (Inr False, s)
          | Some current \<Rightarrow>
              if tr_revision current \<noteq> expectedRevision
                \<or> tr_stateDigest current \<noteq> expectedStateDigest
                \<or> tr_revision next \<noteq> expectedRevision + 1
                \<or> tr_idempotencyKey next \<noteq> tr_idempotencyKey current
                \<or> eb_bindingDigest (tr_binding next) \<noteq> eb_bindingDigest (tr_binding current)
                \<or> tr_inputDigest next \<noteq> tr_inputDigest current
              then (Inr False, s)
              else (Inr True, s\<lparr>ws_taskRuns := AList.update key next (ws_taskRuns s)\<rparr>))"

subsection \<open>Process runs\<close>

definition createProcessRun :: "process_run \<Rightarrow> (workflow_store, bool) comp" where
  "createProcessRun run = bindS (liftE (validateProcessRunV1 run)) (\<lambda>_ s.
     let key = key2 (pr_tenantId run) (pr_runId run)
     in if map_of (ws_runs s) key \<noteq> None then (Inr False, s)
        else (Inr True, s\<lparr>ws_runs := AList.update key run (ws_runs s)\<rparr>))"

definition getProcessRun :: "string \<Rightarrow> string \<Rightarrow> workflow_store \<Rightarrow> process_run option" where
  "getProcessRun tenantId runId s = map_of (ws_runs s) (key2 tenantId runId)"

definition listRunnableProcessRuns ::
  "(string \<Rightarrow> string \<Rightarrow> int) \<Rightarrow> string option \<Rightarrow> int \<Rightarrow> (workflow_store, process_run list) comp" where
  "listRunnableProcessRuns lc tenantId limit =
     bindS (liftE (require (isSafeInteger limit \<and> 1 \<le> limit) ''runnable process limit is invalid'')) (\<lambda>_.
     getsS (\<lambda>s. take (nat limit) (js_sort (compare_by lc pr_updatedAt pr_runId)
       (filter (\<lambda>run. (\<not> truthy tenantId \<or> pr_tenantId run = the tenantId)
           \<and> pr_status run \<in> {RPending, RRunning, RWaiting, RCanceling})
         (map snd (ws_runs s))))))"

definition compareAndSetProcessRun :: "int \<Rightarrow> string \<Rightarrow> process_run \<Rightarrow> (workflow_store, bool) comp" where
  "compareAndSetProcessRun expectedRevision expectedStateDigest run =
     bindS (liftE (validateProcessRunV1 run)) (\<lambda>_ s.
       let key = key2 (pr_tenantId run) (pr_runId run)
       in case map_of (ws_runs s) key of
            None \<Rightarrow> (Inr False, s)
          | Some current \<Rightarrow>
              if pr_revision current \<noteq> expectedRevision
                \<or> pr_stateDigest current \<noteq> expectedStateDigest
                \<or> pr_revision run \<noteq> expectedRevision + 1
              then (Inr False, s)
              else (Inr True, s\<lparr>ws_runs := AList.update key run (ws_runs s)\<rparr>))"

subsection \<open>Operations and signals\<close>

definition operationKey :: "string \<Rightarrow> operation_kind \<Rightarrow> string \<Rightarrow> string" where
  "operationKey tenantId kind idempotencyKey = key3 tenantId (operation_kind_string kind) idempotencyKey"

definition getOperation :: "string \<Rightarrow> operation_kind \<Rightarrow> string \<Rightarrow> workflow_store \<Rightarrow> operation_record option" where
  "getOperation tenantId operationKind idempotencyKey s =
     map_of (ws_operations s) (operationKey tenantId operationKind idempotencyKey)"

definition saveOperation :: "operation_record \<Rightarrow> (workflow_store, bool) comp" where
  "saveOperation r s =
     (let key = operationKey (op_tenantId r) (op_operationKind r) (op_idempotencyKey r)
      in case map_of (ws_operations s) key of
           Some current \<Rightarrow>
             (if op_requestDigest current \<noteq> op_requestDigest r \<or> op_runId current \<noteq> op_runId r
              then conflict ''workflow idempotency identity was reused with another request''
              else Inr False, s)
         | None \<Rightarrow> (Inr True, s\<lparr>ws_operations := AList.update key r (ws_operations s)\<rparr>))"

definition countOperations :: "string \<Rightarrow> string \<Rightarrow> workflow_store \<Rightarrow> int" where
  "countOperations tenantId runId s = int (length (filter
     (\<lambda>operation. op_tenantId operation = tenantId \<and> op_runId operation = runId) (map snd (ws_operations s))))"

definition appendSignal :: "process_signal \<Rightarrow> (workflow_store, registration) comp" where
  "appendSignal signal = bindS (liftE (validateProcessSignalV1 signal)) (\<lambda>_ s.
     let key = key3 (sg_tenantId signal) (sg_runId signal) (sg_signalId signal)
     in case map_of (ws_signals s) key of
          Some current \<Rightarrow>
            (if sg_signalDigest current \<noteq> sg_signalDigest signal
             then conflict ''workflow signal identity was reused with different bytes''
             else Inr ReplayedRegistration, s)
        | None \<Rightarrow> (Inr Created, s\<lparr>ws_signals := AList.update key signal (ws_signals s)\<rparr>))"

definition listSignals :: "(string \<Rightarrow> string \<Rightarrow> int) \<Rightarrow> string \<Rightarrow> string \<Rightarrow> workflow_store \<Rightarrow> process_signal list" where
  "listSignals lc tenantId runId s =
     js_sort (compare_by lc sg_receivedAt sg_signalId)
       (filter (\<lambda>signal. sg_tenantId signal = tenantId \<and> sg_runId signal = runId) (map snd (ws_signals s)))"

subsection \<open>Every write of the store\<close>

inductive store_step :: "workflow_store \<Rightarrow> workflow_store \<Rightarrow> bool" where
  register_task: "registerTaskDefinition t td s = (r, s') \<Longrightarrow> store_step s s'"
| register_process: "registerProcessDefinition t pd s = (r, s') \<Longrightarrow> store_step s s'"
| create_task: "createTaskRun tr s = (rb, s') \<Longrightarrow> store_step s s'"
| cas_task: "compareAndSetTaskRun e d tr s = (rb, s') \<Longrightarrow> store_step s s'"
| create_process: "createProcessRun pr s = (rb, s') \<Longrightarrow> store_step s s'"
| cas_process: "compareAndSetProcessRun e d pr s = (rb, s') \<Longrightarrow> store_step s s'"
| save_operation: "saveOperation op s = (rb, s') \<Longrightarrow> store_step s s'"
| append_signal: "appendSignal sg s = (r, s') \<Longrightarrow> store_step s s'"

text \<open>Each write, with its result taken apart: unchanged, or one new entry.\<close>

lemma bindS_liftE: "bindS (liftE m) f s = (case m of Inl e \<Rightarrow> (Inl e, s) | Inr x \<Rightarrow> f x s)"
  by (simp add: bindS_def split: sum.splits)

lemma registerTaskDefinition_cases:
  assumes "registerTaskDefinition t td s = (r, s')"
  shows "s' = s \<or> (valid_token t \<and> validateTaskDefinitionV1 td = Inr td
     \<and> map_of (ws_taskDefinitions s) (key3 t (td_taskDefinitionId td) (td_version td)) = None
     \<and> s' = s\<lparr>ws_taskDefinitions := AList.update (key3 t (td_taskDefinitionId td) (td_version td)) td
         (ws_taskDefinitions s)\<rparr>)"
proof -
  have "validateTaskDefinitionV1 td = Inr x \<Longrightarrow> x = td" for x
    by (auto simp: validateTaskDefinitionV1_def bindE_Inr_iff split: if_splits)
  with assms show ?thesis
    by (auto simp: registerTaskDefinition_def bindS_liftE Let_def split: sum.splits option.splits)
qed

lemma registerProcessDefinition_cases:
  assumes "registerProcessDefinition t pd s = (r, s')"
  shows "s' = s \<or> (valid_token t \<and> validateProcessDefinitionV1 pd = Inr pd
     \<and> map_of (ws_definitions s) (key3 t (pd_processId pd) (pd_version pd)) = None
     \<and> s' = s\<lparr>ws_definitions := AList.update (key3 t (pd_processId pd) (pd_version pd)) pd (ws_definitions s)\<rparr>)"
  using assms validateProcessDefinitionV1_body
  by (auto simp: registerProcessDefinition_def bindS_liftE Let_def split: sum.splits option.splits)

lemma createTaskRun_cases:
  assumes "createTaskRun tr s = (r, s')"
  shows "(r \<noteq> Inr True \<and> s' = s) \<or> (r = Inr True \<and> validateTaskRunV1 tr = Inr tr
     \<and> map_of (ws_taskRuns s) (key2 (tr_tenantId tr) (tr_taskRunId tr)) = None
     \<and> map_of (ws_taskRunIdempotency s) (key2 (tr_tenantId tr) (tr_idempotencyKey tr))
         \<in> {None, Some [], Some (tr_taskRunId tr)}
     \<and> s' = s\<lparr>ws_taskRuns := AList.update (key2 (tr_tenantId tr) (tr_taskRunId tr)) tr (ws_taskRuns s),
         ws_taskRunIdempotency := AList.update (key2 (tr_tenantId tr) (tr_idempotencyKey tr)) (tr_taskRunId tr)
           (ws_taskRunIdempotency s)\<rparr>)"
proof (cases "validateTaskRunV1 tr")
  case (Inr run)
  then have "run = tr" by (rule validateTaskRunV1_arg)
  with assms Inr show ?thesis
    by (auto simp: createTaskRun_def bindS_liftE Let_def truthy_def conflict_def
        split: option.splits if_splits)
qed (use assms in \<open>auto simp: createTaskRun_def bindS_liftE\<close>)

lemma compareAndSetTaskRun_cases:
  assumes "compareAndSetTaskRun e d tr s = (r, s')"
  shows "(r \<noteq> Inr True \<and> s' = s) \<or> (r = Inr True \<and> validateTaskRunV1 tr = Inr tr
     \<and> (\<exists>c. map_of (ws_taskRuns s) (key2 (tr_tenantId tr) (tr_taskRunId tr)) = Some c \<and> tr_revision c = e
         \<and> tr_stateDigest c = d \<and> tr_revision tr = e + 1 \<and> tr_idempotencyKey tr = tr_idempotencyKey c
         \<and> eb_bindingDigest (tr_binding tr) = eb_bindingDigest (tr_binding c)
         \<and> tr_inputDigest tr = tr_inputDigest c)
     \<and> s' = s\<lparr>ws_taskRuns := AList.update (key2 (tr_tenantId tr) (tr_taskRunId tr)) tr (ws_taskRuns s)\<rparr>)"
  using assms validateTaskRunV1_arg
  by (auto simp: compareAndSetTaskRun_def bindS_liftE Let_def split: sum.splits option.splits if_splits)

lemma validateProcessRunV1_arg: "validateProcessRunV1 r = Inr c \<Longrightarrow> c = r"
  by (auto simp: validateProcessRunV1_def bindE_Inr_iff split: if_splits)

lemma createProcessRun_cases:
  assumes "createProcessRun pr s = (r, s')"
  shows "(r \<noteq> Inr True \<and> s' = s) \<or> (r = Inr True \<and> validateProcessRunV1 pr = Inr pr
     \<and> map_of (ws_runs s) (key2 (pr_tenantId pr) (pr_runId pr)) = None
     \<and> s' = s\<lparr>ws_runs := AList.update (key2 (pr_tenantId pr) (pr_runId pr)) pr (ws_runs s)\<rparr>)"
  using assms validateProcessRunV1_arg
  by (auto simp: createProcessRun_def bindS_liftE Let_def split: sum.splits option.splits if_splits)

lemma compareAndSetProcessRun_cases:
  assumes "compareAndSetProcessRun e d pr s = (r, s')"
  shows "(r \<noteq> Inr True \<and> s' = s) \<or> (r = Inr True \<and> validateProcessRunV1 pr = Inr pr
     \<and> (\<exists>c. map_of (ws_runs s) (key2 (pr_tenantId pr) (pr_runId pr)) = Some c \<and> pr_revision c = e
         \<and> pr_stateDigest c = d \<and> pr_revision pr = e + 1)
     \<and> s' = s\<lparr>ws_runs := AList.update (key2 (pr_tenantId pr) (pr_runId pr)) pr (ws_runs s)\<rparr>)"
  using assms validateProcessRunV1_arg
  by (auto simp: compareAndSetProcessRun_def bindS_liftE Let_def split: sum.splits option.splits if_splits)

lemma saveOperation_cases:
  assumes "saveOperation op s = (r, s')"
  shows "(r \<noteq> Inr True \<and> s' = s) \<or> (r = Inr True
     \<and> map_of (ws_operations s) (operationKey (op_tenantId op) (op_operationKind op) (op_idempotencyKey op)) = None
     \<and> s' = s\<lparr>ws_operations := AList.update
         (operationKey (op_tenantId op) (op_operationKind op) (op_idempotencyKey op)) op (ws_operations s)\<rparr>)"
  using assms by (auto simp: saveOperation_def Let_def conflict_def split: option.splits if_splits)

lemma appendSignal_cases:
  assumes "appendSignal sg s = (r, s')"
  shows "s' = s \<or> (validateProcessSignalV1 sg \<in> range Inr
     \<and> map_of (ws_signals s) (key3 (sg_tenantId sg) (sg_runId sg) (sg_signalId sg)) = None
     \<and> s' = s\<lparr>ws_signals := AList.update (key3 (sg_tenantId sg) (sg_runId sg) (sg_signalId sg)) sg (ws_signals s)\<rparr>)"
  using assms by (auto simp: appendSignal_def bindS_liftE Let_def split: sum.splits option.splits)

lemmas store_write_cases =
  registerTaskDefinition_cases registerProcessDefinition_cases createTaskRun_cases
  compareAndSetTaskRun_cases createProcessRun_cases compareAndSetProcessRun_cases
  saveOperation_cases appendSignal_cases

subsection \<open>The contract of a versioned value\<close>

locale versioned_store =
  fixes get :: "'k \<Rightarrow> 's \<Rightarrow> 'v option"
    and create :: "'v \<Rightarrow> 's \<Rightarrow> bool res \<times> 's"
    and cas :: "int \<Rightarrow> string \<Rightarrow> 'v \<Rightarrow> 's \<Rightarrow> bool res \<times> 's"
    and key :: "'v \<Rightarrow> 'k"
    and revision :: "'v \<Rightarrow> int"
    and stateDigest :: "'v \<Rightarrow> string"
    and step :: "'s \<Rightarrow> 's \<Rightarrow> bool"
  assumes cas_won: "cas e d v s = (Inr True, s') \<Longrightarrow>
      (\<exists>c. get (key v) s = Some c \<and> revision c = e \<and> stateDigest c = d) \<and> revision v = e + 1
      \<and> get (key v) s' = Some v"
    and cas_frame: "cas e d v s = (r, s') \<Longrightarrow> r \<noteq> Inr True \<or> k \<noteq> key v \<Longrightarrow> get k s' = get k s"
    and create_won: "create v s = (Inr True, s') \<Longrightarrow> get (key v) s = None \<and> get (key v) s' = Some v"
    and create_frame: "create v s = (r, s') \<Longrightarrow> r \<noteq> Inr True \<or> k \<noteq> key v \<Longrightarrow> get k s' = get k s"
    and step_cases: "step s s' \<Longrightarrow> (\<forall>k. get k s' = get k s)
      \<or> (\<exists>v r. create v s = (r, s')) \<or> (\<exists>e d v r. cas e d v s = (r, s'))"
begin

lemma step_keeps:
  assumes "step s s'" "get k s = Some c"
  obtains c' where "get k s' = Some c'" "c' = c \<or> revision c' = revision c + 1"
proof -
  consider "get k s' = get k s" | v r where "create v s = (r, s')" | e d v r where "cas e d v s = (r, s')"
    using step_cases[OF assms(1)] by blast
  then show thesis
  proof cases
    case 1
    with assms(2) that show ?thesis by simp
  next
    case (2 v r)
    then have "get k s' = get k s"
      using create_frame[OF 2, of k] create_won[of v s s'] assms(2) by fastforce
    with assms(2) that show ?thesis by simp
  next
    case (3 e d v r)
    show ?thesis
    proof (cases "r = Inr True \<and> k = key v")
      case True
      with cas_won[of e d v s s'] 3 assms(2) that show ?thesis by auto
    next
      case False
      with cas_frame[OF 3, of k] assms(2) that show ?thesis by simp
    qed
  qed
qed

text \<open>A created value stays, and its revision only grows; the same revision is the same value.\<close>

lemma steps_keep:
  assumes "step\<^sup>*\<^sup>* s s'" "get k s = Some c"
  shows "\<exists>c'. get k s' = Some c' \<and> revision c \<le> revision c' \<and> (revision c' = revision c \<longrightarrow> c' = c)"
  using assms
proof (induction rule: rtranclp_induct)
  case (step y z)
  then obtain c1 where c1: "get k y = Some c1" "revision c \<le> revision c1" "revision c1 = revision c \<longrightarrow> c1 = c"
    by blast
  from step_keeps[OF step.hyps(2) c1(1)] obtain c2 where "get k z = Some c2"
    "c2 = c1 \<or> revision c2 = revision c1 + 1" .
  with c1 show ?case by auto
qed simp

text \<open>Of all the writers that read the same revision, at most one wins.\<close>

lemma one_winner:
  assumes "cas e d v s = (Inr True, s1)" "step\<^sup>*\<^sup>* s1 s2" "cas e d' v' s2 = (r, s3)" "key v' = key v"
  shows "r \<noteq> Inr True"
proof
  assume r: "r = Inr True"
  from cas_won[OF assms(1)] have v: "get (key v) s1 = Some v" "revision v = e + 1" by auto
  from steps_keep[OF assms(2) v(1)] obtain c where "get (key v) s2 = Some c" "e + 1 \<le> revision c"
    using v(2) by auto
  with cas_won[of e d' v' s2 s3] assms(3,4) r show False by auto
qed

end

lemma map_of_update [simp]: "map_of (AList.update k v m) k' = (if k' = k then Some v else map_of m k')"
  by (simp add: update_conv')

interpretation process_runs: versioned_store
  "\<lambda>k s. map_of (ws_runs s) k" createProcessRun compareAndSetProcessRun
  "\<lambda>r. key2 (pr_tenantId r) (pr_runId r)" pr_revision pr_stateDigest store_step
proof (unfold_locales, goal_cases)
  case (5 s s')
  then show ?case
    by cases (auto dest!: registerTaskDefinition_cases registerProcessDefinition_cases createTaskRun_cases
        compareAndSetTaskRun_cases saveOperation_cases appendSignal_cases)
qed (auto dest!: createProcessRun_cases compareAndSetProcessRun_cases)

interpretation task_runs: versioned_store
  "\<lambda>k s. map_of (ws_taskRuns s) k" createTaskRun compareAndSetTaskRun
  "\<lambda>r. key2 (tr_tenantId r) (tr_taskRunId r)" tr_revision tr_stateDigest store_step
proof (unfold_locales, goal_cases)
  case (5 s s')
  then show ?case
    by cases (auto dest!: registerTaskDefinition_cases registerProcessDefinition_cases createProcessRun_cases
        compareAndSetProcessRun_cases saveOperation_cases appendSignal_cases)
qed (auto dest!: createTaskRun_cases compareAndSetTaskRun_cases)

subsection \<open>What the store holds\<close>

definition task_entry_ok :: "(string \<times> string) list \<Rightarrow> string \<Rightarrow> task_run \<Rightarrow> bool" where
  "task_entry_ok idempotency k v \<longleftrightarrow> validateTaskRunV1 v = Inr v \<and> k = key2 (tr_tenantId v) (tr_taskRunId v)
     \<and> map_of idempotency (key2 (tr_tenantId v) (tr_idempotencyKey v)) = Some (tr_taskRunId v)"

definition entries :: "('k \<Rightarrow> 'v \<Rightarrow> bool) \<Rightarrow> ('k \<times> 'v) list \<Rightarrow> bool" where
  "entries P m \<longleftrightarrow> (\<forall>k v. map_of m k = Some v \<longrightarrow> P k v)"

lemma entries_Nil [simp]: "entries P []"
  by (simp add: entries_def)

lemma entries_update: "entries P m \<Longrightarrow> P k v \<Longrightarrow> entries P (AList.update k v m)"
  by (simp add: entries_def)

lemma entries_mono: "entries P m \<Longrightarrow> (\<And>k v. map_of m k = Some v \<Longrightarrow> P k v \<Longrightarrow> Q k v) \<Longrightarrow> entries Q m"
  by (simp add: entries_def)

definition store_ok :: "workflow_store \<Rightarrow> bool" where
  "store_ok s \<longleftrightarrow>
     entries (\<lambda>k v. validateTaskDefinitionV1 v = Inr v
        \<and> (\<exists>t. valid_token t \<and> k = key3 t (td_taskDefinitionId v) (td_version v))) (ws_taskDefinitions s)
   \<and> entries (\<lambda>k v. validateProcessDefinitionV1 v = Inr v
        \<and> (\<exists>t. valid_token t \<and> k = key3 t (pd_processId v) (pd_version v))) (ws_definitions s)
   \<and> entries (task_entry_ok (ws_taskRunIdempotency s)) (ws_taskRuns s)
   \<and> entries (\<lambda>k i. i \<noteq> []) (ws_taskRunIdempotency s)
   \<and> entries (\<lambda>k v. validateProcessRunV1 v = Inr v \<and> k = key2 (pr_tenantId v) (pr_runId v)) (ws_runs s)
   \<and> entries (\<lambda>k v. validateProcessSignalV1 v \<in> range Inr
        \<and> k = key3 (sg_tenantId v) (sg_runId v) (sg_signalId v)) (ws_signals s)
   \<and> entries (\<lambda>k v. k = operationKey (op_tenantId v) (op_operationKind v) (op_idempotencyKey v))
       (ws_operations s)"

lemma store_ok_empty: "store_ok empty_store"
  by (simp add: store_ok_def empty_store_def)

lemma valid_task_run_tokens:
  assumes "validateTaskRunV1 r = Inr r"
  shows "valid_token (tr_tenantId r)" "tr_taskRunId r \<noteq> []"
  using assms by (auto simp: validateTaskRunV1_iff task_run_checks_iff valid_token_def)

lemma store_ok_create_task:
  assumes "store_ok s" "createTaskRun tr s = (r, s')"
  shows "store_ok s'"
proof -
  from createTaskRun_cases[OF assms(2)] consider "s' = s"
    | "validateTaskRunV1 tr = Inr tr" "map_of (ws_taskRunIdempotency s) (key2 (tr_tenantId tr) (tr_idempotencyKey tr))
         \<in> {None, Some [], Some (tr_taskRunId tr)}"
      "s' = s\<lparr>ws_taskRuns := AList.update (key2 (tr_tenantId tr) (tr_taskRunId tr)) tr (ws_taskRuns s),
         ws_taskRunIdempotency := AList.update (key2 (tr_tenantId tr) (tr_idempotencyKey tr)) (tr_taskRunId tr)
           (ws_taskRunIdempotency s)\<rparr>" by blast
  then show ?thesis
  proof cases
    case 2
    have "task_entry_ok (ws_taskRunIdempotency s') k v" if v: "map_of (ws_taskRuns s) k = Some v" for k v
    proof -
      from v assms(1) have old: "task_entry_ok (ws_taskRunIdempotency s) k v" by (simp add: store_ok_def entries_def)
      then have "map_of (ws_taskRunIdempotency s) (key2 (tr_tenantId v) (tr_idempotencyKey v)) = Some (tr_taskRunId v)"
        "tr_taskRunId v \<noteq> []" by (simp_all add: task_entry_ok_def valid_task_run_tokens(2))
      with old 2(2) show ?thesis by (auto simp: task_entry_ok_def 2(3))
    qed
    moreover have "task_entry_ok (ws_taskRunIdempotency s') (key2 (tr_tenantId tr) (tr_taskRunId tr)) tr"
      using 2(1) by (simp add: task_entry_ok_def 2(3))
    ultimately have "entries (task_entry_ok (ws_taskRunIdempotency s')) (ws_taskRuns s')"
      by (simp add: 2(3) entries_def)
    then show ?thesis
      using assms(1) valid_task_run_tokens(2)[OF 2(1)] by (simp add: store_ok_def entries_update 2(3))
  qed (use assms in simp)
qed

lemma store_ok_cas_task:
  assumes "store_ok s" "compareAndSetTaskRun e d tr s = (r, s')"
  shows "store_ok s'"
proof -
  let ?k = "key2 (tr_tenantId tr) (tr_taskRunId tr)"
  from compareAndSetTaskRun_cases[OF assms(2)] consider "s' = s"
    | c where "validateTaskRunV1 tr = Inr tr" "map_of (ws_taskRuns s) ?k = Some c"
      "tr_idempotencyKey tr = tr_idempotencyKey c" "s' = s\<lparr>ws_taskRuns := AList.update ?k tr (ws_taskRuns s)\<rparr>"
    by blast
  then show ?thesis
  proof cases
    case (2 c)
    from assms(1) 2(2) have c: "task_entry_ok (ws_taskRunIdempotency s) ?k c" by (simp add: store_ok_def entries_def)
    then have "tr_tenantId c = tr_tenantId tr" "tr_taskRunId c = tr_taskRunId tr"
      using key2_inject valid_task_run_tokens(1)[OF 2(1)] valid_task_run_tokens(1)[of c]
      by (auto simp: task_entry_ok_def)
    with c 2 have "task_entry_ok (ws_taskRunIdempotency s) ?k tr" by (simp add: task_entry_ok_def)
    then show ?thesis
      using assms(1) by (simp add: store_ok_def 2(4) entries_update)
  qed (use assms in simp)
qed

lemma store_ok_step:
  assumes "store_step s s'" "store_ok s"
  shows "store_ok s'"
  using assms(1)
proof cases
  case (register_task t td r)
  with registerTaskDefinition_cases[OF this] assms(2) show ?thesis
    by (auto simp: store_ok_def intro!: entries_update)
next
  case (register_process t pd r)
  with registerProcessDefinition_cases[OF this] assms(2) show ?thesis
    by (auto simp: store_ok_def intro!: entries_update)
next
  case (create_process pr r)
  with createProcessRun_cases[OF this] assms(2) show ?thesis
    by (auto simp: store_ok_def intro!: entries_update)
next
  case (cas_process e d pr r)
  with compareAndSetProcessRun_cases[OF this] assms(2) show ?thesis
    by (auto simp: store_ok_def intro!: entries_update)
next
  case (save_operation op r)
  with saveOperation_cases[OF this] assms(2) show ?thesis
    by (auto simp: store_ok_def intro!: entries_update)
next
  case (append_signal sg r)
  with appendSignal_cases[OF this] assms(2) show ?thesis
    by (auto simp: store_ok_def intro!: entries_update)
qed (use assms(2) store_ok_create_task store_ok_cas_task in blast)+

lemma store_ok_steps: "store_step\<^sup>*\<^sup>* s s' \<Longrightarrow> store_ok s \<Longrightarrow> store_ok s'"
  by (induction rule: rtranclp_induct) (auto intro: store_ok_step)

lemma store_ok_idempotency:
  assumes "store_ok s" "map_of (ws_taskRuns s) k = Some r" "map_of (ws_taskRuns s) k' = Some r'"
    "tr_tenantId r = tr_tenantId r'" "tr_idempotencyKey r = tr_idempotencyKey r'"
  shows "r = r'"
proof -
  from assms have "task_entry_ok (ws_taskRunIdempotency s) k r" "task_entry_ok (ws_taskRunIdempotency s) k' r'" by (simp_all add: store_ok_def entries_def)
  with assms(4,5) have "k = k'" by (simp add: task_entry_ok_def)
  with assms(2,3) show ?thesis by simp
qed

end
