(* ===== verification/WfExecution.thy ===== *)
theory WfExecution
  imports WfStore
begin

text \<open>
  \<open>#executeTask\<close> of \<open>InMemoryProcessRunnerV1\<close> (\<open>packages/workflows/src/v1-runtime.ts\<close>):
  claiming a task run, replaying a settled one, taking over an expired lease, running the executor
  with its heartbeat, and settling the result under the lease.

  The executors, the binding resolver and the gate provider are ports the application supplies:
  functions of the request and of the whole state (the store and any world \<open>'w\<close> of their
  own) that return the new state, and \<open>None\<close> when they throw. While one runs, other workers may
  use the store: that, too, is in the port's effect. The abort signal is set exactly when a
  heartbeat answered false, so the executor reads it from that answer.
\<close>

type_synonym 'w rstate = "workflow_store \<times> 'w"

definition onStore :: "(workflow_store, 'a) comp \<Rightarrow> ('w rstate, 'a) comp" where
  "onStore m sw = (case sw of (s, w) \<Rightarrow> (case m s of (r, s') \<Rightarrow> (r, (s', w))))"

record binding_request =
  bq_tenantId :: string
  bq_runId :: string
  bq_stage :: process_stage
  bq_taskDefinition :: task_definition
  bq_processInput :: "json option"

type_synonym ('w, 'q, 'a) port = "'q \<Rightarrow> 'w rstate \<Rightarrow> 'a option \<times> 'w rstate"

text \<open>An executor also receives the heartbeat callback.\<close>

type_synonym 'w executor = "(string \<Rightarrow> ('w rstate, bool) comp) \<Rightarrow> ('w, task_request, task_result) port"

record 'w options =
  op_taskExecutor :: "'w executor option"
  op_protectedTaskExecutor :: "'w executor option"
  op_taskBindingResolver :: "('w, binding_request, binding_input) port option"
  op_gateProvider :: "('w, gate_request, gate_result) port option"
  op_workerId :: string
  op_taskLeaseDurationMs :: int
  op_localeCompare :: "string \<Rightarrow> string \<Rightarrow> int"

text \<open>The checks of the constructor.\<close>

definition validateOptions :: "'w options \<Rightarrow> unit res" where
  "validateOptions opts = seqE [
     token (op_workerId opts) ''workerId'',
     require (isSafeInteger (op_taskLeaseDurationMs opts) \<and> 1000 \<le> op_taskLeaseDurationMs opts
         \<and> op_taskLeaseDurationMs opts \<le> 24 * 60 * 60 * 1000) ''taskLeaseDurationMs is invalid'']"

subsection \<open>Claiming\<close>

definition taskLeaseToken :: "string \<Rightarrow> string \<Rightarrow> int \<Rightarrow> string res" where
  "taskLeaseToken workerId taskRunId generation =
     bindE (digestWorkflowJsonV1 ''task-lease'' (JObj [
       (''workerId'', JStr workerId), (''taskRunId'', JStr taskRunId), (''generation'', JNum generation)]))
       (\<lambda>d. Inr (''task-lease:'' @ d))"

definition task_idempotencyKey :: "string \<Rightarrow> string \<Rightarrow> string \<Rightarrow> int \<Rightarrow> string" where
  "task_idempotencyKey tenantId runId stageId attempt =
     ''workflow-task:'' @ tenantId @ '':'' @ runId @ '':'' @ stageId @ '':'' @ show_int attempt"

definition task_inputDigest :: "process_run \<Rightarrow> string \<Rightarrow> int \<Rightarrow> string res" where
  "task_inputDigest processRun stageId attempt = digestWorkflowJsonV1 ''task-run-input'' (JObj [
     (''processInput'', case pr_input processRun of None \<Rightarrow> JNull | Some v \<Rightarrow> v),
     (''processRunId'', JStr (pr_runId processRun)),
     (''stageId'', JStr stageId),
     (''attempt'', JNum attempt)])"

text \<open>A property that is spread in only when truthy.\<close>

definition if_present :: "string option \<Rightarrow> string option" where
  "if_present v = (if truthy v then v else None)"

definition nullish :: "string option \<Rightarrow> string \<Rightarrow> string" where
  "nullish v d = (case v of None \<Rightarrow> d | Some s \<Rightarrow> s)"

definition settled_result :: "task_run \<Rightarrow> task_result option" where
  "settled_result taskRun = (case tr_status taskRun of
     TRCompleted \<Rightarrow> Some (TaskCompleted None (if_present (tr_resultReference taskRun))
       (if_present (tr_resultDigest taskRun)) (tr_usage taskRun))
   | TRFailed \<Rightarrow> Some (TaskFailed (nullish (tr_reasonCode taskRun) ''task_failed'')
       (Some (tr_retryable taskRun = Some True)) (tr_usage taskRun))
   | TRCanceled \<Rightarrow> Some (TaskFailed (nullish (tr_reasonCode taskRun) ''task_canceled'')
       (Some False) (tr_usage taskRun))
   | TRIndeterminate \<Rightarrow> Some (TaskIndeterminate
       (nullish (tr_reasonCode taskRun) ''task_effect_indeterminate'') (tr_usage taskRun))
   | _ \<Rightarrow> None)"

text \<open>Reads the retained run of the attempt, or creates it; says whether it was created here.\<close>

definition claim_run ::
  "'w options \<Rightarrow> process_run \<Rightarrow> string \<Rightarrow> int \<Rightarrow> string \<Rightarrow> string \<Rightarrow> execution_binding \<Rightarrow> string
    \<Rightarrow> string \<Rightarrow> string \<Rightarrow> string \<Rightarrow> (workflow_store, task_run \<times> bool) comp" where
  "claim_run opts processRun stageId attempt taskRunId idempotencyKey binding inputDigest
      leaseToken leaseExpiresAt logicalTime =
     bindS (getTaskRun (pr_tenantId processRun) taskRunId) (\<lambda>retained.
       case retained of
         None \<Rightarrow>
           bindS (liftE (createTaskRunV1 \<lparr>ct_tenantId = pr_tenantId processRun, ct_taskRunId = taskRunId,
               ct_processRunId = pr_runId processRun, ct_stageId = stageId, ct_attempt = attempt,
               ct_idempotencyKey = idempotencyKey, ct_inputDigest = inputDigest, ct_binding = binding,
               ct_subject = pr_subject processRun, ct_leaseOwnerId = op_workerId opts,
               ct_leaseToken = leaseToken, ct_leaseGeneration = 0, ct_leaseExpiresAt = leaseExpiresAt,
               ct_logicalTime = logicalTime\<rparr>)) (\<lambda>created.
           bindS (createTaskRun created) (\<lambda>ok.
             if \<not> ok then liftE (conflict ''task run changed while it was being claimed'')
             else retS (created, True)))
       | Some taskRun \<Rightarrow>
           bindS (liftE (validateTaskRunV1 taskRun)) (\<lambda>taskRun.
             if tr_processRunId taskRun \<noteq> pr_runId processRun \<or> tr_stageId taskRun \<noteq> stageId
               \<or> tr_attempt taskRun \<noteq> attempt \<or> tr_idempotencyKey taskRun \<noteq> idempotencyKey
               \<or> tr_inputDigest taskRun \<noteq> inputDigest
               \<or> eb_bindingDigest (tr_binding taskRun) \<noteq> eb_bindingDigest binding
             then liftE (conflict ''task run replay binding changed'')
             else retS (taskRun, False)))"

text \<open>
  The lease under which the attempt will run: the new one, the worker's own unexpired claim, or
  the one taken over. \<open>Inl\<close> is an early return.
\<close>

record lease =
  ls_generation :: int
  ls_token :: string
  ls_expiresAt :: string

definition hold_lease ::
  "'w options \<Rightarrow> string \<Rightarrow> string \<Rightarrow> task_run \<Rightarrow> (workflow_store, task_result + (task_run \<times> lease)) comp" where
  "hold_lease opts taskRunId logicalTime taskRun =
     (if js_le (date_parse (tr_leaseExpiresAt taskRun)) (date_parse logicalTime)
      then
        let generation = tr_leaseGeneration taskRun + 1 in
        bindS (liftE (taskLeaseToken (op_workerId opts) taskRunId generation)) (\<lambda>leaseToken.
        bindS (liftE (addMilliseconds logicalTime (op_taskLeaseDurationMs opts))) (\<lambda>leaseExpiresAt.
        bindS (liftE (takeOverExpiredTaskRunV1 taskRun (op_workerId opts) leaseToken logicalTime leaseExpiresAt))
          (\<lambda>taken.
        bindS (compareAndSetTaskRun (tr_revision taskRun) (tr_stateDigest taskRun) taken) (\<lambda>ok.
          if \<not> ok then retS (Inl (TaskInFlight ''task_lease_takeover_lost''))
          else retS (Inr (taken, \<lparr>ls_generation = generation, ls_token = leaseToken,
                 ls_expiresAt = leaseExpiresAt\<rparr>))))))
      else if tr_leaseOwnerId taskRun \<noteq> op_workerId opts \<or> tr_status taskRun = TRRunning
      then retS (Inl (TaskInFlight ''task_attempt_in_flight''))
      else retS (Inr (taskRun, \<lparr>ls_generation = tr_leaseGeneration taskRun,
             ls_token = tr_leaseToken taskRun, ls_expiresAt = tr_leaseExpiresAt taskRun\<rparr>)))"

subsection \<open>Running\<close>

definition saveTaskTransition :: "task_run \<Rightarrow> task_run \<Rightarrow> (workflow_store, unit) comp" where
  "saveTaskTransition current next =
     bindS (compareAndSetTaskRun (tr_revision current) (tr_stateDigest current) next) (\<lambda>ok.
       liftE (if ok then Inr () else conflict ''task run changed concurrently''))"

definition heartbeat :: "'w options \<Rightarrow> string \<Rightarrow> string \<Rightarrow> string \<Rightarrow> string \<Rightarrow> (workflow_store, bool) comp" where
  "heartbeat opts tenantId taskRunId leaseToken logicalTime =
     bindS (getTaskRun tenantId taskRunId) (\<lambda>retained.
       case retained of
         None \<Rightarrow> retS False
       | Some current \<Rightarrow>
           if tr_status current \<notin> {TRClaimed, TRRunning} \<or> tr_leaseToken current \<noteq> leaseToken
             \<or> js_lt (date_parse (tr_leaseExpiresAt current)) (date_parse logicalTime)
           then retS False
           else case bindE (addMilliseconds logicalTime (op_taskLeaseDurationMs opts))
                  (heartbeatTaskRunV1 current leaseToken logicalTime) of
             Inl e \<Rightarrow> retS False
           | Inr next \<Rightarrow> compareAndSetTaskRun (tr_revision current) (tr_stateDigest current) next)"

definition executor_error :: "task_definition \<Rightarrow> task_result" where
  "executor_error taskDefinition =
     (if td_effectClass taskDefinition = ProtectedExternal
      then TaskIndeterminate ''protected_task_executor_error'' None
      else TaskFailed ''task_executor_error'' (Some False) None)"

definition execute_port ::
  "'w executor \<Rightarrow> (string \<Rightarrow> ('w rstate, bool) comp) \<Rightarrow> task_request \<Rightarrow> ('w rstate, task_result) comp" where
  "execute_port executor hb request sw =
     (case executor hb request sw of
        (None, sw') \<Rightarrow> (Inr (executor_error (rq_taskDefinition request)), sw')
      | (Some result, sw') \<Rightarrow> (Inr result, sw'))"

subsection \<open>Settling\<close>

text \<open>What is returned when the run left \<open>running\<close> while the executor worked.\<close>

definition foreign_result :: "task_run \<Rightarrow> task_result" where
  "foreign_result latest = (case tr_status latest of
     TRCompleted \<Rightarrow> TaskCompleted None (if_present (tr_resultReference latest))
       (if_present (tr_resultDigest latest)) (tr_usage latest)
   | TRIndeterminate \<Rightarrow> TaskIndeterminate (nullish (tr_reasonCode latest) ''task_effect_indeterminate'') None
   | _ \<Rightarrow> TaskFailed (nullish (tr_reasonCode latest) ''task_attempt_not_running'')
       (Some (tr_retryable latest = Some True)) None)"

text \<open>The digest of an inline result is computed; a different claimed digest makes the effect indeterminate.\<close>

definition check_result :: "task_result \<Rightarrow> task_result res" where
  "check_result result = (case result of
     TaskCompleted (Some v) ref dg usage \<Rightarrow>
       if json_truthy v then
         bindE (digestWorkflowJsonV1 ''task-result'' v) (\<lambda>computed.
           if truthy dg \<and> dg \<noteq> Some computed
           then Inr (TaskIndeterminate ''task_result_digest_mismatch'' usage)
           else Inr (TaskCompleted (Some v) ref (Some computed) usage))
       else Inr result
   | _ \<Rightarrow> Inr result)"

definition settlement_input :: "task_result \<Rightarrow> string \<Rightarrow> transition_input" where
  "settlement_input result logicalTime = (case result of
     TaskCompleted _ ref dg usage \<Rightarrow> \<lparr>ti_status = TRCompleted, ti_logicalTime = logicalTime,
       ti_reasonCode = None, ti_retryable = None, ti_usage = usage,
       ti_resultReference = if_present ref, ti_resultDigest = if_present dg\<rparr>
   | TaskFailed reason retryable usage \<Rightarrow> \<lparr>ti_status = TRFailed, ti_logicalTime = logicalTime,
       ti_reasonCode = Some reason, ti_retryable = retryable, ti_usage = usage,
       ti_resultReference = None, ti_resultDigest = None\<rparr>
   | TaskIndeterminate reason usage \<Rightarrow> \<lparr>ti_status = TRIndeterminate, ti_logicalTime = logicalTime,
       ti_reasonCode = Some reason, ti_retryable = None, ti_usage = usage,
       ti_resultReference = None, ti_resultDigest = None\<rparr>
   | TaskInFlight reason \<Rightarrow> \<lparr>ti_status = TRRunning, ti_logicalTime = logicalTime,
       ti_reasonCode = Some reason, ti_retryable = None, ti_usage = None,
       ti_resultReference = None, ti_resultDigest = None\<rparr>)"

definition is_in_flight :: "task_result \<Rightarrow> bool" where
  "is_in_flight result = (case result of TaskInFlight _ \<Rightarrow> True | _ \<Rightarrow> False)"

definition settleTask ::
  "string \<Rightarrow> string \<Rightarrow> lease \<Rightarrow> string \<Rightarrow> task_result \<Rightarrow> (workflow_store, task_result) comp" where
  "settleTask tenantId taskRunId lease logicalTime result =
     bindS (getTaskRun tenantId taskRunId) (\<lambda>retained.
       case retained of
         None \<Rightarrow> liftE (conflict ''task run disappeared before settlement'')
       | Some latest \<Rightarrow>
           if tr_leaseToken latest \<noteq> ls_token lease \<or> tr_leaseGeneration latest \<noteq> ls_generation lease
           then retS (TaskInFlight ''task_lease_lost'')
           else if tr_status latest \<noteq> TRRunning then retS (foreign_result latest)
           else if is_in_flight result then retS result
           else
             let settlementLogicalTime = (if logicalTime < tr_updatedAt latest then tr_updatedAt latest
                   else logicalTime)
             in bindS (liftE (check_result result)) (\<lambda>checked.
                bindS (liftE (transitionTaskRunV1 latest (settlement_input checked settlementLogicalTime)))
                  (\<lambda>settled.
                bindS (saveTaskTransition latest settled) (\<lambda>_. retS checked))))"

subsection \<open>The whole attempt\<close>

definition choose_executor :: "'w options \<Rightarrow> task_definition \<Rightarrow> string \<Rightarrow> 'w executor res" where
  "choose_executor opts taskDefinition stageId =
     (if td_effectClass taskDefinition = ProtectedExternal
      then case op_protectedTaskExecutor opts of
             None \<Rightarrow> fail (''protected task executor is required for stage '' @ stageId)
           | Some e \<Rightarrow> Inr e
      else case op_taskExecutor opts of
             None \<Rightarrow> fail (''task executor is required for stage '' @ stageId)
           | Some e \<Rightarrow> Inr e)"

definition resolve_binding ::
  "'w options \<Rightarrow> process_run \<Rightarrow> process_stage \<Rightarrow> task_definition \<Rightarrow> ('w rstate, binding_input option) comp" where
  "resolve_binding opts processRun stage taskDefinition sw =
     (case op_taskBindingResolver opts of
        None \<Rightarrow> (Inr (Some no_binding_input), sw)
      | Some resolver \<Rightarrow>
          (case resolver \<lparr>bq_tenantId = pr_tenantId processRun, bq_runId = pr_runId processRun,
                bq_stage = stage, bq_taskDefinition = taskDefinition,
                bq_processInput = pr_input processRun\<rparr> sw of
             (b, sw') \<Rightarrow> (Inr b, sw')))"

definition run_attempt ::
  "'w options \<Rightarrow> 'w executor \<Rightarrow> process_run \<Rightarrow> process_stage \<Rightarrow> task_definition \<Rightarrow> int \<Rightarrow> string \<Rightarrow> string
    \<Rightarrow> execution_binding \<Rightarrow> string \<Rightarrow> task_run \<Rightarrow> lease \<Rightarrow> ('w rstate, task_result) comp" where
  "run_attempt opts executor processRun stage taskDefinition attempt taskRunId idempotencyKey binding
      logicalTime taskRun lease =
     bindS (liftE (transitionTaskRunV1 taskRun \<lparr>ti_status = TRRunning, ti_logicalTime = logicalTime,
       ti_reasonCode = None, ti_retryable = None, ti_usage = None,
       ti_resultReference = None, ti_resultDigest = None\<rparr>)) (\<lambda>running.
     bindS (onStore (saveTaskTransition taskRun running)) (\<lambda>_.
     bindS (execute_port executor
         (\<lambda>t. onStore (heartbeat opts (pr_tenantId processRun) taskRunId (ls_token lease) t))
         \<lparr>rq_tenantId = pr_tenantId processRun, rq_runId = pr_runId processRun, rq_stage = stage,
          rq_taskDefinition = taskDefinition, rq_attempt = attempt, rq_taskRunId = taskRunId,
          rq_idempotencyKey = idempotencyKey, rq_binding = binding,
          rq_processInput = pr_input processRun, rq_leaseOwnerId = op_workerId opts,
          rq_leaseToken = ls_token lease, rq_leaseGeneration = ls_generation lease,
          rq_leaseExpiresAt = ls_expiresAt lease\<rparr>) (\<lambda>result.
     onStore (settleTask (pr_tenantId processRun) taskRunId lease logicalTime result))))"

definition executeTask ::
  "'w options \<Rightarrow> process_run \<Rightarrow> process_stage \<Rightarrow> task_definition \<Rightarrow> int \<Rightarrow> string \<Rightarrow> string
    \<Rightarrow> ('w rstate, task_result) comp" where
  "executeTask opts processRun stage taskDefinitionInput attempt taskRunId logicalTime =
     bindS (liftE (validateTaskDefinitionV1 taskDefinitionInput)) (\<lambda>taskDefinition.
     bindS (liftE (choose_executor opts taskDefinition (st_stageId stage))) (\<lambda>executor.
     bindS (resolve_binding opts processRun stage taskDefinition) (\<lambda>resolved.
       case resolved of
         None \<Rightarrow> retS (TaskFailed ''task_binding_error'' (Some False) None)
       | Some bindingInput \<Rightarrow>
           bindS (liftE (createTaskExecutionBindingV1 taskDefinition bindingInput)) (\<lambda>binding.
           let idempotencyKey = task_idempotencyKey (pr_tenantId processRun) (pr_runId processRun)
                 (st_stageId stage) attempt
           in
           bindS (liftE (task_inputDigest processRun (st_stageId stage) attempt)) (\<lambda>inputDigest.
           bindS (liftE (taskLeaseToken (op_workerId opts) taskRunId 0)) (\<lambda>leaseToken.
           bindS (liftE (addMilliseconds logicalTime (op_taskLeaseDurationMs opts))) (\<lambda>leaseExpiresAt.
           bindS (onStore (claim_run opts processRun (st_stageId stage) attempt taskRunId idempotencyKey
               binding inputDigest leaseToken leaseExpiresAt logicalTime)) (\<lambda>(taskRun, createdHere).
             case settled_result taskRun of
               Some result \<Rightarrow> retS result
             | None \<Rightarrow>
                 bindS (if createdHere
                   then retS (Inr (taskRun, \<lparr>ls_generation = 0, ls_token = leaseToken,
                     ls_expiresAt = leaseExpiresAt\<rparr>))
                   else onStore (hold_lease opts taskRunId logicalTime taskRun)) (\<lambda>held.
                   case held of
                     Inl early \<Rightarrow> retS early
                   | Inr (taskRun', lease) \<Rightarrow>
                       run_attempt opts executor processRun stage taskDefinition attempt taskRunId
                         idempotencyKey binding logicalTime taskRun' lease)))))))))"

end
