(* ===== verification/WfRunner.thy ===== *)
theory WfRunner
  imports WfExecution
begin

text \<open>
  \<open>InMemoryProcessRunnerV1\<close> and \<open>InMemoryProcessWorkerV1\<close> of
  \<open>packages/workflows/src/v1-runtime.ts\<close>: one transition of a run, the bounded loop of
  transitions with its single commit, the four idempotent operations (start, signal, cancel,
  advance) and the worker. \<open>#withLock\<close> serialises the operations on a run, so an operation
  here is one computation over the store and the world; other workers interfere through the ports.
\<close>

subsection \<open>One transition\<close>

definition matchingSignal ::
  "'w options \<Rightarrow> process_run \<Rightarrow> string \<Rightarrow> string option \<Rightarrow> workflow_store \<Rightarrow> process_signal option" where
  "matchingSignal opts run signalType correlationKey s =
     (let consumed = {i. Some i \<in> set (filter truthy (map ss_consumedSignalId (pr_stageStates run)))}
      in find (\<lambda>signal. sg_signalId signal \<notin> consumed \<and> sg_signalType signal = signalType
             \<and> correlationKey = sg_correlationKey signal)
           (listSignals (op_localeCompare opts) (pr_tenantId run) (pr_runId run) s))"

definition resolveGate ::
  "'w options \<Rightarrow> process_run \<Rightarrow> process_stage \<Rightarrow> string \<Rightarrow> ('w rstate, gate_result) comp" where
  "resolveGate opts run stage logicalTime =
     (case op_gateProvider opts of
        None \<Rightarrow> liftE (fail (''gate provider is required for stage '' @ st_stageId stage))
      | Some provider \<Rightarrow>
          bindS (liftE (mutableState run (st_stageId stage))) (\<lambda>state sw.
            case provider \<lparr>gq_tenantId = pr_tenantId run, gq_runId = pr_runId run,
                gq_stageId = st_stageId stage, gq_gateType = gate_type (st_kind stage),
                gq_gateDefinitionId = gate_definitionId (st_kind stage),
                gq_configuration = gate_configuration (st_kind stage), gq_processInput = pr_input run,
                gq_requestedAt = (case ss_startedAt state of None \<Rightarrow> logicalTime | Some t \<Rightarrow> t),
                gq_expiresAt = ss_waitUntil state, gq_logicalTime = logicalTime\<rparr> sw of
              (Some r, sw') \<Rightarrow> (Inr r, sw')
            | (None, sw') \<Rightarrow> (Inr \<lparr>gr_status = GFailed,
                gr_gateRequestId = ''unavailable:'' @ pr_runId run @ '':'' @ st_stageId stage,
                gr_reasonCode = Some ''gate_provider_error''\<rparr>, sw')))"

fun gate_outcome :: "gate_status \<Rightarrow> stage_outcome" where
  "gate_outcome GApproved = Approved"
| "gate_outcome GRejected = Rejected"
| "gate_outcome GExpired = Expired"
| "gate_outcome GFailed = Failed"
| "gate_outcome GWaiting = Expired"

text \<open>\<open>if (n)\<close> for an optional number.\<close>

definition number_truthy :: "int option \<Rightarrow> bool" where
  "number_truthy n = (case n of None \<Rightarrow> False | Some k \<Rightarrow> k \<noteq> 0)"

definition nullish_set :: "string option \<Rightarrow> string \<Rightarrow> string option" where
  "nullish_set v t = (case v of None \<Rightarrow> Some t | Some s \<Rightarrow> Some s)"

definition stored_task_definition :: "process_run \<Rightarrow> process_stage \<Rightarrow> ('w rstate, task_definition) comp" where
  "stored_task_definition run stage =
     bindS (getsS (\<lambda>(s, w). getTaskDefinition (pr_tenantId run) (task_definitionId (st_kind stage))
         (task_definitionVersion (st_kind stage)) s)) (\<lambda>d.
       liftE (case d of None \<Rightarrow> fail (''task definition is required for stage '' @ st_stageId stage)
         | Some td \<Rightarrow> Inr td))"

text \<open>A visited stage yields the new draft and \<open>None\<close> to go on to the next stage.\<close>

type_synonym 'w visit = "('w rstate, bool option \<times> process_run) comp"

text \<open>Applies a task result to the stage and moves the compensation queue.\<close>

definition settle_stage :: "process_run \<Rightarrow> process_stage \<Rightarrow> task_result \<Rightarrow> string \<Rightarrow> (bool \<times> process_run) res" where
  "settle_stage run stage result logicalTime =
     bindE (mutableState run (st_stageId stage)) (\<lambda>state.
       let (changed, state') = applyTaskResult stage result logicalTime state
       in Inr (changed, advanceCompensationQueue stage state'
            (set_state (st_stageId stage) (\<lambda>_. state') run)))"

definition visit_waiting_task ::
  "'w options \<Rightarrow> process_run \<Rightarrow> process_stage \<Rightarrow> stage_state \<Rightarrow> string \<Rightarrow> 'w visit" where
  "visit_waiting_task opts run stage state logicalTime =
     (if \<not> truthy (ss_taskRunId state) then retS (None, run)
      else bindS (stored_task_definition run stage) (\<lambda>taskDefinition.
           bindS (executeTask opts run stage taskDefinition (ss_attempt state) (the (ss_taskRunId state)) logicalTime)
             (\<lambda>result.
           bindS (liftE (settle_stage run stage result logicalTime)) (\<lambda>(changed, run').
             retS (Some changed, run')))))"

definition visit_waiting_signal ::
  "'w options \<Rightarrow> process_run \<Rightarrow> process_stage \<Rightarrow> stage_state \<Rightarrow> string \<Rightarrow> 'w visit" where
  "visit_waiting_signal opts run stage state logicalTime =
     bindS (getsS (\<lambda>(s, w). matchingSignal opts run (await_signalType (st_kind stage))
         (await_correlationKey (st_kind stage)) s)) (\<lambda>signal.
       case signal of
         Some sg \<Rightarrow> retS (Some True, set_state (st_stageId stage)
           (\<lambda>s. terminal SignalReceived logicalTime None (s\<lparr>ss_consumedSignalId := Some (sg_signalId sg)\<rparr>)) run)
       | None \<Rightarrow>
           if number_truthy (st_timeoutMs stage) \<and> reached logicalTime (ss_waitUntil state)
           then retS (Some True, set_state (st_stageId stage) (terminal TimedOut logicalTime None) run)
           else retS (None, run))"

definition visit_waiting_gate ::
  "'w options \<Rightarrow> process_run \<Rightarrow> process_stage \<Rightarrow> stage_state \<Rightarrow> string \<Rightarrow> 'w visit" where
  "visit_waiting_gate opts run stage state logicalTime =
     bindS (resolveGate opts run stage logicalTime) (\<lambda>resolved.
       if number_truthy (gate_expiresInMs (st_kind stage)) \<and> reached logicalTime (ss_waitUntil state)
       then retS (Some True, set_state (st_stageId stage)
         (\<lambda>s. terminal (if gr_status resolved \<in> {GApproved, GRejected, GExpired}
               then gate_outcome (gr_status resolved) else Expired) logicalTime
             (if gr_status resolved = GFailed then Some ''gate_provider_unavailable_at_expiry''
              else gr_reasonCode resolved)
             (s\<lparr>ss_gateRequestId := Some (gr_gateRequestId resolved)\<rparr>)) run)
       else if gr_status resolved \<noteq> GWaiting
       then retS (Some True, set_state (st_stageId stage)
         (\<lambda>s. terminal (gate_outcome (gr_status resolved)) logicalTime (gr_reasonCode resolved)
             (s\<lparr>ss_gateRequestId := Some (gr_gateRequestId resolved)\<rparr>)) run)
       else retS (None, run))"

definition visit_waiting ::
  "'w options \<Rightarrow> process_run \<Rightarrow> process_stage \<Rightarrow> stage_state \<Rightarrow> string \<Rightarrow> 'w visit" where
  "visit_waiting opts run stage state logicalTime = (case st_kind stage of
     TaskStage _ _ _ _ \<Rightarrow> visit_waiting_task opts run stage state logicalTime
   | WaitStage _ \<Rightarrow>
       if reached logicalTime (ss_waitUntil state)
       then retS (Some True, set_state (st_stageId stage) (terminal Succeeded logicalTime None) run)
       else retS (None, run)
   | AwaitSignalStage _ _ \<Rightarrow> visit_waiting_signal opts run stage state logicalTime
   | GateStage _ _ _ _ \<Rightarrow> visit_waiting_gate opts run stage state logicalTime)"

definition visit_ready_signal ::
  "'w options \<Rightarrow> process_run \<Rightarrow> process_stage \<Rightarrow> string \<Rightarrow> 'w visit" where
  "visit_ready_signal opts run stage logicalTime =
     bindS (getsS (\<lambda>(s, w). matchingSignal opts run (await_signalType (st_kind stage))
         (await_correlationKey (st_kind stage)) s)) (\<lambda>signal.
       case signal of
         Some sg \<Rightarrow> retS (Some True, set_state (st_stageId stage)
           (\<lambda>s. terminal SignalReceived logicalTime None (s\<lparr>ss_consumedSignalId := Some (sg_signalId sg),
               ss_startedAt := nullish_set (ss_startedAt s) logicalTime\<rparr>)) run)
       | None \<Rightarrow>
           bindS (liftE (if number_truthy (st_timeoutMs stage)
               then bindE (addMilliseconds logicalTime (the (st_timeoutMs stage))) (\<lambda>t. Inr (Some t))
               else Inr None)) (\<lambda>until.
             retS (Some True, set_state (st_stageId stage)
               (\<lambda>s. s\<lparr>ss_status := Waiting, ss_startedAt := nullish_set (ss_startedAt s) logicalTime,
                  ss_waitUntil := (case until of None \<Rightarrow> ss_waitUntil s | Some t \<Rightarrow> Some t)\<rparr>) run)))"

definition visit_ready_gate ::
  "'w options \<Rightarrow> process_run \<Rightarrow> process_stage \<Rightarrow> stage_state \<Rightarrow> string \<Rightarrow> 'w visit" where
  "visit_ready_gate opts run stage state logicalTime =
     bindS (liftE (if number_truthy (gate_expiresInMs (st_kind stage)) \<and> ss_waitUntil state = None
         then bindE (addMilliseconds logicalTime (the (gate_expiresInMs (st_kind stage)))) (\<lambda>t. Inr (Some t))
         else Inr (ss_waitUntil state))) (\<lambda>until.
     let run1 = set_state (st_stageId stage)
           (\<lambda>s. s\<lparr>ss_startedAt := nullish_set (ss_startedAt s) logicalTime, ss_waitUntil := until\<rparr>) run
     in bindS (resolveGate opts run1 stage logicalTime) (\<lambda>resolved.
          retS (Some True, set_state (st_stageId stage)
            (\<lambda>s. let s1 = s\<lparr>ss_gateRequestId := Some (gr_gateRequestId resolved)\<rparr>
                 in if gr_status resolved = GWaiting then s1\<lparr>ss_status := Waiting\<rparr>
                    else terminal (gate_outcome (gr_status resolved)) logicalTime (gr_reasonCode resolved) s1)
            run1)))"

definition stage_taskRunId :: "string \<Rightarrow> string \<Rightarrow> int \<Rightarrow> string" where
  "stage_taskRunId runId stageId attempt = runId @ '':'' @ stageId @ '':'' @ show_int attempt"

definition visit_ready_task ::
  "'w options \<Rightarrow> process_run \<Rightarrow> process_stage \<Rightarrow> stage_state \<Rightarrow> string \<Rightarrow> 'w visit" where
  "visit_ready_task opts run stage state logicalTime =
     bindS (stored_task_definition run stage) (\<lambda>taskDefinition.
     bindS (liftE (validateTaskDefinitionV1 taskDefinition)) (\<lambda>_.
     let attempt = ss_attempt state + 1;
         taskRunId = stage_taskRunId (pr_runId run) (st_stageId stage) attempt;
         run1 = set_state (st_stageId stage) (\<lambda>s. s\<lparr>ss_status := Running,
           ss_startedAt := nullish_set (ss_startedAt s) logicalTime, ss_attempt := attempt,
           ss_taskRunId := Some taskRunId\<rparr>) run
     in bindS (executeTask opts run1 stage taskDefinition attempt taskRunId logicalTime) (\<lambda>result.
        bindS (liftE (settle_stage run1 stage result logicalTime)) (\<lambda>(changed, run').
          retS (Some True, run')))))"

definition visit_ready ::
  "'w options \<Rightarrow> process_run \<Rightarrow> process_stage \<Rightarrow> stage_state \<Rightarrow> string \<Rightarrow> 'w visit" where
  "visit_ready opts run stage state logicalTime = (case st_kind stage of
     WaitStage durationMs \<Rightarrow>
       bindS (liftE (addMilliseconds logicalTime durationMs)) (\<lambda>until.
         retS (Some True, set_state (st_stageId stage) (\<lambda>s. s\<lparr>ss_status := Waiting,
           ss_startedAt := nullish_set (ss_startedAt s) logicalTime, ss_waitUntil := Some until\<rparr>) run))
   | AwaitSignalStage _ _ \<Rightarrow> visit_ready_signal opts run stage logicalTime
   | GateStage _ _ _ _ \<Rightarrow> visit_ready_gate opts run stage state logicalTime
   | TaskStage _ _ _ _ \<Rightarrow> visit_ready_task opts run stage state logicalTime)"

definition visit_stage :: "'w options \<Rightarrow> process_run \<Rightarrow> process_stage \<Rightarrow> string \<Rightarrow> 'w visit" where
  "visit_stage opts run stage logicalTime =
     bindS (liftE (mutableState run (st_stageId stage))) (\<lambda>state.
       if ss_status state = Waiting then visit_waiting opts run stage state logicalTime
       else if ss_status state = Ready then visit_ready opts run stage state logicalTime
       else retS (None, run))"

fun visit_stages :: "'w options \<Rightarrow> process_run \<Rightarrow> string \<Rightarrow> process_stage list \<Rightarrow> ('w rstate, bool \<times> process_run) comp" where
  "visit_stages opts run logicalTime [] = retS (False, run)"
| "visit_stages opts run logicalTime (stage # stages) =
     bindS (visit_stage opts run stage logicalTime) (\<lambda>(result, run').
       case result of
         Some changed \<Rightarrow> retS (changed, run')
       | None \<Rightarrow> visit_stages opts run' logicalTime stages)"

text \<open>A canceled run unblocks the first pending compensation.\<close>

definition ready_compensation :: "process_run \<Rightarrow> process_run res" where
  "ready_compensation run = (case pr_cancellation run of
     None \<Rightarrow> Inr run
   | Some cancellation \<Rightarrow>
       (case cn_pendingCompensationStageIds cancellation of
          [] \<Rightarrow> Inr run
        | i # _ \<Rightarrow>
            if i = [] then Inr run
            else bindE (mutableState run i) (\<lambda>state.
              Inr (if ss_status state = Blocked then set_state i (\<lambda>s. s\<lparr>ss_status := Ready\<rparr>) run else run))))"

definition transitionOne ::
  "'w options \<Rightarrow> process_definition \<Rightarrow> process_run \<Rightarrow> string \<Rightarrow> ('w rstate, bool \<times> process_run) comp" where
  "transitionOne opts definition run logicalTime =
     bindS (liftE (ready_compensation run)) (\<lambda>run1.
       visit_stages opts run1 logicalTime (pd_stages definition))"

subsection \<open>The bounded loop and its commit\<close>

definition commitDraft :: "process_run \<Rightarrow> process_run \<Rightarrow> string \<Rightarrow> (workflow_store, process_run) comp" where
  "commitDraft current draft logicalTime =
     bindS (liftE (finalizeRun draft (pr_revision current + 1) logicalTime)) (\<lambda>next.
     bindS (compareAndSetProcessRun (pr_revision current) (pr_stateDigest current) next) (\<lambda>ok.
       if \<not> ok then liftE (conflict ''process run changed concurrently'') else retS next))"

definition settle_draft :: "process_definition \<Rightarrow> string \<Rightarrow> process_run \<Rightarrow> process_run res" where
  "settle_draft definition logicalTime run =
     bindE (activateStages definition logicalTime run) (settleRunStatus definition)"

text \<open>The number of rounds left is the bound of the loop itself.\<close>

fun transition_loop ::
  "'w options \<Rightarrow> process_definition \<Rightarrow> string \<Rightarrow> nat \<Rightarrow> process_run \<Rightarrow> ('w rstate, process_run) comp" where
  "transition_loop opts definition logicalTime 0 run = retS run"
| "transition_loop opts definition logicalTime (Suc n) run =
     (if terminalRun (pr_status run) then retS run
      else bindS (transitionOne opts definition run logicalTime) (\<lambda>(changed, run').
        if \<not> changed then retS run'
        else bindS (liftE (settle_draft definition logicalTime run'))
          (transition_loop opts definition logicalTime n)))"

definition run_expired :: "process_definition \<Rightarrow> process_run \<Rightarrow> string \<Rightarrow> bool" where
  "run_expired definition current logicalTime =
     (case (date_parse logicalTime, date_parse (pr_createdAt current)) of
        (Some now, Some created) \<Rightarrow> now - created > maximumRunDurationMs (pd_limits definition)
      | _ \<Rightarrow> False)"

definition expire_draft :: "process_run \<Rightarrow> string \<Rightarrow> process_run" where
  "expire_draft draft logicalTime = draft\<lparr>
     pr_status := RFailed,
     pr_stageStates := map (\<lambda>s. if ss_status s \<noteq> Terminal
       then terminal TimedOut logicalTime (Some ''process_duration_exceeded'') s else s) (pr_stageStates draft)\<rparr>"

definition advanceCurrent ::
  "'w options \<Rightarrow> process_definition \<Rightarrow> process_run \<Rightarrow> string \<Rightarrow> int \<Rightarrow> bool
    \<Rightarrow> ('w rstate, process_run) comp" where
  "advanceCurrent opts definition current logicalTime maximumTransitions forceCommit =
     (if terminalRun (pr_status current) then retS current
      else if run_expired definition current logicalTime
      then onStore (commitDraft current (expire_draft current logicalTime) logicalTime)
      else bindS (transition_loop opts definition logicalTime (nat maximumTransitions) current) (\<lambda>draft.
           bindS (liftE (settle_draft definition logicalTime draft)) (\<lambda>draft'.
           bindS (liftE (if forceCommit then Inr False else sameRunBody current draft')) (\<lambda>same.
             if same then retS current
             else onStore (commitDraft current draft' logicalTime)))))"

subsection \<open>Operations\<close>

definition storedRun :: "string \<Rightarrow> string \<Rightarrow> ('w rstate, process_run) comp" where
  "storedRun tenantId runId =
     bindS (getsS (\<lambda>(s, w). getProcessRun tenantId runId s)) (\<lambda>run.
       liftE (case run of None \<Rightarrow> fail ''process run was not found'' | Some r \<Rightarrow> validateProcessRunV1 r))"

definition storedDefinition :: "string \<Rightarrow> string \<Rightarrow> string \<Rightarrow> ('w rstate, process_definition) comp" where
  "storedDefinition tenantId processId processVersion =
     bindS (getsS (\<lambda>(s, w). getProcessDefinition tenantId processId processVersion s)) (\<lambda>d.
       liftE (case d of None \<Rightarrow> fail ''process definition was not found''
         | Some definition \<Rightarrow> validateProcessDefinitionV1 definition))"

definition replayOperation ::
  "string \<Rightarrow> operation_kind \<Rightarrow> string \<Rightarrow> string \<Rightarrow> string \<Rightarrow> ('w rstate, operation_result option) comp" where
  "replayOperation tenantId operationKind idempotencyKey requestDigest runId =
     bindS (getsS (\<lambda>(s, w). getOperation tenantId operationKind idempotencyKey s)) (\<lambda>existing.
       case existing of
         None \<Rightarrow> retS None
       | Some r \<Rightarrow>
           if op_requestDigest r \<noteq> requestDigest \<or> op_runId r \<noteq> runId
           then liftE (conflict ''workflow idempotency identity conflicts with retained request'')
           else bindS (storedRun tenantId runId) (\<lambda>run.
             retS (Some \<lparr>or_disposition = Replayed, or_run = run\<rparr>)))"

definition assertOperationCapacity :: "process_definition \<Rightarrow> string \<Rightarrow> string \<Rightarrow> ('w rstate, unit) comp" where
  "assertOperationCapacity definition tenantId runId =
     bindS (getsS (\<lambda>(s, w). countOperations tenantId runId s)) (\<lambda>n.
       liftE (require (\<not> maximumRetainedOperations (pd_limits definition) \<le> n)
         ''workflow retained operation limit exceeded''))"

definition preflight_stage :: "'w options \<Rightarrow> string \<Rightarrow> process_stage \<Rightarrow> workflow_store \<Rightarrow> unit res" where
  "preflight_stage opts tenantId stage s =
     (if \<not> is_task stage then Inr ()
      else case getTaskDefinition tenantId (task_definitionId (st_kind stage))
          (task_definitionVersion (st_kind stage)) s of
        None \<Rightarrow> fail (''task definition is required for stage '' @ st_stageId stage)
      | Some taskDefinition \<Rightarrow>
          bindE (validateTaskDefinitionV1 taskDefinition) (\<lambda>validated. seqE [
            require (\<not> (td_effectClass validated = ProtectedExternal \<and> op_protectedTaskExecutor opts = None))
              (''protected task executor is required for stage '' @ st_stageId stage),
            require (\<not> (td_effectClass validated = Internal \<and> op_taskExecutor opts = None))
              (''task executor is required for stage '' @ st_stageId stage)]))"

definition preflightDefinition :: "'w options \<Rightarrow> string \<Rightarrow> process_definition \<Rightarrow> ('w rstate, unit) comp" where
  "preflightDefinition opts tenantId definition =
     bindS (liftE (require (\<not> (list_ex (\<lambda>s. case st_kind s of GateStage _ _ _ _ \<Rightarrow> True | _ \<Rightarrow> False)
         (pd_stages definition) \<and> op_gateProvider opts = None))
       ''gate provider is required by the process definition'')) (\<lambda>_ sw.
     case sw of (s, w) \<Rightarrow> (seqE (map (\<lambda>stage. preflight_stage opts tenantId stage s) (pd_stages definition)), sw))"

text \<open>The record of the operation is written last; the run is returned as applied.\<close>

definition finish_operation ::
  "string \<Rightarrow> operation_kind \<Rightarrow> string \<Rightarrow> string \<Rightarrow> string \<Rightarrow> process_run \<Rightarrow> ('w rstate, operation_result) comp" where
  "finish_operation tenantId kind idempotencyKey requestDigest runId run =
     bindS (onStore (saveOperation \<lparr>op_tenantId = tenantId, op_operationKind = kind,
       op_idempotencyKey = idempotencyKey, op_requestDigest = requestDigest, op_runId = runId\<rparr>)) (\<lambda>_.
     retS \<lparr>or_disposition = Applied, or_run = run\<rparr>)"

text \<open>The frame all four operations share: replay a retained request, else do the work.\<close>

definition idempotent ::
  "string \<Rightarrow> operation_kind \<Rightarrow> string \<Rightarrow> string \<Rightarrow> string \<Rightarrow> ('w rstate, process_run) comp
    \<Rightarrow> ('w rstate, operation_result) comp" where
  "idempotent tenantId kind idempotencyKey requestDigest runId work =
     bindS (replayOperation tenantId kind idempotencyKey requestDigest runId) (\<lambda>replay.
       case replay of
         Some result \<Rightarrow> retS result
       | None \<Rightarrow> bindS work (finish_operation tenantId kind idempotencyKey requestDigest runId))"

definition start_work :: "'w options \<Rightarrow> start_input \<Rightarrow> ('w rstate, process_run) comp" where
  "start_work opts input =
     bindS (storedDefinition (si_tenantId input) (si_processId input) (si_processVersion input)) (\<lambda>definition.
     bindS (assertOperationCapacity definition (si_tenantId input) (si_runId input)) (\<lambda>_.
     bindS (preflightDefinition opts (si_tenantId input) definition) (\<lambda>_.
     bindS (liftE (createInitialProcessRunV1 definition input)) (\<lambda>initial.
     bindS (onStore (createProcessRun initial)) (\<lambda>created.
       if \<not> created then liftE (conflict ''process run already exists'')
       else advanceCurrent opts definition initial (si_logicalTime input)
         (maximumTransitionsPerAdvance (pd_limits definition)) False)))))"

definition start :: "'w options \<Rightarrow> start_input \<Rightarrow> ('w rstate, operation_result) comp" where
  "start opts input =
     bindS (liftE (validateStartInput input)) (\<lambda>_.
     bindS (liftE (digestWorkflowJsonV1 ''start'' (start_input_json input))) (\<lambda>requestDigest.
       idempotent (si_tenantId input) OpStart (si_idempotencyKey input) requestDigest (si_runId input)
         (start_work opts input)))"

text \<open>The current run, its definition and the capacity check that the mutations share.\<close>

definition load_run ::
  "string \<Rightarrow> string \<Rightarrow> string \<Rightarrow> ('w rstate, process_run \<times> process_definition) comp" where
  "load_run tenantId runId logicalTime =
     bindS (storedRun tenantId runId) (\<lambda>current.
     bindS (liftE (assertTimeNotBefore logicalTime (pr_updatedAt current))) (\<lambda>_.
     bindS (storedDefinition (pr_tenantId current) (pr_processId current) (pr_processVersion current))
       (\<lambda>definition.
     bindS (assertOperationCapacity definition tenantId runId) (\<lambda>_.
       retS (current, definition)))))"

text \<open>The byte limit of a signal counts its digest too.\<close>

definition signal_with_digest_json :: "process_signal \<Rightarrow> json" where
  "signal_with_digest_json s = (case signal_json s of
     JObj fs \<Rightarrow> JObj (fs @ [(''signalDigest'', JStr (sg_signalDigest s))]) | v \<Rightarrow> v)"

definition retain_signal ::
  "'w options \<Rightarrow> process_definition \<Rightarrow> signal_input \<Rightarrow> (workflow_store, process_signal) comp" where
  "retain_signal opts definition input =
     (let c = gi_signal input in
     bindS (liftE (createProcessSignalV1 \<lparr>sg_schemaVersion = 1, sg_tenantId = gi_tenantId input,
       sg_runId = gi_runId input, sg_signalId = sc_signalId c, sg_signalType = sc_signalType c,
       sg_correlationKey = sc_correlationKey c, sg_payload = sc_payload c, sg_sourceType = sc_sourceType c,
       sg_sourceId = sc_sourceId c, sg_sourceRevision = sc_sourceRevision c,
       sg_receivedAt = sc_receivedAt c, sg_signalDigest = []\<rparr>)) (\<lambda>signal.
     bindS (liftE (canonicalizeWorkflowJsonV1 (signal_with_digest_json signal))) (\<lambda>text.
     bindS (liftE (require (\<not> maximumSignalBytes (pd_limits definition) < int (length (encode_utf8 text)))
       ''workflow signal exceeds the definition byte limit'')) (\<lambda>_.
     bindS (getsS (listSignals (op_localeCompare opts) (gi_tenantId input) (gi_runId input))) (\<lambda>signals.
     bindS (liftE (require (\<not> (\<not> list_ex (\<lambda>candidate. sg_signalId candidate = sg_signalId signal) signals
         \<and> maximumRetainedSignals (pd_limits definition) \<le> int (length signals)))
       ''workflow retained signal limit exceeded'')) (\<lambda>_.
     bindS (appendSignal signal) (\<lambda>_. retS signal)))))))"

definition cancellation_trigger_for :: "process_definition \<Rightarrow> process_signal \<Rightarrow> cancellation_trigger option" where
  "cancellation_trigger_for definition signal = (case pd_cancellationTriggers definition of
     None \<Rightarrow> None
   | Some ts \<Rightarrow> find (\<lambda>t. trig_signalType t = sg_signalType signal
       \<and> trig_correlationKey t = sg_correlationKey signal) ts)"

definition signal_work :: "'w options \<Rightarrow> signal_input \<Rightarrow> ('w rstate, process_run) comp" where
  "signal_work opts input =
     bindS (load_run (gi_tenantId input) (gi_runId input) (gi_logicalTime input)) (\<lambda>(current, definition).
     bindS (onStore (retain_signal opts definition input)) (\<lambda>signal.
       case cancellation_trigger_for definition signal of
         Some trigger \<Rightarrow>
           if terminalRun (pr_status current)
           then advanceCurrent opts definition current (gi_logicalTime input)
             (maximumTransitionsPerAdvance (pd_limits definition)) False
           else bindS (liftE (cancelDraft definition current (gi_operationId input)
               (trig_reasonCode trigger) (gi_logicalTime input))) (\<lambda>prepared.
             advanceCurrent opts definition prepared (gi_logicalTime input)
               (maximumTransitionsPerAdvance (pd_limits definition)) True)
       | None \<Rightarrow> advanceCurrent opts definition current (gi_logicalTime input)
           (maximumTransitionsPerAdvance (pd_limits definition)) False))"

definition signal :: "'w options \<Rightarrow> signal_input \<Rightarrow> ('w rstate, operation_result) comp" where
  "signal opts input =
     bindS (liftE (seqE [
       validateMutationIdentity (gi_tenantId input) (gi_runId input) (gi_operationId input) (gi_idempotencyKey input),
       timestamp (gi_logicalTime input) ''logicalTime''])) (\<lambda>_.
     bindS (liftE (digestWorkflowJsonV1 ''signal-operation'' (signal_input_json input))) (\<lambda>requestDigest.
       idempotent (gi_tenantId input) OpSignal (gi_idempotencyKey input) requestDigest (gi_runId input)
         (signal_work opts input)))"

definition cancel_work :: "'w options \<Rightarrow> cancel_input \<Rightarrow> ('w rstate, process_run) comp" where
  "cancel_work opts input =
     bindS (load_run (ci_tenantId input) (ci_runId input) (ci_logicalTime input)) (\<lambda>(current, definition).
       if terminalRun (pr_status current) then retS current
       else bindS (liftE (cancelDraft definition current (ci_operationId input) (ci_reasonCode input)
           (ci_logicalTime input))) (\<lambda>prepared.
         advanceCurrent opts definition prepared (ci_logicalTime input)
           (maximumTransitionsPerAdvance (pd_limits definition)) True))"

definition cancel :: "'w options \<Rightarrow> cancel_input \<Rightarrow> ('w rstate, operation_result) comp" where
  "cancel opts input =
     bindS (liftE (seqE [
       validateMutationIdentity (ci_tenantId input) (ci_runId input) (ci_operationId input) (ci_idempotencyKey input),
       token (ci_reasonCode input) ''reasonCode'',
       timestamp (ci_logicalTime input) ''logicalTime''])) (\<lambda>_.
     bindS (liftE (digestWorkflowJsonV1 ''cancel'' (cancel_input_json input))) (\<lambda>requestDigest.
       idempotent (ci_tenantId input) OpCancel (ci_idempotencyKey input) requestDigest (ci_runId input)
         (cancel_work opts input)))"

definition advance_work :: "'w options \<Rightarrow> advance_input \<Rightarrow> ('w rstate, process_run) comp" where
  "advance_work opts input =
     bindS (load_run (ai_tenantId input) (ai_runId input) (ai_logicalTime input)) (\<lambda>(current, definition).
       let limit = maximumTransitionsPerAdvance (pd_limits definition);
           maximum = min (case ai_maximumTransitions input of None \<Rightarrow> limit | Some n \<Rightarrow> n) limit
       in if terminalRun (pr_status current) then retS current
          else advanceCurrent opts definition current (ai_logicalTime input) maximum False)"

definition advance :: "'w options \<Rightarrow> advance_input \<Rightarrow> ('w rstate, operation_result) comp" where
  "advance opts input =
     bindS (liftE (seqE [
       validateMutationIdentity (ai_tenantId input) (ai_runId input) (ai_operationId input) (ai_idempotencyKey input),
       timestamp (ai_logicalTime input) ''logicalTime'',
       optional (ai_maximumTransitions input) (\<lambda>n.
         require (isSafeInteger n \<and> 1 \<le> n) ''maximumTransitions is invalid'')])) (\<lambda>_.
     bindS (liftE (digestWorkflowJsonV1 ''advance'' (advance_input_json input))) (\<lambda>requestDigest.
       idempotent (ai_tenantId input) OpAdvance (ai_idempotencyKey input) requestDigest (ai_runId input)
         (advance_work opts input)))"

definition describe :: "string \<Rightarrow> string \<Rightarrow> ('w rstate, process_run option) comp" where
  "describe tenantId runId =
     bindS (liftE (seqE [token tenantId ''tenantId'', token runId ''runId''])) (\<lambda>_.
     getsS (\<lambda>(s, w). getProcessRun tenantId runId s))"

subsection \<open>The worker\<close>

definition worker_identity :: "process_run \<Rightarrow> string \<Rightarrow> string" where
  "worker_identity run logicalTime =
     ''worker:'' @ pr_runId run @ '':'' @ show_int (pr_revision run) @ '':'' @ logicalTime"

fun worker_loop ::
  "'w options \<Rightarrow> string \<Rightarrow> int option \<Rightarrow> process_run list \<Rightarrow> ('w rstate, string list) comp" where
  "worker_loop opts logicalTime maximum [] = retS []"
| "worker_loop opts logicalTime maximum (run # runs) =
     bindS (advance opts \<lparr>ai_tenantId = pr_tenantId run, ai_runId = pr_runId run,
       ai_operationId = worker_identity run logicalTime, ai_idempotencyKey = worker_identity run logicalTime,
       ai_logicalTime = logicalTime, ai_maximumTransitions = maximum\<rparr>) (\<lambda>result.
     bindS (worker_loop opts logicalTime maximum runs) (\<lambda>rest.
       retS (if pr_revision (or_run result) \<noteq> pr_revision run then pr_runId run # rest else rest)))"

record worker_result =
  wr_inspected :: int
  wr_advancedRunIds :: "string list"

definition runOnce ::
  "'w options \<Rightarrow> bool \<Rightarrow> string option \<Rightarrow> string \<Rightarrow> int option \<Rightarrow> int option \<Rightarrow> ('w rstate, worker_result) comp" where
  "runOnce opts draining tenantId logicalTime limitInput maximumTransitionsPerRun =
     (if draining then retS \<lparr>wr_inspected = 0, wr_advancedRunIds = []\<rparr>
      else let limit = (case limitInput of None \<Rightarrow> 100 | Some n \<Rightarrow> n) in
        bindS (liftE (seqE [
          timestamp logicalTime ''logicalTime'',
          if_truthy tenantId (\<lambda>t. token t ''tenantId''),
          require (isSafeInteger limit \<and> 1 \<le> limit \<and> limit \<le> 1000) ''worker run limit is invalid''])) (\<lambda>_.
        bindS (onStore (listRunnableProcessRuns (op_localeCompare opts) tenantId limit)) (\<lambda>runs.
        bindS (worker_loop opts logicalTime maximumTransitionsPerRun runs) (\<lambda>ids.
          retS \<lparr>wr_inspected = int (length runs), wr_advancedRunIds = ids\<rparr>))))"

text \<open>\<open>drain\<close> sets the flag that \<open>runOnce\<close> reads.\<close>

definition drain :: "bool \<Rightarrow> bool" where
  "drain draining = True"

end
