(* ===== verification/WfInvariants.thy ===== *)
theory WfInvariants
  imports WfRunnerFacts
begin

text \<open>
  Invariants of a draft. \<open>visited\<close> says what visiting one stage may do to a run; the
  locale \<open>draft_invariant\<close> is the contract a predicate on drafts has to meet to survive a
  whole operation, and it is interpreted on the evolution of a run (terminal stages are final),
  on the bound of the attempts, and on the single consumption of signals.
\<close>

subsection \<open>What a visit does\<close>

definition stage_maximumAttempts :: "process_stage \<Rightarrow> int" where
  "stage_maximumAttempts stage = (case st_kind stage of TaskStage _ _ (Some n) _ \<Rightarrow> n | _ \<Rightarrow> 1)"

definition consumed_signals :: "process_run \<Rightarrow> string set" where
  "consumed_signals run = {i. Some i \<in> set (filter truthy (map ss_consumedSignalId (pr_stageStates run)))}"

definition stage_change :: "process_run \<Rightarrow> process_stage \<Rightarrow> stage_state \<Rightarrow> stage_state \<Rightarrow> bool" where
  "stage_change run stage s s' \<longleftrightarrow> ss_stageId s' = ss_stageId s \<and> ss_status s' \<notin> {Blocked, Running}
     \<and> ss_attempt s' = (if is_task stage \<and> ss_status s = Ready then ss_attempt s + 1 else ss_attempt s)
     \<and> (ss_status s' = Ready \<longrightarrow> ss_attempt s' < stage_maximumAttempts stage)
     \<and> (ss_consumedSignalId s' = ss_consumedSignalId s
        \<or> (\<exists>i. ss_consumedSignalId s' = Some i \<and> i \<notin> consumed_signals run))"

definition visited :: "process_run \<Rightarrow> process_stage \<Rightarrow> process_run \<Rightarrow> bool" where
  "visited run stage run' \<longleftrightarrow> (\<exists>s s' c. mutableState run (st_stageId stage) = Inr s
     \<and> ss_status s \<in> {Ready, Waiting} \<and> stage_change run stage s s'
     \<and> run' = set_state (st_stageId stage) (\<lambda>_. s') run\<lparr>pr_cancellation := c\<rparr>
     \<and> (pr_cancellation run = None \<longleftrightarrow> c = None))"

lemma set_state_const:
  assumes "mutableState run i = Inr s"
  shows "set_state i f run = set_state i (\<lambda>_. f s) run"
proof -
  have "find (\<lambda>s. ss_stageId s = i) ss = Some s \<Longrightarrow> update_first i f ss = update_first i (\<lambda>_. f s) ss" for ss
    by (induction ss) (auto split: if_splits)
  with assms show ?thesis by (simp add: mutableState_Inr set_state_def)
qed

lemma set_state_twice:
  assumes "mutableState run i = Inr s" "ss_stageId s1 = i"
  shows "set_state i g (set_state i (\<lambda>_. s1) run) = set_state i (\<lambda>_. g s1) run"
proof -
  have "find (\<lambda>s. ss_stageId s = i) ss = Some s \<Longrightarrow>
    update_first i g (update_first i (\<lambda>_. s1) ss) = update_first i (\<lambda>_. g s1) ss" for ss
    using assms(2) by (induction ss) (auto split: if_splits)
  with assms(1) show ?thesis by (simp add: mutableState_Inr set_state_def)
qed

lemma set_state_self:
  assumes "mutableState run i = Inr s"
  shows "set_state i (\<lambda>_. s) run = run"
proof -
  have "find (\<lambda>s. ss_stageId s = i) ss = Some s \<Longrightarrow> update_first i (\<lambda>_. s) ss = ss" for ss
    by (induction ss) (auto split: if_splits)
  with assms show ?thesis by (simp add: mutableState_Inr set_state_def)
qed

lemma set_state_cancellation: "run\<lparr>pr_cancellation := pr_cancellation run\<rparr> = run"
  by simp

lemma visitedI:
  assumes "mutableState run (st_stageId st) = Inr s" "ss_status s \<in> {Ready, Waiting}"
    "stage_change run st s (f s)"
  shows "visited run st (set_state (st_stageId st) f run)"
  unfolding visited_def
  by (rule exI[of _ s], rule exI[of _ "f s"], rule exI[of _ "pr_cancellation run"])
     (use assms set_state_const[OF assms(1), of f] in simp)

lemma matchingSignal_fresh:
  "matchingSignal opts run ty k s = Some sg \<Longrightarrow> sg_signalId sg \<notin> consumed_signals run"
  by (auto simp: matchingSignal_def Let_def find_Some_iff consumed_signals_def)

lemma matchingSignal_fresh_state:
  "(case sw of (s, w) \<Rightarrow> matchingSignal opts run ty k s) = Some sg \<Longrightarrow> sg_signalId sg \<notin> consumed_signals run"
  by (cases sw) (simp add: matchingSignal_fresh)

lemma applyTaskResult_change:
  assumes "applyTaskResult st res t s = (c, s')"
  shows "ss_stageId s' = ss_stageId s" "ss_attempt s' = ss_attempt s"
    "ss_consumedSignalId s' = ss_consumedSignalId s" "ss_status s' \<notin> {Blocked, Running}"
    "ss_status s' = Ready \<Longrightarrow> ss_attempt s < stage_maximumAttempts st"
  using assms
  by (auto simp: applyTaskResult_def stage_maximumAttempts_def Let_def split: task_result.splits if_splits stage_kind.splits option.splits)

lemma advanceCompensationQueue_frame:
  "\<exists>c. advanceCompensationQueue st s run = run\<lparr>pr_cancellation := c\<rparr>
     \<and> (pr_cancellation run = None \<longleftrightarrow> c = None)"
  by (rule exI[of _ "pr_cancellation (advanceCompensationQueue st s run)"])
     (simp add: advanceCompensationQueue_def split: option.splits list.splits)

lemma mutableState_replaced:
  assumes "mutableState run i = Inr s" "ss_stageId s1 = i"
  shows "mutableState (set_state i (\<lambda>_. s1) run) i = Inr s1"
proof -
  have "find (\<lambda>s. ss_stageId s = i) ss = Some s \<Longrightarrow>
    find (\<lambda>s. ss_stageId s = i) (update_first i (\<lambda>_. s1) ss) = Some s1" for ss
    using assms(2) by (induction ss) (auto split: if_splits)
  with assms(1) show ?thesis by (simp add: mutableState_Inr set_state_def)
qed

lemma settle_stage_visited:
  assumes "settle_stage run1 st res t = Inr (c, run')" "mutableState run (st_stageId st) = Inr s"
    "run1 = set_state (st_stageId st) (\<lambda>_. s1) run" "ss_stageId s1 = ss_stageId s"
    "ss_consumedSignalId s1 = ss_consumedSignalId s" "ss_status s \<in> {Ready, Waiting}"
    "ss_attempt s1 = (if is_task st \<and> ss_status s = Ready then ss_attempt s + 1 else ss_attempt s)"
  shows "visited run st run'"
proof -
  have id: "ss_stageId s = st_stageId st" by (rule mutableState_id[OF assms(2)])
  have m1: "mutableState run1 (st_stageId st) = Inr s1"
    using mutableState_replaced[OF assms(2), of s1] assms(3,4) id by simp
  obtain s2 c2 where ap: "applyTaskResult st res t s1 = (c2, s2)" by fastforce
  with assms(1) m1 have r: "run' = advanceCompensationQueue st s2 (set_state (st_stageId st) (\<lambda>_. s2) run1)"
    by (simp add: settle_stage_def)
  have "set_state (st_stageId st) (\<lambda>_. s2) run1 = set_state (st_stageId st) (\<lambda>_. s2) run"
    using set_state_twice[OF assms(2), of s1 "\<lambda>_. s2"] assms(3,4) id by simp
  with r advanceCompensationQueue_frame[of st s2 "set_state (st_stageId st) (\<lambda>_. s2) run"] obtain c3 where
    "run' = set_state (st_stageId st) (\<lambda>_. s2) run\<lparr>pr_cancellation := c3\<rparr>"
    "pr_cancellation run = None \<longleftrightarrow> c3 = None" by auto
  moreover have "stage_change run st s s2"
    using applyTaskResult_change[OF ap] assms(4-7) by (auto simp: stage_change_def)
  ultimately show ?thesis using assms(2,6) by (auto simp: visited_def)
qed

lemma visit_waiting_visited:
  assumes "visit_waiting opts run st s t sw = (Inr (res, run'), sw')"
    "mutableState run (st_stageId st) = Inr s" "ss_status s = Waiting"
  shows "case res of None \<Rightarrow> run' = run | Some b \<Rightarrow> visited run st run'"
proof (cases "st_kind st")
  case (TaskStage a b c d)
  show ?thesis
  proof (cases "truthy (ss_taskRunId s)")
    case True
    with assms(1) TaskStage obtain r b where b: "settle_stage run st r t = Inr (b, run')" "res = Some b"
      by (auto simp: visit_waiting_def visit_waiting_task_def bindS_Inr_iff split: prod.splits)
    have "visited run st run'"
      by (rule settle_stage_visited[OF b(1) assms(2), of s])
         (use assms(2,3) set_state_self[OF assms(2)] in simp_all)
    with b(2) show ?thesis by simp
  qed (use assms TaskStage in \<open>simp add: visit_waiting_def visit_waiting_task_def\<close>)
next
  case (AwaitSignalStage a b)
  with assms show ?thesis
    by (auto simp: visit_waiting_def visit_waiting_signal_def bindS_Inr_iff stage_change_def terminal_def Let_def
        intro!: visitedI split: option.splits if_splits dest: matchingSignal_fresh_state)
next
  case (GateStage a b c d)
  with assms show ?thesis
    by (auto simp: visit_waiting_def visit_waiting_gate_def bindS_Inr_iff stage_change_def
        intro!: visitedI split: option.splits if_splits)
next
  case (WaitStage d)
  with assms show ?thesis
    by (auto simp: visit_waiting_def stage_change_def intro!: visitedI split: if_splits)
qed

lemma visit_ready_visited:
  assumes "visit_ready opts run st s t sw = (Inr (res, run'), sw')"
    "mutableState run (st_stageId st) = Inr s" "ss_status s = Ready"
  shows "case res of None \<Rightarrow> run' = run | Some b \<Rightarrow> visited run st run'"
proof (cases "st_kind st")
  case (TaskStage a b c d)
  let ?s1 = "s\<lparr>ss_status := Running, ss_startedAt := nullish_set (ss_startedAt s) t,
    ss_attempt := ss_attempt s + 1, ss_taskRunId := Some (stage_taskRunId (pr_runId run) (st_stageId st) (ss_attempt s + 1))\<rparr>"
  let ?run1 = "set_state (st_stageId st) (\<lambda>s'. s'\<lparr>ss_status := Running,
           ss_startedAt := nullish_set (ss_startedAt s') t, ss_attempt := ss_attempt s + 1,
           ss_taskRunId := Some (stage_taskRunId (pr_runId run) (st_stageId st) (ss_attempt s + 1))\<rparr>) run"
  from assms(1) TaskStage obtain r b where b: "settle_stage ?run1 st r t = Inr (b, run')" "res = Some True"
    by (auto simp: visit_ready_def visit_ready_task_def bindS_Inr_iff Let_def split: prod.splits)
  have "visited run st run'"
    by (rule settle_stage_visited[OF b(1) assms(2), of ?s1])
       (use assms(3) set_state_const[OF assms(2)] TaskStage in \<open>simp_all add: is_task_def\<close>)
  with b(2) show ?thesis by simp
next
  case (WaitStage d)
  with assms show ?thesis
    by (auto simp: visit_ready_def bindS_Inr_iff stage_change_def is_task_def intro!: visitedI)
next
  case (AwaitSignalStage a b)
  with assms show ?thesis
    by (auto simp: visit_ready_def visit_ready_signal_def bindS_Inr_iff stage_change_def is_task_def
        intro!: visitedI split: option.splits dest: matchingSignal_fresh_state)
next
  case (GateStage a b c d)
  let ?f = "\<lambda>until s. s\<lparr>ss_startedAt := nullish_set (ss_startedAt s) t, ss_waitUntil := until\<rparr>"
  let ?g = "\<lambda>(resolved :: gate_result) s. if gr_status resolved = GWaiting
      then s\<lparr>ss_gateRequestId := Some (gr_gateRequestId resolved), ss_status := Waiting\<rparr>
      else terminal (gate_outcome (gr_status resolved)) t (gr_reasonCode resolved)
             (s\<lparr>ss_gateRequestId := Some (gr_gateRequestId resolved)\<rparr>)"
  from assms(1) GateStage obtain until resolved where res: "res = Some True"
    "run' = set_state (st_stageId st) (?g resolved) (set_state (st_stageId st) (?f until) run)"
    by (auto simp: visit_ready_def visit_ready_gate_def bindS_Inr_iff Let_def)
  have id: "ss_stageId s = st_stageId st" by (rule mutableState_id[OF assms(2)])
  have "run' = set_state (st_stageId st) (\<lambda>_. ?g resolved (?f until s)) run"
    using set_state_twice[OF assms(2), of "?f until s" "?g resolved"] set_state_const[OF assms(2), of "?f until"] id
    by (simp add: res(2))
  then have "visited run st run'"
    using assms(2,3) GateStage
    by (auto simp: Let_def stage_change_def is_task_def intro!: visitedI)
  with res(1) show ?thesis by simp
qed

lemma visit_stage_visited:
  assumes "visit_stage opts run st t sw = (Inr (res, run'), sw')"
  shows "case res of None \<Rightarrow> run' = run | Some b \<Rightarrow> visited run st run'"
  using assms
  by (auto simp: visit_stage_def bindS_Inr_iff split: if_splits dest: visit_waiting_visited visit_ready_visited)

lemma visit_stages_visited:
  assumes "visit_stages opts run t sts sw = (Inr (b, run'), sw')"
  shows "(\<not> b \<and> run' = run) \<or> (\<exists>st \<in> set sts. visited run st run')"
  using assms
proof (induction sts arbitrary: sw)
  case (Cons st sts)
  from Cons.prems obtain res run1 sw1 where one: "visit_stage opts run st t sw = (Inr (res, run1), sw1)"
    and rest: "(case res of Some c \<Rightarrow> retS (c, run1) | None \<Rightarrow> visit_stages opts run1 t sts) sw1 = (Inr (b, run'), sw')"
    by (auto simp: bindS_Inr_iff)
  from visit_stage_visited[OF one] rest Cons.IH[of sw1] show ?case
    by (cases res) auto
qed simp

subsection \<open>The contract of a draft invariant\<close>

locale draft_invariant =
  fixes d :: process_definition
    and P :: "process_run \<Rightarrow> bool"
  assumes visit: "st \<in> set (pd_stages d) \<Longrightarrow> visited run st run' \<Longrightarrow> P run \<Longrightarrow> P run'"
    and unblock: "mutableState run i = Inr s \<Longrightarrow> ss_status s = Blocked \<Longrightarrow> P run
      \<Longrightarrow> P (set_state i (\<lambda>s. s\<lparr>ss_status := Ready\<rparr>) run)"
    and skip: "mutableState run i = Inr s \<Longrightarrow> ss_status s = Blocked \<Longrightarrow> P run
      \<Longrightarrow> P (set_state i (terminal Skipped t None) run)"
    and expire: "P run \<Longrightarrow> P (expire_draft run t)"
    and frame: "P run \<Longrightarrow> P (run\<lparr>pr_status := x\<rparr>)"
      "P run \<Longrightarrow> P (run\<lparr>pr_revision := n, pr_updatedAt := u, pr_stateDigest := g\<rparr>)"
begin

lemma keeps_activate:
  assumes "activateStages d t run = Inr run'" "P run"
  shows "P run'"
proof -
  have "P run \<longrightarrow> P run'"
    by (rule activateStages_rel[OF assms(1)])
       (auto simp: activate_stage_def bindE_Inr_iff intro: unblock skip split: if_splits)
  with assms(2) show ?thesis by simp
qed

lemma keeps_settle_draft: "settle_draft d t run = Inr run' \<Longrightarrow> P run \<Longrightarrow> P run'"
  by (auto simp: settle_draft_def bindE_Inr_iff dest!: settle_frame intro: frame(1) keeps_activate)

lemma keeps_transition:
  assumes "transitionOne opts d run t sw = (Inr (b, run'), sw')" "P run"
  shows "P run'"
proof -
  from assms(1) obtain run1 where r1: "ready_compensation run = Inr run1"
    and v: "visit_stages opts run1 t (pd_stages d) sw = (Inr (b, run'), sw')"
    by (auto simp: transitionOne_def bindS_Inr_iff)
  from r1 assms(2) have "P run1"
    by (auto simp: ready_compensation_def bindE_Inr_iff intro: unblock split: option.splits list.splits if_splits)
  with visit_stages_visited[OF v] show ?thesis by (auto intro: visit)
qed

lemma keeps_loop: "transition_loop opts d t n run sw = (Inr run', sw') \<Longrightarrow> P run \<Longrightarrow> P run'"
proof (induction n arbitrary: run sw)
  case (Suc n)
  show ?case
  proof (cases "terminalRun (pr_status run)")
    case False
    with Suc.prems(1) obtain c run1 sw1 where
      one: "transitionOne opts d run t sw = (Inr (c, run1), sw1)"
      and rest: "(if \<not> c then retS run1 else bindS (liftE (settle_draft d t run1))
        (transition_loop opts d t n)) sw1 = (Inr run', sw')"
      by (auto simp: bindS_Inr_iff)
    have p: "P run1" by (rule keeps_transition[OF one Suc.prems(2)])
    show ?thesis
    proof (cases c)
      case True
      with rest obtain run2 where "settle_draft d t run1 = Inr run2"
        "transition_loop opts d t n run2 sw1 = (Inr run', sw')"
        by (auto simp: bindS_Inr_iff)
      with p Suc.IH keeps_settle_draft show ?thesis by blast
    qed (use rest p in simp)
  qed (use Suc.prems in simp)
qed simp

lemma keeps_commit:
  assumes "commitDraft c draft t s = (Inr run', s')" "P draft"
  shows "P run'"
proof -
  from assms(1) obtain dg where "run' = draft\<lparr>pr_revision := pr_revision c + 1, pr_updatedAt := t, pr_stateDigest := dg\<rparr>"
    by (auto simp: commitDraft_def bindS_Inr_iff finalizeRun_def Let_def bindE_Inr_iff split: if_splits)
  with frame(2)[OF assms(2)] show ?thesis by simp
qed

lemma keeps_advance:
  assumes "advanceCurrent opts d run t n f sw = (Inr run', sw')" "P run"
  shows "P run'"
proof -
  consider "run' = run"
    | s s' where "commitDraft run (expire_draft run t) t s = (Inr run', s')"
    | m sw1 sw2 draft draft' s s' where "transition_loop opts d t m run sw1 = (Inr draft, sw2)"
        "settle_draft d t draft = Inr draft'" "commitDraft run draft' t s = (Inr run', s')"
    using assms(1) by (cases sw) (auto simp: advanceCurrent_def bindS_Inr_iff onStore_def
        split: if_splits prod.splits)
  then show ?thesis
  proof cases
    case (3 m sw1 sw2 draft draft' s s')
    then show ?thesis using assms(2) keeps_loop keeps_settle_draft keeps_commit by blast
  qed (use assms(2) keeps_commit expire in auto)
qed

end

subsection \<open>Terminal stages are final\<close>

lemma evolves_set_state:
  assumes "run_evolves r run" "mutableState run i = Inr s" "stage_le s (f s)"
  shows "run_evolves r (set_state i f run)"
  using assms set_state_evolves run_evolves_trans by blast

interpretation evolution: draft_invariant d "run_evolves r" for d r
proof (unfold_locales, goal_cases)
  case (1 st run run')
  then obtain s s' c where v: "mutableState run (st_stageId st) = Inr s" "ss_status s \<in> {Ready, Waiting}"
    "stage_change run st s s'" "run' = set_state (st_stageId st) (\<lambda>_. s') run\<lparr>pr_cancellation := c\<rparr>"
    "pr_cancellation run = None \<longleftrightarrow> c = None" by (auto simp: visited_def)
  from v(2,3) have "stage_le s s'" by (auto simp: stage_le_def stage_change_def)
  with v(1) have "run_evolves r (set_state (st_stageId st) (\<lambda>_. s') run)"
    using 1(3) by (intro evolves_set_state) auto
  with v(4,5) 1(3) show ?case by (auto simp: run_evolves_def)
next
  case (2 run i s)
  then show ?case by (intro evolves_set_state) (auto simp: stage_le_def)
next
  case (3 run i s t)
  then show ?case by (intro evolves_set_state) (auto simp: stage_le_terminal)
next
  case (4 run t)
  have "run_evolves run (expire_draft run t)"
    by (auto simp: run_evolves_def expire_draft_def list_all2_conv_all_nth stage_le_terminal)
  with 4 show ?case by (rule run_evolves_trans)
qed (simp_all add: run_evolves_def)

subsection \<open>Attempts are bounded\<close>

definition attempt_ok :: "process_definition \<Rightarrow> stage_state \<Rightarrow> bool" where
  "attempt_ok d s \<longleftrightarrow> (\<forall>st \<in> set (pd_stages d). st_stageId st = ss_stageId s \<longrightarrow>
     ss_attempt s \<le> stage_maximumAttempts st
     \<and> (ss_status s \<in> {Blocked, Ready} \<longrightarrow> ss_attempt s < stage_maximumAttempts st))"

definition attempts_ok :: "process_definition \<Rightarrow> process_run \<Rightarrow> bool" where
  "attempts_ok d run \<longleftrightarrow> (distinct (map st_stageId (pd_stages d)) \<longrightarrow>
     (\<forall>s \<in> set (pr_stageStates run). attempt_ok d s))"

lemma set_update_first: "set (update_first i f ss) \<subseteq> set ss \<union> {f s | s. find (\<lambda>s. ss_stageId s = i) ss = Some s}"
  by (induction ss) auto

lemma attempts_ok_set:
  assumes "attempts_ok d run" "mutableState run i = Inr s"
    "distinct (map st_stageId (pd_stages d)) \<Longrightarrow> attempt_ok d s \<Longrightarrow> attempt_ok d (f s)"
  shows "attempts_ok d (set_state i f run)"
  using assms set_update_first[of i f "pr_stageStates run"] mutableState_mem[OF assms(2)]
  by (fastforce simp: attempts_ok_def set_state_def mutableState_Inr)

interpretation attempts: draft_invariant d "attempts_ok d" for d
proof (unfold_locales, goal_cases)
  case (1 st run run')
  then obtain s s' c where v: "mutableState run (st_stageId st) = Inr s" "ss_status s \<in> {Ready, Waiting}"
    "stage_change run st s s'" "run' = set_state (st_stageId st) (\<lambda>_. s') run\<lparr>pr_cancellation := c\<rparr>"
    by (auto simp: visited_def)
  have "attempts_ok d (set_state (st_stageId st) (\<lambda>_. s') run)"
  proof (rule attempts_ok_set[OF 1(3) v(1)])
    assume d: "distinct (map st_stageId (pd_stages d))" and s: "attempt_ok d s"
    have id: "ss_stageId s = st_stageId st" by (rule mutableState_id[OF v(1)])
    have unique: "st' = st" if "st' \<in> set (pd_stages d)" "st_stageId st' = st_stageId st" for st'
      using d that 1(1) by (simp add: distinct_map inj_on_def)
    have "ss_attempt s' \<le> stage_maximumAttempts st
        \<and> (ss_status s' \<in> {Blocked, Ready} \<longrightarrow> ss_attempt s' < stage_maximumAttempts st)"
      using s v(2,3) id 1(1) by (auto simp: attempt_ok_def stage_change_def split: if_splits)
    moreover have "ss_stageId s' = st_stageId st" using v(3) id by (simp add: stage_change_def)
    ultimately show "attempt_ok d s'" using unique by (auto simp: attempt_ok_def)
  qed
  with v(4) show ?case by (simp add: attempts_ok_def)
next
  case (2 run i s)
  then show ?case by (intro attempts_ok_set) (auto simp: attempt_ok_def)
next
  case (3 run i s t)
  then show ?case by (intro attempts_ok_set) (auto simp: attempt_ok_def)
next
  case (4 run t)
  then show ?case by (auto simp: attempts_ok_def expire_draft_def attempt_ok_def)
qed (simp_all add: attempts_ok_def)

subsection \<open>A signal is consumed once\<close>

definition signals_once :: "process_run \<Rightarrow> bool" where
  "signals_once run \<longleftrightarrow> distinct (filter truthy (map ss_consumedSignalId (pr_stageStates run)))"

lemma signals_once_set:
  assumes "signals_once run" "mutableState run i = Inr s"
    "ss_consumedSignalId (f s) = ss_consumedSignalId s
      \<or> (\<exists>j. ss_consumedSignalId (f s) = Some j \<and> j \<notin> consumed_signals run)"
  shows "signals_once (set_state i f run)"
proof -
  from assms(2) have "find (\<lambda>s. ss_stageId s = i) (pr_stageStates run) = Some s"
    by (simp add: mutableState_Inr)
  then obtain xs ys where ss: "pr_stageStates run = xs @ s # ys"
    "update_first i f (pr_stageStates run) = xs @ f s # ys" by (rule find_update_first)
  define A B where "A = filter truthy (map ss_consumedSignalId xs)"
    and "B = filter truthy (map ss_consumedSignalId ys)"
  let ?opt = "\<lambda>c. if truthy c then [c] else []"
  have old: "filter truthy (map ss_consumedSignalId (pr_stageStates run)) = A @ ?opt (ss_consumedSignalId s) @ B"
    by (simp add: A_def B_def ss)
  have new: "filter truthy (map ss_consumedSignalId (pr_stageStates (set_state i f run)))
      = A @ ?opt (ss_consumedSignalId (f s)) @ B"
    by (simp add: A_def B_def set_state_def ss ss(2)[unfolded ss(1)])
  from assms(1,3) show ?thesis
    unfolding signals_once_def consumed_signals_def old new by (auto split: if_splits)
qed

interpretation single_use: draft_invariant d signals_once for d
proof (unfold_locales, goal_cases)
  case (1 st run run')
  then obtain s s' c where v: "mutableState run (st_stageId st) = Inr s"
    "stage_change run st s s'" "run' = set_state (st_stageId st) (\<lambda>_. s') run\<lparr>pr_cancellation := c\<rparr>"
    by (auto simp: visited_def)
  from v(2) have "signals_once (set_state (st_stageId st) (\<lambda>_. s') run)"
    by (intro signals_once_set[OF 1(3) v(1)]) (auto simp: stage_change_def)
  with v(3) show ?case by (simp add: signals_once_def)
next
  case (2 run i s)
  then show ?case by (intro signals_once_set) auto
next
  case (3 run i s t)
  then show ?case by (intro signals_once_set) auto
next
  case (4 run t)
  have "map (\<lambda>s. ss_consumedSignalId (if ss_status s \<noteq> Terminal
       then terminal TimedOut t (Some ''process_duration_exceeded'') s else s)) ss
     = map ss_consumedSignalId ss" for ss by simp
  then have "map ss_consumedSignalId (pr_stageStates (expire_draft run t)) = map ss_consumedSignalId (pr_stageStates run)"
    by (simp add: expire_draft_def comp_def)
  then show ?case using 4 by (simp only: signals_once_def)
qed (simp_all add: signals_once_def)

end
