(* ===== verification/WfFencing.thy ===== *)
theory WfFencing
  imports WfInvariants
begin

text \<open>
  Facts about repetition: a retained operation is replayed without touching the store or the
  world, a settled task attempt is never executed again, a worker whose lease was taken over
  writes nothing, and a protected effect whose executor threw is recorded as indeterminate.
\<close>

subsection \<open>Replay of operations\<close>

lemma operation_step:
  assumes "store_step s s'" "map_of (ws_operations s) k = Some r"
  shows "map_of (ws_operations s') k = Some r"
  using assms(1)
  by cases (use assms(2) in \<open>auto dest!: registerTaskDefinition_cases registerProcessDefinition_cases
    createTaskRun_cases compareAndSetTaskRun_cases createProcessRun_cases compareAndSetProcessRun_cases
    saveOperation_cases appendSignal_cases\<close>)

lemma onStore_iff: "onStore m (s, w) = (r, sw') \<longleftrightarrow> (\<exists>s'. m s = (r, s') \<and> sw' = (s', w))"
  by (auto simp: onStore_def split: prod.splits)

lemma operation_persists:
  "store_step\<^sup>*\<^sup>* s s' \<Longrightarrow> map_of (ws_operations s) k = Some r \<Longrightarrow> map_of (ws_operations s') k = Some r"
  by (induction rule: rtranclp_induct) (auto intro: operation_step)

definition retained :: "workflow_store \<Rightarrow> string \<Rightarrow> operation_kind \<Rightarrow> string \<Rightarrow> string \<Rightarrow> string \<Rightarrow> bool" where
  "retained s tenantId kind key dg runId \<longleftrightarrow> (\<exists>r. getOperation tenantId kind key s = Some r
     \<and> op_requestDigest r = dg \<and> op_runId r = runId)"

lemma retained_persists: "store_step\<^sup>*\<^sup>* s s' \<Longrightarrow> retained s t k key dg i \<Longrightarrow> retained s' t k key dg i"
  by (auto simp: retained_def getOperation_def dest: operation_persists)

lemma idempotent_retains:
  assumes "idempotent t k key dg i work sw = (Inr res, sw')"
  shows "retained (fst sw') t k key dg i"
proof (cases "getOperation t k key (fst sw)")
  case (Some r)
  with assms show ?thesis
    by (cases sw) (auto simp: idempotent_def replayOperation_def bindS_Inr_iff retained_def storedRun_def conflict_def
        split: if_splits option.splits)
next
  case None
  with assms obtain run sw1 where w: "work sw = (Inr run, sw1)"
    and fin: "finish_operation t k key dg i run sw1 = (Inr res, sw')"
    by (cases sw) (auto simp: idempotent_def replayOperation_def bindS_Inr_iff)
  obtain s1 w1 where sw1: "sw1 = (s1, w1)" by (cases sw1)
  let ?op = "\<lparr>op_tenantId = t, op_operationKind = k, op_idempotencyKey = key, op_requestDigest = dg, op_runId = i\<rparr>"
  from fin obtain b s2 where sv: "saveOperation ?op s1 = (Inr b, s2)" and sw': "sw' = (s2, w1)"
    by (auto simp: finish_operation_def bindS_Inr_iff sw1 onStore_iff)
  have "map_of (ws_operations s2) (operationKey t k key) = Some r \<Longrightarrow> op_requestDigest r = dg \<and> op_runId r = i
     \<and> getOperation t k key s2 = Some r" for r
    using sv by (auto simp: saveOperation_def Let_def conflict_def getOperation_def split: option.splits if_splits)
  moreover have "map_of (ws_operations s2) (operationKey t k key) \<noteq> None"
    using sv by (auto simp: saveOperation_def Let_def conflict_def split: option.splits if_splits)
  ultimately show ?thesis by (auto simp: retained_def sw')
qed

text \<open>The retained request is answered with the stored run, and nothing else happens.\<close>

lemma idempotent_replays:
  assumes "retained s t k key dg i" "map_of (ws_runs s) (key2 t i) = Some run" "validateProcessRunV1 run = Inr run"
  shows "idempotent t k key dg i work (s, w) = (Inr \<lparr>or_disposition = Replayed, or_run = run\<rparr>, (s, w))"
proof -
  from assms(1) obtain o1 where "getOperation t k key s = Some o1" "op_requestDigest o1 = dg" "op_runId o1 = i"
    by (auto simp: retained_def)
  with assms(2,3) show ?thesis
    by (simp add: idempotent_def replayOperation_def storedRun_def getProcessRun_def bindS_def)
qed

subsection \<open>A settled attempt is not executed again\<close>

lemma settled_attempt_claim:
  assumes "map_of (ws_taskRuns s) (key2 (pr_tenantId run) tid) = Some tr"
  shows "\<exists>r. claim_run opts run i n tid key b dg tok e t s = (r, s)
    \<and> (\<forall>x. r = Inr x \<longrightarrow> x = (tr, False))"
proof -
  have "getTaskRun (pr_tenantId run) tid s = (Inr (Some tr), s) \<or> (\<exists>e. getTaskRun (pr_tenantId run) tid s = (Inl e, s))"
    using assms by (cases "seqE [token (pr_tenantId run) ''tenantId'', token tid ''taskRunId'']")
      (auto simp: getTaskRun_def bindS_def)
  then show ?thesis
    using validateTaskRunV1_arg[of tr]
    by (cases "validateTaskRunV1 tr") (auto simp: claim_run_def bindS_def conflict_def)
qed

lemma executeTask_settled:
  assumes "resolve_binding opts run st td (s, w) = (rb, (s1, w1))"
    "map_of (ws_taskRuns s1) (key2 (pr_tenantId run) tid) = Some tr" "settled_result tr = Some res"
  shows "\<exists>r sw'. executeTask opts run st td n tid t (s, w) = (r, sw') \<and> sw' \<in> {(s, w), (s1, w1)}
    \<and> (\<forall>x. r = Inr x \<longrightarrow> x = res \<or> x = TaskFailed ''task_binding_error'' (Some False) None)"
proof (cases "validateTaskDefinitionV1 td")
  case (Inl e)
  then show ?thesis by (simp add: executeTask_def bindS_def)
next
  case (Inr td')
  then have td: "td' = td" by (auto simp: validateTaskDefinitionV1_def bindE_Inr_iff split: if_splits)
  show ?thesis
  proof (cases "choose_executor opts td (st_stageId st)")
    case (Inl e)
    then show ?thesis using Inr td by (simp add: executeTask_def bindS_def)
  next
    case (Inr ex)
    note choose = Inr
    show ?thesis
    proof (cases rb)
      case (Inl e)
      then show ?thesis using choose assms(1) \<open>validateTaskDefinitionV1 td = Inr td'\<close> td
        by (simp add: executeTask_def bindS_def)
    next
      case (Inr bo)
      note pre = choose assms(1) \<open>validateTaskDefinitionV1 td = Inr td'\<close> td this
      show ?thesis
      proof (cases bo)
        case None
        then show ?thesis using pre by (simp add: executeTask_def bindS_def)
      next
        case (Some bi)
        have run: "executeTask opts run st td n tid t (s, w) = bindS (liftE (createTaskExecutionBindingV1 td bi)) (\<lambda>binding.
           bindS (liftE (task_inputDigest run (st_stageId st) n)) (\<lambda>inputDigest.
           bindS (liftE (taskLeaseToken (op_workerId opts) tid 0)) (\<lambda>leaseToken.
           bindS (liftE (addMilliseconds t (op_taskLeaseDurationMs opts))) (\<lambda>leaseExpiresAt.
           bindS (onStore (claim_run opts run (st_stageId st) n tid
               (task_idempotencyKey (pr_tenantId run) (pr_runId run) (st_stageId st) n)
               binding inputDigest leaseToken leaseExpiresAt t)) (\<lambda>(taskRun, createdHere).
             case settled_result taskRun of
               Some result \<Rightarrow> retS result
             | None \<Rightarrow>
                 bindS (if createdHere
                   then retS (Inr (taskRun, \<lparr>ls_generation = 0, ls_token = leaseToken,
                     ls_expiresAt = leaseExpiresAt\<rparr>))
                   else onStore (hold_lease opts tid t taskRun)) (\<lambda>held.
                   case held of
                     Inl early \<Rightarrow> retS early
                   | Inr (taskRun', lease) \<Rightarrow>
                       run_attempt opts ex run st td n tid
                         (task_idempotencyKey (pr_tenantId run) (pr_runId run) (st_stageId st) n)
                         binding t taskRun' lease)))))) (s1, w1)"
          using pre Some by (simp add: executeTask_def bindS_def Let_def)
        have claim: "\<exists>r. onStore (claim_run opts run (st_stageId st) n tid key b dg tok e t) (s1, w1) = (r, (s1, w1))
            \<and> (\<forall>x. r = Inr x \<longrightarrow> x = (tr, False))" for key b dg tok e
          using settled_attempt_claim[OF assms(2), of opts "st_stageId st" n key b dg tok e t]
          by (auto simp: onStore_def)
        show ?thesis
          unfolding run
          apply (cases "createTaskExecutionBindingV1 td bi"; simp add: bindS_def)
          apply (cases "task_inputDigest run (st_stageId st) n"; simp)
          apply (cases "taskLeaseToken (op_workerId opts) tid 0"; simp)
          apply (cases "addMilliseconds t (op_taskLeaseDurationMs opts)"; simp)
          subgoal for b dg tok e
          proof -
            obtain r where "onStore (claim_run opts run (st_stageId st) n tid
                (task_idempotencyKey (pr_tenantId run) (pr_runId run) (st_stageId st) n) b dg tok e t) (s1, w1)
                = (r, (s1, w1))" "\<forall>x. r = Inr x \<longrightarrow> x = (tr, False)"
              using claim by blast
            then show ?thesis using assms(3) by (cases r) (auto simp: bindS_def)
          qed
          done
      qed
    qed
  qed
qed

text \<open>
  The retained run is the one of this attempt: every field that \<open>#executeTask\<close> compares with
  what it computes for the stage, the attempt and the resolved binding.
\<close>

definition retains_attempt ::
  "process_run \<Rightarrow> process_stage \<Rightarrow> task_definition \<Rightarrow> int \<Rightarrow> string \<Rightarrow> binding_input \<Rightarrow> task_run \<Rightarrow> bool" where
  "retains_attempt run st td n tid bi tr \<longleftrightarrow> validateTaskRunV1 tr = Inr tr
     \<and> tr_tenantId tr = pr_tenantId run \<and> tr_taskRunId tr = tid
     \<and> tr_processRunId tr = pr_runId run \<and> tr_stageId tr = st_stageId st \<and> tr_attempt tr = n
     \<and> tr_idempotencyKey tr = task_idempotencyKey (pr_tenantId run) (pr_runId run) (st_stageId st) n
     \<and> task_inputDigest run (st_stageId st) n = Inr (tr_inputDigest tr)
     \<and> (case createTaskExecutionBindingV1 td bi of Inr b \<Rightarrow> eb_bindingDigest b = eb_bindingDigest (tr_binding tr) | Inl _ \<Rightarrow> False)"

lemma executeTask_answers:
  assumes "resolve_binding opts run st td (s, w) = (Inr (Some bi), (s1, w1))"
    "map_of (ws_taskRuns s1) (key2 (pr_tenantId run) tid) = Some tr" "settled_result tr = Some res"
    "validateTaskDefinitionV1 td = Inr td" "choose_executor opts td (st_stageId st) = Inr ex"
    "taskLeaseToken (op_workerId opts) tid 0 = Inr tok" "addMilliseconds t (op_taskLeaseDurationMs opts) = Inr e"
    "retains_attempt run st td n tid bi tr"
  shows "executeTask opts run st td n tid t (s, w) = (Inr res, (s1, w1))"
proof -
  from assms(8) obtain b where b: "createTaskExecutionBindingV1 td bi = Inr b"
    "eb_bindingDigest b = eb_bindingDigest (tr_binding tr)"
    by (auto simp: retains_attempt_def split: sum.splits)
  from assms(8) have "valid_token (pr_tenantId run)" "valid_token tid"
    by (auto simp: retains_attempt_def validateTaskRunV1_iff task_run_checks_iff)
  then have "getTaskRun (pr_tenantId run) tid s1 = (Inr (Some tr), s1)"
    using assms(2) by (simp add: getTaskRun_def bindS_def token_def require_def seqE.simps)
  then have "claim_run opts run (st_stageId st) n tid (task_idempotencyKey (pr_tenantId run) (pr_runId run) (st_stageId st) n)
      b (tr_inputDigest tr) tok e t s1 = (Inr (tr, False), s1)"
    using assms(8) b by (simp add: claim_run_def bindS_def retains_attempt_def)
  then show ?thesis
    using assms b by (simp add: executeTask_def bindS_def Let_def onStore_def retains_attempt_def)
qed

subsection \<open>The lease fences the settlement\<close>

lemma saveTaskTransition_cases:
  "saveTaskTransition c n s = (r, s') \<Longrightarrow> s' = s \<or>
     (r = Inr () \<and> map_of (ws_taskRuns s') (key2 (tr_tenantId n) (tr_taskRunId n)) = Some n
      \<and> (\<exists>o1. map_of (ws_taskRuns s) (key2 (tr_tenantId n) (tr_taskRunId n)) = Some o1
          \<and> tr_revision o1 = tr_revision c \<and> tr_stateDigest o1 = tr_stateDigest c))"
  by (cases "compareAndSetTaskRun (tr_revision c) (tr_stateDigest c) n s")
     (auto simp: saveTaskTransition_def bindS_def split: sum.splits if_splits dest!: compareAndSetTaskRun_cases)

lemma getTaskRun_cases:
  "getTaskRun t i s = (r, s') \<Longrightarrow> s' = s \<and> (\<forall>x. r = Inr x \<longrightarrow> x = map_of (ws_taskRuns s) (key2 t i))"
  by (auto simp: getTaskRun_def bindS_def split: sum.splits)

lemma settleTask_fenced:
  assumes "settleTask t tid ls time res s = (r, s')" "s' \<noteq> s"
  shows "\<exists>latest. map_of (ws_taskRuns s) (key2 t tid) = Some latest \<and> tr_status latest = TRRunning
     \<and> tr_leaseToken latest = ls_token ls \<and> tr_leaseGeneration latest = ls_generation ls"
proof -
  obtain g s1 where g: "getTaskRun t tid s = (g, s1)" by fastforce
  note gc = getTaskRun_cases[OF g]
  show ?thesis
  proof (cases g)
    case (Inl e)
    with assms g gc show ?thesis by (simp add: settleTask_def)
  next
    case (Inr o1)
    with gc have o1: "map_of (ws_taskRuns s) (key2 t tid) = o1" "s1 = s" by simp_all
    show ?thesis
    proof (cases o1)
      case None
      with assms g Inr o1 show ?thesis by (simp add: settleTask_def)
    next
      case (Some latest)
      with assms g Inr o1 show ?thesis by (auto simp: settleTask_def split: if_splits)
    qed
  qed
qed

lemma transition_running_frame:
  assumes "transitionTaskRunV1 tr \<lparr>ti_status = TRRunning, ti_logicalTime = t, ti_reasonCode = None,
      ti_retryable = None, ti_usage = None, ti_resultReference = None, ti_resultDigest = None\<rparr> = Inr running"
    "\<not> terminalStatuses (tr_status tr)"
  shows "tr_status running = TRRunning" "tr_leaseToken running = tr_leaseToken tr"
    "tr_leaseGeneration running = tr_leaseGeneration tr" "same_identity tr running"
proof -
  show "tr_status running = TRRunning" "same_identity tr running"
    using transition_progress[OF assms] by (simp_all add: task_progress_def)
  show "tr_leaseToken running = tr_leaseToken tr" "tr_leaseGeneration running = tr_leaseGeneration tr"
    using assms by (auto simp: transitionTaskRunV1_def bindE_Inr_iff validateTaskRunV1_iff freezeTaskRun_iff)
qed

text \<open>An executor that throws; a port may have had effects in the world before.\<close>

definition throwing :: "('w \<Rightarrow> 'w) \<Rightarrow> 'w executor" where
  "throwing effect hb request sw = (None, (fst sw, effect (snd sw)))"

lemma protected_throw:
  assumes "td_effectClass td = ProtectedExternal" "\<not> terminalStatuses (tr_status tr)"
    "tr_tenantId tr = pr_tenantId run" "tr_taskRunId tr = tid"
    "tr_leaseToken tr = ls_token ls" "tr_leaseGeneration tr = ls_generation ls"
    "run_attempt opts (throwing f) run st td n tid key b t tr ls (s, w) = (Inr res, (s', w'))"
  shows "res = TaskIndeterminate ''protected_task_executor_error'' None \<and> w' = f w
     \<and> (\<exists>settled. map_of (ws_taskRuns s') (key2 (pr_tenantId run) tid) = Some settled
          \<and> tr_status settled = TRIndeterminate \<and> tr_reasonCode settled = Some ''protected_task_executor_error'')"
proof -
  let ?k = "key2 (pr_tenantId run) tid" and ?err = "TaskIndeterminate ''protected_task_executor_error'' None"
  from assms(7) obtain running s1 where
    tr: "transitionTaskRunV1 tr \<lparr>ti_status = TRRunning, ti_logicalTime = t, ti_reasonCode = None,
      ti_retryable = None, ti_usage = None, ti_resultReference = None, ti_resultDigest = None\<rparr> = Inr running"
    and sv: "saveTaskTransition tr running s = (Inr (), s1)"
    and st: "settleTask (pr_tenantId run) tid ls t ?err s1 = (Inr res, s')" and w: "w' = f w"
    by (auto simp: run_attempt_def bindS_Inr_iff onStore_iff execute_port_def throwing_def executor_error_def assms(1))
  note rf = transition_running_frame[OF tr assms(2)]
  from rf(4) assms(3,4) have id: "tr_tenantId running = pr_tenantId run" "tr_taskRunId running = tid"
    by (simp_all add: same_identity_def)
  have s1: "map_of (ws_taskRuns s1) ?k = Some running"
    using sv id by (auto simp: saveTaskTransition_def bindS_Inr_iff conflict_def split: if_splits dest!: compareAndSetTaskRun_cases)
  have "getTaskRun (pr_tenantId run) tid s1 = (Inr (Some running), s1)"
    using st s1 by (auto simp: settleTask_def getTaskRun_def bindS_Inr_iff bindS_def split: sum.splits)
  with st rf assms(5,6) obtain settled s2 where
    tr2: "transitionTaskRunV1 running (settlement_input ?err (if t < tr_updatedAt running then tr_updatedAt running else t)) = Inr settled"
    and sv2: "saveTaskTransition running settled s1 = (Inr (), s')" and res: "res = ?err"
    by (auto simp: settleTask_def bindS_Inr_iff is_in_flight_def check_result_def Let_def)
  have nt: "\<not> terminalStatuses (tr_status running)" by (simp add: rf(1) terminalStatuses_def)
  note tp = transition_progress[OF tr2 nt]
  from tp(1) id have "tr_tenantId settled = pr_tenantId run" "tr_taskRunId settled = tid"
    by (simp_all add: task_progress_def same_identity_def)
  with sv2 have "map_of (ws_taskRuns s') ?k = Some settled"
    by (auto simp: saveTaskTransition_def bindS_Inr_iff conflict_def split: if_splits dest!: compareAndSetTaskRun_cases)
  moreover have "tr_reasonCode settled = Some ''protected_task_executor_error''"
    using tr2 nt by (auto simp: transitionTaskRunV1_def bindE_Inr_iff validateTaskRunV1_iff freezeTaskRun_iff
        settlement_input_def)
  ultimately show ?thesis using tp(2) res w by (simp add: settlement_input_def)
qed

subsection \<open>The idempotency key has to be a token\<close>

lemma digits_nat_length: "1 \<le> length (digits_nat n)"
  by (simp add: Suc_le_eq)

lemma long_idempotencyKey:
  assumes "143 \<le> length t + length r + length i"
  shows "\<not> valid_token (task_idempotencyKey t r i n)"
proof -
  have "1 \<le> length (show_int n)" using digits_nat_length by (auto simp: show_int_def)
  with assms show ?thesis by (simp add: valid_token_def task_idempotencyKey_def)
qed

lemma claim_needs_token:
  assumes "\<not> valid_token key"
  obtains f where "claim_run opts run i n tid key b dg tok e t s = (Inl f, s)"
proof (cases "fst (claim_run opts run i n tid key b dg tok e t s)")
  case (Inr x)
  then have "claim_run opts run i n tid key b dg tok e t s = (Inr x, snd (claim_run opts run i n tid key b dg tok e t s))"
    by (simp add: prod_eq_iff)
  with assms show thesis
    by (auto simp: claim_run_def bindS_Inr_iff createTaskRunV1_def bindE_Inr_iff seqE_Inr_iff
        validateTaskRunV1_iff task_run_checks_iff conflict_def split: option.splits if_splits)
next
  case (Inl f)
  have no: "createTaskRunV1 inp \<noteq> Inr z" if "ct_idempotencyKey inp = key" for inp z
    using that assms by (auto simp: createTaskRunV1_def bindE_Inr_iff seqE_Inr_iff)
  have "snd (claim_run opts run i n tid key b dg tok e t s) = s"
    using no
    by (auto simp: claim_run_def bindS_def getTaskRun_def conflict_def split: sum.splits option.splits)
  with Inl show thesis by (auto intro: that simp: prod_eq_iff)
qed

text \<open>Other executors in the place of those that are there.\<close>

definition with_executors :: "'w executor \<Rightarrow> 'w executor \<Rightarrow> 'w options \<Rightarrow> 'w options" where
  "with_executors f g opts = opts\<lparr>op_taskExecutor := map_option (\<lambda>_. f) (op_taskExecutor opts),
     op_protectedTaskExecutor := map_option (\<lambda>_. g) (op_protectedTaskExecutor opts)\<rparr>"

lemma with_executors_resolver [simp]: "resolve_binding (with_executors f g opts) = resolve_binding opts"
  by (simp add: with_executors_def resolve_binding_def fun_eq_iff)

lemma with_executors_worker [simp]: "op_workerId (with_executors f g opts) = op_workerId opts"
  "op_taskLeaseDurationMs (with_executors f g opts) = op_taskLeaseDurationMs opts"
  by (simp_all add: with_executors_def)

lemma with_executors_claim [simp]: "claim_run (with_executors f g opts) = claim_run opts"
  by (intro ext) (simp only: claim_run_def with_executors_worker)

lemma with_executors_choice:
  "choose_executor (with_executors f g opts) td i = (case choose_executor opts td i of
     Inl e \<Rightarrow> Inl e | Inr _ \<Rightarrow> Inr (if td_effectClass td = ProtectedExternal then g else f))"
  by (auto simp: choose_executor_def with_executors_def fail_def split: option.splits)

lemma long_identifiers_fail:
  assumes "143 \<le> length (pr_tenantId run) + length (pr_runId run) + length (st_stageId st)"
  shows "\<exists>r sw'. (\<forall>f g. executeTask (with_executors f g opts) run st td n tid t sw = (r, sw'))
    \<and> executeTask opts run st td n tid t sw = (r, sw')
    \<and> r \<in> range Inl \<union> {Inr (TaskFailed ''task_binding_error'' (Some False) None)}
    \<and> sw' \<in> {sw, snd (resolve_binding opts run st td sw)}"
proof -
  let ?key = "task_idempotencyKey (pr_tenantId run) (pr_runId run) (st_stageId st) n"
  have no: "\<not> valid_token ?key"
    using assms by (rule long_idempotencyKey)
  have claim: "\<exists>x. onStore (claim_run opts run (st_stageId st) n tid ?key b dg tok e t) sw1 = (Inl x, sw1)" for b dg tok e sw1
  proof -
    obtain s1 w1 where sw1: "sw1 = (s1, w1)" by (cases sw1)
    obtain x where "claim_run opts run (st_stageId st) n tid ?key b dg tok e t s1 = (Inl x, s1)"
      by (rule claim_needs_token[OF no])
    then show ?thesis by (simp add: sw1 onStore_def)
  qed
  obtain rb sw1 where rb: "resolve_binding opts run st td sw = (rb, sw1)" by (cases "resolve_binding opts run st td sw")
  have td: "validateTaskDefinitionV1 td = Inr td' \<Longrightarrow> td' = td" for td'
    by (auto simp: validateTaskDefinitionV1_def bindE_Inr_iff split: if_splits)
  show ?thesis
    apply (cases "validateTaskDefinitionV1 td")
     apply (simp add: executeTask_def bindS_def)
    apply (frule td)
    apply (cases "choose_executor opts td (st_stageId st)")
     apply (simp add: executeTask_def bindS_def with_executors_choice)
    apply (cases rb)
     apply (simp add: executeTask_def bindS_def with_executors_choice rb)
    subgoal for td' ex bo
    proof (cases bo)
      case None
      assume "validateTaskDefinitionV1 td = Inr td'" "td' = td" "choose_executor opts td (st_stageId st) = Inr ex" "rb = Inr bo"
      with None rb show ?thesis by (simp add: executeTask_def bindS_def with_executors_choice)
    next
      case (Some bi)
      assume v: "validateTaskDefinitionV1 td = Inr td'" "td' = td" "choose_executor opts td (st_stageId st) = Inr ex" "rb = Inr bo"
      note * = v Some rb
      show ?thesis
        apply (cases "createTaskExecutionBindingV1 td bi")
         apply (use * in \<open>simp add: executeTask_def bindS_def with_executors_choice\<close>)
        apply (cases "task_inputDigest run (st_stageId st) n")
         apply (use * in \<open>simp add: executeTask_def bindS_def with_executors_choice Let_def\<close>)
        apply (cases "taskLeaseToken (op_workerId opts) tid 0")
         apply (use * in \<open>simp add: executeTask_def bindS_def with_executors_choice Let_def\<close>)
        apply (cases "addMilliseconds t (op_taskLeaseDurationMs opts)")
         apply (use * in \<open>simp add: executeTask_def bindS_def with_executors_choice Let_def\<close>)
        subgoal for b dg tok e
          using * claim[of b dg tok e sw1]
          by (cases sw1) (auto simp: executeTask_def bindS_def with_executors_choice Let_def)
        done
    qed
    done
qed

end
