(* ===== verification/WfOperations.thy ===== *)
theory WfOperations
  imports WfFencing
begin

text \<open>
  The four operations of \<open>AdvancingProcessRunnerV1\<close> as one function of a request, and what
  holds of all of them: the store is changed by its own writes only, the run they return is an
  evolution of the stored one, every draft invariant survives, and a repetition is a replay.
\<close>

datatype request =
  StartRequest start_input | SignalRequest signal_input | CancelRequest cancel_input | AdvanceRequest advance_input

fun operate :: "'w options \<Rightarrow> request \<Rightarrow> ('w rstate, operation_result) comp" where
  "operate opts (StartRequest i) = start opts i"
| "operate opts (SignalRequest i) = signal opts i"
| "operate opts (CancelRequest i) = cancel opts i"
| "operate opts (AdvanceRequest i) = advance opts i"

fun request_key :: "request \<Rightarrow> string" where
  "request_key (StartRequest i) = key2 (si_tenantId i) (si_runId i)"
| "request_key (SignalRequest i) = key2 (gi_tenantId i) (gi_runId i)"
| "request_key (CancelRequest i) = key2 (ci_tenantId i) (ci_runId i)"
| "request_key (AdvanceRequest i) = key2 (ai_tenantId i) (ai_runId i)"

lemma keeps_operate: "ports_ok opts \<Longrightarrow> keeps (operate opts q)"
  by (cases q) (simp_all add: keeps_operations)

lemma operate_steps:
  assumes "ports_ok opts" "operate opts q (s, w) = (r, (s', w'))"
  shows "store_step\<^sup>*\<^sup>* s s'"
proof -
  have "steps (s, w) (snd (operate opts q (s, w)))"
    using keeps_operate[OF assms(1)] unfolding keeps_def by blast
  then show ?thesis by (simp add: steps_def assms(2))
qed

text \<open>Every operation is the frame \<open>idempotent\<close> around its work, after checks that read nothing.\<close>

lemma operate_idempotent:
  assumes "operate opts q (s, w) = (Inr res, sw')"
  obtains t k key dg i work where
    "operate opts q (s, w) = idempotent t k key dg i work (s, w)"
    "\<And>opts' sw2. \<exists>work'. operate opts' q sw2 = idempotent t k key dg i work' sw2"
    "request_key q = key2 t i"
    "work = (case q of StartRequest j \<Rightarrow> start_work opts j | SignalRequest j \<Rightarrow> signal_work opts j
       | CancelRequest j \<Rightarrow> cancel_work opts j | AdvanceRequest j \<Rightarrow> advance_work opts j)"
proof (cases q)
  case (StartRequest j)
  with assms obtain dg where "validateStartInput j = Inr ()"
    "digestWorkflowJsonV1 ''start'' (start_input_json j) = Inr dg"
    by (auto simp: start_def bindS_Inr_iff)
  then show thesis by (intro that) (auto simp: StartRequest start_def bindS_def)
next
  case (SignalRequest j)
  with assms obtain dg where "seqE [
       validateMutationIdentity (gi_tenantId j) (gi_runId j) (gi_operationId j) (gi_idempotencyKey j),
       timestamp (gi_logicalTime j) ''logicalTime''] = Inr ()"
    "digestWorkflowJsonV1 ''signal-operation'' (signal_input_json j) = Inr dg"
    by (auto simp: signal_def bindS_Inr_iff)
  then show thesis by (intro that) (auto simp: SignalRequest signal_def bindS_def)
next
  case (CancelRequest j)
  with assms obtain dg where "seqE [
       validateMutationIdentity (ci_tenantId j) (ci_runId j) (ci_operationId j) (ci_idempotencyKey j),
       token (ci_reasonCode j) ''reasonCode'', timestamp (ci_logicalTime j) ''logicalTime''] = Inr ()"
    "digestWorkflowJsonV1 ''cancel'' (cancel_input_json j) = Inr dg"
    by (auto simp: cancel_def bindS_Inr_iff)
  then show thesis by (intro that) (auto simp: CancelRequest cancel_def bindS_def)
next
  case (AdvanceRequest j)
  with assms obtain dg where "seqE [
       validateMutationIdentity (ai_tenantId j) (ai_runId j) (ai_operationId j) (ai_idempotencyKey j),
       timestamp (ai_logicalTime j) ''logicalTime'',
       optional (ai_maximumTransitions j) (\<lambda>n.
         require (isSafeInteger n \<and> 1 \<le> n) ''maximumTransitions is invalid'')] = Inr ()"
    "digestWorkflowJsonV1 ''advance'' (advance_input_json j) = Inr dg"
    by (auto simp: advance_def bindS_Inr_iff)
  then show thesis by (intro that) (auto simp: AdvanceRequest advance_def bindS_def)
qed

subsection \<open>Draft invariants of an operation\<close>

lemma storedRun_Inr: "storedRun t i (s, w) = (Inr run, sw') \<longleftrightarrow>
    map_of (ws_runs s) (key2 t i) = Some run \<and> validateProcessRunV1 run = Inr run \<and> sw' = (s, w)"
  using validateProcessRunV1_arg
  by (auto simp: storedRun_def bindS_Inr_iff getProcessRun_def split: option.splits)

lemma load_run_Inr:
  assumes "load_run t i time (s, w) = (Inr (run, d), sw')"
  shows "map_of (ws_runs s) (key2 t i) = Some run" "validateProcessDefinitionV1 d = Inr d" "sw' = (s, w)"
    "getProcessDefinition (pr_tenantId run) (pr_processId run) (pr_processVersion run) s = Some d"
  using assms validateProcessDefinitionV1_body
  by (auto simp: load_run_def bindS_Inr_iff storedRun_Inr storedDefinition_def assertOperationCapacity_def
      split: option.splits)

text \<open>
  How a store grows: what is registered, retained or received stays as it is, and a run of a process
  or a task stays under its key with a revision that does not go back.
\<close>

definition stays :: "('k \<times> 'v) list \<Rightarrow> ('k \<times> 'v) list \<Rightarrow> bool" where
  "stays m m' \<longleftrightarrow> (\<forall>k v. map_of m k = Some v \<longrightarrow> map_of m' k = Some v)"

definition revised :: "('v \<Rightarrow> int) \<Rightarrow> ('k \<times> 'v) list \<Rightarrow> ('k \<times> 'v) list \<Rightarrow> bool" where
  "revised revision m m' \<longleftrightarrow> (\<forall>k v. map_of m k = Some v \<longrightarrow>
     (\<exists>v'. map_of m' k = Some v' \<and> revision v \<le> revision v' \<and> (revision v' = revision v \<longrightarrow> v' = v)))"

definition store_grows :: "workflow_store \<Rightarrow> workflow_store \<Rightarrow> bool" where
  "store_grows s s' \<longleftrightarrow> stays (ws_taskDefinitions s) (ws_taskDefinitions s')
     \<and> stays (ws_definitions s) (ws_definitions s') \<and> stays (ws_operations s) (ws_operations s')
     \<and> stays (ws_signals s) (ws_signals s') \<and> stays (ws_taskRunIdempotency s) (ws_taskRunIdempotency s')
     \<and> revised pr_revision (ws_runs s) (ws_runs s') \<and> revised tr_revision (ws_taskRuns s) (ws_taskRuns s')"

lemma stays_update: "map_of m k = None \<Longrightarrow> stays m (AList.update k v m)"
  by (auto simp: stays_def)

lemma stays_refl [simp]: "stays m m"
  by (simp add: stays_def)

lemma stays_trans: "stays m m' \<Longrightarrow> stays m' m'' \<Longrightarrow> stays m m''"
  by (simp add: stays_def)

lemma createTaskRun_idempotency:
  assumes "createTaskRun tr s = (r, s')" "store_ok s"
  shows "stays (ws_taskRunIdempotency s) (ws_taskRunIdempotency s')"
proof -
  have "i \<noteq> []" if "map_of (ws_taskRunIdempotency s) k = Some i" for k i
    using assms(2) that by (auto simp: store_ok_def entries_def)
  then show ?thesis using createTaskRun_cases[OF assms(1)] by (auto simp: stays_def)
qed

lemma store_step_stays:
  assumes "store_step s s'" "store_ok s"
  shows "stays (ws_taskDefinitions s) (ws_taskDefinitions s') \<and> stays (ws_definitions s) (ws_definitions s')
    \<and> stays (ws_operations s) (ws_operations s') \<and> stays (ws_signals s) (ws_signals s')
    \<and> stays (ws_taskRunIdempotency s) (ws_taskRunIdempotency s')"
  using assms(1)
proof cases
  case (create_task tr rb)
  with createTaskRun_cases[OF this] createTaskRun_idempotency[OF this assms(2)] show ?thesis by auto
qed (auto dest!: registerTaskDefinition_cases registerProcessDefinition_cases compareAndSetTaskRun_cases
    createProcessRun_cases compareAndSetProcessRun_cases saveOperation_cases appendSignal_cases intro: stays_update)

lemma store_steps_grow:
  assumes "store_step\<^sup>*\<^sup>* s s'" "store_ok s"
  shows "store_grows s s'"
proof -
  have "stays (ws_taskDefinitions s) (ws_taskDefinitions s') \<and> stays (ws_definitions s) (ws_definitions s')
    \<and> stays (ws_operations s) (ws_operations s') \<and> stays (ws_signals s) (ws_signals s')
    \<and> stays (ws_taskRunIdempotency s) (ws_taskRunIdempotency s')"
    using assms(1)
  proof (induction rule: rtranclp_induct)
    case (step y z)
    with store_step_stays[OF step(2) store_ok_steps[OF step(1) assms(2)]] show ?case by (meson stays_trans)
  qed simp
  then show ?thesis
    using process_runs.steps_keep[OF assms(1)] task_runs.steps_keep[OF assms(1)]
    by (auto simp: store_grows_def revised_def)
qed

text \<open>After an operation that succeeded its run is stored.\<close>

lemma advance_run_kept:
  assumes "ports_ok opts" "advanceCurrent opts d a t n f (s, w) = (r, (s', w'))" "map_of (ws_runs s) k = Some c"
  shows "\<exists>c'. map_of (ws_runs s') k = Some c'"
proof -
  have "steps (s, w) (snd (advanceCurrent opts d a t n f (s, w)))"
    using keeps_advanceCurrent[OF assms(1)] unfolding keeps_def by blast
  then have "store_step\<^sup>*\<^sup>* s s'" by (simp add: steps_def assms(2))
  from process_runs.steps_keep[OF this assms(3)] show ?thesis by blast
qed

lemma operate_stored:
  assumes "operate opts q (s, w) = (Inr res, (s1, w1))" "ports_ok opts"
  shows "\<exists>run. map_of (ws_runs s1) (request_key q) = Some run"
proof -
  have later: ?thesis if "map_of (ws_runs s) (request_key q) = Some run" for run
    using process_runs.steps_keep[OF operate_steps[OF assms(2,1)] that] by blast
  from assms(1) obtain t k key dg i work where
    op: "operate opts q (s, w) = idempotent t k key dg i work (s, w)" and key: "request_key q = key2 t i"
    and work: "work = (case q of StartRequest j \<Rightarrow> start_work opts j | SignalRequest j \<Rightarrow> signal_work opts j
       | CancelRequest j \<Rightarrow> cancel_work opts j | AdvanceRequest j \<Rightarrow> advance_work opts j)"
    by (rule operate_idempotent) blast
  from op assms(1) have "idempotent t k key dg i work (s, w) = (Inr res, (s1, w1))" by simp
  then consider r where "storedRun t i (s, w) = (Inr r, (s, w))"
    | r s2 w2 where "work (s, w) = (Inr r, (s2, w2))" "ws_runs s1 = ws_runs s2"
    by (auto simp: idempotent_def replayOperation_def bindS_Inr_iff finish_operation_def conflict_def storedRun_Inr onStore_iff
        split: option.splits if_splits dest!: saveOperation_cases)
  then show ?thesis
  proof cases
    case 1
    then show ?thesis using later key by (simp add: storedRun_Inr)
  next
    case (2 r s2 w2)
    show ?thesis
    proof (cases q)
      case (StartRequest j)
      with work 2(1) obtain d init s0 where c: "createInitialProcessRunV1 d j = Inr init" "createProcessRun init s = (Inr True, s0)"
        "advanceCurrent opts d init (si_logicalTime j) (maximumTransitionsPerAdvance (pd_limits d)) False (s0, w) = (Inr r, (s2, w2))"
        by (auto simp: start_work_def bindS_Inr_iff storedDefinition_def assertOperationCapacity_def
            preflightDefinition_def onStore_iff conflict_def split: if_splits)
      from c(1) have "key2 (pr_tenantId init) (pr_runId init) = request_key q"
        by (auto simp: StartRequest createInitialProcessRunV1_def bindE_Inr_iff Let_def)
      with process_runs.create_won[OF c(2)] have "map_of (ws_runs s0) (request_key q) = Some init" by simp
      from advance_run_kept[OF assms(2) c(3) this] 2(2) show ?thesis by simp
    next
      case (SignalRequest j)
      with work 2(1) obtain cur d sw1 where "load_run (gi_tenantId j) (gi_runId j) (gi_logicalTime j) (s, w) = (Inr (cur, d), sw1)"
        by (auto simp: signal_work_def bindS_Inr_iff)
      from load_run_Inr(1)[OF this] later SignalRequest show ?thesis by simp
    next
      case (CancelRequest j)
      with work 2(1) obtain cur d sw1 where "load_run (ci_tenantId j) (ci_runId j) (ci_logicalTime j) (s, w) = (Inr (cur, d), sw1)"
        by (auto simp: cancel_work_def bindS_Inr_iff)
      from load_run_Inr(1)[OF this] later CancelRequest show ?thesis by simp
    next
      case (AdvanceRequest j)
      with work 2(1) obtain cur d sw1 where "load_run (ai_tenantId j) (ai_runId j) (ai_logicalTime j) (s, w) = (Inr (cur, d), sw1)"
        by (auto simp: advance_work_def bindS_Inr_iff)
      from load_run_Inr(1)[OF this] later AdvanceRequest show ?thesis by simp
    qed
  qed
qed

lemma operate_replays:
  fixes opts opts' :: "'w options"
  assumes "operate opts q (s, w) = (Inr res, (s1, w1))" "ports_ok opts" "store_ok s" "store_step\<^sup>*\<^sup>* s1 s2"
  obtains run where "map_of (ws_runs s2) (request_key q) = Some run"
    "operate opts' q (s2, w2) = (Inr \<lparr>or_disposition = Replayed, or_run = run\<rparr>, (s2, w2))"
proof -
  from assms(1) obtain t k key dg i work where
    op: "operate opts q (s, w) = idempotent t k key dg i work (s, w)" and req: "request_key q = key2 t i"
    and again: "\<And>(opts' :: 'w options) sw2. \<exists>work'. operate opts' q sw2 = idempotent t k key dg i work' sw2"
    by (rule operate_idempotent) blast
  from op assms(1) have "idempotent t k key dg i work (s, w) = (Inr res, (s1, w1))" by simp
  from idempotent_retains[OF this] have "retained s1 t k key dg i" by simp
  with assms(4) have ret: "retained s2 t k key dg i" by (rule retained_persists)
  obtain run1 where "map_of (ws_runs s1) (request_key q) = Some run1" using operate_stored[OF assms(1,2)] by blast
  from process_runs.steps_keep[OF assms(4) this] obtain run where run: "map_of (ws_runs s2) (key2 t i) = Some run"
    using req by auto
  have "store_ok s2" using store_ok_steps[OF _ assms(3)] operate_steps[OF assms(2,1)] assms(4) by (meson rtranclp_trans)
  with run have "validateProcessRunV1 run = Inr run" by (auto simp: store_ok_def entries_def)
  from idempotent_replays[OF ret run this] again[of opts' "(s2, w2)"] run req that show thesis by fastforce
qed

text \<open>
  A predicate on runs that every draft invariant and the cancellation keep is kept from the
  stored run to the returned one.
\<close>

definition draft_kept :: "process_definition \<Rightarrow> (process_run \<Rightarrow> bool) \<Rightarrow> bool" where
  "draft_kept d P \<longleftrightarrow> draft_invariant d P \<and>
     (\<forall>run opId reason t r. cancelDraft d run opId reason t = Inr r \<longrightarrow> P run \<longrightarrow> P r)"

lemma work_keeps:
  assumes "work = (case q of StartRequest j \<Rightarrow> start_work opts j | SignalRequest j \<Rightarrow> signal_work opts j
       | CancelRequest j \<Rightarrow> cancel_work opts j | AdvanceRequest j \<Rightarrow> advance_work opts j)"
    "work (s, w) = (Inr run', sw')" "map_of (ws_runs s) (request_key q) = Some run" "P run"
    and kept: "\<And>d. getProcessDefinition (pr_tenantId run) (pr_processId run) (pr_processVersion run) s = Some d
      \<Longrightarrow> validateProcessDefinitionV1 d = Inr d \<Longrightarrow> draft_kept d P"
  shows "P run'"
proof -
  have adv: "P b" if "advanceCurrent opts d a t n f sw1 = (Inr b, sw2)" "P a" "draft_kept d P" for d a t n f sw1 b sw2
    using that draft_invariant.keeps_advance unfolding draft_kept_def by blast
  show ?thesis
  proof (cases q)
    case (StartRequest j)
    with assms(1,2) obtain d init s1 where "createInitialProcessRunV1 d j = Inr init"
      "createProcessRun init s = (Inr True, s1)"
      by (auto simp: start_work_def bindS_Inr_iff storedDefinition_def assertOperationCapacity_def
          preflightDefinition_def onStore_iff conflict_def split: if_splits)
    moreover from this(1) have "pr_tenantId init = si_tenantId j" "pr_runId init = si_runId j"
      by (auto simp: createInitialProcessRunV1_def bindE_Inr_iff Let_def)
    ultimately show ?thesis
      using assms(3) StartRequest by (auto dest!: createProcessRun_cases)
  next
    case (SignalRequest j)
    with assms(1,2) obtain cur d sw1 where l: "load_run (gi_tenantId j) (gi_runId j) (gi_logicalTime j) (s, w) = (Inr (cur, d), sw1)"
      by (auto simp: signal_work_def bindS_Inr_iff)
    note lr = load_run_Inr[OF l]
    with assms(3) SignalRequest have cur: "cur = run" by simp
    have k: "draft_kept d P" using kept lr cur by simp
    from assms(1,2) SignalRequest l obtain sg sw2 where rest: "(case cancellation_trigger_for d sg of
         Some trigger \<Rightarrow>
           if terminalRun (pr_status cur)
           then advanceCurrent opts d cur (gi_logicalTime j) (maximumTransitionsPerAdvance (pd_limits d)) False
           else bindS (liftE (cancelDraft d cur (gi_operationId j) (trig_reasonCode trigger) (gi_logicalTime j)))
             (\<lambda>prepared. advanceCurrent opts d prepared (gi_logicalTime j)
               (maximumTransitionsPerAdvance (pd_limits d)) True)
       | None \<Rightarrow> advanceCurrent opts d cur (gi_logicalTime j)
           (maximumTransitionsPerAdvance (pd_limits d)) False) sw2 = (Inr run', sw')"
      by (auto simp: signal_work_def bindS_Inr_iff)
    have "\<exists>f a n. advanceCurrent opts d a (gi_logicalTime j) n f sw2 = (Inr run', sw')
      \<and> (a = cur \<or> (\<exists>opId reason t. cancelDraft d cur opId reason t = Inr a))"
    proof (cases "cancellation_trigger_for d sg")
      case (Some trigger)
      show ?thesis
      proof (cases "terminalRun (pr_status cur)")
        case False
        with rest Some obtain a where "cancelDraft d cur (gi_operationId j) (trig_reasonCode trigger) (gi_logicalTime j) = Inr a"
          "advanceCurrent opts d a (gi_logicalTime j) (maximumTransitionsPerAdvance (pd_limits d)) True sw2 = (Inr run', sw')"
          by (auto simp: bindS_Inr_iff)
        then show ?thesis by blast
      qed (use rest Some in auto)
    qed (use rest in auto)
    with k cur assms(4) show ?thesis by (auto simp: draft_kept_def intro: adv[OF _ _ k])
  next
    case (CancelRequest j)
    with assms(1,2) obtain cur d sw1 where l: "load_run (ci_tenantId j) (ci_runId j) (ci_logicalTime j) (s, w) = (Inr (cur, d), sw1)"
      by (auto simp: cancel_work_def bindS_Inr_iff)
    note lr = load_run_Inr[OF l]
    with assms(3) CancelRequest have cur: "cur = run" by simp
    have k: "draft_kept d P" using kept lr cur by simp
    show ?thesis
    proof (cases "terminalRun (pr_status cur)")
      case False
      with assms(1,2) CancelRequest l obtain a where
        "advanceCurrent opts d a (ci_logicalTime j) (maximumTransitionsPerAdvance (pd_limits d)) True sw1 = (Inr run', sw')"
        "cancelDraft d cur (ci_operationId j) (ci_reasonCode j) (ci_logicalTime j) = Inr a"
        by (auto simp: cancel_work_def bindS_Inr_iff)
      with k cur assms(4) show ?thesis by (auto simp: draft_kept_def intro: adv[OF _ _ k])
    qed (use assms(1,2,4) CancelRequest l cur in \<open>auto simp: cancel_work_def bindS_Inr_iff\<close>)
  next
    case (AdvanceRequest j)
    with assms(1,2) obtain cur d sw1 where l: "load_run (ai_tenantId j) (ai_runId j) (ai_logicalTime j) (s, w) = (Inr (cur, d), sw1)"
      by (auto simp: advance_work_def bindS_Inr_iff)
    note lr = load_run_Inr[OF l]
    with assms(3) AdvanceRequest have cur: "cur = run" by simp
    have k: "draft_kept d P" using kept lr cur by simp
    show ?thesis
    proof (cases "terminalRun (pr_status cur)")
      case False
      with assms(1,2) AdvanceRequest l obtain n where
        "advanceCurrent opts d cur (ai_logicalTime j) n False sw1 = (Inr run', sw')"
        by (auto simp: advance_work_def bindS_Inr_iff Let_def)
      with cur assms(4) show ?thesis by (auto intro: adv[OF _ _ k])
    qed (use assms(1,2,4) AdvanceRequest l cur in \<open>auto simp: advance_work_def bindS_Inr_iff Let_def\<close>)
  qed
qed

lemma operate_keeps:
  assumes "operate opts q (s, w) = (Inr res, sw')" "map_of (ws_runs s) (request_key q) = Some run" "P run"
    and kept: "\<And>d. getProcessDefinition (pr_tenantId run) (pr_processId run) (pr_processVersion run) s = Some d
      \<Longrightarrow> validateProcessDefinitionV1 d = Inr d \<Longrightarrow> draft_kept d P"
  shows "P (or_run res)"
proof -
  from assms(1) obtain t k key dg i work where
    op: "operate opts q (s, w) = idempotent t k key dg i work (s, w)"
    and key: "request_key q = key2 t i"
    and work: "work = (case q of StartRequest j \<Rightarrow> start_work opts j | SignalRequest j \<Rightarrow> signal_work opts j
       | CancelRequest j \<Rightarrow> cancel_work opts j | AdvanceRequest j \<Rightarrow> advance_work opts j)"
    by (rule operate_idempotent) blast
  from op assms(1) have "idempotent t k key dg i work (s, w) = (Inr res, sw')" by simp
  then consider r where "storedRun t i (s, w) = (Inr r, (s, w))" "or_run res = r"
    | r sw1 where "work (s, w) = (Inr r, sw1)" "or_run res = r"
    by (auto simp: idempotent_def replayOperation_def bindS_Inr_iff finish_operation_def conflict_def storedRun_Inr
        split: option.splits if_splits)
  then show ?thesis
  proof cases
    case 1
    then show ?thesis using assms(2,3) key by (simp add: storedRun_Inr)
  next
    case 2
    then show ?thesis using work_keeps[OF work _ assms(2,3) kept] by auto
  qed
qed

subsection \<open>The three invariants\<close>

lemma evolves_kept: "draft_kept d (run_evolves r)"
  unfolding draft_kept_def
  using evolution.draft_invariant_axioms cancelDraft_evolves run_evolves_trans by blast

lemma cancel_attempts:
  assumes "cancelDraft d run opId reason t = Inr r" "\<forall>s \<in> set (pr_stageStates run). attempt_ok d s"
  shows "\<forall>s \<in> set (pr_stageStates r). attempt_ok d s"
proof -
  from assms(1) obtain states where m: "mapE (cancel_stage_state d t) (pr_stageStates run) = Inr states"
    and r: "pr_stageStates r = states" by (elim cancelDraft_Inr) simp
  have "attempt_ok d s'" if "cancel_stage_state d t s = Inr s'" "attempt_ok d s" for s s'
    using that by (auto simp: cancel_stage_state_def attempt_ok_def split: option.splits if_splits)
  note one = this
  have "attempt_ok d s'" if s': "s' \<in> set states" for s'
  proof -
    from s' obtain k where k: "k < length states" "states ! k = s'" by (auto simp: in_set_conv_nth)
    with mapE_Inr[OF m] have "cancel_stage_state d t (pr_stageStates run ! k) = Inr s'" "k < length (pr_stageStates run)"
      by (auto simp: list_all2_conv_all_nth)
    with one assms(2) show ?thesis by simp
  qed
  then show ?thesis by (simp add: r)
qed

lemma attempts_kept: "draft_kept d (attempts_ok d)"
  unfolding draft_kept_def
  using attempts.draft_invariant_axioms cancel_attempts by (fastforce simp: attempts_ok_def)

lemma signals_kept: "draft_kept d signals_once"
proof -
  have "map ss_consumedSignalId states = map ss_consumedSignalId ss" if "mapE (cancel_stage_state d t) ss = Inr states" for t ss states
  proof -
    have "ss_consumedSignalId s' = ss_consumedSignalId s" if "cancel_stage_state d t s = Inr s'" for s s'
      using that by (auto simp: cancel_stage_state_def split: option.splits if_splits)
    with mapE_Inr[OF that] show ?thesis
      by (intro nth_equalityI) (auto simp: list_all2_conv_all_nth)
  qed
  then have "cancelDraft d run opId reason t = Inr r \<Longrightarrow> signals_once run \<Longrightarrow> signals_once r" for run opId reason t r
    by (elim cancelDraft_Inr) (simp add: signals_once_def)
  then show ?thesis unfolding draft_kept_def using single_use.draft_invariant_axioms by blast
qed

end
