(* ===== verification/WfDefects.thy ===== *)
theory WfDefects
  imports WfOperations
begin

text \<open>
  Lemmas behind the behaviours of the runner that its callers would not expect: a cancellation
  without compensations that is not committed, a second cancellation that leaves the run
  canceling for ever, and a task that keeps every later stage from running.
\<close>

subsection \<open>A cancellation that is not committed\<close>

lemma pending_none:
  assumes "\<forall>s \<in> set (pr_stageStates run). ss_outcome s \<noteq> Some Succeeded"
  shows "pending_compensations d run topological = []"
  using assms by (auto simp: pending_compensations_def Let_def filter_empty_conv split: option.splits dest!: map_of_SomeD)

lemma cancelDraft_none:
  assumes "cancelDraft d run opId reason t = Inr r"
    "\<forall>s \<in> set (pr_stageStates run). ss_outcome s \<noteq> Some Succeeded"
  shows "pr_status r = RCanceled"
  using assms(1) by (elim cancelDraft_Inr) (simp add: pending_none[OF assms(2)])

lemma cancel_work_uncommitted:
  assumes "cancel_work opts i (s, w) = (Inr r, sw')" "getProcessRun (ci_tenantId i) (ci_runId i) s = Some run"
    "\<not> terminalRun (pr_status run)" "\<forall>st \<in> set (pr_stageStates run). ss_outcome st \<noteq> Some Succeeded"
  shows "pr_status r = RCanceled \<and> sw' = (s, w)"
proof -
  from assms(1) obtain cur d sw1 where l: "load_run (ci_tenantId i) (ci_runId i) (ci_logicalTime i) (s, w) = (Inr (cur, d), sw1)"
    by (auto simp: cancel_work_def bindS_Inr_iff)
  note lr = load_run_Inr[OF l]
  with assms(2) have cur: "cur = run" "sw1 = (s, w)" by (simp_all add: getProcessRun_def)
  from assms(1,3) l cur obtain p where p: "cancelDraft d run (ci_operationId i) (ci_reasonCode i) (ci_logicalTime i) = Inr p"
    and adv: "advanceCurrent opts d p (ci_logicalTime i) (maximumTransitionsPerAdvance (pd_limits d)) True (s, w) = (Inr r, sw')"
    by (auto simp: cancel_work_def bindS_Inr_iff)
  from cancelDraft_none[OF p assms(4)] have "terminalRun (pr_status p)" by (simp add: terminalRun_def)
  with adv cancelDraft_none[OF p assms(4)] show ?thesis by (simp add: advanceCurrent_def)
qed

lemma saveOperation_runs: "saveOperation op s = (r, s') \<Longrightarrow> ws_runs s' = ws_runs s"
  by (drule saveOperation_cases) auto

subsection \<open>A second cancellation\<close>

lemma visit_stages_idle:
  assumes "\<forall>st \<in> set sts. \<exists>s. mutableState run (st_stageId st) = Inr s \<and> ss_status s \<notin> {Ready, Waiting}"
  shows "visit_stages opts run t sts sw = (Inr (False, run), sw)"
  using assms
proof (induction sts)
  case (Cons st sts)
  then obtain s where "mutableState run (st_stageId st) = Inr s" "ss_status s \<notin> {Ready, Waiting}" by auto
  then have "visit_stage opts run st t sw = (Inr (None, run), sw)"
    by (simp add: visit_stage_def bindS_def)
  with Cons show ?case by (simp add: bindS_def)
qed simp

lemma cancel_keeps_compensation:
  assumes "cancelDraft d run opId reason t = Inr r" "mutableState run i = Inr s"
    "i \<in> st_stageId ` set (filter is_compensation (pd_stages d))"
  shows "mutableState r i = Inr s"
proof -
  from assms(1) obtain states where m: "mapE (cancel_stage_state d t) (pr_stageStates run) = Inr states"
    and wf: "well_formed_stages (pd_stages d)" and r: "pr_stageStates r = states"
    by (elim cancelDraft_Inr) simp
  from assms(3) obtain st where st: "st \<in> set (pd_stages d)" "is_compensation st" "st_stageId st = i" by auto
  have same: "cancel_stage_state d t x = Inr y \<Longrightarrow> ss_stageId y = ss_stageId x \<and> (ss_stageId x = i \<longrightarrow> y = x)" for x y
  proof -
    assume c: "cancel_stage_state d t x = Inr y"
    then obtain st' where st': "find (\<lambda>s. st_stageId s = ss_stageId x) (pd_stages d) = Some st'"
      "y = (if is_compensation st' then x else if ss_status x \<noteq> Terminal then terminal Canceled t None x else x)"
      by (auto simp: cancel_stage_state_def split: option.splits)
    from st'(1) have "st' \<in> set (pd_stages d)" "st_stageId st' = ss_stageId x" by (auto simp: find_Some_iff)
    moreover have "st' = st" if "ss_stageId x = i"
      using wf calculation st that by (simp add: well_formed_stages_def distinct_map inj_on_def)
    ultimately show ?thesis using st(2) st'(2) by auto
  qed
  have "list_all2 (\<lambda>x y. cancel_stage_state d t x = Inr y) ss ss' \<Longrightarrow> find (\<lambda>s. ss_stageId s = i) ss = Some s \<Longrightarrow>
    find (\<lambda>s. ss_stageId s = i) ss' = Some s" for ss ss'
    by (induction ss ss' rule: list_all2_induct) (auto dest!: same split: if_splits)
  with mapE_Inr[OF m] assms(2) show ?thesis by (simp add: mutableState_Inr r)
qed

lemma second_cancel_idle:
  assumes c: "cancelDraft d run opId reason t = Inr r" and m: "states_match d run"
    and comp: "\<And>st s. st \<in> set (pd_stages d) \<Longrightarrow> is_compensation st \<Longrightarrow> mutableState run (st_stageId st) = Inr s
      \<Longrightarrow> ss_status s \<in> {Blocked, Terminal} \<and> ss_outcome s \<noteq> Some Failed"
    and cn: "pr_cancellation r = Some cn" "cn_pendingCompensationStageIds cn = i # rest"
    and head: "mutableState run i = Inr hs" "ss_status hs = Terminal"
    and i: "i \<in> st_stageId ` set (filter is_compensation (pd_stages d))"
  shows "transitionOne opts d r t' sw = (Inr (False, r), sw)"
    "settle_draft d t' r = Inr (r\<lparr>pr_status := RCanceling\<rparr>)"
proof -
  have idle: "\<exists>s. mutableState r (st_stageId st) = Inr s \<and> ss_status s \<notin> {Ready, Waiting}
      \<and> (is_compensation st \<longrightarrow> ss_outcome s \<noteq> Some Failed)" if st: "st \<in> set (pd_stages d)" for st
  proof (cases "st_stageId st \<in> st_stageId ` set (filter is_compensation (pd_stages d))")
    case True
    then obtain st' where st': "st' \<in> set (pd_stages d)" "is_compensation st'" "st_stageId st' = st_stageId st" by auto
    from m st obtain s where s: "mutableState run (st_stageId st) = Inr s"
      by (rule states_match_state[OF _ imageI]) blast
    with comp[of st' s] st' have "ss_status s \<in> {Blocked, Terminal}" "ss_outcome s \<noteq> Some Failed" by auto
    with cancel_keeps_compensation[OF c s True] show ?thesis by auto
  next
    case False
    then have n: "normal_stage d (st_stageId st)" using st by (auto simp: normal_stage_def)
    from states_match_evolves[OF m cancelDraft_evolves[OF c]] st obtain s where s: "mutableState r (st_stageId st) = Inr s"
      by (rule states_match_state[OF _ imageI]) blast
    with cancelDraft_terminal[OF c n s] False st show ?thesis by auto
  qed
  have "mutableState r i = Inr hs" by (rule cancel_keeps_compensation[OF c head(1) i])
  then have "ready_compensation r = Inr r" using cn head(2) by (simp add: ready_compensation_def)
  moreover have "visit_stages opts r t' (pd_stages d) sw = (Inr (False, r), sw)"
    by (rule visit_stages_idle) (use idle in blast)
  ultimately show "transitionOne opts d r t' sw = (Inr (False, r), sw)"
    by (simp add: transitionOne_def bindS_def)
  let ?get = "\<lambda>st. mutableState r (st_stageId st)"
  have get: "?get st = Inr (case ?get st of Inr s \<Rightarrow> s)" if "st \<in> set (filter is_compensation (pd_stages d))" for st
    using idle[of st] that by auto
  have ne: "\<not> list_ex (\<lambda>s. ss_status s = Terminal \<and> ss_outcome s = Some Failed)
      (map (\<lambda>st. case ?get st of Inr s \<Rightarrow> s) (filter is_compensation (pd_stages d)))"
    using idle by (fastforce simp: list_ex_iff)
  show "settle_draft d t' r = Inr (r\<lparr>pr_status := RCanceling\<rparr>)"
    using cn callbacks_pure(1)[OF get, of "filter is_compensation (pd_stages d)"] ne
    by (simp add: settle_draft_def activateStages_def settleRunStatus_def settle_canceling_def)
qed

text \<open>The queue of the second cancellation is the queue of the first.\<close>

lemma states_lookup:
  "distinct (map ss_stageId ss) \<Longrightarrow>
     map_of (rev (map (\<lambda>s. (ss_stageId s, s)) ss)) i = find (\<lambda>s. ss_stageId s = i) ss"
proof (induction ss)
  case (Cons s ss)
  have "find (\<lambda>t. ss_stageId t = i) ss = None" if "ss_stageId s = i"
    using Cons.prems that unfolding find_None_iff by (auto simp: image_def)
  with Cons show ?case by (auto simp: map_add_def split: option.splits)
qed simp

lemma compensation_of_normal:
  assumes "well_formed_stages (pd_stages d)" "compensation_of d i \<noteq> None"
  shows "normal_stage d i"
proof -
  have keys: "fst ` set (fold (\<lambda>s m. AList.update (compensation_target s) (st_stageId s) m) ss m)
      \<subseteq> compensation_target ` set ss \<union> fst ` set m" for ss :: "process_stage list" and m
  proof (induction ss arbitrary: m)
    case (Cons s ss)
    have "fst ` set (AList.update (compensation_target s) (st_stageId s) m) \<subseteq> insert (compensation_target s) (fst ` set m)"
      by (simp add: dom_update)
    with Cons.IH[of "AList.update (compensation_target s) (st_stageId s) m"] show ?case by auto
  qed simp
  from assms(2) obtain c where "map_of (compensationsByTarget d) i = Some c"
    by (auto simp: compensation_of_def)
  then have "i \<in> fst ` set (compensationsByTarget d)" by (force dest: map_of_SomeD)
  with keys[of "filter is_compensation (pd_stages d)" "[]"] obtain s where s: "s \<in> set (pd_stages d)" "is_compensation s"
    "compensation_target s = i"
    by (auto simp: compensationsByTarget_def)
  with assms(1) have "validate_compensation (pd_stages d) s = Inr ()"
    by (simp add: well_formed_stages_def list_all_iff)
  with s(2,3) obtain target where t: "stage_by_id (pd_stages d) i = Some target" "\<not> is_compensation target"
    by (auto simp: validate_compensation_def split: option.splits if_splits)
  note t' = stage_by_id_Some[OF t(1)]
  have "inj_on st_stageId (set (pd_stages d))"
    using assms(1) unfolding well_formed_stages_def distinct_map by blast
  then have only: "s' = target" if "s' \<in> set (pd_stages d)" "st_stageId s' = i" for s'
    using that t' by (metis inj_onD)
  have "i \<notin> st_stageId ` set (filter is_compensation (pd_stages d))"
  proof
    assume "i \<in> st_stageId ` set (filter is_compensation (pd_stages d))"
    then obtain s' where "s' \<in> set (pd_stages d)" "is_compensation s'" "st_stageId s' = i" by auto
    with only[of s'] t(2) show False by blast
  qed
  moreover have "i \<in> st_stageId ` set (pd_stages d)" using t' by (metis imageI)
  ultimately show ?thesis by (simp only: normal_stage_def simp_thms)
qed

lemma cancelDraft_state:
  assumes "cancelDraft d run opId reason t = Inr r" "mutableState run i = Inr s"
  obtains s' where "mutableState r i = Inr s'" "cancel_stage_state d t s = Inr s'"
proof -
  from assms(1) obtain states where m: "mapE (cancel_stage_state d t) (pr_stageStates run) = Inr states"
    and r: "pr_stageStates r = states"
    by (elim cancelDraft_Inr) simp
  have same: "cancel_stage_state d t x = Inr y \<Longrightarrow> ss_stageId y = ss_stageId x" for x y
    by (auto simp: cancel_stage_state_def split: option.splits if_splits)
  have "list_all2 (\<lambda>x y. cancel_stage_state d t x = Inr y) ss ss' \<Longrightarrow> find (\<lambda>s. ss_stageId s = i) ss = Some s \<Longrightarrow>
    \<exists>s'. find (\<lambda>s. ss_stageId s = i) ss' = Some s' \<and> cancel_stage_state d t s = Inr s'" for ss ss'
    by (induction ss ss' rule: list_all2_induct) (auto dest!: same split: if_splits)
  from this[OF mapE_Inr[OF m], folded r] assms(2) that show thesis by (auto simp: mutableState_Inr)
qed

lemma second_cancel_requeues:
  assumes first: "cancelDraft d run0 op1 reason1 t1 = Inr r1" and m: "states_match d run0"
    and ended: "\<forall>s \<in> set (pr_stageStates run0). ss_outcome s \<noteq> None \<longrightarrow> ss_status s = Terminal"
    and evolved: "run_evolves r1 run" and second: "cancelDraft d run op2 reason2 t2 = Inr r2"
  shows "map_option cn_pendingCompensationStageIds (pr_cancellation r2)
    = map_option cn_pendingCompensationStageIds (pr_cancellation r1)"
proof -
  from first obtain topological where topo: "visit_all (pd_stages d) [] (map st_stageId (pd_stages d)) [] = Inr topological"
    and wf: "well_formed_stages (pd_stages d)"
    and c1: "map_option cn_pendingCompensationStageIds (pr_cancellation r1) = Some (pending_compensations d run0 topological)"
    by (elim cancelDraft_Inr) simp
  from second topo have c2: "map_option cn_pendingCompensationStageIds (pr_cancellation r2)
      = Some (pending_compensations d run topological)"
    by (elim cancelDraft_Inr) simp
  have m': "states_match d run" using m states_match_evolves cancelDraft_evolves[OF first] evolved by blast
  have look: "map_of (rev (map (\<lambda>s. (ss_stageId s, s)) (pr_stageStates q))) i
      = (case mutableState q i of Inr s \<Rightarrow> Some s | Inl _ \<Rightarrow> None)" if "states_match d q" for q i
    using states_lookup[of "pr_stageStates q"] that wf
    by (auto simp: states_match_def well_formed_stages_def mutableState_def fail_def split: option.splits)
  have same: "\<exists>s s0. mutableState run0 i = Inr s0 \<and> mutableState run i = Inr s
      \<and> (ss_outcome s = Some Succeeded \<longleftrightarrow> ss_outcome s0 = Some Succeeded)" if i: "compensation_of d i \<noteq> None" for i
  proof -
    have n: "normal_stage d i" by (rule compensation_of_normal[OF wf i])
    then have "i \<in> st_stageId ` set (pd_stages d)" by (simp add: normal_stage_def)
    with m obtain s0 where s0: "mutableState run0 i = Inr s0" "s0 \<in> set (pr_stageStates run0)"
      by (rule states_match_state)
    obtain s1 where s1: "mutableState r1 i = Inr s1" "cancel_stage_state d t1 s0 = Inr s1"
      by (rule cancelDraft_state[OF first s0(1)])
    obtain s where s: "mutableState run i = Inr s" "stage_le s1 s"
      by (rule mutableState_evolves[OF evolved s1(1)])
    from cancelDraft_terminal[OF first n s1(1)] s(2) have "s = s1" by (simp add: stage_le_def)
    moreover have "ss_outcome s1 = Some Succeeded \<longleftrightarrow> ss_outcome s0 = Some Succeeded"
      using s1(2) ended s0(2) by (auto simp: cancel_stage_state_def split: option.splits if_splits)
    ultimately show ?thesis using s0(1) s(1) by blast
  qed
  have "pending_compensations d run topological = pending_compensations d run0 topological"
    unfolding pending_compensations_def Let_def look[OF m] look[OF m'] compensation_of_def[symmetric]
    using same by (intro arg_cong[where f = "map _"] filter_cong refl) fastforce
  with c1 c2 show ?thesis by (simp only:)
qed

subsection \<open>A task in flight ends the round\<close>

lemma transition_blocked:
  assumes d: "pd_stages d = pre @ st # post" and c: "pr_cancellation run = None"
    and pre: "\<forall>x \<in> set pre. \<exists>s. mutableState run (st_stageId x) = Inr s \<and> ss_status s \<notin> {Ready, Waiting}"
    and st: "is_task st" "mutableState run (st_stageId st) = Inr s" "ss_status s = Waiting"
      "truthy (ss_taskRunId s)" "ss_reasonCode s = Some reason"
    and td: "getTaskDefinition (pr_tenantId run) (task_definitionId (st_kind st))
         (task_definitionVersion (st_kind st)) (fst sw) = Some td"
    and res: "executeTask opts run st td (ss_attempt s) (the (ss_taskRunId s)) t sw = (Inr result, sw')"
      "result = TaskInFlight reason \<or> result = TaskIndeterminate reason usage"
  shows "transitionOne opts d run t sw = (Inr (False, run), sw')"
proof -
  have "s\<lparr>ss_status := Waiting, ss_reasonCode := Some reason\<rparr> = s" using st(3,5) by simp
  then have ap: "applyTaskResult st result t s = (False, s)"
    using res(2) st(3,5) by (auto simp: applyTaskResult_def)
  have "advanceCompensationQueue st s run = run" using c by (simp add: advanceCompensationQueue_def)
  then have settle: "settle_stage run st result t = Inr (False, run)"
    using st(2) set_state_self[OF st(2)] by (simp add: settle_stage_def ap)
  have "stored_task_definition run st sw = (Inr td, sw)"
    using td by (cases sw) (simp add: stored_task_definition_def bindS_def)
  then have visit: "visit_stage opts run st t sw = (Inr (Some False, run), sw')"
    using st res(1) settle
    by (cases "st_kind st") (auto simp: visit_stage_def visit_waiting_def visit_waiting_task_def bindS_def is_task_def)
  have "visit_stages opts run t (pre @ st # post) sw = (Inr (False, run), sw')"
    using pre
  proof (induction pre)
    case Nil
    then show ?case using visit by (simp add: bindS_def)
  next
    case (Cons x pre)
    then obtain sx where "mutableState run (st_stageId x) = Inr sx" "ss_status sx \<notin> {Ready, Waiting}" by auto
    then have "visit_stage opts run x t sw = (Inr (None, run), sw)" by (simp add: visit_stage_def bindS_def)
    with Cons show ?case by (simp add: bindS_def)
  qed
  with c d show ?thesis by (simp add: transitionOne_def ready_compensation_def bindS_def)
qed

end
