(* ===== verification/WfSamples.thy ===== *)
theory WfSamples
  imports WfDefects
begin

text \<open>
  Concrete values at which the properties are exercised: process and task definitions, runs,
  task runs and stores whose digests are the ones the code computes. A digest is kept as the
  value of \<open>digestWorkflowJsonV1\<close> on the concrete body (\<open>digest_total\<close> shows
  that it exists); nothing else about it is needed.
\<close>

definition the_digest :: "string \<Rightarrow> json \<Rightarrow> string" where
  "the_digest domain v = (case digestWorkflowJsonV1 domain v of Inr d \<Rightarrow> d | Inl _ \<Rightarrow> [])"

lemma the_digest:
  assumes "digestible v" "valid_token domain"
  shows "digestWorkflowJsonV1 domain v = Inr (the_digest domain v)" "valid_digest (the_digest domain v)"
proof -
  obtain d where "digestWorkflowJsonV1 domain v = Inr d" "valid_digest d" by (rule digest_total[OF assms])
  then show "digestWorkflowJsonV1 domain v = Inr (the_digest domain v)" "valid_digest (the_digest domain v)"
    by (simp_all add: the_digest_def)
qed

lemma the_digest_length:
  assumes "digestible v" "valid_token domain"
  shows "length (the_digest domain v) = 71"
  using the_digest(2)[OF assms] by (simp add: valid_digest_def)

subsection \<open>A process that waits for a signal\<close>

definition signal_stage :: "string \<Rightarrow> process_stage" where
  "signal_stage i = \<lparr>st_schemaVersion = 1, st_stageId = i, st_name = i, st_dependsOn = [],
     st_dependencyMode = None, st_timeoutMs = None, st_metadata = None,
     st_kind = AwaitSignalStage ''go'' None\<rparr>"

definition definition_body :: "process_stage list \<Rightarrow> process_definition" where
  "definition_body stages = \<lparr>pd_schemaVersion = 1, pd_processId = ''p'', pd_version = ''1'', pd_name = ''p'',
     pd_stages = stages, pd_cancellationTriggers = None,
     pd_limits = DEFAULT_PROCESS_DEFINITION_LIMITS_V1, pd_definitionDigest = []\<rparr>"

definition sample_definition :: "process_stage list \<Rightarrow> process_definition" where
  "sample_definition stages = (definition_body stages)
     \<lparr>pd_definitionDigest := the_digest ''process-definition'' (process_definition_json (definition_body stages))\<rparr>"

lemma tokens [simp]: "valid_token ''process-definition''" "valid_token ''process-run-state''"
  "valid_token ''task-run-state''" "valid_token ''task-execution-binding''" "valid_token ''task-definition''"
  "valid_token ''cancel''" "valid_token ''advance''" "valid_token ''start''" "valid_token ''task-lease''"
  "valid_token ''task-run-input''" "valid_token ''process-signal''" "valid_token ''signal-operation''"
  by code_simp+

lemma definition_body_schema [simp]: "pd_schemaVersion (definition_body stages) = 1"
  by (simp add: definition_body_def)

lemma sample_definition_valid:
  assumes "validateProcessDefinitionBodyV1 (definition_body stages) = Inr ()"
    "digestible (process_definition_json (definition_body stages))"
  shows "validateProcessDefinitionV1 (sample_definition stages) = Inr (sample_definition stages)"
  using assms the_digest[OF assms(2), of "''process-definition''"]
  by (simp add: validateProcessDefinitionV1_def sample_definition_def process_definition_digest_irrelevant
      digest_def require_def)

lemma signal_body_valid: "validateProcessDefinitionBodyV1 (definition_body [signal_stage ''a'']) = Inr ()"
  by code_simp

lemmas json_simps = digestible_def jobject_def map_filter_simps process_definition_json_def stage_json_def
  stage_kind_fields_def limits_json_def dependency_json_def process_run_json_def stage_state_json_def
  task_run_json_def binding_json_def binding_fields_def binding_input_fields_def binding_body_json_def
  usage_json_def cancellation_json_def cancel_input_json_def advance_input_json_def start_input_json_def
  signal_input_json_def signal_content_json_def signal_json_def isSafeInteger_def maximumSafeInteger_def
  task_definition_json_def action_binding_json_def no_binding_input_def

lemma signal_body_digestible: "digestible (process_definition_json (definition_body [signal_stage ''a'']))"
  by (simp add: json_simps definition_body_def signal_stage_def DEFAULT_PROCESS_DEFINITION_LIMITS_V1_def)

lemma length_definition_digest [simp]:
  "digestible (process_definition_json (definition_body stages)) \<Longrightarrow>
     length (pd_definitionDigest (sample_definition stages)) = 71"
  by (simp add: sample_definition_def the_digest_length)

lemma valid_definition_digest:
  "digestible (process_definition_json (definition_body stages)) \<Longrightarrow>
     valid_digest (pd_definitionDigest (sample_definition stages))"
  by (simp add: sample_definition_def the_digest)

definition signal_definition :: process_definition where
  "signal_definition = sample_definition [signal_stage ''a'']"

lemma signal_definition_valid: "validateProcessDefinitionV1 signal_definition = Inr signal_definition"
  unfolding signal_definition_def
  by (rule sample_definition_valid[OF signal_body_valid signal_body_digestible])

lemma signal_definition_fields [simp]:
  "pd_stages signal_definition = [signal_stage ''a'']" "pd_processId signal_definition = ''p''"
  "pd_version signal_definition = ''1''" "pd_limits signal_definition = DEFAULT_PROCESS_DEFINITION_LIMITS_V1"
  "pd_cancellationTriggers signal_definition = None"
  by (simp_all add: signal_definition_def sample_definition_def definition_body_def)

subsection \<open>Runs\<close>

definition time0 :: string where
  "time0 = ''2026-01-01T00:00:00.000Z''"

lemma time0_parse: "date_parse time0 = Some 1767225600000"
  by code_simp

definition plain_state :: "string \<Rightarrow> stage_status \<Rightarrow> stage_outcome option \<Rightarrow> stage_state" where
  "plain_state i st oc = \<lparr>ss_stageId = i, ss_status = st, ss_outcome = oc, ss_attempt = 0,
     ss_taskRunId = None, ss_waitUntil = None, ss_consumedSignalId = None, ss_gateRequestId = None,
     ss_startedAt = None, ss_finishedAt = None, ss_reasonCode = None\<rparr>"

definition run_body :: "process_definition \<Rightarrow> int \<Rightarrow> run_status \<Rightarrow> stage_state list \<Rightarrow> process_run" where
  "run_body d n st states = \<lparr>pr_schemaVersion = 1, pr_tenantId = ''t'', pr_runId = ''r'',
     pr_processId = ''p'', pr_processVersion = ''1'', pr_definitionDigest = pd_definitionDigest d,
     pr_revision = n, pr_status = st, pr_stageStates = states, pr_input = None, pr_result = None,
     pr_subject = None, pr_cancellation = None, pr_createdAt = time0, pr_updatedAt = time0,
     pr_stateDigest = []\<rparr>"

definition sample_run :: "process_definition \<Rightarrow> int \<Rightarrow> run_status \<Rightarrow> stage_state list \<Rightarrow> process_run" where
  "sample_run d n st states = (run_body d n st states)
     \<lparr>pr_stateDigest := the_digest ''process-run-state'' (process_run_json (run_body d n st states))\<rparr>"

lemma process_run_digest_irrelevant [simp]: "process_run_json (r\<lparr>pr_stateDigest := x\<rparr>) = process_run_json r"
  by (simp add: process_run_json_def)

lemma sample_run_valid:
  assumes "digestible (process_run_json (run_body d n st states))" "valid_digest (pd_definitionDigest d)"
    "foldE validate_stage_state [] states = Inr ids" "states \<noteq> []" "isSafeInteger n" "0 \<le> n"
  shows "validateProcessRunV1 (sample_run d n st states) = Inr (sample_run d n st states)"
proof -
  have t: "valid_token ''t''" "valid_token ''r''" "valid_token ''p''" "valid_token ''1''" by code_simp+
  note dg = the_digest[OF assms(1), of "''process-run-state''", simplified]
  have "processRunDigest (sample_run d n st states) = Inr (pr_stateDigest (sample_run d n st states))"
    using dg(1) by (simp add: processRunDigest_def sample_run_def)
  then show ?thesis
    using assms t dg(2)
    by (simp add: validateProcessRunV1_def sample_run_def run_body_def seqE.simps time0_parse
        token_def digest_def timestamp_def require_def)
qed

definition signal_run :: "int \<Rightarrow> process_run" where
  "signal_run n = sample_run signal_definition n RWaiting [plain_state ''a'' Waiting None]"

lemma signal_run_valid:
  assumes "0 \<le> n" "n \<le> 10"
  shows "validateProcessRunV1 (signal_run n) = Inr (signal_run n)"
proof -
  have len: "length (pd_definitionDigest signal_definition) = 71" "valid_digest (pd_definitionDigest signal_definition)"
    unfolding signal_definition_def by (simp_all add: signal_body_digestible valid_definition_digest)
  have "digestible (process_run_json (run_body signal_definition n RWaiting [plain_state ''a'' Waiting None]))"
    using assms len by (simp add: json_simps run_body_def plain_state_def time0_def)
  moreover have "foldE validate_stage_state [] [plain_state ''a'' Waiting None] = Inr [''a'']"
    by code_simp
  ultimately show ?thesis
    unfolding signal_run_def using assms len
    by (intro sample_run_valid) (auto simp: isSafeInteger_def maximumSafeInteger_def)
qed

lemma signal_run_fields [simp]:
  "pr_tenantId (signal_run n) = ''t''" "pr_runId (signal_run n) = ''r''" "pr_revision (signal_run n) = n"
  "pr_status (signal_run n) = RWaiting" "pr_stageStates (signal_run n) = [plain_state ''a'' Waiting None]"
  "pr_processId (signal_run n) = ''p''" "pr_processVersion (signal_run n) = ''1''"
  "pr_updatedAt (signal_run n) = time0" "pr_createdAt (signal_run n) = time0" "pr_cancellation (signal_run n) = None"
  by (simp_all add: signal_run_def sample_run_def run_body_def)

definition signal_store :: workflow_store where
  "signal_store = empty_store\<lparr>ws_definitions := [(key3 ''t'' ''p'' ''1'', signal_definition)],
     ws_runs := [(key2 ''t'' ''r'', signal_run 0)]\<rparr>"

definition bare_options :: "unit options" where
  "bare_options = \<lparr>op_taskExecutor = None, op_protectedTaskExecutor = None, op_taskBindingResolver = None,
     op_gateProvider = None, op_workerId = ''w'', op_taskLeaseDurationMs = 300000,
     op_localeCompare = (\<lambda>_ _. 0)\<rparr>"

lemma bare_options_ok: "ports_ok bare_options"
  by (simp add: ports_ok_def bare_options_def)

definition sample_cancel :: cancel_input where
  "sample_cancel = \<lparr>ci_tenantId = ''t'', ci_runId = ''r'', ci_operationId = ''o'', ci_idempotencyKey = ''k'',
     ci_reasonCode = ''stop'', ci_logicalTime = time0\<rparr>"

lemma signal_store_ok: "store_ok signal_store"
proof -
  have "valid_token ''t''" by code_simp
  then show ?thesis
    using signal_definition_valid signal_run_valid[of 0]
    by (auto simp: store_ok_def signal_store_def empty_store_def entries_def intro!: exI[of _ "''t''"])
qed

lemma signal_topology: "topologicalProcessStageIdsV1 signal_definition = Inr [''a'']"
proof -
  have "visit_all [signal_stage ''a''] [] (map st_stageId [signal_stage ''a'']) [] = Inr [''a'']" by code_simp
  then show ?thesis by (simp add: topologicalProcessStageIdsV1_def signal_definition_valid)
qed

lemma signal_cancelDraft: "\<exists>p. cancelDraft signal_definition (signal_run 0) opId reason t = Inr p"
  by (simp add: cancelDraft_def signal_topology Let_def cancel_stage_state_def signal_stage_def plain_state_def)

lemma signal_lookup [simp]:
  "getProcessRun ''t'' ''r'' signal_store = Some (signal_run 0)"
  "getProcessDefinition ''t'' ''p'' ''1'' signal_store = Some signal_definition"
  "getOperation t k key signal_store = None" "countOperations t i signal_store = 0"
  "ws_operations signal_store = []" "ws_runs signal_store = [(key2 ''t'' ''r'', signal_run 0)]"
  by (simp_all add: signal_store_def empty_store_def getProcessRun_def getProcessDefinition_def getOperation_def
      countOperations_def)

lemma sample_cancel_fields [simp]:
  "ci_tenantId sample_cancel = ''t''" "ci_runId sample_cancel = ''r''" "ci_operationId sample_cancel = ''o''"
  "ci_idempotencyKey sample_cancel = ''k''" "ci_reasonCode sample_cancel = ''stop''" "ci_logicalTime sample_cancel = time0"
  by (simp_all add: sample_cancel_def)

lemma sample_cancel_load:
  "load_run ''t'' ''r'' time0 (signal_store, ()) = (Inr (signal_run 0, signal_definition), (signal_store, ()))"
  using signal_run_valid[of 0] signal_definition_valid
  by (simp add: load_run_def storedRun_def storedDefinition_def assertOperationCapacity_def bindS_def
      assertTimeNotBefore_def time0_parse require_def DEFAULT_PROCESS_DEFINITION_LIMITS_V1_def)

lemma sample_cancel_work:
  "\<exists>p. cancel_work bare_options sample_cancel (signal_store, ()) = (Inr p, (signal_store, ()))"
proof -
  obtain p where p: "cancelDraft signal_definition (signal_run 0) ''o'' ''stop'' time0 = Inr p"
    using signal_cancelDraft by blast
  have "\<forall>s \<in> set (pr_stageStates (signal_run 0)). ss_outcome s \<noteq> Some Succeeded" by (simp add: plain_state_def)
  from cancelDraft_none[OF p this] have "terminalRun (pr_status p)" by (simp add: terminalRun_def)
  then show ?thesis
    by (simp add: cancel_work_def bindS_def sample_cancel_load p advanceCurrent_def terminalRun_def)
qed

lemma sample_cancel_runs:
  "\<exists>res s'. cancel bare_options sample_cancel (signal_store, ()) = (Inr res, (s', ())) \<and> or_disposition res = Applied"
proof -
  have "digestible (cancel_input_json sample_cancel)"
    by (simp add: json_simps sample_cancel_def time0_def)
  then have "\<exists>dg. digestWorkflowJsonV1 ''cancel'' (cancel_input_json sample_cancel) = Inr dg"
    using the_digest(1) by auto
  then obtain dg where dg: "digestWorkflowJsonV1 ''cancel'' (cancel_input_json sample_cancel) = Inr dg"
    by blast
  have checks: "seqE [validateMutationIdentity ''t'' ''r'' ''o'' ''k'', token ''stop'' ''reasonCode'',
      timestamp time0 ''logicalTime''] = Inr ()"
    by code_simp
  obtain p where p: "cancel_work bare_options sample_cancel (signal_store, ()) = (Inr p, (signal_store, ()))"
    using sample_cancel_work by blast
  show ?thesis
    by (simp add: cancel_def bindS_def checks dg idempotent_def replayOperation_def p finish_operation_def
        onStore_def saveOperation_def Let_def)
qed

end
