(* ===== verification/WfSignals.thy ===== *)
theory WfSignals
  imports WfOperations
begin

text \<open>
  Invariants of the stored runs over any sequence of operations. \<open>run_invariant\<close> is the
  interface: a predicate on runs that a new run satisfies and that drafts and cancellations keep.
  Inside it, no operation of any worker stores or returns a run that breaks it, as long as the ports
  do not write such runs themselves. It is interpreted on the single consumption of signals.
\<close>

subsection \<open>Computations that leave the process runs alone\<close>

definition runs_same :: "(workflow_store, 'a) comp \<Rightarrow> bool" where
  "runs_same m \<longleftrightarrow> (\<forall>s. ws_runs (snd (m s)) = ws_runs s)"

named_theorems runs_intro "computations that keep the stored process runs, or what holds of them"

lemma runs_same_pure [runs_intro]: "runs_same (retS x)" "runs_same (liftE r)" "runs_same (getsS g)"
  by (simp_all add: runs_same_def)

lemma runs_same_bindS [runs_intro]: "runs_same m \<Longrightarrow> (\<And>x. runs_same (f x)) \<Longrightarrow> runs_same (bindS m f)"
  by (auto simp: runs_same_def bindS_def split: prod.splits sum.splits) (metis snd_conv)+

lemma runs_same_control [runs_intro]:
  "runs_same a \<Longrightarrow> runs_same b \<Longrightarrow> runs_same (if c then a else b)"
  "runs_same a \<Longrightarrow> (\<And>x. runs_same (f x)) \<Longrightarrow> runs_same (case v of None \<Rightarrow> a | Some x \<Rightarrow> f x)"
  "(\<And>x. runs_same (g x)) \<Longrightarrow> (\<And>x. runs_same (h x)) \<Longrightarrow> runs_same (case w of Inl x \<Rightarrow> g x | Inr x \<Rightarrow> h x)"
  "(\<And>x. runs_same (k x)) \<Longrightarrow> runs_same (Let u k)"
  by (auto split: option.splits sum.splits)

lemma runs_same_methods [runs_intro]:
  "runs_same (createTaskRun r)" "runs_same (compareAndSetTaskRun e d r)" "runs_same (saveOperation op)"
  "runs_same (appendSignal sg)" "runs_same (getTaskRun t i)"
proof -
  have "ws_runs (snd (createTaskRun r s)) = ws_runs s" for s
    by (cases "createTaskRun r s") (auto dest!: createTaskRun_cases)
  then show "runs_same (createTaskRun r)" by (simp add: runs_same_def)
  have "ws_runs (snd (compareAndSetTaskRun e d r s)) = ws_runs s" for s
    by (cases "compareAndSetTaskRun e d r s") (auto dest!: compareAndSetTaskRun_cases)
  then show "runs_same (compareAndSetTaskRun e d r)" by (simp add: runs_same_def)
  have "ws_runs (snd (saveOperation op s)) = ws_runs s" for s
    by (cases "saveOperation op s") (auto dest!: saveOperation_cases)
  then show "runs_same (saveOperation op)" by (simp add: runs_same_def)
  have "ws_runs (snd (appendSignal sg s)) = ws_runs s" for s
    by (cases "appendSignal sg s") (auto dest!: appendSignal_cases)
  then show "runs_same (appendSignal sg)" by (simp add: runs_same_def)
  show "runs_same (getTaskRun t i)" unfolding getTaskRun_def by (intro runs_intro)
qed

lemma runs_same_execution [runs_intro]:
  "runs_same (claim_run opts run i n tid key b dg tok e t)" "runs_same (hold_lease opts tid t tr)"
  "runs_same (saveTaskTransition c n')" "runs_same (heartbeat opts t' tid tok time)"
  "runs_same (settleTask t' tid ls time result)" "runs_same (retain_signal opts d sgi)"
  unfolding claim_run_def hold_lease_def saveTaskTransition_def heartbeat_def settleTask_def retain_signal_def
  by (intro runs_intro)+

subsection \<open>What holds of all stored runs\<close>

definition stored_all :: "(process_run \<Rightarrow> bool) \<Rightarrow> workflow_store \<Rightarrow> bool" where
  "stored_all Q s \<longleftrightarrow> (\<forall>k run. map_of (ws_runs s) k = Some run \<longrightarrow> Q run)"

definition through :: "(process_run \<Rightarrow> bool) \<Rightarrow> ('w rstate \<Rightarrow> 'a \<times> 'w rstate) \<Rightarrow> bool" where
  "through Q m \<longleftrightarrow> (\<forall>sw. stored_all Q (fst sw) \<longrightarrow> stored_all Q (fst (snd (m sw))))"

text \<open>
  Ports that write no process run themselves. An executor is handed a heartbeat, which it may call
  at any time; the heartbeat does not write one either.
\<close>

definition runs_kept :: "('w rstate \<Rightarrow> 'a \<times> 'w rstate) \<Rightarrow> bool" where
  "runs_kept m \<longleftrightarrow> (\<forall>sw. ws_runs (fst (snd (m sw))) = ws_runs (fst sw))"

definition executor_quiet :: "'w executor \<Rightarrow> bool" where
  "executor_quiet e \<longleftrightarrow> (\<forall>hb rq. (\<forall>t. runs_kept (hb t)) \<longrightarrow> runs_kept (e hb rq))"

definition ports_quiet :: "'w options \<Rightarrow> bool" where
  "ports_quiet opts \<longleftrightarrow>
     (\<forall>e. op_taskExecutor opts = Some e \<or> op_protectedTaskExecutor opts = Some e \<longrightarrow> executor_quiet e)
   \<and> (\<forall>p rq. op_taskBindingResolver opts = Some p \<longrightarrow> runs_kept (p rq))
   \<and> (\<forall>p rq. op_gateProvider opts = Some p \<longrightarrow> runs_kept (p rq))"

lemma runs_kept_through: "runs_kept m \<Longrightarrow> through Q m"
  by (simp add: runs_kept_def through_def stored_all_def)

lemma runs_kept_onStore: "runs_same m \<Longrightarrow> runs_kept (onStore m)"
  by (simp add: runs_kept_def runs_same_def onStore_split)

lemma through_pure [runs_intro]: "through Q (retS x)" "through Q (liftE r)" "through Q (getsS g)"
  by (simp_all add: through_def)

lemma through_bindS [runs_intro]:
  assumes "through Q m" "\<And>x. through Q (f x)"
  shows "through Q (bindS m f)"
  unfolding through_def
proof
  fix sw
  obtain r sw1 where m: "m sw = (r, sw1)" by (cases "m sw")
  have "stored_all Q (fst sw) \<Longrightarrow> stored_all Q (fst sw1)" using assms(1) m unfolding through_def by (metis snd_conv)
  moreover have "stored_all Q (fst sw1) \<Longrightarrow> stored_all Q (fst (snd (f x sw1)))" for x
    using assms(2) unfolding through_def by blast
  ultimately show "stored_all Q (fst sw) \<longrightarrow> stored_all Q (fst (snd (bindS m f sw)))"
    using m by (cases r) (simp_all add: bindS_def)
qed

lemma through_control [runs_intro]:
  "through Q a \<Longrightarrow> through Q b \<Longrightarrow> through Q (if c then a else b)"
  "through Q a \<Longrightarrow> (\<And>x. through Q (f x)) \<Longrightarrow> through Q (case v of None \<Rightarrow> a | Some x \<Rightarrow> f x)"
  "(\<And>x. through Q (g x)) \<Longrightarrow> (\<And>x. through Q (h x)) \<Longrightarrow> through Q (case w of Inl x \<Rightarrow> g x | Inr x \<Rightarrow> h x)"
  "(\<And>x y. through Q (l x y)) \<Longrightarrow> through Q (case p of (x, y) \<Rightarrow> l x y)"
  "(\<And>x. through Q (k x)) \<Longrightarrow> through Q (Let u k)"
  by (auto split: option.splits sum.splits prod.splits)

lemma through_stages [runs_intro]:
  "(\<And>a b c d. through Q (f a b c d)) \<Longrightarrow> (\<And>x. through Q (g x)) \<Longrightarrow> (\<And>x y. through Q (h x y)) \<Longrightarrow> (\<And>a b c d. through Q (i a b c d))
     \<Longrightarrow> through Q (case k of TaskStage a b c d \<Rightarrow> f a b c d | WaitStage x \<Rightarrow> g x | AwaitSignalStage x y \<Rightarrow> h x y
       | GateStage a b c d \<Rightarrow> i a b c d)"
  by (cases k) simp_all

lemma through_onStore [runs_intro]: "runs_same m \<Longrightarrow> through Q (onStore m)"
  by (auto simp: through_def runs_same_def onStore_split stored_all_def)

subsection \<open>Ports and transitions\<close>

lemma through_attempt:
  assumes "executor_quiet e"
  shows "through Q (run_attempt opts e run st td n tid key b t tr ls)"
proof -
  have "through Q (execute_port e (\<lambda>t. onStore (heartbeat opts (pr_tenantId run) tid (ls_token ls) t)) rq)" for rq
  proof -
    let ?hb = "\<lambda>t. onStore (heartbeat opts (pr_tenantId run) tid (ls_token ls) t)"
    have "runs_kept (e ?hb rq)"
      using assms by (simp add: executor_quiet_def runs_kept_onStore runs_same_execution)
    moreover have "snd (execute_port e ?hb rq sw) = snd (e ?hb rq sw)" for sw
      by (simp add: execute_port_def split: prod.splits option.splits)
    ultimately show ?thesis using runs_kept_through[of "e ?hb rq" Q] by (simp add: through_def)
  qed
  note port = this
  show ?thesis unfolding run_attempt_def by (intro runs_intro port)
qed

lemma through_executeTask [runs_intro]:
  assumes "ports_quiet opts"
  shows "through Q (executeTask opts run st td n tid t)"
proof -
  have resolve: "through Q (resolve_binding opts run st td)" for td
    using assms by (cases "op_taskBindingResolver opts")
      (auto simp: resolve_binding_def ports_quiet_def runs_kept_def through_def stored_all_def split_def)
  have attempt: "through Q (bindS (liftE (choose_executor opts td i)) f)"
    if f: "\<And>e. executor_quiet e \<Longrightarrow> through Q (f e)"
    for td i and f :: "'a executor \<Rightarrow> ('a rstate, task_result) comp"
  proof (cases "choose_executor opts td i")
    case (Inr e)
    then have "op_taskExecutor opts = Some e \<or> op_protectedTaskExecutor opts = Some e"
      by (auto simp: choose_executor_def split: if_splits option.splits)
    with assms f[of e] show ?thesis by (auto simp: through_def bindS_def Inr ports_quiet_def)
  qed (simp add: through_def bindS_def)
  show ?thesis
    unfolding executeTask_def
    by (intro through_bindS through_pure attempt) (intro runs_intro resolve through_attempt)+
qed

lemma through_resolveGate [runs_intro]:
  assumes "ports_quiet opts"
  shows "through Q (resolveGate opts run st t)"
proof (cases "op_gateProvider opts")
  case (Some p)
  then have "\<And>rq. through Q (p rq)" using assms by (simp add: ports_quiet_def runs_kept_through)
  then have p: "p q sw = (r, sw') \<Longrightarrow> stored_all Q (fst sw) \<Longrightarrow> stored_all Q (fst sw')" for q sw r sw'
    by (metis through_def snd_conv)
  show ?thesis
    by (auto simp: resolveGate_def Some through_def bindS_def dest: p split: sum.splits prod.splits option.splits)
qed (simp add: resolveGate_def runs_intro)

lemma through_transition [runs_intro]:
  assumes "ports_quiet opts"
  shows "through Q (transitionOne opts d run t)" "through Q (transition_loop opts d t n run)"
proof -
  have task: "through Q (stored_task_definition run st)" for run st
    unfolding stored_task_definition_def by (intro runs_intro)
  have stage: "through Q (visit_stage opts run st t)" for run st
    unfolding visit_stage_def visit_waiting_def visit_ready_def visit_waiting_task_def visit_waiting_signal_def
      visit_waiting_gate_def visit_ready_signal_def visit_ready_gate_def visit_ready_task_def
    by (intro runs_intro task assms)
  have stages: "through Q (visit_stages opts run t sts)" for run sts
    by (induction sts arbitrary: run) (auto intro!: runs_intro stage)
  show one: "through Q (transitionOne opts d run t)" for run
    unfolding transitionOne_def by (intro runs_intro stages)
  show "through Q (transition_loop opts d t n run)"
    by (induction n arbitrary: run) (auto intro!: runs_intro one)
qed

subsection \<open>The interface\<close>

lemma through_loads [runs_intro]:
  "through Q (storedRun t i)" "through Q (storedDefinition t p v)" "through Q (assertOperationCapacity d t i)"
  "through Q (replayOperation t k key dg i)" "through Q (load_run t i time)" "through Q (preflightDefinition opts t d)"
  "through Q (finish_operation t k key dg i run)"
proof -
  show loads: "through Q (storedRun t i)" "through Q (storedDefinition t p v)" "through Q (assertOperationCapacity d t i)" for t i p v d
    unfolding storedRun_def storedDefinition_def assertOperationCapacity_def by (intro runs_intro)+
  show "through Q (replayOperation t k key dg i)" "through Q (load_run t i time)" "through Q (finish_operation t k key dg i run)"
    unfolding replayOperation_def load_run_def finish_operation_def by (intro runs_intro loads)+
  show "through Q (preflightDefinition opts t d)"
    by (auto simp: preflightDefinition_def through_def bindS_def split: sum.splits)
qed

lemma through_run: "through Q m \<Longrightarrow> m sw = (r, sw') \<Longrightarrow> stored_all Q (fst sw) \<Longrightarrow> stored_all Q (fst sw')"
  unfolding through_def by (metis snd_conv)

locale run_invariant =
  fixes Q :: "process_run \<Rightarrow> bool"
  assumes kept: "draft_kept d Q"
    and new_run: "createInitialProcessRunV1 d i = Inr r \<Longrightarrow> Q r"
begin

lemma commit_through:
  assumes "commitDraft c draft t s = (r, s')" "Q draft" "stored_all Q s"
  shows "stored_all Q s'"
proof (cases "finalizeRun draft (pr_revision c + 1) t")
  case (Inr x)
  have "draft_invariant d Q" for d using kept by (simp add: draft_kept_def)
  moreover from Inr obtain dg where "x = draft\<lparr>pr_revision := pr_revision c + 1, pr_updatedAt := t, pr_stateDigest := dg\<rparr>"
    by (auto simp: finalizeRun_def Let_def bindE_Inr_iff)
  ultimately have "Q x" using draft_invariant.frame(2)[of undefined Q draft] assms(2) by simp
  obtain b s1 where cas: "compareAndSetProcessRun (pr_revision c) (pr_stateDigest c) x s = (b, s1)" by fastforce
  with assms(1) Inr have "s' = s1" by (auto simp: commitDraft_def bindS_def split: sum.splits if_splits)
  with compareAndSetProcessRun_cases[OF cas] assms(3) \<open>Q x\<close> show ?thesis by (auto simp: stored_all_def split: if_splits)
qed (use assms in \<open>auto simp: commitDraft_def bindS_def\<close>)

lemma advance_through:
  assumes "ports_quiet opts" "Q run"
  shows "through Q (advanceCurrent opts d run t n f)"
  unfolding through_def
proof (intro allI impI)
  fix sw :: "workflow_store \<times> 'a" assume ok: "stored_all Q (fst sw)"
  have inv: "draft_invariant d Q" using kept by (simp add: draft_kept_def)
  have commit: "stored_all Q (fst (snd (onStore (commitDraft run draft t) sw1)))" if "Q draft" "stored_all Q (fst sw1)"
    for draft and sw1 :: "workflow_store \<times> 'a"
    using commit_through[OF prod.collapse[symmetric] that] by (cases sw1) (simp add: onStore_split)
  obtain r sw1 where loop: "transition_loop opts d t (nat n) run sw = (r, sw1)"
    by (cases "transition_loop opts d t (nat n) run sw")
  have ok1: "stored_all Q (fst sw1)" by (rule through_run[OF through_transition(2)[OF assms(1)] loop ok])
  have "Q draft'" if "r = Inr draft" "settle_draft d t draft = Inr draft'" for draft draft'
    using draft_invariant.keeps_settle_draft[OF inv that(2)] draft_invariant.keeps_loop[OF inv loop[unfolded that(1)] assms(2)] .
  then show "stored_all Q (fst (snd (advanceCurrent opts d run t n f sw)))"
    using ok ok1 commit draft_invariant.expire[OF inv assms(2)] loop
    by (auto simp: advanceCurrent_def bindS_def split: sum.splits prod.splits)
qed

lemma advance_result: "Q run \<Longrightarrow> advanceCurrent opts d run t n f sw = (Inr run', sw') \<Longrightarrow> Q run'"
  using draft_invariant.keeps_advance kept unfolding draft_kept_def by blast

text \<open>A computation on a stored run.\<close>

lemma load_through:
  assumes "\<And>run d. Q run \<Longrightarrow> through Q (f (run, d))"
  shows "through Q (bindS (load_run t i time) f)"
  unfolding through_def
proof (intro allI impI)
  fix sw :: "workflow_store \<times> 'a" assume ok: "stored_all Q (fst sw)"
  obtain r sw1 where l: "load_run t i time sw = (r, sw1)" by (cases "load_run t i time sw")
  have ok1: "stored_all Q (fst sw1)" by (rule through_run[OF through_loads(5) l ok])
  show "stored_all Q (fst (snd (bindS (load_run t i time) f sw)))"
  proof (cases r)
    case (Inr x)
    obtain run d where x: "x = (run, d)" by (cases x)
    obtain s w where sw: "sw = (s, w)" by (cases sw)
    from l[unfolded sw Inr x] ok have "Q run" by (auto dest!: load_run_Inr(1) simp: stored_all_def sw)
    from assms[OF this, of d] ok1 have "stored_all Q (fst (snd (f (run, d) sw1)))" unfolding through_def by blast
    then show ?thesis by (simp add: bindS_def l Inr x)
  qed (simp add: bindS_def l ok1)
qed

lemma cancel_kept: "cancelDraft d run opId reason t = Inr r \<Longrightarrow> Q run \<Longrightarrow> Q r"
  using kept unfolding draft_kept_def by blast

lemma canceling_through:
  assumes "ports_quiet opts" "Q run"
  shows "through Q (bindS (liftE (cancelDraft d run opId reason t)) (\<lambda>prepared. advanceCurrent opts d prepared t n f))"
proof (cases "cancelDraft d run opId reason t")
  case (Inr r)
  with advance_through[OF assms(1) cancel_kept[OF Inr assms(2)]] show ?thesis by (simp add: through_def bindS_def)
qed (simp add: through_def bindS_def)

lemma operate_through:
  assumes "ports_quiet opts"
  shows "through Q (operate opts q)"
proof -
  have idem: "through Q (idempotent t k key dg i work)" if "through Q work" for t k key dg i and work :: "('a rstate, process_run) comp"
    unfolding idempotent_def by (intro runs_intro that)
  have "through Q (start_work opts j)" for j
  proof -
    have made: "through Q (bindS (liftE (createInitialProcessRunV1 d j)) (\<lambda>initial.
     bindS (onStore (createProcessRun initial)) (\<lambda>created.
       if \<not> created then liftE (conflict ''process run already exists'')
       else advanceCurrent opts d initial (si_logicalTime j) (maximumTransitionsPerAdvance (pd_limits d)) False)))" for d
    proof (cases "createInitialProcessRunV1 d j")
      case (Inr init)
      note q = new_run[OF Inr]
      have "stored_all Q (snd (createProcessRun init s))" if "stored_all Q s" for s
        using that q by (cases "createProcessRun init s") (auto simp: stored_all_def dest!: createProcessRun_cases split: if_splits)
      then have "through Q (onStore (createProcessRun init))" by (auto simp: through_def onStore_split)
      then have "through Q (bindS (onStore (createProcessRun init)) (\<lambda>created.
         if \<not> created then liftE (conflict ''process run already exists'')
         else advanceCurrent opts d init (si_logicalTime j) (maximumTransitionsPerAdvance (pd_limits d)) False))"
        by (rule through_bindS) (intro runs_intro advance_through[OF assms q])
      then show ?thesis by (simp add: through_def bindS_def Inr)
    qed (simp add: through_def bindS_def)
    show ?thesis unfolding start_work_def by (intro runs_intro made)
  qed
  moreover have "through Q (signal_work opts j)" for j
    unfolding signal_work_def
    by (intro load_through, unfold prod.case)
      (intro canceling_through advance_through through_control through_onStore runs_same_execution through_pure assms
        | rule through_bindS)+
  moreover have "through Q (cancel_work opts j)" for j
    unfolding cancel_work_def
    by (intro load_through, unfold prod.case) (intro through_control through_pure canceling_through assms)
  moreover have "through Q (advance_work opts j)" for j
    unfolding advance_work_def
    by (intro load_through, unfold prod.case) (intro through_control through_pure advance_through assms)
  ultimately show ?thesis
    by (cases q) (simp_all add: start_def signal_def cancel_def advance_def runs_intro idem)
qed

lemma operate_result:
  assumes "operate opts q (s, w) = (Inr res, sw')" "stored_all Q s"
  shows "Q (or_run res)"
proof (cases "map_of (ws_runs s) (request_key q)")
  case (Some run)
  with assms(2) have "Q run" by (simp add: stored_all_def)
  from operate_keeps[where P = Q, OF assms(1) Some this kept] show ?thesis .
next
  case None
  from assms(1) obtain t k key dg i work where
    op: "operate opts q (s, w) = idempotent t k key dg i work (s, w)"
    and key: "request_key q = key2 t i"
    and work: "work = (case q of StartRequest j \<Rightarrow> start_work opts j | SignalRequest j \<Rightarrow> signal_work opts j
       | CancelRequest j \<Rightarrow> cancel_work opts j | AdvanceRequest j \<Rightarrow> advance_work opts j)"
    by (rule operate_idempotent) blast
  from op assms(1) have "idempotent t k key dg i work (s, w) = (Inr res, sw')" by simp
  with None key obtain sw1 where made: "work (s, w) = (Inr (or_run res), sw1)"
    by (auto simp: idempotent_def replayOperation_def bindS_Inr_iff finish_operation_def conflict_def storedRun_Inr
        split: option.splits if_splits)
  have no_load: "load_run t' i' time (s, w) \<noteq> (Inr x, sw2)" if "request_key q = key2 t' i'" for t' i' time x sw2
    using None that by (cases x) (auto dest!: load_run_Inr(1))
  show ?thesis
  proof (cases q)
    case (StartRequest j)
    with made work obtain d init sw2 where "createInitialProcessRunV1 d j = Inr init"
      "advanceCurrent opts d init (si_logicalTime j) (maximumTransitionsPerAdvance (pd_limits d)) False sw2
         = (Inr (or_run res), sw1)"
      by (auto simp: start_work_def bindS_Inr_iff conflict_def split: if_splits)
    then show ?thesis using advance_result new_run by blast
  qed (use made work no_load in \<open>auto simp: signal_work_def cancel_work_def advance_work_def bindS_Inr_iff\<close>)
qed

end

subsection \<open>A store that serves operations\<close>

text \<open>
  What happens to a store over time: operations of any runner, with any outcome, and what the host
  writes beside them through the store's methods (definitions, task runs, signals, anything but
  process runs). The world of the ports may change at any moment.
\<close>

inductive served :: "'w rstate \<Rightarrow> 'w rstate \<Rightarrow> bool" where
  operation: "ports_quiet opts \<Longrightarrow> operate opts q sw = (r, sw') \<Longrightarrow> served sw sw'"
| host: "store_step s s' \<Longrightarrow> ws_runs s' = ws_runs s \<Longrightarrow> served (s, w) (s', w')"

context run_invariant
begin

lemma served_through: "served sw sw' \<Longrightarrow> stored_all Q (fst sw) \<Longrightarrow> stored_all Q (fst sw')"
proof (induction rule: served.induct)
  case (operation opts q sw r sw')
  from through_run[OF operate_through[OF operation(1)] operation(2,3)] show ?case .
qed (simp add: stored_all_def)

lemma history:
  assumes "served\<^sup>*\<^sup>* sw sw'" "ws_runs (fst sw) = []"
  shows "stored_all Q (fst sw')"
proof -
  from assms(2) have "stored_all Q (fst sw)" by (simp add: stored_all_def)
  with assms(1) show ?thesis by (induction rule: rtranclp_induct) (simp_all add: served_through)
qed

end

interpretation single_signals: run_invariant signals_once
proof
  show "draft_kept d signals_once" for d by (rule signals_kept)
next
  fix d i r assume "createInitialProcessRunV1 d i = Inr r"
  then have "pr_stageStates r = map (initial_stage_state (pd_stages d)) (pd_stages d)"
    by (auto simp: createInitialProcessRunV1_def bindE_Inr_iff Let_def)
  moreover have "filter truthy (map ss_consumedSignalId (map (initial_stage_state all) sts)) = []" for all sts
    by (induction sts) (simp_all add: initial_stage_state_def)
  ultimately show "signals_once r" by (simp add: signals_once_def)
qed

end
