(* ===== verification/WfSignalSamples.thy ===== *)
theory WfSignalSamples
  imports WfSamples WfSignals
begin

text \<open>
  A run with two stages that await the same signal, started on a store that holds one such
  signal: the first stage consumes it and the second waits.
\<close>

definition two_awaiting :: "process_stage list" where
  "two_awaiting = [signal_stage ''a'', signal_stage ''b'']"

definition awaiting_definition :: process_definition where
  "awaiting_definition = sample_definition two_awaiting"

lemma awaiting_body_valid: "validateProcessDefinitionBodyV1 (definition_body two_awaiting) = Inr ()"
  by code_simp

lemma awaiting_digestible: "digestible (process_definition_json (definition_body two_awaiting))"
  by (simp add: json_simps definition_body_def two_awaiting_def signal_stage_def DEFAULT_PROCESS_DEFINITION_LIMITS_V1_def)

lemma awaiting_definition_valid: "validateProcessDefinitionV1 awaiting_definition = Inr awaiting_definition"
  unfolding awaiting_definition_def by (rule sample_definition_valid[OF awaiting_body_valid awaiting_digestible])

lemma awaiting_definition_fields [simp]:
  "pd_stages awaiting_definition = two_awaiting" "pd_processId awaiting_definition = ''p''"
  "pd_version awaiting_definition = ''1''" "pd_limits awaiting_definition = DEFAULT_PROCESS_DEFINITION_LIMITS_V1"
  by (simp_all add: awaiting_definition_def sample_definition_def definition_body_def)

definition go_signal :: process_signal where
  "go_signal = \<lparr>sg_schemaVersion = 1, sg_tenantId = ''t'', sg_runId = ''r'', sg_signalId = ''g'',
     sg_signalType = ''go'', sg_correlationKey = None, sg_payload = None, sg_sourceType = ''host'',
     sg_sourceId = ''h'', sg_sourceRevision = None, sg_receivedAt = time0, sg_signalDigest = []\<rparr>"

definition awaiting_store :: workflow_store where
  "awaiting_store = empty_store\<lparr>ws_definitions := [(key3 ''t'' ''p'' ''1'', awaiting_definition)],
     ws_signals := [(key3 ''t'' ''r'' ''g'', go_signal)]\<rparr>"

definition awaiting_run :: "int \<Rightarrow> run_status \<Rightarrow> stage_state \<Rightarrow> stage_state \<Rightarrow> process_run" where
  "awaiting_run n st a b = sample_run awaiting_definition n st [a, b]"

definition served_a :: stage_state where
  "served_a = (plain_state ''a'' Terminal (Some SignalReceived))
     \<lparr>ss_consumedSignalId := Some ''g'', ss_startedAt := Some time0, ss_finishedAt := Some time0\<rparr>"

definition waiting_b :: stage_state where
  "waiting_b = (plain_state ''b'' Waiting None)\<lparr>ss_startedAt := Some time0\<rparr>"

abbreviation "ready_a \<equiv> plain_state ''a'' Ready None"
abbreviation "ready_b \<equiv> plain_state ''b'' Ready None"

lemma awaiting_run_fields [simp]:
  "pr_tenantId (awaiting_run n st a b) = ''t''" "pr_runId (awaiting_run n st a b) = ''r''"
  "pr_status (awaiting_run n st a b) = st" "pr_stageStates (awaiting_run n st a b) = [a, b]"
  "pr_revision (awaiting_run n st a b) = n" "pr_cancellation (awaiting_run n st a b) = None"
  "pr_createdAt (awaiting_run n st a b) = time0"
  by (simp_all add: awaiting_run_def sample_run_def run_body_def)

lemma awaiting_run_valid:
  assumes "(n, st, a, b) = (0, RRunning, ready_a, ready_b) \<or> n \<in> {0, 1} \<and> (st, a, b) = (RWaiting, served_a, waiting_b)"
  shows "digestible (process_run_json (run_body awaiting_definition n st [a, b]))"
    "validateProcessRunV1 (awaiting_run n st a b) = Inr (awaiting_run n st a b)"
proof -
  have len: "length (pd_definitionDigest awaiting_definition) = 71" "valid_digest (pd_definitionDigest awaiting_definition)"
    unfolding awaiting_definition_def by (simp_all add: awaiting_digestible valid_definition_digest)
  have "digestible (process_run_json (run_body awaiting_definition 0 RRunning [ready_a, ready_b]))"
    using len by (simp add: json_simps run_body_def plain_state_def time0_def)
  moreover have "digestible (process_run_json (run_body awaiting_definition m RWaiting [served_a, waiting_b]))"
    if "m \<in> {0, 1}" for m
    using len that by (auto simp: json_simps run_body_def plain_state_def served_a_def waiting_b_def time0_def)
  ultimately show dig: "digestible (process_run_json (run_body awaiting_definition n st [a, b]))"
    using assms by fastforce
  have "foldE validate_stage_state [] [ready_a, ready_b] = Inr [''b'', ''a'']"
    "foldE validate_stage_state [] [served_a, waiting_b] = Inr [''b'', ''a'']"
    by code_simp+
  with assms have "foldE validate_stage_state [] [a, b] = Inr [''b'', ''a'']" by auto
  then show "validateProcessRunV1 (awaiting_run n st a b) = Inr (awaiting_run n st a b)"
    unfolding awaiting_run_def using dig assms len
    by (intro sample_run_valid) (auto simp: isSafeInteger_def maximumSafeInteger_def)
qed

definition awaiting_start :: start_input where
  "awaiting_start = \<lparr>si_tenantId = ''t'', si_runId = ''r'', si_processId = ''p'', si_processVersion = ''1'',
     si_operationId = ''o'', si_idempotencyKey = ''k'', si_input = None, si_subject = None, si_logicalTime = time0\<rparr>"

lemma awaiting_initial: "createInitialProcessRunV1 awaiting_definition awaiting_start = Inr (awaiting_run 0 RRunning ready_a ready_b)"
proof -
  have "validateStartInput awaiting_start = Inr ()" by code_simp
  moreover have "map (initial_stage_state two_awaiting) two_awaiting = [ready_a, ready_b]" by code_simp
  ultimately show ?thesis
    using the_digest(1)[OF awaiting_run_valid(1)[of 0 RRunning ready_a ready_b], of "''process-run-state''"]
    by (simp add: createInitialProcessRunV1_def awaiting_definition_valid awaiting_start_def Let_def awaiting_run_def
        sample_run_def run_body_def processRunDigest_def)
qed

abbreviation "awaiting_draft st a b \<equiv> (awaiting_run 0 RRunning ready_a ready_b)\<lparr>pr_status := st, pr_stageStates := [a, b]\<rparr>"

lemma awaiting_stages: "signal_stage ''a'' \<in> set two_awaiting" "signal_stage ''b'' \<in> set two_awaiting"
  by (simp_all add: two_awaiting_def)

lemma awaiting_match:
  assumes "ws_signals s = [(key3 ''t'' ''r'' ''g'', go_signal)]" "a \<in> {ready_a, served_a}" "b \<in> {ready_b, waiting_b}"
  shows "matchingSignal bare_options (awaiting_draft st a b) ''go'' None s = (if a = ready_a then Some go_signal else None)"
proof -
  have "listSignals (\<lambda>_ _. 0) ''t'' ''r'' s = [go_signal]"
    by (simp add: listSignals_def assms(1) js_sort_def go_signal_def)
  then show ?thesis
    using assms(2,3)
    by (auto simp: matchingSignal_def Let_def bare_options_def plain_state_def served_a_def waiting_b_def
        go_signal_def truthy_def)
qed

lemma awaiting_rounds:
  assumes "ws_signals s = [(key3 ''t'' ''r'' ''g'', go_signal)]"
  shows "transitionOne bare_options awaiting_definition (awaiting_draft RRunning ready_a ready_b) time0 (s, ())
      = (Inr (True, awaiting_draft RRunning served_a ready_b), (s, ()))"
    "transitionOne bare_options awaiting_definition (awaiting_draft RRunning served_a ready_b) time0 (s, ())
      = (Inr (True, awaiting_draft RRunning served_a waiting_b), (s, ()))"
    "transitionOne bare_options awaiting_definition (awaiting_draft RWaiting served_a waiting_b) time0 (s, ())
      = (Inr (False, awaiting_draft RWaiting served_a waiting_b), (s, ()))"
  using awaiting_match[OF assms]
  by (simp_all add: transitionOne_def ready_compensation_def bindS_def two_awaiting_def visit_stage_def mutableState_def
      signal_stage_def visit_ready_def visit_ready_signal_def visit_waiting_def visit_waiting_signal_def number_truthy_def
      set_state_def served_a_def waiting_b_def plain_state_def terminal_def Let_def go_signal_def nullish_set_def)

lemma awaiting_settled:
  "settle_draft awaiting_definition time0 (awaiting_draft RRunning served_a ready_b) = Inr (awaiting_draft RRunning served_a ready_b)"
  "settle_draft awaiting_definition time0 (awaiting_draft st served_a waiting_b) = Inr (awaiting_draft RWaiting served_a waiting_b)"
  by (simp_all add: settle_draft_def activateStages_def activate_loop.simps activate_pass_def two_awaiting_def
      activate_stage_def mutableState_def signal_stage_def settleRunStatus_def served_a_def waiting_b_def plain_state_def
      is_compensation_def)

lemma numeral_eq: "Suc (Suc (Suc 253)) = 256"
  by simp

lemma awaiting_loop:
  assumes "ws_signals s = [(key3 ''t'' ''r'' ''g'', go_signal)]"
  shows "transition_loop bare_options awaiting_definition time0 256 (awaiting_run 0 RRunning ready_a ready_b) (s, ())
     = (Inr (awaiting_draft RWaiting served_a waiting_b), (s, ()))"
proof -
  have "transition_loop bare_options awaiting_definition time0 (Suc (Suc (Suc n))) (awaiting_draft RRunning ready_a ready_b) (s, ())
     = (Inr (awaiting_draft RWaiting served_a waiting_b), (s, ()))" for n
    using awaiting_rounds[OF assms] awaiting_settled by (simp add: bindS_def terminalRun_def)
  moreover have "awaiting_draft RRunning ready_a ready_b = awaiting_run 0 RRunning ready_a ready_b"
    by (simp add: awaiting_run_def sample_run_def run_body_def)
  ultimately show ?thesis by (metis (no_types) numeral_eq)
qed

lemma jobject_field:
  assumes "json_norm (jobject fs) = JObj gs"
  shows "(k, v) \<in> set gs \<longleftrightarrow> (\<exists>u. (k, Some u) \<in> set fs \<and> v = json_norm u)"
proof -
  have "set (map (\<lambda>(k, v). (k, json_norm v)) (List.map_filter (\<lambda>(k, v). map_option (Pair k) v) fs))
      = {(k, json_norm u) |k u. (k, Some u) \<in> set fs}"
    by (induction fs) (auto simp: map_filter_simps split: option.splits)
  moreover have "gs = sort_key fst (map (\<lambda>(k, v). (k, json_norm v)) (List.map_filter (\<lambda>(k, v). map_option (Pair k) v) fs))"
    using assms by (simp add: jobject_def)
  ultimately show ?thesis by auto
qed

lemma status_in_text:
  assumes "json_norm (process_run_json l) = json_norm (process_run_json r)"
  shows "pr_status l = pr_status r"
proof -
  obtain gs where l: "json_norm (process_run_json l) = JObj gs" by (simp add: process_run_json_def jobject_def)
  have "(''status'', JStr x) \<in> set gs \<longleftrightarrow> x = run_status_string (pr_status q)" if "json_norm (process_run_json q) = JObj gs" for x q
    unfolding jobject_field[OF that[unfolded process_run_json_def]] by auto
  from this[OF l] this[OF l[unfolded assms]] have "run_status_string (pr_status l) = run_status_string (pr_status r)" by blast
  then show ?thesis by (cases "pr_status l"; cases "pr_status r") simp_all
qed

lemma awaiting_changed:
  "sameRunBody (awaiting_run 0 RRunning ready_a ready_b) (awaiting_draft RWaiting served_a waiting_b) = Inr False"
proof -
  let ?l = "process_run_json (awaiting_run 0 RRunning ready_a ready_b)" and ?r = "process_run_json (awaiting_draft RWaiting served_a waiting_b)"
  have "?l = process_run_json (run_body awaiting_definition 0 RRunning [ready_a, ready_b])"
    by (simp add: awaiting_run_def sample_run_def)
  then have "digestible ?l" using awaiting_run_valid(1)[of 0 RRunning ready_a ready_b] by simp
  moreover have "?r = process_run_json (run_body awaiting_definition 0 RWaiting [served_a, waiting_b])"
    by (simp add: awaiting_run_def sample_run_def run_body_def process_run_json_def)
  then have "digestible ?r" using awaiting_run_valid(1)[of 0 RWaiting served_a waiting_b] by simp
  ultimately obtain l r where t: "canonicalizeWorkflowJsonV1 ?l = Inr l" "canonicalizeWorkflowJsonV1 ?r = Inr r"
    by (auto simp: canonicalize_accepts digestible_def)
  have "l \<noteq> r"
    using t canonicalize_unambiguous[of ?l l ?r] status_in_text[of "awaiting_run 0 RRunning ready_a ready_b" "awaiting_draft RWaiting served_a waiting_b"]
    by auto
  with t show ?thesis by (simp add: sameRunBody_def)
qed

lemma awaiting_finalized:
  "finalizeRun (awaiting_draft RWaiting served_a waiting_b) 1 time0 = Inr (awaiting_run 1 RWaiting served_a waiting_b)"
  using the_digest(1)[OF awaiting_run_valid(1)[of 1 RWaiting served_a waiting_b], of "''process-run-state''"]
  by (simp add: finalizeRun_def Let_def processRunDigest_def awaiting_run_def sample_run_def run_body_def process_run_json_def)

lemma awaiting_work:
  "start_work bare_options awaiting_start (awaiting_store, ())
     = (Inr (awaiting_run 1 RWaiting served_a waiting_b),
        (awaiting_store\<lparr>ws_runs := [(key2 ''t'' ''r'', awaiting_run 1 RWaiting served_a waiting_b)]\<rparr>, ()))"
proof -
  let ?s = "awaiting_store\<lparr>ws_runs := [(key2 ''t'' ''r'', awaiting_run 0 RRunning ready_a ready_b)]\<rparr>"
  have ini: "createProcessRun (awaiting_run 0 RRunning ready_a ready_b) awaiting_store = (Inr True, ?s)"
    using awaiting_run_valid(2)[of 0 RRunning ready_a ready_b]
    by (simp add: createProcessRun_def bindS_def Let_def awaiting_store_def empty_store_def)
  have cap: "countOperations ''t'' ''r'' awaiting_store = 0"
    by (simp add: countOperations_def awaiting_store_def empty_store_def)
  have pre: "preflightDefinition bare_options ''t'' awaiting_definition (awaiting_store, ()) = (Inr (), (awaiting_store, ()))"
    by (simp add: preflightDefinition_def bindS_def require_def two_awaiting_def signal_stage_def preflight_stage_def
        is_task_def seqE.simps)
  have commit: "commitDraft (awaiting_run 0 RRunning ready_a ready_b) (awaiting_draft RWaiting served_a waiting_b) time0 ?s
     = (Inr (awaiting_run 1 RWaiting served_a waiting_b),
        awaiting_store\<lparr>ws_runs := [(key2 ''t'' ''r'', awaiting_run 1 RWaiting served_a waiting_b)]\<rparr>)"
    using awaiting_run_valid(2)[of 1 RWaiting served_a waiting_b] awaiting_finalized
    by (simp add: commitDraft_def bindS_def compareAndSetProcessRun_def)
  have sg: "ws_signals ?s = [(key3 ''t'' ''r'' ''g'', go_signal)]" by (simp add: awaiting_store_def)
  have adv: "advanceCurrent bare_options awaiting_definition (awaiting_run 0 RRunning ready_a ready_b) time0 256 False (?s, ())
     = (Inr (awaiting_run 1 RWaiting served_a waiting_b),
        (awaiting_store\<lparr>ws_runs := [(key2 ''t'' ''r'', awaiting_run 1 RWaiting served_a waiting_b)]\<rparr>, ()))"
    using awaiting_loop[OF sg] awaiting_settled(2)[of RWaiting] awaiting_changed commit
    by (simp add: advanceCurrent_def bindS_def terminalRun_def run_expired_def time0_parse onStore_def
        DEFAULT_PROCESS_DEFINITION_LIMITS_V1_def)
  have "storedDefinition ''t'' ''p'' ''1'' (awaiting_store, ()) = (Inr awaiting_definition, (awaiting_store, ()))"
    using awaiting_definition_valid
    by (simp add: storedDefinition_def bindS_def getProcessDefinition_def awaiting_store_def)
  moreover have "maximumTransitionsPerAdvance DEFAULT_PROCESS_DEFINITION_LIMITS_V1 = 256"
    by (simp add: DEFAULT_PROCESS_DEFINITION_LIMITS_V1_def)
  ultimately show ?thesis
    using awaiting_initial ini adv pre cap
    by (simp add: start_work_def bindS_def awaiting_start_def assertOperationCapacity_def onStore_def require_def
        DEFAULT_PROCESS_DEFINITION_LIMITS_V1_def)
qed

lemma awaiting_starts:
  "\<exists>s'. operate bare_options (StartRequest awaiting_start) (awaiting_store, ())
       = (Inr \<lparr>or_disposition = Applied, or_run = awaiting_run 1 RWaiting served_a waiting_b\<rparr>, (s', ()))
     \<and> ws_runs s' = [(key2 ''t'' ''r'', awaiting_run 1 RWaiting served_a waiting_b)]"
proof -
  have checks: "validateStartInput awaiting_start = Inr ()" by code_simp
  have "digestible (start_input_json awaiting_start)" by (simp add: json_simps awaiting_start_def time0_def)
  then obtain dg where dg: "digestWorkflowJsonV1 ''start'' (start_input_json awaiting_start) = Inr dg"
    using the_digest(1)[of _ "''start''"] by auto
  have none: "getOperation ''t'' OpStart ''k'' awaiting_store = None"
    by (simp add: getOperation_def awaiting_store_def empty_store_def)
  have fields: "si_tenantId awaiting_start = ''t''" "si_runId awaiting_start = ''r''" "si_idempotencyKey awaiting_start = ''k''"
    by (simp_all add: awaiting_start_def)
  show ?thesis
    using checks dg none awaiting_work fields
    by (simp add: start_def bindS_def idempotent_def replayOperation_def finish_operation_def onStore_def
        saveOperation_def Let_def awaiting_store_def empty_store_def)
qed

end
