(* ===== verification/WfProperties.thy ===== *)
theory WfProperties
  imports WfSamples WfSignalSamples
begin

text \<open>
  The properties of the workflow package, each over the definitions of its component and each
  with a witness: the concrete input at which its hypotheses hold.
\<close>

subsection \<open>The store and the operations\<close>

text \<open>
  C11. Of all the writers that read the same revision of a process run, at most one commits: after
  a successful \<open>compareAndSetProcessRun\<close>, whatever the store's methods do next, a second
  one that expects the same revision of the same run does not succeed.
\<close>

theorem process_run_one_winner:
  assumes "compareAndSetProcessRun e d r s = (Inr True, s1)" "store_step\<^sup>*\<^sup>* s1 s2"
    "key2 (pr_tenantId r') (pr_runId r') = key2 (pr_tenantId r) (pr_runId r)"
  shows "fst (compareAndSetProcessRun e d' r' s2) \<noteq> Inr True"
  using process_runs.one_winner[OF assms(1,2) prod.collapse[symmetric] assms(3)] .

theorem process_run_one_winner_witness:
  "\<exists>s1. compareAndSetProcessRun 0 (pr_stateDigest (signal_run 0)) (signal_run 1) signal_store = (Inr True, s1)
     \<and> fst (compareAndSetProcessRun 0 (pr_stateDigest (signal_run 0)) (signal_run 1) s1) \<noteq> Inr True"
proof -
  obtain s1 where "compareAndSetProcessRun 0 (pr_stateDigest (signal_run 0)) (signal_run 1) signal_store = (Inr True, s1)"
    using signal_run_valid[of 1] by (simp add: compareAndSetProcessRun_def bindS_def)
  with process_run_one_winner[OF this, of s1 "signal_run 1"] show ?thesis by blast
qed

text \<open>
  C12. No operation of the runner loses or corrupts what is stored: if the ports write to the
  store only through its methods, every value in the store stays validated and under its own key,
  and each idempotency key keeps belonging to one task run. Nothing stored disappears: task and
  process definitions, operation records, signals and task idempotency keys are still there and
  unchanged; every process run and every task run is still under its key with a revision that has
  not gone back, the same revision meaning the same run.
\<close>

theorem operations_keep_store:
  assumes "ports_ok opts" "store_ok s" "operate opts q (s, w) = (r, (s', w'))"
  shows "store_ok s' \<and> store_grows s s'
   \<and> (\<forall>k c. map_of (ws_runs s) k = Some c \<longrightarrow>
     (\<exists>c'. map_of (ws_runs s') k = Some c' \<and> pr_revision c \<le> pr_revision c'
        \<and> (pr_revision c' = pr_revision c \<longrightarrow> c' = c)))"
proof -
  have st: "store_step\<^sup>*\<^sup>* s s'" by (rule operate_steps[OF assms(1,3)])
  with assms(2) store_ok_steps process_runs.steps_keep[OF st] store_steps_grow[OF st] show ?thesis by blast
qed

theorem operations_keep_store_witness:
  "\<exists>r s'. operate bare_options (CancelRequest sample_cancel) (signal_store, ()) = (r, (s', ())) \<and> store_ok s'
     \<and> stays (ws_definitions signal_store) (ws_definitions s')
     \<and> (\<exists>c'. map_of (ws_runs s') (key2 ''t'' ''r'') = Some c' \<and> 0 \<le> pr_revision c')"
proof -
  obtain r s' where op: "operate bare_options (CancelRequest sample_cancel) (signal_store, ()) = (r, (s', ()))"
    using sample_cancel_runs by auto
  from operations_keep_store[OF bare_options_ok signal_store_ok op] have "store_ok s'" "store_grows signal_store s'"
    "\<forall>k c. map_of (ws_runs signal_store) k = Some c \<longrightarrow>
     (\<exists>c'. map_of (ws_runs s') k = Some c' \<and> pr_revision c \<le> pr_revision c' \<and> (pr_revision c' = pr_revision c \<longrightarrow> c' = c))"
    by blast+
  from this(1,2) this(3)[rule_format, of "key2 ''t'' ''r''" "signal_run 0"] op show ?thesis
    by (auto simp: store_grows_def)
qed

text \<open>
  C13. An operation takes effect once per idempotency key: after it succeeded on a store of
  validated values, the same request, by any worker and in any later state of the store, is
  answered: as replayed, with the run stored then, and neither the store nor the world changes.
\<close>

theorem operation_replayed:
  fixes opts opts' :: "'w options"
  assumes "operate opts q (s, w) = (Inr res, (s1, w1))" "store_step\<^sup>*\<^sup>* s1 s2" "ports_ok opts" "store_ok s"
  shows "\<exists>run. map_of (ws_runs s2) (request_key q) = Some run
    \<and> operate opts' q (s2, w2) = (Inr \<lparr>or_disposition = Replayed, or_run = run\<rparr>, (s2, w2))"
proof -
  from assms(1,3,4,2) obtain run where "map_of (ws_runs s2) (request_key q) = Some run"
    "operate opts' q (s2, w2) = (Inr \<lparr>or_disposition = Replayed, or_run = run\<rparr>, (s2, w2))"
    by (rule operate_replays)
  then show ?thesis by blast
qed

theorem operation_replayed_witness:
  "\<exists>res s1. operate bare_options (CancelRequest sample_cancel) (signal_store, ()) = (Inr res, (s1, ()))
     \<and> or_disposition res = Applied
     \<and> (\<exists>run. operate bare_options (CancelRequest sample_cancel) (s1, ())
         = (Inr \<lparr>or_disposition = Replayed, or_run = run\<rparr>, (s1, ())))"
proof -
  obtain res s1 where op: "operate bare_options (CancelRequest sample_cancel) (signal_store, ()) = (Inr res, (s1, ()))"
    "or_disposition res = Applied"
    using sample_cancel_runs by auto
  from operation_replayed[OF op(1) rtranclp.rtrancl_refl bare_options_ok signal_store_ok, of bare_options "()"] op
  show ?thesis by blast
qed

text \<open>
  C14. The run an operation returns is an evolution of the stored one: identity, input, subject
  and creation time are kept, no attempt counter goes back, and a stage that is terminal is
  never changed again, whatever the operation was and whatever the ports did.
\<close>

theorem operation_evolves:
  assumes "operate opts q (s, w) = (Inr res, sw')" "map_of (ws_runs s) (request_key q) = Some run"
  shows "run_evolves run (or_run res)"
  using operate_keeps[where P = "run_evolves run", OF assms] evolves_kept by simp

theorem operation_evolves_witness:
  "\<exists>res s1. operate bare_options (CancelRequest sample_cancel) (signal_store, ()) = (Inr res, (s1, ()))
     \<and> run_evolves (signal_run 0) (or_run res)"
proof -
  obtain res s1 where op: "operate bare_options (CancelRequest sample_cancel) (signal_store, ()) = (Inr res, (s1, ()))"
    using sample_cancel_runs by auto
  from operation_evolves[OF this, of "signal_run 0"] op show ?thesis by auto
qed

text \<open>
  The retry policy bounds the attempts of every stage: if no stage of the stored run has used
  more attempts than its policy allows (and a stage that may still start has one left), the same
  holds of the run any operation returns.
\<close>

theorem operation_attempts:
  assumes "operate opts q (s, w) = (Inr res, sw')" "map_of (ws_runs s) (request_key q) = Some run"
    "getProcessDefinition (pr_tenantId run) (pr_processId run) (pr_processVersion run) s = Some d"
    "attempts_ok d run"
  shows "attempts_ok d (or_run res)"
proof (rule operate_keeps[where P = "attempts_ok d", OF assms(1,2,4)])
  fix d' assume "getProcessDefinition (pr_tenantId run) (pr_processId run) (pr_processVersion run) s = Some d'"
  with assms(3) show "draft_kept d' (attempts_ok d)" using attempts_kept by simp
qed

theorem operation_attempts_witness:
  "\<exists>res s1. operate bare_options (CancelRequest sample_cancel) (signal_store, ()) = (Inr res, (s1, ()))
     \<and> attempts_ok signal_definition (or_run res)"
proof -
  obtain res s1 where op: "operate bare_options (CancelRequest sample_cancel) (signal_store, ()) = (Inr res, (s1, ()))"
    using sample_cancel_runs by auto
  have "attempts_ok signal_definition (signal_run 0)"
    by (simp add: attempts_ok_def attempt_ok_def plain_state_def signal_stage_def stage_maximumAttempts_def)
  from operation_attempts[OF op, of "signal_run 0" signal_definition] this op show ?thesis by auto
qed

text \<open>
  C15. No signal is consumed by two stages: in a store that began without process runs and has
  since served any sequence of operations, by any workers and with any outcomes, and any writes of
  the host beside the process runs, the consumed signals of every stored run are distinct, and so
  are those of every run that a next operation returns. The ports may do anything but write
  process runs themselves.
\<close>

theorem operation_signals_once:
  assumes "served\<^sup>*\<^sup>* (s0, w0) (s, w)" "ws_runs s0 = []"
  shows "(\<forall>k run. map_of (ws_runs s) k = Some run \<longrightarrow> signals_once run)
   \<and> (\<forall>opts q res sw'. operate opts q (s, w) = (Inr res, sw') \<longrightarrow> signals_once (or_run res))"
proof -
  from single_signals.history[OF assms(1)] assms(2) have "stored_all signals_once s" by simp
  with single_signals.operate_result show ?thesis by (auto simp: stored_all_def)
qed

theorem operation_signals_once_witness:
  "\<exists>s. served\<^sup>*\<^sup>* (awaiting_store, ()) (s, ()) \<and> ws_runs awaiting_store = []
     \<and> map_of (ws_runs s) (key2 ''t'' ''r'') = Some (awaiting_run 1 RWaiting served_a waiting_b)
     \<and> map ss_consumedSignalId (pr_stageStates (awaiting_run 1 RWaiting served_a waiting_b)) = [Some ''g'', None]
     \<and> signals_once (awaiting_run 1 RWaiting served_a waiting_b)"
proof -
  obtain s where op: "operate bare_options (StartRequest awaiting_start) (awaiting_store, ())
       = (Inr \<lparr>or_disposition = Applied, or_run = awaiting_run 1 RWaiting served_a waiting_b\<rparr>, (s, ()))"
    and s: "ws_runs s = [(key2 ''t'' ''r'', awaiting_run 1 RWaiting served_a waiting_b)]"
    using awaiting_starts by blast
  have "ports_quiet bare_options" by (simp add: ports_quiet_def bare_options_def)
  from served.operation[OF this op] have sv: "served\<^sup>*\<^sup>* (awaiting_store, ()) (s, ())" by blast
  have e: "ws_runs awaiting_store = []" by (simp add: awaiting_store_def empty_store_def)
  from operation_signals_once[OF sv e] s have "signals_once (awaiting_run 1 RWaiting served_a waiting_b)" by auto
  with sv e s show ?thesis by (auto simp: served_a_def waiting_b_def plain_state_def)
qed

text \<open>
  C16. A cancellation with nothing to compensate is reported but not committed: when no stage of a
  live run has succeeded, \<open>cancel\<close> answers with an applied, canceled run and keeps the
  stored run as it was, so the next \<open>advance\<close> continues it.
\<close>

theorem cancel_not_committed:
  assumes "cancel opts i (s, w) = (Inr res, (s', w'))" "or_disposition res = Applied"
    "getProcessRun (ci_tenantId i) (ci_runId i) s = Some run" "\<not> terminalRun (pr_status run)"
    "\<forall>st \<in> set (pr_stageStates run). ss_outcome st \<noteq> Some Succeeded"
  shows "pr_status (or_run res) = RCanceled \<and> ws_runs s' = ws_runs s \<and> w' = w"
proof -
  from assms(1) obtain dg where "idempotent (ci_tenantId i) OpCancel (ci_idempotencyKey i) dg (ci_runId i)
      (cancel_work opts i) (s, w) = (Inr res, (s', w'))"
    by (auto simp: cancel_def bindS_Inr_iff)
  with assms(2) obtain r sw1 where work: "cancel_work opts i (s, w) = (Inr r, sw1)"
    and fin: "finish_operation (ci_tenantId i) OpCancel (ci_idempotencyKey i) dg (ci_runId i) r sw1 = (Inr res, (s', w'))"
    by (auto simp: idempotent_def replayOperation_def bindS_Inr_iff conflict_def storedRun_Inr
        split: option.splits if_splits)
  from cancel_work_uncommitted[OF work assms(3-5)] have r: "pr_status r = RCanceled" "sw1 = (s, w)" by simp_all
  from fin r(2) obtain b where "saveOperation \<lparr>op_tenantId = ci_tenantId i, op_operationKind = OpCancel,
       op_idempotencyKey = ci_idempotencyKey i, op_requestDigest = dg, op_runId = ci_runId i\<rparr> s = (Inr b, s')"
    "w' = w" "or_run res = r"
    by (auto simp: finish_operation_def bindS_Inr_iff onStore_iff)
  with r saveOperation_runs show ?thesis by auto
qed

theorem cancel_not_committed_witness:
  "\<exists>res s'. cancel bare_options sample_cancel (signal_store, ()) = (Inr res, (s', ()))
     \<and> pr_status (or_run res) = RCanceled
     \<and> getProcessRun ''t'' ''r'' s' = Some (signal_run 0) \<and> pr_status (signal_run 0) = RWaiting"
proof -
  obtain res s' where op: "cancel bare_options sample_cancel (signal_store, ()) = (Inr res, (s', ()))"
    "or_disposition res = Applied"
    using sample_cancel_runs by auto
  from cancel_not_committed[OF op, of "signal_run 0"] op show ?thesis
    by (auto simp: terminalRun_def plain_state_def getProcessRun_def)
qed

end
