(* ===== verification/WfTaskSamples.thy ===== *)
theory WfTaskSamples
  imports WfSamples
begin

text \<open>
  Concrete task definitions, bindings and task runs, with the digests the code computes, and the
  operations on them that the witnesses of the task properties use.
\<close>

definition sample_handlerDigest :: string where
  "sample_handlerDigest = ''sha256:'' @ replicate 64 (CHR ''0'')"

lemma sample_handlerDigest [simp]: "valid_digest sample_handlerDigest" "length sample_handlerDigest = 71"
  by code_simp+

definition task_definition_body :: task_definition where
  "task_definition_body = \<lparr>td_schemaVersion = 1, td_taskDefinitionId = ''d'', td_version = ''1'', td_name = ''d'',
     td_handlerKey = ''h'', td_handlerDigest = sample_handlerDigest, td_effectClass = ProtectedExternal,
     td_actionBinding = Some \<lparr>ab_namespace = ''n'', ab_toolId = ''o'', ab_operation = ''x''\<rparr>,
     td_definitionDigest = []\<rparr>"

definition sample_task_definition :: task_definition where
  "sample_task_definition = task_definition_body
     \<lparr>td_definitionDigest := the_digest ''task-definition'' (task_definition_json task_definition_body)\<rparr>"

lemma task_definition_digestible: "digestible (task_definition_json task_definition_body)"
  by (simp add: json_simps task_definition_body_def)

lemma sample_task_definition_valid: "validateTaskDefinitionV1 sample_task_definition = Inr sample_task_definition"
proof -
  have "validateTaskDefinitionBody sample_task_definition = Inr ()"
    unfolding sample_task_definition_def task_definition_body_def validateTaskDefinitionBody_def
    by (simp add: seqE.simps) code_simp
  then show ?thesis
    using the_digest[OF task_definition_digestible, of "''task-definition''"]
    by (simp add: validateTaskDefinitionV1_def sample_task_definition_def task_definition_digest_irrelevant
        digest_def require_def)
qed

definition binding_body :: execution_binding where
  "binding_body = \<lparr>eb_taskDefinitionId = ''d'', eb_taskDefinitionVersion = ''1'',
     eb_handlerDigest = sample_handlerDigest, eb_input = no_binding_input, eb_bindingDigest = []\<rparr>"

definition sample_binding :: execution_binding where
  "sample_binding = binding_body
     \<lparr>eb_bindingDigest := the_digest ''task-execution-binding'' (binding_body_json binding_body)\<rparr>"

lemma binding_digestible: "digestible (binding_body_json binding_body)"
  by (simp add: json_simps binding_body_def)

lemma sample_binding_length [simp]: "length (eb_bindingDigest sample_binding) = 71"
  by (simp add: sample_binding_def the_digest_length[OF binding_digestible])

lemma sample_binding_fields [simp]:
  "eb_taskDefinitionId sample_binding = ''d''" "eb_taskDefinitionVersion sample_binding = ''1''"
  "eb_handlerDigest sample_binding = sample_handlerDigest" "eb_input sample_binding = no_binding_input"
  by (simp_all add: sample_binding_def binding_body_def)

lemma sample_binding_valid: "validateTaskExecutionBindingV1 sample_binding = Inr ()"
proof -
  have tk: "valid_token ''d''" "valid_token ''1''" by code_simp+
  have "validateBindingInput no_binding_input = Inr ()" by code_simp
  moreover have "binding_body_json sample_binding = binding_body_json binding_body"
    by (simp add: binding_body_json_def binding_fields_def sample_binding_def)
  ultimately show ?thesis
    using the_digest[OF binding_digestible, of "''task-execution-binding''"] tk
    by (simp add: validateTaskExecutionBindingV1_def sample_binding_def binding_body_def seqE.simps
        token_def digest_def require_def)
qed

lemma sample_binding_created: "createTaskExecutionBindingV1 sample_task_definition no_binding_input = Inr sample_binding"
proof -
  have "validateBindingInput no_binding_input = Inr ()" by code_simp
  moreover have "\<lparr>eb_taskDefinitionId = td_taskDefinitionId sample_task_definition,
      eb_taskDefinitionVersion = td_version sample_task_definition,
      eb_handlerDigest = td_handlerDigest sample_task_definition, eb_input = no_binding_input, eb_bindingDigest = []\<rparr>
      = binding_body"
    by (simp add: binding_body_def sample_task_definition_def task_definition_body_def)
  ultimately show ?thesis
    using the_digest(1)[OF binding_digestible, of "''task-execution-binding''"]
    by (simp add: createTaskExecutionBindingV1_def sample_task_definition_valid Let_def sample_binding_def)
       (simp add: binding_body_def sample_task_definition_def task_definition_body_def)
qed

definition sample_inputDigest :: string where
  "sample_inputDigest = the_digest ''task-run-input'' (JObj [(''processInput'', JNull), (''processRunId'', JStr ''r''),
     (''stageId'', JStr ''a''), (''attempt'', JNum 1)])"

lemma input_digestible: "digestible (JObj [(''processInput'', JNull), (''processRunId'', JStr ''r''),
     (''stageId'', JStr ''a''), (''attempt'', JNum 1)])"
  by (simp add: json_simps)

lemma sample_inputDigest [simp]: "valid_digest sample_inputDigest" "length sample_inputDigest = 71"
  using the_digest(2)[OF input_digestible, of "''task-run-input''"] the_digest_length[OF input_digestible, of "''task-run-input''"]
  by (simp_all add: sample_inputDigest_def)

definition task_body :: "task_run_status \<Rightarrow> int \<Rightarrow> string \<Rightarrow> task_run" where
  "task_body st n tok = \<lparr>tr_schemaVersion = 1, tr_tenantId = ''t'', tr_taskRunId = ''r:a:1'', tr_processRunId = ''r'',
     tr_stageId = ''a'', tr_attempt = 1, tr_revision = n, tr_idempotencyKey = ''workflow-task:t:r:a:1'',
     tr_inputDigest = sample_inputDigest, tr_status = st, tr_binding = sample_binding, tr_subject = None,
     tr_usage = None, tr_resultReference = None, tr_resultDigest = None,
     tr_reasonCode = (if st \<in> {TRFailed, TRIndeterminate} then Some ''protected_task_executor_error'' else None), tr_retryable = None,
     tr_leaseOwnerId = ''w'', tr_leaseToken = tok, tr_leaseGeneration = 0, tr_leaseExpiresAt = time0,
     tr_startedAt = (if st = TRClaimed then None else Some time0),
     tr_finishedAt = (if terminalStatuses st then Some time0 else None),
     tr_createdAt = time0, tr_updatedAt = time0, tr_stateDigest = []\<rparr>"

definition sample_task :: "task_run_status \<Rightarrow> int \<Rightarrow> string \<Rightarrow> task_run" where
  "sample_task st n tok = (task_body st n tok)
     \<lparr>tr_stateDigest := the_digest ''task-run-state'' (task_run_json (task_body st n tok))\<rparr>"

lemma task_digestible:
  assumes "0 \<le> n" "n \<le> 10" "tok \<in> {''k'', ''l''}"
  shows "digestible (task_run_json (task_body st n tok))"
  using assms by (cases st) (auto simp: json_simps task_body_def time0_def terminalStatuses_def)

lemma sample_task_valid:
  assumes "0 \<le> n" "n \<le> 10" "tok \<in> {''k'', ''l''}"
  shows "validateTaskRunV1 (sample_task st n tok) = Inr (sample_task st n tok)"
proof -
  have tk: "valid_token ''t''" "valid_token ''r:a:1''" "valid_token ''r''" "valid_token ''a''" "valid_token ''w''"
    "valid_token ''workflow-task:t:r:a:1''" "valid_token ''protected_task_executor_error''" "valid_token ''k''" "valid_token ''l''"
    by code_simp+
  have "time0 \<noteq> []" by (simp add: time0_def)
  then have ok: "task_run_checks (task_body st n tok) = Inr ()"
    using assms tk sample_binding_valid
    by (auto simp: task_run_checks_iff task_body_def isSafeInteger_def maximumSafeInteger_def time0_parse
        terminalStatuses_def split: if_splits)
  then show ?thesis
    using the_digest[OF task_digestible[OF assms], of "''task-run-state''"]
    by (simp add: validateTaskRunV1_iff sample_task_def taskRunDigest_def)
qed

lemma sample_task_fields [simp]:
  "tr_tenantId (sample_task st n tok) = ''t''" "tr_taskRunId (sample_task st n tok) = ''r:a:1''"
  "tr_revision (sample_task st n tok) = n" "tr_status (sample_task st n tok) = st"
  "tr_leaseToken (sample_task st n tok) = tok" "tr_leaseGeneration (sample_task st n tok) = 0"
  "tr_leaseOwnerId (sample_task st n tok) = ''w''" "tr_leaseExpiresAt (sample_task st n tok) = time0"
  "tr_updatedAt (sample_task st n tok) = time0"
  by (simp_all add: sample_task_def task_body_def)

definition plain_transition :: "task_run_status \<Rightarrow> transition_input" where
  "plain_transition st = \<lparr>ti_status = st, ti_logicalTime = time0,
     ti_reasonCode = (if st \<in> {TRFailed, TRIndeterminate} then Some ''protected_task_executor_error'' else None),
     ti_retryable = None, ti_usage = None, ti_resultReference = None, ti_resultDigest = None\<rparr>"

lemma freezeTaskRun_body:
  assumes "r = (task_body st n tok)\<lparr>tr_stateDigest := x\<rparr>" "0 \<le> n" "n \<le> 10" "tok \<in> {''k'', ''l''}"
  shows "freezeTaskRun r = Inr (sample_task st n tok)"
  using the_digest(1)[OF task_digestible[OF assms(2-4)], of "''task-run-state''" st]
  by (simp add: assms(1) freezeTaskRun_def sample_task_def) (simp add: taskRunDigest_def)

lemma sample_transition:
  assumes "0 \<le> n" "n < 10" "tok \<in> {''k'', ''l''}"
    "(st, st') \<in> {(TRClaimed, TRRunning), (TRRunning, TRCompleted), (TRRunning, TRIndeterminate)}"
  shows "transitionTaskRunV1 (sample_task st n tok) (plain_transition st') = Inr (sample_task st' (n + 1) tok)"
proof -
  have tk: "valid_token ''protected_task_executor_error''" by code_simp
  have t0: "time0 \<noteq> []" by (simp add: time0_def)
  have chk: "transition_checks (sample_task st n tok) (plain_transition st') = Inr ()"
    using assms(4) tk by (auto simp: transition_checks_iff plain_transition_def transition_allowed_def time0_parse)
  have nt: "\<not> terminalStatuses st" using assms(4) by (auto simp: terminalStatuses_def)
  show ?thesis
    unfolding transitionTaskRunV1_def using sample_task_valid[of n tok st] assms(1-3) nt chk
    apply (simp split del: if_split)
    apply (rule freezeTaskRun_body[where x = "tr_stateDigest (sample_task st n tok)"])
    using assms t0 by (auto simp: sample_task_def task_body_def plain_transition_def or_else_def terminalStatuses_def)
qed

definition task_store :: "task_run \<Rightarrow> workflow_store" where
  "task_store r = empty_store\<lparr>ws_taskRuns := [(key2 (tr_tenantId r) (tr_taskRunId r), r)],
     ws_taskRunIdempotency := [(key2 (tr_tenantId r) (tr_idempotencyKey r), tr_taskRunId r)]\<rparr>"

lemma task_store_simps [simp]:
  "ws_taskRuns (task_store r) = [(key2 (tr_tenantId r) (tr_taskRunId r), r)]"
  by (simp add: task_store_def)

lemma sample_get:
  "getTaskRun ''t'' ''r:a:1'' (task_store (sample_task st n tok)) = (Inr (Some (sample_task st n tok)),
     task_store (sample_task st n tok))"
proof -
  have "valid_token ''t''" "valid_token ''r:a:1''" by code_simp+
  then show ?thesis by (simp add: getTaskRun_def bindS_def seqE.simps token_def require_def)
qed

lemma sample_save:
  assumes "0 \<le> n" "n < 10" "tok \<in> {''k'', ''l''}"
  shows "saveTaskTransition (sample_task st n tok) (sample_task st' (n + 1) tok) (task_store (sample_task st n tok))
     = (Inr (), task_store (sample_task st' (n + 1) tok))"
proof -
  have "tr_idempotencyKey (sample_task a b c) = ''workflow-task:t:r:a:1''"
    "tr_binding (sample_task a b c) = sample_binding" "tr_inputDigest (sample_task a b c) = sample_inputDigest" for a b c
    by (simp_all add: sample_task_def task_body_def)
  then show ?thesis
    using assms sample_task_valid[of "n + 1" tok st']
    by (simp add: saveTaskTransition_def compareAndSetTaskRun_def bindS_def task_store_def empty_store_def)
qed

end
