(* ===== verification/WfTaskProperties.thy ===== *)
theory WfTaskProperties
  imports WfTaskSamples
begin

text \<open>The properties of task runs and of their execution under a lease.\<close>

text \<open>
  C17. The history of a task run: whatever transitions, heartbeats, takeovers and reconciliations
  are applied to it, its identity (tenant, run, stage, attempt, idempotency key, input digest,
  binding) is kept, revision and lease generation never go back, and a completed, failed or
  canceled run is never changed again.
\<close>

theorem task_run_history:
  assumes "task_step\<^sup>*\<^sup>* r r'"
  shows "same_identity r r' \<and> tr_revision r \<le> tr_revision r' \<and> tr_leaseGeneration r \<le> tr_leaseGeneration r'
     \<and> (tr_status r \<in> {TRCompleted, TRFailed, TRCanceled} \<longrightarrow> r' = r)"
  using task_steps_monotone[OF assms] task_steps_final[OF assms] by (auto simp: final_status_def)

theorem task_run_history_witness:
  "task_step\<^sup>*\<^sup>* (sample_task TRClaimed 0 ''k'') (sample_task TRCompleted 2 ''k'')
     \<and> same_identity (sample_task TRClaimed 0 ''k'') (sample_task TRCompleted 2 ''k'')"
proof -
  have "task_step (sample_task TRClaimed 0 ''k'') (sample_task TRRunning 1 ''k'')"
    using task_step.transition[OF sample_transition[of 0 "''k''" TRClaimed TRRunning]] by simp
  moreover have "task_step (sample_task TRRunning 1 ''k'') (sample_task TRCompleted 2 ''k'')"
    using task_step.transition[OF sample_transition[of 1 "''k''" TRRunning TRCompleted]] by simp
  ultimately have *: "task_step\<^sup>*\<^sup>* (sample_task TRClaimed 0 ''k'') (sample_task TRCompleted 2 ''k'')"
    by (meson converse_rtranclp_into_rtranclp r_into_rtranclp)
  with task_run_history[OF *] show ?thesis by blast
qed

text \<open>
  C18. A takeover fences the former holder: it needs an expired lease and a live attempt, raises
  the generation by one, and from then on no heartbeat with the old token is accepted.
\<close>

theorem takeover_fences:
  assumes "takeOverExpiredTaskRunV1 c owner tok now until = Inr r"
  shows "tr_status c \<in> {TRClaimed, TRRunning} \<and> tr_status r = TRClaimed
     \<and> \<not> js_lt (date_parse now) (date_parse (tr_leaseExpiresAt c))
     \<and> tr_leaseGeneration r = tr_leaseGeneration c + 1
     \<and> heartbeatTaskRunV1 r (tr_leaseToken c) now' until' \<notin> range Inr"
proof -
  have "tr_status c \<in> {TRClaimed, TRRunning}"
    using assms by (auto simp: takeOverExpiredTaskRunV1_def bindE_Inr_iff seqE_Inr_iff validateTaskRunV1_iff)
  moreover have "heartbeatTaskRunV1 r (tr_leaseToken c) now' until' \<noteq> Inr h" for h
    using takeover_progress(4,5)[OF assms] heartbeat_progress(2)[of r "tr_leaseToken c" now' until' h] by auto
  ultimately show ?thesis using takeover_progress[OF assms] by auto
qed

theorem takeover_fences_witness:
  "\<exists>r. takeOverExpiredTaskRunV1 (sample_task TRRunning 1 ''k'') ''v'' ''l'' time0 ''2026-01-01T00:05:00.000Z'' = Inr r
     \<and> tr_leaseGeneration r = 1 \<and> heartbeatTaskRunV1 r ''k'' time0 ''2026-01-01T00:05:00.000Z'' \<notin> range Inr"
proof -
  let ?b = "(task_body TRRunning 1 ''k'')\<lparr>tr_revision := 2, tr_status := TRClaimed, tr_leaseOwnerId := ''v'',
    tr_leaseToken := ''l'', tr_leaseGeneration := 1, tr_leaseExpiresAt := ''2026-01-01T00:05:00.000Z'', tr_updatedAt := time0\<rparr>"
  have tk: "valid_token ''v''" "valid_token ''l''" "date_parse ''2026-01-01T00:05:00.000Z'' = Some 1767225900000"
    by code_simp+
  have "digestible (task_run_json ?b)"
    by (simp add: json_simps task_body_def time0_def terminalStatuses_def)
  then have dg: "taskRunDigest ?b = Inr (the_digest ''task-run-state'' (task_run_json ?b))"
    by (simp add: taskRunDigest_def the_digest)
  have upd: "sample_task TRRunning 1 ''k''\<lparr>tr_revision := 2, tr_status := TRClaimed, tr_leaseOwnerId := ''v'',
    tr_leaseToken := ''l'', tr_leaseGeneration := 1, tr_leaseExpiresAt := ''2026-01-01T00:05:00.000Z'', tr_updatedAt := time0\<rparr>
    = ?b\<lparr>tr_stateDigest := tr_stateDigest (sample_task TRRunning 1 ''k'')\<rparr>"
    by (simp add: sample_task_def task_body_def)
  have "\<exists>r. takeOverExpiredTaskRunV1 (sample_task TRRunning 1 ''k'') ''v'' ''l'' time0 ''2026-01-01T00:05:00.000Z'' = Inr r"
    unfolding takeOverExpiredTaskRunV1_def
    by (simp add: sample_task_valid seqE.simps token_def timestamp_def require_def tk time0_parse upd freezeTaskRun_def)
       (simp add: dg)
  then obtain r where "takeOverExpiredTaskRunV1 (sample_task TRRunning 1 ''k'') ''v'' ''l'' time0 ''2026-01-01T00:05:00.000Z'' = Inr r"
    by blast
  with takeover_fences[OF this, of time0 "''2026-01-01T00:05:00.000Z''"] show ?thesis by auto
qed

text \<open>
  C19. The settlement of an attempt is fenced by its lease: it writes to the store only if the
  retained attempt is running under the same token and the same generation; a worker that lost
  its lease changes nothing.
\<close>

theorem settlement_fenced:
  "snd (settleTask t tid ls time res s) = s \<or>
     (\<exists>latest. map_of (ws_taskRuns s) (key2 t tid) = Some latest \<and> tr_status latest = TRRunning
        \<and> tr_leaseToken latest = ls_token ls \<and> tr_leaseGeneration latest = ls_generation ls)"
  using settleTask_fenced[of t tid ls time res s, OF prod.collapse[symmetric]] by blast

text \<open>
  C20. A settled attempt is not executed again: when the store already holds a completed, failed,
  canceled or indeterminate run of the attempt, executing the stage calls no executor and leaves
  the store and the world as the binding resolver left them. When the task definition is valid,
  its executor is configured, the resolver gives a binding and the retained run is the one of this
  attempt, the retained result is answered; in every other case the answer is an error or the
  resolver's own failure.
\<close>

theorem settled_attempt_not_repeated:
  assumes "resolve_binding opts run st td (s, w) = (rb, (s1, w1))"
    "map_of (ws_taskRuns s1) (key2 (pr_tenantId run) tid) = Some tr" "settled_result tr = Some res"
  shows "(\<exists>r sw'. executeTask opts run st td n tid t (s, w) = (r, sw') \<and> sw' \<in> {(s, w), (s1, w1)}
      \<and> (\<forall>x. r = Inr x \<longrightarrow> x = res \<or> x = TaskFailed ''task_binding_error'' (Some False) None))
    \<and> (\<forall>bi ex tok e. validateTaskDefinitionV1 td = Inr td \<longrightarrow> choose_executor opts td (st_stageId st) = Inr ex
        \<longrightarrow> rb = Inr (Some bi) \<longrightarrow> taskLeaseToken (op_workerId opts) tid 0 = Inr tok
        \<longrightarrow> addMilliseconds t (op_taskLeaseDurationMs opts) = Inr e
        \<longrightarrow> retains_attempt run st td n tid bi tr
        \<longrightarrow> executeTask opts run st td n tid t (s, w) = (Inr res, (s1, w1)))"
proof (intro conjI allI impI)
  fix bi ex tok e assume "rb = Inr (Some bi)"
  with assms(1) have "resolve_binding opts run st td (s, w) = (Inr (Some bi), (s1, w1))" by simp
  then show "validateTaskDefinitionV1 td = Inr td \<Longrightarrow> choose_executor opts td (st_stageId st) = Inr ex
      \<Longrightarrow> taskLeaseToken (op_workerId opts) tid 0 = Inr tok \<Longrightarrow> addMilliseconds t (op_taskLeaseDurationMs opts) = Inr e
      \<Longrightarrow> retains_attempt run st td n tid bi tr \<Longrightarrow> executeTask opts run st td n tid t (s, w) = (Inr res, (s1, w1))"
    by (rule executeTask_answers[OF _ assms(2,3)])
qed (rule executeTask_settled[OF assms])

definition counting_options :: "nat options" where
  "counting_options = \<lparr>op_taskExecutor = None, op_protectedTaskExecutor = Some (throwing Suc),
     op_taskBindingResolver = None, op_gateProvider = None, op_workerId = ''w'',
     op_taskLeaseDurationMs = 300000, op_localeCompare = (\<lambda>_ _. 0)\<rparr>"

definition attempt_run :: process_run where
  "attempt_run = run_body (definition_body [signal_stage ''a'']) 0 RRunning [plain_state ''a'' Running None]"

lemma sample_retained:
  "retains_attempt attempt_run (signal_stage ''a'') sample_task_definition 1 ''r:a:1'' no_binding_input
     (sample_task TRIndeterminate 2 ''k'')"
proof -
  have "task_inputDigest attempt_run ''a'' 1 = Inr sample_inputDigest"
    using the_digest(1)[OF input_digestible, of "''task-run-input''"]
    by (simp add: task_inputDigest_def attempt_run_def run_body_def sample_inputDigest_def)
  moreover have "task_idempotencyKey ''t'' ''r'' ''a'' 1 = ''workflow-task:t:r:a:1''" by code_simp
  ultimately show ?thesis
    using sample_task_valid[of 2 "''k''" TRIndeterminate] sample_binding_created
    by (simp add: retains_attempt_def attempt_run_def run_body_def signal_stage_def) (simp add: sample_task_def task_body_def)
qed

theorem settled_attempt_not_repeated_witness:
  "executeTask counting_options attempt_run (signal_stage ''a'') sample_task_definition 1 ''r:a:1'' time0
      (task_store (sample_task TRIndeterminate 2 ''k''), 0)
    = (Inr (TaskIndeterminate ''protected_task_executor_error'' None), (task_store (sample_task TRIndeterminate 2 ''k''), 0))"
proof -
  let ?s = "task_store (sample_task TRIndeterminate 2 ''k'')"
  have rb: "resolve_binding counting_options attempt_run (signal_stage ''a'') sample_task_definition (?s, 0)
    = (Inr (Some no_binding_input), (?s, 0))"
    by (simp add: resolve_binding_def counting_options_def)
  have get: "map_of (ws_taskRuns ?s) (key2 (pr_tenantId attempt_run) ''r:a:1'') = Some (sample_task TRIndeterminate 2 ''k'')"
    by (simp add: attempt_run_def run_body_def)
  have res: "settled_result (sample_task TRIndeterminate 2 ''k'') = Some (TaskIndeterminate ''protected_task_executor_error'' None)"
    by (simp add: settled_result_def) (simp add: sample_task_def task_body_def nullish_def)
  have ex: "choose_executor counting_options sample_task_definition (st_stageId (signal_stage ''a'')) = Inr (throwing Suc)"
    by (simp add: choose_executor_def counting_options_def sample_task_definition_def task_definition_body_def)
  have "digestible (JObj [(''workerId'', JStr ''w''), (''taskRunId'', JStr ''r:a:1''), (''generation'', JNum 0)])"
    by (simp add: json_simps)
  then have tok: "\<exists>tok. taskLeaseToken (op_workerId counting_options) ''r:a:1'' 0 = Inr tok"
    using the_digest(1) by (fastforce simp: taskLeaseToken_def counting_options_def)
  have ms: "addMilliseconds time0 (op_taskLeaseDurationMs counting_options) = Inr ''2026-01-01T00:05:00.000Z''" by code_simp
  from settled_attempt_not_repeated[OF rb get res, of 1 time0] sample_task_definition_valid ex tok ms sample_retained
  show ?thesis by blast
qed

text \<open>
  An error of a protected executor is never taken for a failure: when the executor of a
  protected external task throws, whatever it did to the world before, the attempt is settled as
  indeterminate, so it is neither retried nor compensated as if it had not happened.
\<close>

theorem protected_error_indeterminate:
  assumes "td_effectClass td = ProtectedExternal" "\<not> terminalStatuses (tr_status tr)"
    "tr_tenantId tr = pr_tenantId run" "tr_taskRunId tr = tid"
    "tr_leaseToken tr = ls_token ls" "tr_leaseGeneration tr = ls_generation ls"
    "run_attempt opts (throwing f) run st td n tid key b t tr ls (s, w) = (Inr res, (s', w'))"
  shows "res = TaskIndeterminate ''protected_task_executor_error'' None \<and> w' = f w
     \<and> (\<exists>settled. map_of (ws_taskRuns s') (key2 (pr_tenantId run) tid) = Some settled
          \<and> tr_status settled = TRIndeterminate \<and> tr_reasonCode settled = Some ''protected_task_executor_error'')"
  by (rule protected_throw[OF assms])

lemma sample_attempt:
  "\<exists>res s' w'. run_attempt counting_options (throwing Suc) (signal_run 0) (signal_stage ''a'') sample_task_definition 1
      ''r:a:1'' ''workflow-task:t:r:a:1'' sample_binding time0 (sample_task TRClaimed 0 ''k'')
      \<lparr>ls_generation = 0, ls_token = ''k'', ls_expiresAt = time0\<rparr> (task_store (sample_task TRClaimed 0 ''k''), 0)
    = (Inr res, (s', w'))"
proof -
  have tr1: "transitionTaskRunV1 (sample_task TRClaimed 0 ''k'') \<lparr>ti_status = TRRunning, ti_logicalTime = time0,
      ti_reasonCode = None, ti_retryable = None, ti_usage = None, ti_resultReference = None, ti_resultDigest = None\<rparr>
      = Inr (sample_task TRRunning 1 ''k'')"
    using sample_transition[of 0 "''k''" TRClaimed TRRunning] by (simp add: plain_transition_def)
  have tr2: "transitionTaskRunV1 (sample_task TRRunning 1 ''k'')
      (settlement_input (TaskIndeterminate ''protected_task_executor_error'' None) time0)
      = Inr (sample_task TRIndeterminate 2 ''k'')"
    using sample_transition[of 1 "''k''" TRRunning TRIndeterminate] by (simp add: plain_transition_def settlement_input_def)
  have p: "td_effectClass sample_task_definition = ProtectedExternal"
    by (simp add: sample_task_definition_def task_definition_body_def)
  show ?thesis
    using sample_save[of 0 "''k''" TRClaimed TRRunning] sample_save[of 1 "''k''" TRRunning TRIndeterminate]
    by (simp add: run_attempt_def bindS_def onStore_def tr1 tr2 p execute_port_def throwing_def executor_error_def
        settleTask_def sample_get is_in_flight_def check_result_def)
qed

theorem protected_error_indeterminate_witness:
  "\<exists>s'. run_attempt counting_options (throwing Suc) (signal_run 0) (signal_stage ''a'') sample_task_definition 1
      ''r:a:1'' ''workflow-task:t:r:a:1'' sample_binding time0 (sample_task TRClaimed 0 ''k'')
      \<lparr>ls_generation = 0, ls_token = ''k'', ls_expiresAt = time0\<rparr> (task_store (sample_task TRClaimed 0 ''k''), 0)
    = (Inr (TaskIndeterminate ''protected_task_executor_error'' None), (s', 1))"
proof -
  have p: "td_effectClass sample_task_definition = ProtectedExternal"
    by (simp add: sample_task_definition_def task_definition_body_def)
  from sample_attempt obtain res s' w' where *: "run_attempt counting_options (throwing Suc) (signal_run 0)
      (signal_stage ''a'') sample_task_definition 1 ''r:a:1'' ''workflow-task:t:r:a:1'' sample_binding time0
      (sample_task TRClaimed 0 ''k'') \<lparr>ls_generation = 0, ls_token = ''k'', ls_expiresAt = time0\<rparr>
      (task_store (sample_task TRClaimed 0 ''k''), 0) = (Inr res, (s', w'))" by blast
  have "res = TaskIndeterminate ''protected_task_executor_error'' None \<and> w' = Suc 0"
    using protected_error_indeterminate[OF p _ _ _ _ _ *] by (simp add: terminalStatuses_def)
  with * show ?thesis by simp
qed

text \<open>
  The usage totals are the exact sums: when \<open>sumTaskUsageV1\<close> answers, each total is the sum of
  the field over all usages, and each currency that occurs has exactly one entry, with the sum of
  its costs.
\<close>

theorem usage_totals_exact:
  assumes "sumTaskUsageV1 lc us = Inr a"
  shows "ua_inputTokens a = sum_list (map (\<lambda>u. or_zero (us_inputTokens u)) us)
    \<and> ua_outputTokens a = sum_list (map (\<lambda>u. or_zero (us_outputTokens u)) us)
    \<and> ua_totalTokens a = sum_list (map (\<lambda>u. or_zero (us_totalTokens u)) us)
    \<and> ua_durationMs a = sum_list (map (\<lambda>u. or_zero (us_durationMs u)) us)
    \<and> set (ua_costs a) = {\<lparr>uc_currency = cur, uc_micros = sum_list (map (cost_in cur) us)\<rparr> | cur. list_ex (has_cost cur) us}
    \<and> length (ua_costs a) = card (uc_currency ` set (ua_costs a))"
proof -
  from assms obtain i out tot dur costs where
    f: "foldE add_usage (0, 0, 0, 0, []) us = Inr (i, out, tot, dur, costs)"
    and a: "a = \<lparr>ua_inputTokens = i, ua_outputTokens = out, ua_totalTokens = tot, ua_durationMs = dur,
            ua_costs = map (\<lambda>(currency, micros). \<lparr>uc_currency = currency, uc_micros = micros\<rparr>)
              (js_sort (\<lambda>a b. lc (fst a) (fst b)) costs)\<rparr>"
    by (auto simp: sumTaskUsageV1_def bindE_Inr_iff)
  have m: "or_zero (map_of costs cur) = sum_list (map (cost_in cur) us)"
    "map_of costs cur \<noteq> None \<longleftrightarrow> list_ex (has_cost cur) us" "distinct (map fst costs)" for cur
    using fold_usage[OF f, of cur] by (simp_all add: or_zero_def del: not_None_eq)
  have mem: "(cur, x) \<in> set costs \<longleftrightarrow> list_ex (has_cost cur) us \<and> x = sum_list (map (cost_in cur) us)" for cur x
  proof -
    have "(cur, x) \<in> set costs \<longleftrightarrow> map_of costs cur = Some x" using m(3) by simp
    also have "\<dots> \<longleftrightarrow> map_of costs cur \<noteq> None \<and> or_zero (map_of costs cur) = x" by (auto simp: or_zero_def)
    finally show ?thesis using m(1,2)[of cur] by auto
  qed
  let ?f = "\<lambda>(currency, micros). \<lparr>uc_currency = currency, uc_micros = micros\<rparr>"
  have S: "set (ua_costs a) = ?f ` set costs" by (simp add: a)
  have "set (ua_costs a) = {\<lparr>uc_currency = cur, uc_micros = sum_list (map (cost_in cur) us)\<rparr> | cur. list_ex (has_cost cur) us}"
    unfolding S using mem by (auto simp: image_iff)
  moreover have "uc_currency ` set (ua_costs a) = fst ` set costs" unfolding S by (force simp: image_iff)
  then have "length (ua_costs a) = card (uc_currency ` set (ua_costs a))"
    using distinct_card[OF m(3)] by (simp add: a)
  ultimately show ?thesis using fold_usage[OF f] by (simp add: a)
qed

definition sample_usage :: "int \<Rightarrow> string \<Rightarrow> task_usage" where
  "sample_usage n cur = \<lparr>us_inputTokens = Some n, us_outputTokens = None, us_totalTokens = None, us_durationMs = None,
     us_cost = Some \<lparr>uc_currency = cur, uc_micros = n\<rparr>\<rparr>"

theorem usage_totals_exact_witness:
  "\<exists>a. sumTaskUsageV1 (\<lambda>_ _. 0) [sample_usage 2 ''EUR'', sample_usage 3 ''USD'', sample_usage 5 ''EUR''] = Inr a
     \<and> ua_inputTokens a = 10 \<and> length (ua_costs a) = 2 \<and> \<lparr>uc_currency = ''EUR'', uc_micros = 7\<rparr> \<in> set (ua_costs a)"
proof -
  let ?a = "\<lparr>ua_inputTokens = 10, ua_outputTokens = 0, ua_totalTokens = 0, ua_durationMs = 0,
    ua_costs = [\<lparr>uc_currency = ''EUR'', uc_micros = 7\<rparr>, \<lparr>uc_currency = ''USD'', uc_micros = 3\<rparr>]\<rparr>"
  have a: "sumTaskUsageV1 (\<lambda>_ _. 0) [sample_usage 2 ''EUR'', sample_usage 3 ''USD'', sample_usage 5 ''EUR''] = Inr ?a"
    unfolding sample_usage_def by code_simp
  from usage_totals_exact[OF a] a show ?thesis by (simp add: cost_in_def has_cost_def sample_usage_def)
qed

text \<open>
  An idempotency key names one task run: in every store reached from the empty one through
  the store's methods, two task runs of a tenant with the same idempotency key are the same run.
\<close>

theorem task_idempotency_unique:
  assumes "store_step\<^sup>*\<^sup>* empty_store s" "map_of (ws_taskRuns s) k = Some r" "map_of (ws_taskRuns s) k' = Some r'"
    "tr_tenantId r = tr_tenantId r'" "tr_idempotencyKey r = tr_idempotencyKey r'"
  shows "k = k' \<and> r = r'"
proof -
  have ok: "store_ok s" using store_ok_steps[OF assms(1)] store_ok_empty by blast
  have "r = r'" by (rule store_ok_idempotency[OF ok assms(2-5)])
  moreover have "k = key2 (tr_tenantId r) (tr_taskRunId r)" "k' = key2 (tr_tenantId r') (tr_taskRunId r')"
    using ok assms(2,3) by (simp_all add: store_ok_def entries_def task_entry_ok_def)
  ultimately show ?thesis by simp
qed

theorem task_idempotency_unique_witness:
  "\<exists>s. store_step\<^sup>*\<^sup>* empty_store s
     \<and> map_of (ws_taskRuns s) (key2 ''t'' ''r:a:1'') = Some (sample_task TRClaimed 0 ''k'')
     \<and> (\<forall>k r. map_of (ws_taskRuns s) k = Some r \<longrightarrow> tr_tenantId r = ''t''
          \<longrightarrow> tr_idempotencyKey r = ''workflow-task:t:r:a:1'' \<longrightarrow> k = key2 ''t'' ''r:a:1'')"
proof -
  let ?r = "sample_task TRClaimed 0 ''k''"
  obtain s where c: "createTaskRun ?r empty_store = (Inr True, s)"
    "map_of (ws_taskRuns s) (key2 ''t'' ''r:a:1'') = Some ?r"
    by (simp add: createTaskRun_def bindS_def sample_task_valid empty_store_def truthy_def)
  have st: "store_step\<^sup>*\<^sup>* empty_store s"
    by (rule r_into_rtranclp) (rule store_step.create_task[OF c(1)])
  have "tr_idempotencyKey ?r = ''workflow-task:t:r:a:1''" by (simp add: sample_task_def task_body_def)
  with task_idempotency_unique[OF st c(2)] c(2) st show ?thesis by (metis sample_task_fields(1))
qed

end
