(* ===== verification/WfDataProperties.thy ===== *)
theory WfDataProperties
  imports WfSamples
begin

text \<open>
  The properties of the canonical form, of the digests over it, and of
  the deadlines the runner computes.
\<close>

text \<open>
  What the canonicalizer accepts, exactly: values nested at most 32 deep with at most 16384
  nodes, 4096 items per array, 256 fields per object and safe integers only; the answer is the
  rendering of the value with its object keys sorted.
\<close>

theorem canonical_form_exact:
  "canonicalizeWorkflowJsonV1 v = Inr s \<longleftrightarrow> fits 0 v \<and> json_nodes v \<le> 16384 \<and> s = render (json_norm v)"
  by (rule canonicalize_accepts)

text \<open>
  The canonical form identifies a value up to the order of object keys: two values have the
  same canonical text if and only if they are equal after sorting keys.
\<close>

theorem canonical_form_identifies:
  assumes "canonicalizeWorkflowJsonV1 v = Inr s"
  shows "canonicalizeWorkflowJsonV1 w = Inr s \<longleftrightarrow> json_norm w = json_norm v"
  using assms canonicalize_unambiguous[of w s v] canonicalize_key_order[of w v] by auto

theorem canonical_form_identifies_witness:
  "canonicalizeWorkflowJsonV1 (JObj [(''b'', JNum 1), (''a'', JStr ''x'')]) = Inr ''{\"a\":\"x\",\"b\":1}''
     \<and> canonicalizeWorkflowJsonV1 (JObj [(''a'', JStr ''x''), (''b'', JNum 1)]) = Inr ''{\"a\":\"x\",\"b\":1}''"
proof -
  have "render (JObj [(''a'', JStr ''x''), (''b'', JNum 1)]) = ''{\"a\":\"x\",\"b\":1}''" by code_simp
  then have c: "canonicalizeWorkflowJsonV1 (JObj [(''b'', JNum 1), (''a'', JStr ''x'')]) = Inr ''{\"a\":\"x\",\"b\":1}''"
    by (simp add: canonicalize_accepts isSafeInteger_def maximumSafeInteger_def)
  have "json_norm (JObj [(''a'', JStr ''x''), (''b'', JNum 1)]) = json_norm (JObj [(''b'', JNum 1), (''a'', JStr ''x'')])"
    by simp
  with c canonical_form_identifies[OF c] show ?thesis by blast
qed

text \<open>
  Digests separate domains and values: the byte strings hashed for two values are equal only
  when the domains are equal and the values are equal up to key order, so equal digests of
  different things would be a collision of SHA-256.
\<close>

theorem digest_input_unambiguous:
  assumes "workflow_digest_bytes d v = Inr bs" "workflow_digest_bytes e w = Inr bs"
  shows "d = e \<and> json_norm v = json_norm w"
  using assms by (rule workflow_digest_bytes_unambiguous)

theorem digest_input_unambiguous_witness:
  "\<exists>bs. workflow_digest_bytes ''a'' (JObj [(''b'', JNum 1), (''a'', JNum 2)]) = Inr bs
     \<and> workflow_digest_bytes ''a'' (JObj [(''a'', JNum 2), (''b'', JNum 1)]) = Inr bs
     \<and> workflow_digest_bytes ''b'' (JObj [(''a'', JNum 2), (''b'', JNum 1)]) \<noteq> Inr bs"
proof -
  let ?v = "JObj [(''b'', JNum 1), (''a'', JNum 2)]" and ?w = "JObj [(''a'', JNum 2), (''b'', JNum 1)]"
  have "\<exists>t. canonicalizeWorkflowJsonV1 ?v = Inr t \<and> canonicalizeWorkflowJsonV1 ?w = Inr t"
    by (simp add: canonicalize_accepts isSafeInteger_def maximumSafeInteger_def)
  moreover have "token ''a'' ''digest domain'' = Inr ()" by code_simp
  ultimately obtain bs where bs: "workflow_digest_bytes ''a'' ?v = Inr bs" "workflow_digest_bytes ''a'' ?w = Inr bs"
    by (auto simp: workflow_digest_bytes_def)
  moreover have "workflow_digest_bytes ''b'' ?w \<noteq> Inr bs"
    using digest_input_unambiguous[OF bs(1), of "''b''" ?w] by auto
  ultimately show ?thesis by blast
qed

text \<open>
  The hash is SHA-256: on the standard test message the routine gives the published value,
  computed through every round by the kernel.
\<close>

theorem sha256_test_vector:
  "sha256Hex [97, 98, 99] = ''ba7816bf8f01cfea414140de5dae2223b00361a396177a9cb410ff61f20015ad''"
  by code_simp

text \<open>
  Deadlines are exact: a wait that starts at \<open>v\<close> and lasts \<open>d\<close> milliseconds (or a lease, or a
  timeout) is reached at a logical time exactly when that time is not before \<open>v + d\<close>.
\<close>

theorem deadline_exact:
  assumes "addMilliseconds v d = Inr w" "date_parse v = Some t" "four_digit_year (t + d)" "date_parse now = Some n"
  shows "reached now (Some w) \<longleftrightarrow> t + d \<le> n"
proof -
  have "date_parse w = Some (t + d)" by (rule addMilliseconds_parse[OF assms(1-3)])
  moreover from this have "w \<noteq> []" by (auto simp: date_parse_def iso_shape_def)
  ultimately show ?thesis using assms(4) by (simp add: reached_def truthy_def)
qed

theorem deadline_exact_witness:
  "addMilliseconds ''2024-02-28T23:59:59.999Z'' 1 = Inr ''2024-02-29T00:00:00.000Z''
     \<and> reached ''2024-02-29T00:00:00.000Z'' (Some ''2024-02-29T00:00:00.000Z'')
     \<and> \<not> reached ''2024-02-28T23:59:59.999Z'' (Some ''2024-02-29T00:00:00.000Z'')"
proof -
  have a: "addMilliseconds ''2024-02-28T23:59:59.999Z'' 1 = Inr ''2024-02-29T00:00:00.000Z''" by code_simp
  have p: "date_parse ''2024-02-28T23:59:59.999Z'' = Some 1709164799999"
    "date_parse ''2024-02-29T00:00:00.000Z'' = Some 1709164800000" by code_simp+
  have y: "four_digit_year (1709164799999 + 1)" by code_simp
  from a deadline_exact[OF a p(1) y p(1)] deadline_exact[OF a p(1) y p(2)] show ?thesis by simp
qed

end
