(* ===== verification/WfProgress.thy ===== *)
theory WfProgress
  imports WfRunFacts
begin

text \<open>
  Progress of the drafts: on a run that has a state for every stage of a well formed definition,
  activation and settlement never throw, and activation leaves a stage blocked only behind a
  stage that has not ended.
\<close>

lemma mapE_total: "(\<forall>x \<in> set xs. \<exists>y. f x = Inr y) \<Longrightarrow> \<exists>ys. mapE f xs = Inr ys"
  by (induction xs) auto

lemma foldE_total:
  assumes "P a" "\<And>a x. P a \<Longrightarrow> x \<in> set xs \<Longrightarrow> \<exists>b. f a x = Inr b \<and> P b"
  shows "\<exists>b. foldE f a xs = Inr b \<and> P b"
  using assms
proof (induction xs arbitrary: a)
  case (Cons x xs)
  from Cons.prems obtain b where b: "f a x = Inr b" "P b" by force
  from Cons.IH[of b] Cons.prems(2) b show ?case by auto
qed simp

lemma states_match_total:
  "states_match d run \<Longrightarrow> i \<in> st_stageId ` set (pd_stages d) \<Longrightarrow> \<exists>s. mutableState run i = Inr s"
  by (rule states_match_state) blast+

lemma activate_stage_total:
  assumes "states_match d run" "closed_stages (pd_stages d)" "s \<in> set (pd_stages d)"
  shows "\<exists>c' run'. activate_stage d t (c, run) s = Inr (c', run') \<and> states_match d run'"
proof -
  have dep: "\<exists>m. dependency_match run e = Inr m" if "e \<in> set (st_dependsOn s)" for e
  proof -
    from assms(2,3) that obtain src where "stage_by_id (pd_stages d) (dep_stageId e) = Some src"
      by (auto simp: closed_stages_def)
    then have "dep_stageId e \<in> st_stageId ` set (pd_stages d)" using stage_by_id_Some[of "pd_stages d" "dep_stageId e" src] by (metis imageI)
    with states_match_total[OF assms(1)] show ?thesis by (fastforce simp: dependency_match_def)
  qed
  obtain ms where "mapE (dependency_match run) (st_dependsOn s) = Inr ms"
    using mapE_total[of "st_dependsOn s" "dependency_match run"] dep by auto
  moreover obtain st where "mutableState run (st_stageId s) = Inr st"
    using states_match_total[OF assms(1)] assms(3) by blast
  ultimately have "\<exists>c' run'. activate_stage d t (c, run) s = Inr (c', run')"
    by (auto simp: activate_stage_def)
  with states_match_evolves[OF assms(1)] activate_stage_evolves show ?thesis by blast
qed

lemma activate_loop_total:
  assumes "states_match d run" "closed_stages (pd_stages d)"
  shows "\<exists>run'. activate_loop d t run = Inr run'"
  using assms(1)
proof (induction "blocked_count run" arbitrary: run rule: less_induct)
  case less
  have "\<exists>cr. foldE (activate_stage d t) (False, run) (pd_stages d) = Inr cr \<and> states_match d (snd cr)"
  proof (rule foldE_total)
    show "\<exists>b. activate_stage d t a x = Inr b \<and> states_match d (snd b)"
      if "states_match d (snd a)" "x \<in> set (pd_stages d)" for a x
      using activate_stage_total[OF that(1) assms(2) that(2), of t "fst a"] by auto
  qed (simp add: less.prems)
  then obtain c r where p: "activate_pass d t run = Inr (c, r)" and m: "states_match d r"
    by (auto simp: activate_pass_def)
  show ?case
  proof (cases c)
    case True
    then have "blocked_count r < blocked_count run"
      using p activate_stages_count[of d t False run "pd_stages d"] by (auto simp: activate_pass_def)
    from less.hyps[OF this m] p True show ?thesis by (subst activate_loop.simps) simp
  next
    case False
    with p show ?thesis by (subst activate_loop.simps) simp
  qed
qed

lemma activate_stage_time:
  "activate_stage d t (False, run) s = Inr (False, run) \<Longrightarrow> activate_stage d t' (False, run) s = Inr (False, run)"
  by (auto simp: activate_stage_def bindE_Inr_iff split: if_splits)

lemma foldE_idle: "(\<forall>x \<in> set xs. f a x = Inr a) \<Longrightarrow> foldE f a xs = Inr a"
  by (induction xs) auto

text \<open>A settled run stays as it is, at any later time.\<close>

lemma activate_loop_again:
  assumes "activate_loop d t run = Inr run'"
  shows "activate_loop d t' run' = Inr run'"
proof -
  have "activate_stage d t' (False, run') s = Inr (False, run')" if "s \<in> set (pd_stages d)" for s
    using activate_stage_time activate_pass_idle[OF activate_loop_fixpoint[OF assms] that] by blast
  then have "activate_pass d t' run' = Inr (False, run')"
    by (simp add: activate_pass_def foldE_idle)
  then show ?thesis by (subst activate_loop.simps) simp
qed

lemma activate_loop_blocked:
  assumes "activate_loop d t run = Inr run'" "s \<in> set (pd_stages d)"
    "st_stageId s \<notin> st_stageId ` set (filter is_compensation (pd_stages d))"
    "mutableState run' (st_stageId s) = Inr state" "ss_status state = Blocked"
  shows "\<exists>e \<in> set (st_dependsOn s). \<exists>source. mutableState run' (dep_stageId e) = Inr source \<and> ss_status source \<noteq> Terminal"
proof -
  from activate_stage_idle[OF activate_pass_idle[OF activate_loop_fixpoint[OF assms(1)] assms(2)] assms(3)]
  obtain matches where "mapE (dependency_match run') (st_dependsOn s) = Inr matches"
    "\<not> dependencies_satisfied s matches" "\<not> dependencies_impossible s matches"
    using assms(4,5) by force
  from undecided_dependency[OF this] show ?thesis .
qed

end
