(* ===== verification/WfGraphProperties.thy ===== *)
theory WfGraphProperties
  imports WfProgress WfSamples
begin

text \<open>
  The properties of the stage graph: validation of definitions, topological order, activation,
  settlement and the compensation queue, with small sample definitions for the witnesses.
\<close>

subsection \<open>Samples\<close>

definition after :: "string \<Rightarrow> stage_outcome \<Rightarrow> stage_dependency" where
  "after i oc = \<lparr>dep_stageId = i, dep_outcomes = [oc]\<rparr>"

definition task_stage :: "string \<Rightarrow> string option \<Rightarrow> stage_dependency list \<Rightarrow> process_stage" where
  "task_stage i target deps = \<lparr>st_schemaVersion = 1, st_stageId = i, st_name = i, st_dependsOn = deps,
     st_dependencyMode = None, st_timeoutMs = None, st_metadata = None,
     st_kind = TaskStage ''d'' ''1'' None target\<rparr>"

definition trip_stages :: "process_stage list" where
  "trip_stages = [task_stage ''a'' None [], task_stage ''b'' None [after ''a'' Succeeded],
     task_stage ''x'' (Some ''a'') [], task_stage ''y'' (Some ''b'') []]"

definition cyclic_stages :: "process_stage list" where
  "cyclic_stages = [task_stage ''a'' None [after ''b'' Succeeded], task_stage ''b'' None [after ''a'' Succeeded]]"

lemma trip_body_valid: "validateProcessDefinitionBodyV1 (definition_body trip_stages) = Inr ()"
  by code_simp

lemma trip_body_digestible: "digestible (process_definition_json (definition_body trip_stages))"
  by (simp add: json_simps definition_body_def trip_stages_def task_stage_def after_def
      DEFAULT_PROCESS_DEFINITION_LIMITS_V1_def)

lemmas trip_valid = sample_definition_valid[OF trip_body_valid trip_body_digestible]

lemma sample_definition_stages [simp]:
  "pd_stages (definition_body stages) = stages" "pd_stages (sample_definition stages) = stages"
  by (simp_all add: sample_definition_def definition_body_def)

lemma trip_order: "topologicalProcessStageIdsV1 (sample_definition trip_stages) = Inr [''a'', ''b'', ''x'', ''y'']"
proof -
  have "visit_all trip_stages [] (map st_stageId trip_stages) [] = Inr [''a'', ''b'', ''x'', ''y'']" by code_simp
  then show ?thesis by (simp add: topologicalProcessStageIdsV1_def trip_valid)
qed

text \<open>The run of \<open>trip_stages\<close> with given states of its stages.\<close>

definition trip_run :: "(stage_status \<times> stage_outcome option) list \<Rightarrow> process_run" where
  "trip_run states = run_body (definition_body trip_stages) 0 RRunning
     (map (\<lambda>(i, st, oc). plain_state i st oc) (zip [''a'', ''b'', ''x'', ''y''] states))"

lemma trip_match: "length states = 4 \<Longrightarrow> states_match (definition_body trip_stages) (trip_run states)"
  by (auto simp: states_match_def trip_run_def run_body_def trip_stages_def task_stage_def plain_state_def
      numeral_eq_Suc length_Suc_conv)

lemma trip_cancellation [simp]: "pr_cancellation (trip_run states) = None"
  by (simp add: trip_run_def run_body_def)

lemma trip_well_formed: "well_formed_stages trip_stages"
  using validateProcessDefinitionBodyV1_facts(1)[OF trip_body_valid] by (simp add: definition_body_def)

lemma trip_normal: "normal_dependencies trip_stages" "normal_stage (definition_body trip_stages) ''b''"
proof -
  show "normal_dependencies trip_stages" by code_simp
  have "st_stageId ` set (filter is_compensation trip_stages) = {''x'', ''y''}" by code_simp
  then show "normal_stage (definition_body trip_stages) ''b''"
    by (simp add: normal_stage_def trip_stages_def task_stage_def)
qed

subsection \<open>Definitions\<close>

text \<open>
  C27. The cycle check is exact: on stages whose dependencies all exist, \<open>assertAcyclic\<close> passes
  if and only if the graph of their dependencies has no cycle.
\<close>

theorem cycle_check_exact:
  assumes "closed_stages stages"
  shows "assertAcyclic stages = Inr () \<longleftrightarrow> acyclic (stage_graph stages)"
  using assms by (rule assertAcyclic_iff)

theorem cycle_check_exact_witness:
  "assertAcyclic cyclic_stages = fail ''process definition contains a cycle'' \<and> \<not> acyclic (stage_graph cyclic_stages)
     \<and> assertAcyclic trip_stages = Inr ()"
proof -
  have "closed_stages cyclic_stages" by code_simp
  moreover have "assertAcyclic cyclic_stages = fail ''process definition contains a cycle''" by code_simp
  moreover have "assertAcyclic trip_stages = Inr ()" by code_simp
  ultimately show ?thesis using cycle_check_exact[of cyclic_stages] by (simp add: fail_def)
qed

text \<open>
  C28. A definition that passes validation is one the runner can execute: its stage IDs are
  distinct, every dependency names a stage that can produce each outcome asked for, the graph has
  no cycle and bounded fan-out, at least one stage is normal, and every compensation stands
  for a task that is not itself a compensation.
\<close>

theorem accepted_definition:
  assumes "validateProcessDefinitionV1 d = Inr d'"
  shows "d' = d \<and> distinct (map st_stageId (pd_stages d)) \<and> acyclic (stage_graph (pd_stages d))
    \<and> (\<forall>s \<in> set (pd_stages d). \<forall>e \<in> set (st_dependsOn s). \<exists>source.
         stage_by_id (pd_stages d) (dep_stageId e) = Some source
         \<and> set (dep_outcomes e) \<subseteq> set (stageOutcomes (st_kind source)))
    \<and> int (dependents (pd_stages d) i) \<le> maximumDependentsPerStage (pd_limits d)
    \<and> (\<exists>s \<in> set (pd_stages d). \<not> is_compensation s)
    \<and> (\<forall>s \<in> set (pd_stages d). is_compensation s \<longrightarrow> st_dependsOn s = [] \<and> (\<exists>target.
         stage_by_id (pd_stages d) (compensation_target s) = Some target \<and> is_task target \<and> \<not> is_compensation target))"
proof -
  from assms have "d' = d" "validateProcessDefinitionBodyV1 d = Inr ()"
    by (auto simp: validateProcessDefinitionV1_def bindE_Inr_iff split: if_splits)
  with validateProcessDefinitionBodyV1_facts[OF this(2)] show ?thesis
    by (fastforce simp: well_formed_stages_def list_ex_iff list_all_iff validate_compensation_def
        split: option.splits if_splits)
qed

theorem accepted_definition_witness:
  "validateProcessDefinitionV1 (sample_definition trip_stages) = Inr (sample_definition trip_stages)
     \<and> acyclic (stage_graph trip_stages) \<and> distinct (map st_stageId trip_stages)"
  using trip_valid accepted_definition[OF trip_valid] by simp

text \<open>
  The topological order lists every stage exactly once, and each one after all the stages it
  depends on.
\<close>

theorem topological_order_sound:
  assumes "topologicalProcessStageIdsV1 d = Inr order"
  shows "distinct order \<and> set order = st_stageId ` set (pd_stages d)
    \<and> (\<forall>i j xs ys. (i, j) \<in> (stage_graph (pd_stages d))\<^sup>+ \<longrightarrow> order = xs @ j # ys \<longrightarrow> i \<in> set xs)"
proof -
  from assms have v: "visit_all (pd_stages d) [] (map st_stageId (pd_stages d)) [] = Inr order"
    by (auto simp: topologicalProcessStageIdsV1_def bindE_Inr_iff)
  from visit_all_stages[OF v] topo_ordered_before[OF visit_all_stages(1)[OF v]] show ?thesis
    by (auto simp: topo_ordered_def)
qed

theorem topological_order_sound_witness:
  "topologicalProcessStageIdsV1 (sample_definition trip_stages) = Inr [''a'', ''b'', ''x'', ''y'']
     \<and> set [''a'', ''b'', ''x'', ''y''] = st_stageId ` set trip_stages"
  using trip_order topological_order_sound[OF trip_order] by simp

text \<open>
  What \<open>createProcessDefinitionV1\<close> returns is accepted unchanged by
  \<open>validateProcessDefinitionV1\<close>: the digest it computes is the one the validator recomputes.
\<close>

theorem created_definition_valid:
  assumes "createProcessDefinitionV1 p v n stages triggers override = Inr d"
  shows "validateProcessDefinitionV1 d = Inr d \<and> pd_stages d = stages \<and> pd_schemaVersion d = 1"
  using createProcessDefinitionV1_valid[OF assms] assms
  by (auto simp: createProcessDefinitionV1_def bindE_Inr_iff Let_def)

theorem created_definition_valid_witness:
  "\<exists>d. createProcessDefinitionV1 ''p'' ''1'' ''p'' trip_stages None id = Inr d \<and> validateProcessDefinitionV1 d = Inr d"
proof -
  have b: "\<lparr>pd_schemaVersion = 1, pd_processId = ''p'', pd_version = ''1'', pd_name = ''p'', pd_stages = trip_stages,
      pd_cancellationTriggers = None, pd_limits = DEFAULT_PROCESS_DEFINITION_LIMITS_V1, pd_definitionDigest = []\<rparr>
      = definition_body trip_stages" by (simp add: definition_body_def)
  have "\<exists>d. createProcessDefinitionV1 ''p'' ''1'' ''p'' trip_stages None id = Inr d"
    using the_digest(1)[OF trip_body_digestible, of "''process-definition''"] trip_body_valid
    by (simp add: createProcessDefinitionV1_def Let_def b)
  with created_definition_valid show ?thesis by blast
qed

subsection \<open>Activation and settlement\<close>

text \<open>
  C29. Activation returns and settles: on a run with a state for every stage of a well formed
  definition \<open>activateStages\<close> never throws and never loops, a second activation at any later time
  changes nothing, and a normal stage stays blocked only while some stage it depends on has not
  ended.
\<close>

theorem activation_settles:
  assumes "states_match d run" "well_formed_stages (pd_stages d)" "pr_cancellation run = None"
  shows "\<exists>run'. activateStages d t run = Inr run' \<and> run_evolves run run' \<and> activateStages d t' run' = Inr run'
    \<and> (\<forall>s \<in> set (pd_stages d). \<forall>state. normal_stage d (st_stageId s) \<longrightarrow> mutableState run' (st_stageId s) = Inr state
        \<longrightarrow> ss_status state = Blocked \<longrightarrow> (\<exists>e \<in> set (st_dependsOn s). \<exists>source.
          mutableState run' (dep_stageId e) = Inr source \<and> ss_status source \<noteq> Terminal))"
proof -
  have closed: "closed_stages (pd_stages d)" using assms(2) by (simp add: well_formed_stages_def)
  obtain run' where l: "activate_loop d t run = Inr run'"
    using activate_loop_total[OF assms(1) closed, of t] by blast
  with assms(3) have a: "activateStages d t run = Inr run'" by (simp add: activateStages_def)
  have "activateStages d t' run' = Inr run'"
    using activateStages_cancellation[OF a] assms(3) activate_loop_again[OF l] by (simp add: activateStages_def)
  with a activateStages_evolves[OF a] activate_loop_blocked[OF l] show ?thesis
    unfolding normal_stage_def by blast
qed

theorem activation_settles_witness:
  "\<exists>run'. activateStages (definition_body trip_stages) time0
       (trip_run [(Terminal, Some Succeeded), (Blocked, None), (Blocked, None), (Blocked, None)]) = Inr run'
     \<and> activateStages (definition_body trip_stages) time0 run' = Inr run'"
  using activation_settles[OF trip_match, of "[(Terminal, Some Succeeded), (Blocked, None), (Blocked, None), (Blocked, None)]"
      time0 time0] trip_well_formed by auto

text \<open>
  A run does not end early: when its settled status is completed, failed or canceled outside
  a cancellation, every normal stage has ended, provided no normal stage depends on a
  compensation.
\<close>

theorem ended_run_has_ended:
  assumes "activateStages d t run = Inr run'" "settleRunStatus d run' = Inr r" "terminalRun (pr_status r)"
    "pr_cancellation run = None" "states_match d run"
    "well_formed_stages (pd_stages d)" "normal_dependencies (pd_stages d)" "normal_stage d i"
  shows "\<exists>state. mutableState r i = Inr state \<and> ss_status state = Terminal"
proof -
  have "activate_loop d t run = Inr run'" using assms(1,4) by (simp add: activateStages_def)
  moreover have "pr_cancellation run' = None" "states_match d run'"
    using assms activateStages_cancellation states_match_evolves activateStages_evolves by auto
  ultimately have "\<exists>state. mutableState run' i = Inr state \<and> ss_status state = Terminal"
    using settle_ended assms by blast
  moreover obtain x where "r = run'\<lparr>pr_status := x\<rparr>" using settle_frame[OF assms(2)] by blast
  ultimately show ?thesis by (simp add: mutableState_def)
qed

definition ended_trip :: process_run where
  "ended_trip = trip_run [(Terminal, Some Failed), (Terminal, Some Skipped), (Blocked, None), (Blocked, None)]"

lemma ended_trip_settles:
  "activateStages (definition_body trip_stages) time0 ended_trip = Inr ended_trip"
  "settleRunStatus (definition_body trip_stages) ended_trip = Inr (ended_trip\<lparr>pr_status := RFailed\<rparr>)"
  by code_simp+

theorem ended_run_has_ended_witness:
  "settleRunStatus (definition_body trip_stages) ended_trip = Inr (ended_trip\<lparr>pr_status := RFailed\<rparr>)
     \<and> (\<exists>state. mutableState (ended_trip\<lparr>pr_status := RFailed\<rparr>) ''b'' = Inr state \<and> ss_status state = Terminal)"
  using ended_trip_settles(2) ended_run_has_ended[OF ended_trip_settles, of "''b''"] trip_match trip_well_formed trip_normal
  by (simp add: terminalRun_def ended_trip_def)

text \<open>
  A completed run hides no failure: when settlement says completed, every normal stage has
  ended, and a stage that ended neither skipped nor successfully has its outcome asked for by
  some stage that was not skipped.
\<close>

theorem completed_run_is_handled:
  assumes "settleRunStatus d run = Inr r" "pr_status r = RCompleted" "pr_cancellation run = None"
    "states_match d run" "normal_stage d i" "mutableState run i = Inr state"
  shows "ss_status state = Terminal
    \<and> (\<forall>oc. ss_outcome state = Some oc \<longrightarrow> oc \<noteq> Skipped \<longrightarrow> oc \<notin> successOutcomes \<longrightarrow>
       (\<exists>c \<in> set (pd_stages d). \<exists>cs. mutableState run (st_stageId c) = Inr cs \<and> ss_outcome cs \<noteq> Some Skipped
         \<and> (\<exists>e \<in> set (st_dependsOn c). dep_stageId e = i \<and> oc \<in> set (dep_outcomes e))))"
  using settle_completed[OF assms] by blast

definition rescue_stages :: "process_stage list" where
  "rescue_stages = [task_stage ''a'' None [], task_stage ''b'' None [after ''a'' Failed]]"

definition rescued_run :: process_run where
  "rescued_run = run_body (definition_body rescue_stages) 0 RRunning
     [plain_state ''a'' Terminal (Some Failed), plain_state ''b'' Terminal (Some Succeeded)]"

theorem completed_run_is_handled_witness:
  "settleRunStatus (definition_body rescue_stages) rescued_run = Inr (rescued_run\<lparr>pr_status := RCompleted\<rparr>)
     \<and> (\<exists>c \<in> set rescue_stages. \<exists>e \<in> set (st_dependsOn c). dep_stageId e = ''a'' \<and> Failed \<in> set (dep_outcomes e))"
proof -
  have s: "settleRunStatus (definition_body rescue_stages) rescued_run = Inr (rescued_run\<lparr>pr_status := RCompleted\<rparr>)"
    by code_simp
  have n: "normal_stage (definition_body rescue_stages) ''a''" "states_match (definition_body rescue_stages) rescued_run"
    "pr_cancellation rescued_run = None"
    by (simp_all add: normal_stage_def states_match_def rescue_stages_def task_stage_def rescued_run_def run_body_def
        plain_state_def is_compensation_def)
  have m: "mutableState rescued_run ''a'' = Inr (plain_state ''a'' Terminal (Some Failed))"
    by (simp add: mutableState_def rescued_run_def run_body_def plain_state_def)
  from completed_run_is_handled[OF s _ n(3,2,1) m] s show ?thesis
    by (auto simp: plain_state_def successOutcomes_def)
qed

subsection \<open>Compensation\<close>

text \<open>
  C30. The compensation queue: \<open>cancelDraft\<close> queues the compensation of exactly those stages that
  succeeded and have one, each once, and undoes a stage before every stage it (transitively)
  depends on.
\<close>

theorem compensation_queue:
  assumes "cancelDraft d run opId reason t = Inr r" "states_match d run"
  shows "\<exists>ids c. pr_cancellation r = Some c
    \<and> cn_pendingCompensationStageIds c = map (\<lambda>i. the (compensation_of d i)) ids \<and> distinct ids
    \<and> set ids = {ss_stageId s | s. s \<in> set (pr_stageStates run) \<and> ss_outcome s = Some Succeeded
                  \<and> compensation_of d (ss_stageId s) \<noteq> None}
    \<and> sorted_wrt (\<lambda>i j. (i, j) \<notin> (stage_graph (pd_stages d))\<^sup>+) ids"
proof -
  from cancel_pending_order[OF assms(1)] obtain ids c where c: "pr_cancellation r = Some c"
    "cn_pendingCompensationStageIds c = map (\<lambda>i. the (compensation_of d i)) ids" "distinct ids"
    "\<forall>i \<in> set ids. compensation_of d i \<noteq> None"
    "\<forall>s \<in> set (pr_stageStates run). ss_outcome s = Some Succeeded \<longrightarrow> states_match d run
          \<longrightarrow> compensation_of d (ss_stageId s) \<noteq> None \<longrightarrow> ss_stageId s \<in> set ids"
    "\<forall>i \<in> set ids. \<exists>s \<in> set (pr_stageStates run). ss_stageId s = i \<and> ss_outcome s = Some Succeeded"
    "sorted_wrt (\<lambda>i j. (i, j) \<notin> (stage_graph (pd_stages d))\<^sup>+) ids"
    by blast
  have "set ids = {ss_stageId s | s. s \<in> set (pr_stageStates run) \<and> ss_outcome s = Some Succeeded
                  \<and> compensation_of d (ss_stageId s) \<noteq> None}"
    using c(4-6) assms(2) by fastforce
  with c show ?thesis by blast
qed

definition done_trip :: process_run where
  "done_trip = trip_run [(Terminal, Some Succeeded), (Terminal, Some Succeeded), (Blocked, None), (Blocked, None)]"

lemma done_trip_cancel:
  "\<exists>r c. cancelDraft (sample_definition trip_stages) done_trip ''o'' ''stop'' time0 = Inr r
     \<and> pr_cancellation r = Some c \<and> cn_pendingCompensationStageIds c = [''y'', ''x'']"
proof -
  have "pending_compensations (definition_body trip_stages) done_trip [''a'', ''b'', ''x'', ''y''] = [''y'', ''x'']"
    by code_simp
  then have "pending_compensations (sample_definition trip_stages) done_trip [''a'', ''b'', ''x'', ''y''] = [''y'', ''x'']"
    by (simp add: pending_compensations_def compensationsByTarget_def)
  moreover have "\<exists>ss. mapE (cancel_stage_state (definition_body trip_stages) time0) (pr_stageStates done_trip) = Inr ss"
    by (simp add: done_trip_def trip_run_def run_body_def plain_state_def cancel_stage_state_def trip_stages_def task_stage_def)
  then have "\<exists>ss. mapE (cancel_stage_state (sample_definition trip_stages) time0) (pr_stageStates done_trip) = Inr ss"
    unfolding cancel_stage_state_def sample_definition_stages .
  ultimately show ?thesis by (auto simp: cancelDraft_def trip_order Let_def)
qed

theorem compensation_queue_witness:
  "\<exists>r c ids. cancelDraft (sample_definition trip_stages) done_trip ''o'' ''stop'' time0 = Inr r
     \<and> pr_cancellation r = Some c \<and> cn_pendingCompensationStageIds c = [''y'', ''x'']
     \<and> [''y'', ''x''] = map (\<lambda>i. the (compensation_of (sample_definition trip_stages) i)) ids \<and> distinct ids"
proof -
  obtain r c where r: "cancelDraft (sample_definition trip_stages) done_trip ''o'' ''stop'' time0 = Inr r"
    "pr_cancellation r = Some c" "cn_pendingCompensationStageIds c = [''y'', ''x'']"
    using done_trip_cancel by blast
  have "states_match (sample_definition trip_stages) done_trip"
    using trip_match by (simp add: done_trip_def states_match_def)
  from compensation_queue[OF r(1) this] obtain ids c' where "pr_cancellation r = Some c'"
    "cn_pendingCompensationStageIds c' = map (\<lambda>i. the (compensation_of (sample_definition trip_stages) i)) ids"
    "distinct ids" by blast
  with r have "[''y'', ''x''] = map (\<lambda>i. the (compensation_of (sample_definition trip_stages) i)) ids \<and> distinct ids"
    by simp
  with r show ?thesis by (intro exI[of _ r] exI[of _ c] exI[of _ ids]) simp
qed

end
