(* ===== verification/WfFindings.thy ===== *)
theory WfFindings
  imports WfTaskSamples WfGraphProperties
begin

text \<open>
  Behaviours of the runner that are easy to miss and that the findings of the development rest
  on: a task that waits holds up the stages behind it, a second cancellation stops the queue of
  compensations, the validator admits a stage that can never start, and identifiers that are
  valid one by one can be too long together.
\<close>

text \<open>
  C34. A task stage that waits for an attempt in flight (or for one whose effect is indeterminate)
  ends the round: the visit answers \<open>false\<close>, so the stages after it in the definition are not
  visited, even when they are ready and independent of it.
\<close>

theorem waiting_task_ends_round:
  assumes "pd_stages d = pre @ st # post" "pr_cancellation run = None"
    "\<forall>x \<in> set pre. \<exists>s. mutableState run (st_stageId x) = Inr s \<and> ss_status s \<notin> {Ready, Waiting}"
    "is_task st" "mutableState run (st_stageId st) = Inr s" "ss_status s = Waiting"
    "truthy (ss_taskRunId s)" "ss_reasonCode s = Some reason"
    "getTaskDefinition (pr_tenantId run) (task_definitionId (st_kind st))
         (task_definitionVersion (st_kind st)) (fst sw) = Some td"
    "executeTask opts run st td (ss_attempt s) (the (ss_taskRunId s)) t sw = (Inr result, sw')"
    "result = TaskInFlight reason \<or> result = TaskIndeterminate reason usage"
  shows "transitionOne opts d run t sw = (Inr (False, run), sw')"
  using transition_blocked[OF assms] .

definition two_tasks :: "process_stage list" where
  "two_tasks = [task_stage ''a'' None [], task_stage ''b'' None []]"

definition waiting_run :: process_run where
  "waiting_run = run_body (definition_body two_tasks) 0 RRunning
     [(plain_state ''a'' Waiting None)\<lparr>ss_attempt := 1, ss_taskRunId := Some ''r:a:1'',
        ss_reasonCode := Some ''protected_task_executor_error''\<rparr>,
      plain_state ''b'' Ready None]"

definition waiting_store :: workflow_store where
  "waiting_store = (task_store (sample_task TRIndeterminate 2 ''k''))
     \<lparr>ws_taskDefinitions := [(key3 ''t'' ''d'' ''1'', sample_task_definition)]\<rparr>"

definition worker_options :: "nat options" where
  "worker_options = \<lparr>op_taskExecutor = None, op_protectedTaskExecutor = Some (throwing Suc),
     op_taskBindingResolver = None, op_gateProvider = None, op_workerId = ''w'',
     op_taskLeaseDurationMs = 300000, op_localeCompare = (\<lambda>_ _. 0)\<rparr>"

lemma waiting_attempt:
  "executeTask worker_options waiting_run (task_stage ''a'' None []) sample_task_definition 1 ''r:a:1'' time0 (waiting_store, 0)
     = (Inr (TaskIndeterminate ''protected_task_executor_error'' None), (waiting_store, 0))"
proof -
  have in1: "task_inputDigest waiting_run ''a'' 1 = Inr sample_inputDigest"
    using the_digest(1)[OF input_digestible, of "''task-run-input''"]
    by (simp add: task_inputDigest_def waiting_run_def run_body_def sample_inputDigest_def)
  have "digestible (JObj [(''workerId'', JStr ''w''), (''taskRunId'', JStr ''r:a:1''), (''generation'', JNum 0)])"
    by (simp add: json_simps)
  then have tok: "\<exists>tok. taskLeaseToken ''w'' ''r:a:1'' 0 = Inr tok"
    using the_digest(1) by (fastforce simp: taskLeaseToken_def)
  have ms: "addMilliseconds time0 300000 = Inr ''2026-01-01T00:05:00.000Z''" by code_simp
  have key: "task_idempotencyKey ''t'' ''r'' ''a'' 1 = ''workflow-task:t:r:a:1''" by code_simp
  let ?tr = "sample_task TRIndeterminate 2 ''k''"
  have get: "getTaskRun ''t'' ''r:a:1'' waiting_store = (Inr (Some ?tr), waiting_store)"
    using sample_get[of TRIndeterminate 2 "''k''"] by (auto simp: getTaskRun_def bindS_def waiting_store_def split: sum.splits)
  have fields: "tr_processRunId ?tr = ''r''" "tr_stageId ?tr = ''a''" "tr_attempt ?tr = 1" "tr_inputDigest ?tr = sample_inputDigest"
    "tr_idempotencyKey ?tr = ''workflow-task:t:r:a:1''" "tr_binding ?tr = sample_binding"
    "tr_reasonCode ?tr = Some ''protected_task_executor_error''" "tr_usage ?tr = None"
    by (simp_all add: sample_task_def task_body_def)
  have run: "pr_tenantId waiting_run = ''t''" "pr_runId waiting_run = ''r''" by (simp_all add: waiting_run_def run_body_def)
  have claim: "claim_run worker_options waiting_run ''a'' 1 ''r:a:1'' ''workflow-task:t:r:a:1'' sample_binding sample_inputDigest
      tok e time0 waiting_store = (Inr (?tr, False), waiting_store)" for tok e
    using sample_task_valid[of 2 "''k''" TRIndeterminate] by (simp add: claim_run_def bindS_def run get fields)
  have ex: "choose_executor worker_options sample_task_definition ''a'' = Inr (throwing Suc)"
    by (simp add: choose_executor_def worker_options_def sample_task_definition_def task_definition_body_def)
  have "st_stageId (task_stage ''a'' None []) = ''a''" by (simp add: task_stage_def)
  with in1 tok ms key claim ex run fields show ?thesis
    by (auto simp: executeTask_def bindS_def sample_task_definition_valid resolve_binding_def worker_options_def
        sample_binding_created Let_def onStore_def settled_result_def nullish_def)
qed

theorem waiting_task_ends_round_witness:
  "transitionOne worker_options (definition_body two_tasks) waiting_run time0 (waiting_store, 0)
     = (Inr (False, waiting_run), (waiting_store, 0))
   \<and> mutableState waiting_run ''b'' = Inr (plain_state ''b'' Ready None)"
proof -
  let ?s = "(plain_state ''a'' Waiting None)\<lparr>ss_attempt := 1, ss_taskRunId := Some ''r:a:1'',
        ss_reasonCode := Some ''protected_task_executor_error''\<rparr>"
  have st: "pd_stages (definition_body two_tasks) = [] @ task_stage ''a'' None [] # [task_stage ''b'' None []]"
    by (simp add: two_tasks_def)
  have k: "is_task (task_stage ''a'' None [])" "st_stageId (task_stage ''a'' None []) = ''a''"
    "st_kind (task_stage ''a'' None []) = TaskStage ''d'' ''1'' None None" by (simp_all add: task_stage_def is_task_def)
  have m: "mutableState waiting_run ''a'' = Inr ?s" "pr_cancellation waiting_run = None" "pr_tenantId waiting_run = ''t''"
    by (simp_all add: mutableState_def waiting_run_def run_body_def plain_state_def)
  have td: "getTaskDefinition ''t'' ''d'' ''1'' waiting_store = Some sample_task_definition"
    by (simp add: getTaskDefinition_def waiting_store_def)
  have s: "ss_status ?s = Waiting" "ss_taskRunId ?s = Some ''r:a:1''" "ss_attempt ?s = 1"
    "ss_reasonCode ?s = Some ''protected_task_executor_error''" by (simp_all add: plain_state_def)
  have "transitionOne worker_options (definition_body two_tasks) waiting_run time0 (waiting_store, 0)
     = (Inr (False, waiting_run), (waiting_store, 0))"
    by (rule waiting_task_ends_round[OF st m(2) _ k(1), where s = ?s])
       (use m td waiting_attempt k s in \<open>auto simp: truthy_def\<close>)
  moreover have "mutableState waiting_run ''b'' = Inr (plain_state ''b'' Ready None)"
    by (simp add: mutableState_def waiting_run_def run_body_def plain_state_def)
  ultimately show ?thesis by blast
qed

text \<open>
  C35. A second cancellation stops the first. A run is canceled (\<open>r1\<close>), its first compensation
  \<open>i\<close> runs and ends, the next has not started, and the run (\<open>run\<close>) is canceled again: the queue is
  computed again from the stages that succeeded, so it is the queue of the first cancellation,
  with \<open>i\<close> back at its head. Because \<open>i\<close> is terminal no transition changes the run any more, and
  its status stays canceling: the compensations behind \<open>i\<close> never run.
\<close>

theorem second_cancellation_stops:
  assumes "cancelDraft d run0 op1 reason1 t1 = Inr r1" "states_match d run0"
    "\<forall>s \<in> set (pr_stageStates run0). ss_outcome s \<noteq> None \<longrightarrow> ss_status s = Terminal"
    "pr_cancellation r1 = Some c1" "cn_pendingCompensationStageIds c1 = i # rest"
    "run_evolves r1 run" "mutableState run i = Inr hs" "ss_status hs = Terminal"
    "i \<in> st_stageId ` set (filter is_compensation (pd_stages d))"
    "\<forall>st s. st \<in> set (pd_stages d) \<longrightarrow> is_compensation st \<longrightarrow> mutableState run (st_stageId st) = Inr s
      \<longrightarrow> ss_status s \<in> {Blocked, Terminal} \<and> ss_outcome s \<noteq> Some Failed"
    "cancelDraft d run op2 reason2 t2 = Inr r2"
  shows "(\<exists>c2. pr_cancellation r2 = Some c2 \<and> cn_pendingCompensationStageIds c2 = i # rest)
    \<and> transitionOne opts d r2 t' sw = (Inr (False, r2), sw) \<and> settle_draft d t' r2 = Inr (r2\<lparr>pr_status := RCanceling\<rparr>)"
proof -
  from second_cancel_requeues[OF assms(1-3,6,11)] assms(4,5) obtain c2 where
    c2: "pr_cancellation r2 = Some c2" "cn_pendingCompensationStageIds c2 = i # rest" by auto
  have m: "states_match d run"
    using assms(2,6) states_match_evolves cancelDraft_evolves[OF assms(1)] by blast
  from second_cancel_idle[OF assms(11) m _ c2 assms(7-9)] assms(10) c2 show ?thesis by blast
qed

text \<open>
  The round trip is canceled; \<open>y\<close> is made ready, completes, and leaves the queue; then the run is
  canceled a second time.
\<close>

definition undone_first :: "process_run \<Rightarrow> process_run" where
  "undone_first r1 = (case ready_compensation r1 of
     Inr r \<Rightarrow> (case settle_stage r (task_stage ''y'' (Some ''b'') []) (TaskCompleted None None None None) time0 of
       Inr (_, r') \<Rightarrow> r' | Inl _ \<Rightarrow> r) | Inl _ \<Rightarrow> r1)"

lemma trip_cancels:
  assumes "pr_stageStates run = [plain_state ''a'' Terminal (Some Succeeded), plain_state ''b'' Terminal (Some Succeeded), x, y]"
    "ss_stageId x = ''x''" "ss_stageId y = ''y''"
  shows "cancelDraft (sample_definition trip_stages) run o1 why t = Inr (run\<lparr>pr_status := RCanceling,
     pr_cancellation := Some \<lparr>cn_operationId = o1, cn_reasonCode = why, cn_requestedAt = t,
       cn_pendingCompensationStageIds = [''y'', ''x'']\<rparr>\<rparr>)"
proof -
  have by_target: "compensationsByTarget (sample_definition trip_stages) = [(''a'', ''x''), (''b'', ''y'')]"
    unfolding compensationsByTarget_def sample_definition_stages by code_simp
  have "pending_compensations (sample_definition trip_stages) run [''a'', ''b'', ''x'', ''y''] = [''y'', ''x'']"
    by (simp add: pending_compensations_def by_target assms plain_state_def Let_def)
  moreover have "mapE (cancel_stage_state (sample_definition trip_stages) t) (pr_stageStates run) = Inr (pr_stageStates run)"
    by (simp add: assms plain_state_def cancel_stage_state_def trip_stages_def task_stage_def is_compensation_def)
  ultimately show ?thesis by (simp add: cancelDraft_def trip_order Let_def)
qed

theorem second_cancellation_stops_witness:
  "\<exists>r1 r2 c1 c2. cancelDraft (sample_definition trip_stages) done_trip ''o'' ''stop'' time0 = Inr r1
     \<and> pr_cancellation (undone_first r1) = Some c1 \<and> cn_pendingCompensationStageIds c1 = [''x'']
     \<and> cancelDraft (sample_definition trip_stages) (undone_first r1) ''o2'' ''stop'' time0 = Inr r2
     \<and> pr_cancellation r2 = Some c2 \<and> cn_pendingCompensationStageIds c2 = [''y'', ''x'']
     \<and> transitionOne bare_options (sample_definition trip_stages) r2 time0 (signal_store, ()) = (Inr (False, r2), (signal_store, ()))"
proof -
  let ?d = "sample_definition trip_stages"
  obtain r1 where r1: "cancelDraft ?d done_trip ''o'' ''stop'' time0 = Inr r1"
    and r1': "r1 = done_trip\<lparr>pr_status := RCanceling, pr_cancellation := Some \<lparr>cn_operationId = ''o'',
        cn_reasonCode = ''stop'', cn_requestedAt = time0, cn_pendingCompensationStageIds = [''y'', ''x'']\<rparr>\<rparr>"
    using trip_cancels[of done_trip "plain_state ''x'' Blocked None" "plain_state ''y'' Blocked None"]
    by (simp add: done_trip_def trip_run_def run_body_def) (simp add: plain_state_def)
  define run where "run = undone_first r1"
  have run: "run = r1\<lparr>pr_stageStates := [plain_state ''a'' Terminal (Some Succeeded), plain_state ''b'' Terminal (Some Succeeded),
      plain_state ''x'' Blocked None, (plain_state ''y'' Terminal (Some Succeeded))\<lparr>ss_finishedAt := Some time0\<rparr>],
      pr_cancellation := Some \<lparr>cn_operationId = ''o'',
        cn_reasonCode = ''stop'', cn_requestedAt = time0, cn_pendingCompensationStageIds = [''x'']\<rparr>\<rparr>"
    by (simp add: run_def undone_first_def r1' ready_compensation_def done_trip_def trip_run_def run_body_def mutableState_def
        plain_state_def set_state_def settle_stage_def task_stage_def applyTaskResult_def terminal_def Let_def
        advanceCompensationQueue_def is_compensation_def truthy_def)
  have ev: "run_evolves r1 run"
    by (simp add: run_evolves_def run r1' done_trip_def trip_run_def run_body_def plain_state_def stage_le_def)
  obtain r2 where r2: "cancelDraft ?d run ''o2'' ''stop'' time0 = Inr r2"
    using trip_cancels[of run "plain_state ''x'' Blocked None"] by (simp add: run) (simp add: plain_state_def)
  have m: "mutableState run ''x'' = Inr (plain_state ''x'' Blocked None)"
    "mutableState run ''y'' = Inr ((plain_state ''y'' Terminal (Some Succeeded))\<lparr>ss_finishedAt := Some time0\<rparr>)"
    by (simp_all add: mutableState_def run plain_state_def)
  have f: "filter is_compensation trip_stages = [task_stage ''x'' (Some ''a'') [], task_stage ''y'' (Some ''b'') []]" by code_simp
  have comp: "\<forall>st s. st \<in> set (pd_stages ?d) \<longrightarrow> is_compensation st \<longrightarrow> mutableState run (st_stageId st) = Inr s
      \<longrightarrow> ss_status s \<in> {Blocked, Terminal} \<and> ss_outcome s \<noteq> Some Failed"
  proof (intro allI impI)
    fix st s assume "st \<in> set (pd_stages ?d)" "is_compensation st" "mutableState run (st_stageId st) = Inr s"
    then have "st \<in> set (filter is_compensation trip_stages)" "mutableState run (st_stageId st) = Inr s" by simp_all
    then show "ss_status s \<in> {Blocked, Terminal} \<and> ss_outcome s \<noteq> Some Failed"
      unfolding f using m by (auto simp: task_stage_def plain_state_def)
  qed
  have sm: "states_match ?d done_trip" using trip_match by (simp add: done_trip_def states_match_def)
  have ended: "\<forall>s \<in> set (pr_stageStates done_trip). ss_outcome s \<noteq> None \<longrightarrow> ss_status s = Terminal"
    by (simp add: done_trip_def trip_run_def run_body_def plain_state_def)
  have "pr_cancellation r1 = Some \<lparr>cn_operationId = ''o'', cn_reasonCode = ''stop'', cn_requestedAt = time0,
      cn_pendingCompensationStageIds = [''y'', ''x'']\<rparr>" by (simp add: r1')
  moreover have "''y'' \<in> st_stageId ` set (filter is_compensation (pd_stages ?d))" using f by (simp add: task_stage_def)
  ultimately have "(\<exists>c2. pr_cancellation r2 = Some c2 \<and> cn_pendingCompensationStageIds c2 = [''y'', ''x''])
      \<and> transitionOne bare_options ?d r2 time0 (signal_store, ()) = (Inr (False, r2), (signal_store, ()))"
    using second_cancellation_stops[OF r1 sm ended _ _ ev m(2) _ _ comp r2, of _ "[''x'']" bare_options time0 "(signal_store, ())"]
    by (simp add: plain_state_def)
  with r1 r2 show ?thesis by (auto simp: run_def[symmetric]) (simp_all add: run)
qed

text \<open>
  The validator admits a definition that cannot succeed: a normal stage may depend on a
  compensation stage, which only a cancellation starts. When nothing else is left to do the run
  is settled as failed with that stage still blocked.
\<close>

definition dead_end_stages :: "process_stage list" where
  "dead_end_stages = [task_stage ''a'' None [], task_stage ''x'' (Some ''a'') [],
     task_stage ''b'' None [after ''x'' Succeeded]]"

definition dead_end_run :: process_run where
  "dead_end_run = run_body (definition_body dead_end_stages) 0 RRunning
     [plain_state ''a'' Terminal (Some Succeeded), plain_state ''x'' Blocked None, plain_state ''b'' Blocked None]"

theorem compensation_dependency_admitted:
  "validateProcessDefinitionBodyV1 (definition_body dead_end_stages) = Inr ()
   \<and> activateStages (definition_body dead_end_stages) time0 dead_end_run = Inr dead_end_run
   \<and> settleRunStatus (definition_body dead_end_stages) dead_end_run = Inr (dead_end_run\<lparr>pr_status := RFailed\<rparr>)
   \<and> mutableState dead_end_run ''b'' = Inr (plain_state ''b'' Blocked None)"
proof (intro conjI)
  show "validateProcessDefinitionBodyV1 (definition_body dead_end_stages) = Inr ()" by code_simp
  show "activateStages (definition_body dead_end_stages) time0 dead_end_run = Inr dead_end_run" by code_simp
  show "settleRunStatus (definition_body dead_end_stages) dead_end_run = Inr (dead_end_run\<lparr>pr_status := RFailed\<rparr>)"
    by code_simp
  show "mutableState dead_end_run ''b'' = Inr (plain_state ''b'' Blocked None)" by code_simp
qed

text \<open>
  C37. Identifiers that are valid one by one can be too long together: the idempotency key of a
  task attempt joins tenant, run and stage, and has to be a token itself, so with 143 characters
  in the three no attempt reaches an executor: executing it throws, or answers the failure of the
  binding resolver; the store and the world are as the resolver left them; and whatever executors
  are configured, the outcome is the same.
\<close>

theorem long_identifiers_never_execute:
  assumes "143 \<le> length (pr_tenantId run) + length (pr_runId run) + length (st_stageId st)"
  shows "\<exists>r sw'. (\<forall>f g. executeTask (with_executors f g opts) run st td n tid t sw = (r, sw'))
    \<and> executeTask opts run st td n tid t sw = (r, sw')
    \<and> r \<in> range Inl \<union> {Inr (TaskFailed ''task_binding_error'' (Some False) None)}
    \<and> sw' \<in> {sw, snd (resolve_binding opts run st td sw)}"
  by (rule long_identifiers_fail[OF assms])

theorem long_identifiers_never_execute_witness:
  "valid_token (replicate 150 (CHR ''s''))
   \<and> (\<exists>r. executeTask worker_options waiting_run (task_stage (replicate 150 (CHR ''s'')) None []) sample_task_definition 1 ''i'' time0
       (waiting_store, 0) = (r, (waiting_store, 0)) \<and> r \<in> range Inl \<union> {Inr (TaskFailed ''task_binding_error'' (Some False) None)})"
proof -
  have "valid_token (replicate 150 (CHR ''s''))" by code_simp
  moreover have long: "143 \<le> length (pr_tenantId waiting_run) + length (pr_runId waiting_run)
      + length (st_stageId (task_stage (replicate 150 (CHR ''s'')) None []))"
    by (simp add: task_stage_def)
  moreover have "snd (resolve_binding worker_options waiting_run st td (waiting_store, 0)) = (waiting_store, 0)" for st td
    by (simp add: resolve_binding_def worker_options_def)
  ultimately show ?thesis
    using long_identifiers_never_execute[OF long, of worker_options sample_task_definition 1 "''i''" time0 "(waiting_store, 0)"] by auto
qed

end
