(* ===== verification/WfOutcomeFacts.thy ===== *)
theory WfOutcomeFacts
  imports WfOutcomes
begin

text \<open>
  What the outcome runtime does. The locale \<open>append_only\<close> is the contract of a store in which a
  value is created once under its key and registering it again is answered as a replay; it is
  interpreted on the outcomes and on the two registries of definitions. A summary is a count
  by key (\<open>counted\<close>); a coverage decision counts the runs with and without a concluded outcome.
\<close>

subsection \<open>Outcomes\<close>

lemma validateTaskOutcomeV1_arg: "validateTaskOutcomeV1 x = Inr y \<Longrightarrow> y = x"
  by (auto simp: validateTaskOutcomeV1_def bindE_Inr_iff split: if_splits)

lemma outcome_digest_irrelevant:
  "task_outcome_json (x\<lparr>oc_outcomeDigest := d\<rparr>) = task_outcome_json x"
  "validateOutcomeInput (x\<lparr>oc_outcomeDigest := d\<rparr>) = validateOutcomeInput x"
  "validateOutcomeInput (x\<lparr>oc_schemaVersion := n\<rparr>) = validateOutcomeInput x"
  by (simp_all add: task_outcome_json_def validateOutcomeInput_def)

lemma createTaskOutcomeV1_valid:
  assumes "createTaskOutcomeV1 input = Inr x"
  shows "validateTaskOutcomeV1 x = Inr x"
  using assms digestWorkflowJsonV1_valid
  by (auto simp: createTaskOutcomeV1_def validateTaskOutcomeV1_def Let_def bindE_Inr_iff outcome_digest_irrelevant)

lemma valid_outcome_tokens:
  assumes "validateTaskOutcomeV1 x = Inr y"
  shows "valid_token (oc_tenantId x)" "valid_token (oc_outcomeId x)"
  using assms by (auto simp: validateTaskOutcomeV1_def validateOutcomeInput_def bindE_Inr_iff seqE_Inr_iff)

subsection \<open>Stores that only grow\<close>

locale append_only =
  fixes get :: "'k \<Rightarrow> 's \<Rightarrow> 'v option"
    and append1 :: "'v \<Rightarrow> 's \<Rightarrow> registration res \<times> 's"
    and key :: "'v \<Rightarrow> 'k"
    and bytes :: "'v \<Rightarrow> string"
  assumes created: "append1 v s = (Inr Created, t) \<Longrightarrow> get (key v) s = None \<and> get (key v) t = Some v"
    and replayed: "append1 v s = (Inr ReplayedRegistration, t) \<Longrightarrow> \<exists>c. get (key v) s = Some c \<and> bytes c = bytes v"
    and frame: "append1 v s = (r, t) \<Longrightarrow> r \<noteq> Inr Created \<or> k \<noteq> key v \<Longrightarrow> get k t = get k s"
    and again: "append1 v s = (Inr x, t) \<Longrightarrow> get (key v) u = Some c \<Longrightarrow> bytes c = bytes v
      \<Longrightarrow> append1 v u = (Inr ReplayedRegistration, u)"
begin

lemma append_keeps:
  assumes "append1 v s = (r, t)" "get k s = Some c"
  shows "get k t = Some c"
  using frame[OF assms(1), of k] created[of v s t] assms by (cases "r = Inr Created \<and> k = key v") auto

lemma appends_keep:
  assumes "(\<lambda>s t. \<exists>v r. append1 v s = (r, t))\<^sup>*\<^sup>* s t" "get k s = Some c"
  shows "get k t = Some c"
  using assms by (induction rule: rtranclp_induct) (auto intro: append_keeps)

text \<open>What was registered stays registered, and registering it again is a replay.\<close>

lemma registered:
  assumes "append1 v s = (Inr x, t)" "(\<lambda>s t. \<exists>v r. append1 v s = (r, t))\<^sup>*\<^sup>* t u"
  shows "\<exists>c. get (key v) u = Some c \<and> bytes c = bytes v" "append1 v u = (Inr ReplayedRegistration, u)"
proof -
  have "\<exists>c. get (key v) t = Some c \<and> bytes c = bytes v"
    using created[of v s t] replayed[of v s t] frame[OF assms(1), of "key v"] assms(1) by (cases x) auto
  then show c: "\<exists>c. get (key v) u = Some c \<and> bytes c = bytes v" using appends_keep[OF assms(2)] by blast
  from c show "append1 v u = (Inr ReplayedRegistration, u)" using again[OF assms(1)] by blast
qed

end

interpretation outcomes: append_only "\<lambda>k s. map_of s k" appendOutcome
  "\<lambda>x. key2 (oc_tenantId x) (oc_outcomeId x)" oc_outcomeDigest
  by unfold_locales (auto simp: appendOutcome_def bindS_liftE Let_def dest: validateTaskOutcomeV1_arg
      split: sum.splits option.splits if_splits)

lemma valid_definition_arg:
  "validateTaskDefinitionV1 x = Inr y \<Longrightarrow> y = x" "validateProcessDefinitionV1 d = Inr e \<Longrightarrow> e = d"
  by (auto simp: validateTaskDefinitionV1_def validateProcessDefinitionV1_def bindE_Inr_iff split: if_splits)

interpretation task_definitions: append_only "\<lambda>k s. map_of (ws_taskDefinitions s) k" "registerTaskDefinition tenant"
  "\<lambda>x. key3 tenant (td_taskDefinitionId x) (td_version x)" td_definitionDigest for tenant
  by unfold_locales (auto simp: registerTaskDefinition_def bindS_liftE Let_def conflict_def simp del: checks_Inr_iff
      dest: valid_definition_arg split: sum.splits option.splits if_splits)

interpretation process_definitions: append_only "\<lambda>k s. map_of (ws_definitions s) k" "registerProcessDefinition tenant"
  "\<lambda>x. key3 tenant (pd_processId x) (pd_version x)" pd_definitionDigest for tenant
  by unfold_locales (auto simp: registerProcessDefinition_def bindS_liftE Let_def conflict_def simp del: checks_Inr_iff
      dest: valid_definition_arg split: sum.splits option.splits if_splits)

subsection \<open>Recording\<close>

lemma on_fst_iff: "on_fst m s = (r, t) \<longleftrightarrow> m (fst s) = (r, fst t) \<and> snd t = snd s"
  by (cases t) (auto simp: on_fst_def split: prod.splits)

lemma on_snd_iff: "on_snd m s = (r, t) \<longleftrightarrow> m (snd s) = (r, snd t) \<and> fst t = fst s"
  by (cases t) (auto simp: on_snd_def split: prod.splits)

lemma memory_ports_simps [simp]:
  "po_getTaskRun (memory_ports lc) i j = on_fst (getTaskRun i j)"
  "po_listTaskRuns (memory_ports lc) i st sub = on_fst (listTaskRuns lc i None st sub)"
  "po_appendOutcome (memory_ports lc) x = on_snd (appendOutcome x)"
  "po_listOutcomes (memory_ports lc) q = on_snd (listOutcomes lc q)"
  by (simp_all add: memory_ports_def)

lemma getTaskRun_Inr: "getTaskRun i j s = (Inr x, t) \<longleftrightarrow> valid_token i \<and> valid_token j \<and> t = s
    \<and> x = map_of (ws_taskRuns s) (key2 i j)"
  by (auto simp: getTaskRun_def bindS_Inr_iff seqE_Inr_iff)

lemma record_outcome_Inr:
  "record_outcome (memory_ports lc) input s = (Inr (disp, x), t) \<longleftrightarrow>
     createTaskOutcomeV1 input = Inr x \<and> valid_token (oc_tenantId x) \<and> valid_token (oc_taskRunId x)
     \<and> check_outcome_run x (map_of (ws_taskRuns (fst s)) (key2 (oc_tenantId x) (oc_taskRunId x))) = Inr ()
     \<and> appendOutcome x (snd s) = (Inr disp, snd t) \<and> fst t = fst s"
  by (cases s, cases t) (auto simp: record_outcome_def bindS_Inr_iff on_fst_iff on_snd_iff getTaskRun_Inr)

lemma check_outcome_run_Inr:
  assumes "check_outcome_run x r = Inr u"
  obtains run where "r = Some run" "terminalStatuses (tr_status run)"
    "oc_taskExecutionBindingDigest x = eb_bindingDigest (tr_binding run)"
    "\<not> js_lt (date_parse (oc_observedAt x))
       (date_parse (case tr_startedAt run of Some t \<Rightarrow> t | None \<Rightarrow> tr_createdAt run))"
  using assms validateTaskRunV1_arg by (fastforce simp: check_outcome_run_def bindE_Inr_iff split: option.splits)

subsection \<open>Summaries\<close>

text \<open>The group that the outcomes with one key make.\<close>

definition counted :: "string option \<Rightarrow> task_outcome list \<Rightarrow> summary_group" where
  "counted key os =
     (let verdicts = \<lambda>v. int (length (filter (\<lambda>x. oc_verdict x = v) os))
      in \<lparr>sm_key = key, sm_total = int (length os), sm_positive = verdicts VerdictPositive,
          sm_negative = verdicts VerdictNegative, sm_corrected = verdicts VerdictCorrected,
          sm_inconclusive = verdicts VerdictInconclusive,
          sm_scored = int (length (filter (\<lambda>x. oc_scoreBasisPoints x \<noteq> None) os)),
          sm_scoreBasisPointsSum = sum_list (map (or_zero \<circ> oc_scoreBasisPoints) os)\<rparr>)"

lemma counted_Nil: "counted k [] = empty_group k"
  by (simp add: counted_def empty_group_def Let_def)

lemma counted_key [simp]: "sm_key (counted k os) = k"
  by (simp add: counted_def Let_def)

lemma add_outcome_counted:
  assumes "add_outcome x (counted k os) = Inr g"
  shows "g = counted k (os @ [x])"
  using assms
  by (cases "oc_verdict x")
    (auto simp: add_outcome_def add_verdict_def counted_def Let_def bindE_Inr_iff or_zero_def split: option.splits)

definition grouped :: "(task_outcome \<Rightarrow> string option) \<Rightarrow> task_outcome list \<Rightarrow> summary_groups \<Rightarrow> bool" where
  "grouped key_of os groups \<longleftrightarrow> distinct (map fst groups)
     \<and> (\<forall>m g. map_of groups m = Some g \<longleftrightarrow>
          (\<exists>k \<in> key_of ` set os. m = map_key k \<and> g = counted k (filter (\<lambda>x. key_of x = k) os)))"

text \<open>The one key that the code would confuse with the absent one.\<close>

definition plain_key :: "string option \<Rightarrow> bool" where
  "plain_key k \<longleftrightarrow> k \<noteq> Some (CHR 0x00 # ''null'')"

lemma map_key_inject: "plain_key k \<Longrightarrow> plain_key l \<Longrightarrow> map_key k = map_key l \<longleftrightarrow> k = l"
  by (auto simp: plain_key_def map_key_def split: option.splits)

lemma grouped_step:
  assumes "grouped key_of os groups" "\<And>y. y \<in> set (os @ [x]) \<Longrightarrow> plain_key (key_of y)"
    and "add_outcome x (case map_of groups (map_key (key_of x)) of Some g \<Rightarrow> g | None \<Rightarrow> empty_group (key_of x)) = Inr g"
  shows "grouped key_of (os @ [x]) (AList.update (map_key (key_of x)) g groups)"
proof -
  let ?k = "key_of x" and ?f = "\<lambda>k os. filter (\<lambda>x. key_of x = k) os"
  have inj: "map_key k = map_key l \<longleftrightarrow> k = l" if "k \<in> key_of ` set (os @ [x])" "l \<in> key_of ` set (os @ [x])" for k l
    using map_key_inject that assms(2) by auto
  have "(case map_of groups (map_key ?k) of Some g \<Rightarrow> g | None \<Rightarrow> empty_group ?k) = counted ?k (?f ?k os)"
  proof (cases "?k \<in> key_of ` set os")
    case True
    then have "map_of groups (map_key ?k) = Some (counted ?k (?f ?k os))" using assms(1) by (auto simp: grouped_def)
    then show ?thesis by simp
  next
    case False
    then have "\<not> (\<exists>k \<in> key_of ` set os. map_key ?k = map_key k \<and> g = counted k (?f k os))" for g
      using inj[of ?k] by auto
    then have "map_of groups (map_key ?k) = None" using assms(1) unfolding grouped_def by (meson not_None_eq)
    moreover have "?f ?k os = []" using False by (fastforce simp: filter_empty_conv image_iff)
    ultimately show ?thesis by (simp add: counted_Nil)
  qed
  with add_outcome_counted assms(3) have g: "g = counted ?k (?f ?k (os @ [x]))" by simp
  have other: "(\<exists>k \<in> key_of ` set (os @ [x]). m = map_key k \<and> h = counted k (?f k (os @ [x])))
      \<longleftrightarrow> (\<exists>k \<in> key_of ` set os. m = map_key k \<and> h = counted k (?f k os))" if "m \<noteq> map_key ?k" for m h
    using that by auto
  have "map_of (AList.update (map_key ?k) g groups) m = Some h \<longleftrightarrow>
      (\<exists>k \<in> key_of ` set (os @ [x]). m = map_key k \<and> h = counted k (?f k (os @ [x])))" for m h
  proof (cases "m = map_key ?k")
    case True
    have "(\<exists>k \<in> key_of ` set (os @ [x]). map_key ?k = map_key k \<and> h = counted k (?f k (os @ [x]))) \<longleftrightarrow> h = g"
      using inj[of ?k] g by (auto simp del: filter_append)
    then show ?thesis using True by auto
  next
    case False
    then show ?thesis using assms(1) other[OF False] by (simp add: grouped_def)
  qed
  then show ?thesis using assms(1) by (simp add: grouped_def distinct_update)
qed

lemma valid_run_keys:
  assumes "validateTaskRunV1 r = Inr r"
  shows "plain_key (summaryKey g r)"
proof -
  have plain: "\<not> valid_token (CHR 0x00 # ''null'')" "\<not> valid_digest (CHR 0x00 # ''null'')"
    by (auto dest: valid_token_no_nul simp: valid_digest_def)
  from assms have "validateTaskExecutionBindingV1 (tr_binding r) = Inr ()"
    "\<forall>s. tr_subject r = Some s \<longrightarrow> validateSubject s = Inr ()"
    by (auto simp: validateTaskRunV1_iff task_run_checks_iff)
  moreover have "\<not> ends_with_Digest ''promptRevision''" "\<not> ends_with_Digest ''modelRevision''" by code_simp+
  ultimately show ?thesis
    by (cases g) (auto simp: plain_key_def validateTaskExecutionBindingV1_def validateBindingInput_def
        validateSubject_def binding_input_fields_def bindE_Inr_iff seqE_Inr_iff optional_def plain
        split: if_splits)
qed

definition outcome_run :: "workflow_store \<Rightarrow> task_outcome \<Rightarrow> task_run option" where
  "outcome_run ws x = map_of (ws_taskRuns ws) (key2 (oc_tenantId x) (oc_taskRunId x))"

definition outcome_key :: "workflow_store \<Rightarrow> outcome_group_by \<Rightarrow> task_outcome \<Rightarrow> string option" where
  "outcome_key ws g x = summaryKey g (the (outcome_run ws x))"

lemma group_outcome_Inr:
  assumes "group_outcome g x (outcome_run ws x) groups = Inr groups'"
    and "grouped (outcome_key ws g) os groups" "\<And>y. y \<in> set os \<Longrightarrow> plain_key (outcome_key ws g y)"
  shows "grouped (outcome_key ws g) (os @ [x]) groups'" "plain_key (outcome_key ws g x)" "outcome_run ws x \<noteq> None"
proof -
  from assms(1) obtain r where r1: "outcome_run ws x = Some r" by (auto simp: group_outcome_def split: option.splits)
  with assms(1) obtain r' where "validateTaskRunV1 r = Inr r'" by (auto simp: group_outcome_def bindE_Inr_iff)
  with validateTaskRunV1_arg r1 have r: "outcome_run ws x = Some r" "validateTaskRunV1 r = Inr r" by auto
  have same: "outcome_key ws g x = summaryKey g r" by (simp add: outcome_key_def r1)
  from assms(1) r obtain h where h: "add_outcome x (case map_of groups (map_key (outcome_key ws g x)) of Some h \<Rightarrow> h
        | None \<Rightarrow> empty_group (outcome_key ws g x)) = Inr h"
      "groups' = AList.update (map_key (outcome_key ws g x)) h groups"
    unfolding same by (auto simp: group_outcome_def Let_def bindE_Inr_iff)
  from valid_run_keys[OF r(2)] r(1) show k: "plain_key (outcome_key ws g x)" by (simp add: outcome_key_def)
  from r(1) show "outcome_run ws x \<noteq> None" by simp
  have "grouped (outcome_key ws g) (os @ [x]) (AList.update (map_key (outcome_key ws g x)) h groups)"
    by (rule grouped_step[OF assms(2) _ h(1)]) (use assms(3) k in auto)
  then show "grouped (outcome_key ws g) (os @ [x]) groups'" by (simp add: h(2))
qed

lemma group_outcomes_Inr:
  assumes "group_outcomes (memory_ports lc) g groups xs s = (Inr groups', t)"
    and "grouped (outcome_key (fst s) g) os groups" "\<And>y. y \<in> set os \<Longrightarrow> plain_key (outcome_key (fst s) g y)"
  shows "t = s \<and> grouped (outcome_key (fst s) g) (os @ xs) groups' \<and> (\<forall>x \<in> set xs. outcome_run (fst s) x \<noteq> None)"
  using assms
proof (induction xs arbitrary: groups os s)
  case (Cons x xs)
  from Cons.prems(1) obtain g1 where g1: "group_outcome g x (outcome_run (fst s) x) groups = Inr g1"
    and rest: "group_outcomes (memory_ports lc) g g1 xs s = (Inr groups', t)"
    by (cases s) (auto simp: bindS_Inr_iff on_fst_iff getTaskRun_Inr outcome_run_def)
  note step = group_outcome_Inr[OF g1 Cons.prems(2,3)]
  have "t = s \<and> grouped (outcome_key (fst s) g) ((os @ [x]) @ xs) groups' \<and> (\<forall>x \<in> set xs. outcome_run (fst s) x \<noteq> None)"
    by (rule Cons.IH[OF rest step(1)]) (use step(2) Cons.prems(3) in auto)
  with step(3) show ?case by simp
qed simp

lemma mapE_id: "mapE f xs = Inr ys \<Longrightarrow> (\<And>x y. f x = Inr y \<Longrightarrow> y = x) \<Longrightarrow> ys = xs"
  by (induction xs arbitrary: ys) (auto simp: bindE_Inr_iff)

lemma listOutcomes_Inr: "listOutcomes lc q s = (Inr L, t) \<Longrightarrow> t = s \<and> set L = {x \<in> snd ` set s. selects q x}"
  by (force simp: listOutcomes_def bindS_Inr_iff)

text \<open>An empty condition of a query selects like an absent one.\<close>

lemma listOutcomes_given:
  "listOutcomes lc \<lparr>oq_tenantId = oq_tenantId q, oq_taskRunId = None, oq_outcomeType = given (oq_outcomeType q),
     oq_recordedFrom = given (oq_recordedFrom q), oq_recordedThrough = given (oq_recordedThrough q)\<rparr>
   = listOutcomes lc (q\<lparr>oq_taskRunId := None\<rparr>)"
proof -
  have chk: "if_truthy (given v) f = if_truthy v f" "truthy (given v) \<Longrightarrow> the (given v) = the v" for v f
    by (auto simp: if_truthy_def given_def truthy_def split: option.splits)
  have "selects \<lparr>oq_tenantId = oq_tenantId q, oq_taskRunId = None, oq_outcomeType = given (oq_outcomeType q),
     oq_recordedFrom = given (oq_recordedFrom q), oq_recordedThrough = given (oq_recordedThrough q)\<rparr>
    = selects (q\<lparr>oq_taskRunId := None\<rparr>)"
    by (rule ext) (simp add: selects_def chk cong: disj_cong)
  then show ?thesis by (simp add: listOutcomes_def chk check_range_def cong: conj_cong)
qed

lemma summarize_Inr:
  assumes "summarize (memory_ports lc) lc g q s = (Inr gs, t)"
  obtains L where "listOutcomes lc \<lparr>oq_tenantId = oq_tenantId q, oq_taskRunId = None,
         oq_outcomeType = given (oq_outcomeType q), oq_recordedFrom = given (oq_recordedFrom q),
         oq_recordedThrough = given (oq_recordedThrough q)\<rparr> (snd s) = (Inr L, snd s)"
    "t = s" "\<forall>x \<in> set L. outcome_run (fst s) x \<noteq> None" "distinct (map sm_key gs)"
    "set gs = (\<lambda>k. counted k (filter (\<lambda>x. outcome_key (fst s) g x = k) L)) ` outcome_key (fst s) g ` set L"
proof -
  from assms obtain L groups u where l: "listOutcomes lc \<lparr>oq_tenantId = oq_tenantId q, oq_taskRunId = None,
         oq_outcomeType = given (oq_outcomeType q), oq_recordedFrom = given (oq_recordedFrom q),
         oq_recordedThrough = given (oq_recordedThrough q)\<rparr> (snd s) = (Inr L, snd u)" "fst u = fst s"
    and groups: "group_outcomes (memory_ports lc) g [] L u = (Inr groups, t)"
    and gs: "\<exists>cmp. gs = js_sort cmp (map snd groups)"
    using mapE_id[OF _ validateTaskOutcomeV1_arg] by (fastforce simp: summarize_def bindS_Inr_iff on_snd_iff)
  from listOutcomes_Inr[OF l(1)] l(2) have u: "u = s" by (simp add: prod_eq_iff)
  have "grouped (outcome_key (fst s) g) [] []" by (simp add: grouped_def)
  from group_outcomes_Inr[OF groups[unfolded u] this] have t: "t = s" "grouped (outcome_key (fst s) g) L groups"
    "\<forall>x \<in> set L. outcome_run (fst s) x \<noteq> None" by simp_all
  from t(2) have d: "distinct (map fst groups)"
    and m: "\<And>m h. (m, h) \<in> set groups \<longleftrightarrow> (\<exists>k \<in> outcome_key (fst s) g ` set L. m = map_key k
      \<and> h = counted k (filter (\<lambda>x. outcome_key (fst s) g x = k) L))"
    by (auto simp: grouped_def)
  have "set gs = (\<lambda>k. counted k (filter (\<lambda>x. outcome_key (fst s) g x = k) L)) ` outcome_key (fst s) g ` set L"
    using gs m by force
  moreover have "distinct (map sm_key gs)"
  proof -
    have "distinct groups" using d by (simp add: distinct_map)
    moreover have "inj_on (sm_key \<circ> snd) (set groups)" using m by (force simp: inj_on_def)
    ultimately have "distinct (map (sm_key \<circ> snd) groups)" by (simp add: distinct_map)
    then show ?thesis using gs by (auto simp: distinct_js_sort)
  qed
  ultimately show thesis using that l t u by simp
qed

subsection \<open>Coverage\<close>

text \<open>The number is the least one that bounds the share of unresolved runs.\<close>

lemma unresolved_basis_points_le:
  assumes "u \<le> n"
  shows "unresolved_basis_points u n \<le> 10000"
    "unresolved_basis_points u n \<le> b \<longleftrightarrow> (if n = 0 then 10000 \<le> b else u * 10000 \<le> b * n)"
proof -
  have iff: "(u * 10000 + (n - 1)) div n \<le> b \<longleftrightarrow> u * 10000 \<le> b * n" if "0 < n" for b
  proof -
    have "(u * 10000 + (n - 1)) div n \<le> b \<longleftrightarrow> u * 10000 + (n - 1) < Suc b * n"
      using that by (metis less_Suc_eq_le div_less_iff_less_mult)
    also have "\<dots> \<longleftrightarrow> u * 10000 \<le> b * n" using that by (cases n) auto
    finally show ?thesis .
  qed
  show "unresolved_basis_points u n \<le> b \<longleftrightarrow> (if n = 0 then 10000 \<le> b else u * 10000 \<le> b * n)"
    using iff[of b] by (simp add: unresolved_basis_points_def)
  show "unresolved_basis_points u n \<le> 10000"
    using iff[of 10000] assms by (simp add: unresolved_basis_points_def)
qed

lemma basis_points_int:
  assumes "u \<le> n" "0 \<le> b" "n = 0 \<longleftrightarrow> E"
  shows "int (unresolved_basis_points u n) \<le> b \<longleftrightarrow> (if E then 10000 \<le> b else int u * 10000 \<le> b * int n)"
proof -
  obtain m where b: "b = int m" using assms(2) by (rule nonneg_int_cases)
  have "int u * 10000 \<le> int m * int n \<longleftrightarrow> u * 10000 \<le> m * n"
    using of_nat_le_iff[of "u * 10000" "m * n", where 'a = int] by simp
  then show ?thesis
    unfolding b using unresolved_basis_points_le(2)[OF assms(1), of m] assms(3) by auto
qed

text \<open>The runs among \<open>R\<close> that one of the outcomes \<open>L\<close> concludes.\<close>

definition concluded :: "task_outcome list \<Rightarrow> task_run \<Rightarrow> bool" where
  "concluded L run \<longleftrightarrow> (\<exists>x \<in> set L. oc_taskRunId x = tr_taskRunId run \<and> oc_verdict x \<noteq> VerdictInconclusive)"

lemma decide_coverage_counts:
  fixes L :: "task_outcome list" and policy :: coverage_policy and now :: int
  assumes "distinct (map tr_taskRunId R)"
  defines "C \<equiv> filter (concluded L) R" and "U \<equiv> filter (\<lambda>run. \<not> concluded L run) R"
    and "r \<equiv> decide_coverage policy now R L"
  shows "cv_eligibleTaskRuns r = length R" "cv_concludedOutcomes r = length C" "cv_unresolvedTaskRuns r = length U"
    "cv_unresolvedBasisPoints r = unresolved_basis_points (length U) (length R)"
    "cv_status r = CoverageStale \<longleftrightarrow>
      (\<exists>run \<in> set U. js_le (date_parse (ended_at run)) (Some (now - cp_maximumObservationLagMs policy)))"
    "cv_status r = CoverageHealthy \<longleftrightarrow> cv_status r \<noteq> CoverageStale
      \<and> cp_minimumConcludedOutcomes policy \<le> int (length C)
      \<and> int (cv_unresolvedBasisPoints r) \<le> cp_maximumUnresolvedBasisPoints policy"
    "cv_status r \<noteq> CoverageUnavailable"
proof -
  define ids where "ids = remdups (map oc_taskRunId (filter (\<lambda>x.
    oc_taskRunId x \<in> set (map tr_taskRunId R) \<and> oc_verdict x \<noteq> VerdictInconclusive) L))"
  have ids: "set ids = tr_taskRunId ` set C"
    by (auto simp: ids_def C_def concluded_def image_iff) metis+
  have u: "filter (\<lambda>run. tr_taskRunId run \<notin> set ids) R = U"
    unfolding U_def using assms(1) by (auto intro!: filter_cong simp: ids C_def distinct_map dest: inj_onD)
  have "length ids = card (set ids)" using distinct_card[of ids] by (simp add: ids_def)
  also have "\<dots> = length C"
    using distinct_card[of "map tr_taskRunId C"] assms(1) by (simp add: ids C_def distinct_map_filter)
  finally have n: "length ids = length C" .
  show "cv_eligibleTaskRuns r = length R" "cv_concludedOutcomes r = length C" "cv_unresolvedTaskRuns r = length U"
    "cv_unresolvedBasisPoints r = unresolved_basis_points (length U) (length R)"
    "cv_status r = CoverageStale \<longleftrightarrow>
      (\<exists>run \<in> set U. js_le (date_parse (ended_at run)) (Some (now - cp_maximumObservationLagMs policy)))"
    "cv_status r = CoverageHealthy \<longleftrightarrow> cv_status r \<noteq> CoverageStale
      \<and> cp_minimumConcludedOutcomes policy \<le> int (length C)
      \<and> int (cv_unresolvedBasisPoints r) \<le> cp_maximumUnresolvedBasisPoints policy"
    "cv_status r \<noteq> CoverageUnavailable"
    unfolding r_def decide_coverage_def Let_def ids_def[symmetric] u n by (auto simp: list_ex_iff)
qed

lemma distinct_task_run_keys:
  "store_step s t \<Longrightarrow> distinct (map fst (ws_taskRuns s)) \<Longrightarrow> distinct (map fst (ws_taskRuns t))"
  by (cases rule: store_step.cases, assumption)
    (auto dest!: store_write_cases simp: distinct_update)

lemma reachable_task_runs:
  assumes "store_step\<^sup>*\<^sup>* empty_store ws" "(k, run) \<in> set (ws_taskRuns ws)"
  shows "k = key2 (tr_tenantId run) (tr_taskRunId run)" "validateTaskRunV1 run = Inr run"
    "distinct (map fst (ws_taskRuns ws))"
proof -
  from assms(1) show d: "distinct (map fst (ws_taskRuns ws))"
    by (induction rule: rtranclp_induct) (auto simp: empty_store_def dest: distinct_task_run_keys)
  from store_ok_steps[OF assms(1) store_ok_empty] map_of_is_SomeI[OF d assms(2)]
  have "task_entry_ok (ws_taskRunIdempotency ws) k run" by (simp add: store_ok_def entries_def)
  then show "k = key2 (tr_tenantId run) (tr_taskRunId run)" "validateTaskRunV1 run = Inr run"
    by (simp_all add: task_entry_ok_def)
qed

text \<open>The runs and the outcomes that the coverage is about.\<close>

definition covered_runs :: "coverage_input \<Rightarrow> string \<Rightarrow> workflow_store \<Rightarrow> task_run set" where
  "covered_runs input start ws = {run \<in> snd ` set (ws_taskRuns ws).
     tr_tenantId run = cg_tenantId input \<and> tr_status run = TRCompleted
     \<and> (\<forall>sub. cg_subject input = Some sub \<longrightarrow> (\<exists>own. tr_subject run = Some own
          \<and> sr_subjectType own = sr_subjectType sub \<and> sr_subjectId own = sr_subjectId sub))
     \<and> eligible input start run}"

definition covering_outcomes :: "coverage_input \<Rightarrow> string \<Rightarrow> outcome_store \<Rightarrow> task_outcome set" where
  "covering_outcomes input start os = {x \<in> snd ` set os. selects \<lparr>oq_tenantId = cg_tenantId input, oq_taskRunId = None,
     oq_outcomeType = Some (cp_outcomeType (cg_policy input)), oq_recordedFrom = Some start,
     oq_recordedThrough = Some (cg_logicalTime input)\<rparr> x}"

lemma listTaskRuns_Inr:
  assumes "listTaskRuns lc tenant None status subject s = (Inr R, t)"
  shows "t = s" "\<exists>cmp. R = js_sort cmp (filter (\<lambda>run. tr_tenantId run = tenant
      \<and> (status = None \<or> Some (tr_status run) = status)
      \<and> (\<forall>sub. subject = Some sub \<longrightarrow> (\<exists>own. tr_subject run = Some own
          \<and> sr_subjectType own = sr_subjectType sub \<and> sr_subjectId own = sr_subjectId sub)))
      (map snd (ws_taskRuns s)))"
proof -
  have same: "(case subject of None \<Rightarrow> True | Some sub \<Rightarrow> (case tr_subject run of None \<Rightarrow> False | Some own \<Rightarrow>
        sr_subjectType own = sr_subjectType sub \<and> sr_subjectId own = sr_subjectId sub))
      \<longleftrightarrow> (\<forall>sub. subject = Some sub \<longrightarrow> (\<exists>own. tr_subject run = Some own
          \<and> sr_subjectType own = sr_subjectType sub \<and> sr_subjectId own = sr_subjectId sub))" for run
    by (auto split: option.splits)
  from assms show "t = s" by (auto simp: listTaskRuns_def bindS_Inr_iff)
  from assms show "\<exists>cmp. R = js_sort cmp (filter (\<lambda>run. tr_tenantId run = tenant
      \<and> (status = None \<or> Some (tr_status run) = status)
      \<and> (\<forall>sub. subject = Some sub \<longrightarrow> (\<exists>own. tr_subject run = Some own
          \<and> sr_subjectType own = sr_subjectType sub \<and> sr_subjectId own = sr_subjectId sub)))
      (map snd (ws_taskRuns s)))"
    by (auto simp: listTaskRuns_def bindS_Inr_iff same truthy_def)
qed

lemma task_run_ids_distinct:
  assumes "store_step\<^sup>*\<^sup>* empty_store ws"
  shows "distinct (map tr_taskRunId (filter (\<lambda>run. tr_tenantId run = i \<and> P run) (map snd (ws_taskRuns ws))))"
proof -
  have "distinct (map fst (ws_taskRuns ws))"
    using assms by (induction rule: rtranclp_induct) (auto simp: empty_store_def dest: distinct_task_run_keys)
  then have d: "distinct (map fst (filter ((\<lambda>run. tr_tenantId run = i \<and> P run) \<circ> snd) (ws_taskRuns ws)))"
    by (rule distinct_map_filter)
  define xs where "xs = filter ((\<lambda>run. tr_tenantId run = i \<and> P run) \<circ> snd) (ws_taskRuns ws)"
  have "map fst xs = map (key2 i) (map (tr_taskRunId \<circ> snd) xs)"
    unfolding map_map by (intro map_cong refl) (auto simp: xs_def dest!: reachable_task_runs(1)[OF assms])
  with d have "distinct (map (key2 i) (map (tr_taskRunId \<circ> snd) xs))"
    unfolding xs_def[symmetric] by (simp only:)
  then have "distinct (map (tr_taskRunId \<circ> snd) xs)" by (simp only: distinct_map)
  then show ?thesis by (simp add: xs_def filter_map)
qed

lemma coverage_Inr:
  assumes "coverage (memory_ports lc) input s = (Inr r, t)" "cv_status r \<noteq> CoverageUnavailable"
    and "store_step\<^sup>*\<^sup>* empty_store (fst s)"
  obtains now start R L where "t = s" "date_parse (cg_logicalTime input) = Some now"
    "toISOString (now - cp_windowMs (cg_policy input)) = Inr start"
    "r = decide_coverage (cg_policy input) now R L" "distinct (map tr_taskRunId R)" "distinct R"
    "set R = covered_runs input start (fst s)" "set L = covering_outcomes input start (snd s)"
    "0 \<le> cp_maximumUnresolvedBasisPoints (cg_policy input)"
proof -
  from assms(1,2) have a: "coverage_attempt (memory_ports lc) input s = (Inr r, t)"
    by (auto simp: coverage_def split: prod.splits sum.splits js_error.splits)
  let ?q = "\<lambda>start. \<lparr>oq_tenantId = cg_tenantId input, oq_taskRunId = None,
      oq_outcomeType = Some (cp_outcomeType (cg_policy input)), oq_recordedFrom = Some start,
      oq_recordedThrough = Some (cg_logicalTime input)\<rparr>" and ?now = "the (date_parse (cg_logicalTime input))"
  from a obtain start R0 R1 L0 L u where
    checks: "timestamp (cg_logicalTime input) ''logicalTime'' = Inr ()" "validateOutcomeCoveragePolicyV1 (cg_policy input) = Inr ()"
    and start: "toISOString (?now - cp_windowMs (cg_policy input)) = Inr start"
    and runs: "listTaskRuns lc (cg_tenantId input) None (Some TRCompleted) (cg_subject input) (fst s) = (Inr R0, fst u)"
      "snd u = snd s" and R1: "mapE validateTaskRunV1 R0 = Inr R1"
    and os: "listOutcomes lc (?q start) (snd u) = (Inr L0, snd t)" "fst t = fst u"
    and L: "mapE validateTaskOutcomeV1 L0 = Inr L"
    and r: "r = decide_coverage (cg_policy input) ?now (filter (eligible input start) R1) L"
    by (simp add: coverage_attempt_def bindS_Inr_iff on_fst_iff on_snd_iff Let_def seqE_Inr_iff[where u = "()"] del: split_paired_Ex)
      (metis (no_types, lifting))
  have same: "R1 = R0" "L0 = L"
    using mapE_id[OF R1 validateTaskRunV1_arg] mapE_id[OF L validateTaskOutcomeV1_arg] by simp_all
  have max: "0 \<le> cp_maximumUnresolvedBasisPoints (cg_policy input)"
    using checks(2) by (simp add: validateOutcomeCoveragePolicyV1_def seqE_Inr_iff basisPoints_def)
  note l = listTaskRuns_Inr[OF runs(1)]
  let ?sel = "\<lambda>run. tr_tenantId run = cg_tenantId input \<and> (Some TRCompleted = None \<or> Some (tr_status run) = Some TRCompleted)
      \<and> (\<forall>sub. cg_subject input = Some sub \<longrightarrow> (\<exists>own. tr_subject run = Some own
          \<and> sr_subjectType own = sr_subjectType sub \<and> sr_subjectId own = sr_subjectId sub))"
  from l(2) obtain cmp where R0: "R0 = js_sort cmp (filter ?sel (map snd (ws_taskRuns (fst s))))" by blast
  let ?R = "filter (eligible input start) R0"
  have "distinct (map tr_taskRunId (filter ?sel (map snd (ws_taskRuns (fst s)))))"
    by (rule task_run_ids_distinct[OF assms(3)])
  then have "distinct (map tr_taskRunId R0)" by (simp add: R0 distinct_js_sort)
  then have d: "distinct (map tr_taskRunId ?R)" by (rule distinct_map_filter)
  have "set ?R = covered_runs input start (fst s)"
    by (auto simp: R0 covered_runs_def)
  moreover have "set L = covering_outcomes input start (snd s)" "t = s"
    using listOutcomes_Inr[OF os(1)] os(2) runs(2) l(1) by (simp_all add: covering_outcomes_def prod_eq_iff same)
  ultimately show thesis
    using that[of ?now start ?R L] checks(1) start r d d[THEN iffD1[OF distinct_map, THEN conjunct1]] max by (auto simp: same)
qed

end
