(* ===== verification/WfOutcomeProperties.thy ===== *)
theory WfOutcomeProperties
  imports WfOutcomeFacts WfTaskSamples
begin

text \<open>The properties of task outcomes: recording, summaries, coverage; with one sample outcome.\<close>

subsection \<open>A sample outcome\<close>

definition recorded_run :: task_run where
  "recorded_run = sample_task TRCompleted 0 ''k''"

definition sample_outcome_body :: task_outcome where
  "sample_outcome_body = \<lparr>oc_schemaVersion = 1, oc_tenantId = ''t'', oc_outcomeId = ''x'', oc_taskRunId = ''r:a:1'',
     oc_taskExecutionBindingDigest = eb_bindingDigest sample_binding, oc_outcomeType = ''q'',
     oc_verdict = VerdictPositive, oc_reasonCode = None, oc_severity = None, oc_scoreBasisPoints = Some 9000,
     oc_sourceType = ''u'', oc_sourceId = ''v'', oc_observedAt = time0, oc_recordedAt = time0,
     oc_evidenceReferenceIds = [], oc_outcomeDigest = []\<rparr>"

definition sample_outcome :: task_outcome where
  "sample_outcome = sample_outcome_body
     \<lparr>oc_outcomeDigest := the_digest ''task-outcome'' (task_outcome_json sample_outcome_body)\<rparr>"

lemma outcome_digestible: "digestible (task_outcome_json sample_outcome_body)"
  by (simp add: json_simps task_outcome_json_def sample_outcome_body_def time0_def)

lemma outcome_token: "valid_token ''task-outcome''"
  by code_simp

lemma sample_outcome_created: "createTaskOutcomeV1 sample_outcome_body = Inr sample_outcome"
proof -
  have tk: "valid_token ''t''" "valid_token ''x''" "valid_token ''r:a:1''" "valid_token ''q''" "valid_token ''u''"
    "valid_token ''v''" by code_simp+
  have "validateOutcomeInput sample_outcome_body = Inr ()"
    using tk sample_binding_valid
    by (auto simp: validateOutcomeInput_def sample_outcome_body_def seqE_Inr_iff optional_def time0_parse
        basisPoints_def isSafeInteger_def maximumSafeInteger_def validateTaskExecutionBindingV1_def bindE_Inr_iff)
  moreover have "sample_outcome_body\<lparr>oc_schemaVersion := 1\<rparr> = sample_outcome_body" by (simp add: sample_outcome_body_def)
  ultimately show ?thesis
    using the_digest(1)[OF outcome_digestible outcome_token]
    by (simp add: createTaskOutcomeV1_def sample_outcome_def Let_def)
qed

lemma sample_outcome_fields [simp]:
  "oc_tenantId sample_outcome = ''t''" "oc_outcomeId sample_outcome = ''x''" "oc_taskRunId sample_outcome = ''r:a:1''"
  "oc_verdict sample_outcome = VerdictPositive" "oc_outcomeType sample_outcome = ''q''"
  "oc_recordedAt sample_outcome = time0" "oc_observedAt sample_outcome = time0"
  "oc_scoreBasisPoints sample_outcome = Some 9000"
  "oc_taskExecutionBindingDigest sample_outcome = eb_bindingDigest sample_binding"
  by (simp_all add: sample_outcome_def sample_outcome_body_def)

lemma recorded_run_fields [simp]:
  "tr_tenantId recorded_run = ''t''" "tr_taskRunId recorded_run = ''r:a:1''" "tr_status recorded_run = TRCompleted"
  "tr_binding recorded_run = sample_binding" "tr_startedAt recorded_run = Some time0"
  "tr_finishedAt recorded_run = Some time0" "tr_subject recorded_run = None"
  by (simp_all add: recorded_run_def sample_task_def task_body_def terminalStatuses_def)

lemma recorded_run_valid: "validateTaskRunV1 recorded_run = Inr recorded_run"
  by (simp add: recorded_run_def sample_task_valid)

definition sample_log :: outcome_store where
  "sample_log = [(key2 ''t'' ''x'', sample_outcome)]"

lemma sample_recorded:
  "record_outcome (memory_ports lc) sample_outcome_body (task_store recorded_run, [])
   = (Inr (Created, sample_outcome), (task_store recorded_run, sample_log))"
proof -
  have tk: "valid_token ''t''" "valid_token ''r:a:1''" by code_simp+
  have "check_outcome_run sample_outcome (Some recorded_run) = Inr ()"
    by (simp add: check_outcome_run_def recorded_run_valid terminalStatuses_def time0_parse require_def)
  moreover have "appendOutcome sample_outcome [] = (Inr Created, sample_log)"
    by (simp add: appendOutcome_def bindS_liftE createTaskOutcomeV1_valid[OF sample_outcome_created] sample_log_def)
  ultimately show ?thesis
    using sample_outcome_created tk by (simp add: record_outcome_Inr)
qed

lemma sample_store_reachable: "store_step\<^sup>*\<^sup>* empty_store (task_store recorded_run)"
proof -
  have "createTaskRun recorded_run empty_store = (Inr True, task_store recorded_run)"
    by (simp add: createTaskRun_def bindS_liftE recorded_run_valid empty_store_def task_store_def truthy_def)
  then show ?thesis by (blast intro: store_step.intros)
qed

subsection \<open>Properties\<close>

text \<open>
  C23. Recording an outcome: when it succeeds, the task run exists and has ended, ran under the
  execution binding that the outcome names, and was not started after the observation; the store of runs is
  untouched. Whatever is appended later, the outcome with this digest is what the store answers
  for its identity, and recording it again is answered as a replay that changes nothing.
\<close>

theorem outcome_recorded:
  assumes "record_outcome (memory_ports lc) input (ws, os) = (Inr (disposition, x), (ws', os'))"
    and "(\<lambda>s t. \<exists>v r. appendOutcome v s = (r, t))\<^sup>*\<^sup>* os' later"
  shows "ws' = ws \<and> validateTaskOutcomeV1 x = Inr x
    \<and> (\<exists>run. map_of (ws_taskRuns ws) (key2 (oc_tenantId x) (oc_taskRunId x)) = Some run \<and> terminalStatuses (tr_status run)
         \<and> oc_taskExecutionBindingDigest x = eb_bindingDigest (tr_binding run)
         \<and> \<not> js_lt (date_parse (oc_observedAt x))
              (date_parse (case tr_startedAt run of Some t \<Rightarrow> t | None \<Rightarrow> tr_createdAt run)))
    \<and> (\<exists>c. getOutcome (oc_tenantId x) (oc_outcomeId x) later = (Inr (Some c), later)
         \<and> oc_outcomeDigest c = oc_outcomeDigest x)
    \<and> record_outcome (memory_ports lc) input (ws, later) = (Inr (ReplayedRegistration, x), (ws, later))"
proof -
  note r = assms(1)[unfolded record_outcome_Inr, simplified]
  then have valid: "validateTaskOutcomeV1 x = Inr x" by (blast intro: createTaskOutcomeV1_valid)
  from r have append: "appendOutcome x os = (Inr disposition, os')" by simp
  note later = outcomes.registered[OF append assms(2)]
  from r obtain run where "map_of (ws_taskRuns ws) (key2 (oc_tenantId x) (oc_taskRunId x)) = Some run"
    "terminalStatuses (tr_status run)" "oc_taskExecutionBindingDigest x = eb_bindingDigest (tr_binding run)"
    "\<not> js_lt (date_parse (oc_observedAt x)) (date_parse (case tr_startedAt run of Some t \<Rightarrow> t | None \<Rightarrow> tr_createdAt run))"
    by (metis check_outcome_run_Inr)
  moreover have "\<exists>c. getOutcome (oc_tenantId x) (oc_outcomeId x) later = (Inr (Some c), later)
      \<and> oc_outcomeDigest c = oc_outcomeDigest x"
    using later(1) valid_outcome_tokens[OF valid] by (auto simp: getOutcome_def bindS_Inr_iff seqE_Inr_iff)
  moreover have "record_outcome (memory_ports lc) input (ws, later) = (Inr (ReplayedRegistration, x), (ws, later))"
    using r later(2) by (simp add: record_outcome_Inr)
  ultimately show ?thesis using r valid by auto
qed

theorem outcome_recorded_witness:
  "\<exists>c. getOutcome ''t'' ''x'' sample_log = (Inr (Some c), sample_log) \<and> oc_outcomeDigest c = oc_outcomeDigest sample_outcome"
  using outcome_recorded[OF sample_recorded[of "\<lambda>a b. 0"] rtranclp.rtrancl_refl] by simp

text \<open>
  A summary counts exactly: the groups have distinct keys, there is one for each key that a
  listed outcome has (the digest, revision or subject type of its task run), and each is the
  count of the listed outcomes with its key, in all, by verdict and scored, with the sum of the scores.
\<close>

theorem summary_exact:
  assumes "summarize (memory_ports lc) lc groupBy q (ws, os) = (Inr groups, t)"
  shows "\<exists>L. listOutcomes lc (q\<lparr>oq_taskRunId := None\<rparr>) os = (Inr L, os) \<and> t = (ws, os)
    \<and> (\<forall>x \<in> set L. outcome_run ws x \<noteq> None) \<and> distinct (map sm_key groups)
    \<and> sm_key ` set groups = outcome_key ws groupBy ` set L
    \<and> (\<forall>g \<in> set groups. g = counted (sm_key g) (filter (\<lambda>x. outcome_key ws groupBy x = sm_key g) L))"
proof -
  from summarize_Inr[OF assms] obtain L where L: "listOutcomes lc \<lparr>oq_tenantId = oq_tenantId q, oq_taskRunId = None,
         oq_outcomeType = given (oq_outcomeType q), oq_recordedFrom = given (oq_recordedFrom q),
         oq_recordedThrough = given (oq_recordedThrough q)\<rparr> os = (Inr L, os)"
    "t = (ws, os)" "\<forall>x \<in> set L. outcome_run ws x \<noteq> None" "distinct (map sm_key groups)"
    "set groups = (\<lambda>k. counted k (filter (\<lambda>x. outcome_key ws groupBy x = k) L)) ` outcome_key ws groupBy ` set L"
    by auto
  then have "listOutcomes lc (q\<lparr>oq_taskRunId := None\<rparr>) os = (Inr L, os)" by (simp add: listOutcomes_given)
  moreover have "sm_key ` set groups = outcome_key ws groupBy ` set L" by (simp add: L(5) image_image)
  ultimately show ?thesis using L(2-5) by auto
qed

definition sample_query :: outcome_query where
  "sample_query = \<lparr>oq_tenantId = ''t'', oq_taskRunId = None, oq_outcomeType = None, oq_recordedFrom = None,
     oq_recordedThrough = None\<rparr>"

definition window0 :: string where
  "window0 = ''2025-12-31T23:59:59.999Z''"

lemma window0: "date_parse window0 = Some 1767225599999" "window0 \<le> time0" "\<not> time0 < window0" "window0 \<noteq> []" "time0 \<noteq> []"
  "toISOString 1767225599999 = Inr window0"
  by code_simp+

lemma sample_listed:
  "listOutcomes lc \<lparr>oq_tenantId = ''t'', oq_taskRunId = None, oq_outcomeType = Some ''q'',
     oq_recordedFrom = Some window0, oq_recordedThrough = Some time0\<rparr> sample_log = (Inr [sample_outcome], sample_log)"
  "listOutcomes lc sample_query sample_log = (Inr [sample_outcome], sample_log)"
proof -
  have tk: "valid_token ''t''" "valid_token ''q''" by code_simp+
  note defs = listOutcomes_def bindS_liftE seqE.simps token_def timestamp_def require_def check_range_def selects_def
    sample_log_def js_sort_def time0_parse window0 if_truthy_def truthy_def
  show "listOutcomes lc \<lparr>oq_tenantId = ''t'', oq_taskRunId = None, oq_outcomeType = Some ''q'',
     oq_recordedFrom = Some window0, oq_recordedThrough = Some time0\<rparr> sample_log = (Inr [sample_outcome], sample_log)"
    using tk by (simp add: defs)
  show "listOutcomes lc sample_query sample_log = (Inr [sample_outcome], sample_log)"
    using tk by (simp add: defs sample_query_def)
qed

lemma sample_summary:
  "summarize (memory_ports lc) lc GroupExecutionBinding sample_query (task_store recorded_run, sample_log)
   = (Inr [counted (Some (eb_bindingDigest sample_binding)) [sample_outcome]], (task_store recorded_run, sample_log))"
proof -
  have tk: "valid_token ''t''" "valid_token ''r:a:1''" by code_simp+
  have q: "\<lparr>oq_tenantId = ''t'', oq_taskRunId = None, oq_outcomeType = None, oq_recordedFrom = None,
     oq_recordedThrough = None\<rparr> = sample_query" by (simp add: sample_query_def)
  have get: "getTaskRun ''t'' ''r:a:1'' (task_store recorded_run) = (Inr (Some recorded_run), task_store recorded_run)"
    using tk by (simp add: getTaskRun_Inr)
  have add: "add_outcome sample_outcome (empty_group k) = Inr (counted k [sample_outcome])" for k
    by (simp add: add_outcome_def add_verdict_def empty_group_def counted_def checkedAdd_def isSafeInteger_def
        maximumSafeInteger_def or_zero_def)
  have checks: "seqE [token (oq_tenantId sample_query) ''tenantId'', if_truthy (oq_outcomeType sample_query) f,
      if_truthy (oq_recordedFrom sample_query) g, if_truthy (oq_recordedThrough sample_query) h,
      check_range (oq_recordedFrom sample_query) (oq_recordedThrough sample_query) m] = Inr ()" for f g h m
    using tk by (simp add: sample_query_def seqE_Inr_iff check_range_def truthy_def)
  have one: "group_outcome GroupExecutionBinding sample_outcome (Some recorded_run) []
      = Inr [(eb_bindingDigest sample_binding, counted (Some (eb_bindingDigest sample_binding)) [sample_outcome])]"
    by (simp add: group_outcome_def recorded_run_valid add map_key_def)
  have list: "po_listOutcomes (memory_ports lc) \<lparr>oq_tenantId = oq_tenantId sample_query, oq_taskRunId = None,
      oq_outcomeType = given (oq_outcomeType sample_query), oq_recordedFrom = given (oq_recordedFrom sample_query),
      oq_recordedThrough = given (oq_recordedThrough sample_query)\<rparr> (task_store recorded_run, sample_log)
    = (Inr [sample_outcome], (task_store recorded_run, sample_log))"
    using sample_listed(2)[of lc] by (simp add: on_snd_def sample_query_def)
  have group: "group_outcomes (memory_ports lc) GroupExecutionBinding [] [sample_outcome] (task_store recorded_run, sample_log)
    = (Inr [(eb_bindingDigest sample_binding, counted (Some (eb_bindingDigest sample_binding)) [sample_outcome])],
       (task_store recorded_run, sample_log))"
    by (simp add: bindS_def on_fst_def get one)
  show ?thesis
    unfolding summarize_def bindS_liftE checks sum.case
    by (simp add: bindS_def list group createTaskOutcomeV1_valid[OF sample_outcome_created] js_sort_def
        del: memory_ports_simps group_outcomes.simps)
qed

theorem summary_exact_witness:
  "\<exists>g. g = counted (Some (eb_bindingDigest sample_binding)) [sample_outcome]
     \<and> sm_key ` {g} = outcome_key (task_store recorded_run) GroupExecutionBinding ` {sample_outcome}
     \<and> sm_total g = 1 \<and> sm_positive g = 1 \<and> sm_scored g = 1 \<and> sm_scoreBasisPointsSum g = 9000"
proof -
  have "sample_query\<lparr>oq_taskRunId := None\<rparr> = sample_query" by (simp add: sample_query_def)
  with summary_exact[OF sample_summary[of "\<lambda>a b. 0"]] sample_listed(2)[of "\<lambda>a b. 0"]
  show ?thesis by (auto simp: counted_def or_zero_def)
qed

definition sample_coverage :: coverage_input where
  "sample_coverage = \<lparr>cg_tenantId = ''t'', cg_logicalTime = time0, cg_policy = \<lparr>cp_outcomeType = ''q'', cp_windowMs = 1,
     cp_minimumConcludedOutcomes = 1, cp_maximumObservationLagMs = 1, cp_maximumUnresolvedBasisPoints = 0\<rparr>,
     cg_bindingDigest = None, cg_subject = None\<rparr>"

lemma sample_runs_listed:
  "listTaskRuns lc ''t'' None (Some TRCompleted) None (task_store recorded_run) = (Inr [recorded_run], task_store recorded_run)"
proof -
  have "valid_token ''t''" by code_simp
  then show ?thesis
    by (simp add: listTaskRuns_def bindS_liftE seqE.simps token_def require_def if_truthy_def optional_def truthy_def
        js_sort_def)
qed

definition sample_cover :: coverage_result where
  "sample_cover = \<lparr>cv_status = CoverageHealthy, cv_eligibleTaskRuns = 1, cv_concludedOutcomes = 1, cv_unresolvedTaskRuns = 0,
     cv_unresolvedBasisPoints = 0, cv_latestObservedAt = Some time0, cv_reasonCode = ''outcome_coverage_healthy''\<rparr>"

lemma sample_covered:
  "coverage (memory_ports lc) sample_coverage (task_store recorded_run, sample_log)
   = (Inr sample_cover, (task_store recorded_run, sample_log))"
proof -
  have tk: "valid_token ''t''" "valid_token ''q''" by code_simp+
  have checks: "seqE [token ''t'' a, timestamp time0 b, validateOutcomeCoveragePolicyV1 (cg_policy sample_coverage),
      if_truthy None f, optional None g] = Inr ()" for a b f g
    using tk by (simp add: seqE_Inr_iff time0_parse validateOutcomeCoveragePolicyV1_def sample_coverage_def duration_def
        basisPoints_def isSafeInteger_def maximumSafeInteger_def positive_def require_def)
  have run: "eligible sample_coverage window0 recorded_run"
    using window0 by (simp add: eligible_def ended_at_def sample_coverage_def truthy_def)
  have decided: "decide_coverage (cg_policy sample_coverage) 1767225600000 [recorded_run] [sample_outcome] = sample_cover"
    by (simp add: decide_coverage_def Let_def sample_coverage_def sample_cover_def unresolved_basis_points_def)
  have p: "cg_tenantId sample_coverage = ''t''" "cg_logicalTime sample_coverage = time0" "cg_subject sample_coverage = None"
    "cg_bindingDigest sample_coverage = None" "cp_windowMs (cg_policy sample_coverage) = 1"
    "cp_outcomeType (cg_policy sample_coverage) = ''q''" by (simp_all add: sample_coverage_def)
  have "coverage_attempt (memory_ports lc) sample_coverage (task_store recorded_run, sample_log)
      = (Inr sample_cover, (task_store recorded_run, sample_log))"
    unfolding coverage_attempt_def p bindS_liftE checks sum.case Let_def time0_parse option.sel
    by (simp add: window0 bindS_def on_fst_def on_snd_def sample_runs_listed sample_listed(1) recorded_run_valid run decided
        createTaskOutcomeV1_valid[OF sample_outcome_created])
  then show ?thesis by (simp add: coverage_def)
qed

text \<open>
  C24. The coverage check, on stores that operations have produced: every recently completed run of the tenant
  (for the subject and binding asked for) counts either as concluded, when a
  listed outcome of the type with a verdict other than inconclusive is about it, or as unresolved. The
  status is stale exactly when an unresolved run ended longer ago than the lag allowed, and healthy
  exactly when it is not stale, enough runs are concluded and the share of unresolved runs
  is within its bound. Nothing is written.
\<close>

theorem coverage_exact:
  assumes "coverage (memory_ports lc) input (ws, os) = (Inr r, t)" "cv_status r \<noteq> CoverageUnavailable"
    and "store_step\<^sup>*\<^sup>* empty_store ws"
  shows "t = (ws, os) \<and> (\<exists>now start. date_parse (cg_logicalTime input) = Some now
    \<and> toISOString (now - cp_windowMs (cg_policy input)) = Inr start
    \<and> (let R = covered_runs input start ws;
           C = {run \<in> R. \<exists>x \<in> covering_outcomes input start os.
                 oc_taskRunId x = tr_taskRunId run \<and> oc_verdict x \<noteq> VerdictInconclusive};
           stale = (\<exists>run \<in> R - C. js_le (date_parse (ended_at run)) (Some (now - cp_maximumObservationLagMs (cg_policy input))))
       in cv_eligibleTaskRuns r = card R \<and> cv_concludedOutcomes r = card C \<and> cv_unresolvedTaskRuns r = card (R - C)
        \<and> cv_unresolvedBasisPoints r \<le> 10000
        \<and> (cv_status r = CoverageStale \<longleftrightarrow> stale)
        \<and> (cv_status r = CoverageHealthy \<longleftrightarrow> \<not> stale
             \<and> cp_minimumConcludedOutcomes (cg_policy input) \<le> int (card C)
             \<and> (if R = {} then 10000 \<le> cp_maximumUnresolvedBasisPoints (cg_policy input)
                else int (card (R - C)) * 10000 \<le> cp_maximumUnresolvedBasisPoints (cg_policy input) * int (card R)))))"
proof -
  obtain now start R L where t: "t = (ws, os)"
    and now: "date_parse (cg_logicalTime input) = Some now" "toISOString (now - cp_windowMs (cg_policy input)) = Inr start"
    and r: "r = decide_coverage (cg_policy input) now R L" and d: "distinct (map tr_taskRunId R)" "distinct R"
    and sets: "set R = covered_runs input start ws" "set L = covering_outcomes input start os"
    and max: "0 \<le> cp_maximumUnresolvedBasisPoints (cg_policy input)"
    by (rule coverage_Inr[OF assms(1,2), unfolded fst_conv snd_conv, OF assms(3)])
  let ?U = "filter (\<lambda>run. \<not> concluded L run) R"
  define R' where "R' = covered_runs input start ws"
  define C where "C = {run \<in> R'. \<exists>x \<in> covering_outcomes input start os.
    oc_taskRunId x = tr_taskRunId run \<and> oc_verdict x \<noteq> VerdictInconclusive}"
  have C: "set (filter (concluded L) R) = C" "set ?U = R' - C" "set R = R'"
    by (auto simp: C_def R'_def concluded_def sets[symmetric])
  have n: "length (filter (concluded L) R) = card C" "length ?U = card (R' - C)" "length R = card R'"
    using d(2) distinct_card[of "filter (concluded L) R"] distinct_card[of ?U] distinct_card[of R] C by simp_all
  note counts = decide_coverage_counts[OF d(1), where L = L and policy = "cg_policy input" and now = now, folded r, unfolded n C(2)]
  have le: "card (R' - C) \<le> card R'" using n by (metis length_filter_le)
  have "int (unresolved_basis_points (card (R' - C)) (card R')) \<le> cp_maximumUnresolvedBasisPoints (cg_policy input)
      \<longleftrightarrow> (if R' = {} then 10000 \<le> cp_maximumUnresolvedBasisPoints (cg_policy input)
           else int (card (R' - C)) * 10000 \<le> cp_maximumUnresolvedBasisPoints (cg_policy input) * int (card R'))"
    by (rule basis_points_int[OF le max]) (use C(3) in auto)
  with counts unresolved_basis_points_le(1)[OF le] show ?thesis
    unfolding Let_def using t now
    by (intro conjI exI[of _ now] exI[of _ start]) (simp_all add: R'_def[symmetric] C_def[symmetric])
qed

theorem coverage_exact_witness:
  "card (covered_runs sample_coverage window0 (task_store recorded_run)) = 1 \<and> cv_status sample_cover = CoverageHealthy"
  using coverage_exact[OF sample_covered[of "\<lambda>a b. 0"] _ sample_store_reachable] window0(6)
  by (simp add: Let_def sample_coverage_def sample_cover_def time0_parse)

end
