(* ===== verification/WfLegacy.thy ===== *)
theory WfLegacy
  imports WfRuns
begin

text \<open>
  The upgrade of pre-V1 data (\<open>packages/workflows/src/v1-legacy.ts\<close>): a legacy process is a list
  of task stages that run one after the other, and becomes a V1 definition in which each stage
  depends on the one before it; a legacy run becomes a V1 run of a given definition, or is refused
  when its state has no counterpart. \<open>Date.parse\<close> is the \<open>date_parse\<close> of \<open>IsoTime\<close>: a date
  in another format is refused here, and in the code by the validation of the snapshot.
\<close>

subsection \<open>Legacy data\<close>

record legacy_stage =
  lgs_id :: string
  lgs_name :: string
  lgs_taskId :: string
  lgs_skillId :: "string option"
  lgs_retryLimit :: "int option"
  lgs_timeoutSec :: "int option"
  lgs_metadata :: "json option"

record legacy_definition =
  lgd_id :: string
  lgd_version :: string
  lgd_name :: string
  lgd_description :: "string option"
  lgd_stages :: "legacy_stage list"

datatype legacy_status = LegacyPending | LegacyRunning | LegacyCompleted | LegacyFailed | LegacyCanceled

record legacy_stage_state =
  lgt_stageId :: string
  lgt_taskId :: string
  lgt_status :: legacy_status
  lgt_taskRunId :: "string option"
  lgt_retryCount :: "int option"
  lgt_startedAt :: "string option"
  lgt_finishedAt :: "string option"
  lgt_errorMessage :: "string option"

record legacy_run =
  lgr_tenantId :: string
  lgr_runId :: string
  lgr_processId :: string
  lgr_processVersion :: "string option"
  lgr_status :: legacy_status
  lgr_stageStates :: "legacy_stage_state list"
  lgr_artifactIds :: "string list option"
  lgr_childTaskRunIds :: "string list option"
  lgr_input :: "json option"
  lgr_result :: "json option"
  lgr_errorMessage :: "string option"
  lgr_startedAt :: "string option"
  lgr_finishedAt :: "string option"
  lgr_createdAt :: "string option"
  lgr_updatedAt :: "string option"

subsection \<open>Definitions\<close>

definition secondsToMilliseconds :: "int \<Rightarrow> int res" where
  "secondsToMilliseconds value =
     (if \<not> isSafeInteger value \<or> value < 1 then fail ''legacy_stage_timeout_invalid''
      else let milliseconds = value * 1000
           in if \<not> isSafeInteger milliseconds then fail ''legacy_stage_timeout_overflow''
              else Inr milliseconds)"

definition upgrade_stage ::
  "(legacy_stage \<Rightarrow> string) option \<Rightarrow> legacy_stage option \<Rightarrow> legacy_stage \<Rightarrow> process_stage res" where
  "upgrade_stage taskDefinitionVersion previous stage =
     bindE (case lgs_timeoutSec stage of
         None \<Rightarrow> Inr None
       | Some sec \<Rightarrow> bindE (secondsToMilliseconds sec) (\<lambda>ms. Inr (Some ms))) (\<lambda>timeoutMs.
       Inr \<lparr>st_schemaVersion = 1, st_stageId = lgs_id stage, st_name = lgs_name stage,
         st_dependsOn = (case previous of
             None \<Rightarrow> []
           | Some p \<Rightarrow> [\<lparr>dep_stageId = lgs_id p, dep_outcomes = [Succeeded]\<rparr>]),
         st_dependencyMode = None, st_timeoutMs = timeoutMs, st_metadata = lgs_metadata stage,
         st_kind = TaskStage (lgs_taskId stage)
           (case taskDefinitionVersion of Some f \<Rightarrow> f stage | None \<Rightarrow> ''legacy'')
           (map_option (\<lambda>limit. limit + 1) (lgs_retryLimit stage)) None\<rparr>)"

fun upgrade_stages ::
  "(legacy_stage \<Rightarrow> string) option \<Rightarrow> legacy_stage option \<Rightarrow> legacy_stage list \<Rightarrow> process_stage list res" where
  "upgrade_stages version previous [] = Inr []"
| "upgrade_stages version previous (stage # stages) =
     bindE (upgrade_stage version previous stage) (\<lambda>upgraded.
     bindE (upgrade_stages version (Some stage) stages) (\<lambda>rest. Inr (upgraded # rest)))"

definition upgradeLegacyProcessDefinitionV1 ::
  "(legacy_stage \<Rightarrow> string) option \<Rightarrow> legacy_definition \<Rightarrow> process_definition res" where
  "upgradeLegacyProcessDefinitionV1 taskDefinitionVersion legacy =
     (if lgd_stages legacy = [] then fail ''legacy_process_stages_invalid''
      else bindE (upgrade_stages taskDefinitionVersion None (lgd_stages legacy)) (\<lambda>stages.
        createProcessDefinitionV1 (lgd_id legacy) (lgd_version legacy) (lgd_name legacy) stages None (\<lambda>l. l)))"

subsection \<open>Runs\<close>

text \<open>
  One callback of the \<open>map\<close> over the stage states; \<open>terminalFailureSeen\<close> is the flag after
  this state has been looked at, \<open>complete\<close> says that every state before it is completed.
\<close>

definition upgrade_state :: "bool \<Rightarrow> bool \<Rightarrow> legacy_stage_state \<Rightarrow> stage_state" where
  "upgrade_state terminalFailureSeen complete state =
     (let common = \<lparr>ss_stageId = lgt_stageId state, ss_status = Blocked, ss_outcome = None,
            ss_attempt = (if lgt_status state = LegacyPending then 0
              else (case lgt_retryCount state of None \<Rightarrow> 0 | Some n \<Rightarrow> n) + 1),
            ss_taskRunId = given (lgt_taskRunId state), ss_waitUntil = None, ss_consumedSignalId = None,
            ss_gateRequestId = None, ss_startedAt = given (lgt_startedAt state),
            ss_finishedAt = given (lgt_finishedAt state), ss_reasonCode = given (lgt_errorMessage state)\<rparr>
      in case lgt_status state of
           LegacyCompleted \<Rightarrow> common\<lparr>ss_status := Terminal, ss_outcome := Some Succeeded\<rparr>
         | LegacyFailed \<Rightarrow> common\<lparr>ss_status := Terminal, ss_outcome := Some Failed\<rparr>
         | LegacyCanceled \<Rightarrow> common\<lparr>ss_status := Terminal, ss_outcome := Some Canceled\<rparr>
         | LegacyRunning \<Rightarrow> common\<lparr>ss_status := Running\<rparr>
         | LegacyPending \<Rightarrow> common\<lparr>ss_status := if complete \<and> \<not> terminalFailureSeen then Ready else Blocked\<rparr>)"

fun upgrade_states ::
  "bool \<Rightarrow> bool \<Rightarrow> process_stage list \<Rightarrow> legacy_stage_state list \<Rightarrow> stage_state list res" where
  "upgrade_states seen complete (stage # stages) (state # states) =
     (case st_kind stage of
        TaskStage taskDefinitionId _ _ _ \<Rightarrow>
          if lgt_stageId state \<noteq> st_stageId stage \<or> lgt_taskId state \<noteq> taskDefinitionId
          then fail ''legacy_run_stage_binding_ambiguous''
          else if seen \<and> lgt_status state \<noteq> LegacyPending then fail ''legacy_run_progression_ambiguous''
          else let seen = (seen \<or> lgt_status state = LegacyFailed \<or> lgt_status state = LegacyCanceled)
            in bindE (upgrade_states seen (complete \<and> lgt_status state = LegacyCompleted) stages states) (\<lambda>rest.
                 Inr (upgrade_state seen complete state # rest))
      | _ \<Rightarrow> fail ''legacy_run_stage_binding_ambiguous'')"
| "upgrade_states seen complete _ _ = Inr []"

definition assertLegacyRunStatus :: "legacy_status \<Rightarrow> stage_state list \<Rightarrow> unit res" where
  "assertLegacyRunStatus status states =
     require (\<not> (status = LegacyCompleted
             \<and> \<not> list_all (\<lambda>s. ss_status s = Terminal \<and> ss_outcome s = Some Succeeded) states
         \<or> status = LegacyFailed \<and> \<not> list_ex (\<lambda>s. ss_outcome s = Some Failed) states
         \<or> status = LegacyCanceled \<and> \<not> list_ex (\<lambda>s. ss_outcome s = Some Canceled) states
         \<or> status = LegacyPending \<and> list_ex (\<lambda>s. ss_status s = Running) states
         \<or> status = LegacyRunning \<and> \<not> list_ex (\<lambda>s. ss_status s = Running \<or> ss_status s = Ready) states))
       ''legacy_run_status_ambiguous''"

fun legacy_run_status :: "legacy_status \<Rightarrow> run_status" where
  "legacy_run_status LegacyPending = RPending"
| "legacy_run_status LegacyRunning = RRunning"
| "legacy_run_status LegacyCompleted = RCompleted"
| "legacy_run_status LegacyFailed = RFailed"
| "legacy_run_status LegacyCanceled = RCanceled"

text \<open>\<open>a ?? b\<close>.\<close>

definition otherwise :: "string option \<Rightarrow> string \<Rightarrow> string" where
  "otherwise v d = (case v of Some s \<Rightarrow> s | None \<Rightarrow> d)"

definition check_legacy_run :: "legacy_run \<Rightarrow> process_definition \<Rightarrow> unit res" where
  "check_legacy_run legacy definition = seqE [
     require (lgr_processId legacy = pd_processId definition
         \<and> lgr_processVersion legacy \<in> {None, Some (pd_version definition)})
       ''legacy_run_definition_binding_mismatch'',
     require (length (lgr_stageStates legacy) = length (pd_stages definition)) ''legacy_run_stage_count_ambiguous'',
     require (lgr_artifactIds legacy \<in> {None, Some []} \<and> \<not> truthy (lgr_errorMessage legacy))
       ''legacy_run_contains_unrepresentable_state'',
     (let represented = map (the \<circ> lgt_taskRunId) (filter (truthy \<circ> lgt_taskRunId) (lgr_stageStates legacy))
      in require (list_all (\<lambda>i. i \<in> set represented)
           (case lgr_childTaskRunIds legacy of None \<Rightarrow> [] | Some ids \<Rightarrow> ids))
         ''legacy_run_contains_unrepresentable_task_reference'')]"

definition upgradeLegacyProcessRunV1 :: "legacy_run \<Rightarrow> process_definition \<Rightarrow> string \<Rightarrow> process_run res" where
  "upgradeLegacyProcessRunV1 legacy definitionInput logicalTime =
     bindE (validateProcessDefinitionV1 definitionInput) (\<lambda>definition.
     bindE (check_legacy_run legacy definition) (\<lambda>_.
     bindE (upgrade_states False True (pd_stages definition) (lgr_stageStates legacy)) (\<lambda>stageStates.
     bindE (require (length (filter (\<lambda>s. lgt_status s = LegacyRunning) (lgr_stageStates legacy)) \<le> 1)
       ''legacy_run_has_multiple_active_stages'') (\<lambda>_.
     bindE (assertLegacyRunStatus (lgr_status legacy) stageStates) (\<lambda>_.
     let createdAt = otherwise (lgr_createdAt legacy) (otherwise (lgr_startedAt legacy) logicalTime);
         updatedAt = otherwise (lgr_updatedAt legacy) (otherwise (lgr_finishedAt legacy)
           (otherwise (lgr_startedAt legacy) logicalTime))
     in bindE (seqE [
         require (date_parse logicalTime \<noteq> None) ''legacy_logicalTime_invalid'',
         require (date_parse createdAt \<noteq> None) ''legacy_createdAt_invalid'',
         require (date_parse updatedAt \<noteq> None) ''legacy_updatedAt_invalid'']) (\<lambda>_.
       createProcessRunSnapshotV1 \<lparr>pr_schemaVersion = 1, pr_tenantId = lgr_tenantId legacy,
         pr_runId = lgr_runId legacy, pr_processId = lgr_processId legacy,
         pr_processVersion = pd_version definition, pr_definitionDigest = pd_definitionDigest definition,
         pr_revision = 0, pr_status = legacy_run_status (lgr_status legacy), pr_stageStates = stageStates,
         pr_input = lgr_input legacy, pr_result = lgr_result legacy, pr_subject = None,
         pr_cancellation = None, pr_createdAt = createdAt, pr_updatedAt = updatedAt,
         pr_stateDigest = []\<rparr>))))))"

end
