(* ===== verification/WfLegacyFacts.thy ===== *)
theory WfLegacyFacts
  imports WfLegacy WfDefects WfProgress
begin

text \<open>
  What the upgrade of legacy data keeps, and what becomes of a legacy run that was upgraded while
  one of its stages was running: the V1 runner never visits a running stage again.
\<close>

lemma upgrade_stages_Inr:
  assumes "upgrade_stages version prev ls = Inr ss"
  shows "length ss = length ls \<and> (\<forall>i < length ls. st_stageId (ss ! i) = lgs_id (ls ! i)
    \<and> \<not> is_compensation (ss ! i) \<and> st_dependencyMode (ss ! i) = None
    \<and> st_dependsOn (ss ! i) = (case if i = 0 then prev else Some (ls ! (i - 1)) of None \<Rightarrow> []
        | Some p \<Rightarrow> [\<lparr>dep_stageId = lgs_id p, dep_outcomes = [Succeeded]\<rparr>]))"
  using assms
proof (induction ls arbitrary: prev ss)
  case (Cons l ls)
  from Cons.prems obtain u rest where u: "upgrade_stage version prev l = Inr u"
    and rest: "upgrade_stages version (Some l) ls = Inr rest" and ss: "ss = u # rest"
    by (auto simp: bindE_Inr_iff)
  from u have "st_stageId u = lgs_id l" "\<not> is_compensation u" "st_dependencyMode u = None"
    "st_dependsOn u = (case prev of None \<Rightarrow> [] | Some p \<Rightarrow> [\<lparr>dep_stageId = lgs_id p, dep_outcomes = [Succeeded]\<rparr>])"
    by (auto simp: upgrade_stage_def bindE_Inr_iff is_compensation_def)
  with Cons.IH[OF rest] show ?case
    by (auto simp: ss less_Suc_eq_0_disj nth_Cons' split: nat.splits)
qed simp

lemma upgrade_state_fields [simp]:
  "ss_stageId (upgrade_state seen complete s) = lgt_stageId s"
  "ss_status (upgrade_state seen complete s) = (case lgt_status s of LegacyRunning \<Rightarrow> Running
     | LegacyPending \<Rightarrow> (if complete \<and> \<not> seen then Ready else Blocked) | _ \<Rightarrow> Terminal)"
  by (simp_all add: upgrade_state_def Let_def split: legacy_status.splits)

lemma upgrade_states_Inr:
  assumes "upgrade_states seen complete stages states = Inr ss" "length stages = length states"
  shows "length ss = length states \<and> (\<forall>i < length states. lgt_stageId (states ! i) = st_stageId (stages ! i)
    \<and> (\<exists>seen. ss ! i = upgrade_state seen (complete \<and> (\<forall>j < i. lgt_status (states ! j) = LegacyCompleted)) (states ! i)))"
  using assms
proof (induction seen complete stages states arbitrary: ss rule: upgrade_states.induct)
  case (1 seen complete stage stages state states)
  let ?seen = "seen \<or> lgt_status state = LegacyFailed \<or> lgt_status state = LegacyCanceled"
  from "1.prems"(1) obtain a b c e rest where k: "st_kind stage = TaskStage a b c e" "lgt_stageId state = st_stageId stage"
    "lgt_taskId state = a" "\<not> (seen \<and> lgt_status state \<noteq> LegacyPending)"
    and rest: "upgrade_states ?seen (complete \<and> lgt_status state = LegacyCompleted) stages states = Inr rest"
    and ss: "ss = upgrade_state ?seen complete state # rest"
    by (cases "st_kind stage") (auto simp: Let_def bindE_Inr_iff split: if_splits)
  have "length rest = length states \<and> (\<forall>i < length states. lgt_stageId (states ! i) = st_stageId (stages ! i)
    \<and> (\<exists>seen. rest ! i = upgrade_state seen
        ((complete \<and> lgt_status state = LegacyCompleted) \<and> (\<forall>j < i. lgt_status (states ! j) = LegacyCompleted)) (states ! i)))"
    by (rule "1.IH"[OF k(1) _ _ refl rest]) (use k "1.prems"(2) in auto)
  note r = this
  have shift: "(\<forall>j < Suc i. lgt_status ((state # states) ! j) = LegacyCompleted)
      \<longleftrightarrow> lgt_status state = LegacyCompleted \<and> (\<forall>j < i. lgt_status (states ! j) = LegacyCompleted)" for i
    by (simp add: All_less_Suc2)
  have "lgt_stageId ((state # states) ! i) = st_stageId ((stage # stages) ! i)
      \<and> (\<exists>seen. ss ! i = upgrade_state seen (complete \<and> (\<forall>j < i. lgt_status ((state # states) ! j) = LegacyCompleted))
           ((state # states) ! i))" if "i < length (state # states)" for i
    using that r k(2) by (cases i) (auto simp: ss shift)
  then show ?case using r by (simp add: ss)
qed auto

text \<open>A run whose stages have ended, are running or wait for one that has not ended: nothing happens.\<close>

lemma idle_run:
  assumes m: "states_match d r" and c: "pr_cancellation r = None" and st: "pr_status r = RRunning"
    and idle: "\<And>s. s \<in> set (pd_stages d) \<Longrightarrow> \<exists>state. mutableState r (st_stageId s) = Inr state
        \<and> (ss_status state \<in> {Running, Terminal} \<or> ss_status state = Blocked \<and> st_dependencyMode s = None
           \<and> (\<exists>e source. st_dependsOn s = [e] \<and> mutableState r (dep_stageId e) = Inr source \<and> ss_status source \<noteq> Terminal))"
    and normal: "\<forall>s \<in> set (pd_stages d). \<not> is_compensation s" and active: "Running \<in> ss_status ` set (pr_stageStates r)"
  shows "transitionOne opts d r t sw = (Inr (False, r), sw)" "settle_draft d t r = Inr r"
proof -
  have "visit_stages opts r t (pd_stages d) sw = (Inr (False, r), sw)"
    by (rule visit_stages_idle) (use idle in force)
  then show "transitionOne opts d r t sw = (Inr (False, r), sw)"
    using c by (simp add: transitionOne_def ready_compensation_def bindS_def)
  have none: "filter is_compensation (pd_stages d) = []" using normal by (simp add: filter_empty_conv)
  have "activate_stage d t (False, r) s = Inr (False, r)" if "s \<in> set (pd_stages d)" for s
    using idle[OF that]
    by (auto simp: activate_stage_def none dependency_match_def dependencies_satisfied_def dependencies_impossible_def)
  then have "activate_pass d t r = Inr (False, r)" by (simp add: activate_pass_def foldE_idle)
  then have "activateStages d t r = Inr r"
    using c by (subst activateStages_def, subst activate_loop.simps) simp
  moreover have "list_ex (\<lambda>s. ss_status s \<in> {Ready, Running}) (pr_stageStates r)"
    using active unfolding list_ex_iff by (metis imageE insertCI)
  then have "settleRunStatus d r = Inr (r\<lparr>pr_status := RRunning\<rparr>)"
    using c by (simp add: settleRunStatus_def none)
  ultimately show "settle_draft d t r = Inr r" using st by (simp add: settle_draft_def)
qed

lemma idle_advance:
  assumes "transitionOne opts d r t sw = (Inr (False, r), sw)" "settle_draft d t r = Inr r"
    and "pr_status r = RRunning" "\<not> run_expired d r t" "validateProcessRunV1 r = Inr r"
  shows "advanceCurrent opts d r t n False sw = (Inr r, sw)"
proof -
  have "transition_loop opts d t k r sw = (Inr r, sw)" for k
    using assms(1,3) by (cases k) (simp_all add: terminalRun_def bindS_def)
  moreover have "sameRunBody r r = Inr True"
    using assms(5) by (auto simp: sameRunBody_def validateProcessRunV1_def processRunDigest_def digestWorkflowJsonV1_def
        workflow_digest_bytes_def bindE_Inr_iff split: if_splits)
  ultimately show ?thesis using assms(2-4) by (simp add: advanceCurrent_def terminalRun_def bindS_def)
qed

text \<open>What the upgraded definition and run are.\<close>

lemma upgraded_definition:
  assumes "upgradeLegacyProcessDefinitionV1 version ld = Inr d"
  shows "validateProcessDefinitionV1 d = Inr d" "upgrade_stages version None (lgd_stages ld) = Inr (pd_stages d)"
proof -
  from assms obtain ss where ss: "upgrade_stages version None (lgd_stages ld) = Inr ss"
    "createProcessDefinitionV1 (lgd_id ld) (lgd_version ld) (lgd_name ld) ss None (\<lambda>l. l) = Inr d"
    by (auto simp: upgradeLegacyProcessDefinitionV1_def bindE_Inr_iff split: if_splits)
  from createProcessDefinitionV1_valid[OF ss(2)] show "validateProcessDefinitionV1 d = Inr d" .
  from ss show "upgrade_stages version None (lgd_stages ld) = Inr (pd_stages d)"
    by (auto simp: createProcessDefinitionV1_def Let_def bindE_Inr_iff)
qed

lemma upgraded_run:
  assumes "upgradeLegacyProcessRunV1 lr d at = Inr r"
  shows "validateProcessDefinitionV1 d = Inr d" "validateProcessRunV1 r = Inr r" "pr_revision r = 0"
    "pr_cancellation r = None" "pr_status r = legacy_run_status (lgr_status lr)"
    "length (pd_stages d) = length (lgr_stageStates lr)"
    "upgrade_states False True (pd_stages d) (lgr_stageStates lr) = Inr (pr_stageStates r)"
    "assertLegacyRunStatus (lgr_status lr) (pr_stageStates r) = Inr ()"
    "length (filter (\<lambda>s. lgt_status s = LegacyRunning) (lgr_stageStates lr)) \<le> 1"
proof -
  from assms obtain d' where d': "validateProcessDefinitionV1 d = Inr d'"
    by (auto simp: upgradeLegacyProcessRunV1_def bindE_Inr_iff)
  with validateProcessDefinitionV1_body show d: "validateProcessDefinitionV1 d = Inr d" by blast
  from assms d obtain states b where s: "check_legacy_run lr d = Inr ()"
    "upgrade_states False True (pd_stages d) (lgr_stageStates lr) = Inr states"
    "length (filter (\<lambda>s. lgt_status s = LegacyRunning) (lgr_stageStates lr)) \<le> 1"
    "assertLegacyRunStatus (lgr_status lr) states = Inr ()" "createProcessRunSnapshotV1 b = Inr r"
    "pr_revision b = 0" "pr_cancellation b = None" "pr_status b = legacy_run_status (lgr_status lr)" "pr_stageStates b = states"
    by (auto simp: upgradeLegacyProcessRunV1_def bindE_Inr_iff Let_def)
  from s(5) obtain dg where "validateProcessRunV1 (b\<lparr>pr_stateDigest := dg\<rparr>) = Inr r"
    by (auto simp: createProcessRunSnapshotV1_def bindE_Inr_iff)
  moreover from validateProcessRunV1_arg[OF this] have "r = b\<lparr>pr_stateDigest := dg\<rparr>" by simp
  ultimately show "validateProcessRunV1 r = Inr r" "pr_revision r = 0" "pr_cancellation r = None"
    "pr_status r = legacy_run_status (lgr_status lr)"
    "upgrade_states False True (pd_stages d) (lgr_stageStates lr) = Inr (pr_stageStates r)"
    "assertLegacyRunStatus (lgr_status lr) (pr_stageStates r) = Inr ()"
    using s by simp_all
  show "length (pd_stages d) = length (lgr_stageStates lr)" using s(1) by (simp add: check_legacy_run_def seqE_Inr_iff)
  show "length (filter (\<lambda>s. lgt_status s = LegacyRunning) (lgr_stageStates lr)) \<le> 1" by (rule s(3))
qed

lemma upgraded_states:
  assumes "upgradeLegacyProcessRunV1 lr d at = Inr r"
  shows "states_match d r" "length (pr_stageStates r) = length (lgr_stageStates lr)"
    "i < length (lgr_stageStates lr) \<Longrightarrow> \<exists>seen. pr_stageStates r ! i = upgrade_state seen
       (\<forall>j < i. lgt_status (lgr_stageStates lr ! j) = LegacyCompleted) (lgr_stageStates lr ! i)"
    "i < length (lgr_stageStates lr) \<Longrightarrow> mutableState r (st_stageId (pd_stages d ! i)) = Inr (pr_stageStates r ! i)"
proof -
  note u = upgraded_run[OF assms]
  note s = upgrade_states_Inr[OF u(7,6)]
  show "length (pr_stageStates r) = length (lgr_stageStates lr)" using s by simp
  show "i < length (lgr_stageStates lr) \<Longrightarrow> \<exists>seen. pr_stageStates r ! i = upgrade_state seen
       (\<forall>j < i. lgt_status (lgr_stageStates lr ! j) = LegacyCompleted) (lgr_stageStates lr ! i)" using s by auto
  have ids: "ss_stageId (pr_stageStates r ! i) = st_stageId (pd_stages d ! i)" if "i < length (lgr_stageStates lr)" for i
    using s that by force
  then show m: "states_match d r"
    using s u(6) by (simp add: states_match_def list_eq_iff_nth_eq)
  have "distinct (map st_stageId (pd_stages d))"
    using validateProcessDefinitionBodyV1_facts(1)[of d] validateProcessDefinitionV1_body[OF u(1)]
    by (simp add: well_formed_stages_def)
  from states_match_find[OF m this] ids s
  show "i < length (lgr_stageStates lr) \<Longrightarrow> mutableState r (st_stageId (pd_stages d ! i)) = Inr (pr_stageStates r ! i)"
    by (metis nth_mem)
qed

end
