(* ===== verification/WfLegacyProperties.thy ===== *)
theory WfLegacyProperties
  imports WfLegacyFacts WfGraphProperties
begin

text \<open>
  The property of upgraded legacy runs, with a legacy process of two stages whose first one is
  running.
\<close>

subsection \<open>A sample\<close>

definition lane_stages :: "process_stage list" where
  "lane_stages = [task_stage ''a'' None [], task_stage ''b'' None [after ''a'' Succeeded]]"

definition lane_stage :: "string \<Rightarrow> legacy_stage" where
  "lane_stage i = \<lparr>lgs_id = i, lgs_name = i, lgs_taskId = ''d'', lgs_skillId = None, lgs_retryLimit = None,
     lgs_timeoutSec = None, lgs_metadata = None\<rparr>"

definition lane :: legacy_definition where
  "lane = \<lparr>lgd_id = ''p'', lgd_version = ''1'', lgd_name = ''p'', lgd_description = None,
     lgd_stages = [lane_stage ''a'', lane_stage ''b'']\<rparr>"

definition lane_state :: "string \<Rightarrow> legacy_status \<Rightarrow> legacy_stage_state" where
  "lane_state i st = \<lparr>lgt_stageId = i, lgt_taskId = ''d'', lgt_status = st, lgt_taskRunId = None, lgt_retryCount = None,
     lgt_startedAt = None, lgt_finishedAt = None, lgt_errorMessage = None\<rparr>"

definition lane_run :: legacy_run where
  "lane_run = \<lparr>lgr_tenantId = ''t'', lgr_runId = ''r'', lgr_processId = ''p'', lgr_processVersion = None,
     lgr_status = LegacyRunning, lgr_stageStates = [lane_state ''a'' LegacyRunning, lane_state ''b'' LegacyPending],
     lgr_artifactIds = None, lgr_childTaskRunIds = None, lgr_input = None, lgr_result = None, lgr_errorMessage = None,
     lgr_startedAt = None, lgr_finishedAt = None, lgr_createdAt = None, lgr_updatedAt = None\<rparr>"

definition lane_states :: "stage_state list" where
  "lane_states = [(plain_state ''a'' Running None)\<lparr>ss_attempt := 1\<rparr>, plain_state ''b'' Blocked None]"

lemma lane_body: "validateProcessDefinitionBodyV1 (definition_body lane_stages) = Inr ()"
  "digestible (process_definition_json (definition_body lane_stages))"
  by code_simp (simp add: json_simps definition_body_def lane_stages_def task_stage_def after_def
      DEFAULT_PROCESS_DEFINITION_LIMITS_V1_def)

lemma lane_upgraded: "upgradeLegacyProcessDefinitionV1 (Some (\<lambda>_. ''1'')) lane = Inr (sample_definition lane_stages)"
proof -
  have "upgrade_stages (Some (\<lambda>_. ''1'')) None (lgd_stages lane) = Inr lane_stages"
    by (simp add: lane_def lane_stage_def upgrade_stage_def lane_stages_def task_stage_def after_def)
  moreover have "createProcessDefinitionV1 ''p'' ''1'' ''p'' lane_stages None (\<lambda>l. l) = Inr (sample_definition lane_stages)"
    using lane_body the_digest(1)[OF lane_body(2), of "''process-definition''"]
    by (simp add: createProcessDefinitionV1_def definition_body_def[symmetric] sample_definition_def Let_def)
  ultimately show ?thesis by (simp add: upgradeLegacyProcessDefinitionV1_def) (simp add: lane_def)
qed

lemma lane_run_upgraded:
  "upgradeLegacyProcessRunV1 lane_run (sample_definition lane_stages) time0
   = Inr (sample_run (sample_definition lane_stages) 0 RRunning lane_states)"
proof -
  let ?d = "sample_definition lane_stages"
  have d: "validateProcessDefinitionV1 ?d = Inr ?d" "valid_digest (pd_definitionDigest ?d)"
    "length (pd_definitionDigest ?d) = 71"
    by (rule sample_definition_valid[OF lane_body] valid_definition_digest[OF lane_body(2)]
        length_definition_digest[OF lane_body(2)])+
  have p: "pd_processId ?d = ''p''" "pd_version ?d = ''1''" by (simp_all add: sample_definition_def definition_body_def)
  have dig: "digestible (process_run_json (run_body ?d 0 RRunning lane_states))"
    using d(3) by (simp add: json_simps run_body_def lane_states_def plain_state_def time0_def)
  have ids: "foldE validate_stage_state [] lane_states = Inr [''b'', ''a'']" by code_simp
  have valid: "validateProcessRunV1 (sample_run ?d 0 RRunning lane_states) = Inr (sample_run ?d 0 RRunning lane_states)"
    by (rule sample_run_valid[OF dig d(2) ids]) (simp_all add: lane_states_def isSafeInteger_def maximumSafeInteger_def)
  have "createProcessRunSnapshotV1 (run_body ?d 0 RRunning lane_states) = Inr (sample_run ?d 0 RRunning lane_states)"
    using valid the_digest(1)[OF dig, of "''process-run-state''"]
    by (simp add: createProcessRunSnapshotV1_def processRunDigest_def sample_run_def)
  moreover have "upgrade_states False True lane_stages (lgr_stageStates lane_run) = Inr lane_states" by code_simp
  moreover have "assertLegacyRunStatus (lgr_status lane_run) lane_states = Inr ()"
    "length (filter (\<lambda>s. lgt_status s = LegacyRunning) (lgr_stageStates lane_run)) \<le> 1" by code_simp+
  moreover have "check_legacy_run lane_run ?d = Inr ()"
    using p by (simp add: check_legacy_run_def lane_run_def lane_state_def lane_stages_def truthy_def seqE.simps
        require_def)
  ultimately show ?thesis
    using d p by (simp add: upgradeLegacyProcessRunV1_def)
      (simp add: lane_run_def otherwise_def seqE.simps time0_parse require_def run_body_def)
qed

subsection \<open>Property\<close>

text \<open>
  C36. A legacy run that is upgraded while a stage is running never goes on: when the stages
  before it are completed and those after it pending, the upgraded run is a valid run of the
  upgraded definition that has this stage running, and advancing it, at any time before it expires and with
  whatever ports, changes nothing: no task attempt is made and the run stays as it is.
\<close>

theorem legacy_running_stage_stuck:
  assumes "upgradeLegacyProcessDefinitionV1 version ld = Inr d" "upgradeLegacyProcessRunV1 lr d at = Inr r"
    and "lgr_stageStates lr = completed @ active # pending" "lgt_status active = LegacyRunning"
    and "\<forall>s \<in> set completed. lgt_status s = LegacyCompleted" "\<forall>s \<in> set pending. lgt_status s = LegacyPending"
    and "\<not> run_expired d r t"
  shows "validateProcessRunV1 r = Inr r \<and> states_match d r \<and> ss_status (pr_stageStates r ! length completed) = Running
    \<and> advanceCurrent opts d r t n False sw = (Inr r, sw)"
proof -
  let ?k = "length completed" and ?ls = "lgr_stageStates lr" and ?ss = "pr_stageStates r"
  note u = upgraded_run[OF assms(2)] and st = upgraded_states[OF assms(2)]
  note stages = upgrade_stages_Inr[OF upgraded_definition(2)[OF assms(1)]]
  have legacy: "lgt_status (?ls ! i) = (if i < ?k then LegacyCompleted else if i = ?k then LegacyRunning else LegacyPending)"
    if "i < length ?ls" for i
    using that assms(3-6) by (auto simp: nth_append nth_Cons' all_set_conv_all_nth)
  have k: "?k < length ?ls" by (simp add: assms(3))
  have status: "ss_status (?ss ! i) = (if i < ?k then Terminal else if i = ?k then Running else Blocked)"
    if i: "i < length ?ls" for i
  proof -
    from st(3)[OF i] obtain seen where "?ss ! i = upgrade_state seen (\<forall>j < i. lgt_status (?ls ! j) = LegacyCompleted) (?ls ! i)"
      by blast
    moreover have "\<not> (\<forall>j < i. lgt_status (?ls ! j) = LegacyCompleted)" if "?k < i"
      using that k legacy[of ?k] by auto
    ultimately show ?thesis using legacy[OF i] by (cases i ?k rule: linorder_cases) auto
  qed
  have running: "ss_status (?ss ! ?k) = Running" using status[OF k] by simp
  have run: "Running \<in> ss_status ` set ?ss" using running k st(2) by (metis image_eqI nth_mem)
  have out: "ss_outcome s \<notin> {Some Failed, Some Canceled}" if "s \<in> set ?ss" for s
  proof -
    from that st(2) obtain i where i: "i < length ?ls" "s = ?ss ! i" by (metis in_set_conv_nth)
    from st(3)[OF i(1)] i(2) legacy[OF i(1)] show ?thesis
      by (auto simp: upgrade_state_def Let_def split: if_splits)
  qed
  have "pr_status r = RRunning"
    using u(5,8) run out by (cases "lgr_status lr") (force simp: assertLegacyRunStatus_def list_all_iff list_ex_iff)+
  have idle: "\<exists>state. mutableState r (st_stageId s) = Inr state
        \<and> (ss_status state \<in> {Running, Terminal} \<or> ss_status state = Blocked \<and> st_dependencyMode s = None
           \<and> (\<exists>e source. st_dependsOn s = [e] \<and> mutableState r (dep_stageId e) = Inr source \<and> ss_status source \<noteq> Terminal))"
    if "s \<in> set (pd_stages d)" for s
  proof -
    from that u(6) obtain i where i: "i < length ?ls" "s = pd_stages d ! i" by (metis in_set_conv_nth)
    have own: "mutableState r (st_stageId s) = Inr (?ss ! i)" using st(4)[OF i(1)] i(2) by simp
    show ?thesis
    proof (cases "i \<le> ?k")
      case True
      then show ?thesis using own status[OF i(1)] by auto
    next
      case False
      then have p: "i - 1 < length ?ls" "i \<noteq> 0" "\<not> i - 1 < ?k" using i(1) by auto
      have l: "i < length (lgd_stages ld)" "i - 1 < length (lgd_stages ld)" using stages u(6) i(1) p(1) by auto
      then have "st_dependsOn s = [\<lparr>dep_stageId = st_stageId (pd_stages d ! (i - 1)), dep_outcomes = [Succeeded]\<rparr>]"
        "st_dependencyMode s = None" using stages i(2) p(2) by auto
      moreover have "ss_status (?ss ! (i - 1)) \<noteq> Terminal" using status[OF p(1)] p(3) by auto
      ultimately show ?thesis using own status[OF i(1)] False st(4)[OF p(1)] by auto
    qed
  qed
  have normal: "\<forall>s \<in> set (pd_stages d). \<not> is_compensation s"
    using stages by (metis in_set_conv_nth)
  note i = idle_run[OF st(1) u(4) \<open>pr_status r = RRunning\<close> idle normal run]
  have "advanceCurrent opts d r t n False sw = (Inr r, sw)"
    by (rule idle_advance[OF i \<open>pr_status r = RRunning\<close> assms(7) u(2)])
  with u(2) st(1) running show ?thesis by simp
qed

theorem legacy_running_stage_stuck_witness:
  "advanceCurrent bare_options (sample_definition lane_stages) (sample_run (sample_definition lane_stages) 0 RRunning lane_states)
     time0 5 False (signal_store, ())
   = (Inr (sample_run (sample_definition lane_stages) 0 RRunning lane_states), (signal_store, ()))"
proof -
  have "\<not> run_expired (sample_definition lane_stages) (sample_run (sample_definition lane_stages) 0 RRunning lane_states) time0"
    by (simp add: run_expired_def sample_run_def run_body_def time0_parse sample_definition_def definition_body_def
        DEFAULT_PROCESS_DEFINITION_LIMITS_V1_def)
  then show ?thesis
    using legacy_running_stage_stuck[OF lane_upgraded lane_run_upgraded, where completed = "[]"
        and active = "lane_state ''a'' LegacyRunning" and pending = "[lane_state ''b'' LegacyPending]" and t = time0
        and opts = bare_options and n = 5 and sw = "(signal_store, ())"]
    by (simp add: lane_run_def lane_state_def)
qed

end
