(* ===== verification/MeshJson.thy ===== *)
theory MeshJson
  imports JsonLimits
begin

text \<open>
  The canonical JSON of the mesh protocol (\<open>packages/mesh-protocol/src/canonical-json.ts\<close>
  and the limits of \<open>contracts.ts\<close>): what the agreement protocol hashes and signs. The
  serializer counts the object keys and array items of the whole value and the bytes it has
  written; its two counters are threaded. The \<open>path\<close> of a failure is a diagnostic and is
  left out, the \<open>code\<close> is kept. As in \<open>CanonicalJson\<close> a value is a tree of the
  \<open>json\<close> type, so the test for cycles and the tests of property descriptors cannot fire.
\<close>

subsection \<open>The serializer\<close>

record strict_json_limits =
  maximumEnvelopeBytes :: nat
  maximumNestingDepth :: nat
  maximumTotalObjectKeys :: nat
  maximumObjectKeys :: nat
  maximumTotalArrayItems :: nat
  maximumArrayItems :: nat
  maximumStringBytes :: nat

definition DEFAULT_MESH_PROTOCOL_LIMITS :: strict_json_limits where
  "DEFAULT_MESH_PROTOCOL_LIMITS = \<lparr>
     maximumEnvelopeBytes = 262144,
     maximumNestingDepth = 32,
     maximumTotalObjectKeys = 2048,
     maximumObjectKeys = 256,
     maximumTotalArrayItems = 4096,
     maximumArrayItems = 1024,
     maximumStringBytes = 65536\<rparr>"

datatype canonical_failure = InvalidJsonValue | StructuralLimitExceeded

text \<open>\<open>isWellFormedUnicode\<close> on the UTF-16 code units: no surrogate stands alone.\<close>

fun isWellFormedUnicode :: "nat list \<Rightarrow> bool" where
  "isWellFormedUnicode [] \<longleftrightarrow> True"
| "isWellFormedUnicode (code # rest) \<longleftrightarrow>
     (if 0xd800 \<le> code \<and> code \<le> 0xdbff then
        (case rest of
           [] \<Rightarrow> False
         | following # rest' \<Rightarrow>
             if \<not> (0xdc00 \<le> following \<and> following \<le> 0xdfff) then False
             else isWellFormedUnicode rest')
      else if 0xdc00 \<le> code \<and> code \<le> 0xdfff then False
      else isWellFormedUnicode rest)"

definition byteLength :: "string \<Rightarrow> nat" where
  "byteLength s = length (encode_utf8 s)"

definition assertOutputSize :: "nat \<Rightarrow> string \<Rightarrow> canonical_failure + string" where
  "assertOutputSize maximum s = (if byteLength s > maximum then Inl StructuralLimitExceeded else Inr s)"

text \<open>The counters \<open>totalObjectKeys\<close> and \<open>totalArrayItems\<close> of the serializer.\<close>

type_synonym counters = "nat \<times> nat"

definition leaf :: "nat \<Rightarrow> counters \<Rightarrow> string \<Rightarrow> canonical_failure + string \<times> counters" where
  "leaf maximum c s = bindE (assertOutputSize maximum s) (\<lambda>s. Inr (s, c))"

text \<open>
  \<open>serializeItems\<close> and \<open>serializeFields\<close> are the loops of \<open>serializeArray\<close> and
  \<open>serializeObject\<close>; \<open>first\<close> says that nothing has been serialized before, and
  \<open>outputBytes\<close> is the loop's running length.
\<close>

function (sequential)
  serializeValue :: "strict_json_limits \<Rightarrow> nat \<Rightarrow> nat \<Rightarrow> counters \<Rightarrow> json \<Rightarrow>
    canonical_failure + string \<times> counters"
  and serializeItems :: "strict_json_limits \<Rightarrow> nat \<Rightarrow> nat \<Rightarrow> bool \<Rightarrow> nat \<Rightarrow> counters \<Rightarrow> json list \<Rightarrow>
    canonical_failure + string list \<times> counters"
  and serializeFields :: "strict_json_limits \<Rightarrow> nat \<Rightarrow> nat \<Rightarrow> bool \<Rightarrow> nat \<Rightarrow> counters \<Rightarrow> (string \<times> json) list \<Rightarrow>
    canonical_failure + string list \<times> counters"
where
  "serializeValue L maximum depth c v = (case v of
      JNull \<Rightarrow> leaf maximum c ''null''
    | JBool b \<Rightarrow> leaf maximum c (if b then ''true'' else ''false'')
    | JNum n \<Rightarrow> leaf maximum c (show_int n)
    | JStr s \<Rightarrow>
        if \<not> isWellFormedUnicode (code_units s) then Inl InvalidJsonValue
        else if byteLength s > maximumStringBytes L then Inl StructuralLimitExceeded
        else leaf maximum c (stringify_string s)
    | JArr vs \<Rightarrow>
        if depth + 1 > maximumNestingDepth L then Inl StructuralLimitExceeded
        else if length vs > maximumArrayItems L \<or> snd c + length vs > maximumTotalArrayItems L
        then Inl StructuralLimitExceeded
        else bindE (serializeItems L maximum (depth + 1) True 2 (fst c, snd c + length vs) vs)
          (\<lambda>(ss, c). Inr (CHR ''['' # joined ss @ '']'', c))
    | JObj fs \<Rightarrow>
        if depth + 1 > maximumNestingDepth L then Inl StructuralLimitExceeded
        else if length fs > maximumObjectKeys L \<or> fst c + length fs > maximumTotalObjectKeys L
        then Inl StructuralLimitExceeded
        else bindE (serializeFields L maximum (depth + 1) True 2 (fst c + length fs, snd c) (sort_key fst fs))
          (\<lambda>(ss, c). Inr (CHR ''{'' # joined ss @ ''}'', c)))"
| "serializeItems L maximum depth first outputBytes c [] = Inr ([], c)"
| "serializeItems L maximum depth first outputBytes c (v # vs) =
     bindE (serializeValue L maximum depth c v) (\<lambda>(item, c).
       let outputBytes = outputBytes + (if first then 0 else 1) + byteLength item
       in if outputBytes > maximum then Inl StructuralLimitExceeded
          else bindE (serializeItems L maximum depth False outputBytes c vs) (\<lambda>(ss, c). Inr (item # ss, c)))"
| "serializeFields L maximum depth first outputBytes c [] = Inr ([], c)"
| "serializeFields L maximum depth first outputBytes c ((key, v) # fs) =
     (if \<not> isWellFormedUnicode (code_units key) then Inl InvalidJsonValue
      else if byteLength key > maximumStringBytes L then Inl StructuralLimitExceeded
      else bindE (serializeValue L maximum depth c v) (\<lambda>(item, c).
        let outputBytes = outputBytes + (if first then 0 else 1) + byteLength (stringify_string key) + 1
              + byteLength item
        in if outputBytes > maximum then Inl StructuralLimitExceeded
           else bindE (serializeFields L maximum depth False outputBytes c fs)
             (\<lambda>(ss, c). Inr ((stringify_string key @ CHR '':'' # item) # ss, c))))"
  by pat_completeness auto
termination
  by (relation "measures [\<lambda>x. case x of
          Inl (L, m, d, c, v) \<Rightarrow> maximumNestingDepth L + 1 - d
        | Inr (Inl (L, m, d, b, n, c, vs)) \<Rightarrow> maximumNestingDepth L + 1 - d
        | Inr (Inr (L, m, d, b, n, c, fs)) \<Rightarrow> maximumNestingDepth L + 1 - d,
      \<lambda>x. case x of
          Inl (L, m, d, c, v) \<Rightarrow> 0
        | Inr (Inl (L, m, d, b, n, c, vs)) \<Rightarrow> Suc (length vs)
        | Inr (Inr (L, m, d, b, n, c, fs)) \<Rightarrow> Suc (length fs)]") auto

declare serializeValue.simps [simp del]

definition canonicalizeJsonValue ::
  "json \<Rightarrow> strict_json_limits \<Rightarrow> nat \<Rightarrow> canonical_failure + string \<times> int list" where
  "canonicalizeJsonValue input L maximumOutputBytes =
     bindE (serializeValue L maximumOutputBytes 0 (0, 0) input) (\<lambda>(s, _).
       let bytes = encode_utf8 s
       in if length bytes > maximumOutputBytes then Inl StructuralLimitExceeded else Inr (s, bytes))"

definition canonicalizeMeshJsonBytes :: "json \<Rightarrow> canonical_failure + int list" where
  "canonicalizeMeshJsonBytes input =
     bindE (canonicalizeJsonValue input DEFAULT_MESH_PROTOCOL_LIMITS (maximumEnvelopeBytes DEFAULT_MESH_PROTOCOL_LIMITS))
       (\<lambda>(_, bytes). Inr bytes)"

subsection \<open>What is accepted, and as what\<close>

lemma isWellFormedUnicode_char [simp]: "isWellFormedUnicode (code_units s)"
proof (induction s)
  case Nil
  then show ?case by (simp add: code_units_def)
next
  case (Cons c s)
  have "(of_char c :: nat) < 256" by (rule nat_of_char_less_256)
  then have "\<not> 55296 \<le> (of_char c :: nat)" "\<not> 56320 \<le> (of_char c :: nat)" by linarith+
  with Cons show ?case by (simp add: code_units_def)
qed

text \<open>The object keys and the array items of a whole value.\<close>

fun object_keys :: "json \<Rightarrow> nat" where
  "object_keys (JArr vs) = sum_list (map object_keys vs)"
| "object_keys (JObj fs) = length fs + sum_list (map (\<lambda>(k, v). object_keys v) fs)"
| "object_keys v = 0"

fun array_items :: "json \<Rightarrow> nat" where
  "array_items (JArr vs) = length vs + sum_list (map array_items vs)"
| "array_items (JObj fs) = sum_list (map (\<lambda>(k, v). array_items v) fs)"
| "array_items v = 0"

text \<open>The limits that concern one value at a time: depth, sizes of arrays and objects, strings.\<close>

fun mesh_fits :: "strict_json_limits \<Rightarrow> nat \<Rightarrow> json \<Rightarrow> bool" where
  "mesh_fits L d (JArr vs) \<longleftrightarrow> d < maximumNestingDepth L \<and> length vs \<le> maximumArrayItems L
     \<and> list_all (mesh_fits L (d + 1)) vs"
| "mesh_fits L d (JObj fs) \<longleftrightarrow> d < maximumNestingDepth L \<and> length fs \<le> maximumObjectKeys L
     \<and> list_all (\<lambda>(k, v). byteLength k \<le> maximumStringBytes L \<and> mesh_fits L (d + 1) v) fs"
| "mesh_fits L d (JStr s) \<longleftrightarrow> byteLength s \<le> maximumStringBytes L"
| "mesh_fits L d v \<longleftrightarrow> True"

fun list_bytes :: "bool \<Rightarrow> string list \<Rightarrow> nat" where
  "list_bytes first [] = 0"
| "list_bytes first (s # ss) = (if first then 0 else 1) + byteLength s + list_bytes False ss"

lemma byteLength_simps [simp]:
  "byteLength [] = 0" "byteLength (s @ t) = byteLength s + byteLength t"
  by (simp_all add: byteLength_def encode_utf8_def)

lemma byteLength_ascii: "(of_char c :: int) < 128 \<Longrightarrow> byteLength (c # s) = Suc (byteLength s)"
  by (simp add: byteLength_def encode_utf8_def Let_def)

lemma byteLength_joined: "byteLength (joined ss) = list_bytes True ss"
proof -
  have "byteLength (joined (s # ss)) = byteLength s + list_bytes False ss" for s ss
  proof (induction ss arbitrary: s)
    case (Cons t ss)
    have "byteLength (CHR '','' # joined (t # ss)) = Suc (byteLength (joined (t # ss)))"
      by (rule byteLength_ascii) simp
    with Cons show ?case by simp
  qed simp
  then show ?thesis by (cases ss) (simp_all del: joined.simps(3))
qed

lemma list_all_sort_key [simp]: "list_all P (sort_key f xs) = list_all P xs"
  by (simp add: list_all_iff)

lemma leaf_Inr: "leaf m c s = Inr r \<longleftrightarrow> byteLength s \<le> m \<and> r = (s, c)"
  by (auto simp: leaf_def assertOutputSize_def bindE_Inr_iff)

definition field_text :: "string \<times> json \<Rightarrow> string" where
  "field_text = (\<lambda>(k, v). stringify_string k @ CHR '':'' # render (json_norm v))"

lemma byteLength_field: "byteLength (field_text (k, v)) = byteLength (stringify_string k) + 1 + byteLength (render (json_norm v))"
  by (simp add: field_text_def byteLength_ascii)

lemma serialize_iff:
  "2 \<le> m \<Longrightarrow> fst c \<le> maximumTotalObjectKeys L \<Longrightarrow> snd c \<le> maximumTotalArrayItems L \<Longrightarrow>
   serializeValue L m d c v = Inr r \<longleftrightarrow>
     mesh_fits L d v \<and> fst c + object_keys v \<le> maximumTotalObjectKeys L
     \<and> snd c + array_items v \<le> maximumTotalArrayItems L \<and> byteLength (render (json_norm v)) \<le> m
     \<and> r = (render (json_norm v), fst c + object_keys v, snd c + array_items v)"
  "2 \<le> m \<Longrightarrow> fst c \<le> maximumTotalObjectKeys L \<Longrightarrow> snd c \<le> maximumTotalArrayItems L \<Longrightarrow> ob \<le> m \<Longrightarrow>
   serializeItems L m d first ob c vs = Inr q \<longleftrightarrow>
     list_all (mesh_fits L d) vs \<and> fst c + sum_list (map object_keys vs) \<le> maximumTotalObjectKeys L
     \<and> snd c + sum_list (map array_items vs) \<le> maximumTotalArrayItems L
     \<and> ob + list_bytes first (map (\<lambda>v. render (json_norm v)) vs) \<le> m
     \<and> q = (map (\<lambda>v. render (json_norm v)) vs, fst c + sum_list (map object_keys vs), snd c + sum_list (map array_items vs))"
  "2 \<le> m \<Longrightarrow> fst c \<le> maximumTotalObjectKeys L \<Longrightarrow> snd c \<le> maximumTotalArrayItems L \<Longrightarrow> ob \<le> m \<Longrightarrow>
   serializeFields L m d first ob c fs = Inr q \<longleftrightarrow>
     list_all (\<lambda>(k, v). byteLength k \<le> maximumStringBytes L \<and> mesh_fits L d v) fs
     \<and> fst c + sum_list (map (\<lambda>(k, v). object_keys v) fs) \<le> maximumTotalObjectKeys L
     \<and> snd c + sum_list (map (\<lambda>(k, v). array_items v) fs) \<le> maximumTotalArrayItems L
     \<and> ob + list_bytes first (map field_text fs) \<le> m
     \<and> q = (map field_text fs, fst c + sum_list (map (\<lambda>(k, v). object_keys v) fs),
            snd c + sum_list (map (\<lambda>(k, v). array_items v) fs))"
proof (induction L m d c v and L m d first ob c vs and L m d first ob c fs arbitrary: r and q and q
    rule: serializeValue_serializeItems_serializeFields.induct)
  case (1 L m d c v)
  show ?case
  proof (cases v)
    case (JArr vs)
    show ?thesis
    proof (cases "d + 1 > maximumNestingDepth L \<or> length vs > maximumArrayItems L \<or> snd c + length vs > maximumTotalArrayItems L")
      case True
      then show ?thesis by (auto simp: JArr serializeValue.simps)
    next
      case False
      then have g: "\<not> d + 1 > maximumNestingDepth L"
        "\<not> (length vs > maximumArrayItems L \<or> snd c + length vs > maximumTotalArrayItems L)" by simp_all
      have b: "fst (fst c, snd c + length vs) \<le> maximumTotalObjectKeys L"
        "snd (fst c, snd c + length vs) \<le> maximumTotalArrayItems L" using "1.prems" g by simp_all
      note IH = "1.IH"(1)[OF JArr g "1.prems"(1) b "1.prems"(1), simplified]
      from False show ?thesis
        by (auto simp: JArr serializeValue.simps bindE_Inr_iff IH byteLength_ascii byteLength_joined o_def
            add.assoc split: prod.splits)
    qed
  next
    case (JObj fs)
    let ?fs = "sort_key fst fs"
    show ?thesis
    proof (cases "d + 1 > maximumNestingDepth L \<or> length fs > maximumObjectKeys L \<or> fst c + length fs > maximumTotalObjectKeys L")
      case True
      then show ?thesis by (auto simp: JObj serializeValue.simps)
    next
      case False
      then have g: "\<not> d + 1 > maximumNestingDepth L"
        "\<not> (length fs > maximumObjectKeys L \<or> fst c + length fs > maximumTotalObjectKeys L)" by simp_all
      have b: "fst (fst c + length fs, snd c) \<le> maximumTotalObjectKeys L"
        "snd (fst c + length fs, snd c) \<le> maximumTotalArrayItems L" using "1.prems" g by simp_all
      note IH = "1.IH"(2)[OF JObj g "1.prems"(1) b "1.prems"(1), simplified]
      have t: "map (\<lambda>(k, v). stringify_string k @ CHR '':'' # render v) (sort_key fst (map (\<lambda>(k, v). (k, json_norm v)) fs))
          = map field_text ?fs"
        by (auto simp: sort_key_map_snd[symmetric] field_text_def split: prod.splits)
      from False show ?thesis
        by (auto simp: JObj serializeValue.simps bindE_Inr_iff IH byteLength_ascii byteLength_joined t
            sum_list_sort_key add.assoc split: prod.splits)
    qed
  qed (use "1.prems" in \<open>auto simp: serializeValue.simps leaf_Inr prod_eq_iff\<close>)
next
  case (3 L m d first ob c v vs)
  note V = "3.IH"(1)[OF "3.prems"(1-3)]
  let ?s = "render (json_norm v)" and ?c = "(fst c + object_keys v, snd c + array_items v)"
  let ?ob = "ob + (if first then 0 else 1) + byteLength ?s"
  show ?case
  proof (cases "serializeValue L m d c v = Inr (?s, ?c) \<and> ?ob \<le> m")
    case True
    then have bounds: "fst ?c \<le> maximumTotalObjectKeys L" "snd ?c \<le> maximumTotalArrayItems L" "mesh_fits L d v"
      using V by auto
    define ob' where "ob' = ?ob"
    have eq: "serializeItems L m d first ob c (v # vs) =
        bindE (serializeItems L m d False ob' ?c vs) (\<lambda>(ss, c). Inr (?s # ss, c))"
      using True by (simp add: ob'_def Let_def)
    have ob': "\<not> ob' > m" "ob' \<le> m" using True by (simp_all add: ob'_def)
    have "ob + list_bytes first (?s # map (\<lambda>v. render (json_norm v)) vs)
        = ob' + list_bytes False (map (\<lambda>v. render (json_norm v)) vs)" by (simp add: ob'_def)
    note [simp] = this
    note IH = "3.IH"(2)[OF ob'_def ob'(1) "3.prems"(1) bounds(1,2) ob'(2)]
    from bounds show ?thesis
      unfolding eq by (auto simp: bindE_Inr_iff IH add.assoc simp del: list_bytes.simps split: prod.splits)
  next
    case False
    then show ?thesis using V by (auto simp: bindE_Inr_iff Let_def split: prod.splits if_splits)
  qed
next
  case (5 L m d first ob c k v fs)
  note V = "5.IH"(1)[OF _ _ "5.prems"(1-3)]
  let ?s = "render (json_norm v)" and ?c = "(fst c + object_keys v, snd c + array_items v)"
  let ?ob = "ob + (if first then 0 else 1) + byteLength (stringify_string k) + 1 + byteLength ?s"
  show ?case
  proof (cases "byteLength k \<le> maximumStringBytes L \<and> serializeValue L m d c v = Inr (?s, ?c) \<and> ?ob \<le> m")
    case True
    then have k: "\<not> byteLength k > maximumStringBytes L" and u: "\<not> \<not> isWellFormedUnicode (code_units k)" by simp_all
    note V = V[OF u k]
    from True have bounds: "fst ?c \<le> maximumTotalObjectKeys L" "snd ?c \<le> maximumTotalArrayItems L" "mesh_fits L d v"
      using V by auto
    define ob' where "ob' = ?ob"
    have eq: "serializeFields L m d first ob c ((k, v) # fs) =
        bindE (serializeFields L m d False ob' ?c fs) (\<lambda>(ss, c). Inr (field_text (k, v) # ss, c))"
      using True by (simp add: ob'_def Let_def field_text_def)
    have ob': "\<not> ob' > m" "ob' \<le> m" using True by (simp_all add: ob'_def)
    have "ob + list_bytes first (field_text (k, v) # map field_text fs) = ob' + list_bytes False (map field_text fs)"
      by (simp add: ob'_def byteLength_field)
    note [simp] = this
    note IH = "5.IH"(2)[OF u k ob'_def ob'(1) "5.prems"(1) bounds(1,2) ob'(2)]
    from bounds True show ?thesis
      unfolding eq by (auto simp: bindE_Inr_iff IH add.assoc simp del: list_bytes.simps split: prod.splits)
  next
    case False
    show ?thesis
    proof (cases "byteLength k \<le> maximumStringBytes L")
      case True
      then have k: "\<not> byteLength k > maximumStringBytes L" and u: "\<not> \<not> isWellFormedUnicode (code_units k)" by simp_all
      from False True show ?thesis using V[OF u k] 
        by (auto simp: bindE_Inr_iff Let_def byteLength_field split: prod.splits if_splits)
    qed (auto simp: bindE_Inr_iff)
  qed
qed (auto simp: prod_eq_iff)

text \<open>A value the mesh profile admits, with the default limits.\<close>

definition mesh_ok :: "json \<Rightarrow> bool" where
  "mesh_ok v \<longleftrightarrow> mesh_fits DEFAULT_MESH_PROTOCOL_LIMITS 0 v \<and> object_keys v \<le> 2048
     \<and> array_items v \<le> 4096 \<and> byteLength (render (json_norm v)) \<le> 262144"

lemma canonicalizeJsonValue_iff:
  assumes "2 \<le> m"
  shows "canonicalizeJsonValue v L m = Inr (s, bytes) \<longleftrightarrow>
    mesh_fits L 0 v \<and> object_keys v \<le> maximumTotalObjectKeys L \<and> array_items v \<le> maximumTotalArrayItems L
    \<and> byteLength (render (json_norm v)) \<le> m \<and> s = render (json_norm v) \<and> bytes = encode_utf8 s"
  using serialize_iff(1)[OF assms, of "(0, 0)" L 0 v]
  by (auto simp: canonicalizeJsonValue_def bindE_Inr_iff Let_def byteLength_def)

lemma canonicalizeMeshJsonBytes_iff:
  "canonicalizeMeshJsonBytes v = Inr bytes \<longleftrightarrow> mesh_ok v \<and> bytes = encode_utf8 (render (json_norm v))"
proof -
  let ?D = DEFAULT_MESH_PROTOCOL_LIMITS
  have limits: "maximumTotalObjectKeys ?D = 2048" "maximumTotalArrayItems ?D = 4096" "maximumEnvelopeBytes ?D = 262144"
    by (simp_all add: DEFAULT_MESH_PROTOCOL_LIMITS_def)
  have "2 \<le> maximumEnvelopeBytes ?D" by (simp add: limits)
  note iff = canonicalizeJsonValue_iff[OF this, of v ?D]
  show ?thesis
    unfolding canonicalizeMeshJsonBytes_def bindE_Inr_iff mesh_ok_def using iff limits by auto
qed

lemma canonicalizeMeshJsonBytes_inject:
  assumes "canonicalizeMeshJsonBytes v = Inr bytes" "canonicalizeMeshJsonBytes w = Inr bytes"
  shows "json_norm v = json_norm w"
proof -
  from assms have "encode_utf8 (render (json_norm v)) = encode_utf8 (render (json_norm w))"
    by (simp add: canonicalizeMeshJsonBytes_iff)
  then have "render (json_norm v) @ [] = render (json_norm w) @ []" using encode_utf8_inject by auto
  then show ?thesis using render_cancel[of "json_norm v" "[]" "json_norm w" "[]"] by (simp add: no_digit_def)
qed

end
