(* ===== verification/MeshTime.thy ===== *)
theory MeshTime
  imports IsoTime
begin

text \<open>
  The timestamps of the mesh protocol (\<open>parseRfc3339\<close> and \<open>compareMeshTimestamps\<close> of
  \<open>packages/mesh-protocol/src/validation.ts\<close>): RFC 3339 with an optional fraction of one to
  nine digits and either \<open>Z\<close> or a numeric offset, read as nanoseconds since 1970. Any failure
  is the one issue \<open>invalid_timestamp\<close>, \<open>None\<close> here.
\<close>

definition daysInMonth :: "int \<Rightarrow> int \<Rightarrow> int" where
  "daysInMonth year month =
     (if month = 2 then
        (if year mod 4 = 0 \<and> (year mod 100 \<noteq> 0 \<or> year mod 400 = 0) then 29 else 28)
      else if month \<in> {4, 6, 9, 11} then 30 else 31)"

text \<open>The fixed part of \<open>rfc3339Pattern\<close>, \<open>dddd-dd-ddTdd:dd:dd\<close>.\<close>

definition rfc3339_shape :: "string \<Rightarrow> bool" where
  "rfc3339_shape s \<longleftrightarrow> 20 \<le> length s
     \<and> list_all is_digit (take 4 s) \<and> s ! 4 = CHR ''-''
     \<and> list_all is_digit (take 2 (drop 5 s)) \<and> s ! 7 = CHR ''-''
     \<and> list_all is_digit (take 2 (drop 8 s)) \<and> s ! 10 = CHR ''T''
     \<and> list_all is_digit (take 2 (drop 11 s)) \<and> s ! 13 = CHR '':''
     \<and> list_all is_digit (take 2 (drop 14 s)) \<and> s ! 16 = CHR '':''
     \<and> list_all is_digit (take 2 (drop 17 s))"

text \<open>The fraction, with its dot, and what follows it.\<close>

definition rfc3339_fraction :: "string \<Rightarrow> (string \<times> string) option" where
  "rfc3339_fraction s = (case s of
       [] \<Rightarrow> None
     | c # rest \<Rightarrow>
         if c \<noteq> CHR ''.'' then Some ([], s)
         else let fraction = takeWhile is_digit rest
           in if 1 \<le> length fraction \<and> length fraction \<le> 9
              then Some (fraction, dropWhile is_digit rest) else None)"

text \<open>The zone, as minutes to subtract.\<close>

definition rfc3339_offset :: "string \<Rightarrow> int option" where
  "rfc3339_offset zone =
     (if zone = ''Z'' then Some 0
      else case zone of
        [sign, h1, h2, colon, m1, m2] \<Rightarrow>
          if sign \<in> {CHR ''+'', CHR ''-''} \<and> colon = CHR '':'' \<and> list_all is_digit [h1, h2, m1, m2]
          then let offsetHours = int (nat_of_digits 0 [h1, h2]); offsetMinute = int (nat_of_digits 0 [m1, m2])
            in if offsetHours > 23 \<or> offsetMinute > 59 then None
               else Some ((offsetHours * 60 + offsetMinute) * (if sign = CHR ''+'' then 1 else -1))
          else None
      | _ \<Rightarrow> None)"

definition parseRfc3339 :: "string \<Rightarrow> int option" where
  "parseRfc3339 s =
     (if \<not> rfc3339_shape s then None
      else case rfc3339_fraction (drop 19 s) of
        None \<Rightarrow> None
      | Some (fractionText, zone) \<Rightarrow>
          let year = field s 0 4; month = field s 5 2; day = field s 8 2;
              hour = field s 11 2; minute = field s 14 2; second = field s 17 2
          in if year < 1970 \<or> month < 1 \<or> month > 12 \<or> day < 1 \<or> day > daysInMonth year month
               \<or> hour > 23 \<or> minute > 59 \<or> second > 59
             then None
             else case rfc3339_offset zone of
               None \<Rightarrow> None
             | Some offsetMinutes \<Rightarrow>
                 let milliseconds = ((days_from_civil year month day * 24 + hour) * 60 + minute) * 60000
                       + second * 1000 - offsetMinutes * 60000;
                     fractionNanoseconds =
                       int (nat_of_digits 0 (fractionText @ replicate (9 - length fractionText) (CHR ''0'')))
                 in Some (milliseconds * 1000000 + fractionNanoseconds))"

definition compareMeshTimestamps :: "string \<Rightarrow> string \<Rightarrow> int option" where
  "compareMeshTimestamps left right =
     (case (parseRfc3339 left, parseRfc3339 right) of
        (Some leftInstant, Some rightInstant) \<Rightarrow>
          Some (if leftInstant < rightInstant then -1 else if leftInstant > rightInstant then 1 else 0)
      | _ \<Rightarrow> None)"

text \<open>
  \<open>Date.parse\<close> of a string that \<open>parseRfc3339\<close> accepts: the same instant, its fraction cut
  to milliseconds. The packages only use it on such strings or reject the others anyway.
\<close>

definition mesh_date_parse :: "string \<Rightarrow> int option" where
  "mesh_date_parse s = map_option (\<lambda>ns. ns div 1000000) (parseRfc3339 s)"

lemma compareMeshTimestamps_iff:
  "compareMeshTimestamps l r = Some n \<longleftrightarrow>
     (\<exists>a b. parseRfc3339 l = Some a \<and> parseRfc3339 r = Some b \<and> n = sgn (a - b))"
  by (auto simp: compareMeshTimestamps_def sgn_if split: option.splits)

lemma compareMeshTimestamps_self: "compareMeshTimestamps s s \<noteq> None \<longleftrightarrow> parseRfc3339 s \<noteq> None"
  by (auto simp: compareMeshTimestamps_def split: option.splits)

end
