(* ===== verification/AgContracts.thy ===== *)
theory AgContracts
  imports MeshJson MeshTime
begin

text \<open>
  The data of the collective agreement protocol
  (\<open>packages/collective-quorum/src/agreement-contracts.ts\<close>) and its JSON. A field that the
  code declares as a literal type and tests at run time (a schema version, a kind) is a value of
  the underlying type here, so that the test is modelled; a test that an object has exactly its
  keys, or that a field has its JavaScript type, holds of a record by construction. The votes of
  a certificate are vote envelopes by type: the code also filters on \<open>payload.type\<close>.
\<close>

subsection \<open>Values, coordinates, memberships\<close>

record agreement_value =
  av_schemaVersion :: int
  av_kind :: string
  av_valueId :: string
  av_previousCommitDigest :: "string option"
  av_payload :: "(string \<times> json) list"
  av_valueDigest :: string

record coordinate =
  co_policyDomainId :: string
  co_slotId :: string
  co_height :: int
  co_round :: int
  co_membershipEpoch :: int
  co_membershipConfigurationDigest :: string

record validator =
  va_peerId :: string
  va_instanceId :: string
  va_keyId :: string

record membership =
  me_schemaVersion :: int
  me_epoch :: int
  me_configurationDigest :: string
  me_faultThreshold :: int
  me_validators :: "validator list"

datatype vote_phase = Prevote | Precommit

subsection \<open>Messages\<close>

record vote_payload =
  vp_coordinate :: coordinate
  vp_phase :: vote_phase
  vp_proposalId :: string
  vp_voterPeerId :: string
  vp_valueDigest :: "string option"
  vp_votedAtLogicalMs :: int

text \<open>An envelope; \<open>en_signature\<close> is \<open>proof.value\<close>, absent from an unsigned one.\<close>

record 'p envelope =
  en_protocol :: string
  en_schemaVersion :: int
  en_messageId :: string
  en_tenantId :: string
  en_meshId :: string
  en_senderPeerId :: string
  en_senderInstanceId :: string
  en_audiencePeerId :: string
  en_issuedAt :: string
  en_expiresAt :: string
  en_payload :: 'p
  en_algorithm :: string
  en_keyId :: string
  en_signature :: "string option"

record vote_certificate =
  vc_schemaVersion :: int
  vc_kind :: string
  vc_phase :: vote_phase
  vc_coordinate :: coordinate
  vc_proposalId :: string
  vc_valueDigest :: "string option"
  vc_votes :: "vote_payload envelope list"
  vc_certificateDigest :: string

record commit_certificate =
  cc_schemaVersion :: int
  cc_kind :: string
  cc_certificateId :: string
  cc_coordinate :: coordinate
  cc_proposalId :: string
  cc_value :: agreement_value
  cc_prevoteCertificate :: vote_certificate
  cc_precommitCertificate :: vote_certificate
  cc_committedAtLogicalMs :: int
  cc_certificateDigest :: string

record proposal_payload =
  pp_proposalId :: string
  pp_coordinate :: coordinate
  pp_proposerPeerId :: string
  pp_value :: agreement_value
  pp_validRound :: "int option"
  pp_justification :: "vote_certificate option"
  pp_proposedAtLogicalMs :: int

record ack_payload =
  ap_requestMessageId :: string
  ap_coordinate :: coordinate
  ap_acknowledgement :: string
  ap_acknowledgedAtLogicalMs :: int

datatype agreement_payload =
    AgreementProposal proposal_payload
  | AgreementVote vote_payload
  | AgreementCertificate vote_certificate int
  | AgreementCommit commit_certificate int
  | AgreementAck ack_payload

record equivocation_proof =
  ep_schemaVersion :: int
  ep_kind :: string
  ep_accusedPeerId :: string
  ep_coordinate :: coordinate
  ep_phase :: vote_phase
  ep_first :: "vote_payload envelope"
  ep_second :: "vote_payload envelope"
  ep_proofDigest :: string

record joint_certificate =
  jc_schemaVersion :: int
  jc_kind :: string
  jc_priorMembership :: membership
  jc_nextMembership :: membership
  jc_priorCertificate :: commit_certificate
  jc_nextCertificate :: commit_certificate
  jc_certificateDigest :: string

record catchup_bundle =
  cb_schemaVersion :: int
  cb_policyDomainId :: string
  cb_slotId :: string
  cb_fromHeightExclusive :: int
  cb_toHeightInclusive :: int
  cb_commits :: "commit_certificate list"
  cb_bundleDigest :: string

text \<open>The same envelope around another payload.\<close>

definition with_payload :: "'p envelope \<Rightarrow> 'q \<Rightarrow> 'q envelope" where
  "with_payload e p = \<lparr>
     en_protocol = en_protocol e, en_schemaVersion = en_schemaVersion e, en_messageId = en_messageId e,
     en_tenantId = en_tenantId e, en_meshId = en_meshId e, en_senderPeerId = en_senderPeerId e,
     en_senderInstanceId = en_senderInstanceId e, en_audiencePeerId = en_audiencePeerId e,
     en_issuedAt = en_issuedAt e, en_expiresAt = en_expiresAt e, en_payload = p,
     en_algorithm = en_algorithm e, en_keyId = en_keyId e, en_signature = en_signature e\<rparr>"

definition vote_message :: "vote_payload envelope \<Rightarrow> agreement_payload envelope" where
  "vote_message v = with_payload v (AgreementVote (en_payload v))"

subsection \<open>JSON\<close>

definition json_nullable :: "string option \<Rightarrow> json" where
  "json_nullable v = (case v of None \<Rightarrow> JNull | Some s \<Rightarrow> JStr s)"

definition agreement_value_body :: "agreement_value \<Rightarrow> (string \<times> json) list" where
  "agreement_value_body v = [
     (''schemaVersion'', JNum (av_schemaVersion v)),
     (''kind'', JStr (av_kind v)),
     (''valueId'', JStr (av_valueId v)),
     (''previousCommitDigest'', json_nullable (av_previousCommitDigest v)),
     (''payload'', JObj (av_payload v))]"

definition agreement_value_json :: "agreement_value \<Rightarrow> json" where
  "agreement_value_json v = JObj (agreement_value_body v @ [(''valueDigest'', JStr (av_valueDigest v))])"

definition coordinate_json :: "coordinate \<Rightarrow> json" where
  "coordinate_json c = JObj [
     (''policyDomainId'', JStr (co_policyDomainId c)),
     (''slotId'', JStr (co_slotId c)),
     (''height'', JNum (co_height c)),
     (''round'', JNum (co_round c)),
     (''membershipEpoch'', JNum (co_membershipEpoch c)),
     (''membershipConfigurationDigest'', JStr (co_membershipConfigurationDigest c))]"

definition validator_json :: "validator \<Rightarrow> json" where
  "validator_json v = JObj [
     (''peerId'', JStr (va_peerId v)),
     (''instanceId'', JStr (va_instanceId v)),
     (''keyId'', JStr (va_keyId v))]"

definition membership_body :: "membership \<Rightarrow> (string \<times> json) list" where
  "membership_body m = [
     (''schemaVersion'', JNum (me_schemaVersion m)),
     (''epoch'', JNum (me_epoch m)),
     (''faultThreshold'', JNum (me_faultThreshold m)),
     (''validators'', JArr (map validator_json (me_validators m)))]"

definition membership_json :: "membership \<Rightarrow> json" where
  "membership_json m =
     JObj (membership_body m @ [(''configurationDigest'', JStr (me_configurationDigest m))])"

fun phase_text :: "vote_phase \<Rightarrow> string" where
  "phase_text Prevote = ''prevote''"
| "phase_text Precommit = ''precommit''"

definition vote_payload_json :: "vote_payload \<Rightarrow> json" where
  "vote_payload_json p = JObj [
     (''type'', JStr ''agreement.vote''),
     (''coordinate'', coordinate_json (vp_coordinate p)),
     (''phase'', JStr (phase_text (vp_phase p))),
     (''proposalId'', JStr (vp_proposalId p)),
     (''voterPeerId'', JStr (vp_voterPeerId p)),
     (''valueDigest'', json_nullable (vp_valueDigest p)),
     (''votedAtLogicalMs'', JNum (vp_votedAtLogicalMs p))]"

definition proof_json :: "'p envelope \<Rightarrow> json" where
  "proof_json e = jobject [
     (''algorithm'', Some (JStr (en_algorithm e))),
     (''keyId'', Some (JStr (en_keyId e))),
     (''value'', map_option JStr (en_signature e))]"

definition envelope_json :: "('p \<Rightarrow> json) \<Rightarrow> 'p envelope \<Rightarrow> json" where
  "envelope_json payload_json e = JObj [
     (''protocol'', JStr (en_protocol e)),
     (''schemaVersion'', JNum (en_schemaVersion e)),
     (''messageId'', JStr (en_messageId e)),
     (''tenantId'', JStr (en_tenantId e)),
     (''meshId'', JStr (en_meshId e)),
     (''senderPeerId'', JStr (en_senderPeerId e)),
     (''senderInstanceId'', JStr (en_senderInstanceId e)),
     (''audiencePeerId'', JStr (en_audiencePeerId e)),
     (''issuedAt'', JStr (en_issuedAt e)),
     (''expiresAt'', JStr (en_expiresAt e)),
     (''payload'', payload_json (en_payload e)),
     (''proof'', proof_json e)]"

definition vote_json :: "vote_payload envelope \<Rightarrow> json" where
  "vote_json = envelope_json vote_payload_json"

definition vote_certificate_body :: "vote_certificate \<Rightarrow> (string \<times> json) list" where
  "vote_certificate_body c = [
     (''schemaVersion'', JNum (vc_schemaVersion c)),
     (''kind'', JStr (vc_kind c)),
     (''phase'', JStr (phase_text (vc_phase c))),
     (''coordinate'', coordinate_json (vc_coordinate c)),
     (''proposalId'', JStr (vc_proposalId c)),
     (''valueDigest'', json_nullable (vc_valueDigest c)),
     (''votes'', JArr (map vote_json (vc_votes c)))]"

definition vote_certificate_json :: "vote_certificate \<Rightarrow> json" where
  "vote_certificate_json c =
     JObj (vote_certificate_body c @ [(''certificateDigest'', JStr (vc_certificateDigest c))])"

definition commit_certificate_body :: "commit_certificate \<Rightarrow> (string \<times> json) list" where
  "commit_certificate_body c = [
     (''schemaVersion'', JNum (cc_schemaVersion c)),
     (''kind'', JStr (cc_kind c)),
     (''coordinate'', coordinate_json (cc_coordinate c)),
     (''proposalId'', JStr (cc_proposalId c)),
     (''value'', agreement_value_json (cc_value c)),
     (''prevoteCertificate'', vote_certificate_json (cc_prevoteCertificate c)),
     (''precommitCertificate'', vote_certificate_json (cc_precommitCertificate c)),
     (''committedAtLogicalMs'', JNum (cc_committedAtLogicalMs c))]"

definition commit_certificate_json :: "commit_certificate \<Rightarrow> json" where
  "commit_certificate_json c = JObj (commit_certificate_body c @ [
     (''certificateId'', JStr (cc_certificateId c)),
     (''certificateDigest'', JStr (cc_certificateDigest c))])"

definition proposal_payload_json :: "proposal_payload \<Rightarrow> json" where
  "proposal_payload_json p = JObj [
     (''type'', JStr ''agreement.proposal''),
     (''proposalId'', JStr (pp_proposalId p)),
     (''coordinate'', coordinate_json (pp_coordinate p)),
     (''proposerPeerId'', JStr (pp_proposerPeerId p)),
     (''value'', agreement_value_json (pp_value p)),
     (''validRound'', case pp_validRound p of None \<Rightarrow> JNull | Some r \<Rightarrow> JNum r),
     (''justification'', case pp_justification p of None \<Rightarrow> JNull | Some c \<Rightarrow> vote_certificate_json c),
     (''proposedAtLogicalMs'', JNum (pp_proposedAtLogicalMs p))]"

definition ack_payload_json :: "ack_payload \<Rightarrow> json" where
  "ack_payload_json p = JObj [
     (''type'', JStr ''agreement.ack''),
     (''requestMessageId'', JStr (ap_requestMessageId p)),
     (''coordinate'', coordinate_json (ap_coordinate p)),
     (''acknowledgement'', JStr (ap_acknowledgement p)),
     (''acknowledgedAtLogicalMs'', JNum (ap_acknowledgedAtLogicalMs p))]"

fun payload_type :: "agreement_payload \<Rightarrow> string" where
  "payload_type (AgreementProposal p) = ''agreement.proposal''"
| "payload_type (AgreementVote p) = ''agreement.vote''"
| "payload_type (AgreementCertificate c t) = ''agreement.certificate''"
| "payload_type (AgreementCommit c t) = ''agreement.commit''"
| "payload_type (AgreementAck p) = ''agreement.ack''"

fun payload_json :: "agreement_payload \<Rightarrow> json" where
  "payload_json (AgreementProposal p) = proposal_payload_json p"
| "payload_json (AgreementVote p) = vote_payload_json p"
| "payload_json (AgreementCertificate c t) = JObj [
     (''type'', JStr ''agreement.certificate''),
     (''certificate'', vote_certificate_json c),
     (''deliveredAtLogicalMs'', JNum t)]"
| "payload_json (AgreementCommit c t) = JObj [
     (''type'', JStr ''agreement.commit''),
     (''certificate'', commit_certificate_json c),
     (''deliveredAtLogicalMs'', JNum t)]"
| "payload_json (AgreementAck p) = ack_payload_json p"

definition message_json :: "agreement_payload envelope \<Rightarrow> json" where
  "message_json = envelope_json payload_json"

definition equivocation_proof_body :: "equivocation_proof \<Rightarrow> (string \<times> json) list" where
  "equivocation_proof_body p = [
     (''schemaVersion'', JNum (ep_schemaVersion p)),
     (''kind'', JStr (ep_kind p)),
     (''accusedPeerId'', JStr (ep_accusedPeerId p)),
     (''coordinate'', coordinate_json (ep_coordinate p)),
     (''phase'', JStr (phase_text (ep_phase p))),
     (''first'', vote_json (ep_first p)),
     (''second'', vote_json (ep_second p))]"

definition joint_certificate_body :: "joint_certificate \<Rightarrow> (string \<times> json) list" where
  "joint_certificate_body c = [
     (''schemaVersion'', JNum (jc_schemaVersion c)),
     (''kind'', JStr (jc_kind c)),
     (''priorMembership'', membership_json (jc_priorMembership c)),
     (''nextMembership'', membership_json (jc_nextMembership c)),
     (''priorCertificate'', commit_certificate_json (jc_priorCertificate c)),
     (''nextCertificate'', commit_certificate_json (jc_nextCertificate c))]"

definition catchup_bundle_body :: "catchup_bundle \<Rightarrow> (string \<times> json) list" where
  "catchup_bundle_body b = [
     (''schemaVersion'', JNum (cb_schemaVersion b)),
     (''policyDomainId'', JStr (cb_policyDomainId b)),
     (''slotId'', JStr (cb_slotId b)),
     (''fromHeightExclusive'', JNum (cb_fromHeightExclusive b)),
     (''toHeightInclusive'', JNum (cb_toHeightInclusive b)),
     (''commits'', JArr (map commit_certificate_json (cb_commits b)))]"

lemma vote_message_simps [simp]:
  "en_senderPeerId (vote_message v) = en_senderPeerId v"
  "en_senderInstanceId (vote_message v) = en_senderInstanceId v"
  "en_keyId (vote_message v) = en_keyId v"
  "en_payload (vote_message v) = AgreementVote (en_payload v)"
  "en_issuedAt (vote_message v) = en_issuedAt v"
  "en_expiresAt (vote_message v) = en_expiresAt v"
  "en_audiencePeerId (vote_message v) = en_audiencePeerId v"
  by (simp_all add: vote_message_def with_payload_def)

lemma vote_message_inject [simp]: "vote_message v = vote_message w \<longleftrightarrow> v = w"
  by (cases v; cases w) (auto simp: vote_message_def with_payload_def)

lemma message_json_vote: "message_json (vote_message v) = vote_json v"
  by (simp add: message_json_def vote_json_def envelope_json_def vote_message_def with_payload_def proof_json_def)

end
