(* ===== verification/AgCodec.thy ===== *)
theory AgCodec
  imports AgContracts
begin

text \<open>
  \<open>packages/collective-quorum/src/agreement-codec.ts\<close> and \<open>agreement-messages.ts\<close>:
  the digest, the validation of values, memberships and messages, the signing and the verification
  of envelopes. The platform's cryptography and the key resolver are parameters: a
  \<open>platform\<close> has the digest, sign and verify operations of a Web Crypto \<open>Crypto\<close> over
  byte lists (\<open>None\<close> when the call is rejected) and the collation of \<open>localeCompare\<close>. A
  validation that returns its argument or \<open>null\<close> is an option; freezing an object does not
  change its value.
\<close>

subsection \<open>What the runtime supplies\<close>

record 'k platform =
  pl_digest :: "int list \<Rightarrow> int list option"
  pl_sign :: "'k \<Rightarrow> int list \<Rightarrow> int list option"
  pl_verify :: "'k \<Rightarrow> int list \<Rightarrow> int list \<Rightarrow> bool option"
  pl_localeCompare :: "string \<Rightarrow> string \<Rightarrow> int"

record 'k crypto_key =
  ck_type :: string
  ck_algorithm :: string
  ck_usages :: "string list"
  ck_handle :: 'k

record 'k mesh_key =
  mk_peerId :: string
  mk_keyId :: string
  mk_algorithm :: string
  mk_status :: string
  mk_revokedAt :: "string option"
  mk_validFrom :: string
  mk_validUntil :: string
  mk_publicKey :: "'k crypto_key"

text \<open>\<open>resolve\<close> on tenant, mesh, peer, key and algorithm; \<open>None\<close> when it has no key or throws.\<close>

type_synonym 'k resolver = "string \<Rightarrow> string \<Rightarrow> string \<Rightarrow> string \<Rightarrow> string \<Rightarrow> 'k mesh_key option"

definition codec_error :: "string \<Rightarrow> 'a res" where
  "codec_error code = Inl (CollectiveAgreementCodecErrorV1 code)"

lemma codec_error_not_Inr [simp]: "codec_error e \<noteq> Inr x" "Inr x \<noteq> codec_error e"
  by (simp_all add: codec_error_def)

definition MESH_SIGNATURE_ALGORITHM :: string where
  "MESH_SIGNATURE_ALGORITHM = ''Ed25519''"

definition COLLECTIVE_AGREEMENT_PROTOCOL_V1 :: string where
  "COLLECTIVE_AGREEMENT_PROTOCOL_V1 = ''agentplat.collective-agreement''"

definition COLLECTIVE_AGREEMENT_SCHEMA_VERSION_V1 :: int where
  "COLLECTIVE_AGREEMENT_SCHEMA_VERSION_V1 = 1"

definition MAXIMUM_BYTES :: nat where
  "MAXIMUM_BYTES = 1048576"

subsection \<open>Field checks\<close>

definition is_alnum :: "char \<Rightarrow> bool" where
  "is_alnum c \<longleftrightarrow> (let n = (of_char c :: nat) in
     (48 \<le> n \<and> n \<le> 57) \<or> (65 \<le> n \<and> n \<le> 90) \<or> (97 \<le> n \<and> n \<le> 122))"

text \<open>The regular expressions \<open>IDENTIFIER\<close>, \<open>DIGEST\<close> and \<open>SIGNATURE\<close>.\<close>

definition is_identifier :: "string \<Rightarrow> bool" where
  "is_identifier s \<longleftrightarrow> (case s of [] \<Rightarrow> False
     | c # rest \<Rightarrow> is_alnum c \<and> length rest \<le> 255
         \<and> list_all (\<lambda>c. is_alnum c \<or> c \<in> set ''._:@/+-='') rest)"

definition digest_text :: "string \<Rightarrow> bool" where
  "digest_text v \<longleftrightarrow> take 7 v = ''sha256:'' \<and> length v = 71 \<and> list_all lower_hex (drop 7 v)"

definition base64url_char :: "char \<Rightarrow> bool" where
  "base64url_char c \<longleftrightarrow> is_alnum c \<or> c = CHR ''_'' \<or> c = CHR ''-''"

definition signature_text :: "string \<Rightarrow> bool" where
  "signature_text s \<longleftrightarrow> length s = 86 \<and> list_all base64url_char s"

definition ag_positive :: "int \<Rightarrow> bool" where
  "ag_positive n \<longleftrightarrow> isSafeInteger n \<and> 0 < n"

definition ag_nonnegative :: "int \<Rightarrow> bool" where
  "ag_nonnegative n \<longleftrightarrow> isSafeInteger n \<and> 0 \<le> n"

definition logical :: "int \<Rightarrow> bool" where
  "logical n \<longleftrightarrow> ag_nonnegative n"

definition mesh_timestamp :: "string \<Rightarrow> bool" where
  "mesh_timestamp v \<longleftrightarrow> compareMeshTimestamps v v \<noteq> None"

definition null_or :: "('a \<Rightarrow> bool) \<Rightarrow> 'a option \<Rightarrow> bool" where
  "null_or p v \<longleftrightarrow> (case v of None \<Rightarrow> True | Some x \<Rightarrow> p x)"

definition valid_coordinate :: "coordinate \<Rightarrow> bool" where
  "valid_coordinate c \<longleftrightarrow>
     is_identifier (co_policyDomainId c) \<and> is_identifier (co_slotId c)
     \<and> ag_positive (co_height c) \<and> ag_nonnegative (co_round c)
     \<and> ag_positive (co_membershipEpoch c) \<and> digest_text (co_membershipConfigurationDigest c)"

definition sameCollectiveAgreementCoordinateV1 :: "coordinate \<Rightarrow> coordinate \<Rightarrow> bool" where
  "sameCollectiveAgreementCoordinateV1 left right \<longleftrightarrow>
     co_policyDomainId left = co_policyDomainId right
     \<and> co_slotId left = co_slotId right
     \<and> co_height left = co_height right
     \<and> co_round left = co_round right
     \<and> co_membershipEpoch left = co_membershipEpoch right
     \<and> co_membershipConfigurationDigest left = co_membershipConfigurationDigest right"

subsection \<open>Base64url\<close>

text \<open>\<open>btoa\<close> without padding, on the URL alphabet: three bytes make four characters.\<close>

definition base64url_alphabet :: string where
  "base64url_alphabet = ''ABCDEFGHIJKLMNOPQRSTUVWXYZabcdefghijklmnopqrstuvwxyz0123456789-_''"

definition sextet :: "int \<Rightarrow> char" where
  "sextet n = base64url_alphabet ! nat (n mod 64)"

fun encodeBase64Url :: "int list \<Rightarrow> string" where
  "encodeBase64Url [] = []"
| "encodeBase64Url [a] = [sextet (a div 4), sextet (a mod 4 * 16)]"
| "encodeBase64Url [a, b] = [sextet (a div 4), sextet (a mod 4 * 16 + b div 16), sextet (b mod 16 * 4)]"
| "encodeBase64Url (a # b # c # rest) =
     sextet (a div 4) # sextet (a mod 4 * 16 + b div 16) # sextet (b mod 16 * 4 + c div 64) # sextet (c mod 64)
       # encodeBase64Url rest"

definition sextet_value :: "char \<Rightarrow> int" where
  "sextet_value c = (let n = of_char c in
     if 65 \<le> n \<and> n \<le> 90 then n - 65
     else if 97 \<le> n \<and> n \<le> 122 then n - 71
     else if 48 \<le> n \<and> n \<le> 57 then n + 4
     else if n = 45 then 62 else 63)"

text \<open>\<open>atob\<close>: a single trailing character is an error, the spare bits of the last one are dropped.\<close>

fun base64url_bytes :: "string \<Rightarrow> int list option" where
  "base64url_bytes [] = Some []"
| "base64url_bytes [a] = None"
| "base64url_bytes [a, b] = Some [sextet_value a * 4 + sextet_value b div 16]"
| "base64url_bytes [a, b, c] = Some [sextet_value a * 4 + sextet_value b div 16,
     sextet_value b mod 16 * 16 + sextet_value c div 4]"
| "base64url_bytes (a # b # c # d # rest) = map_option (\<lambda>bs.
     (sextet_value a * 4 + sextet_value b div 16) # (sextet_value b mod 16 * 16 + sextet_value c div 4)
       # (sextet_value c mod 4 * 64 + sextet_value d) # bs) (base64url_bytes rest)"

definition decodeBase64Url :: "string \<Rightarrow> int list option" where
  "decodeBase64Url v = (if v = [] \<or> \<not> list_all base64url_char v then None else base64url_bytes v)"

subsection \<open>Digests\<close>

definition canonicalBytes :: "json \<Rightarrow> int list res" where
  "canonicalBytes v = (case canonicalizeMeshJsonBytes v of
     Inl _ \<Rightarrow> codec_error ''invalid_value'' | Inr bytes \<Rightarrow> Inr bytes)"

definition toHex :: "int list \<Rightarrow> string" where
  "toHex bytes = concat (map (\<lambda>b. [hex_digit (b div 16), hex_digit (b mod 16)]) bytes)"

definition collectiveAgreementDigestV1 :: "'k platform \<Rightarrow> json \<Rightarrow> string res" where
  "collectiveAgreementDigestV1 P v =
     bindE (canonicalBytes v) (\<lambda>bytes.
       case pl_digest P bytes of
         None \<Rightarrow> codec_error ''crypto_operation_failed''
       | Some d \<Rightarrow> Inr (''sha256:'' @ toHex d))"

subsection \<open>Values\<close>

definition agreement_value_kinds :: "string list" where
  "agreement_value_kinds = [''application'', ''assignment_confirmation'', ''recovery_selection'',
     ''planning_slot_head'', ''role_reconfiguration'', ''trust_decision'', ''synchronization_watermark'',
     ''membership_reconfiguration'']"

definition validateCollectiveAgreementValueV1 :: "'k platform \<Rightarrow> agreement_value \<Rightarrow> agreement_value option" where
  "validateCollectiveAgreementValueV1 P v =
     (if av_schemaVersion v \<noteq> 1 \<or> av_kind v \<notin> set agreement_value_kinds \<or> \<not> is_identifier (av_valueId v)
        \<or> \<not> null_or digest_text (av_previousCommitDigest v) \<or> \<not> digest_text (av_valueDigest v)
      then None
      else case collectiveAgreementDigestV1 P (JObj (agreement_value_body v)) of
        Inl _ \<Rightarrow> None
      | Inr d \<Rightarrow>
          if d \<noteq> av_valueDigest v then None
          else case canonicalBytes (agreement_value_json v) of Inl _ \<Rightarrow> None | Inr _ \<Rightarrow> Some v)"

definition createCollectiveAgreementValueV1 ::
  "'k platform \<Rightarrow> string \<Rightarrow> string \<Rightarrow> string option \<Rightarrow> (string \<times> json) list \<Rightarrow> agreement_value res" where
  "createCollectiveAgreementValueV1 P kind valueId previousCommitDigest payload =
     (let body = \<lparr>av_schemaVersion = 1, av_kind = kind, av_valueId = valueId,
            av_previousCommitDigest = previousCommitDigest, av_payload = payload, av_valueDigest = []\<rparr>
      in bindE (collectiveAgreementDigestV1 P (JObj (agreement_value_body body))) (\<lambda>d.
         case validateCollectiveAgreementValueV1 P (body\<lparr>av_valueDigest := d\<rparr>) of
           None \<Rightarrow> codec_error ''invalid_value''
         | Some v \<Rightarrow> Inr v))"

subsection \<open>Memberships\<close>

text \<open>Adjacent peer identifiers increase strictly, by code unit.\<close>

fun increasing :: "string list \<Rightarrow> bool" where
  "increasing (x # y # zs) \<longleftrightarrow> x < y \<and> increasing (y # zs)"
| "increasing _ \<longleftrightarrow> True"

definition validateCollectiveAgreementMembershipV1 :: "'k platform \<Rightarrow> membership \<Rightarrow> membership option" where
  "validateCollectiveAgreementMembershipV1 P m =
     (if me_schemaVersion m \<noteq> 1 \<or> \<not> ag_positive (me_epoch m) \<or> \<not> ag_nonnegative (me_faultThreshold m)
        \<or> \<not> digest_text (me_configurationDigest m)
        \<or> length (me_validators m) < 4 \<or> length (me_validators m) > 128
        \<or> int (length (me_validators m)) \<noteq> 3 * me_faultThreshold m + 1
      then None
      else if list_ex (\<lambda>v. \<not> is_identifier (va_peerId v) \<or> \<not> is_identifier (va_instanceId v)
                \<or> \<not> is_identifier (va_keyId v)) (me_validators m)
        \<or> \<not> increasing (map va_peerId (me_validators m))
      then None
      else case collectiveAgreementDigestV1 P (JObj (membership_body m)) of
        Inl _ \<Rightarrow> None
      | Inr d \<Rightarrow> if d \<noteq> me_configurationDigest m then None else Some m)"

definition createCollectiveAgreementMembershipV1 ::
  "'k platform \<Rightarrow> int \<Rightarrow> int \<Rightarrow> validator list \<Rightarrow> membership res" where
  "createCollectiveAgreementMembershipV1 P epoch faultThreshold validators =
     (let core = \<lparr>me_schemaVersion = 1, me_epoch = epoch, me_configurationDigest = [],
            me_faultThreshold = faultThreshold,
            me_validators = js_sort (\<lambda>l r. pl_localeCompare P (va_peerId l) (va_peerId r)) validators\<rparr>
      in bindE (collectiveAgreementDigestV1 P (JObj (membership_body core))) (\<lambda>d.
         case validateCollectiveAgreementMembershipV1 P (core\<lparr>me_configurationDigest := d\<rparr>) of
           None \<Rightarrow> codec_error ''invalid_value''
         | Some m \<Rightarrow> Inr m))"

definition collectiveAgreementQuorumThresholdV1 :: "membership \<Rightarrow> int" where
  "collectiveAgreementQuorumThresholdV1 m = 2 * me_faultThreshold m + 1"

definition collectiveAgreementProposerV1 :: "membership \<Rightarrow> int \<Rightarrow> int \<Rightarrow> string res" where
  "collectiveAgreementProposerV1 m height r =
     (if \<not> ag_positive height \<or> \<not> ag_nonnegative r then Inl (RangeError ''height or round is invalid'')
      else if me_validators m = [] then Inl (TypeError ''undefined'')
      else Inr (va_peerId (me_validators m ! nat ((height - 1 + r) mod int (length (me_validators m))))))"

subsection \<open>Certificates and payloads\<close>

definition validateCollectiveAgreementVoteCertificateShapeV1 :: "vote_certificate \<Rightarrow> vote_certificate option" where
  "validateCollectiveAgreementVoteCertificateShapeV1 c =
     (if vc_schemaVersion c \<noteq> 1 \<or> vc_kind c \<noteq> ''vote_certificate'' \<or> \<not> valid_coordinate (vc_coordinate c)
        \<or> \<not> is_identifier (vc_proposalId c) \<or> \<not> null_or digest_text (vc_valueDigest c)
        \<or> length (vc_votes c) < 1 \<or> length (vc_votes c) > 128 \<or> \<not> digest_text (vc_certificateDigest c)
      then None else Some c)"

definition validateCollectiveAgreementCommitCertificateShapeV1 ::
  "'k platform \<Rightarrow> commit_certificate \<Rightarrow> commit_certificate option" where
  "validateCollectiveAgreementCommitCertificateShapeV1 P c =
     (if cc_schemaVersion c \<noteq> 1 \<or> cc_kind c \<noteq> ''commit_certificate'' \<or> \<not> is_identifier (cc_certificateId c)
        \<or> \<not> valid_coordinate (cc_coordinate c) \<or> \<not> is_identifier (cc_proposalId c)
        \<or> \<not> logical (cc_committedAtLogicalMs c) \<or> \<not> digest_text (cc_certificateDigest c)
        \<or> validateCollectiveAgreementVoteCertificateShapeV1 (cc_prevoteCertificate c) = None
        \<or> validateCollectiveAgreementVoteCertificateShapeV1 (cc_precommitCertificate c) = None
        \<or> validateCollectiveAgreementValueV1 P (cc_value c) = None
      then None else Some c)"

fun validateCollectiveAgreementPayloadV1 :: "'k platform \<Rightarrow> agreement_payload \<Rightarrow> agreement_payload option" where
  "validateCollectiveAgreementPayloadV1 P (AgreementProposal p) =
     (if \<not> is_identifier (pp_proposalId p) \<or> \<not> is_identifier (pp_proposerPeerId p)
        \<or> \<not> logical (pp_proposedAtLogicalMs p) \<or> \<not> null_or ag_nonnegative (pp_validRound p)
        \<or> \<not> valid_coordinate (pp_coordinate p)
      then None
      else case validateCollectiveAgreementValueV1 P (pp_value p) of
        None \<Rightarrow> None
      | Some v \<Rightarrow>
          (case pp_justification p of
             None \<Rightarrow> if pp_validRound p \<noteq> None then None else Some (AgreementProposal p)
           | Some c \<Rightarrow>
               case validateCollectiveAgreementVoteCertificateShapeV1 c of
                 None \<Rightarrow> None
               | Some justification \<Rightarrow>
                   if pp_validRound p \<noteq> Some (co_round (vc_coordinate justification))
                     \<or> vc_phase justification \<noteq> Prevote
                     \<or> vc_valueDigest justification \<noteq> Some (av_valueDigest v)
                   then None else Some (AgreementProposal p)))"
| "validateCollectiveAgreementPayloadV1 P (AgreementVote p) =
     (if \<not> valid_coordinate (vp_coordinate p) \<or> \<not> is_identifier (vp_proposalId p)
        \<or> \<not> is_identifier (vp_voterPeerId p) \<or> \<not> null_or digest_text (vp_valueDigest p)
        \<or> \<not> logical (vp_votedAtLogicalMs p)
      then None else Some (AgreementVote p))"
| "validateCollectiveAgreementPayloadV1 P (AgreementCertificate c t) =
     (if \<not> logical t \<or> validateCollectiveAgreementVoteCertificateShapeV1 c = None
      then None else Some (AgreementCertificate c t))"
| "validateCollectiveAgreementPayloadV1 P (AgreementCommit c t) =
     (if \<not> logical t \<or> validateCollectiveAgreementCommitCertificateShapeV1 P c = None
      then None else Some (AgreementCommit c t))"
| "validateCollectiveAgreementPayloadV1 P (AgreementAck p) =
     (if ap_acknowledgement p \<noteq> ''commit_stored'' \<or> \<not> is_identifier (ap_requestMessageId p)
        \<or> \<not> valid_coordinate (ap_coordinate p) \<or> \<not> logical (ap_acknowledgedAtLogicalMs p)
      then None else Some (AgreementAck p))"

subsection \<open>Envelopes\<close>

text \<open>\<open>envelope\<close>: \<open>proof\<close> has a value exactly when the envelope is to be signed.\<close>

definition validate_envelope ::
  "'k platform \<Rightarrow> bool \<Rightarrow> agreement_payload envelope \<Rightarrow> agreement_payload envelope option" where
  "validate_envelope P is_signed e =
     (if en_protocol e \<noteq> COLLECTIVE_AGREEMENT_PROTOCOL_V1
        \<or> en_schemaVersion e \<noteq> COLLECTIVE_AGREEMENT_SCHEMA_VERSION_V1
        \<or> \<not> is_identifier (en_messageId e) \<or> \<not> is_identifier (en_tenantId e)
        \<or> \<not> is_identifier (en_meshId e) \<or> \<not> is_identifier (en_senderPeerId e)
        \<or> \<not> is_identifier (en_senderInstanceId e) \<or> \<not> is_identifier (en_audiencePeerId e)
        \<or> \<not> mesh_timestamp (en_issuedAt e) \<or> \<not> mesh_timestamp (en_expiresAt e)
        \<or> (en_signature e \<noteq> None) \<noteq> is_signed
        \<or> en_algorithm e \<noteq> MESH_SIGNATURE_ALGORITHM \<or> \<not> is_identifier (en_keyId e)
        \<or> is_signed \<and> \<not> signature_text (the (en_signature e))
      then None
      else case compareMeshTimestamps (en_issuedAt e) (en_expiresAt e) of
        None \<Rightarrow> None
      | Some order \<Rightarrow>
          if order \<ge> 0 then None
          else case validateCollectiveAgreementPayloadV1 P (en_payload e) of
            None \<Rightarrow> None
          | Some payload \<Rightarrow>
              let value = e\<lparr>en_payload := payload\<rparr>
              in case canonicalBytes (message_json value) of
                Inl _ \<Rightarrow> None
              | Inr bytes \<Rightarrow> if length bytes > MAXIMUM_BYTES then None else Some value)"

definition ed25519 :: "'k crypto_key \<Rightarrow> string \<Rightarrow> string \<Rightarrow> bool" where
  "ed25519 key type usage \<longleftrightarrow>
     ck_type key = type \<and> ck_algorithm key = MESH_SIGNATURE_ALGORITHM \<and> usage \<in> set (ck_usages key)"

definition signCollectiveAgreementEnvelopeV1 ::
  "'k platform \<Rightarrow> agreement_payload envelope \<Rightarrow> 'k crypto_key \<Rightarrow> agreement_payload envelope res" where
  "signCollectiveAgreementEnvelopeV1 P e privateKey =
     (case validate_envelope P False e of
        None \<Rightarrow> codec_error ''invalid_envelope''
      | Some envelope \<Rightarrow>
          if \<not> ed25519 privateKey ''private'' ''sign'' then codec_error ''invalid_private_key''
          else bindE (canonicalBytes (message_json envelope)) (\<lambda>bytes.
            case pl_sign P (ck_handle privateKey) bytes of
              None \<Rightarrow> codec_error ''crypto_operation_failed''
            | Some signature \<Rightarrow>
                (case validate_envelope P True (envelope\<lparr>en_signature := Some (encodeBase64Url signature)\<rparr>) of
                   None \<Rightarrow> codec_error ''invalid_envelope''
                 | Some valid \<Rightarrow> Inr valid)))"

definition within :: "string \<Rightarrow> string \<Rightarrow> string \<Rightarrow> bool" where
  "within at from until \<longleftrightarrow>
     (case (compareMeshTimestamps at from, compareMeshTimestamps at until) of
        (Some lower, Some upper) \<Rightarrow> lower \<ge> 0 \<and> upper < 0
      | _ \<Rightarrow> False)"

text \<open>\<open>keyUsableWhenSigned\<close> and \<open>keyUsableAtVerification\<close> are one function of an instant.\<close>

definition key_usable_at :: "'k mesh_key \<Rightarrow> string \<Rightarrow> bool" where
  "key_usable_at key at \<longleftrightarrow>
     (if mk_status key = ''active'' then True
      else if mk_status key \<noteq> ''revoked'' \<or> \<not> truthy (mk_revokedAt key) then False
      else case compareMeshTimestamps at (the (mk_revokedAt key)) of
        None \<Rightarrow> False | Some beforeRevocation \<Rightarrow> beforeRevocation < 0)"

definition key_of :: "'k resolver \<Rightarrow> 'p envelope \<Rightarrow> 'k mesh_key option" where
  "key_of resolve e = resolve (en_tenantId e) (en_meshId e) (en_senderPeerId e) (en_keyId e) (en_algorithm e)"

definition verifyCollectiveAgreementEnvelopeV1 ::
  "'k platform \<Rightarrow> 'k resolver \<Rightarrow> string \<Rightarrow> agreement_payload envelope \<Rightarrow> agreement_payload envelope option" where
  "verifyCollectiveAgreementEnvelopeV1 P resolve verifiedAt candidate =
     (case validate_envelope P True candidate of
        None \<Rightarrow> None
      | Some envelope \<Rightarrow>
          if \<not> mesh_timestamp verifiedAt then None
          else case key_of resolve envelope of
            None \<Rightarrow> None
          | Some key \<Rightarrow>
              if \<not> key_usable_at key (en_issuedAt envelope)
                \<or> mk_peerId key \<noteq> en_senderPeerId envelope
                \<or> mk_keyId key \<noteq> en_keyId envelope
                \<or> mk_algorithm key \<noteq> MESH_SIGNATURE_ALGORITHM
                \<or> \<not> ed25519 (mk_publicKey key) ''public'' ''verify''
                \<or> \<not> within (en_issuedAt envelope) (mk_validFrom key) (mk_validUntil key)
              then None
              else case decodeBase64Url (the (en_signature envelope)) of
                None \<Rightarrow> None
              | Some signature \<Rightarrow>
                  if length signature \<noteq> 64 then None
                  else case canonicalBytes (message_json (envelope\<lparr>en_signature := None\<rparr>)) of
                    Inl _ \<Rightarrow> None
                  | Inr bytes \<Rightarrow>
                      case pl_verify P (ck_handle (mk_publicKey key)) signature bytes of
                        None \<Rightarrow> None
                      | Some ok \<Rightarrow> if ok then Some envelope else None)"

definition collectiveAgreementEnvelopeIsFreshV1 :: "'p envelope \<Rightarrow> string \<Rightarrow> int \<Rightarrow> bool" where
  "collectiveAgreementEnvelopeIsFreshV1 e verifiedAt maximumTtlMs \<longleftrightarrow>
     (case (compareMeshTimestamps verifiedAt (en_issuedAt e), compareMeshTimestamps verifiedAt (en_expiresAt e),
            mesh_date_parse (en_expiresAt e), mesh_date_parse (en_issuedAt e)) of
        (Some afterIssue, Some beforeExpiry, Some expires, Some issued) \<Rightarrow>
          afterIssue \<ge> 0 \<and> beforeExpiry < 0 \<and> expires - issued > 0 \<and> expires - issued \<le> maximumTtlMs
      | _ \<Rightarrow> False)"

definition verifyCollectiveAgreementLiveEnvelopeV1 ::
  "'k platform \<Rightarrow> 'k resolver \<Rightarrow> string \<Rightarrow> int \<Rightarrow> agreement_payload envelope \<Rightarrow> agreement_payload envelope option" where
  "verifyCollectiveAgreementLiveEnvelopeV1 P resolve verifiedAt maximumTtlMs candidate =
     (case verifyCollectiveAgreementEnvelopeV1 P resolve verifiedAt candidate of
        None \<Rightarrow> None
      | Some envelope \<Rightarrow>
          if \<not> collectiveAgreementEnvelopeIsFreshV1 envelope verifiedAt maximumTtlMs then None
          else case key_of resolve envelope of
            None \<Rightarrow> None
          | Some key \<Rightarrow> if key_usable_at key verifiedAt then Some envelope else None)"

subsection \<open>Messages\<close>

record agreement_scope =
  sc_tenantId :: string
  sc_meshId :: string
  sc_peerId :: string
  sc_instanceId :: string

record 'k agreement_signing =
  sg_privateKey :: "'k crypto_key"
  sg_keyId :: string
  sg_algorithm :: string

record clock_reading =
  cl_wallTime :: string
  cl_logicalTimeMs :: int

definition DEFAULT_COLLECTIVE_AGREEMENT_ENVELOPE_TTL_MS_V1 :: int where
  "DEFAULT_COLLECTIVE_AGREEMENT_ENVELOPE_TTL_MS_V1 = 30000"

definition identity_json :: "agreement_payload envelope \<Rightarrow> json" where
  "identity_json e = JObj [
     (''tenantId'', JStr (en_tenantId e)),
     (''meshId'', JStr (en_meshId e)),
     (''senderPeerId'', JStr (en_senderPeerId e)),
     (''senderInstanceId'', JStr (en_senderInstanceId e)),
     (''audiencePeerId'', JStr (en_audiencePeerId e)),
     (''issuedAt'', JStr (en_issuedAt e)),
     (''expiresAt'', JStr (en_expiresAt e)),
     (''payload'', payload_json (en_payload e))]"

text \<open>\<open>digest.slice(7, 47)\<close>, the first forty hexadecimal digits.\<close>

definition digest_slice :: "string \<Rightarrow> string" where
  "digest_slice d = take 40 (drop 7 d)"

definition createSignedCollectiveAgreementEnvelopeV1 ::
  "'k platform \<Rightarrow> agreement_scope \<Rightarrow> 'k agreement_signing \<Rightarrow> string \<Rightarrow> agreement_payload \<Rightarrow> clock_reading
     \<Rightarrow> int option \<Rightarrow> agreement_payload envelope res" where
  "createSignedCollectiveAgreementEnvelopeV1 P scope signing audiencePeerId payload clock maximumEnvelopeTtlMs =
     (let ttl = (case maximumEnvelopeTtlMs of
            None \<Rightarrow> DEFAULT_COLLECTIVE_AGREEMENT_ENVELOPE_TTL_MS_V1 | Some n \<Rightarrow> n)
      in if \<not> isSafeInteger ttl \<or> ttl < 1 \<or> ttl > 300000
         then Inl (RangeError ''maximumEnvelopeTtlMs is out of range'')
         else bindE (case mesh_date_parse (cl_wallTime clock) of
                None \<Rightarrow> Inl (RangeError ''Invalid time value'')
              | Some t \<Rightarrow> toISOString (t + ttl)) (\<lambda>expiresAt.
           let identity = \<lparr>
                 en_protocol = COLLECTIVE_AGREEMENT_PROTOCOL_V1,
                 en_schemaVersion = COLLECTIVE_AGREEMENT_SCHEMA_VERSION_V1,
                 en_messageId = [],
                 en_tenantId = sc_tenantId scope, en_meshId = sc_meshId scope,
                 en_senderPeerId = sc_peerId scope, en_senderInstanceId = sc_instanceId scope,
                 en_audiencePeerId = audiencePeerId,
                 en_issuedAt = cl_wallTime clock, en_expiresAt = expiresAt,
                 en_payload = payload,
                 en_algorithm = sg_algorithm signing, en_keyId = sg_keyId signing, en_signature = None\<rparr>
           in bindE (collectiveAgreementDigestV1 P (identity_json identity)) (\<lambda>digest.
             signCollectiveAgreementEnvelopeV1 P
               (identity\<lparr>en_messageId := ''agreement.'' @ payload_type payload @ ''.'' @ digest_slice digest\<rparr>)
               (sg_privateKey signing))))"

subsection \<open>Facts\<close>

lemma lower_hex_alnum: "lower_hex c \<Longrightarrow> is_alnum c"
proof -
  assume "lower_hex c"
  then have "48 \<le> (of_char c :: int) \<and> (of_char c :: int) \<le> 57 \<or> 97 \<le> (of_char c :: int) \<and> (of_char c :: int) \<le> 102"
    by (simp add: lower_hex_def Let_def)
  moreover have "(of_char c :: int) = int (of_char c)" by (metis of_nat_of_char)
  ultimately show ?thesis by (auto simp: is_alnum_def Let_def)
qed

lemma canonicalBytes_iff:
  "canonicalBytes v = Inr bytes \<longleftrightarrow> mesh_ok v \<and> bytes = encode_utf8 (render (json_norm v))"
  by (auto simp: canonicalBytes_def canonicalizeMeshJsonBytes_iff[symmetric] split: sum.splits)

lemma valid_payload_same: "validateCollectiveAgreementPayloadV1 P p = Some q \<Longrightarrow> q = p"
  by (cases p) (auto split: if_splits option.splits)

lemma valid_envelope_same: "validate_envelope P b e = Some f \<Longrightarrow> f = e"
  by (auto simp: validate_envelope_def Let_def dest!: valid_payload_same split: if_splits option.splits sum.splits)

lemma verified_envelope_same: "verifyCollectiveAgreementEnvelopeV1 P r t e = Some f \<Longrightarrow> f = e"
  by (auto simp: verifyCollectiveAgreementEnvelopeV1_def dest!: valid_envelope_same
      split: if_splits option.splits sum.splits)

lemma live_envelope_verified:
  "verifyCollectiveAgreementLiveEnvelopeV1 P r t ttl e = Some f \<Longrightarrow>
     f = e \<and> verifyCollectiveAgreementEnvelopeV1 P r t e = Some e \<and> collectiveAgreementEnvelopeIsFreshV1 e t ttl"
  by (auto simp: verifyCollectiveAgreementLiveEnvelopeV1_def dest: verified_envelope_same
      split: if_splits option.splits)

lemma valid_value_same: "validateCollectiveAgreementValueV1 P v = Some w \<Longrightarrow> w = v"
  by (auto simp: validateCollectiveAgreementValueV1_def split: if_splits option.splits sum.splits)

lemma valid_membership_same: "validateCollectiveAgreementMembershipV1 P m = Some n \<Longrightarrow> n = m"
  by (auto simp: validateCollectiveAgreementMembershipV1_def split: if_splits option.splits sum.splits)

lemma valid_vote_certificate_same: "validateCollectiveAgreementVoteCertificateShapeV1 c = Some d \<Longrightarrow> d = c"
  by (auto simp: validateCollectiveAgreementVoteCertificateShapeV1_def split: if_splits)

lemma valid_commit_certificate_same: "validateCollectiveAgreementCommitCertificateShapeV1 P c = Some d \<Longrightarrow> d = c"
  by (auto simp: validateCollectiveAgreementCommitCertificateShapeV1_def split: if_splits)

lemma same_coordinate_iff [simp]: "sameCollectiveAgreementCoordinateV1 c d \<longleftrightarrow> c = d"
  by (cases c; cases d) (auto simp: sameCollectiveAgreementCoordinateV1_def)

lemma increasing_sorted: "increasing xs \<Longrightarrow> sorted_wrt (<) xs"
  by (induction xs rule: increasing.induct) (auto intro: less_trans)

lemma valid_membership_facts:
  assumes "validateCollectiveAgreementMembershipV1 P m = Some n"
  shows "distinct (map va_peerId (me_validators m))"
    "int (length (me_validators m)) = 3 * me_faultThreshold m + 1" "0 < me_faultThreshold m"
proof -
  from assms have "increasing (map va_peerId (me_validators m))"
    and l: "int (length (me_validators m)) = 3 * me_faultThreshold m + 1" "4 \<le> length (me_validators m)"
    by (auto simp: validateCollectiveAgreementMembershipV1_def split: if_splits)
  then show "distinct (map va_peerId (me_validators m))"
    using increasing_sorted strict_sorted_iff by blast
  from l show "int (length (me_validators m)) = 3 * me_faultThreshold m + 1" "0 < me_faultThreshold m" by simp_all
qed

end
