(* ===== verification/AgCertificates.thy ===== *)
theory AgCertificates
  imports AgCodec
begin

text \<open>
  \<open>packages/collective-quorum/src/agreement-certificates.ts\<close>: vote certificates, commit
  certificates and equivocation proofs (\<open>AgCatchup\<close> has the rest of the file). A
  function that returns an object or \<open>null\<close>, or throws because a digest cannot be computed, has
  an option under the error sum.
\<close>

subsection \<open>Votes\<close>

definition verify_vote ::
  "'k platform \<Rightarrow> 'k resolver \<Rightarrow> string \<Rightarrow> vote_payload envelope \<Rightarrow> bool" where
  "verify_vote P resolve verifiedAt v \<longleftrightarrow>
     verifyCollectiveAgreementEnvelopeV1 P resolve verifiedAt (vote_message v) \<noteq> None"

definition verify_live_vote ::
  "'k platform \<Rightarrow> 'k resolver \<Rightarrow> string \<Rightarrow> int \<Rightarrow> vote_payload envelope \<Rightarrow> bool" where
  "verify_live_vote P resolve verifiedAt ttl v \<longleftrightarrow>
     verifyCollectiveAgreementLiveEnvelopeV1 P resolve verifiedAt ttl (vote_message v) \<noteq> None"

definition verifyVotes ::
  "'k platform \<Rightarrow> 'k resolver \<Rightarrow> string \<Rightarrow> bool \<Rightarrow> vote_payload envelope list \<Rightarrow> vote_payload envelope list" where
  "verifyVotes P resolve verifiedAt requireFreshVotes votes =
     filter (\<lambda>v. if requireFreshVotes
         then verify_live_vote P resolve verifiedAt 300000 v
           \<and> collectiveAgreementEnvelopeIsFreshV1 v verifiedAt 300000
         else verify_vote P resolve verifiedAt v) votes"

text \<open>The loop over the verified votes; it returns the senders it has seen.\<close>

fun check_votes ::
  "(string \<Rightarrow> validator option) \<Rightarrow> vote_payload \<Rightarrow> string list \<Rightarrow> vote_payload envelope list \<Rightarrow> string list option" where
  "check_votes members first seen [] = Some seen"
| "check_votes members first seen (vote # votes) =
     (case members (en_senderPeerId vote) of
        None \<Rightarrow> None
      | Some validator \<Rightarrow>
          if va_instanceId validator \<noteq> en_senderInstanceId vote
            \<or> va_keyId validator \<noteq> en_keyId vote
            \<or> vp_voterPeerId (en_payload vote) \<noteq> en_senderPeerId vote
            \<or> en_senderPeerId vote \<in> set seen
            \<or> vp_phase (en_payload vote) \<noteq> vp_phase first
            \<or> vp_proposalId (en_payload vote) \<noteq> vp_proposalId first
            \<or> vp_valueDigest (en_payload vote) \<noteq> vp_valueDigest first
            \<or> \<not> sameCollectiveAgreementCoordinateV1 (vp_coordinate (en_payload vote)) (vp_coordinate first)
          then None
          else check_votes members first (en_senderPeerId vote # seen) votes)"

definition member_map :: "membership \<Rightarrow> string \<Rightarrow> validator option" where
  "member_map m = map_of (rev (map (\<lambda>v. (va_peerId v, v)) (me_validators m)))"

definition assembleCollectiveAgreementVoteCertificateV1 ::
  "'k platform \<Rightarrow> 'k resolver \<Rightarrow> string \<Rightarrow> membership \<Rightarrow> vote_payload envelope list \<Rightarrow> bool
     \<Rightarrow> vote_certificate option res" where
  "assembleCollectiveAgreementVoteCertificateV1 P resolve verifiedAt m votes requireFreshVotes =
     (case validateCollectiveAgreementMembershipV1 P m of
        None \<Rightarrow> Inr None
      | Some membership \<Rightarrow>
          if int (length votes) < collectiveAgreementQuorumThresholdV1 membership then Inr None
          else let verified = verifyVotes P resolve verifiedAt requireFreshVotes votes in
            if length verified \<noteq> length votes \<or> length verified = 0 then Inr None
            else let first = en_payload (hd verified) in
              if co_membershipEpoch (vp_coordinate first) \<noteq> me_epoch membership
                \<or> co_membershipConfigurationDigest (vp_coordinate first) \<noteq> me_configurationDigest membership
              then Inr None
              else case check_votes (member_map membership) first [] verified of
                None \<Rightarrow> Inr None
              | Some seen \<Rightarrow>
                  if int (length seen) < collectiveAgreementQuorumThresholdV1 membership then Inr None
                  else let body = \<lparr>vc_schemaVersion = 1, vc_kind = ''vote_certificate'',
                        vc_phase = vp_phase first, vc_coordinate = vp_coordinate first,
                        vc_proposalId = vp_proposalId first, vc_valueDigest = vp_valueDigest first,
                        vc_votes = js_sort
                          (\<lambda>l r. pl_localeCompare P (en_senderPeerId l) (en_senderPeerId r)) verified,
                        vc_certificateDigest = []\<rparr>
                    in bindE (collectiveAgreementDigestV1 P (JObj (vote_certificate_body body))) (\<lambda>d.
                      Inr (validateCollectiveAgreementVoteCertificateShapeV1 (body\<lparr>vc_certificateDigest := d\<rparr>))))"

definition createCollectiveAgreementVoteCertificateV1 ::
  "'k platform \<Rightarrow> 'k resolver \<Rightarrow> string \<Rightarrow> membership \<Rightarrow> vote_payload envelope list \<Rightarrow> vote_certificate option res" where
  "createCollectiveAgreementVoteCertificateV1 P resolve verifiedAt m votes =
     assembleCollectiveAgreementVoteCertificateV1 P resolve verifiedAt m votes True"

text \<open>
  \<open>verifyVoteCertificate\<close>: the votes are assembled again and only the digest of the result is
  compared with the certificate's.
\<close>

definition verifyVoteCertificate ::
  "'k platform \<Rightarrow> 'k resolver \<Rightarrow> string \<Rightarrow> membership \<Rightarrow> bool \<Rightarrow> vote_certificate \<Rightarrow> vote_certificate option res" where
  "verifyVoteCertificate P resolve verifiedAt m requireFreshVotes candidate =
     (case validateCollectiveAgreementVoteCertificateShapeV1 candidate of
        None \<Rightarrow> Inr None
      | Some certificate \<Rightarrow>
          bindE (assembleCollectiveAgreementVoteCertificateV1 P resolve verifiedAt m (vc_votes certificate)
              requireFreshVotes) (\<lambda>recreated.
            Inr (if map_option vc_certificateDigest recreated = Some (vc_certificateDigest certificate)
                 then Some certificate else None)))"

definition verifyCollectiveAgreementVoteCertificateV1 ::
  "'k platform \<Rightarrow> 'k resolver \<Rightarrow> string \<Rightarrow> membership \<Rightarrow> vote_certificate \<Rightarrow> vote_certificate option res" where
  "verifyCollectiveAgreementVoteCertificateV1 P resolve verifiedAt m candidate =
     verifyVoteCertificate P resolve verifiedAt m False candidate"

subsection \<open>Commits\<close>

definition assembleCollectiveAgreementCommitCertificateV1 ::
  "'k platform \<Rightarrow> 'k resolver \<Rightarrow> string \<Rightarrow> membership \<Rightarrow> agreement_value \<Rightarrow> vote_certificate \<Rightarrow> vote_certificate
     \<Rightarrow> int \<Rightarrow> bool \<Rightarrow> commit_certificate option res" where
  "assembleCollectiveAgreementCommitCertificateV1 P resolve verifiedAt m v prevoteCertificate precommitCertificate
     committedAtLogicalMs requireFreshVotes =
     bindE (verifyVoteCertificate P resolve verifiedAt m requireFreshVotes prevoteCertificate) (\<lambda>prevote_or_null.
     bindE (verifyVoteCertificate P resolve verifiedAt m requireFreshVotes precommitCertificate) (\<lambda>precommit_or_null.
       case (validateCollectiveAgreementValueV1 P v, prevote_or_null, precommit_or_null) of
         (Some value, Some prevote, Some precommit) \<Rightarrow>
           if vc_phase prevote \<noteq> Prevote
             \<or> vc_phase precommit \<noteq> Precommit
             \<or> vc_valueDigest prevote \<noteq> Some (av_valueDigest value)
             \<or> vc_valueDigest precommit \<noteq> Some (av_valueDigest value)
             \<or> vc_proposalId prevote \<noteq> vc_proposalId precommit
             \<or> \<not> sameCollectiveAgreementCoordinateV1 (vc_coordinate prevote) (vc_coordinate precommit)
             \<or> \<not> isSafeInteger committedAtLogicalMs
             \<or> committedAtLogicalMs < 0
           then Inr None
           else let body = \<lparr>cc_schemaVersion = 1, cc_kind = ''commit_certificate'', cc_certificateId = [],
                 cc_coordinate = vc_coordinate prevote, cc_proposalId = vc_proposalId prevote,
                 cc_value = value, cc_prevoteCertificate = prevote, cc_precommitCertificate = precommit,
                 cc_committedAtLogicalMs = committedAtLogicalMs, cc_certificateDigest = []\<rparr>
             in bindE (collectiveAgreementDigestV1 P (JObj (commit_certificate_body body))) (\<lambda>d.
               Inr (validateCollectiveAgreementCommitCertificateShapeV1 P
                 (body\<lparr>cc_certificateId := ''agreement.commit.'' @ digest_slice d, cc_certificateDigest := d\<rparr>)))
       | _ \<Rightarrow> Inr None))"

definition createCollectiveAgreementCommitCertificateV1 ::
  "'k platform \<Rightarrow> 'k resolver \<Rightarrow> string \<Rightarrow> membership \<Rightarrow> agreement_value \<Rightarrow> vote_certificate \<Rightarrow> vote_certificate
     \<Rightarrow> int \<Rightarrow> commit_certificate option res" where
  "createCollectiveAgreementCommitCertificateV1 P resolve verifiedAt m v prevote precommit committedAtLogicalMs =
     assembleCollectiveAgreementCommitCertificateV1 P resolve verifiedAt m v prevote precommit
       committedAtLogicalMs True"

definition verifyCollectiveAgreementCommitCertificateV1 ::
  "'k platform \<Rightarrow> 'k resolver \<Rightarrow> string \<Rightarrow> membership \<Rightarrow> commit_certificate \<Rightarrow> commit_certificate option res" where
  "verifyCollectiveAgreementCommitCertificateV1 P resolve verifiedAt m candidate =
     (case validateCollectiveAgreementCommitCertificateShapeV1 P candidate of
        None \<Rightarrow> Inr None
      | Some certificate \<Rightarrow>
          bindE (assembleCollectiveAgreementCommitCertificateV1 P resolve verifiedAt m (cc_value certificate)
              (cc_prevoteCertificate certificate) (cc_precommitCertificate certificate)
              (cc_committedAtLogicalMs certificate) False) (\<lambda>recreated.
            Inr (case recreated of
                   None \<Rightarrow> None
                 | Some r \<Rightarrow>
                     if cc_certificateDigest r = cc_certificateDigest certificate
                       \<and> cc_certificateId r = cc_certificateId certificate
                     then Some certificate else None)))"

subsection \<open>Equivocation\<close>

definition createCollectiveAgreementEquivocationProofV1 ::
  "'k platform \<Rightarrow> vote_payload envelope \<Rightarrow> vote_payload envelope \<Rightarrow> equivocation_proof option res" where
  "createCollectiveAgreementEquivocationProofV1 P first second =
     (if en_senderPeerId first \<noteq> en_senderPeerId second
        \<or> vp_voterPeerId (en_payload first) \<noteq> vp_voterPeerId (en_payload second)
        \<or> vp_phase (en_payload first) \<noteq> vp_phase (en_payload second)
        \<or> \<not> sameCollectiveAgreementCoordinateV1 (vp_coordinate (en_payload first)) (vp_coordinate (en_payload second))
        \<or> vp_valueDigest (en_payload first) = vp_valueDigest (en_payload second)
          \<and> vp_proposalId (en_payload first) = vp_proposalId (en_payload second)
      then Inr None
      else let ordered = js_sort (\<lambda>l r. pl_localeCompare P (en_messageId l) (en_messageId r)) [first, second];
               body = \<lparr>ep_schemaVersion = 1, ep_kind = ''equivocation_proof'',
                 ep_accusedPeerId = en_senderPeerId first,
                 ep_coordinate = vp_coordinate (en_payload first), ep_phase = vp_phase (en_payload first),
                 ep_first = ordered ! 0, ep_second = ordered ! 1, ep_proofDigest = []\<rparr>
        in bindE (collectiveAgreementDigestV1 P (JObj (equivocation_proof_body body))) (\<lambda>d.
             Inr (Some (body\<lparr>ep_proofDigest := d\<rparr>))))"

definition verifyCollectiveAgreementEquivocationProofV1 ::
  "'k platform \<Rightarrow> 'k resolver \<Rightarrow> string \<Rightarrow> equivocation_proof \<Rightarrow> equivocation_proof option res" where
  "verifyCollectiveAgreementEquivocationProofV1 P resolve verifiedAt proof =
     (if ep_schemaVersion proof \<noteq> 1 \<or> ep_kind proof \<noteq> ''equivocation_proof'' then Inr None
      else if \<not> verify_vote P resolve verifiedAt (ep_first proof)
        \<or> \<not> verify_vote P resolve verifiedAt (ep_second proof) then Inr None
      else bindE (createCollectiveAgreementEquivocationProofV1 P (ep_first proof) (ep_second proof)) (\<lambda>recreated.
        Inr (if map_option ep_proofDigest recreated = Some (ep_proofDigest proof) then Some proof else None)))"

end
