(* ===== verification/AgMemory.thy ===== *)
theory AgMemory
  imports AgCertificates
begin

text \<open>
  \<open>InMemoryCollectiveAgreementRepositoryV1\<close> of
  \<open>packages/collective-quorum/src/agreement-memory.ts\<close>: the durable state of one validator.
  Each of its four JavaScript \<open>Map\<close>s is a map here, with the string keys the code builds. The
  methods that write run one at a time (\<open>#exclusive\<close>), so each is one atomic function of the
  repository. The lemmas show what its two promises are: a local vote is never replaced and a
  round never goes back; the commits of a slot form a chain that only grows.
\<close>

subsection \<open>State\<close>

record agreement_state =
  as_highestRound :: int
  as_lockedRound :: "int option"
  as_lockedValueDigest :: "string option"

record repository =
  rp_states :: "string \<rightharpoonup> agreement_state"
  rp_localVotes :: "string \<rightharpoonup> vote_payload envelope"
  rp_observedVotes :: "string \<rightharpoonup> vote_payload envelope"
  rp_commits :: "string \<rightharpoonup> commit_certificate"

definition empty_repository :: repository where
  "empty_repository = \<lparr>rp_states = Map.empty, rp_localVotes = Map.empty, rp_observedVotes = Map.empty,
     rp_commits = Map.empty\<rparr>"

definition stateKey :: "string \<Rightarrow> string \<Rightarrow> int \<Rightarrow> string" where
  "stateKey policyDomainId slotId height = policyDomainId @ CHR 0x00 # slotId @ CHR 0x00 # show_int height"

definition coordinateKey :: "coordinate \<Rightarrow> string" where
  "coordinateKey c = stateKey (co_policyDomainId c) (co_slotId c) (co_height c)"

definition voteKey :: "coordinate \<Rightarrow> vote_phase \<Rightarrow> string \<Rightarrow> string" where
  "voteKey c phase voter =
     coordinateKey c @ CHR 0x00 # show_int (co_round c) @ CHR 0x00 # phase_text phase @ CHR 0x00 # voter"

definition commitKey :: "string \<Rightarrow> string \<Rightarrow> int \<Rightarrow> string" where
  "commitKey policyDomainId slotId height = stateKey policyDomainId slotId height"

subsection \<open>Operations\<close>

definition readState :: "string \<Rightarrow> string \<Rightarrow> int \<Rightarrow> repository \<Rightarrow> agreement_state option" where
  "readState policyDomainId slotId height repo = rp_states repo (stateKey policyDomainId slotId height)"

datatype vote_record_result =
    VoteSigned "vote_payload envelope"
  | VoteDuplicate "vote_payload envelope"
  | VoteConflict "vote_payload envelope"
  | VoteLocked
  | VoteStaleRound

text \<open>
  \<open>create\<close> is the result the callback has when it is called; it is not called on the early
  returns. The new state is stored before the lock is examined.
\<close>

definition recordLocalVote ::
  "coordinate \<Rightarrow> vote_phase \<Rightarrow> string \<Rightarrow> string option \<Rightarrow> int option \<Rightarrow> vote_payload envelope res
     \<Rightarrow> (repository, vote_record_result) comp" where
  "recordLocalVote coordinate phase proposalId valueDigest justifiedRound create repo =
     (let key = voteKey coordinate phase ''local'' in
      case rp_localVotes repo key of
        Some prior \<Rightarrow>
          (Inr (if vp_valueDigest (en_payload prior) = valueDigest \<and> vp_proposalId (en_payload prior) = proposalId
                then VoteDuplicate prior else VoteConflict prior), repo)
      | None \<Rightarrow>
          let stateKeyValue = coordinateKey coordinate;
              state = (case rp_states repo stateKeyValue of
                  Some s \<Rightarrow> s
                | None \<Rightarrow> \<lparr>as_highestRound = co_round coordinate, as_lockedRound = None, as_lockedValueDigest = None\<rparr>)
          in if co_round coordinate < as_highestRound state then (Inr VoteStaleRound, repo)
          else let state = state\<lparr>as_highestRound := co_round coordinate\<rparr>;
                   repo = repo\<lparr>rp_states := (rp_states repo)(stateKeyValue \<mapsto> state)\<rparr>
            in if phase = Prevote \<and> valueDigest \<noteq> None \<and> as_lockedRound state \<noteq> None
                 \<and> as_lockedValueDigest state \<noteq> valueDigest
                 \<and> (justifiedRound = None \<or> the justifiedRound < the (as_lockedRound state))
               then (Inr VoteLocked, repo)
            else if phase = Precommit \<and> (valueDigest = None \<or> justifiedRound \<noteq> Some (co_round coordinate))
               then (Inr VoteLocked, repo)
            else case create of
                Inl e \<Rightarrow> (Inl e, repo)
              | Inr vote \<Rightarrow>
                  if vp_phase (en_payload vote) \<noteq> phase
                    \<or> vp_valueDigest (en_payload vote) \<noteq> valueDigest
                    \<or> vp_proposalId (en_payload vote) \<noteq> proposalId
                  then (Inl (TypeError ''created vote does not match repository intent''), repo)
                  else let repo = repo\<lparr>rp_localVotes := (rp_localVotes repo)(key \<mapsto> vote)\<rparr>
                    in (Inr (VoteSigned vote),
                        if phase = Precommit
                        then repo\<lparr>rp_states := (rp_states repo)(stateKeyValue \<mapsto>
                          state\<lparr>as_lockedRound := Some (co_round coordinate), as_lockedValueDigest := valueDigest\<rparr>)\<rparr>
                        else repo))"

definition observeVote ::
  "'k platform \<Rightarrow> vote_payload envelope \<Rightarrow> (repository, equivocation_proof option) comp" where
  "observeVote P vote repo =
     (let key = voteKey (vp_coordinate (en_payload vote)) (vp_phase (en_payload vote)) (en_senderPeerId vote) in
      case rp_observedVotes repo key of
        None \<Rightarrow> (Inr None, repo\<lparr>rp_observedVotes := (rp_observedVotes repo)(key \<mapsto> vote)\<rparr>)
      | Some prior \<Rightarrow>
          if vp_valueDigest (en_payload prior) = vp_valueDigest (en_payload vote)
            \<and> vp_proposalId (en_payload prior) = vp_proposalId (en_payload vote)
          then (Inr None, repo)
          else (createCollectiveAgreementEquivocationProofV1 P prior vote, repo))"

datatype save_result = SaveStored | SaveDuplicate | SaveConflict | SaveChainGap

definition saveCommit :: "commit_certificate \<Rightarrow> repository \<Rightarrow> save_result \<times> repository" where
  "saveCommit certificate repo =
     (let c = cc_coordinate certificate;
          key = commitKey (co_policyDomainId c) (co_slotId c) (co_height c)
      in case rp_commits repo key of
        Some existing \<Rightarrow>
          (if cc_certificateDigest existing = cc_certificateDigest certificate then SaveDuplicate else SaveConflict,
           repo)
      | None \<Rightarrow>
          let chain_gap =
            (if co_height c = 1 then av_previousCommitDigest (cc_value certificate) \<noteq> None
             else case rp_commits repo (commitKey (co_policyDomainId c) (co_slotId c) (co_height c - 1)) of
               None \<Rightarrow> True
             | Some previous \<Rightarrow>
                 av_previousCommitDigest (cc_value certificate) \<noteq> Some (cc_certificateDigest previous))
          in if chain_gap then (SaveChainGap, repo)
             else (SaveStored, repo\<lparr>rp_commits := (rp_commits repo)(key \<mapsto> certificate)\<rparr>))"

definition getCommit :: "string \<Rightarrow> string \<Rightarrow> int \<Rightarrow> repository \<Rightarrow> commit_certificate option" where
  "getCommit policyDomainId slotId height repo = rp_commits repo (commitKey policyDomainId slotId height)"

fun list_commits :: "string \<Rightarrow> string \<Rightarrow> int \<Rightarrow> nat \<Rightarrow> repository \<Rightarrow> commit_certificate list" where
  "list_commits policyDomainId slotId height 0 repo = []"
| "list_commits policyDomainId slotId height (Suc count) repo =
     (case getCommit policyDomainId slotId height repo of
        None \<Rightarrow> []
      | Some commit \<Rightarrow> commit # list_commits policyDomainId slotId (height + 1) count repo)"

definition listCommits :: "string \<Rightarrow> string \<Rightarrow> int \<Rightarrow> int \<Rightarrow> repository \<Rightarrow> commit_certificate list res" where
  "listCommits policyDomainId slotId fromHeightExclusive maximumCount repo =
     (if \<not> isSafeInteger maximumCount \<or> maximumCount < 1 \<or> maximumCount > 1024
      then Inl (RangeError ''maximumCount is out of range'')
      else Inr (list_commits policyDomainId slotId (fromHeightExclusive + 1) (nat maximumCount) repo))"

subsection \<open>Keys\<close>

definition no_nul :: "string \<Rightarrow> bool" where
  "no_nul s \<longleftrightarrow> CHR 0x00 \<notin> set s"

lemma no_nul_identifier: "is_identifier s \<Longrightarrow> no_nul s"
  by (cases s) (auto simp: is_identifier_def no_nul_def is_alnum_def Let_def list_all_iff)

lemma no_nul_show_int: "no_nul (show_int n)"
proof -
  have "CHR 0x00 \<notin> set (digits_nat k)" for k
    using digits_nat_all[of k] by (auto simp: is_digit_def)
  then show ?thesis by (simp add: no_nul_def show_int_def)
qed

lemma show_int_inject [simp]: "show_int m = show_int n \<longleftrightarrow> m = n"
proof -
  have "hd (digits_nat k) \<noteq> CHR ''-''" for k
    using digits_nat_all[of k] digits_nat_not_Nil[of k] by (cases "digits_nat k") (auto simp: is_digit_def)
  then have "digits_nat k \<noteq> CHR ''-'' # xs" "CHR ''-'' # xs \<noteq> digits_nat k" for k xs by (metis list.sel(1))+
  then show ?thesis by (auto simp: show_int_def)
qed

lemma stateKey_inject:
  assumes "no_nul p" "no_nul p'" "no_nul s" "no_nul s'"
  shows "stateKey p s h = stateKey p' s' h' \<longleftrightarrow> p = p' \<and> s = s' \<and> h = h'"
  using assms separator_cancel[of p "CHR 0x00" "s @ CHR 0x00 # show_int h" p' "s' @ CHR 0x00 # show_int h'"]
    separator_cancel[of s "CHR 0x00" "show_int h" s' "show_int h'"]
  by (auto simp: stateKey_def no_nul_def)

definition keyed :: "coordinate \<Rightarrow> bool" where
  "keyed c \<longleftrightarrow> no_nul (co_policyDomainId c) \<and> no_nul (co_slotId c)"

lemma keyed_valid: "valid_coordinate c \<Longrightarrow> keyed c"
  by (simp add: valid_coordinate_def keyed_def no_nul_identifier)

definition same_height :: "coordinate \<Rightarrow> coordinate \<Rightarrow> bool" where
  "same_height c d \<longleftrightarrow> co_policyDomainId c = co_policyDomainId d \<and> co_slotId c = co_slotId d
     \<and> co_height c = co_height d"

lemma coordinateKey_inject:
  "keyed c \<Longrightarrow> keyed d \<Longrightarrow> coordinateKey c = coordinateKey d \<longleftrightarrow> same_height c d"
  by (simp add: coordinateKey_def keyed_def stateKey_inject same_height_def)

lemma voteKey_inject:
  assumes "keyed c" "keyed d"
  shows "voteKey c ph w = voteKey d ph' w' \<longleftrightarrow> same_height c d \<and> co_round c = co_round d \<and> ph = ph' \<and> w = w'"
proof -
  have 1: "no_nul (show_int n)" for n by (rule no_nul_show_int)
  have 2: "no_nul (phase_text q)" for q by (cases q) (simp_all add: no_nul_def)
  have 3: "phase_text q = phase_text q' \<longleftrightarrow> q = q'" for q q' by (cases q; cases q') simp_all
  have cancel: "a @ CHR 0x00 # b = a' @ CHR 0x00 # b' \<longleftrightarrow> a = a' \<and> b = b'" if "no_nul a" "no_nul a'" for a b a' b'
    using separator_cancel[of a "CHR 0x00" b a' b'] that by (auto simp: no_nul_def)
  show ?thesis
    using assms unfolding voteKey_def coordinateKey_def stateKey_def keyed_def same_height_def
    by (simp add: cancel 1 2 3)
qed

end
