(* ===== verification/AgPeer.thy ===== *)
theory AgPeer
  imports AgMemory
begin

text \<open>
  \<open>CollectiveAgreementPeerV1\<close> of \<open>packages/collective-quorum/src/agreement-peer.ts\<close>: one
  validator handling one message. Its state is its repository and the equivocation proofs it has
  reported. What the embedding application supplies (the key resolver, the membership, semantics
  and readiness ports, the report sink) are fields of the options, functions of the arguments
  they are called with; a port that rejects is an error value. Between two operations on the
  repository nothing is read from it, so a handler that runs to its end in one step has every
  effect an interleaved run can have.
\<close>

record 'k peer_options =
  po_platform :: "'k platform"
  po_scope :: agreement_scope
  po_signing :: "'k agreement_signing"
  po_resolver :: "'k resolver"
  po_membership :: "string \<Rightarrow> int \<Rightarrow> string \<Rightarrow> int \<Rightarrow> membership option res"
  po_semantics :: "coordinate \<Rightarrow> string \<Rightarrow> string \<Rightarrow> agreement_value \<Rightarrow> int \<Rightarrow> bool res"
  po_readiness :: "(string \<Rightarrow> coordinate \<Rightarrow> int \<Rightarrow> bool res) option"
  po_report :: "(equivocation_proof \<Rightarrow> unit res) option"
  po_maximumEnvelopeTtlMs :: "int option"

datatype peer_result =
    PeerAccepted "agreement_payload envelope"
  | PeerRejected string

type_synonym peer_state = "repository \<times> equivocation_proof list"

text \<open>The constructor's check.\<close>

definition peer_ttl :: "'k peer_options \<Rightarrow> int" where
  "peer_ttl o1 = (case po_maximumEnvelopeTtlMs o1 of None \<Rightarrow> 30000 | Some n \<Rightarrow> n)"

definition construct_peer :: "'k peer_options \<Rightarrow> unit res" where
  "construct_peer o1 =
     (if sc_peerId (po_scope o1) = [] then Inl (TypeError ''agreement peer options are required'')
      else if \<not> isSafeInteger (peer_ttl o1) \<or> peer_ttl o1 < 1 \<or> peer_ttl o1 > 300000
      then Inl (RangeError ''maximumEnvelopeTtlMs is out of range'')
      else Inr ())"

definition onRepository :: "(repository, 'a) comp \<Rightarrow> (peer_state, 'a) comp" where
  "onRepository m = (\<lambda>(repo, reports). case m repo of (r, repo') \<Rightarrow> (r, (repo', reports)))"

definition rejected :: "string \<Rightarrow> (peer_state, peer_result) comp" where
  "rejected code = retS (PeerRejected code)"

fun coordinateOf :: "agreement_payload \<Rightarrow> coordinate" where
  "coordinateOf (AgreementProposal p) = pp_coordinate p"
| "coordinateOf (AgreementVote p) = vp_coordinate p"
| "coordinateOf (AgreementCertificate c t) = vc_coordinate c"
| "coordinateOf (AgreementCommit c t) = cc_coordinate c"
| "coordinateOf (AgreementAck p) = ap_coordinate p"

definition memberMatches :: "membership \<Rightarrow> 'p envelope \<Rightarrow> bool" where
  "memberMatches m e =
     (case find (\<lambda>v. va_peerId v = en_senderPeerId e) (me_validators m) of
        None \<Rightarrow> False
      | Some validator \<Rightarrow>
          va_instanceId validator = en_senderInstanceId e \<and> va_keyId validator = en_keyId e)"

definition sameHeightSlot :: "vote_certificate \<Rightarrow> proposal_payload \<Rightarrow> bool" where
  "sameHeightSlot certificate proposal \<longleftrightarrow>
     (let c = vc_coordinate certificate; p = pp_coordinate proposal in
      co_policyDomainId c = co_policyDomainId p \<and> co_slotId c = co_slotId p
      \<and> co_height c = co_height p \<and> co_membershipEpoch c = co_membershipEpoch p
      \<and> co_membershipConfigurationDigest c = co_membershipConfigurationDigest p)"

fun voteResult :: "vote_record_result \<Rightarrow> peer_result" where
  "voteResult (VoteSigned vote) = PeerAccepted (vote_message vote)"
| "voteResult (VoteDuplicate vote) = PeerAccepted (vote_message vote)"
| "voteResult VoteLocked = PeerRejected ''locked''"
| "voteResult VoteStaleRound = PeerRejected ''stale_round''"
| "voteResult (VoteConflict vote) = PeerRejected ''conflicting_vote''"

text \<open>\<open>#vote\<close>: the signed envelope of a vote, as a vote envelope.\<close>

definition peer_vote ::
  "'k peer_options \<Rightarrow> vote_payload \<Rightarrow> string \<Rightarrow> clock_reading \<Rightarrow> vote_payload envelope res" where
  "peer_vote o1 payload audiencePeerId now =
     bindE (createSignedCollectiveAgreementEnvelopeV1 (po_platform o1) (po_scope o1) (po_signing o1)
         audiencePeerId (AgreementVote payload) now (Some (peer_ttl o1)))
       (\<lambda>e. Inr (with_payload e payload))"

definition ready :: "'k peer_options \<Rightarrow> string \<Rightarrow> coordinate \<Rightarrow> int \<Rightarrow> bool res" where
  "ready o1 operation coordinate logicalTimeMs =
     (case po_readiness o1 of None \<Rightarrow> Inr True | Some check \<Rightarrow> check operation coordinate logicalTimeMs)"

definition report_proof :: "'k peer_options \<Rightarrow> equivocation_proof \<Rightarrow> (peer_state, unit) comp" where
  "report_proof o1 proof =
     (case po_report o1 of
        None \<Rightarrow> retS ()
      | Some report \<Rightarrow> (\<lambda>(repo, reports). (report proof, (repo, reports @ [proof]))))"

fun observe_votes :: "'k peer_options \<Rightarrow> vote_payload envelope list \<Rightarrow> (peer_state, unit) comp" where
  "observe_votes o1 [] = retS ()"
| "observe_votes o1 (vote # votes) =
     bindS (onRepository (observeVote (po_platform o1) vote)) (\<lambda>proof.
     bindS (case proof of None \<Rightarrow> retS () | Some p \<Rightarrow> report_proof o1 p) (\<lambda>_.
       observe_votes o1 votes))"

definition observeCertificate :: "'k peer_options \<Rightarrow> vote_certificate \<Rightarrow> (peer_state, unit) comp" where
  "observeCertificate o1 certificate = observe_votes o1 (vc_votes certificate)"

subsection \<open>Proposals\<close>

text \<open>The proposal's justification, once it is verified, is one for this proposal.\<close>

definition justifies :: "vote_certificate \<Rightarrow> proposal_payload \<Rightarrow> bool" where
  "justifies justification payload \<longleftrightarrow>
     vc_phase justification = Prevote
     \<and> vc_valueDigest justification = Some (av_valueDigest (pp_value payload))
     \<and> pp_validRound payload = Some (co_round (vc_coordinate justification))
     \<and> co_round (vc_coordinate justification) < co_round (pp_coordinate payload)
     \<and> sameHeightSlot justification payload"

definition prevote_for :: "'k peer_options \<Rightarrow> proposal_payload \<Rightarrow> clock_reading \<Rightarrow> vote_payload" where
  "prevote_for o1 payload now = \<lparr>vp_coordinate = pp_coordinate payload, vp_phase = Prevote,
     vp_proposalId = pp_proposalId payload, vp_voterPeerId = sc_peerId (po_scope o1),
     vp_valueDigest = Some (av_valueDigest (pp_value payload)), vp_votedAtLogicalMs = cl_logicalTimeMs now\<rparr>"

definition vote_on_proposal ::
  "'k peer_options \<Rightarrow> string \<Rightarrow> proposal_payload \<Rightarrow> clock_reading \<Rightarrow> (peer_state, peer_result) comp" where
  "vote_on_proposal o1 sender payload now =
     bindS (liftE (ready o1 ''proposal'' (pp_coordinate payload) (cl_logicalTimeMs now))) (\<lambda>is_ready.
     if \<not> is_ready then rejected ''not_ready''
     else bindS (liftE (po_semantics o1 (pp_coordinate payload) (pp_proposalId payload)
                   (pp_proposerPeerId payload) (pp_value payload) (cl_logicalTimeMs now))) (\<lambda>accepted.
       if \<not> accepted then rejected ''semantic_rejection''
       else bindS (onRepository (recordLocalVote (pp_coordinate payload) Prevote (pp_proposalId payload)
              (Some (av_valueDigest (pp_value payload))) (pp_validRound payload)
              (peer_vote o1 (prevote_for o1 payload now) sender now))) (\<lambda>result.
         retS (voteResult result))))"

definition handle_proposal ::
  "'k peer_options \<Rightarrow> string \<Rightarrow> proposal_payload \<Rightarrow> membership \<Rightarrow> clock_reading \<Rightarrow> (peer_state, peer_result) comp" where
  "handle_proposal o1 sender payload membership now =
     (if pp_proposerPeerId payload \<noteq> sender then rejected ''invalid_proposer''
      else bindS (liftE (collectiveAgreementProposerV1 membership (co_height (pp_coordinate payload))
                    (co_round (pp_coordinate payload)))) (\<lambda>proposer.
        if proposer \<noteq> sender then rejected ''invalid_proposer''
        else case pp_justification payload of
          None \<Rightarrow> vote_on_proposal o1 sender payload now
        | Some certificate \<Rightarrow>
            bindS (liftE (verifyCollectiveAgreementVoteCertificateV1 (po_platform o1) (po_resolver o1)
                (cl_wallTime now) membership certificate)) (\<lambda>verified.
              case verified of
                None \<Rightarrow> rejected ''invalid_certificate''
              | Some justification \<Rightarrow>
                  if \<not> justifies justification payload then rejected ''invalid_certificate''
                  else bindS (observeCertificate o1 justification) (\<lambda>_.
                    vote_on_proposal o1 sender payload now))))"

subsection \<open>Certificates\<close>

definition precommit_for :: "'k peer_options \<Rightarrow> vote_certificate \<Rightarrow> clock_reading \<Rightarrow> vote_payload" where
  "precommit_for o1 certificate now = \<lparr>vp_coordinate = vc_coordinate certificate, vp_phase = Precommit,
     vp_proposalId = vc_proposalId certificate, vp_voterPeerId = sc_peerId (po_scope o1),
     vp_valueDigest = vc_valueDigest certificate, vp_votedAtLogicalMs = cl_logicalTimeMs now\<rparr>"

definition handle_certificate ::
  "'k peer_options \<Rightarrow> string \<Rightarrow> vote_certificate \<Rightarrow> membership \<Rightarrow> clock_reading \<Rightarrow> (peer_state, peer_result) comp" where
  "handle_certificate o1 sender candidate membership now =
     bindS (liftE (verifyCollectiveAgreementVoteCertificateV1 (po_platform o1) (po_resolver o1)
         (cl_wallTime now) membership candidate)) (\<lambda>verified.
       case verified of
         None \<Rightarrow> rejected ''invalid_certificate''
       | Some certificate \<Rightarrow>
           if vc_phase certificate \<noteq> Prevote \<or> vc_valueDigest certificate = None
             \<or> \<not> sameCollectiveAgreementCoordinateV1 (vc_coordinate certificate) (vc_coordinate candidate)
           then rejected ''invalid_certificate''
           else bindS (observeCertificate o1 certificate) (\<lambda>_.
             bindS (liftE (ready o1 ''precommit'' (vc_coordinate certificate) (cl_logicalTimeMs now))) (\<lambda>is_ready.
             if \<not> is_ready then rejected ''not_ready''
             else bindS (onRepository (recordLocalVote (vc_coordinate certificate) Precommit
                    (vc_proposalId certificate) (vc_valueDigest certificate)
                    (Some (co_round (vc_coordinate certificate)))
                    (peer_vote o1 (precommit_for o1 certificate now) sender now))) (\<lambda>result.
               retS (voteResult result)))))"

subsection \<open>Commits\<close>

definition handle_commit ::
  "'k peer_options \<Rightarrow> string \<Rightarrow> string \<Rightarrow> commit_certificate \<Rightarrow> membership \<Rightarrow> clock_reading
     \<Rightarrow> (peer_state, peer_result) comp" where
  "handle_commit o1 sender messageId candidate membership now =
     bindS (liftE (verifyCollectiveAgreementCommitCertificateV1 (po_platform o1) (po_resolver o1)
         (cl_wallTime now) membership candidate)) (\<lambda>verified.
       case verified of
         None \<Rightarrow> rejected ''invalid_certificate''
       | Some certificate \<Rightarrow>
           bindS (observeCertificate o1 (cc_prevoteCertificate certificate)) (\<lambda>_.
           bindS (observeCertificate o1 (cc_precommitCertificate certificate)) (\<lambda>_.
           bindS (liftE (ready o1 ''commit'' (cc_coordinate certificate) (cl_logicalTimeMs now))) (\<lambda>is_ready.
           if \<not> is_ready then rejected ''not_ready''
           else bindS (onRepository (\<lambda>repo. case saveCommit certificate repo of (r, repo') \<Rightarrow> (Inr r, repo')))
             (\<lambda>saved.
               if saved = SaveConflict then rejected ''commit_conflict''
               else if saved = SaveChainGap then rejected ''chain_gap''
               else bindS (liftE (createSignedCollectiveAgreementEnvelopeV1 (po_platform o1) (po_scope o1)
                      (po_signing o1) sender (AgreementAck \<lparr>ap_requestMessageId = messageId,
                        ap_coordinate = cc_coordinate certificate, ap_acknowledgement = ''commit_stored'',
                        ap_acknowledgedAtLogicalMs = cl_logicalTimeMs now\<rparr>) now (Some (peer_ttl o1)))) (\<lambda>response.
                 retS (PeerAccepted response)))))))"

subsection \<open>Dispatch\<close>

definition handle ::
  "'k peer_options \<Rightarrow> clock_reading \<Rightarrow> agreement_payload envelope \<Rightarrow> (peer_state, peer_result) comp" where
  "handle o1 now candidate =
     (case verifyCollectiveAgreementLiveEnvelopeV1 (po_platform o1) (po_resolver o1) (cl_wallTime now)
         (peer_ttl o1) candidate of
        None \<Rightarrow> rejected ''invalid_envelope''
      | Some envelope \<Rightarrow>
          if en_tenantId envelope \<noteq> sc_tenantId (po_scope o1) \<or> en_meshId envelope \<noteq> sc_meshId (po_scope o1)
          then rejected ''wrong_scope''
          else if en_audiencePeerId envelope \<noteq> sc_peerId (po_scope o1) then rejected ''wrong_audience''
          else if \<not> collectiveAgreementEnvelopeIsFreshV1 envelope (cl_wallTime now) (peer_ttl o1)
          then rejected ''expired''
          else let coordinate = coordinateOf (en_payload envelope) in
            bindS (liftE (po_membership o1 (co_policyDomainId coordinate) (co_membershipEpoch coordinate)
                (co_membershipConfigurationDigest coordinate) (cl_logicalTimeMs now))) (\<lambda>membership.
              case Option.bind membership (validateCollectiveAgreementMembershipV1 (po_platform o1)) of
                None \<Rightarrow> rejected ''membership_unavailable''
              | Some validMembership \<Rightarrow>
                  if \<not> memberMatches validMembership envelope then rejected ''invalid_membership''
                  else case en_payload envelope of
                    AgreementProposal p \<Rightarrow>
                      handle_proposal o1 (en_senderPeerId envelope) p validMembership now
                  | AgreementCertificate c t \<Rightarrow>
                      handle_certificate o1 (en_senderPeerId envelope) c validMembership now
                  | AgreementCommit c t \<Rightarrow>
                      handle_commit o1 (en_senderPeerId envelope) (en_messageId envelope) c validMembership now
                  | _ \<Rightarrow> rejected ''invalid_envelope''))"

end
