(* ===== verification/AgVotes.thy ===== *)
theory AgVotes
  imports AgMemory
begin

text \<open>
  What \<open>recordLocalVote\<close> does to a repository, on every branch, and the invariants of one
  validator's votes: each vote is stored under its own key, no round is above the highest, the
  lock is the latest precommit.
\<close>

definition state_of :: "repository \<Rightarrow> coordinate \<Rightarrow> agreement_state" where
  "state_of R c = (case rp_states R (coordinateKey c) of
     Some s \<Rightarrow> s
   | None \<Rightarrow> \<lparr>as_highestRound = co_round c, as_lockedRound = None, as_lockedValueDigest = None\<rparr>)"

text \<open>The state after a vote: the round, and the lock when it is a precommit.\<close>

definition voted_state :: "agreement_state \<Rightarrow> int \<Rightarrow> vote_phase \<Rightarrow> string option \<Rightarrow> agreement_state" where
  "voted_state s r phase valueDigest =
     (let s = s\<lparr>as_highestRound := r\<rparr> in
      if phase = Precommit then s\<lparr>as_lockedRound := Some r, as_lockedValueDigest := valueDigest\<rparr> else s)"

definition admits_vote :: "agreement_state \<Rightarrow> int \<Rightarrow> vote_phase \<Rightarrow> string option \<Rightarrow> int option \<Rightarrow> bool" where
  "admits_vote s r phase valueDigest justifiedRound \<longleftrightarrow> as_highestRound s \<le> r
     \<and> (phase = Prevote \<longrightarrow> valueDigest \<noteq> None \<longrightarrow> as_lockedValueDigest s \<noteq> valueDigest \<longrightarrow>
          (\<forall>lr. as_lockedRound s = Some lr \<longrightarrow> (\<exists>j. justifiedRound = Some j \<and> lr \<le> j)))
     \<and> (phase = Precommit \<longrightarrow> valueDigest \<noteq> None \<and> justifiedRound = Some r)"

lemma recordLocalVote_cases:
  assumes "recordLocalVote c phase proposalId valueDigest justifiedRound create R = (res, R')"
  obtains (same) "R' = R"
  | (advance) "as_highestRound (state_of R c) \<le> co_round c"
      "R' = R\<lparr>rp_states := (rp_states R)(coordinateKey c \<mapsto> (state_of R c)\<lparr>as_highestRound := co_round c\<rparr>)\<rparr>"
  | (vote) v where "rp_localVotes R (voteKey c phase ''local'') = None" "create = Inr v" "res = Inr (VoteSigned v)"
      "vp_phase (en_payload v) = phase" "vp_valueDigest (en_payload v) = valueDigest"
      "vp_proposalId (en_payload v) = proposalId"
      "admits_vote (state_of R c) (co_round c) phase valueDigest justifiedRound"
      "R' = R\<lparr>rp_localVotes := (rp_localVotes R)(voteKey c phase ''local'' \<mapsto> v),
              rp_states := (rp_states R)(coordinateKey c \<mapsto> voted_state (state_of R c) (co_round c) phase valueDigest)\<rparr>"
proof -
  note unfold = assms[unfolded recordLocalVote_def Let_def, folded state_of_def]
  show thesis
  proof (cases "rp_localVotes R (voteKey c phase ''local'')")
    case Some
    with unfold same show thesis by simp
  next
    case None
    show thesis
    proof (cases "co_round c < as_highestRound (state_of R c)")
      case True
      with unfold None same show thesis by simp
    next
      case round: False
      let ?s = "(state_of R c)\<lparr>as_highestRound := co_round c\<rparr>"
      show thesis
      proof (cases "rp_localVotes R' = rp_localVotes R")
        case True
        with unfold None round show thesis
          by (intro advance) (auto split: if_splits sum.splits simp: fun_eq_iff)
      next
        case False
        with unfold None round obtain v where v: "create = Inr v" by (auto split: if_splits sum.splits)
        from False unfold None round v show thesis
          by (intro vote[of v]) (auto simp: admits_vote_def voted_state_def split: if_splits)
      qed
    qed
  qed
qed

subsection \<open>Invariants\<close>

definition votes_match :: "repository \<Rightarrow> bool" where
  "votes_match R \<longleftrightarrow> (\<forall>k v. rp_localVotes R k = Some v \<longrightarrow>
     keyed (vp_coordinate (en_payload v)) \<and> k = voteKey (vp_coordinate (en_payload v)) (vp_phase (en_payload v)) ''local'')"

definition vote_at :: "repository \<Rightarrow> coordinate \<Rightarrow> vote_phase \<Rightarrow> int \<Rightarrow> vote_payload envelope option" where
  "vote_at R b phase r = rp_localVotes R (voteKey (b\<lparr>co_round := r\<rparr>) phase ''local'')"

definition lock_ok :: "repository \<Rightarrow> coordinate \<Rightarrow> bool" where
  "lock_ok R b \<longleftrightarrow>
     (\<forall>r phase w. vote_at R b phase r = Some w \<longrightarrow>
        (\<exists>s. rp_states R (coordinateKey b) = Some s \<and> r \<le> as_highestRound s
           \<and> (phase = Precommit \<longrightarrow> (\<exists>lr. as_lockedRound s = Some lr \<and> r \<le> lr))))
     \<and> (\<forall>s lr. rp_states R (coordinateKey b) = Some s \<longrightarrow> as_lockedRound s = Some lr \<longrightarrow>
          lr \<le> as_highestRound s
          \<and> (\<exists>w. vote_at R b Precommit lr = Some w \<and> vp_valueDigest (en_payload w) = as_lockedValueDigest s))"

lemma keyed_round [simp]: "keyed (b\<lparr>co_round := r\<rparr>) = keyed b" "coordinateKey (b\<lparr>co_round := r\<rparr>) = coordinateKey b"
  by (simp_all add: keyed_def coordinateKey_def)

lemma voteKey_at:
  assumes "keyed b" "keyed c"
  shows "voteKey (b\<lparr>co_round := r\<rparr>) phase w = voteKey c phase' w' \<longleftrightarrow>
    same_height b c \<and> r = co_round c \<and> phase = phase' \<and> w = w'"
  using voteKey_inject[of "b\<lparr>co_round := r\<rparr>" c] assms by (simp add: same_height_def)

lemma same_height_key: "same_height b c \<Longrightarrow> coordinateKey b = coordinateKey c"
  by (simp add: same_height_def coordinateKey_def)

lemma votes_match_record:
  assumes "votes_match R" "recordLocalVote c phase proposalId valueDigest justifiedRound create R = (res, R')"
    and "keyed c" "\<And>v. create = Inr v \<Longrightarrow> vp_coordinate (en_payload v) = c"
  shows "votes_match R'"
  using assms(2)
proof (cases rule: recordLocalVote_cases)
  case (vote v)
  with assms show ?thesis by (auto simp: votes_match_def)
qed (use assms(1) in \<open>simp_all add: votes_match_def\<close>)

lemma lock_ok_record:
  assumes "lock_ok R b" "recordLocalVote c phase proposalId valueDigest justifiedRound create R = (res, R')"
    and "keyed b" "keyed c"
  shows "lock_ok R' b"
  using assms(2)
proof (cases rule: recordLocalVote_cases)
  case same
  with assms(1) show ?thesis by simp
next
  case advance
  show ?thesis
  proof (cases "same_height b c")
    case True
    then have k: "coordinateKey c = coordinateKey b" by (simp add: same_height_key)
    have "vote_at R' b ph r = vote_at R b ph r" for ph r by (simp add: advance vote_at_def)
    with assms(1) advance show ?thesis
      by (fastforce simp: lock_ok_def k state_of_def split: option.splits)
  next
    case False
    with assms(3,4) have k: "coordinateKey b \<noteq> coordinateKey c" by (simp add: coordinateKey_inject)
    have "vote_at R' b ph r = vote_at R b ph r" for ph r by (simp add: advance vote_at_def)
    with assms(1) advance k show ?thesis by (simp add: lock_ok_def)
  qed
next
  case (vote v)
  have v: "vote_at R' b ph r = (if same_height b c \<and> r = co_round c \<and> ph = phase then Some v else vote_at R b ph r)" for ph r
    by (simp add: vote vote_at_def voteKey_at assms(3,4))
  show ?thesis
  proof (cases "same_height b c")
    case True
    then have k: "coordinateKey c = coordinateKey b" by (simp add: same_height_key)
    have s: "rp_states R' (coordinateKey b) = Some (voted_state (state_of R c) (co_round c) phase valueDigest)"
      by (simp add: vote k)
    have h: "as_highestRound (state_of R c) \<le> co_round c" using vote by (simp add: admits_vote_def)
    have old: "\<exists>s. state_of R c = s \<and> r \<le> as_highestRound s \<and> (ph = Precommit \<longrightarrow> (\<exists>lr. as_lockedRound s = Some lr \<and> r \<le> lr))"
      if "vote_at R b ph r = Some w" for ph r w
      using assms(1) that unfolding lock_ok_def state_of_def k by force
    have lock: "lr \<le> as_highestRound (state_of R c) \<and> (\<exists>w. vote_at R b Precommit lr = Some w
        \<and> vp_valueDigest (en_payload w) = as_lockedValueDigest (state_of R c))"
      if "as_lockedRound (state_of R c) = Some lr" for lr
      using assms(1) that unfolding lock_ok_def state_of_def k by (auto split: option.splits)
    have new: "vote_at R b phase (co_round c) = None"
    proof -
      have "voteKey (b\<lparr>co_round := co_round c\<rparr>) phase ''local'' = voteKey c phase ''local''"
        using True assms(3,4) by (simp add: voteKey_at)
      with vote show ?thesis by (simp add: vote_at_def)
    qed
    show ?thesis
      unfolding lock_ok_def s
    proof (intro conjI allI impI, goal_cases)
      case (1 r ph w)
      then show ?case
        using old[of ph r w] h by (auto simp: v voted_state_def Let_def True split: if_splits)
    next
      case (2 s lr)
      then show ?case using lock[of lr] h by (auto simp: voted_state_def Let_def split: if_splits)
    next
      case (3 s lr)
      then show ?case using lock[of lr] h new vote(5) True
        by (auto simp: v voted_state_def Let_def split: if_splits)
    qed
  next
    case False
    with assms(3,4) have k: "coordinateKey b \<noteq> coordinateKey c" by (simp add: coordinateKey_inject)
    have "vote_at R' b ph r = vote_at R b ph r" for ph r by (simp add: v False)
    with assms(1) vote(8) k show ?thesis by (simp add: lock_ok_def)
  qed
qed

end
