(* ===== verification/AgCertificateFacts.thy ===== *)
theory AgCertificateFacts
  imports AgCertificates
begin

text \<open>
  What a verified certificate says: the votes in it are verified, they come from distinct members
  of the membership, at least \<open>2 f + 1\<close> of them, and they agree with each other. What it does
  not say is that the certificate's own fields are those of its votes: \<open>bound\<close> is that
  condition.
\<close>

text \<open>\<open>p\<close> is what all the votes of \<open>c\<close> say.\<close>

definition same_vote :: "vote_payload \<Rightarrow> vote_payload \<Rightarrow> bool" where
  "same_vote p q \<longleftrightarrow> vp_phase p = vp_phase q \<and> vp_proposalId p = vp_proposalId q
     \<and> vp_valueDigest p = vp_valueDigest q \<and> vp_coordinate p = vp_coordinate q"

definition certified_by ::
  "'k platform \<Rightarrow> 'k resolver \<Rightarrow> string \<Rightarrow> membership \<Rightarrow> vote_payload \<Rightarrow> vote_payload envelope list \<Rightarrow> bool" where
  "certified_by P resolve verifiedAt m p votes \<longleftrightarrow>
     collectiveAgreementQuorumThresholdV1 m \<le> int (length votes) \<and> distinct (map en_senderPeerId votes)
     \<and> co_membershipEpoch (vp_coordinate p) = me_epoch m
     \<and> co_membershipConfigurationDigest (vp_coordinate p) = me_configurationDigest m
     \<and> (\<forall>v \<in> set votes. verify_vote P resolve verifiedAt v \<and> same_vote (en_payload v) p
          \<and> vp_voterPeerId (en_payload v) = en_senderPeerId v
          \<and> (\<exists>x \<in> set (me_validators m). va_peerId x = en_senderPeerId v
               \<and> va_instanceId x = en_senderInstanceId v \<and> va_keyId x = en_keyId v))"

definition bound :: "vote_certificate \<Rightarrow> bool" where
  "bound c \<longleftrightarrow> (\<forall>v \<in> set (vc_votes c). vp_phase (en_payload v) = vc_phase c
     \<and> vp_coordinate (en_payload v) = vc_coordinate c \<and> vp_proposalId (en_payload v) = vc_proposalId c
     \<and> vp_valueDigest (en_payload v) = vc_valueDigest c)"

lemma check_votes_Some:
  assumes "check_votes members first seen votes = Some seen'"
  shows "length seen' = length seen + length votes"
    "distinct (map en_senderPeerId votes) \<and> set (map en_senderPeerId votes) \<inter> set seen = {}"
    "\<forall>v \<in> set votes. same_vote (en_payload v) first \<and> vp_voterPeerId (en_payload v) = en_senderPeerId v
       \<and> (\<exists>x. members (en_senderPeerId v) = Some x \<and> va_instanceId x = en_senderInstanceId v \<and> va_keyId x = en_keyId v)"
proof -
  have "length seen' = length seen + length votes
    \<and> distinct (map en_senderPeerId votes) \<and> set (map en_senderPeerId votes) \<inter> set seen = {}
    \<and> (\<forall>v \<in> set votes. same_vote (en_payload v) first \<and> vp_voterPeerId (en_payload v) = en_senderPeerId v
       \<and> (\<exists>x. members (en_senderPeerId v) = Some x \<and> va_instanceId x = en_senderInstanceId v \<and> va_keyId x = en_keyId v))"
    using assms
  proof (induction votes arbitrary: seen)
    case (Cons v votes)
    then have "check_votes members first (en_senderPeerId v # seen) votes = Some seen'"
      by (auto split: option.splits if_splits)
    from Cons.IH[OF this] Cons.prems show ?case by (auto simp: same_vote_def split: option.splits if_splits)
  qed simp
  then show "length seen' = length seen + length votes"
    "distinct (map en_senderPeerId votes) \<and> set (map en_senderPeerId votes) \<inter> set seen = {}"
    "\<forall>v \<in> set votes. same_vote (en_payload v) first \<and> vp_voterPeerId (en_payload v) = en_senderPeerId v
       \<and> (\<exists>x. members (en_senderPeerId v) = Some x \<and> va_instanceId x = en_senderInstanceId v \<and> va_keyId x = en_keyId v)"
    by blast+
qed

lemma member_map_Some: "member_map m i = Some x \<Longrightarrow> x \<in> set (me_validators m) \<and> va_peerId x = i"
  by (auto simp: member_map_def dest!: map_of_SomeD)

lemma live_vote_verified: "verify_live_vote P r t ttl v \<Longrightarrow> verify_vote P r t v"
  by (auto simp: verify_live_vote_def verify_vote_def dest: live_envelope_verified)

lemma verifyVotes_verified: "v \<in> set (verifyVotes P r t fresh votes) \<Longrightarrow> verify_vote P r t v"
  by (auto simp: verifyVotes_def dest: live_vote_verified split: if_splits)

lemma verifyVotes_all:
  assumes "length (verifyVotes P r t fresh votes) = length votes"
  shows "verifyVotes P r t fresh votes = votes"
proof -
  have "length (filter Q xs) = length xs \<Longrightarrow> filter Q xs = xs" for Q and xs :: "'b list"
  proof (induction xs)
    case (Cons x xs)
    then show ?case using length_filter_le[of Q xs] by (cases "Q x") auto
  qed simp
  with assms show ?thesis unfolding verifyVotes_def by blast
qed

text \<open>The body of the certificate that the votes make.\<close>

definition certificate_of ::
  "'k platform \<Rightarrow> vote_payload \<Rightarrow> vote_payload envelope list \<Rightarrow> vote_certificate" where
  "certificate_of P first votes = \<lparr>vc_schemaVersion = 1, vc_kind = ''vote_certificate'',
     vc_phase = vp_phase first, vc_coordinate = vp_coordinate first,
     vc_proposalId = vp_proposalId first, vc_valueDigest = vp_valueDigest first,
     vc_votes = js_sort (\<lambda>l r. pl_localeCompare P (en_senderPeerId l) (en_senderPeerId r)) votes,
     vc_certificateDigest = []\<rparr>"

lemma assemble_Some:
  assumes "assembleCollectiveAgreementVoteCertificateV1 P r t m votes fresh = Inr (Some c)"
  shows "certified_by P r t m (en_payload (hd votes)) votes" "votes \<noteq> []"
    "validateCollectiveAgreementMembershipV1 P m = Some m"
    "c = (certificate_of P (en_payload (hd votes)) votes)\<lparr>vc_certificateDigest := vc_certificateDigest c\<rparr>"
    "collectiveAgreementDigestV1 P (JObj (vote_certificate_body (certificate_of P (en_payload (hd votes)) votes)))
       = Inr (vc_certificateDigest c)"
    "validateCollectiveAgreementVoteCertificateShapeV1 c = Some c"
proof -
  from assms obtain m' where "validateCollectiveAgreementMembershipV1 P m = Some m'"
    by (auto simp: assembleCollectiveAgreementVoteCertificateV1_def split: option.splits)
  with valid_membership_same have m: "validateCollectiveAgreementMembershipV1 P m = Some m" by auto
  note a = assms[unfolded assembleCollectiveAgreementVoteCertificateV1_def m option.case Let_def]
  from a have l: "collectiveAgreementQuorumThresholdV1 m \<le> int (length votes)"
    "length (verifyVotes P r t fresh votes) = length votes" "verifyVotes P r t fresh votes \<noteq> []"
    by (auto split: if_splits)
  note all = verifyVotes_all[OF l(2)]
  show "votes \<noteq> []" using l(3) all by simp
  show "validateCollectiveAgreementMembershipV1 P m = Some m" by (rule m)
  from a[unfolded all, folded certificate_of_def] obtain seen d where h:
    "co_membershipEpoch (vp_coordinate (en_payload (hd votes))) = me_epoch m"
    "co_membershipConfigurationDigest (vp_coordinate (en_payload (hd votes))) = me_configurationDigest m"
    "check_votes (member_map m) (en_payload (hd votes)) [] votes = Some seen"
    "collectiveAgreementDigestV1 P (JObj (vote_certificate_body (certificate_of P (en_payload (hd votes)) votes))) = Inr d"
    "validateCollectiveAgreementVoteCertificateShapeV1
       ((certificate_of P (en_payload (hd votes)) votes)\<lparr>vc_certificateDigest := d\<rparr>) = Some c"
    by (auto simp: bindE_Inr_iff split: option.splits if_splits)
  from check_votes_Some[OF h(3)] verifyVotes_verified[of _ P r t fresh votes] l(1) all h(1,2)
  show "certified_by P r t m (en_payload (hd votes)) votes"
    unfolding certified_by_def by (auto dest!: member_map_Some)
  from h(5) valid_vote_certificate_same[OF h(5)]
  show "c = (certificate_of P (en_payload (hd votes)) votes)\<lparr>vc_certificateDigest := vc_certificateDigest c\<rparr>"
    "collectiveAgreementDigestV1 P (JObj (vote_certificate_body (certificate_of P (en_payload (hd votes)) votes)))
       = Inr (vc_certificateDigest c)"
    "validateCollectiveAgreementVoteCertificateShapeV1 c = Some c"
    using h(4) by simp_all
qed

lemma verify_certificate_Some:
  assumes "verifyVoteCertificate P r t m fresh c = Inr (Some d)"
  shows "d = c" "validateCollectiveAgreementVoteCertificateShapeV1 c = Some c"
    "validateCollectiveAgreementMembershipV1 P m = Some m"
    "certified_by P r t m (en_payload (hd (vc_votes c))) (vc_votes c)" "vc_votes c \<noteq> []"
    "collectiveAgreementDigestV1 P (JObj (vote_certificate_body
       (certificate_of P (en_payload (hd (vc_votes c))) (vc_votes c)))) = Inr (vc_certificateDigest c)"
proof -
  obtain x where x: "validateCollectiveAgreementVoteCertificateShapeV1 c = Some c" "d = c"
    "assembleCollectiveAgreementVoteCertificateV1 P r t m (vc_votes c) fresh = Inr (Some x)"
    "vc_certificateDigest x = vc_certificateDigest c"
    using assms by (auto simp: verifyVoteCertificate_def bindE_Inr_iff
        dest: valid_vote_certificate_same split: option.splits if_splits)
  then show "d = c" "validateCollectiveAgreementVoteCertificateShapeV1 c = Some c" by simp_all
  from assemble_Some[OF x(3)] x(4) show "validateCollectiveAgreementMembershipV1 P m = Some m"
    "certified_by P r t m (en_payload (hd (vc_votes c))) (vc_votes c)" "vc_votes c \<noteq> []"
    "collectiveAgreementDigestV1 P (JObj (vote_certificate_body
       (certificate_of P (en_payload (hd (vc_votes c))) (vc_votes c)))) = Inr (vc_certificateDigest c)"
    by simp_all
qed

lemma bound_certified:
  assumes "bound c" "certified_by P r t m p (vc_votes c)" "vc_votes c \<noteq> []"
  shows "vp_phase p = vc_phase c" "vp_coordinate p = vc_coordinate c"
    "vp_proposalId p = vc_proposalId c" "vp_valueDigest p = vc_valueDigest c"
  using assms by (auto simp: bound_def certified_by_def same_vote_def neq_Nil_conv)

lemma commit_certificate_Some:
  assumes "verifyCollectiveAgreementCommitCertificateV1 P r t m c = Inr (Some d)"
  shows "d = c" "validateCollectiveAgreementCommitCertificateShapeV1 P c = Some c"
    "verifyVoteCertificate P r t m False (cc_prevoteCertificate c) = Inr (Some (cc_prevoteCertificate c))"
    "verifyVoteCertificate P r t m False (cc_precommitCertificate c) = Inr (Some (cc_precommitCertificate c))"
    "vc_phase (cc_prevoteCertificate c) = Prevote" "vc_phase (cc_precommitCertificate c) = Precommit"
    "vc_valueDigest (cc_prevoteCertificate c) = Some (av_valueDigest (cc_value c))"
    "vc_valueDigest (cc_precommitCertificate c) = Some (av_valueDigest (cc_value c))"
    "vc_coordinate (cc_prevoteCertificate c) = vc_coordinate (cc_precommitCertificate c)"
proof -
  have shape: "validateCollectiveAgreementCommitCertificateShapeV1 P c = Some c" and "d = c"
    using assms valid_commit_certificate_same
    by (auto simp: verifyCollectiveAgreementCommitCertificateV1_def bindE_Inr_iff split: option.splits if_splits)
  then show "d = c" "validateCollectiveAgreementCommitCertificateShapeV1 P c = Some c" by simp_all
  from assms shape obtain x where x: "assembleCollectiveAgreementCommitCertificateV1 P r t m (cc_value c)
      (cc_prevoteCertificate c) (cc_precommitCertificate c) (cc_committedAtLogicalMs c) False = Inr (Some x)"
    by (auto simp: verifyCollectiveAgreementCommitCertificateV1_def bindE_Inr_iff split: option.splits)
  from x obtain ao bo where o: "verifyVoteCertificate P r t m False (cc_prevoteCertificate c) = Inr ao"
    "verifyVoteCertificate P r t m False (cc_precommitCertificate c) = Inr bo"
    by (auto simp: assembleCollectiveAgreementCommitCertificateV1_def bindE_Inr_iff)
  from x[unfolded assembleCollectiveAgreementCommitCertificateV1_def o bindE_simps] obtain a b w where h: "verifyVoteCertificate P r t m False (cc_prevoteCertificate c) = Inr (Some a)"
    "verifyVoteCertificate P r t m False (cc_precommitCertificate c) = Inr (Some b)"
    "validateCollectiveAgreementValueV1 P (cc_value c) = Some w"
    "vc_phase a = Prevote" "vc_phase b = Precommit" "vc_valueDigest a = Some (av_valueDigest w)"
    "vc_valueDigest b = Some (av_valueDigest w)" "vc_coordinate a = vc_coordinate b"
    using o by (auto simp del: not_None_eq split: option.splits if_splits)
  with verify_certificate_Some(1)[OF h(1)] verify_certificate_Some(1)[OF h(2)] valid_value_same[OF h(3)]
  show "verifyVoteCertificate P r t m False (cc_prevoteCertificate c) = Inr (Some (cc_prevoteCertificate c))"
    "verifyVoteCertificate P r t m False (cc_precommitCertificate c) = Inr (Some (cc_precommitCertificate c))"
    "vc_phase (cc_prevoteCertificate c) = Prevote" "vc_phase (cc_precommitCertificate c) = Precommit"
    "vc_valueDigest (cc_prevoteCertificate c) = Some (av_valueDigest (cc_value c))"
    "vc_valueDigest (cc_precommitCertificate c) = Some (av_valueDigest (cc_value c))"
    "vc_coordinate (cc_prevoteCertificate c) = vc_coordinate (cc_precommitCertificate c)"
    by simp_all
qed

end
