(* ===== verification/AgPeerFacts.thy ===== *)
theory AgPeerFacts
  imports AgPeer AgVotes AgCertificateFacts
begin

text \<open>
  What one handled message does to the votes of a validator: nothing, or one
  \<open>recordLocalVote\<close> with a prevote for an admissible proposal or a precommit for a verified
  prevote certificate.
\<close>

definition same_votes :: "repository \<Rightarrow> repository \<Rightarrow> bool" where
  "same_votes R R' \<longleftrightarrow> rp_localVotes R' = rp_localVotes R \<and> rp_states R' = rp_states R"

lemma same_votes_refl [simp]: "same_votes R R"
  by (simp add: same_votes_def)

lemma same_votes_trans: "same_votes R S \<Longrightarrow> same_votes S T \<Longrightarrow> same_votes R T"
  by (simp add: same_votes_def)

text \<open>What a handler leaves of the repository when it records no vote.\<close>

definition voteless :: "(peer_state, 'a) comp \<Rightarrow> bool" where
  "voteless m \<longleftrightarrow> (\<forall>s. same_votes (fst s) (fst (snd (m s))))"

lemma votelessD: "voteless m \<Longrightarrow> m s = (r, s') \<Longrightarrow> same_votes (fst s) (fst s')"
  by (metis snd_conv voteless_def)

lemma voteless_bind:
  assumes "voteless m" "\<And>x. voteless (f x)"
  shows "voteless (bindS m f)"
  unfolding voteless_def
proof
  fix s
  obtain r s' where h: "bindS m f s = (r, s')" by (cases "bindS m f s")
  have "same_votes (fst s) (fst s')"
    by (rule bindS_state[OF h, where R = "\<lambda>s t. same_votes (fst s) (fst t)"])
      (use assms votelessD same_votes_trans in blast)+
  with h show "same_votes (fst s) (fst (snd (bindS m f s)))" by simp
qed

lemma voteless_pure [simp]: "voteless (retS x)" "voteless (liftE r)" "voteless (rejected code)" "voteless (Pair y)"
  by (simp_all add: voteless_def rejected_def)

lemma voteless_observe: "voteless (onRepository (observeVote P v))"
  by (auto simp: voteless_def onRepository_def observeVote_def Let_def same_votes_def
      split: prod.splits option.splits if_splits)

lemma voteless_report: "voteless (report_proof o1 p)"
  by (auto simp: voteless_def report_proof_def split: option.splits)

lemma voteless_certificate: "voteless (observeCertificate o1 c)"
proof -
  have "voteless (observe_votes o1 votes)" for votes
    by (induction votes) (auto intro!: voteless_bind voteless_observe voteless_report split: option.splits)
  then show ?thesis by (simp add: observeCertificate_def)
qed

lemma voteless_save: "voteless (onRepository (\<lambda>repo. case saveCommit c repo of (r, repo') \<Rightarrow> (Inr r, repo')))"
  by (auto simp: voteless_def onRepository_def saveCommit_def Let_def same_votes_def
      split: prod.splits option.splits if_splits)

lemma voteless_commit: "voteless (handle_commit o1 sender messageId c m now)"
  unfolding handle_commit_def
  by (auto intro!: voteless_bind voteless_certificate voteless_save split: option.splits)

text \<open>The two ways a vote is recorded.\<close>

definition votes_on_proposal ::
  "'k peer_options \<Rightarrow> clock_reading \<Rightarrow> membership \<Rightarrow> proposal_payload \<Rightarrow> repository \<Rightarrow> repository \<Rightarrow> bool" where
  "votes_on_proposal o1 now m p R R' \<longleftrightarrow>
     (case pp_justification p of
        None \<Rightarrow> True
      | Some c \<Rightarrow> verifyVoteCertificate (po_platform o1) (po_resolver o1) (cl_wallTime now) m False c = Inr (Some c)
          \<and> justifies c p)
     \<and> (\<exists>create res. recordLocalVote (pp_coordinate p) Prevote (pp_proposalId p)
            (Some (av_valueDigest (pp_value p))) (pp_validRound p) create R = (res, R')
          \<and> (\<forall>v. create = Inr v \<longrightarrow> en_payload v = prevote_for o1 p now))"

definition votes_on_certificate ::
  "'k peer_options \<Rightarrow> clock_reading \<Rightarrow> membership \<Rightarrow> vote_certificate \<Rightarrow> repository \<Rightarrow> repository \<Rightarrow> bool" where
  "votes_on_certificate o1 now m c R R' \<longleftrightarrow>
     verifyVoteCertificate (po_platform o1) (po_resolver o1) (cl_wallTime now) m False c = Inr (Some c)
     \<and> vc_phase c = Prevote
     \<and> (\<exists>create res. recordLocalVote (vc_coordinate c) Precommit (vc_proposalId c) (vc_valueDigest c)
            (Some (co_round (vc_coordinate c))) create R = (res, R')
          \<and> (\<forall>v. create = Inr v \<longrightarrow> en_payload v = precommit_for o1 c now))"

lemma peer_vote_payload: "peer_vote o1 p a now = Inr v \<Longrightarrow> en_payload v = p"
  by (auto simp: peer_vote_def bindE_Inr_iff with_payload_def)

lemma vote_on_proposal_votes:
  assumes "vote_on_proposal o1 sender p now s = (r, s')"
  shows "same_votes (fst s) (fst s') \<or> (\<exists>create res. recordLocalVote (pp_coordinate p) Prevote (pp_proposalId p)
      (Some (av_valueDigest (pp_value p))) (pp_validRound p) create (fst s) = (res, fst s')
      \<and> (\<forall>v. create = Inr v \<longrightarrow> en_payload v = prevote_for o1 p now))"
proof -
  have "\<exists>res. recordLocalVote (pp_coordinate p) Prevote (pp_proposalId p) (Some (av_valueDigest (pp_value p)))
      (pp_validRound p) (peer_vote o1 (prevote_for o1 p now) sender now) (fst s) = (res, fst s')"
    if "\<not> same_votes (fst s) (fst s')"
    using assms that
    by (auto simp: vote_on_proposal_def bindS_def rejected_def onRepository_def
        split: sum.splits prod.splits if_splits)
  then show ?thesis using peer_vote_payload by blast
qed

lemma handle_proposal_votes:
  assumes "handle_proposal o1 sender p m now s = (r, s')"
  shows "same_votes (fst s) (fst s') \<or> (\<exists>R. same_votes (fst s) R \<and> votes_on_proposal o1 now m p R (fst s'))"
proof (cases "pp_justification p")
  case None
  with assms have "same_votes (fst s) (fst s') \<or> vote_on_proposal o1 sender p now s = (r, s')"
    by (auto simp: handle_proposal_def bindS_def rejected_def split: sum.splits prod.splits if_splits)
  with vote_on_proposal_votes[of o1 sender p now s r s'] None show ?thesis
    unfolding votes_on_proposal_def by (auto intro: same_votes_refl)
next
  case (Some c)
  show ?thesis
  proof (cases "same_votes (fst s) (fst s')")
    case False
    with assms Some obtain d where d: "verifyCollectiveAgreementVoteCertificateV1 (po_platform o1) (po_resolver o1)
          (cl_wallTime now) m c = Inr (Some d)" "justifies d p"
      and h: "bindS (observeCertificate o1 d) (\<lambda>_. vote_on_proposal o1 sender p now) s = (r, s')"
      by (auto simp: handle_proposal_def rejected_def bindS_def[of "liftE _"] split: sum.splits option.splits if_splits)
    from d(1) have c: "verifyVoteCertificate (po_platform o1) (po_resolver o1) (cl_wallTime now) m False c = Inr (Some c)"
      "d = c" using verify_certificate_Some(1) by (auto simp: verifyCollectiveAgreementVoteCertificateV1_def)
    obtain r1 s1 where s1: "observeCertificate o1 d s = (r1, s1)" by (cases "observeCertificate o1 d s")
    from votelessD[OF voteless_certificate s1] have same: "same_votes (fst s) (fst s1)" .
    from h s1 same False obtain u where "vote_on_proposal o1 sender p now s1 = (r, s')"
      by (cases r1) auto
    from vote_on_proposal_votes[OF this] False same same_votes_trans
    have "votes_on_proposal o1 now m p (fst s1) (fst s')"
      using Some c d(2) unfolding votes_on_proposal_def by auto
    with same show ?thesis by blast
  qed simp
qed

lemma handle_certificate_votes:
  assumes "handle_certificate o1 sender c m now s = (r, s')"
  shows "same_votes (fst s) (fst s') \<or> (\<exists>R. same_votes (fst s) R \<and> votes_on_certificate o1 now m c R (fst s'))"
proof (cases "same_votes (fst s) (fst s')")
  case False
  let ?rest = "\<lambda>d. bindS (liftE (ready o1 ''precommit'' (vc_coordinate d) (cl_logicalTimeMs now))) (\<lambda>is_ready.
             if \<not> is_ready then rejected ''not_ready''
             else bindS (onRepository (recordLocalVote (vc_coordinate d) Precommit
                    (vc_proposalId d) (vc_valueDigest d)
                    (Some (co_round (vc_coordinate d)))
                    (peer_vote o1 (precommit_for o1 d now) sender now))) (\<lambda>result.
               retS (voteResult result)))"
  from assms False obtain d where d: "verifyCollectiveAgreementVoteCertificateV1 (po_platform o1) (po_resolver o1)
        (cl_wallTime now) m c = Inr (Some d)" "vc_phase d = Prevote"
    and h: "bindS (observeCertificate o1 d) (\<lambda>_. ?rest d) s = (r, s')"
    by (auto simp: handle_certificate_def rejected_def bindS_def[of "liftE (verifyCollectiveAgreementVoteCertificateV1 _ _ _ _ _)"]
        simp del: not_None_eq split: sum.splits option.splits if_splits)
  from d(1) have c: "verifyVoteCertificate (po_platform o1) (po_resolver o1) (cl_wallTime now) m False c = Inr (Some c)"
    "d = c" using verify_certificate_Some(1) by (auto simp: verifyCollectiveAgreementVoteCertificateV1_def)
  obtain r1 s1 where s1: "observeCertificate o1 d s = (r1, s1)" by (cases "observeCertificate o1 d s")
  from votelessD[OF voteless_certificate s1] have same: "same_votes (fst s) (fst s1)" .
  from h s1 same False have rest: "?rest d s1 = (r, s')" by (cases r1) auto
  have "\<not> same_votes (fst s1) (fst s')" using same False same_votes_trans by blast
  with rest obtain res where "recordLocalVote (vc_coordinate d) Precommit (vc_proposalId d) (vc_valueDigest d)
      (Some (co_round (vc_coordinate d))) (peer_vote o1 (precommit_for o1 d now) sender now) (fst s1) = (res, fst s')"
    by (auto simp: bindS_def rejected_def onRepository_def split: sum.splits prod.splits if_splits)
  with c d(2) peer_vote_payload have "votes_on_certificate o1 now m c (fst s1) (fst s')"
    unfolding votes_on_certificate_def by blast
  with same show ?thesis by blast
qed simp

text \<open>The membership that the port answers for a message.\<close>

definition answered :: "'k peer_options \<Rightarrow> clock_reading \<Rightarrow> coordinate \<Rightarrow> membership \<Rightarrow> bool" where
  "answered o1 now c m \<longleftrightarrow> po_membership o1 (co_policyDomainId c) (co_membershipEpoch c)
     (co_membershipConfigurationDigest c) (cl_logicalTimeMs now) = Inr (Some m)"

lemma handle_votes:
  assumes "handle o1 now e s = (r, s')" "\<not> same_votes (fst s) (fst s')"
  shows "\<exists>R m. same_votes (fst s) R \<and> answered o1 now (coordinateOf (en_payload e)) m
    \<and> validateCollectiveAgreementPayloadV1 (po_platform o1) (en_payload e) = Some (en_payload e)
    \<and> ((\<exists>p. en_payload e = AgreementProposal p \<and> votes_on_proposal o1 now m p R (fst s'))
       \<or> (\<exists>c t. en_payload e = AgreementCertificate c t \<and> votes_on_certificate o1 now m c R (fst s')))"
proof -
  let ?coordinate = "coordinateOf (en_payload e)"
  from assms have v: "verifyCollectiveAgreementLiveEnvelopeV1 (po_platform o1) (po_resolver o1) (cl_wallTime now)
      (peer_ttl o1) e = Some e"
    by (auto simp: handle_def rejected_def dest: live_envelope_verified split: option.splits)
  then have payload: "validateCollectiveAgreementPayloadV1 (po_platform o1) (en_payload e) = Some (en_payload e)"
    using live_envelope_verified[OF v]
    by (auto simp: verifyCollectiveAgreementEnvelopeV1_def validate_envelope_def Let_def dest: valid_payload_same
        split: option.splits if_splits)
  note h = assms(1)[unfolded handle_def v option.case Let_def]
  from h assms(2) obtain mo where mo: "po_membership o1 (co_policyDomainId ?coordinate) (co_membershipEpoch ?coordinate)
      (co_membershipConfigurationDigest ?coordinate) (cl_logicalTimeMs now) = Inr mo"
    by (auto simp: rejected_def bindS_def split: sum.splits if_splits)
  from h assms(2) obtain m m' where m: "mo = Some m'" "validateCollectiveAgreementMembershipV1 (po_platform o1) m' = Some m"
    by (cases mo) (auto simp: mo rejected_def bindS_def split: if_splits option.splits)
  then have m': "m' = m" using valid_membership_same by blast
  from h assms(2) have d: "(case en_payload e of
        AgreementProposal p \<Rightarrow> handle_proposal o1 (en_senderPeerId e) p m now
      | AgreementCertificate c t \<Rightarrow> handle_certificate o1 (en_senderPeerId e) c m now
      | AgreementCommit c t \<Rightarrow> handle_commit o1 (en_senderPeerId e) (en_messageId e) c m now
      | _ \<Rightarrow> rejected ''invalid_envelope'') s = (r, s')"
    by (auto simp: mo m rejected_def bindS_def split: if_splits)
  have a: "answered o1 now ?coordinate m" using mo m m' by (simp add: answered_def)
  show ?thesis
  proof (cases "en_payload e")
    case (AgreementProposal p)
    with d handle_proposal_votes assms(2) a payload show ?thesis by fastforce
  next
    case (AgreementCertificate c t)
    with d handle_certificate_votes assms(2) a payload show ?thesis by fastforce
  next
    case (AgreementCommit c t)
    with d votelessD[OF voteless_commit] assms(2) show ?thesis by fastforce
  qed (use d assms(2) in \<open>simp_all add: rejected_def\<close>)
qed

end
