(* ===== verification/AgVoting.thy ===== *)
theory AgVoting
  imports Main
begin

text \<open>
  What a validator promises about its votes, and what follows for the set of them. The interface
  is the locale \<open>locking\<close>: a transition system whose states say which honest validator has
  prevoted and precommitted what in which round, with the laws of one validator's votes (it votes
  once per round and phase, its rounds do not go back, it precommits what a quorum has prevoted,
  it leaves its lock only for a value that a quorum has prevoted since). The result is agreement:
  two values that quorums have precommitted are equal, whatever at most \<open>f\<close> of \<open>3 f + 1\<close>
  validators do. The agreement peers interpret it.
\<close>

definition quorum :: "'p set \<Rightarrow> 'p set \<Rightarrow> nat \<Rightarrow> ('p \<Rightarrow> bool) \<Rightarrow> bool" where
  "quorum validators honest f P \<longleftrightarrow>
     (\<exists>S \<subseteq> validators. 2 * f + 1 \<le> card S \<and> (\<forall>p \<in> S \<inter> honest. P p))"

lemma quorum_mono: "quorum V H f P \<Longrightarrow> (\<And>p. p \<in> H \<Longrightarrow> P p \<Longrightarrow> Q p) \<Longrightarrow> quorum V H f Q"
  unfolding quorum_def by blast

lemma quorum_meet:
  assumes "quorum V H f P" "quorum V H f Q" "finite V" "card V = 3 * f + 1" "card (V - H) \<le> f"
  obtains p where "p \<in> H" "P p" "Q p"
proof -
  from assms obtain S T where S: "S \<subseteq> V" "2 * f + 1 \<le> card S" "\<forall>p \<in> S \<inter> H. P p"
    and T: "T \<subseteq> V" "2 * f + 1 \<le> card T" "\<forall>p \<in> T \<inter> H. Q p"
    by (auto simp: quorum_def)
  have fin: "finite S" "finite T" using S T assms(3) finite_subset by auto
  have "card (S \<union> T) \<le> 3 * f + 1" using S T assms(3,4) by (metis Un_least card_mono)
  with S T card_Un_Int[OF fin] have "f + 1 \<le> card (S \<inter> T)" by linarith
  moreover have "card ((S \<inter> T) \<inter> (V - H)) \<le> f"
    using card_mono[of "V - H" "(S \<inter> T) \<inter> (V - H)"] assms(3,5) by auto
  ultimately have "\<not> S \<inter> T \<subseteq> V - H" by (metis Int_absorb2 add_leD2 not_one_le_zero add_le_same_cancel1 le_trans)
  then obtain p where "p \<in> S \<inter> T" "p \<in> H" using S(1) by blast
  with S(3) T(3) that show thesis by blast
qed

locale locking =
  fixes init :: "'s \<Rightarrow> bool"
    and step :: "'s \<Rightarrow> 's \<Rightarrow> bool"
    and validators :: "'p set"
    and honest :: "'p set"
    and f :: nat
    and prevote :: "'s \<Rightarrow> 'p \<Rightarrow> int \<Rightarrow> 'v \<Rightarrow> bool"
    and precommit :: "'s \<Rightarrow> 'p \<Rightarrow> int \<Rightarrow> 'v \<Rightarrow> bool"
  assumes population: "init s \<Longrightarrow> finite validators \<and> card validators = 3 * f + 1 \<and> card (validators - honest) \<le> f"
    and no_votes: "init s \<Longrightarrow> p \<in> honest \<Longrightarrow> \<not> prevote s p r v \<and> \<not> precommit s p r v"
    and votes_stay: "step s t \<Longrightarrow> p \<in> honest \<Longrightarrow>
      (prevote s p r v \<longrightarrow> prevote t p r v) \<and> (precommit s p r v \<longrightarrow> precommit t p r v)"
    and vote_once: "p \<in> honest \<Longrightarrow>
      (prevote s p r v \<longrightarrow> prevote s p r w \<longrightarrow> v = w) \<and> (precommit s p r v \<longrightarrow> precommit s p r w \<longrightarrow> v = w)"
    and prevote_rule: "init s0 \<Longrightarrow> step\<^sup>*\<^sup>* s0 s \<Longrightarrow> step s t \<Longrightarrow> p \<in> honest \<Longrightarrow>
      \<not> prevote s p r v \<Longrightarrow> prevote t p r v \<Longrightarrow> precommit t p r0 v0 \<Longrightarrow> v0 \<noteq> v \<Longrightarrow>
      (\<exists>r1. r0 \<le> r1 \<and> r1 < r \<and> quorum validators honest f (\<lambda>q. prevote s q r1 v))
      \<or> (\<exists>r1. r0 \<le> r1 \<and> r1 \<le> r \<and> precommit s p r1 v)"
    and precommit_rule: "init s0 \<Longrightarrow> step\<^sup>*\<^sup>* s0 s \<Longrightarrow> step s t \<Longrightarrow> p \<in> honest \<Longrightarrow>
      \<not> precommit s p r v \<Longrightarrow> precommit t p r v \<Longrightarrow>
      quorum validators honest f (\<lambda>q. prevote s q r v) \<and> (\<forall>r1 w. prevote t p r1 w \<longrightarrow> r1 \<le> r)"
begin

text \<open>
  A prevote is justified when every conflicting precommit of the same validator in an earlier
  round has been overtaken by a quorum; a value is supported when a quorum has prevoted it with
  justification.
\<close>

definition justified :: "'s \<Rightarrow> 'p \<Rightarrow> int \<Rightarrow> 'v \<Rightarrow> bool" where
  "justified s p r v \<longleftrightarrow> (\<forall>r0 v0. precommit s p r0 v0 \<longrightarrow> r0 < r \<longrightarrow> v0 \<noteq> v \<longrightarrow>
     (\<exists>r1. r0 \<le> r1 \<and> r1 < r \<and> quorum validators honest f (\<lambda>q. prevote s q r1 v)))"

definition supported :: "'s \<Rightarrow> int \<Rightarrow> 'v \<Rightarrow> bool" where
  "supported s r v \<longleftrightarrow> quorum validators honest f (\<lambda>p. prevote s p r v \<and> justified s p r v)"

definition sound :: "'s \<Rightarrow> bool" where
  "sound s \<longleftrightarrow> (\<forall>p \<in> honest. \<forall>r v.
     (precommit s p r v \<longrightarrow> supported s r v)
     \<and> (prevote s p r v \<longrightarrow> justified s p r v \<or> supported s r v))"

lemma quorum_supported:
  assumes "sound s" "quorum validators honest f (\<lambda>p. prevote s p r v)"
  shows "supported s r v"
proof (cases "supported s r v")
  case False
  with assms(1) have "\<And>p. p \<in> honest \<Longrightarrow> prevote s p r v \<Longrightarrow> prevote s p r v \<and> justified s p r v"
    by (auto simp: sound_def)
  from quorum_mono[OF assms(2) this] show ?thesis by (simp add: supported_def)
qed simp

lemma votes_persist:
  assumes "step s t" "p \<in> honest"
  shows "prevote s p r v \<Longrightarrow> prevote t p r v" "precommit s p r v \<Longrightarrow> precommit t p r v"
  using votes_stay[OF assms] by blast+

lemma quorum_persists:
  "step s t \<Longrightarrow> quorum validators honest f (\<lambda>p. prevote s p r v) \<Longrightarrow> quorum validators honest f (\<lambda>p. prevote t p r v)"
  by (erule quorum_mono) (rule votes_persist)

lemma justified_persists:
  assumes "init s0" "step\<^sup>*\<^sup>* s0 s" "step s t" "p \<in> honest" "prevote s p r v" "justified s p r v"
  shows "justified t p r v"
  unfolding justified_def
proof (intro allI impI)
  fix r0 v0 assume h: "precommit t p r0 v0" "r0 < r" "v0 \<noteq> v"
  have "prevote t p r v" using votes_persist assms by blast
  with precommit_rule[OF assms(1-4)] h have "precommit s p r0 v0" by fastforce
  with h assms(6) quorum_persists[OF assms(3)] show
    "\<exists>r1. r0 \<le> r1 \<and> r1 < r \<and> quorum validators honest f (\<lambda>q. prevote t q r1 v)"
    unfolding justified_def by blast
qed

lemma supported_persists:
  assumes "init s0" "step\<^sup>*\<^sup>* s0 s" "step s t" "supported s r v"
  shows "supported t r v"
  using assms(4) unfolding supported_def
  by (rule quorum_mono) (use votes_persist justified_persists assms in blast)

lemma sound_initially: "init s \<Longrightarrow> sound s"
  using no_votes by (simp add: sound_def)

lemma sound_step:
  assumes "init s0" "step\<^sup>*\<^sup>* s0 s" "step s t" "sound s"
  shows "sound t"
  unfolding sound_def
proof (intro ballI allI conjI impI)
  fix p r v assume p: "p \<in> honest"
  { assume c: "precommit t p r v"
    have "supported s r v"
    proof (cases "precommit s p r v")
      case True
      then show ?thesis using assms(4) p by (auto simp: sound_def)
    next
      case False
      then show ?thesis using precommit_rule[OF assms(1-3) p _ c] quorum_supported[OF assms(4)] by blast
    qed
    then show "supported t r v" by (rule supported_persists[OF assms(1-3)]) }
  assume v: "prevote t p r v"
  show "justified t p r v \<or> supported t r v"
  proof (cases "prevote s p r v")
    case True
    with assms(4) p consider "justified s p r v" | "supported s r v" unfolding sound_def by blast
    then show ?thesis
      using justified_persists[OF assms(1-3) p True] supported_persists[OF assms(1-3)] by cases blast+
  next
    case new: False
    have "justified t p r v" if u: "\<not> supported t r v"
      unfolding justified_def
    proof (intro allI impI)
      fix r0 v0 assume h: "precommit t p r0 v0" "r0 < r" "v0 \<noteq> v"
      from prevote_rule[OF assms(1-3) p new v h(1,3)]
      show "\<exists>r1. r0 \<le> r1 \<and> r1 < r \<and> quorum validators honest f (\<lambda>q. prevote t q r1 v)"
      proof (elim disjE exE conjE)
        fix r1 assume r1: "r0 \<le> r1" "r1 \<le> r" "precommit s p r1 v"
        then have sup: "supported t r1 v"
          using assms(4) p supported_persists[OF assms(1-3)] by (auto simp: sound_def)
        moreover from sup u have "r1 \<noteq> r" by blast
        ultimately show ?thesis using r1 quorum_mono[of validators honest f _ "\<lambda>q. prevote t q r1 v"]
          unfolding supported_def by (intro exI[of _ r1]) auto
      qed (use quorum_persists[OF assms(3)] in blast)
    qed
    then show ?thesis by blast
  qed
qed

lemma sound_reachable:
  assumes "init s0" "step\<^sup>*\<^sup>* s0 s"
  shows "sound s"
  using assms(2)
  by (induction rule: rtranclp_induct) (auto intro: sound_initially sound_step assms(1))

text \<open>Nothing else is prevoted by a quorum once a quorum has precommitted a value.\<close>

lemma locked_value:
  assumes "init s0" "step\<^sup>*\<^sup>* s0 s"
    and "quorum validators honest f (\<lambda>p. precommit s p r0 v0)"
    and "quorum validators honest f (\<lambda>p. prevote s p r v)" "r0 \<le> r"
  shows "v = v0"
  using assms(4,5)
proof (induction "nat (r - r0)" arbitrary: r rule: less_induct)
  case less
  note sound = sound_reachable[OF assms(1,2)]
  note meet = quorum_meet[OF _ _ population[OF assms(1), THEN conjunct1]
      population[OF assms(1), THEN conjunct2, THEN conjunct1] population[OF assms(1), THEN conjunct2, THEN conjunct2]]
  show ?case
  proof (cases "r = r0")
    case True
    from meet[OF assms(3) assms(3)] obtain p where "p \<in> honest" "precommit s p r0 v0" by blast
    with sound have "supported s r0 v0" by (auto simp: sound_def)
    then have "quorum validators honest f (\<lambda>p. prevote s p r0 v0)"
      unfolding supported_def by (rule quorum_mono) simp
    from meet[OF this less.prems(1)[unfolded True]] obtain p where "p \<in> honest" "prevote s p r0 v0" "prevote s p r0 v"
      by blast
    then show ?thesis using vote_once[of p s r0 v v0] by blast
  next
    case False
    with less.prems have r: "r0 < r" by simp
    from quorum_supported[OF sound less.prems(1)]
    have "quorum validators honest f (\<lambda>p. prevote s p r v \<and> justified s p r v)" by (simp add: supported_def)
    from meet[OF assms(3) this] obtain p where p: "precommit s p r0 v0" "justified s p r v" by blast
    show ?thesis
    proof (rule ccontr)
      assume "v \<noteq> v0"
      with p r obtain r1 where r1: "r0 \<le> r1" "r1 < r" "quorum validators honest f (\<lambda>q. prevote s q r1 v)"
        unfolding justified_def by blast
      from r1(1,2) have "nat (r1 - r0) < nat (r - r0)" by simp
      from less.hyps[OF this r1(3,1)] \<open>v \<noteq> v0\<close> show False by simp
    qed
  qed
qed

theorem same_value:
  assumes "init s0" "step\<^sup>*\<^sup>* s0 s"
    and "quorum validators honest f (\<lambda>p. precommit s p r v)" "quorum validators honest f (\<lambda>p. prevote s p r v)"
    and "quorum validators honest f (\<lambda>p. precommit s p r' v')" "quorum validators honest f (\<lambda>p. prevote s p r' v')"
  shows "v = v'"
  using locked_value[OF assms(1,2)] assms(3-6) by (metis linorder_le_cases)

end

end
