(* ===== verification/AgNetwork.thy ===== *)
theory AgNetwork
  imports AgPeerFacts AgVoting
begin

text \<open>
  A network of agreement peers deciding one height of one slot. The honest validators run the
  code; the others send what they like. A step is one honest validator handling one message,
  whatever the message and whatever its ports answer, under the assumptions that the cryptography
  and the environment are there to provide (\<open>admissible\<close>):
  a verified vote of an honest validator is one it has recorded (signatures are not forged), and
  the membership port has one membership for this height. A run records the certificates that
  verified where they were delivered. As long as each of them says of itself what its votes say
  (\<open>bound\<close>, which the code does not check) the honest validators satisfy the interface
  \<open>locking\<close>, so two values can only be committed behind a certificate that does not.
\<close>

record 'k network =
  nw_membership :: membership
  nw_honest :: "string set"
  nw_options :: "string \<Rightarrow> 'k peer_options"
  nw_base :: coordinate

type_synonym network_state = "string \<Rightarrow> peer_state"

definition voters :: "'k network \<Rightarrow> string set" where
  "voters N = va_peerId ` set (me_validators (nw_membership N))"

definition faults :: "'k network \<Rightarrow> nat" where
  "faults N = nat (me_faultThreshold (nw_membership N))"

definition well_formed :: "'k network \<Rightarrow> bool" where
  "well_formed N \<longleftrightarrow> keyed (nw_base N)
     \<and> (\<exists>P :: 'k platform. validateCollectiveAgreementMembershipV1 P (nw_membership N) = Some (nw_membership N))
     \<and> card (voters N - nw_honest N) \<le> faults N"

definition initial :: "'k network \<Rightarrow> network_state \<Rightarrow> bool" where
  "initial N s \<longleftrightarrow> well_formed N \<and> s = (\<lambda>_. (empty_repository, []))"

fun payload_certificates :: "agreement_payload \<Rightarrow> vote_certificate list" where
  "payload_certificates (AgreementProposal p) = (case pp_justification p of None \<Rightarrow> [] | Some c \<Rightarrow> [c])"
| "payload_certificates (AgreementCertificate c t) = [c]"
| "payload_certificates (AgreementCommit c t) = [cc_prevoteCertificate c, cc_precommitCertificate c]"
| "payload_certificates _ = []"

text \<open>Every verified vote of an honest validator is one that it has recorded.\<close>

definition unforged :: "'k network \<Rightarrow> network_state \<Rightarrow> 'k platform \<Rightarrow> 'k resolver \<Rightarrow> string \<Rightarrow> vote_certificate \<Rightarrow> bool" where
  "unforged N s P resolve verifiedAt c \<longleftrightarrow> (\<forall>v \<in> set (vc_votes c).
     verify_vote P resolve verifiedAt v \<longrightarrow> en_senderPeerId v \<in> nw_honest N \<longrightarrow>
     (\<exists>k w. rp_localVotes (fst (s (en_senderPeerId v))) k = Some w \<and> en_payload w = en_payload v))"

definition admissible :: "'k network \<Rightarrow> network_state \<Rightarrow> string \<Rightarrow> clock_reading \<Rightarrow> agreement_payload \<Rightarrow> bool" where
  "admissible N s p now payload \<longleftrightarrow>
     (let o1 = nw_options N p in
      (\<forall>c \<in> set (payload_certificates payload). unforged N s (po_platform o1) (po_resolver o1) (cl_wallTime now) c)
      \<and> (same_height (nw_base N) (coordinateOf payload) \<longrightarrow>
           (\<forall>m. answered o1 now (coordinateOf payload) m \<longrightarrow> m = nw_membership N)))"

text \<open>The certificates of a message that its receiver verifies.\<close>

definition verified_certificates :: "'k network \<Rightarrow> string \<Rightarrow> clock_reading \<Rightarrow> agreement_payload \<Rightarrow> vote_certificate list" where
  "verified_certificates N p now payload =
     (let o1 = nw_options N p in
      filter (\<lambda>c. verifyVoteCertificate (po_platform o1) (po_resolver o1) (cl_wallTime now) (nw_membership N) False c
        = Inr (Some c)) (payload_certificates payload))"

inductive net_step :: "'k network \<Rightarrow> network_state \<Rightarrow> vote_certificate list \<Rightarrow> network_state \<Rightarrow> bool" for N where
  deliver: "p \<in> nw_honest N \<Longrightarrow> admissible N s p now (en_payload e) \<Longrightarrow>
    handle (nw_options N p) now e (s p) = (r, t) \<Longrightarrow>
    net_step N s (verified_certificates N p now (en_payload e)) (s(p := t))"

inductive_cases net_stepE: "net_step N s cs t"

text \<open>A run, with the certificates that were delivered and verified in it.\<close>

inductive net_run :: "'k network \<Rightarrow> network_state \<Rightarrow> vote_certificate list \<Rightarrow> network_state \<Rightarrow> bool" for N where
  here: "net_run N s [] s"
| more: "net_run N s cs t \<Longrightarrow> net_step N t ds u \<Longrightarrow> net_run N s (cs @ ds) u"

text \<open>The steps in which every certificate that verified states the fields of its votes.\<close>

definition bound_step :: "'k network \<Rightarrow> network_state \<Rightarrow> network_state \<Rightarrow> bool" where
  "bound_step N s t \<longleftrightarrow> (\<exists>cs. net_step N s cs t \<and> (\<forall>c \<in> set cs. bound c))"

lemma bound_run:
  assumes "net_run N s cs t" "\<forall>c \<in> set cs. bound c"
  shows "(bound_step N)\<^sup>*\<^sup>* s t"
  using assms
proof (induction rule: net_run.induct)
  case (more s cs t ds u)
  then have "bound_step N t u" by (auto simp: bound_step_def)
  with more show ?case by (auto intro: rtranclp.rtrancl_into_rtrancl)
qed simp

definition prevoted :: "'k network \<Rightarrow> network_state \<Rightarrow> string \<Rightarrow> int \<Rightarrow> string option \<Rightarrow> bool" where
  "prevoted N s p r v \<longleftrightarrow>
     (\<exists>w. vote_at (fst (s p)) (nw_base N) Prevote r = Some w \<and> vp_valueDigest (en_payload w) = v)"

definition precommitted :: "'k network \<Rightarrow> network_state \<Rightarrow> string \<Rightarrow> int \<Rightarrow> string option \<Rightarrow> bool" where
  "precommitted N s p r v \<longleftrightarrow>
     (\<exists>w. vote_at (fst (s p)) (nw_base N) Precommit r = Some w \<and> vp_valueDigest (en_payload w) = v)"

subsection \<open>The record of one validator\<close>

definition repository_ok :: "repository \<Rightarrow> coordinate \<Rightarrow> bool" where
  "repository_ok R b \<longleftrightarrow> votes_match R \<and> lock_ok R b"

lemma repository_ok_empty: "repository_ok empty_repository b"
  by (simp add: repository_ok_def votes_match_def lock_ok_def vote_at_def empty_repository_def)

lemma repository_ok_same: "same_votes R R' \<Longrightarrow> repository_ok R b \<Longrightarrow> repository_ok R' b"
  by (simp add: same_votes_def repository_ok_def votes_match_def lock_ok_def vote_at_def)

lemma proposal_keyed:
  "validateCollectiveAgreementPayloadV1 P (AgreementProposal p) = Some q \<Longrightarrow> keyed (pp_coordinate p)"
  by (auto intro: keyed_valid split: if_splits)

lemma certificate_keyed:
  "validateCollectiveAgreementPayloadV1 P (AgreementCertificate c t) = Some q \<Longrightarrow> keyed (vc_coordinate c)"
  by (auto simp: validateCollectiveAgreementVoteCertificateShapeV1_def intro: keyed_valid split: if_splits)

lemma repository_ok_handle:
  assumes "handle o1 now e s = (r, s')" "repository_ok (fst s) b" "keyed b"
  shows "repository_ok (fst s') b"
proof (cases "same_votes (fst s) (fst s')")
  case True
  then show ?thesis using assms(2) repository_ok_same by blast
next
  case False
  from handle_votes[OF assms(1) False] obtain R m where R: "same_votes (fst s) R"
    and p: "validateCollectiveAgreementPayloadV1 (po_platform o1) (en_payload e) = Some (en_payload e)"
    and v: "(\<exists>p. en_payload e = AgreementProposal p \<and> votes_on_proposal o1 now m p R (fst s'))
       \<or> (\<exists>c t. en_payload e = AgreementCertificate c t \<and> votes_on_certificate o1 now m c R (fst s'))" by blast
  have ok: "votes_match R" "lock_ok R b" using repository_ok_same[OF R assms(2)] by (simp_all add: repository_ok_def)
  from v show ?thesis
  proof (elim disjE exE conjE)
    fix q assume q: "en_payload e = AgreementProposal q" "votes_on_proposal o1 now m q R (fst s')"
    from p q(1) proposal_keyed have k: "keyed (pp_coordinate q)" by metis
    from q(2) obtain create res where rec: "recordLocalVote (pp_coordinate q) Prevote (pp_proposalId q)
        (Some (av_valueDigest (pp_value q))) (pp_validRound q) create R = (res, fst s')"
      and c: "\<And>v. create = Inr v \<Longrightarrow> en_payload v = prevote_for o1 q now" unfolding votes_on_proposal_def by blast
    from votes_match_record[OF ok(1) rec k] lock_ok_record[OF ok(2) rec assms(3) k] c show ?thesis
      by (simp add: repository_ok_def prevote_for_def)
  next
    fix c t assume q: "en_payload e = AgreementCertificate c t" "votes_on_certificate o1 now m c R (fst s')"
    from p q(1) certificate_keyed have k: "keyed (vc_coordinate c)" by metis
    from q(2) obtain create res where rec: "recordLocalVote (vc_coordinate c) Precommit (vc_proposalId c)
        (vc_valueDigest c) (Some (co_round (vc_coordinate c))) create R = (res, fst s')"
      and c: "\<And>v. create = Inr v \<Longrightarrow> en_payload v = precommit_for o1 c now" unfolding votes_on_certificate_def by blast
    from votes_match_record[OF ok(1) rec k] lock_ok_record[OF ok(2) rec assms(3) k] c show ?thesis
      by (simp add: repository_ok_def precommit_for_def)
  qed
qed

lemma reachable_ok:
  assumes "initial N s0" "(bound_step N)\<^sup>*\<^sup>* s0 s"
  shows "repository_ok (fst (s p)) (nw_base N)"
  using assms(2)
proof (induction rule: rtranclp_induct)
  case base
  then show ?case using assms(1) repository_ok_empty by (simp add: initial_def)
next
  case (step t u)
  have k: "keyed (nw_base N)" using assms(1) by (simp add: initial_def well_formed_def)
  from step(2) obtain q now e r x where u: "u = t(q := x)" "handle (nw_options N q) now e (t q) = (r, x)"
    unfolding bound_step_def by (elim exE conjE net_stepE) blast
  from repository_ok_handle[OF u(2) _ k] step(3) show ?case by (cases "q = p") (simp_all add: u(1))
qed

subsection \<open>Votes are kept\<close>

lemma record_keeps:
  assumes "recordLocalVote c phase proposalId valueDigest justifiedRound create R = (res, R')" "rp_localVotes R k = Some w"
  shows "rp_localVotes R' k = Some w"
  using assms(1) by (cases rule: recordLocalVote_cases) (use assms(2) in auto)

lemma handle_keeps:
  assumes "handle o1 now e s = (r, s')" "rp_localVotes (fst s) k = Some w"
  shows "rp_localVotes (fst s') k = Some w"
proof (cases "same_votes (fst s) (fst s')")
  case False
  from handle_votes[OF assms(1) this] obtain R c phase proposalId valueDigest justifiedRound create res where
    R: "same_votes (fst s) R" "recordLocalVote c phase proposalId valueDigest justifiedRound create R = (res, fst s')"
    unfolding votes_on_proposal_def votes_on_certificate_def by blast
  from record_keeps[OF R(2)] R(1) assms(2) show ?thesis by (simp add: same_votes_def)
qed (use assms in \<open>simp add: same_votes_def\<close>)

lemma net_step_keeps:
  assumes "net_step N s cs t" "rp_localVotes (fst (s p)) k = Some w"
  shows "rp_localVotes (fst (t p)) k = Some w"
proof -
  from assms(1) obtain q now e r x where u: "t = s(q := x)" "handle (nw_options N q) now e (s q) = (r, x)"
    by (elim net_stepE) blast
  from handle_keeps[OF u(2)] assms(2) show ?thesis by (cases "q = p") (simp_all add: u(1))
qed

subsection \<open>The laws of a validator's votes\<close>

lemma certificate_quorum:
  assumes "well_formed N" "verifyVoteCertificate P resolve t (nw_membership N) False c = Inr (Some c)"
    and "bound c" "unforged N s P resolve t c" "same_height (nw_base N) (vc_coordinate c)" "valid_coordinate (vc_coordinate c)"
    and "\<And>p. p \<in> nw_honest N \<Longrightarrow> votes_match (fst (s p))"
  shows "quorum (voters N) (nw_honest N) (faults N) (\<lambda>p. \<exists>w. vote_at (fst (s p)) (nw_base N) (vc_phase c)
           (co_round (vc_coordinate c)) = Some w \<and> vp_valueDigest (en_payload w) = vc_valueDigest c)"
proof -
  note cert = verify_certificate_Some[OF assms(2)]
  let ?S = "en_senderPeerId ` set (vc_votes c)"
  have "0 < me_faultThreshold (nw_membership N)" using valid_membership_facts(3)[OF cert(3)] .
  with cert(4) have "2 * faults N + 1 \<le> length (vc_votes c)" and d: "distinct (map en_senderPeerId (vc_votes c))"
    by (auto simp: certified_by_def faults_def collectiveAgreementQuorumThresholdV1_def)
  moreover have "card ?S = length (vc_votes c)" using distinct_card[OF d] by simp
  moreover have "?S \<subseteq> voters N" 
  proof clarify
    fix v assume "v \<in> set (vc_votes c)"
    with cert(4) obtain x where "x \<in> set (me_validators (nw_membership N))" "va_peerId x = en_senderPeerId v"
      by (auto simp: certified_by_def)
    then show "en_senderPeerId v \<in> voters N" by (metis imageI voters_def)
  qed
  moreover have "\<exists>w. vote_at (fst (s p)) (nw_base N) (vc_phase c) (co_round (vc_coordinate c)) = Some w
      \<and> vp_valueDigest (en_payload w) = vc_valueDigest c" if p: "p \<in> ?S \<inter> nw_honest N" for p
  proof -
    from p obtain v where v: "v \<in> set (vc_votes c)" "en_senderPeerId v = p" by auto
    with cert(4) have "verify_vote P resolve t v" by (simp add: certified_by_def)
    with assms(4) v p obtain k w where w: "rp_localVotes (fst (s p)) k = Some w" "en_payload w = en_payload v"
      unfolding unforged_def by auto
    from assms(3) v have b: "vp_phase (en_payload w) = vc_phase c" "vp_coordinate (en_payload w) = vc_coordinate c"
      "vp_valueDigest (en_payload w) = vc_valueDigest c" by (simp_all add: bound_def w(2))
    have "votes_match (fst (s p))" using assms(7) p by blast
    with w(1) b have "k = voteKey (vc_coordinate c) (vc_phase c) ''local''"
      unfolding votes_match_def by metis
    moreover have "voteKey ((nw_base N)\<lparr>co_round := co_round (vc_coordinate c)\<rparr>) (vc_phase c) ''local''
        = voteKey (vc_coordinate c) (vc_phase c) ''local''"
      using assms(1,5) keyed_valid[OF assms(6)] by (simp add: voteKey_at well_formed_def)
    ultimately show ?thesis using w(1) b by (simp add: vote_at_def)
  qed
  ultimately show ?thesis unfolding quorum_def by (intro exI[of _ ?S]) auto
qed

text \<open>Where a vote of this height that was not there before comes from.\<close>

lemma new_vote:
  assumes "net_step N s cs t" "well_formed N"
    and "vote_at (fst (s p)) (nw_base N) phase r = None" "vote_at (fst (t p)) (nw_base N) phase r = Some w"
  obtains (proposal) now q m where "admissible N s p now (AgreementProposal q)"
      "answered (nw_options N p) now (pp_coordinate q) m"
      "validateCollectiveAgreementPayloadV1 (po_platform (nw_options N p)) (AgreementProposal q) = Some (AgreementProposal q)"
      "case pp_justification q of None \<Rightarrow> True
        | Some c \<Rightarrow> verifyVoteCertificate (po_platform (nw_options N p)) (po_resolver (nw_options N p)) (cl_wallTime now) m False c
              = Inr (Some c) \<and> justifies c q"
      "phase = Prevote" "same_height (nw_base N) (pp_coordinate q)" "r = co_round (pp_coordinate q)"
      "vp_valueDigest (en_payload w) = Some (av_valueDigest (pp_value q))"
      "admits_vote (state_of (fst (s p)) (pp_coordinate q)) r Prevote (Some (av_valueDigest (pp_value q))) (pp_validRound q)"
      "\<And>r1. vote_at (fst (t p)) (nw_base N) Precommit r1 = vote_at (fst (s p)) (nw_base N) Precommit r1"
      "cs = verified_certificates N p now (AgreementProposal q)"
  | (certificate) now c time m where "admissible N s p now (AgreementCertificate c time)"
      "answered (nw_options N p) now (vc_coordinate c) m"
      "validateCollectiveAgreementVoteCertificateShapeV1 c = Some c"
      "verifyVoteCertificate (po_platform (nw_options N p)) (po_resolver (nw_options N p)) (cl_wallTime now) m False c = Inr (Some c)"
      "vc_phase c = Prevote" "phase = Precommit" "same_height (nw_base N) (vc_coordinate c)" "r = co_round (vc_coordinate c)"
      "vp_valueDigest (en_payload w) = vc_valueDigest c"
      "\<exists>x. rp_states (fst (t p)) (coordinateKey (nw_base N)) = Some x \<and> as_highestRound x = r"
      "cs = verified_certificates N p now (AgreementCertificate c time)"
proof -
  from assms(1) obtain p' now e res x where u: "t = s(p' := x)" "handle (nw_options N p') now e (s p') = (res, x)"
    and adm: "admissible N s p' now (en_payload e)" "cs = verified_certificates N p' now (en_payload e)"
    by (elim net_stepE) blast
  from assms(3,4) u(1) have p': "p' = p" by (cases "p' = p") simp_all
  have base: "keyed (nw_base N)" using assms(2) by (simp add: well_formed_def)
  have "\<not> same_votes (fst (s p)) (fst x)" using assms(3,4) u(1) p' by (auto simp: same_votes_def vote_at_def)
  from handle_votes[OF u(2)[unfolded p'] this] obtain R m where R: "same_votes (fst (s p)) R"
    and m: "answered (nw_options N p) now (coordinateOf (en_payload e)) m"
    and pl: "validateCollectiveAgreementPayloadV1 (po_platform (nw_options N p)) (en_payload e) = Some (en_payload e)"
    and v: "(\<exists>q. en_payload e = AgreementProposal q \<and> votes_on_proposal (nw_options N p) now m q R (fst x))
       \<or> (\<exists>c t. en_payload e = AgreementCertificate c t \<and> votes_on_certificate (nw_options N p) now m c R (fst x))" by blast
  have old: "vote_at R (nw_base N) phase r = None" using assms(3) R by (simp add: same_votes_def vote_at_def)
  have new: "vote_at (fst x) (nw_base N) phase r = Some w" using assms(4) u(1) p' by simp
  have state: "state_of R c = state_of (fst (s p)) c" for c using R by (simp add: same_votes_def state_of_def)
  from v show thesis
  proof (elim disjE exE conjE)
    fix q assume q: "en_payload e = AgreementProposal q" "votes_on_proposal (nw_options N p) now m q R (fst x)"
    from q(2) obtain create res where rec: "recordLocalVote (pp_coordinate q) Prevote (pp_proposalId q)
        (Some (av_valueDigest (pp_value q))) (pp_validRound q) create R = (res, fst x)" unfolding votes_on_proposal_def by blast
    have k: "keyed (pp_coordinate q)" using pl q(1) proposal_keyed by metis
    from rec show thesis
    proof (cases rule: recordLocalVote_cases)
      case (vote w')
      have at: "vote_at (fst x) (nw_base N) ph r1 = (if same_height (nw_base N) (pp_coordinate q)
          \<and> r1 = co_round (pp_coordinate q) \<and> ph = Prevote then Some w' else vote_at R (nw_base N) ph r1)" for ph r1
        by (simp add: vote(8) vote_at_def voteKey_at base k)
      from new old have h: "same_height (nw_base N) (pp_coordinate q)" "r = co_round (pp_coordinate q)" "phase = Prevote" "w = w'"
        by (auto simp: at split: if_splits)
      have pc: "vote_at (fst (t p)) (nw_base N) Precommit r1 = vote_at (fst (s p)) (nw_base N) Precommit r1" for r1
        using R by (simp add: u(1) p' at) (simp add: vote_at_def same_votes_def)
      show thesis
        by (rule proposal[of now q m]) (use adm m pl q h vote state pc in \<open>simp_all add: p' votes_on_proposal_def
            del: validateCollectiveAgreementPayloadV1.simps\<close>)
    qed (use old new in \<open>simp_all add: vote_at_def\<close>)
  next
    fix c time assume q: "en_payload e = AgreementCertificate c time" "votes_on_certificate (nw_options N p) now m c R (fst x)"
    from q(2) obtain create res where rec: "recordLocalVote (vc_coordinate c) Precommit (vc_proposalId c)
        (vc_valueDigest c) (Some (co_round (vc_coordinate c))) create R = (res, fst x)" unfolding votes_on_certificate_def by blast
    have k: "keyed (vc_coordinate c)" using pl q(1) certificate_keyed by metis
    from rec show thesis
    proof (cases rule: recordLocalVote_cases)
      case (vote w')
      have at: "vote_at (fst x) (nw_base N) ph r1 = (if same_height (nw_base N) (vc_coordinate c)
          \<and> r1 = co_round (vc_coordinate c) \<and> ph = Precommit then Some w' else vote_at R (nw_base N) ph r1)" for ph r1
        by (simp add: vote(8) vote_at_def voteKey_at base k)
      from new old have h: "same_height (nw_base N) (vc_coordinate c)" "r = co_round (vc_coordinate c)" "phase = Precommit" "w = w'"
        by (auto simp: at split: if_splits)
      have st: "rp_states (fst x) (coordinateKey (nw_base N)) = Some (voted_state (state_of R (vc_coordinate c)) r Precommit (vc_valueDigest c))"
        using vote(8) same_height_key[OF h(1)] h(2) by simp
      show thesis
        by (rule certificate[of now c time m]) (use adm m pl q h vote st in \<open>auto simp: p' votes_on_certificate_def
            u(1) voted_state_def split: if_splits option.splits dest: valid_vote_certificate_same\<close>)
    qed (use old new in \<open>simp_all add: vote_at_def\<close>)
  qed
qed

end
