(* ===== verification/AgSafety.thy ===== *)
theory AgSafety
  imports AgNetwork
begin

text \<open>
  The agreement peers satisfy the interface \<open>locking\<close>, so what is proved inside it holds of
  every network of them: as long as the certificates state the fields of their votes, two of them
  that commit values at the same height commit the same value.
\<close>

lemma proposal_justification:
  assumes "validateCollectiveAgreementPayloadV1 P (AgreementProposal q) = Some x" "pp_validRound q = Some j"
  obtains c where "pp_justification q = Some c" "validateCollectiveAgreementVoteCertificateShapeV1 c = Some c"
  using assms by (auto dest: valid_vote_certificate_same split: if_splits option.splits)

lemma shape_coordinate:
  "validateCollectiveAgreementVoteCertificateShapeV1 c = Some d \<Longrightarrow> valid_coordinate (vc_coordinate c)"
  by (auto simp: validateCollectiveAgreementVoteCertificateShapeV1_def split: if_splits)

lemma votes_match_reachable:
  "initial N s0 \<Longrightarrow> (bound_step N)\<^sup>*\<^sup>* s0 s \<Longrightarrow> votes_match (fst (s p)) \<and> lock_ok (fst (s p)) (nw_base N)"
  using reachable_ok repository_ok_def by blast

lemma prevoted_quorum:
  assumes "initial N s0" "(bound_step N)\<^sup>*\<^sup>* s0 s" "verifyVoteCertificate P resolve t (nw_membership N) False c = Inr (Some c)"
    "bound c" "unforged N s P resolve t c" "same_height (nw_base N) (vc_coordinate c)" "vc_phase c = Prevote"
  shows "quorum (voters N) (nw_honest N) (faults N) (\<lambda>p. prevoted N s p (co_round (vc_coordinate c)) (vc_valueDigest c))"
  using certificate_quorum[OF _ assms(3-6)] shape_coordinate verify_certificate_Some(2)[OF assms(3)]
    votes_match_reachable[OF assms(1,2)] assms(1,7)
  unfolding prevoted_def initial_def by simp

lemma precommitted_quorum:
  assumes "initial N s0" "(bound_step N)\<^sup>*\<^sup>* s0 s" "verifyVoteCertificate P resolve t (nw_membership N) False c = Inr (Some c)"
    "bound c" "unforged N s P resolve t c" "same_height (nw_base N) (vc_coordinate c)" "vc_phase c = Precommit"
  shows "quorum (voters N) (nw_honest N) (faults N) (\<lambda>p. precommitted N s p (co_round (vc_coordinate c)) (vc_valueDigest c))"
  using certificate_quorum[OF _ assms(3-6)] shape_coordinate verify_certificate_Some(2)[OF assms(3)]
    votes_match_reachable[OF assms(1,2)] assms(1,7)
  unfolding precommitted_def initial_def by simp

lemma law_population:
  assumes "initial N s"
  shows "finite (voters N) \<and> card (voters N) = 3 * faults N + 1 \<and> card (voters N - nw_honest N) \<le> faults N"
proof -
  from assms obtain P :: "'a platform" where
    "validateCollectiveAgreementMembershipV1 P (nw_membership N) = Some (nw_membership N)"
    by (auto simp: initial_def well_formed_def)
  note m = valid_membership_facts[OF this]
  from distinct_card[OF m(1)] m(2,3) have "card (voters N) = 3 * faults N + 1"
    by (simp add: voters_def faults_def)
  with assms show ?thesis by (simp add: initial_def well_formed_def voters_def)
qed

lemma law_prevote:
  assumes "initial N s0" "(bound_step N)\<^sup>*\<^sup>* s0 s" "bound_step N s t"
    and "\<not> prevoted N s p r v" "prevoted N t p r v" "precommitted N t p r0 v0" "v0 \<noteq> v"
  shows "(\<exists>r1. r0 \<le> r1 \<and> r1 < r \<and> quorum (voters N) (nw_honest N) (faults N) (\<lambda>q. prevoted N s q r1 v))
    \<or> (\<exists>r1. r0 \<le> r1 \<and> r1 \<le> r \<and> precommitted N s p r1 v)"
proof -
  have wf: "well_formed N" using assms(1) by (simp add: initial_def)
  from assms(3) obtain cs where st: "net_step N s cs t" and bd: "\<And>x. x \<in> set cs \<Longrightarrow> bound x"
    by (auto simp: bound_step_def)
  from assms(5) obtain w where w: "vote_at (fst (t p)) (nw_base N) Prevote r = Some w" "vp_valueDigest (en_payload w) = v"
    by (auto simp: prevoted_def)
  have "vote_at (fst (s p)) (nw_base N) Prevote r = None"
    using assms(4) w net_step_keeps[OF st] unfolding prevoted_def vote_at_def by (metis not_None_eq option.inject)
  from st wf this w(1) show ?thesis
  proof (cases rule: new_vote)
    case (proposal now q m)
    from assms(6) proposal(10) obtain x where x: "vote_at (fst (s p)) (nw_base N) Precommit r0 = Some x"
      "vp_valueDigest (en_payload x) = v0" by (auto simp: precommitted_def)
    have lock: "lock_ok (fst (s p)) (nw_base N)" using votes_match_reachable[OF assms(1,2)] by blast
    from lock x(1) obtain st lr where st: "rp_states (fst (s p)) (coordinateKey (nw_base N)) = Some st"
      "as_lockedRound st = Some lr" "r0 \<le> lr" unfolding lock_ok_def by blast
    from lock st(1,2) obtain y where y: "lr \<le> as_highestRound st" "vote_at (fst (s p)) (nw_base N) Precommit lr = Some y"
      "vp_valueDigest (en_payload y) = as_lockedValueDigest st" unfolding lock_ok_def by blast
    have state: "state_of (fst (s p)) (pp_coordinate q) = st"
      using st(1) same_height_key[OF proposal(6)] by (simp add: state_of_def)
    have v: "v = Some (av_valueDigest (pp_value q))" using proposal(8) w(2) by simp
    show ?thesis
    proof (cases "as_lockedValueDigest st = v")
      case True
      with y st(3) proposal(9) have "r0 \<le> lr \<and> lr \<le> r \<and> precommitted N s p lr v"
        by (auto simp: admits_vote_def state precommitted_def)
      then show ?thesis by blast
    next
      case False
      with proposal(9) st(2) obtain j where j: "pp_validRound q = Some j" "lr \<le> j"
        by (auto simp: admits_vote_def state v)
      from proposal_justification[OF proposal(3) j(1)] obtain c where c: "pp_justification q = Some c" by blast
      with proposal(4) have cert: "verifyVoteCertificate (po_platform (nw_options N p)) (po_resolver (nw_options N p))
          (cl_wallTime now) m False c = Inr (Some c)" "justifies c q" by simp_all
      have m: "m = nw_membership N" using proposal(1,2,6) by (auto simp: admissible_def Let_def)
      have "c \<in> set cs" using c cert(1) by (simp add: proposal(11) m verified_certificates_def Let_def)
      then have adm: "bound c" "unforged N s (po_platform (nw_options N p)) (po_resolver (nw_options N p)) (cl_wallTime now) c"
        using bd proposal(1) c by (simp_all add: admissible_def Let_def)
      from cert(2) proposal(6,7) j(1) v have f: "vc_phase c = Prevote" "same_height (nw_base N) (vc_coordinate c)"
        "co_round (vc_coordinate c) = j" "j < r" "vc_valueDigest c = v"
        by (auto simp: justifies_def sameHeightSlot_def same_height_def Let_def)
      from prevoted_quorum[OF assms(1,2) cert(1)[unfolded m] adm f(2,1)] f(3-5) j(2) st(3) show ?thesis
        by (intro disjI1 exI[of _ j]) simp
    qed
  qed simp
qed

lemma law_precommit:
  assumes "initial N s0" "(bound_step N)\<^sup>*\<^sup>* s0 s" "bound_step N s t"
    and "\<not> precommitted N s p r v" "precommitted N t p r v"
  shows "quorum (voters N) (nw_honest N) (faults N) (\<lambda>q. prevoted N s q r v)
    \<and> (\<forall>r1 w. prevoted N t p r1 w \<longrightarrow> r1 \<le> r)"
proof -
  have wf: "well_formed N" using assms(1) by (simp add: initial_def)
  from assms(3) obtain cs where st: "net_step N s cs t" and bd: "\<And>x. x \<in> set cs \<Longrightarrow> bound x"
    by (auto simp: bound_step_def)
  from assms(5) obtain w where w: "vote_at (fst (t p)) (nw_base N) Precommit r = Some w" "vp_valueDigest (en_payload w) = v"
    by (auto simp: precommitted_def)
  have "vote_at (fst (s p)) (nw_base N) Precommit r = None"
    using assms(4) w net_step_keeps[OF st] unfolding precommitted_def vote_at_def by (metis not_None_eq option.inject)
  from st wf this w(1) show ?thesis
  proof (cases rule: new_vote)
    case (certificate now c time m)
    have m: "m = nw_membership N" using certificate(1,2,7) by (auto simp: admissible_def Let_def)
    have "c \<in> set cs" using certificate(4) by (simp add: certificate(11) m verified_certificates_def Let_def)
    then have adm: "bound c" "unforged N s (po_platform (nw_options N p)) (po_resolver (nw_options N p)) (cl_wallTime now) c"
      using bd certificate(1) by (simp_all add: admissible_def Let_def)
    from prevoted_quorum[OF assms(1,2) certificate(4)[unfolded m] adm certificate(7,5)] certificate(8,9) w(2)
    have q: "quorum (voters N) (nw_honest N) (faults N) (\<lambda>q. prevoted N s q r v)" by simp
    have "(bound_step N)\<^sup>*\<^sup>* s0 t" using assms(2,3) by simp
    with assms(1) votes_match_reachable have "lock_ok (fst (t p)) (nw_base N)" by blast
    with certificate(10) have "\<forall>r1 w. prevoted N t p r1 w \<longrightarrow> r1 \<le> r"
      unfolding lock_ok_def prevoted_def by fastforce
    with q show ?thesis by blast
  qed simp
qed

interpretation peers: locking "initial N" "bound_step N" "voters N" "nw_honest N" "faults N" "prevoted N" "precommitted N"
  for N :: "'k network"
proof unfold_locales
  fix s assume "initial N s"
  then show "finite (voters N) \<and> card (voters N) = 3 * faults N + 1 \<and> card (voters N - nw_honest N) \<le> faults N"
    by (rule law_population)
next
  fix s p r v assume "initial N s"
  then show "\<not> prevoted N s p r v \<and> \<not> precommitted N s p r v"
    by (simp add: initial_def prevoted_def precommitted_def vote_at_def empty_repository_def)
next
  fix s t p r v assume "bound_step N s t"
  then obtain cs where "net_step N s cs t" by (auto simp: bound_step_def)
  then show "(prevoted N s p r v \<longrightarrow> prevoted N t p r v) \<and> (precommitted N s p r v \<longrightarrow> precommitted N t p r v)"
    unfolding prevoted_def precommitted_def vote_at_def using net_step_keeps by blast
next
  fix p s r v w
  show "(prevoted N s p r v \<longrightarrow> prevoted N s p r w \<longrightarrow> v = w)
    \<and> (precommitted N s p r v \<longrightarrow> precommitted N s p r w \<longrightarrow> v = w)"
    by (auto simp: prevoted_def precommitted_def)
qed (rule law_prevote law_precommit; assumption)+

text \<open>A verified commit certificate for this height, in which no honest vote is forged.\<close>

definition commits_here ::
  "'k network \<Rightarrow> network_state \<Rightarrow> 'k platform \<Rightarrow> 'k resolver \<Rightarrow> string \<Rightarrow> commit_certificate \<Rightarrow> bool" where
  "commits_here N s P resolve t c \<longleftrightarrow>
     verifyCollectiveAgreementCommitCertificateV1 P resolve t (nw_membership N) c = Inr (Some c)
     \<and> same_height (nw_base N) (vc_coordinate (cc_precommitCertificate c))
     \<and> unforged N s P resolve t (cc_prevoteCertificate c) \<and> unforged N s P resolve t (cc_precommitCertificate c)"

definition commit_parts :: "commit_certificate \<Rightarrow> vote_certificate set" where
  "commit_parts c = {cc_prevoteCertificate c, cc_precommitCertificate c}"

lemma commit_quorums:
  assumes "initial N s0" "(bound_step N)\<^sup>*\<^sup>* s0 s" "commits_here N s P resolve t c" "\<forall>x \<in> commit_parts c. bound x"
  obtains r where
    "quorum (voters N) (nw_honest N) (faults N) (\<lambda>p. precommitted N s p r (Some (av_valueDigest (cc_value c))))"
    "quorum (voters N) (nw_honest N) (faults N) (\<lambda>p. prevoted N s p r (Some (av_valueDigest (cc_value c))))"
proof -
  from assms(3,4) have v: "verifyCollectiveAgreementCommitCertificateV1 P resolve t (nw_membership N) c = Inr (Some c)"
    and h: "same_height (nw_base N) (vc_coordinate (cc_precommitCertificate c))"
    and b: "bound (cc_prevoteCertificate c)" "unforged N s P resolve t (cc_prevoteCertificate c)"
      "bound (cc_precommitCertificate c)" "unforged N s P resolve t (cc_precommitCertificate c)"
    by (simp_all add: commits_here_def commit_parts_def)
  note c = commit_certificate_Some[OF v]
  show thesis
    using that precommitted_quorum[OF assms(1,2) c(4) b(3,4) h c(6)]
      prevoted_quorum[OF assms(1,2) c(3) b(1,2) h[folded c(9)] c(5)] c(7-9) by simp
qed

lemma commits_agree:
  assumes "initial N s0" "net_run N s0 cs s" "commits_here N s P resolve t c" "commits_here N s P' resolve' t' c'"
    and "\<forall>x \<in> set cs \<union> commit_parts c \<union> commit_parts c'. bound x"
  shows "av_valueDigest (cc_value c) = av_valueDigest (cc_value c')"
proof -
  have run: "(bound_step N)\<^sup>*\<^sup>* s0 s" using bound_run[OF assms(2)] assms(5) by blast
  have parts: "\<forall>x \<in> commit_parts c. bound x" "\<forall>x \<in> commit_parts c'. bound x" using assms(5) by blast+
  from commit_quorums[OF assms(1) run assms(3) parts(1)] obtain r where r:
    "quorum (voters N) (nw_honest N) (faults N) (\<lambda>p. precommitted N s p r (Some (av_valueDigest (cc_value c))))"
    "quorum (voters N) (nw_honest N) (faults N) (\<lambda>p. prevoted N s p r (Some (av_valueDigest (cc_value c))))" by blast
  from commit_quorums[OF assms(1) run assms(4) parts(2)] obtain r' where r':
    "quorum (voters N) (nw_honest N) (faults N) (\<lambda>p. precommitted N s p r' (Some (av_valueDigest (cc_value c'))))"
    "quorum (voters N) (nw_honest N) (faults N) (\<lambda>p. prevoted N s p r' (Some (av_valueDigest (cc_value c'))))" by blast
  from peers.same_value[OF assms(1) run r r'] show ?thesis by simp
qed

end
