(* ===== verification/AgCatchup.thy ===== *)
theory AgCatchup
  imports AgMemory
begin

text \<open>
  The second half of \<open>packages/collective-quorum/src/agreement-certificates.ts\<close>: joint
  reconfiguration certificates, which two memberships commit, and catch-up bundles, which bring a
  repository that is behind up to date.
\<close>

subsection \<open>Joint reconfiguration\<close>

definition createCollectiveAgreementJointReconfigurationCertificateV1 ::
  "'k platform \<Rightarrow> 'k resolver \<Rightarrow> string \<Rightarrow> membership \<Rightarrow> membership \<Rightarrow> commit_certificate \<Rightarrow> commit_certificate
     \<Rightarrow> joint_certificate option res" where
  "createCollectiveAgreementJointReconfigurationCertificateV1 P resolve verifiedAt prior_m next_m prior_c next_c =
     bindE (verifyCollectiveAgreementCommitCertificateV1 P resolve verifiedAt prior_m prior_c) (\<lambda>prior_or_null.
     bindE (verifyCollectiveAgreementCommitCertificateV1 P resolve verifiedAt next_m next_c) (\<lambda>next_or_null.
       case (validateCollectiveAgreementMembershipV1 P prior_m, validateCollectiveAgreementMembershipV1 P next_m,
             prior_or_null, next_or_null) of
         (Some priorMembership, Some nextMembership, Some prior, Some nxt) \<Rightarrow>
           if av_kind (cc_value prior) \<noteq> ''membership_reconfiguration''
             \<or> av_valueDigest (cc_value prior) \<noteq> av_valueDigest (cc_value nxt)
             \<or> me_configurationDigest priorMembership \<noteq> co_membershipConfigurationDigest (cc_coordinate prior)
             \<or> me_configurationDigest nextMembership \<noteq> co_membershipConfigurationDigest (cc_coordinate nxt)
             \<or> me_epoch priorMembership + 1 \<noteq> me_epoch nextMembership
             \<or> co_policyDomainId (cc_coordinate prior) \<noteq> co_policyDomainId (cc_coordinate nxt)
             \<or> co_slotId (cc_coordinate prior) \<noteq> co_slotId (cc_coordinate nxt)
             \<or> co_height (cc_coordinate prior) \<noteq> co_height (cc_coordinate nxt)
           then Inr None
           else let payload = map_of (av_payload (cc_value prior)) in
             if payload ''priorConfigurationDigest'' \<noteq> Some (JStr (me_configurationDigest priorMembership))
               \<or> payload ''nextConfigurationDigest'' \<noteq> Some (JStr (me_configurationDigest nextMembership))
               \<or> payload ''activationHeight'' \<noteq> Some (JNum (co_height (cc_coordinate prior) + 1))
             then Inr None
             else let body = \<lparr>jc_schemaVersion = 1, jc_kind = ''joint_reconfiguration_certificate'',
                   jc_priorMembership = priorMembership, jc_nextMembership = nextMembership,
                   jc_priorCertificate = prior, jc_nextCertificate = nxt, jc_certificateDigest = []\<rparr>
               in bindE (collectiveAgreementDigestV1 P (JObj (joint_certificate_body body))) (\<lambda>d.
                 Inr (Some (body\<lparr>jc_certificateDigest := d\<rparr>)))
       | _ \<Rightarrow> Inr None))"

definition verifyCollectiveAgreementJointReconfigurationCertificateV1 ::
  "'k platform \<Rightarrow> 'k resolver \<Rightarrow> string \<Rightarrow> joint_certificate \<Rightarrow> joint_certificate option" where
  "verifyCollectiveAgreementJointReconfigurationCertificateV1 P resolve verifiedAt certificate =
     (if jc_schemaVersion certificate \<noteq> 1 \<or> jc_kind certificate \<noteq> ''joint_reconfiguration_certificate'' then None
      else case createCollectiveAgreementJointReconfigurationCertificateV1 P resolve verifiedAt
          (jc_priorMembership certificate) (jc_nextMembership certificate)
          (jc_priorCertificate certificate) (jc_nextCertificate certificate) of
        Inl _ \<Rightarrow> None
      | Inr recreated \<Rightarrow>
          if map_option jc_certificateDigest recreated = Some (jc_certificateDigest certificate)
          then Some certificate else None)"

subsection \<open>Catch-up bundles\<close>

text \<open>The conditions on one commit of a sorted bundle, and on the first and each next one.\<close>

definition bundle_position :: "string \<Rightarrow> string \<Rightarrow> int \<Rightarrow> commit_certificate list \<Rightarrow> nat \<Rightarrow> bool" where
  "bundle_position policyDomainId slotId fromHeightExclusive commits index \<longleftrightarrow>
     (let commit = commits ! index in
      co_policyDomainId (cc_coordinate commit) = policyDomainId
      \<and> co_slotId (cc_coordinate commit) = slotId
      \<and> co_height (cc_coordinate commit) = fromHeightExclusive + int index + 1
      \<and> (index > 0 \<longrightarrow> av_previousCommitDigest (cc_value commit)
            = Some (cc_certificateDigest (commits ! (index - 1)))))"

definition createCollectiveAgreementCatchupBundleV1 ::
  "'k platform \<Rightarrow> string \<Rightarrow> string \<Rightarrow> int \<Rightarrow> commit_certificate list \<Rightarrow> catchup_bundle option res" where
  "createCollectiveAgreementCatchupBundleV1 P policyDomainId slotId fromHeightExclusive input_commits =
     (let commits = js_sort (\<lambda>l r. co_height (cc_coordinate l) - co_height (cc_coordinate r)) input_commits in
      if \<not> isSafeInteger fromHeightExclusive \<or> fromHeightExclusive < 0
        \<or> length commits < 1 \<or> length commits > 1024
        \<or> \<not> list_all (bundle_position policyDomainId slotId fromHeightExclusive commits) [0..<length commits]
      then Inr None
      else let body = \<lparr>cb_schemaVersion = 1, cb_policyDomainId = policyDomainId, cb_slotId = slotId,
            cb_fromHeightExclusive = fromHeightExclusive,
            cb_toHeightInclusive = co_height (cc_coordinate (last commits)),
            cb_commits = commits, cb_bundleDigest = []\<rparr>
        in bindE (collectiveAgreementDigestV1 P (JObj (catchup_bundle_body body))) (\<lambda>d.
          Inr (Some (body\<lparr>cb_bundleDigest := d\<rparr>))))"

text \<open>The loop that verifies every commit against the membership its port answers.\<close>

fun verify_commits ::
  "'k platform \<Rightarrow> 'k resolver \<Rightarrow> string \<Rightarrow> (commit_certificate \<Rightarrow> membership option res) \<Rightarrow> commit_certificate list \<Rightarrow> bool res"
where
  "verify_commits P resolve verifiedAt membershipFor [] = Inr True"
| "verify_commits P resolve verifiedAt membershipFor (commit # commits) =
     bindE (membershipFor commit) (\<lambda>membership.
       case membership of
         None \<Rightarrow> Inr False
       | Some m \<Rightarrow>
           bindE (verifyCollectiveAgreementCommitCertificateV1 P resolve verifiedAt m commit) (\<lambda>verified.
             if verified = None then Inr False
             else verify_commits P resolve verifiedAt membershipFor commits))"

definition verifyCollectiveAgreementCatchupBundleV1 ::
  "'k platform \<Rightarrow> 'k resolver \<Rightarrow> string \<Rightarrow> (commit_certificate \<Rightarrow> membership option res) \<Rightarrow> string option
     \<Rightarrow> catchup_bundle \<Rightarrow> catchup_bundle option res" where
  "verifyCollectiveAgreementCatchupBundleV1 P resolve verifiedAt membershipFor trustedPreviousCommitDigest bundle =
     (if cb_schemaVersion bundle \<noteq> 1 then Inr None
      else case createCollectiveAgreementCatchupBundleV1 P (cb_policyDomainId bundle) (cb_slotId bundle)
          (cb_fromHeightExclusive bundle) (cb_commits bundle) of
        Inl _ \<Rightarrow> Inr None
      | Inr None \<Rightarrow> Inr None
      | Inr (Some recreated) \<Rightarrow>
          if cb_bundleDigest recreated \<noteq> cb_bundleDigest bundle
            \<or> cb_toHeightInclusive recreated \<noteq> cb_toHeightInclusive bundle
            \<or> (case cb_commits bundle of [] \<Rightarrow> None | c # _ \<Rightarrow> av_previousCommitDigest (cc_value c))
                \<noteq> trustedPreviousCommitDigest
          then Inr None
          else bindE (verify_commits P resolve verifiedAt membershipFor (cb_commits bundle)) (\<lambda>ok.
            Inr (if ok then Some bundle else None)))"

text \<open>Saving the commits in order; it stops at the first that does not fit.\<close>

fun save_commits :: "commit_certificate list \<Rightarrow> nat \<Rightarrow> repository \<Rightarrow> nat option \<times> repository" where
  "save_commits [] applied repo = (Some applied, repo)"
| "save_commits (commit # commits) applied repo =
     (case saveCommit commit repo of (result, repo') \<Rightarrow>
        if result = SaveConflict \<or> result = SaveChainGap then (None, repo')
        else save_commits commits (if result = SaveStored then applied + 1 else applied) repo')"

definition applyCollectiveAgreementCatchupBundleV1 ::
  "'k platform \<Rightarrow> 'k resolver \<Rightarrow> string \<Rightarrow> (commit_certificate \<Rightarrow> membership option res) \<Rightarrow> catchup_bundle
     \<Rightarrow> (repository, (nat \<times> int) option) comp" where
  "applyCollectiveAgreementCatchupBundleV1 P resolve verifiedAt membershipFor bundle repo =
     (let previous = (if cb_fromHeightExclusive bundle = 0 then None
            else getCommit (cb_policyDomainId bundle) (cb_slotId bundle) (cb_fromHeightExclusive bundle) repo)
      in if cb_fromHeightExclusive bundle > 0 \<and> previous = None then (Inr None, repo)
         else case verifyCollectiveAgreementCatchupBundleV1 P resolve verifiedAt membershipFor
             (map_option cc_certificateDigest previous) bundle of
           Inl e \<Rightarrow> (Inl e, repo)
         | Inr None \<Rightarrow> (Inr None, repo)
         | Inr (Some verified) \<Rightarrow>
             (case save_commits (cb_commits verified) 0 repo of
                (None, repo') \<Rightarrow> (Inr None, repo')
              | (Some applied, repo') \<Rightarrow> (Inr (Some (applied, cb_toHeightInclusive verified)), repo')))"

subsection \<open>The chain of commits\<close>

text \<open>
  Every stored commit is stored under its own height and names the digest of the commit before
  it; a first commit names none.
\<close>

definition chained :: "repository \<Rightarrow> bool" where
  "chained R \<longleftrightarrow> (\<forall>k c. rp_commits R k = Some c \<longrightarrow>
     k = coordinateKey (cc_coordinate c)
     \<and> (if co_height (cc_coordinate c) = 1 then av_previousCommitDigest (cc_value c) = None
        else \<exists>p. rp_commits R (commitKey (co_policyDomainId (cc_coordinate c)) (co_slotId (cc_coordinate c))
                   (co_height (cc_coordinate c) - 1)) = Some p
               \<and> av_previousCommitDigest (cc_value c) = Some (cc_certificateDigest p)))"

lemma saveCommit_cases:
  assumes "saveCommit c R = (res, R')"
  obtains (unchanged) "R' = R" "res \<noteq> SaveStored"
    "res = SaveDuplicate \<Longrightarrow> \<exists>d. rp_commits R (coordinateKey (cc_coordinate c)) = Some d
        \<and> cc_certificateDigest d = cc_certificateDigest c"
  | (stored) "res = SaveStored" "rp_commits R (coordinateKey (cc_coordinate c)) = None"
      "R' = R\<lparr>rp_commits := (rp_commits R)(coordinateKey (cc_coordinate c) \<mapsto> c)\<rparr>"
      "if co_height (cc_coordinate c) = 1 then av_previousCommitDigest (cc_value c) = None
        else \<exists>p. rp_commits R (commitKey (co_policyDomainId (cc_coordinate c)) (co_slotId (cc_coordinate c))
                   (co_height (cc_coordinate c) - 1)) = Some p
               \<and> av_previousCommitDigest (cc_value c) = Some (cc_certificateDigest p)"
  using assms
  by (auto simp: saveCommit_def Let_def commitKey_def coordinateKey_def split: option.splits if_splits)

lemma chained_empty: "chained empty_repository"
  by (simp add: chained_def empty_repository_def)

lemma chained_save:
  assumes "chained R" "saveCommit c R = (res, R')"
  shows "chained R'"
  using assms(2)
proof (cases rule: saveCommit_cases)
  case stored
  show ?thesis
    unfolding chained_def
  proof (intro allI impI)
    fix k d assume "rp_commits R' k = Some d"
    then consider "k = coordinateKey (cc_coordinate c)" "d = c" | "k \<noteq> coordinateKey (cc_coordinate c)" "rp_commits R k = Some d"
      by (auto simp: stored(3) split: if_splits)
    then show "k = coordinateKey (cc_coordinate d)
     \<and> (if co_height (cc_coordinate d) = 1 then av_previousCommitDigest (cc_value d) = None
        else \<exists>p. rp_commits R' (commitKey (co_policyDomainId (cc_coordinate d)) (co_slotId (cc_coordinate d))
                   (co_height (cc_coordinate d) - 1)) = Some p
               \<and> av_previousCommitDigest (cc_value d) = Some (cc_certificateDigest p))"
    proof cases
      case 1
      with stored(2,4) show ?thesis by (auto simp: stored(3) split: if_splits)
    next
      case 2
      with assms(1) stored(2) show ?thesis unfolding chained_def by (fastforce simp: stored(3))
    qed
  qed
qed (use assms(1) in simp)

lemma saveCommit_keeps:
  assumes "saveCommit c R = (res, R')" "rp_commits R k = Some d"
  shows "rp_commits R' k = Some d"
  using assms(1) by (cases rule: saveCommit_cases) (use assms(2) in auto)

lemma save_commits_keep:
  assumes "save_commits cs a R = (res, R')" "rp_commits R k = Some d"
  shows "rp_commits R' k = Some d"
  using assms
proof (induction cs arbitrary: a R)
  case (Cons c cs)
  obtain r S where S: "saveCommit c R = (r, S)" by (cases "saveCommit c R")
  with Cons.prems(2) saveCommit_keeps have "rp_commits S k = Some d" by blast
  with Cons S show ?case by (auto split: if_splits)
qed simp

lemma save_commits_chained:
  assumes "save_commits cs a R = (res, R')" "chained R"
  shows "chained R'"
  using assms
proof (induction cs arbitrary: a R)
  case (Cons c cs)
  obtain r S where S: "saveCommit c R = (r, S)" by (cases "saveCommit c R")
  with Cons.prems(2) chained_save have "chained S" by blast
  with Cons S show ?case by (auto split: if_splits)
qed simp

definition holds_commit :: "repository \<Rightarrow> commit_certificate \<Rightarrow> bool" where
  "holds_commit R c \<longleftrightarrow> (\<exists>d. getCommit (co_policyDomainId (cc_coordinate c)) (co_slotId (cc_coordinate c))
     (co_height (cc_coordinate c)) R = Some d \<and> cc_certificateDigest d = cc_certificateDigest c)"

lemma holds_commit_key:
  "holds_commit R c \<longleftrightarrow> (\<exists>d. rp_commits R (coordinateKey (cc_coordinate c)) = Some d
     \<and> cc_certificateDigest d = cc_certificateDigest c)"
  by (simp add: holds_commit_def getCommit_def commitKey_def coordinateKey_def)

lemma saveCommit_holds:
  assumes "saveCommit c R = (res, R')" "res = SaveStored \<or> res = SaveDuplicate"
  shows "holds_commit R' c"
  using assms(1) by (cases rule: saveCommit_cases) (use assms(2) in \<open>auto simp: holds_commit_key\<close>)

lemma save_commits_hold:
  assumes "save_commits cs a R = (Some b, R')" "c \<in> set cs"
  shows "holds_commit R' c"
  using assms
proof (induction cs arbitrary: a R)
  case (Cons x cs)
  obtain r S where S: "saveCommit x R = (r, S)" by (cases "saveCommit x R")
  with Cons.prems(1) have r: "r = SaveStored \<or> r = SaveDuplicate" by (cases r) simp_all
  obtain a' where rest: "save_commits cs a' S = (Some b, R')"
    using Cons.prems(1) S r by (auto split: if_splits)
  show ?case
  proof (cases "c = x")
    case True
    from saveCommit_holds[OF S r] save_commits_keep[OF rest] show ?thesis
      unfolding holds_commit_key True by blast
  next
    case False
    with Cons.prems(2) Cons.IH[OF rest] show ?thesis by simp
  qed
qed simp

lemma createBundle_Some:
  assumes "createCollectiveAgreementCatchupBundleV1 P pd slot h0 cs = Inr (Some b)"
  shows "set (cb_commits b) = set cs" "cs \<noteq> []"
    "\<forall>c \<in> set cs. co_policyDomainId (cc_coordinate c) = pd \<and> co_slotId (cc_coordinate c) = slot"
    "cb_toHeightInclusive b = h0 + int (length cs)"
    "(\<lambda>c. co_height (cc_coordinate c)) ` set cs = {h0 + 1..h0 + int (length cs)}"
proof -
  let ?xs = "js_sort (\<lambda>l r. co_height (cc_coordinate l) - co_height (cc_coordinate r)) cs"
  from assms have pos: "\<forall>i < length ?xs. bundle_position pd slot h0 ?xs i" and ne: "?xs \<noteq> []"
    and b: "cb_commits b = ?xs" "cb_toHeightInclusive b = co_height (cc_coordinate (last ?xs))"
    by (auto simp: createCollectiveAgreementCatchupBundleV1_def Let_def bindE_Inr_iff list_all_iff split: if_splits)
  show "set (cb_commits b) = set cs" by (simp add: b)
  have "length ?xs \<noteq> 0" using ne by blast
  then show "cs \<noteq> []" by auto
  then have "0 < length cs" by simp
  have at: "co_height (cc_coordinate (?xs ! i)) = h0 + int i + 1" "co_policyDomainId (cc_coordinate (?xs ! i)) = pd"
    "co_slotId (cc_coordinate (?xs ! i)) = slot" if "i < length ?xs" for i
    using pos that by (auto simp: bundle_position_def Let_def)
  show "\<forall>c \<in> set cs. co_policyDomainId (cc_coordinate c) = pd \<and> co_slotId (cc_coordinate c) = slot"
    using at(2,3) set_js_sort[of _ cs] by (metis in_set_conv_nth)
  show "cb_toHeightInclusive b = h0 + int (length cs)"
    using ne at(1)[of "length ?xs - 1"] b(2) \<open>0 < length cs\<close> by (simp add: last_conv_nth)
  have "set cs = (\<lambda>i. ?xs ! i) ` {..<length ?xs}"
    using set_js_sort[of "\<lambda>l r. co_height (cc_coordinate l) - co_height (cc_coordinate r)" cs]
    by (auto simp: set_conv_nth)
  then have "(\<lambda>c. co_height (cc_coordinate c)) ` set cs = (\<lambda>i. co_height (cc_coordinate (?xs ! i))) ` {..<length ?xs}"
    by (simp add: image_image)
  also have "\<dots> = (\<lambda>i. h0 + int i + 1) ` {..<length cs}"
    using at(1) by (intro image_cong) simp_all
  also have "\<dots> = {h0 + 1..h0 + int (length cs)}"
  proof
    show "{h0 + 1..h0 + int (length cs)} \<subseteq> (\<lambda>i. h0 + int i + 1) ` {..<length cs}"
    proof
      fix h assume "h \<in> {h0 + 1..h0 + int (length cs)}"
      then have "h = h0 + int (nat (h - h0 - 1)) + 1" "nat (h - h0 - 1) < length cs" by auto
      then show "h \<in> (\<lambda>i. h0 + int i + 1) ` {..<length cs}" by blast
    qed
  qed auto
  finally show "(\<lambda>c. co_height (cc_coordinate c)) ` set cs = {h0 + 1..h0 + int (length cs)}" .
qed

lemma verify_commits_True:
  "verify_commits P r t membershipFor cs = Inr True \<Longrightarrow> c \<in> set cs \<Longrightarrow>
     \<exists>m. membershipFor c = Inr (Some m) \<and> verifyCollectiveAgreementCommitCertificateV1 P r t m c \<noteq> Inr None
       \<and> verifyCollectiveAgreementCommitCertificateV1 P r t m c \<notin> range Inl"
  by (induction cs) (auto simp: bindE_Inr_iff split: option.splits if_splits)

end
