(* ===== verification/AgBase64.thy ===== *)
theory AgBase64
  imports AgCodec
begin

text \<open>
  The signature encoding of \<open>agreement-codec.ts\<close>: what \<open>encodeBase64Url\<close> writes,
  \<open>decodeBase64Url\<close> reads back, and a signature of 64 bytes has exactly the 86 characters that
  the \<open>SIGNATURE\<close> pattern asks for.
\<close>

definition bytes_ok :: "int list \<Rightarrow> bool" where
  "bytes_ok bs \<longleftrightarrow> list_all (\<lambda>b. 0 \<le> b \<and> b < 256) bs"

lemma alphabet_table:
  "list_all base64url_char base64url_alphabet"
  "map sextet_value base64url_alphabet = map int [0..<64]"
  by code_simp+

lemma sextet_ok [simp]: "base64url_char (sextet n)" "sextet_value (sextet n) = n mod 64"
proof -
  have len: "length base64url_alphabet = 64" by (simp add: base64url_alphabet_def)
  have n: "nat (n mod 64) < length base64url_alphabet" by (simp add: len nat_less_iff)
  show "base64url_char (sextet n)" unfolding sextet_def using alphabet_table(1) n by (simp add: list_all_length)
  have "sextet_value (base64url_alphabet ! nat (n mod 64)) = map int [0..<64] ! nat (n mod 64)"
    using nth_map[OF n, of sextet_value] alphabet_table(2) by simp
  then show "sextet_value (sextet n) = n mod 64" using n by (simp add: sextet_def len)
qed

lemma encode_chars: "list_all base64url_char (encodeBase64Url bs)"
  by (induction bs rule: encodeBase64Url.induct) simp_all

lemma length_encode: "length (encodeBase64Url bs) = (8 * length bs + 5) div 6"
  by (induction bs rule: encodeBase64Url.induct) simp_all

lemma decode_encode_bytes: "bytes_ok bs \<Longrightarrow> base64url_bytes (encodeBase64Url bs) = Some bs"
proof (induction bs rule: encodeBase64Url.induct)
  case (2 a)
  then have "a div 4 mod 64 = a div 4" by (intro mod_pos_pos_trivial) (auto simp: bytes_ok_def)
  then show ?case by simp
next
  case (3 a b)
  then have "a div 4 mod 64 = a div 4" "(a mod 4 * 16 + b div 16) mod 64 = a mod 4 * 16 + b div 16"
    "b div 16 mod 16 = b div 16" "b div 16 div 16 = 0"
    by (auto simp: bytes_ok_def intro!: mod_pos_pos_trivial div_pos_pos_trivial)
  then show ?case by simp
next
  case (4 a b c rest)
  then have "a div 4 mod 64 = a div 4" "(a mod 4 * 16 + b div 16) mod 64 = a mod 4 * 16 + b div 16"
    "(b mod 16 * 4 + c div 64) mod 64 = b mod 16 * 4 + c div 64"
    "b div 16 mod 16 = b div 16" "b div 16 div 16 = 0" "c div 64 mod 4 = c div 64" "c div 64 div 4 = 0"
    by (auto simp: bytes_ok_def intro!: mod_pos_pos_trivial div_pos_pos_trivial)
  with 4 show ?case by (simp add: bytes_ok_def)
qed simp

lemma decode_encode:
  assumes "bytes_ok bs" "bs \<noteq> []"
  shows "decodeBase64Url (encodeBase64Url bs) = Some bs"
proof -
  have "length (encodeBase64Url bs) \<noteq> 0" using assms(2) by (cases bs) (simp_all add: length_encode)
  then have "encodeBase64Url bs \<noteq> []" by auto
  then show ?thesis using assms(1) encode_chars decode_encode_bytes by (simp add: decodeBase64Url_def)
qed

lemma signature_encode: "length bs = 64 \<Longrightarrow> signature_text (encodeBase64Url bs)"
  by (simp add: signature_text_def length_encode encode_chars)

end
