(* ===== verification/MeshSize.thy ===== *)
theory MeshSize
  imports MeshJson
begin

text \<open>
  A sufficient condition for a value to be admitted by the mesh canonicalizer that does not need
  its text: no string in it needs an escape, its counts are within the limits, and a bound of its
  length that follows the structure of the value.
\<close>

definition plain_char :: "char \<Rightarrow> bool" where
  "plain_char c \<longleftrightarrow> (let n = (of_char c :: nat) in 32 \<le> n \<and> n < 127 \<and> n \<noteq> 34 \<and> n \<noteq> 92)"

definition plain_text :: "string \<Rightarrow> bool" where
  "plain_text s \<longleftrightarrow> list_all plain_char s"

fun plain_json :: "json \<Rightarrow> bool" where
  "plain_json (JStr s) \<longleftrightarrow> plain_text s"
| "plain_json (JArr vs) \<longleftrightarrow> list_all plain_json vs"
| "plain_json (JObj fs) \<longleftrightarrow> list_all (\<lambda>(k, v). plain_text k \<and> plain_json v) fs"
| "plain_json v \<longleftrightarrow> True"

text \<open>The length of the text of a plain value, a separator after each item included.\<close>

fun text_bound :: "json \<Rightarrow> nat" where
  "text_bound JNull = 4"
| "text_bound (JBool b) = 5"
| "text_bound (JNum n) = length (show_int n)"
| "text_bound (JStr s) = length s + 2"
| "text_bound (JArr vs) = 2 + sum_list (map (\<lambda>v. text_bound v + 1) vs)"
| "text_bound (JObj fs) = 2 + sum_list (map (\<lambda>(k, v). length k + text_bound v + 4) fs)"

lemma plain_text_simps [simp]:
  "plain_text []" "plain_text (c # s) \<longleftrightarrow> plain_char c \<and> plain_text s"
  "plain_text (s @ t) \<longleftrightarrow> plain_text s \<and> plain_text t"
  by (simp_all add: plain_text_def)

lemma byteLength_plain: "plain_text s \<Longrightarrow> byteLength s = length s"
proof (induction s)
  case (Cons c s)
  then have "(of_char c :: nat) < 128" by (simp add: plain_char_def Let_def)
  then have "(of_char c :: int) < 128" by (metis of_nat_less_iff of_nat_numeral of_nat_of_char)
  with Cons show ?case by (simp add: byteLength_ascii)
qed simp

lemma stringify_plain_text:
  assumes "plain_text s"
  shows "stringify_string s = CHR 0x22 # s @ [CHR 0x22]"
proof -
  have "escape_char c = [c]" if "plain_char c" for c
    using that by (auto simp: escape_char_def plain_char_def Let_def)
  then have "concat (map escape_char s) = s" using assms by (induction s) simp_all
  then show ?thesis by (simp add: stringify_string_def quote_def)
qed

lemma stringify_plain: "plain_text s \<Longrightarrow> byteLength (stringify_string s) = length s + 2"
  by (simp add: stringify_plain_text byteLength_ascii byteLength_plain)

lemma plain_show_int [simp]: "plain_text (show_int n)"
proof -
  have "plain_text (digits_nat k)" for k
    using digits_nat_all[of k]
    by (auto simp: plain_text_def list_all_iff is_digit_def plain_char_def Let_def)
  then show ?thesis by (simp add: show_int_def plain_char_def)
qed

lemma list_bytes_sum: "list_bytes b ss \<le> sum_list (map (\<lambda>s. byteLength s + 1) ss)"
  by (induction ss arbitrary: b) (auto simp: le_SucI add_le_mono)

lemma byteLength_literals [simp]: "byteLength ''null'' = 4" "byteLength ''true'' = 4" "byteLength ''false'' = 5"
  by (simp_all add: byteLength_ascii)

lemma byteLength_render: "plain_json v \<Longrightarrow> byteLength (render v) \<le> text_bound v"
proof (induction v)
  case (JArr vs)
  have "sum_list (map (\<lambda>s. byteLength s + 1) (map render vs)) \<le> sum_list (map (\<lambda>v. text_bound v + 1) vs)"
    unfolding map_map comp_def
    by (rule sum_list_mono) (use JArr in \<open>auto simp: list_all_iff\<close>)
  with list_bytes_sum[of True "map render vs"] show ?case
    by (simp add: byteLength_ascii byteLength_joined)
next
  case (JObj fs)
  let ?t = "\<lambda>(k, v). stringify_string k @ CHR '':'' # render v"
  have "sum_list (map (\<lambda>s. byteLength s + 1) (map ?t fs)) \<le> sum_list (map (\<lambda>(k, v). length k + text_bound v + 4) fs)"
    unfolding map_map comp_def
  proof (rule sum_list_mono)
    fix x assume x: "x \<in> set fs"
    obtain k v where kv: "x = (k, v)" by (cases x)
    have "byteLength (render v) \<le> text_bound v" using JObj x kv by (force simp: list_all_iff)
    moreover have "plain_text k" using JObj.prems x kv by (auto simp: list_all_iff)
    ultimately show "byteLength (?t x) + 1 \<le> (case x of (k, v) \<Rightarrow> length k + text_bound v + 4)"
      by (simp add: kv stringify_plain byteLength_ascii)
  qed
  with list_bytes_sum[of True "map ?t fs"] show ?case
    by (simp add: byteLength_ascii byteLength_joined)
qed (simp_all add: stringify_plain byteLength_plain)

lemma plain_norm: "plain_json (json_norm v) = plain_json v"
proof (induction v)
  case (JArr vs)
  then show ?case by (simp add: list_all_iff)
next
  case (JObj fs)
  then show ?case by (fastforce simp: list_all_iff)
qed simp_all

lemma text_bound_norm: "text_bound (json_norm v) = text_bound v"
proof (induction v)
  case (JArr vs)
  then show ?case by (simp add: comp_def cong: map_cong)
next
  case (JObj fs)
  then have eq: "map ((\<lambda>(k, v). length k + text_bound v + 4) \<circ> (\<lambda>(k, v). (k, json_norm v))) fs
      = map (\<lambda>(k, v). length k + text_bound v + 4) fs" by force
  show ?case unfolding json_norm.simps text_bound.simps sum_list_sort_key map_map eq ..
qed simp_all

lemma mesh_ok_plain:
  assumes "plain_json v" "mesh_fits DEFAULT_MESH_PROTOCOL_LIMITS 0 v" "object_keys v \<le> 2048" "array_items v \<le> 4096"
    and "text_bound v \<le> 262144"
  shows "mesh_ok v"
  using assms byteLength_render[of "json_norm v"] by (simp add: mesh_ok_def plain_norm text_bound_norm)

end
