(* ===== verification/AgSamples.thy ===== *)
theory AgSamples
  imports AgBase64 MeshSize AgCertificateFacts
begin

text \<open>
  A concrete platform, membership and messages, to which the properties of the agreement protocol
  are applied: SHA-256 as the digest, a signature that names the key it was made with, the order
  of code units as collation, four validators, one value.
\<close>

subsection \<open>A platform\<close>

definition hex_value :: "char \<Rightarrow> int" where
  "hex_value c = (let n = of_char c in if n \<le> 57 then n - 48 else n - 87)"

fun hex_bytes :: "string \<Rightarrow> int list" where
  "hex_bytes (a # b # rest) = (hex_value a * 16 + hex_value b) # hex_bytes rest"
| "hex_bytes _ = []"

definition sample_platform :: "int platform" where
  "sample_platform = \<lparr>
     pl_digest = (\<lambda>bytes. Some (hex_bytes (sha256Hex bytes))),
     pl_sign = (\<lambda>key bytes. Some (replicate 64 key)),
     pl_verify = (\<lambda>key signature bytes. Some (signature = replicate 64 key)),
     pl_localeCompare = (\<lambda>l r. if l < r then -1 else if l = r then 0 else 1)\<rparr>"

definition sample_hash :: "json \<Rightarrow> string" where
  "sample_hash v = ''sha256:'' @ sha256Hex (encode_utf8 (render (json_norm v)))"

lemma hex_value_ok:
  assumes "lower_hex c"
  shows "hex_digit (hex_value c) = c" "0 \<le> hex_value c" "hex_value c < 16"
proof -
  have c: "char_of (of_char c :: int) = c" by simp
  from assms show "hex_digit (hex_value c) = c" "0 \<le> hex_value c" "hex_value c < 16"
    by (auto simp: lower_hex_def hex_value_def hex_digit_def Let_def c)
qed

lemma toHex_bytes:
  assumes "even (length s)" "\<forall>c \<in> set s. lower_hex c"
  shows "toHex (hex_bytes s) = s"
  using assms
proof (induction s rule: hex_bytes.induct)
  case (1 a b rest)
  have "(hex_value a * 16 + hex_value b) div 16 = hex_value a" "(hex_value a * 16 + hex_value b) mod 16 = hex_value b"
    using hex_value_ok[of b] 1(3) by auto
  with 1 hex_value_ok show ?case by (simp add: toHex_def)
qed (simp_all add: toHex_def)

lemma sample_digest:
  assumes "mesh_ok v"
  shows "collectiveAgreementDigestV1 sample_platform v = Inr (sample_hash v)"
proof -
  from assms have "canonicalBytes v = Inr (encode_utf8 (render (json_norm v)))" by (simp add: canonicalBytes_iff)
  moreover have "toHex (hex_bytes (sha256Hex bytes)) = sha256Hex bytes" for bytes
    using sha256Hex_format[of bytes] by (intro toHex_bytes) simp_all
  ultimately show ?thesis by (simp add: collectiveAgreementDigestV1_def sample_platform_def sample_hash_def)
qed

lemma lower_hex_plain: "lower_hex c \<Longrightarrow> plain_char c \<and> is_alnum c"
proof -
  assume "lower_hex c"
  then have "48 \<le> (of_char c :: int) \<and> (of_char c :: int) \<le> 57 \<or> 97 \<le> (of_char c :: int) \<and> (of_char c :: int) \<le> 102"
    by (simp add: lower_hex_def Let_def)
  moreover have "(of_char c :: int) = int (of_char c)" by (metis of_nat_of_char)
  ultimately show ?thesis by (auto simp: plain_char_def is_alnum_def Let_def)
qed

lemma sample_hash_ok [simp]:
  "digest_text (sample_hash v)" "length (sample_hash v) = 71" "plain_text (sample_hash v)"
proof -
  note f = sha256Hex_format[of "encode_utf8 (render (json_norm v))"]
  from f(2) have "plain_text (sha256Hex (encode_utf8 (render (json_norm v))))"
    by (simp add: plain_text_def list_all_iff lower_hex_plain)
  then show "digest_text (sample_hash v)" "length (sample_hash v) = 71" "plain_text (sample_hash v)"
    using f by (simp_all add: sample_hash_def digest_text_def list_all_iff plain_char_def)
qed

lemma digest_slice_ok [simp]:
  "length (digest_slice (sample_hash v)) = 40" "plain_text (digest_slice (sample_hash v))"
  "list_all (\<lambda>c. is_alnum c \<or> c \<in> S) (digest_slice (sample_hash v))"
  using sha256Hex_format[of "encode_utf8 (render (json_norm v))"]
  by (auto simp: digest_slice_def sample_hash_def plain_text_def list_all_iff lower_hex_plain dest: in_set_takeD)

subsection \<open>Keys, scopes and times\<close>

definition sample_resolver :: "int resolver" where
  "sample_resolver tenantId meshId peerId keyId algorithm = Some \<lparr>mk_peerId = peerId, mk_keyId = keyId,
     mk_algorithm = algorithm, mk_status = ''active'', mk_revokedAt = None,
     mk_validFrom = ''2026-01-01T00:00:00Z'', mk_validUntil = ''2027-01-01T00:00:00Z'',
     mk_publicKey = \<lparr>ck_type = ''public'', ck_algorithm = ''Ed25519'', ck_usages = [''verify''], ck_handle = 7\<rparr>\<rparr>"

definition sample_signing :: "int agreement_signing" where
  "sample_signing = \<lparr>sg_privateKey = \<lparr>ck_type = ''private'', ck_algorithm = ''Ed25519'', ck_usages = [''sign''],
     ck_handle = 7\<rparr>, sg_keyId = ''k'', sg_algorithm = ''Ed25519''\<rparr>"

definition sample_scope :: "string \<Rightarrow> agreement_scope" where
  "sample_scope i = \<lparr>sc_tenantId = ''t'', sc_meshId = ''m'', sc_peerId = i, sc_instanceId = ''n''\<rparr>"

definition wall :: string where
  "wall = ''2026-03-01T00:00:00.000Z''"

definition wall_expiry :: string where
  "wall_expiry = ''2026-03-01T00:00:30.000Z''"

definition sample_clock :: clock_reading where
  "sample_clock = \<lparr>cl_wallTime = wall, cl_logicalTimeMs = 5\<rparr>"

lemma wall_instants:
  "parseRfc3339 wall = Some 1772323200000000000" "parseRfc3339 wall_expiry = Some 1772323230000000000"
  "parseRfc3339 ''2026-01-01T00:00:00Z'' = Some 1767225600000000000"
  "parseRfc3339 ''2027-01-01T00:00:00Z'' = Some 1798761600000000000"
  "toISOString 1772323230000 = Inr wall_expiry"
  by code_simp+

lemma wall_text: "plain_text wall" "length wall = 24" "plain_text wall_expiry" "length wall_expiry = 24"
  by (simp_all add: wall_def wall_expiry_def plain_char_def)

definition sample_signature :: string where
  "sample_signature = encodeBase64Url (replicate 64 7)"

lemma base64url_plain: "list_all base64url_char s \<Longrightarrow> plain_text s"
  by (induction s) (auto simp: base64url_char_def is_alnum_def plain_char_def Let_def)

lemma sample_signature_ok:
  "signature_text sample_signature" "decodeBase64Url sample_signature = Some (replicate 64 7)"
  "plain_text sample_signature" "length sample_signature = 86"
  unfolding sample_signature_def using base64url_plain[OF encode_chars]
  by (simp_all add: signature_encode length_encode decode_encode bytes_ok_def list_all_iff)

subsection \<open>Messages\<close>

text \<open>A short peer identifier, and a payload that fits into a message.\<close>

definition peer_name :: "string \<Rightarrow> bool" where
  "peer_name i \<longleftrightarrow> is_identifier i \<and> plain_text i \<and> length i \<le> 10"

definition sendable :: "agreement_payload \<Rightarrow> bool" where
  "sendable p \<longleftrightarrow> validateCollectiveAgreementPayloadV1 sample_platform p = Some p
     \<and> plain_json (payload_json p) \<and> mesh_fits DEFAULT_MESH_PROTOCOL_LIMITS 1 (payload_json p)
     \<and> object_keys (payload_json p) \<le> 2000 \<and> array_items (payload_json p) \<le> 4000
     \<and> text_bound (payload_json p) \<le> 260000"

definition unsigned_message :: "string \<Rightarrow> string \<Rightarrow> string \<Rightarrow> agreement_payload \<Rightarrow> agreement_payload envelope" where
  "unsigned_message messageId i audience p = \<lparr>
     en_protocol = ''agentplat.collective-agreement'', en_schemaVersion = 1, en_messageId = messageId,
     en_tenantId = ''t'', en_meshId = ''m'', en_senderPeerId = i, en_senderInstanceId = ''n'',
     en_audiencePeerId = audience, en_issuedAt = wall, en_expiresAt = wall_expiry, en_payload = p,
     en_algorithm = ''Ed25519'', en_keyId = ''k'', en_signature = None\<rparr>"

definition sample_messageId :: "string \<Rightarrow> string \<Rightarrow> agreement_payload \<Rightarrow> string" where
  "sample_messageId i audience p =
     ''agreement.'' @ payload_type p @ ''.'' @ digest_slice (sample_hash (identity_json (unsigned_message [] i audience p)))"

definition sample_message :: "string \<Rightarrow> string \<Rightarrow> agreement_payload \<Rightarrow> agreement_payload envelope" where
  "sample_message i audience p =
     (unsigned_message (sample_messageId i audience p) i audience p)\<lparr>en_signature := Some sample_signature\<rparr>"

lemma limits [simp]:
  "maximumNestingDepth DEFAULT_MESH_PROTOCOL_LIMITS = 32" "maximumObjectKeys DEFAULT_MESH_PROTOCOL_LIMITS = 256"
  "maximumArrayItems DEFAULT_MESH_PROTOCOL_LIMITS = 1024" "maximumStringBytes DEFAULT_MESH_PROTOCOL_LIMITS = 65536"
  by (simp_all add: DEFAULT_MESH_PROTOCOL_LIMITS_def)

lemma show_int_small [simp]: "show_int 0 = ''0''" "show_int 1 = ''1''" "show_int 5 = ''5''"
  by code_simp+

lemma payload_type_chars:
  "list_all (\<lambda>c. is_alnum c \<or> c \<in> set ''._:@/+-='') (payload_type p) \<and> plain_text (payload_type p) \<and> length (payload_type p) \<le> 22"
proof -
  have "\<forall>s \<in> set [''agreement.proposal'', ''agreement.vote'', ''agreement.certificate'', ''agreement.commit'', ''agreement.ack''].
      list_all (\<lambda>c. is_alnum c \<or> c \<in> set ''._:@/+-='') s \<and> plain_text s \<and> length s \<le> 22"
    by code_simp
  then show ?thesis by (cases p) simp_all
qed

lemma greement_chars: "list_all (\<lambda>c. is_alnum c \<or> c \<in> set ''._:@/+-='') ''greement.''" "plain_text ''agreement.''"
    "is_alnum (CHR ''a'')"
  by code_simp+

lemma sample_messageId_ok:
  "is_identifier (sample_messageId i a p)" "plain_text (sample_messageId i a p)" "length (sample_messageId i a p) \<le> 90"
proof -
  note t = payload_type_chars[of p]
  define slice where "slice = digest_slice (sample_hash (identity_json (unsigned_message [] i a p)))"
  have slice: "list_all (\<lambda>c. is_alnum c \<or> c \<in> set ''._:@/+-='') slice" "plain_text slice" "length slice = 40"
    unfolding slice_def by (rule digest_slice_ok)+
  have id: "sample_messageId i a p = CHR ''a'' # ''greement.'' @ payload_type p @ ''.'' @ slice"
    by (simp add: sample_messageId_def slice_def)
  have dot: "list_all (\<lambda>c. is_alnum c \<or> c \<in> set ''._:@/+-='') ''.''" "plain_text ''.''" by code_simp+
  show "is_identifier (sample_messageId i a p)"
    unfolding id is_identifier_def list.case list_all_append using t slice greement_chars dot by simp
  show "plain_text (sample_messageId i a p)" "length (sample_messageId i a p) \<le> 90"
    using t slice greement_chars(2) dot(2) unfolding id by simp_all
qed

lemma identity_ok:
  assumes "sendable p" "peer_name i" "peer_name a"
  shows "mesh_ok (identity_json (unsigned_message [] i a p))"
  using assms wall_text
  by (intro mesh_ok_plain) (simp_all add: identity_json_def unsigned_message_def sendable_def peer_name_def
      plain_char_def byteLength_plain)

lemma message_ok:
  assumes "sendable p" "peer_name i" "peer_name a"
  shows "mesh_ok (message_json (unsigned_message (sample_messageId i a p) i a p))"
    "mesh_ok (message_json (sample_message i a p))"
  using assms wall_text sample_messageId_ok[of i a p] sample_signature_ok(3,4)
  by (intro mesh_ok_plain; simp add: message_json_def envelope_json_def proof_json_def jobject_def map_filter_simps
      sample_message_def unsigned_message_def sendable_def peer_name_def plain_char_def byteLength_plain)+

lemma compare_wall:
  "compareMeshTimestamps wall wall_expiry = Some (-1)" "compareMeshTimestamps wall wall = Some 0"
  "compareMeshTimestamps wall_expiry wall_expiry = Some 0"
  "compareMeshTimestamps wall ''2026-01-01T00:00:00Z'' = Some 1"
  "compareMeshTimestamps wall ''2027-01-01T00:00:00Z'' = Some (-1)"
  unfolding compareMeshTimestamps_def wall_instants by simp_all

lemma short_identifiers: "is_identifier ''t''" "is_identifier ''m''" "is_identifier ''n''" "is_identifier ''k''"
  by code_simp+

lemma encoded_length: "mesh_ok v \<Longrightarrow> length (encode_utf8 (render (json_norm v))) \<le> MAXIMUM_BYTES"
  by (simp add: mesh_ok_def byteLength_def MAXIMUM_BYTES_def)

lemma valid_sample_envelope:
  assumes "sendable p" "peer_name i" "peer_name a"
  shows "validate_envelope sample_platform False (unsigned_message (sample_messageId i a p) i a p)
      = Some (unsigned_message (sample_messageId i a p) i a p)"
    "validate_envelope sample_platform True (sample_message i a p) = Some (sample_message i a p)"
proof -
  have v: "validateCollectiveAgreementPayloadV1 sample_platform p = Some p" "is_identifier i" "is_identifier a"
    using assms by (simp_all add: sendable_def peer_name_def)
  have c: "canonicalBytes x = Inr (encode_utf8 (render (json_norm x)))" if "mesh_ok x" for x
    using that by (simp add: canonicalBytes_iff)
  note u = message_ok[OF assms]
  show "validate_envelope sample_platform False (unsigned_message (sample_messageId i a p) i a p)
      = Some (unsigned_message (sample_messageId i a p) i a p)"
    using v u(1) c[OF u(1)] encoded_length[OF u(1)] short_identifiers sample_messageId_ok(1)[of i a p]
    by (simp add: validate_envelope_def unsigned_message_def COLLECTIVE_AGREEMENT_PROTOCOL_V1_def
        COLLECTIVE_AGREEMENT_SCHEMA_VERSION_V1_def MESH_SIGNATURE_ALGORITHM_def mesh_timestamp_def compare_wall)
  show "validate_envelope sample_platform True (sample_message i a p) = Some (sample_message i a p)"
    using v u(2) c[OF u(2)] encoded_length[OF u(2)] short_identifiers sample_messageId_ok(1)[of i a p] sample_signature_ok(1)
    by (simp add: validate_envelope_def sample_message_def unsigned_message_def COLLECTIVE_AGREEMENT_PROTOCOL_V1_def
        COLLECTIVE_AGREEMENT_SCHEMA_VERSION_V1_def MESH_SIGNATURE_ALGORITHM_def mesh_timestamp_def compare_wall)
qed

lemma message_created:
  assumes "sendable p" "peer_name i" "peer_name a"
  shows "createSignedCollectiveAgreementEnvelopeV1 sample_platform (sample_scope i) sample_signing a p sample_clock (Some 30000)
    = Inr (sample_message i a p)"
proof -
  have e: "mesh_date_parse wall = Some 1772323200000" by (simp add: mesh_date_parse_def wall_instants)
  have u: "unsigned_message mid i a p = \<lparr>en_protocol = COLLECTIVE_AGREEMENT_PROTOCOL_V1,
      en_schemaVersion = COLLECTIVE_AGREEMENT_SCHEMA_VERSION_V1, en_messageId = mid, en_tenantId = ''t'', en_meshId = ''m'',
      en_senderPeerId = i, en_senderInstanceId = ''n'', en_audiencePeerId = a, en_issuedAt = wall,
      en_expiresAt = wall_expiry, en_payload = p, en_algorithm = ''Ed25519'', en_keyId = ''k'', en_signature = None\<rparr>" for mid
    by (simp add: unsigned_message_def COLLECTIVE_AGREEMENT_PROTOCOL_V1_def COLLECTIVE_AGREEMENT_SCHEMA_VERSION_V1_def)
  note v = valid_sample_envelope[OF assms]
  have d: "collectiveAgreementDigestV1 sample_platform (identity_json (unsigned_message [] i a p))
      = Inr (sample_hash (identity_json (unsigned_message [] i a p)))" by (rule sample_digest[OF identity_ok[OF assms]])
  have s: "signCollectiveAgreementEnvelopeV1 sample_platform (unsigned_message (sample_messageId i a p) i a p)
      (sg_privateKey sample_signing) = Inr (sample_message i a p)"
  proof -
    have "canonicalBytes (message_json (unsigned_message (sample_messageId i a p) i a p))
        = Inr (encode_utf8 (render (json_norm (message_json (unsigned_message (sample_messageId i a p) i a p)))))"
      using message_ok(1)[OF assms] by (simp add: canonicalBytes_iff)
    then show ?thesis
      using v(2) unfolding signCollectiveAgreementEnvelopeV1_def v(1)
      by (simp add: sample_signing_def ed25519_def MESH_SIGNATURE_ALGORITHM_def sample_platform_def
          sample_message_def sample_signature_def)
  qed
  show ?thesis
    using d s unfolding createSignedCollectiveAgreementEnvelopeV1_def sample_clock_def sample_scope_def
    by (simp add: e wall_instants isSafeInteger_def maximumSafeInteger_def u[symmetric] sample_messageId_def
        sample_signing_def)
qed

end
