(* ===== verification/AgSampleVotes.thy ===== *)
theory AgSampleVotes
  imports AgSamples
begin

text \<open>
  The sample membership of four validators, a value, and the votes, certificates and commit that
  three of them make for it in round 0 of height 1.
\<close>

lemma message_verified:
  assumes "sendable p" "peer_name i" "peer_name a"
  shows "verifyCollectiveAgreementEnvelopeV1 sample_platform sample_resolver wall (sample_message i a p)
      = Some (sample_message i a p)"
    "ttl \<in> {30000, 300000} \<Longrightarrow> verifyCollectiveAgreementLiveEnvelopeV1 sample_platform sample_resolver wall ttl
       (sample_message i a p) = Some (sample_message i a p)"
    "ttl \<in> {30000, 300000} \<Longrightarrow> collectiveAgreementEnvelopeIsFreshV1 (sample_message i a p) wall ttl"
proof -
  let ?e = "sample_message i a p"
  have unsigned: "?e\<lparr>en_signature := None\<rparr> = unsigned_message (sample_messageId i a p) i a p"
    by (simp add: sample_message_def unsigned_message_def)
  have bytes: "canonicalBytes (message_json (unsigned_message (sample_messageId i a p) i a p))
      = Inr (encode_utf8 (render (json_norm (message_json (unsigned_message (sample_messageId i a p) i a p)))))"
    using message_ok(1)[OF assms] by (simp add: canonicalBytes_iff)
  have sig: "en_signature ?e = Some sample_signature" "en_issuedAt ?e = wall" "en_expiresAt ?e = wall_expiry"
    by (simp_all add: sample_message_def unsigned_message_def)
  have key: "key_of sample_resolver ?e = Some \<lparr>mk_peerId = i, mk_keyId = ''k'',
     mk_algorithm = ''Ed25519'', mk_status = ''active'', mk_revokedAt = None,
     mk_validFrom = ''2026-01-01T00:00:00Z'', mk_validUntil = ''2027-01-01T00:00:00Z'',
     mk_publicKey = \<lparr>ck_type = ''public'', ck_algorithm = ''Ed25519'', ck_usages = [''verify''], ck_handle = 7\<rparr>\<rparr>"
    by (simp add: key_of_def sample_resolver_def sample_message_def unsigned_message_def)
  have ids: "en_senderPeerId ?e = i" "en_keyId ?e = ''k''" by (simp_all add: sample_message_def unsigned_message_def)
  show v: "verifyCollectiveAgreementEnvelopeV1 sample_platform sample_resolver wall ?e = Some ?e"
    unfolding verifyCollectiveAgreementEnvelopeV1_def valid_sample_envelope(2)[OF assms] option.case unsigned bytes key
    by (simp add: mesh_timestamp_def compare_wall ids key_usable_at_def MESH_SIGNATURE_ALGORITHM_def ed25519_def
        within_def sig sample_signature_ok sample_platform_def)
  show fresh: "collectiveAgreementEnvelopeIsFreshV1 ?e wall ttl" if "ttl \<in> {30000, 300000}"
    using that by (auto simp: collectiveAgreementEnvelopeIsFreshV1_def sig compare_wall mesh_date_parse_def wall_instants)
  show "verifyCollectiveAgreementLiveEnvelopeV1 sample_platform sample_resolver wall ttl ?e = Some ?e"
    if "ttl \<in> {30000, 300000}"
    using fresh[OF that] unfolding verifyCollectiveAgreementLiveEnvelopeV1_def v option.case key
    by (simp add: key_usable_at_def)
qed

subsection \<open>Membership and value\<close>

definition sample_validators :: "validator list" where
  "sample_validators = map (\<lambda>i. \<lparr>va_peerId = i, va_instanceId = ''n'', va_keyId = ''k''\<rparr>) [''p1'', ''p2'', ''p3'', ''p4'']"

definition sample_core :: membership where
  "sample_core = \<lparr>me_schemaVersion = 1, me_epoch = 1, me_configurationDigest = [], me_faultThreshold = 1,
     me_validators = sample_validators\<rparr>"

definition sample_membership :: membership where
  "sample_membership = sample_core\<lparr>me_configurationDigest := sample_hash (JObj (membership_body sample_core))\<rparr>"

definition sample_value_core :: agreement_value where
  "sample_value_core = \<lparr>av_schemaVersion = 1, av_kind = ''application'', av_valueId = ''v'',
     av_previousCommitDigest = None, av_payload = [(''amount'', JNum 5)], av_valueDigest = []\<rparr>"

definition sample_value :: agreement_value where
  "sample_value = sample_value_core\<lparr>av_valueDigest := sample_hash (JObj (agreement_value_body sample_value_core))\<rparr>"

lemma sample_membership_valid:
  "validateCollectiveAgreementMembershipV1 sample_platform sample_membership = Some sample_membership"
proof -
  have body: "membership_body sample_membership = membership_body sample_core"
    by (simp add: membership_body_def sample_membership_def)
  have "mesh_ok (JObj (membership_body sample_core))"
    by (rule mesh_ok_plain)
      (simp_all add: membership_body_def sample_core_def sample_validators_def validator_json_def plain_char_def byteLength_plain)
  note d = sample_digest[OF this]
  have "increasing (map va_peerId sample_validators)"
    "\<not> list_ex (\<lambda>v. \<not> is_identifier (va_peerId v) \<or> \<not> is_identifier (va_instanceId v) \<or> \<not> is_identifier (va_keyId v)) sample_validators"
    by code_simp+
  then show ?thesis
    unfolding validateCollectiveAgreementMembershipV1_def body d
    by (simp add: sample_membership_def sample_core_def ag_positive_def ag_nonnegative_def isSafeInteger_def
        maximumSafeInteger_def) (simp add: sample_validators_def)
qed

lemma value_ids: "is_identifier ''v''" "''application'' \<in> set agreement_value_kinds" "is_identifier ''d''" "is_identifier ''s''"
    "is_identifier ''q''" "peer_name ''p1''" "peer_name ''p2''" "peer_name ''p3''" "peer_name ''p4''"
  by code_simp+

lemma sample_value_valid: "validateCollectiveAgreementValueV1 sample_platform sample_value = Some sample_value"
proof -
  have body: "agreement_value_body sample_value = agreement_value_body sample_value_core"
    by (simp add: agreement_value_body_def sample_value_def)
  have "mesh_ok (JObj (agreement_value_body sample_value_core))"
    by (rule mesh_ok_plain) (simp_all add: agreement_value_body_def sample_value_core_def json_nullable_def plain_char_def byteLength_plain)
  note d = sample_digest[OF this]
  have "mesh_ok (agreement_value_json sample_value)"
    unfolding agreement_value_json_def body
    by (rule mesh_ok_plain)
      (simp_all add: agreement_value_body_def sample_value_def sample_value_core_def json_nullable_def plain_char_def byteLength_plain)
  then have c: "canonicalBytes (agreement_value_json sample_value)
      = Inr (encode_utf8 (render (json_norm (agreement_value_json sample_value))))" by (simp add: canonicalBytes_iff)
  show ?thesis
    unfolding validateCollectiveAgreementValueV1_def body d c
    using value_ids by (simp add: sample_value_def sample_value_core_def null_or_def)
qed

subsection \<open>Votes\<close>

definition sample_coordinate :: coordinate where
  "sample_coordinate = \<lparr>co_policyDomainId = ''d'', co_slotId = ''s'', co_height = 1, co_round = 0,
     co_membershipEpoch = 1, co_membershipConfigurationDigest = me_configurationDigest sample_membership\<rparr>"

definition sample_vote_payload :: "vote_phase \<Rightarrow> string \<Rightarrow> vote_payload" where
  "sample_vote_payload phase i = \<lparr>vp_coordinate = sample_coordinate, vp_phase = phase, vp_proposalId = ''q'',
     vp_voterPeerId = i, vp_valueDigest = Some (av_valueDigest sample_value), vp_votedAtLogicalMs = 5\<rparr>"

definition sample_vote :: "vote_phase \<Rightarrow> string \<Rightarrow> vote_payload envelope" where
  "sample_vote phase i = with_payload (sample_message i ''p1'' (AgreementVote (sample_vote_payload phase i)))
     (sample_vote_payload phase i)"

lemma sample_coordinate_valid: "valid_coordinate sample_coordinate"
  using value_ids by (simp add: valid_coordinate_def sample_coordinate_def sample_membership_def ag_positive_def
      ag_nonnegative_def isSafeInteger_def maximumSafeInteger_def)

lemma sample_digests [simp]:
  "digest_text (av_valueDigest sample_value)" "length (av_valueDigest sample_value) = 71" "plain_text (av_valueDigest sample_value)"
  "digest_text (me_configurationDigest sample_membership)" "length (me_configurationDigest sample_membership) = 71"
  "plain_text (me_configurationDigest sample_membership)"
  by (simp_all add: sample_value_def sample_membership_def)

lemma coordinate_json_facts [simp]:
  "plain_json (coordinate_json sample_coordinate)" "object_keys (coordinate_json sample_coordinate) = 6"
  "array_items (coordinate_json sample_coordinate) = 0" "text_bound (coordinate_json sample_coordinate) \<le> 300"
  "d < 32 \<Longrightarrow> mesh_fits DEFAULT_MESH_PROTOCOL_LIMITS d (coordinate_json sample_coordinate)"
  by (simp_all add: coordinate_json_def sample_coordinate_def plain_char_def byteLength_plain)

lemma phase_text_ok [simp]: "plain_text (phase_text ph)" "length (phase_text ph) \<le> 9" "length (phase_text ph) \<le> 65536"
  by (cases ph; simp add: plain_char_def)+

lemma vote_payload_facts:
  assumes "peer_name i"
  shows "plain_json (vote_payload_json (sample_vote_payload ph i))"
    "object_keys (vote_payload_json (sample_vote_payload ph i)) = 13"
    "array_items (vote_payload_json (sample_vote_payload ph i)) = 0"
    "text_bound (vote_payload_json (sample_vote_payload ph i)) \<le> 600"
    "d < 31 \<Longrightarrow> mesh_fits DEFAULT_MESH_PROTOCOL_LIMITS d (vote_payload_json (sample_vote_payload ph i))"
proof -
  have p: "length (phase_text ph) \<le> 9" "text_bound (coordinate_json sample_coordinate) \<le> 300" "length i \<le> 10" "plain_text i"
    using assms by (simp_all add: peer_name_def)
  show "text_bound (vote_payload_json (sample_vote_payload ph i)) \<le> 600"
    by (simp add: vote_payload_json_def sample_vote_payload_def json_nullable_def) (use p in linarith)
  show "plain_json (vote_payload_json (sample_vote_payload ph i))"
    "object_keys (vote_payload_json (sample_vote_payload ph i)) = 13"
    "array_items (vote_payload_json (sample_vote_payload ph i)) = 0"
    "d < 31 \<Longrightarrow> mesh_fits DEFAULT_MESH_PROTOCOL_LIMITS d (vote_payload_json (sample_vote_payload ph i))"
    using p by (simp_all add: vote_payload_json_def sample_vote_payload_def json_nullable_def plain_char_def byteLength_plain)
qed

lemma vote_sendable:
  assumes "peer_name i"
  shows "sendable (AgreementVote (sample_vote_payload ph i))"
  unfolding sendable_def
proof (intro conjI)
  show "validateCollectiveAgreementPayloadV1 sample_platform (AgreementVote (sample_vote_payload ph i))
      = Some (AgreementVote (sample_vote_payload ph i))"
    using assms sample_coordinate_valid value_ids by (simp add: sample_vote_payload_def peer_name_def null_or_def
        logical_def ag_nonnegative_def isSafeInteger_def maximumSafeInteger_def)
qed (use vote_payload_facts[OF assms, where ph = ph] vote_payload_facts(5)[OF assms, of 1 ph] in \<open>simp_all add: le_trans\<close>)

lemma sample_vote_message: "vote_message (sample_vote ph i) = sample_message i ''p1'' (AgreementVote (sample_vote_payload ph i))"
  by (simp add: vote_message_def sample_vote_def with_payload_def sample_message_def unsigned_message_def)

lemma sample_vote_verified:
  assumes "peer_name i"
  shows "verify_vote sample_platform sample_resolver wall (sample_vote ph i)"
    "verify_live_vote sample_platform sample_resolver wall 300000 (sample_vote ph i)"
    "collectiveAgreementEnvelopeIsFreshV1 (sample_vote ph i) wall 300000"
proof -
  note m = message_verified[OF vote_sendable[OF assms] assms value_ids(6)]
  show "verify_vote sample_platform sample_resolver wall (sample_vote ph i)"
    "verify_live_vote sample_platform sample_resolver wall 300000 (sample_vote ph i)"
    using m by (simp_all add: verify_vote_def verify_live_vote_def sample_vote_message)
  show "collectiveAgreementEnvelopeIsFreshV1 (sample_vote ph i) wall 300000"
    using m(3)[of 300000] by (simp add: collectiveAgreementEnvelopeIsFreshV1_def sample_vote_def with_payload_def)
qed

lemma sample_vote_fields [simp]:
  "en_senderPeerId (sample_vote ph i) = i" "en_senderInstanceId (sample_vote ph i) = ''n''" "en_keyId (sample_vote ph i) = ''k''"
  "en_payload (sample_vote ph i) = sample_vote_payload ph i"
  by (simp_all add: sample_vote_def with_payload_def sample_message_def unsigned_message_def)

lemma vote_json_facts:
  assumes "peer_name i"
  shows "plain_json (vote_json (sample_vote ph i))" "object_keys (vote_json (sample_vote ph i)) = 28"
    "array_items (vote_json (sample_vote ph i)) = 0" "text_bound (vote_json (sample_vote ph i)) \<le> 1500"
    "d < 30 \<Longrightarrow> mesh_fits DEFAULT_MESH_PROTOCOL_LIMITS d (vote_json (sample_vote ph i))"
proof -
  note p = vote_payload_facts[OF assms, where ph = ph]
  note i = sample_messageId_ok[of i "''p1''" "AgreementVote (sample_vote_payload ph i)"] wall_text sample_signature_ok(3,4)
  have j: "length i \<le> 10" "plain_text i" using assms by (simp_all add: peer_name_def)
  note defs = vote_json_def envelope_json_def proof_json_def jobject_def map_filter_simps sample_vote_def with_payload_def
    sample_message_def unsigned_message_def
  show "text_bound (vote_json (sample_vote ph i)) \<le> 1500" using p(4) i j by (simp add: defs)
  show "plain_json (vote_json (sample_vote ph i))" "object_keys (vote_json (sample_vote ph i)) = 28"
    "array_items (vote_json (sample_vote ph i)) = 0"
    using p(1-3) i j by (simp_all add: defs plain_char_def)
  show "mesh_fits DEFAULT_MESH_PROTOCOL_LIMITS d (vote_json (sample_vote ph i))" if "d < 30"
    using p(5)[of "Suc d"] i j that by (simp add: defs byteLength_plain plain_char_def)
qed

subsection \<open>Certificates\<close>

text \<open>Three of the four validators are a quorum; two quorums are used.\<close>

abbreviation "first_quorum \<equiv> [''p1'', ''p2'', ''p3'']"
abbreviation "last_quorum \<equiv> [''p2'', ''p3'', ''p4'']"

definition sample_quorums :: "string list set" where
  "sample_quorums = {first_quorum, last_quorum}"

lemma sample_quorums_in [simp]: "first_quorum \<in> sample_quorums" "last_quorum \<in> sample_quorums"
  by (simp_all add: sample_quorums_def)

lemma sample_quorum_names:
  assumes "ids \<in> sample_quorums"
  obtains a b c where "ids = [a, b, c]" "peer_name a" "peer_name b" "peer_name c" "a < b" "b < c"
    "{a, b, c} \<subseteq> {''p1'', ''p2'', ''p3'', ''p4''}" "a \<noteq> b" "b \<noteq> c" "a \<noteq> c"
proof -
  have "''p1'' < ''p2''" "''p2'' < ''p3''" "''p3'' < ''p4''" by code_simp+
  with assms that[of "''p1''" "''p2''" "''p3''"] that[of "''p2''" "''p3''" "''p4''"] value_ids(6-9) show thesis
    by (auto simp: sample_quorums_def)
qed

definition quorum_votes :: "string list \<Rightarrow> vote_phase \<Rightarrow> vote_payload envelope list" where
  "quorum_votes ids ph = map (sample_vote ph) ids"

abbreviation "sample_votes \<equiv> quorum_votes first_quorum"

lemmas sample_votes_def = quorum_votes_def

definition quorum_core :: "string list \<Rightarrow> vote_phase \<Rightarrow> vote_certificate" where
  "quorum_core ids ph = \<lparr>vc_schemaVersion = 1, vc_kind = ''vote_certificate'', vc_phase = ph,
     vc_coordinate = sample_coordinate, vc_proposalId = ''q'', vc_valueDigest = Some (av_valueDigest sample_value),
     vc_votes = quorum_votes ids ph, vc_certificateDigest = []\<rparr>"

definition quorum_certificate :: "string list \<Rightarrow> vote_phase \<Rightarrow> vote_certificate" where
  "quorum_certificate ids ph =
     (quorum_core ids ph)\<lparr>vc_certificateDigest := sample_hash (JObj (vote_certificate_body (quorum_core ids ph)))\<rparr>"

lemma quorum_certificate_shape:
  assumes q: "ids \<in> sample_quorums"
  shows "validateCollectiveAgreementVoteCertificateShapeV1 (quorum_certificate ids ph) = Some (quorum_certificate ids ph)"
proof -
  obtain a b c where "ids = [a, b, c]" by (rule sample_quorum_names[OF q])
  then show ?thesis
    using sample_coordinate_valid value_ids
    by (simp add: validateCollectiveAgreementVoteCertificateShapeV1_def quorum_certificate_def quorum_core_def
        null_or_def quorum_votes_def)
qed

lemma quorum_body_facts:
  assumes q: "ids \<in> sample_quorums"
  shows "plain_json (JObj (vote_certificate_body (quorum_core ids ph)))"
  "object_keys (JObj (vote_certificate_body (quorum_core ids ph))) = 97"
  "array_items (JObj (vote_certificate_body (quorum_core ids ph))) = 3"
  "text_bound (JObj (vote_certificate_body (quorum_core ids ph))) \<le> 6000"
  "d < 28 \<Longrightarrow> mesh_fits DEFAULT_MESH_PROTOCOL_LIMITS d (JObj (vote_certificate_body (quorum_core ids ph)))"
proof -
  obtain a b c where ids: "ids = [a, b, c]" and names: "peer_name a" "peer_name b" "peer_name c"
    by (rule sample_quorum_names[OF q])
  note v1 = vote_json_facts[OF names(1), where ph = ph] and v2 = vote_json_facts[OF names(2), where ph = ph]
    and v3 = vote_json_facts[OF names(3), where ph = ph]
  note defs = vote_certificate_body_def quorum_core_def quorum_votes_def json_nullable_def ids
  have p: "length (phase_text ph) \<le> 9" "text_bound (coordinate_json sample_coordinate) \<le> 300" by simp_all
  show "text_bound (JObj (vote_certificate_body (quorum_core ids ph))) \<le> 6000"
    by (simp add: defs) (use p v1(4) v2(4) v3(4) in linarith)
  show "plain_json (JObj (vote_certificate_body (quorum_core ids ph)))"
    "object_keys (JObj (vote_certificate_body (quorum_core ids ph))) = 97"
    "array_items (JObj (vote_certificate_body (quorum_core ids ph))) = 3"
    using v1(1-3) v2(1-3) v3(1-3) by (simp_all add: defs plain_char_def)
  show "mesh_fits DEFAULT_MESH_PROTOCOL_LIMITS d (JObj (vote_certificate_body (quorum_core ids ph)))" if "d < 28"
    using v1(5)[of "Suc (Suc d)"] v2(5)[of "Suc (Suc d)"] v3(5)[of "Suc (Suc d)"] that
    by (simp add: defs byteLength_plain plain_char_def)
qed

lemma quorum_certificate_digest:
  assumes q: "ids \<in> sample_quorums"
  shows "collectiveAgreementDigestV1 sample_platform (JObj (vote_certificate_body (quorum_core ids ph)))
     = Inr (vc_certificateDigest (quorum_certificate ids ph))"
proof -
  note f = quorum_body_facts[OF q, where ph = ph]
  have "mesh_ok (JObj (vote_certificate_body (quorum_core ids ph)))"
    by (rule mesh_ok_plain[OF f(1) f(5)]) (use f(2-4) in simp_all)
  then show ?thesis by (simp add: sample_digest quorum_certificate_def)
qed

lemma member_map_sample:
  "member_map sample_membership i = (if i \<in> {''p1'', ''p2'', ''p3'', ''p4''}
     then Some \<lparr>va_peerId = i, va_instanceId = ''n'', va_keyId = ''k''\<rparr> else None)"
  by (simp add: member_map_def sample_membership_def sample_core_def sample_validators_def)

lemma quorum_votes_checked:
  assumes q: "ids \<in> sample_quorums"
  shows "check_votes (member_map sample_membership) (sample_vote_payload ph (hd ids)) [] (quorum_votes ids ph) = Some (rev ids)"
proof -
  obtain a b c where "ids = [a, b, c]" "{a, b, c} \<subseteq> {''p1'', ''p2'', ''p3'', ''p4''}" "a \<noteq> b" "b \<noteq> c" "a \<noteq> c"
    by (rule sample_quorum_names[OF q])
  then show ?thesis by (simp add: quorum_votes_def member_map_sample sample_vote_payload_def)
qed

lemma quorum_votes_sorted:
  assumes q: "ids \<in> sample_quorums"
  shows "js_sort (\<lambda>l r. pl_localeCompare sample_platform (en_senderPeerId l) (en_senderPeerId r)) (quorum_votes ids ph) = quorum_votes ids ph"
proof -
  obtain a b c where "ids = [a, b, c]" "a < b" "b < c" by (rule sample_quorum_names[OF q])
  then show ?thesis by (simp add: js_sort_def quorum_votes_def sample_platform_def)
qed

lemma sample_membership_fields [simp]:
  "me_faultThreshold sample_membership = 1" "me_epoch sample_membership = 1" "me_validators sample_membership = sample_validators"
  by (simp_all add: sample_membership_def sample_core_def)

lemma quorum_assembled:
  assumes q: "ids \<in> sample_quorums"
  shows "assembleCollectiveAgreementVoteCertificateV1 sample_platform sample_resolver wall sample_membership (quorum_votes ids ph) fresh
     = Inr (Some (quorum_certificate ids ph))"
proof -
  obtain a b c where ids: "ids = [a, b, c]" and names: "peer_name a" "peer_name b" "peer_name c"
    by (rule sample_quorum_names[OF q])
  have v: "verifyVotes sample_platform sample_resolver wall fresh (quorum_votes ids ph) = quorum_votes ids ph"
    using sample_vote_verified[OF names(1), of ph] sample_vote_verified[OF names(2), of ph]
      sample_vote_verified[OF names(3), of ph]
    by (auto simp: verifyVotes_def quorum_votes_def ids)
  have hd: "en_payload (hd (quorum_votes ids ph)) = sample_vote_payload ph (hd ids)" and n: "length (quorum_votes ids ph) = 3"
    by (simp_all add: quorum_votes_def ids)
  then have ne: "quorum_votes ids ph \<noteq> []" and ln: "length ids = 3" by (auto simp: ids)
  have core: "\<lparr>vc_schemaVersion = 1, vc_kind = ''vote_certificate'', vc_phase = vp_phase (sample_vote_payload ph (hd ids)),
      vc_coordinate = vp_coordinate (sample_vote_payload ph (hd ids)), vc_proposalId = vp_proposalId (sample_vote_payload ph (hd ids)),
      vc_valueDigest = vp_valueDigest (sample_vote_payload ph (hd ids)), vc_votes = quorum_votes ids ph, vc_certificateDigest = []\<rparr>
    = quorum_core ids ph"
    by (simp add: quorum_core_def sample_vote_payload_def)
  have final: "(quorum_core ids ph)\<lparr>vc_certificateDigest := vc_certificateDigest (quorum_certificate ids ph)\<rparr> = quorum_certificate ids ph"
    by (simp add: quorum_certificate_def)
  have c: "co_membershipEpoch (vp_coordinate (sample_vote_payload ph (hd ids))) = 1"
    "co_membershipConfigurationDigest (vp_coordinate (sample_vote_payload ph (hd ids))) = me_configurationDigest sample_membership"
    by (simp_all add: sample_vote_payload_def sample_coordinate_def)
  show ?thesis
    unfolding assembleCollectiveAgreementVoteCertificateV1_def sample_membership_valid option.case v hd Let_def
      quorum_votes_checked[OF q] quorum_votes_sorted[OF q] core
    by (simp add: n collectiveAgreementQuorumThresholdV1_def c quorum_certificate_digest[OF q] final quorum_certificate_shape[OF q] ne ln)
qed

lemma quorum_certificate_verified:
  assumes q: "ids \<in> sample_quorums"
  shows "verifyVoteCertificate sample_platform sample_resolver wall sample_membership fresh (quorum_certificate ids ph)
     = Inr (Some (quorum_certificate ids ph))"
proof -
  have "vc_votes (quorum_certificate ids ph) = quorum_votes ids ph" by (simp add: quorum_certificate_def quorum_core_def)
  then show ?thesis
    unfolding verifyVoteCertificate_def quorum_certificate_shape[OF q] option.case by (simp add: quorum_assembled[OF q])
qed

subsection \<open>A commit\<close>

definition quorum_commit_core :: "string list \<Rightarrow> commit_certificate" where
  "quorum_commit_core ids = \<lparr>cc_schemaVersion = 1, cc_kind = ''commit_certificate'', cc_certificateId = [],
     cc_coordinate = sample_coordinate, cc_proposalId = ''q'', cc_value = sample_value,
     cc_prevoteCertificate = quorum_certificate ids Prevote, cc_precommitCertificate = quorum_certificate ids Precommit,
     cc_committedAtLogicalMs = 5, cc_certificateDigest = []\<rparr>"

definition quorum_commit_digest :: "string list \<Rightarrow> string" where
  "quorum_commit_digest ids = sample_hash (JObj (commit_certificate_body (quorum_commit_core ids)))"

definition quorum_commit :: "string list \<Rightarrow> commit_certificate" where
  "quorum_commit ids = (quorum_commit_core ids)\<lparr>
     cc_certificateId := ''agreement.commit.'' @ digest_slice (quorum_commit_digest ids),
     cc_certificateDigest := (quorum_commit_digest ids)\<rparr>"

lemma commit_id_ok: "is_identifier (''agreement.commit.'' @ digest_slice (sample_hash v))"
proof -
  have id: "''agreement.commit.'' @ s = CHR ''a'' # ''greement.commit.'' @ s" for s by simp
  have chars: "list_all (\<lambda>c. is_alnum c \<or> c \<in> set ''._:@/+-='') ''greement.commit.''" "is_alnum (CHR ''a'')" by code_simp+
  have slice: "list_all (\<lambda>c. is_alnum c \<or> c \<in> set ''._:@/+-='') (digest_slice (sample_hash v))"
    "length (digest_slice (sample_hash v)) = 40" by (rule digest_slice_ok)+
  show ?thesis unfolding id is_identifier_def list.case list_all_append using chars slice by simp
qed

lemma quorum_certificate_facts:
  assumes q: "ids \<in> sample_quorums"
  shows "plain_json (vote_certificate_json (quorum_certificate ids ph))"
  "object_keys (vote_certificate_json (quorum_certificate ids ph)) = 98"
  "array_items (vote_certificate_json (quorum_certificate ids ph)) = 3"
  "text_bound (vote_certificate_json (quorum_certificate ids ph)) \<le> 6100"
  "d < 28 \<Longrightarrow> mesh_fits DEFAULT_MESH_PROTOCOL_LIMITS d (vote_certificate_json (quorum_certificate ids ph))"
proof -
  have body: "vote_certificate_body (quorum_certificate ids ph) = vote_certificate_body (quorum_core ids ph)"
    by (simp add: vote_certificate_body_def quorum_certificate_def)
  have dig: "plain_text (vc_certificateDigest (quorum_certificate ids ph))" "length (vc_certificateDigest (quorum_certificate ids ph)) = 71"
    by (simp_all add: quorum_certificate_def)
  note f = quorum_body_facts[OF q, where ph = ph]
  have n: "length (vote_certificate_body (quorum_core ids ph)) = 7" by (simp add: vote_certificate_body_def)
  show "plain_json (vote_certificate_json (quorum_certificate ids ph))"
    "object_keys (vote_certificate_json (quorum_certificate ids ph)) = 98"
    "array_items (vote_certificate_json (quorum_certificate ids ph)) = 3"
    "text_bound (vote_certificate_json (quorum_certificate ids ph)) \<le> 6100"
    using f(1-4) dig n unfolding vote_certificate_json_def body by (simp_all add: plain_char_def)
  show "mesh_fits DEFAULT_MESH_PROTOCOL_LIMITS d (vote_certificate_json (quorum_certificate ids ph))" if "d < 28"
    using f(5)[OF that] dig n unfolding vote_certificate_json_def body by (simp add: byteLength_plain plain_char_def)
qed

lemma value_json_facts:
  "plain_json (agreement_value_json sample_value)" "object_keys (agreement_value_json sample_value) = 7"
  "array_items (agreement_value_json sample_value) = 0" "text_bound (agreement_value_json sample_value) \<le> 400"
  "d < 30 \<Longrightarrow> mesh_fits DEFAULT_MESH_PROTOCOL_LIMITS d (agreement_value_json sample_value)"
  by (simp_all add: agreement_value_json_def agreement_value_body_def sample_value_def sample_value_core_def
      json_nullable_def plain_char_def byteLength_plain)

lemma quorum_commit_body:
  assumes q: "ids \<in> sample_quorums"
  shows "mesh_ok (JObj (commit_certificate_body (quorum_commit_core ids)))"
proof (rule mesh_ok_plain)
  note a = quorum_certificate_facts[OF q, where ph = Prevote] and b = quorum_certificate_facts[OF q, where ph = Precommit]
  note v = value_json_facts
  note defs = commit_certificate_body_def quorum_commit_core_def
  have c: "text_bound (coordinate_json sample_coordinate) \<le> 300" by simp
  show "plain_json (JObj (commit_certificate_body (quorum_commit_core ids)))"
    "object_keys (JObj (commit_certificate_body (quorum_commit_core ids))) \<le> 2048"
    "array_items (JObj (commit_certificate_body (quorum_commit_core ids))) \<le> 4096"
    using a(1-3) b(1-3) v(1-3) by (simp_all add: defs plain_char_def)
  show "text_bound (JObj (commit_certificate_body (quorum_commit_core ids))) \<le> 262144"
    by (simp add: defs) (use a(4) b(4) v(4) c in linarith)
  show "mesh_fits DEFAULT_MESH_PROTOCOL_LIMITS 0 (JObj (commit_certificate_body (quorum_commit_core ids)))"
    using a(5)[of 1] b(5)[of 1] v(5)[of 1] by (simp add: defs byteLength_plain plain_char_def)
qed

lemma sample_certificate_fields [simp]:
  "vc_phase (quorum_certificate ids ph) = ph" "vc_coordinate (quorum_certificate ids ph) = sample_coordinate"
  "vc_proposalId (quorum_certificate ids ph) = ''q''" "vc_valueDigest (quorum_certificate ids ph) = Some (av_valueDigest sample_value)"
  "vc_votes (quorum_certificate ids ph) = quorum_votes ids ph"
  by (simp_all add: quorum_certificate_def quorum_core_def)

lemma sample_certificate_bound: "bound (quorum_certificate ids ph)"
  by (simp add: bound_def quorum_votes_def sample_vote_payload_def)

lemma quorum_commit_shape:
  assumes q: "ids \<in> sample_quorums"
  shows "validateCollectiveAgreementCommitCertificateShapeV1 sample_platform (quorum_commit ids) = Some (quorum_commit ids)"
  using commit_id_ok sample_coordinate_valid value_ids
  by (simp add: validateCollectiveAgreementCommitCertificateShapeV1_def quorum_commit_def quorum_commit_core_def
      quorum_commit_digest_def quorum_certificate_shape[OF q] sample_value_valid logical_def ag_nonnegative_def
      isSafeInteger_def maximumSafeInteger_def)

lemma quorum_commit_assembled:
  assumes q: "ids \<in> sample_quorums"
  shows "assembleCollectiveAgreementCommitCertificateV1 sample_platform sample_resolver wall sample_membership sample_value
     (quorum_certificate ids Prevote) (quorum_certificate ids Precommit) 5 fresh = Inr (Some (quorum_commit ids))"
proof -
  have core: "\<lparr>cc_schemaVersion = 1, cc_kind = ''commit_certificate'', cc_certificateId = [],
     cc_coordinate = sample_coordinate, cc_proposalId = ''q'', cc_value = sample_value,
     cc_prevoteCertificate = quorum_certificate ids Prevote, cc_precommitCertificate = quorum_certificate ids Precommit,
     cc_committedAtLogicalMs = 5, cc_certificateDigest = []\<rparr> = (quorum_commit_core ids)" by (simp add: quorum_commit_core_def)
  have d: "collectiveAgreementDigestV1 sample_platform (JObj (commit_certificate_body (quorum_commit_core ids))) = Inr (quorum_commit_digest ids)"
    by (simp add: sample_digest quorum_commit_body[OF q] quorum_commit_digest_def)
  have final: "(quorum_commit_core ids)\<lparr>cc_certificateId := ''agreement.commit.'' @ digest_slice (quorum_commit_digest ids),
      cc_certificateDigest := (quorum_commit_digest ids)\<rparr> = (quorum_commit ids)" by (simp add: quorum_commit_def)
  show ?thesis
    unfolding assembleCollectiveAgreementCommitCertificateV1_def quorum_certificate_verified[OF q] bindE_simps sample_value_valid
    by (simp add: core d final[simplified] quorum_commit_shape[OF q] Let_def isSafeInteger_def maximumSafeInteger_def)
qed

lemma sample_commit_fields [simp]:
  "cc_value (quorum_commit ids) = sample_value" "cc_prevoteCertificate (quorum_commit ids) = quorum_certificate ids Prevote"
  "cc_precommitCertificate (quorum_commit ids) = quorum_certificate ids Precommit" "cc_committedAtLogicalMs (quorum_commit ids) = 5"
  "cc_coordinate (quorum_commit ids) = sample_coordinate"
  by (simp_all add: quorum_commit_def quorum_commit_core_def)

lemma quorum_commit_verified:
  assumes q: "ids \<in> sample_quorums"
  shows "verifyCollectiveAgreementCommitCertificateV1 sample_platform sample_resolver wall sample_membership (quorum_commit ids)
     = Inr (Some (quorum_commit ids))"
  unfolding verifyCollectiveAgreementCommitCertificateV1_def quorum_commit_shape[OF q] option.case
  by (simp add: quorum_commit_assembled[OF q])

text \<open>The certificates and the commit of the first quorum.\<close>

abbreviation "sample_certificate \<equiv> quorum_certificate first_quorum"
abbreviation "sample_commit \<equiv> quorum_commit first_quorum"

lemmas sample_certificate_def = quorum_certificate_def
  and sample_certificate_core_def = quorum_core_def
  and sample_commit_def = quorum_commit_def
  and sample_commit_core_def = quorum_commit_core_def
  and sample_commit_digest_def = quorum_commit_digest_def
  and sample_certificate_shape = quorum_certificate_shape[OF sample_quorums_in(1)]
  and certificate_json_facts = quorum_certificate_facts[OF sample_quorums_in(1)]
  and sample_certificate_verified = quorum_certificate_verified[OF sample_quorums_in(1)]
  and sample_commit_shape = quorum_commit_shape[OF sample_quorums_in(1)]
  and sample_commit_verified = quorum_commit_verified[OF sample_quorums_in(1)]

end
