(* ===== verification/AgRuns.thy ===== *)
theory AgRuns
  imports AgNetwork AgCatchup AgSampleVotes
begin

text \<open>
  One validator over time: the step relation of a peer that handles one message after the other,
  what a run keeps, and which vote it can have answered with.
\<close>

subsection \<open>Runs of one peer\<close>

inductive peer_step :: "'k peer_options \<Rightarrow> peer_state \<Rightarrow> peer_state \<Rightarrow> bool" for o1 where
  handles: "handle o1 now e s = (r, t) \<Longrightarrow> peer_step o1 s t"

inductive_simps peer_step_iff: "peer_step o1 s t"

definition fresh_peer :: peer_state where
  "fresh_peer = (empty_repository, [])"

lemma peer_step_keeps: "peer_step o1 s t \<Longrightarrow> rp_localVotes (fst s) k = Some w \<Longrightarrow> rp_localVotes (fst t) k = Some w"
  unfolding peer_step_iff using handle_keeps by blast

lemma run_keeps:
  assumes "(peer_step o1)\<^sup>*\<^sup>* s t" "rp_localVotes (fst s) k = Some w"
  shows "rp_localVotes (fst t) k = Some w"
  using assms(1) by (induction rule: rtranclp_induct) (use assms(2) peer_step_keeps in blast)+

definition any_base :: coordinate where
  "any_base = \<lparr>co_policyDomainId = [], co_slotId = [], co_height = 1, co_round = 0, co_membershipEpoch = 1,
     co_membershipConfigurationDigest = []\<rparr>"

lemma run_votes_match:
  assumes "(peer_step o1)\<^sup>*\<^sup>* fresh_peer s"
  shows "votes_match (fst s)"
proof -
  have k: "keyed any_base" by (simp add: any_base_def keyed_def no_nul_def)
  have "repository_ok (fst s) any_base"
    using assms
  proof (induction rule: rtranclp_induct)
    case base
    then show ?case by (simp add: fresh_peer_def repository_ok_empty)
  next
    case (step t u)
    from step(2) obtain now e r where "handle o1 now e t = (r, u)" unfolding peer_step_iff by blast
    from repository_ok_handle[OF this step(3) k] show ?case .
  qed
  then show ?thesis by (simp add: repository_ok_def)
qed

text \<open>An accepted vote is one that the repository holds after the message.\<close>

lemma recorded_vote:
  assumes "recordLocalVote c phase proposalId valueDigest justifiedRound create R = (Inr res, R')"
    and "voteResult res = PeerAccepted x"
  shows "\<exists>v. rp_localVotes R' (voteKey c phase ''local'') = Some v \<and> x = vote_message v"
  using assms
  by (cases res) (auto simp: recordLocalVote_def Let_def split: option.splits if_splits sum.splits)

lemma vote_on_proposal_accepted:
  assumes "vote_on_proposal o1 sender p now s = (Inr (PeerAccepted x), t)"
  shows "\<exists>v k. rp_localVotes (fst t) k = Some v \<and> x = vote_message v"
  using assms recorded_vote
  by (fastforce simp: vote_on_proposal_def bindS_Inr_iff rejected_def onRepository_def split: prod.splits if_splits)

lemma handle_proposal_accepted:
  assumes "handle_proposal o1 sender p m now s = (Inr (PeerAccepted x), t)"
  shows "\<exists>v k. rp_localVotes (fst t) k = Some v \<and> x = vote_message v"
proof (cases "pp_justification p")
  case None
  with assms have "vote_on_proposal o1 sender p now s = (Inr (PeerAccepted x), t)"
    by (auto simp: handle_proposal_def bindS_def rejected_def split: sum.splits if_splits)
  then show ?thesis by (rule vote_on_proposal_accepted)
next
  case (Some c)
  with assms obtain d where "bindS (observeCertificate o1 d) (\<lambda>_. vote_on_proposal o1 sender p now) s
      = (Inr (PeerAccepted x), t)"
    by (auto simp: handle_proposal_def rejected_def bindS_def[of "liftE _"] split: sum.splits option.splits if_splits)
  then obtain s' where "vote_on_proposal o1 sender p now s' = (Inr (PeerAccepted x), t)" by (auto simp: bindS_Inr_iff)
  then show ?thesis by (rule vote_on_proposal_accepted)
qed

lemma handle_certificate_accepted:
  assumes "handle_certificate o1 sender c m now s = (Inr (PeerAccepted x), t)"
  shows "\<exists>v k. rp_localVotes (fst t) k = Some v \<and> x = vote_message v"
proof -
  from assms obtain d where v: "verifyCollectiveAgreementVoteCertificateV1 (po_platform o1) (po_resolver o1)
      (cl_wallTime now) m c = Inr (Some d)"
    by (auto simp: handle_certificate_def rejected_def bindS_def split: sum.splits option.splits)
  then have "d = c" using verify_certificate_Some(1) by (auto simp: verifyCollectiveAgreementVoteCertificateV1_def)
  with assms v have d: "bindS (observeCertificate o1 d) (\<lambda>_.
      bindS (liftE (ready o1 ''precommit'' (vc_coordinate d) (cl_logicalTimeMs now))) (\<lambda>is_ready.
             if \<not> is_ready then rejected ''not_ready''
             else bindS (onRepository (recordLocalVote (vc_coordinate d) Precommit (vc_proposalId d) (vc_valueDigest d)
                    (Some (co_round (vc_coordinate d))) (peer_vote o1 (precommit_for o1 d now) sender now))) (\<lambda>result.
               retS (voteResult result)))) s = (Inr (PeerAccepted x), t)"
    by (auto simp: handle_certificate_def rejected_def bindS_def[of "liftE (verifyCollectiveAgreementVoteCertificateV1 _ _ _ _ _)"]
        simp del: not_None_eq split: if_splits)
  then obtain res R R' where "recordLocalVote (vc_coordinate d) Precommit (vc_proposalId d) (vc_valueDigest d)
      (Some (co_round (vc_coordinate d))) (peer_vote o1 (precommit_for o1 d now) sender now) R = (Inr res, R')"
    "voteResult res = PeerAccepted x" "fst t = R'"
    by (fastforce simp: bindS_Inr_iff rejected_def onRepository_def split: prod.splits if_splits)
  with recorded_vote show ?thesis by blast
qed

lemma signed_fields:
  assumes "signCollectiveAgreementEnvelopeV1 P e key = Inr f"
  shows "\<exists>sig. f = e\<lparr>en_signature := sig\<rparr>"
  using assms
  by (auto simp: signCollectiveAgreementEnvelopeV1_def bindE_def dest!: valid_envelope_same
      split: if_splits option.splits sum.splits)

lemma created_payload:
  assumes "createSignedCollectiveAgreementEnvelopeV1 P scope signing audience payload clock ttl = Inr e"
  shows "en_payload e = payload"
  using assms
  by (auto simp: createSignedCollectiveAgreementEnvelopeV1_def bindE_Inr_iff Let_def dest!: signed_fields split: if_splits)

lemma handle_commit_accepted:
  assumes "handle_commit o1 sender messageId c m now s = (Inr (PeerAccepted x), t)"
  shows "\<exists>a. en_payload x = AgreementAck a"
  using assms
  by (auto simp: handle_commit_def bindS_Inr_iff rejected_def dest!: created_payload split: if_splits option.splits)

lemma handle_accepted:
  assumes "handle o1 now e s = (Inr (PeerAccepted x), t)" "en_payload x = AgreementVote p"
  shows "\<exists>v k. rp_localVotes (fst t) k = Some v \<and> x = vote_message v"
proof -
  from assms(1) obtain f where f: "verifyCollectiveAgreementLiveEnvelopeV1 (po_platform o1) (po_resolver o1)
      (cl_wallTime now) (peer_ttl o1) e = Some f"
    by (auto simp: handle_def rejected_def split: option.splits)
  note h = assms(1)[unfolded handle_def f option.case Let_def]
  from h obtain mo where mo: "po_membership o1 (co_policyDomainId (coordinateOf (en_payload f)))
      (co_membershipEpoch (coordinateOf (en_payload f))) (co_membershipConfigurationDigest (coordinateOf (en_payload f)))
      (cl_logicalTimeMs now) = Inr mo"
    by (auto simp: rejected_def bindS_def split: sum.splits if_splits)
  from h obtain m where m: "Option.bind mo (validateCollectiveAgreementMembershipV1 (po_platform o1)) = Some m"
    by (cases "Option.bind mo (validateCollectiveAgreementMembershipV1 (po_platform o1))")
      (auto simp: mo rejected_def bindS_def split: if_splits)
  from h have d: "(case en_payload f of
        AgreementProposal p \<Rightarrow> handle_proposal o1 (en_senderPeerId f) p m now
      | AgreementCertificate c t \<Rightarrow> handle_certificate o1 (en_senderPeerId f) c m now
      | AgreementCommit c t \<Rightarrow> handle_commit o1 (en_senderPeerId f) (en_messageId f) c m now
      | _ \<Rightarrow> rejected ''invalid_envelope'') s = (Inr (PeerAccepted x), t)"
    by (auto simp: mo m rejected_def bindS_def split: if_splits)
  show ?thesis
  proof (cases "en_payload f")
    case (AgreementProposal q)
    with d handle_proposal_accepted show ?thesis by simp
  next
    case (AgreementCertificate c time)
    with d handle_certificate_accepted show ?thesis by simp
  next
    case (AgreementCommit c time)
    with d handle_commit_accepted assms(2) show ?thesis by fastforce
  qed (use d in \<open>simp_all add: rejected_def\<close>)
qed

text \<open>Two accepted votes of one round and phase are one vote.\<close>

lemma one_vote:
  assumes "(peer_step o1)\<^sup>*\<^sup>* fresh_peer s" "handle o1 now e s = (Inr (PeerAccepted x), t)" "(peer_step o1)\<^sup>*\<^sup>* t u"
    and "handle o1 now' e' u = (Inr (PeerAccepted y), w)"
    and p: "en_payload x = AgreementVote p" "en_payload y = AgreementVote q"
    and eq: "same_height (vp_coordinate p) (vp_coordinate q)" "co_round (vp_coordinate p) = co_round (vp_coordinate q)"
      "vp_phase p = vp_phase q"
  shows "y = x"
proof -
  have st: "peer_step o1 s t" "peer_step o1 u w" using assms(2,4) by (auto simp: peer_step_iff)
  from handle_accepted[OF assms(2) p(1)] obtain v k where v: "rp_localVotes (fst t) k = Some v" "x = vote_message v" by blast
  from handle_accepted[OF assms(4) p(2)] obtain v' k' where v': "rp_localVotes (fst w) k' = Some v'" "y = vote_message v'"
    by blast
  have reach: "(peer_step o1)\<^sup>*\<^sup>* fresh_peer w" "(peer_step o1)\<^sup>*\<^sup>* t w" using assms(1,3) st by auto
  from run_keeps[OF reach(2) v(1)] have w: "rp_localVotes (fst w) k = Some v" .
  have m: "votes_match (fst w)" by (rule run_votes_match[OF reach(1)])
  have pq: "p = en_payload v" "q = en_payload v'" using p v(2) v'(2) by simp_all
  from m w v'(1) have "keyed (vp_coordinate p)" "keyed (vp_coordinate q)"
    "k = voteKey (vp_coordinate p) (vp_phase p) ''local''" "k' = voteKey (vp_coordinate q) (vp_phase q) ''local''"
    unfolding votes_match_def pq by blast+
  with eq have "k = k'" by (simp add: voteKey_inject)
  with w v' v show ?thesis by simp
qed

end
