(* ===== verification/AgLog.thy ===== *)
theory AgLog
  imports AgRuns
begin

text \<open>
  The commits that a repository holds for one slot are an append-only log: a list in which each
  commit has the next height and names the digest of the one before it. \<open>represents\<close> relates a
  repository to its log; saving a commit is \<open>append_commit\<close>, listing is a segment, handling a
  message and applying a catch-up bundle extend the log and never change it.
\<close>

subsection \<open>The log of a slot\<close>

definition linked :: "string \<Rightarrow> string \<Rightarrow> commit_certificate list \<Rightarrow> bool" where
  "linked pd slot L \<longleftrightarrow> (\<forall>i < length L.
     co_policyDomainId (cc_coordinate (L ! i)) = pd \<and> co_slotId (cc_coordinate (L ! i)) = slot
     \<and> co_height (cc_coordinate (L ! i)) = int i + 1
     \<and> av_previousCommitDigest (cc_value (L ! i)) = (if i = 0 then None else Some (cc_certificateDigest (L ! (i - 1)))))"

definition append_commit :: "commit_certificate \<Rightarrow> commit_certificate list \<Rightarrow> save_result \<times> commit_certificate list" where
  "append_commit c L =
     (let h = nat (co_height (cc_coordinate c)) in
      if h \<le> length L
      then (if cc_certificateDigest (L ! (h - 1)) = cc_certificateDigest c then SaveDuplicate else SaveConflict, L)
      else if h = length L + 1 \<and> av_previousCommitDigest (cc_value c)
             = (if L = [] then None else Some (cc_certificateDigest (last L)))
      then (SaveStored, L @ [c])
      else (SaveChainGap, L))"

definition represents :: "repository \<Rightarrow> string \<Rightarrow> string \<Rightarrow> commit_certificate list \<Rightarrow> bool" where
  "represents R pd slot L \<longleftrightarrow> linked pd slot L
     \<and> (\<forall>h. getCommit pd slot h R = (if 1 \<le> h \<and> h \<le> int (length L) then Some (L ! nat (h - 1)) else None))"

lemma represents_empty: "represents empty_repository pd slot []"
  by (simp add: represents_def linked_def getCommit_def empty_repository_def)

lemma represents_same: "rp_commits R' = rp_commits R \<Longrightarrow> represents R' pd slot L = represents R pd slot L"
  by (simp add: represents_def getCommit_def)

lemma getCommit_save:
  assumes "no_nul pd" "no_nul slot" "keyed x"
  shows "getCommit pd slot h (R\<lparr>rp_commits := (rp_commits R)(coordinateKey x \<mapsto> c)\<rparr>)
    = (if co_policyDomainId x = pd \<and> co_slotId x = slot \<and> h = co_height x then Some c else getCommit pd slot h R)"
  using assms stateKey_inject[of pd "co_policyDomainId x" slot "co_slotId x" h "co_height x"]
  by (auto simp: getCommit_def commitKey_def coordinateKey_def keyed_def)

lemma linked_snoc:
  assumes "linked pd slot L" "co_policyDomainId (cc_coordinate c) = pd" "co_slotId (cc_coordinate c) = slot"
    and "co_height (cc_coordinate c) = int (length L) + 1"
    and "av_previousCommitDigest (cc_value c) = (if L = [] then None else Some (cc_certificateDigest (last L)))"
  shows "linked pd slot (L @ [c])"
  using assms by (auto simp: linked_def nth_append last_conv_nth less_Suc_eq)

text \<open>\<open>saveCommit\<close> implements \<open>append_commit\<close> on its own slot and leaves the others.\<close>

lemma save_refines:
  assumes "represents R pd slot L" "no_nul pd" "no_nul slot" "valid_coordinate (cc_coordinate c)"
    and "saveCommit c R = (res, R')"
  shows "if co_policyDomainId (cc_coordinate c) = pd \<and> co_slotId (cc_coordinate c) = slot
    then \<exists>L'. append_commit c L = (res, L') \<and> represents R' pd slot L'
    else represents R' pd slot L"
proof -
  let ?x = "cc_coordinate c"
  let ?h = "co_height ?x"
  have h: "1 \<le> ?h" using assms(4) by (simp add: valid_coordinate_def ag_positive_def)
  note k = keyed_valid[OF assms(4)]
  note get = getCommit_save[OF assms(2,3) k]
  show ?thesis
  proof (cases "co_policyDomainId ?x = pd \<and> co_slotId ?x = slot")
    case False
    from assms(5) have "represents R' pd slot L"
    proof (cases rule: saveCommit_cases)
      case stored
      with False assms(1) show ?thesis by (auto simp: represents_def get)
    qed (use assms(1) in simp)
    with False show ?thesis by auto
  next
    case slot: True
    note True = slot
    have at: "rp_commits R (commitKey pd slot k) = (if 1 \<le> k \<and> k \<le> int (length L) then Some (L ! nat (k - 1)) else None)" for k
      using assms(1) by (simp add: represents_def getCommit_def)
    from h obtain n where n: "?h = int n + 1" by (metis add.commute le_add_diff_inverse zle_iff_zadd)
    have nat: "nat (int n + 1) = Suc n" "nat (int n) = n" "nat (int n - 1) = n - 1" by simp_all
    note save = assms(5)[unfolded saveCommit_def Let_def True[THEN conjunct1] True[THEN conjunct2] at n]
    consider "n < length L" | "n = length L" | "length L < n" by linarith
    then show ?thesis
    proof cases
      case 1
      with save assms(1) True show ?thesis
        by (auto simp: append_commit_def Let_def n nat)
    next
      case 3
      with save assms(1) True show ?thesis
        by (auto simp: append_commit_def Let_def n nat)
    next
      case 2
      let ?link = "if L = [] then None else Some (cc_certificateDigest (last L))"
      have result: "(if av_previousCommitDigest (cc_value c) \<noteq> ?link then (SaveChainGap, R)
          else (SaveStored, R\<lparr>rp_commits := (rp_commits R)(coordinateKey ?x \<mapsto> c)\<rparr>)) = (res, R')"
      proof (cases "L = []")
        case True
        with save 2 show ?thesis by (auto simp: coordinateKey_def commitKey_def slot n split: if_splits)
      next
        case False
        then have "1 \<le> length L" "nat (int (length L) - 1) = length L - 1" by (cases L; simp)+
        with save False 2 show ?thesis
          by (auto simp: coordinateKey_def commitKey_def slot n last_conv_nth split: if_splits)
      qed
      show ?thesis
      proof (cases "av_previousCommitDigest (cc_value c) = ?link")
        case fit: True
        with result have R': "res = SaveStored" "R' = R\<lparr>rp_commits := (rp_commits R)(coordinateKey ?x \<mapsto> c)\<rparr>"
          by simp_all
        have "represents R' pd slot (L @ [c])"
          unfolding represents_def R'(2) get
          using assms(1) linked_snoc[OF _ _ _ _ fit] True n 2
          by (auto simp: represents_def nth_append nat_less_iff)
        with R'(1) fit True show ?thesis by (auto simp: append_commit_def Let_def n 2 nat)
      next
        case False
        with result have "res = SaveChainGap" "R' = R" by simp_all
        with False assms(1) True show ?thesis by (auto simp: append_commit_def Let_def n 2 nat)
      qed
    qed
  qed
qed

lemma append_prefix: "append_commit c L = (res, L') \<Longrightarrow> \<exists>M. L' = L @ M"
  by (auto simp: append_commit_def Let_def split: if_splits)

subsection \<open>Handled messages\<close>

text \<open>What a handler leaves of the commits when it saves none.\<close>

definition commitless :: "(peer_state, 'a) comp \<Rightarrow> bool" where
  "commitless m \<longleftrightarrow> (\<forall>s. rp_commits (fst (snd (m s))) = rp_commits (fst s))"

lemma commitlessD: "commitless m \<Longrightarrow> m s = (r, s') \<Longrightarrow> rp_commits (fst s') = rp_commits (fst s)"
  by (metis snd_conv commitless_def)

lemma commitless_bind:
  assumes "commitless m" "\<And>x. commitless (f x)"
  shows "commitless (bindS m f)"
  unfolding commitless_def
proof
  fix s
  obtain r s' where h: "bindS m f s = (r, s')" by (cases "bindS m f s")
  have "rp_commits (fst s') = rp_commits (fst s)"
    by (rule bindS_state[OF h, where R = "\<lambda>s t. rp_commits (fst t) = rp_commits (fst s)"])
      (use assms(1) commitlessD[OF assms(1)] commitlessD[OF assms(2)] in \<open>simp_all\<close>)
  with h show "rp_commits (fst (snd (bindS m f s))) = rp_commits (fst s)" by simp
qed

lemma commitless_pure [simp]:
  "commitless (retS x)" "commitless (liftE r)" "commitless (rejected code)" "commitless (Pair y)"
  by (simp_all add: commitless_def rejected_def)

lemma commitless_certificate: "commitless (observeCertificate o1 c)"
proof -
  have "commitless (onRepository (observeVote P v))" for P :: "'a platform" and v
    by (auto simp: commitless_def onRepository_def observeVote_def Let_def split: prod.splits option.splits if_splits)
  moreover have "commitless (report_proof o1 p)" for p
    by (auto simp: commitless_def report_proof_def split: option.splits)
  ultimately have "commitless (observe_votes o1 votes)" for votes
    by (induction votes) (auto intro!: commitless_bind split: option.splits)
  then show ?thesis by (simp add: observeCertificate_def)
qed

lemma record_commits: "recordLocalVote c phase proposalId valueDigest justifiedRound create R = (res, R') \<Longrightarrow> rp_commits R' = rp_commits R"
  by (cases rule: recordLocalVote_cases) auto

lemma commitless_record: "commitless (onRepository (recordLocalVote c phase proposalId valueDigest justifiedRound create))"
  by (auto simp: commitless_def onRepository_def split: prod.splits dest: record_commits)

lemma commitless_votes:
  "commitless (handle_proposal o1 sender p m now)" "commitless (handle_certificate o1 sender c m now)"
proof -
  have vote: "commitless (vote_on_proposal o1 sender p now)" for sender
    unfolding vote_on_proposal_def by (auto intro!: commitless_bind commitless_record)
  show "commitless (handle_proposal o1 sender p m now)"
    unfolding handle_proposal_def
    by (auto intro!: commitless_bind commitless_certificate vote split: option.splits)
  show "commitless (handle_certificate o1 sender c m now)"
    unfolding handle_certificate_def
    by (auto intro!: commitless_bind commitless_certificate commitless_record split: option.splits)
qed

definition saves :: "repository \<Rightarrow> repository \<Rightarrow> bool" where
  "saves R R' \<longleftrightarrow> rp_commits R' = rp_commits R
     \<or> (\<exists>c S res. valid_coordinate (cc_coordinate c) \<and> rp_commits S = rp_commits R \<and> saveCommit c S = (res, R'))"

lemma handle_commit_saves:
  assumes "handle_commit o1 sender messageId candidate m now s = (r, t)"
  shows "saves (fst s) (fst t)"
proof (cases "rp_commits (fst t) = rp_commits (fst s)")
  case False
  let ?save = "\<lambda>c. onRepository (\<lambda>repo. case saveCommit c repo of (r, repo') \<Rightarrow> (Inr r, repo'))"
  let ?ack = "\<lambda>c saved. if saved = SaveConflict then rejected ''commit_conflict''
               else if saved = SaveChainGap then rejected ''chain_gap''
               else bindS (liftE (createSignedCollectiveAgreementEnvelopeV1 (po_platform o1) (po_scope o1)
                      (po_signing o1) sender (AgreementAck \<lparr>ap_requestMessageId = messageId,
                        ap_coordinate = cc_coordinate c, ap_acknowledgement = ''commit_stored'',
                        ap_acknowledgedAtLogicalMs = cl_logicalTimeMs now\<rparr>) now (Some (peer_ttl o1)))) (\<lambda>response.
                 retS (PeerAccepted response))"
  let ?tail = "\<lambda>c. bindS (?save c) (?ack c)"
  let ?ready = "\<lambda>c. bindS (liftE (ready o1 ''commit'' (cc_coordinate c) (cl_logicalTimeMs now))) (\<lambda>is_ready.
           if \<not> is_ready then rejected ''not_ready'' else ?tail c)"
  have h: "bindS (liftE (verifyCollectiveAgreementCommitCertificateV1 (po_platform o1) (po_resolver o1)
         (cl_wallTime now) m candidate)) (\<lambda>verified. case verified of None \<Rightarrow> rejected ''invalid_certificate''
       | Some c \<Rightarrow> bindS (observeCertificate o1 (cc_prevoteCertificate c)) (\<lambda>_.
           bindS (observeCertificate o1 (cc_precommitCertificate c)) (\<lambda>_. ?ready c))) s = (r, t)"
    using assms unfolding handle_commit_def .
  from h False obtain c where c: "verifyCollectiveAgreementCommitCertificateV1 (po_platform o1) (po_resolver o1)
      (cl_wallTime now) m candidate = Inr (Some c)"
    and rest: "bindS (observeCertificate o1 (cc_prevoteCertificate c)) (\<lambda>_.
           bindS (observeCertificate o1 (cc_precommitCertificate c)) (\<lambda>_. ?ready c)) s = (r, t)"
    by (auto simp: bindS_def[of "liftE (verifyCollectiveAgreementCommitCertificateV1 _ _ _ _ _)"] rejected_def
        split: sum.splits option.splits)
  obtain r1 s1 where s1: "observeCertificate o1 (cc_prevoteCertificate c) s = (r1, s1)"
    by (cases "observeCertificate o1 (cc_prevoteCertificate c) s")
  obtain r2 s2 where s2: "observeCertificate o1 (cc_precommitCertificate c) s1 = (r2, s2)"
    by (cases "observeCertificate o1 (cc_precommitCertificate c) s1")
  have same: "rp_commits (fst s2) = rp_commits (fst s)" "rp_commits (fst s1) = rp_commits (fst s)"
    using commitlessD[OF commitless_certificate] s1 s2 by metis+
  from rest s1 s2 same False have "?ready c s2 = (r, t)" by (cases r1; cases r2) auto
  with False same have tail: "?tail c s2 = (r, t)"
    by (auto simp: bindS_def[of "liftE (ready _ _ _ _)"] rejected_def split: sum.splits if_splits)
  obtain res R' where save: "saveCommit c (fst s2) = (res, R')" by (cases "saveCommit c (fst s2)")
  have "fst t = R'"
    using tail save by (cases s2) (auto simp: bindS_def onRepository_def rejected_def split: if_splits sum.splits)
  moreover have "valid_coordinate (cc_coordinate c)"
    using commit_certificate_Some(1,2)[OF c]
    by (auto simp: validateCollectiveAgreementCommitCertificateShapeV1_def split: if_splits)
  ultimately show ?thesis using save same(1) unfolding saves_def by blast
qed (simp add: saves_def)

lemma handle_saves:
  assumes "handle o1 now e s = (r, t)"
  shows "saves (fst s) (fst t)"
proof (cases "rp_commits (fst t) = rp_commits (fst s)")
  case False
  with assms obtain f where f: "verifyCollectiveAgreementLiveEnvelopeV1 (po_platform o1) (po_resolver o1)
      (cl_wallTime now) (peer_ttl o1) e = Some f"
    by (auto simp: handle_def rejected_def split: option.splits)
  note h = assms[unfolded handle_def f option.case Let_def]
  from h False obtain mo where mo: "po_membership o1 (co_policyDomainId (coordinateOf (en_payload f)))
      (co_membershipEpoch (coordinateOf (en_payload f))) (co_membershipConfigurationDigest (coordinateOf (en_payload f)))
      (cl_logicalTimeMs now) = Inr mo"
    by (auto simp: rejected_def bindS_def split: sum.splits if_splits)
  from h False obtain m where m: "Option.bind mo (validateCollectiveAgreementMembershipV1 (po_platform o1)) = Some m"
    by (cases "Option.bind mo (validateCollectiveAgreementMembershipV1 (po_platform o1))")
      (auto simp: mo rejected_def bindS_def split: if_splits)
  from h False have d: "(case en_payload f of
        AgreementProposal p \<Rightarrow> handle_proposal o1 (en_senderPeerId f) p m now
      | AgreementCertificate c t \<Rightarrow> handle_certificate o1 (en_senderPeerId f) c m now
      | AgreementCommit c t \<Rightarrow> handle_commit o1 (en_senderPeerId f) (en_messageId f) c m now
      | _ \<Rightarrow> rejected ''invalid_envelope'') s = (r, t)"
    by (auto simp: mo m rejected_def bindS_def split: if_splits)
  show ?thesis
  proof (cases "en_payload f")
    case (AgreementProposal p)
    with d commitlessD[OF commitless_votes(1)] False show ?thesis by fastforce
  next
    case (AgreementCertificate c time)
    with d commitlessD[OF commitless_votes(2)] False show ?thesis by fastforce
  next
    case (AgreementCommit c time)
    with d handle_commit_saves show ?thesis by simp
  qed (use d False in \<open>simp_all add: rejected_def\<close>)
qed (simp add: saves_def)

lemma saves_extends:
  assumes "saves R R'" "represents R pd slot L" "no_nul pd" "no_nul slot"
  shows "\<exists>M. represents R' pd slot (L @ M)"
proof (cases "rp_commits R' = rp_commits R")
  case True
  with assms(2) represents_same[OF True] have "represents R' pd slot (L @ [])" by simp
  then show ?thesis by blast
next
  case False
  with assms(1) obtain c S res where c: "valid_coordinate (cc_coordinate c)" "rp_commits S = rp_commits R"
    "saveCommit c S = (res, R')" unfolding saves_def by blast
  have "represents S pd slot L" using represents_same[OF c(2)] assms(2) by blast
  from save_refines[OF this assms(3,4) c(1,3)] show ?thesis
    using append_prefix by (metis append_Nil2)
qed

lemma step_extends:
  assumes "peer_step o1 s t" "represents (fst s) pd slot L" "no_nul pd" "no_nul slot"
  shows "\<exists>M. represents (fst t) pd slot (L @ M)"
proof -
  from assms(1) obtain now e r where "handle o1 now e s = (r, t)" unfolding peer_step_iff by blast
  from saves_extends[OF handle_saves[OF this] assms(2-4)] show ?thesis .
qed

lemma run_extends:
  assumes "(peer_step o1)\<^sup>*\<^sup>* s t" "represents (fst s) pd slot L" "no_nul pd" "no_nul slot"
  shows "\<exists>M. represents (fst t) pd slot (L @ M)"
  using assms(1)
proof (induction rule: rtranclp_induct)
  case base
  show ?case by (rule exI[of _ "[]"]) (use assms(2) in simp)
next
  case (step t u)
  then obtain M where "represents (fst t) pd slot (L @ M)" by blast
  from step_extends[OF step(2) this assms(3,4)] show ?case unfolding append_assoc by blast
qed

subsection \<open>Reading the log\<close>

lemma list_commits_log:
  assumes "represents R pd slot L"
  shows "list_commits pd slot (int k + 1) n R = take n (drop k L)"
proof (induction n arbitrary: k)
  case (Suc n)
  have "int k + 1 + 1 = int (Suc k) + 1" "nat (int k + 1 - 1) = k" by simp_all
  moreover have "getCommit pd slot (int k + 1) R = (if k < length L then Some (L ! k) else None)"
    using assms by (simp add: represents_def)
  ultimately show ?case
    using Suc.IH[of "Suc k"] by (cases "k < length L") (simp_all add: Cons_nth_drop_Suc[symmetric] add.commute)
qed simp

lemma listCommits_log:
  assumes "represents R pd slot L" "1 \<le> n" "n \<le> 1024"
  shows "listCommits pd slot (int k) n R = Inr (take (nat n) (drop k L))"
  using assms(2,3) list_commits_log[OF assms(1)]
  by (simp add: listCommits_def isSafeInteger_def maximumSafeInteger_def)

subsection \<open>Catching up\<close>

lemma append_fits:
  assumes "append_commit c L = (res, L')" "res \<noteq> SaveConflict" "res \<noteq> SaveChainGap" "1 \<le> co_height (cc_coordinate c)"
  shows "nat (co_height (cc_coordinate c)) \<le> length L'
    \<and> cc_certificateDigest (L' ! nat (co_height (cc_coordinate c) - 1)) = cc_certificateDigest c
    \<and> (\<exists>M. L' = L @ M \<and> length M = (if res = SaveStored then 1 else 0) \<and> set M \<subseteq> {c})"
  using assms
  by (auto simp: append_commit_def Let_def nat_diff_distrib nth_append split: if_splits)

lemma save_commits_log:
  assumes "save_commits cs a R = (Some b, R')" "represents R pd slot L" "no_nul pd" "no_nul slot"
    and "\<And>c. c \<in> set cs \<Longrightarrow> valid_coordinate (cc_coordinate c) \<and> co_policyDomainId (cc_coordinate c) = pd
           \<and> co_slotId (cc_coordinate c) = slot"
  shows "\<exists>M. represents R' pd slot (L @ M) \<and> b = a + length M \<and> set M \<subseteq> set cs
    \<and> (\<forall>c \<in> set cs. nat (co_height (cc_coordinate c)) \<le> length (L @ M)
         \<and> cc_certificateDigest ((L @ M) ! nat (co_height (cc_coordinate c) - 1)) = cc_certificateDigest c)"
  using assms
proof (induction cs arbitrary: a R L)
  case (Cons c cs)
  obtain res S where S: "saveCommit c R = (res, S)" by (cases "saveCommit c R")
  have c: "valid_coordinate (cc_coordinate c)" "co_policyDomainId (cc_coordinate c) = pd" "co_slotId (cc_coordinate c) = slot"
    using Cons.prems(5) by simp_all
  then have h: "1 \<le> co_height (cc_coordinate c)" by (simp add: valid_coordinate_def ag_positive_def)
  from save_refines[OF Cons.prems(2-4) c(1) S] c(2,3) obtain L' where
    L': "append_commit c L = (res, L')" "represents S pd slot L'" by auto
  from Cons.prems(1) S have ok: "res \<noteq> SaveConflict" "res \<noteq> SaveChainGap" by (auto split: if_splits)
  from append_fits[OF L'(1) ok h] obtain M1 where M1: "L' = L @ M1" "length M1 = (if res = SaveStored then 1 else 0)"
    "set M1 \<subseteq> {c}" "nat (co_height (cc_coordinate c)) \<le> length L'"
    "cc_certificateDigest (L' ! nat (co_height (cc_coordinate c) - 1)) = cc_certificateDigest c" by blast
  from Cons.prems(1) S ok have rest: "save_commits cs (a + length M1) S = (Some b, R')"
    using M1(2) by (cases res) auto
  from Cons.IH[OF rest L'(2) Cons.prems(3,4)] Cons.prems(5) obtain M where M: "represents R' pd slot (L' @ M)"
    "b = a + length M1 + length M" "set M \<subseteq> set cs"
    "\<forall>c \<in> set cs. nat (co_height (cc_coordinate c)) \<le> length (L' @ M)
         \<and> cc_certificateDigest ((L' @ M) ! nat (co_height (cc_coordinate c) - 1)) = cc_certificateDigest c" by auto
  have "nat (co_height (cc_coordinate c) - 1) < length L'" using M1(4) h by linarith
  with M1(4,5) have "nat (co_height (cc_coordinate c)) \<le> length (L' @ M)
         \<and> cc_certificateDigest ((L' @ M) ! nat (co_height (cc_coordinate c) - 1)) = cc_certificateDigest c"
    by (simp add: nth_append)
  with M M1(1,3) show ?case by (intro exI[of _ "M1 @ M"]) auto
qed (use exI[of _ "[]"] in simp)

end
