(* ===== verification/AgSampleRuns.thy ===== *)
theory AgSampleRuns
  imports AgLog
begin

text \<open>
  A round of the sample membership: the proposal, the prevote certificate and the commit that the
  proposer sends, and what each validator makes of them.
\<close>

subsection \<open>The messages of the round\<close>

definition sample_proposal :: proposal_payload where
  "sample_proposal = \<lparr>pp_proposalId = ''q'', pp_coordinate = sample_coordinate, pp_proposerPeerId = ''p1'',
     pp_value = sample_value, pp_validRound = None, pp_justification = None, pp_proposedAtLogicalMs = 5\<rparr>"

lemma small_logical [simp]: "logical 5" "ag_nonnegative 0" "ag_positive 1"
  by (simp_all add: logical_def ag_nonnegative_def ag_positive_def isSafeInteger_def maximumSafeInteger_def)

lemma proposal_sendable: "sendable (AgreementProposal sample_proposal)"
  unfolding sendable_def
proof (intro conjI)
  note v = value_json_facts
  note defs = proposal_payload_json_def sample_proposal_def
  have c: "text_bound (coordinate_json sample_coordinate) \<le> 300" by simp
  show "validateCollectiveAgreementPayloadV1 sample_platform (AgreementProposal sample_proposal)
      = Some (AgreementProposal sample_proposal)"
    using sample_coordinate_valid value_ids
    by (simp add: sample_proposal_def sample_value_valid null_or_def peer_name_def)
  show "plain_json (payload_json (AgreementProposal sample_proposal))"
    "object_keys (payload_json (AgreementProposal sample_proposal)) \<le> 2000"
    "array_items (payload_json (AgreementProposal sample_proposal)) \<le> 4000"
    using v(1-3) by (simp_all add: defs plain_char_def)
  show "text_bound (payload_json (AgreementProposal sample_proposal)) \<le> 260000"
    by (simp add: defs) (use v(4) c in linarith)
  show "mesh_fits DEFAULT_MESH_PROTOCOL_LIMITS 1 (payload_json (AgreementProposal sample_proposal))"
    using v(5)[of "Suc (Suc 0)"] by (simp add: defs byteLength_plain plain_char_def)
qed

lemma certificate_sendable: "sendable (AgreementCertificate (sample_certificate ph) 5)"
  unfolding sendable_def
proof (intro conjI)
  note v = certificate_json_facts[where ph = ph]
  show "validateCollectiveAgreementPayloadV1 sample_platform (AgreementCertificate (sample_certificate ph) 5)
      = Some (AgreementCertificate (sample_certificate ph) 5)"
    by (simp add: sample_certificate_shape)
  show "plain_json (payload_json (AgreementCertificate (sample_certificate ph) 5))"
    "object_keys (payload_json (AgreementCertificate (sample_certificate ph) 5)) \<le> 2000"
    "array_items (payload_json (AgreementCertificate (sample_certificate ph) 5)) \<le> 4000"
    using v(1-3) by (simp_all add: plain_char_def)
  show "text_bound (payload_json (AgreementCertificate (sample_certificate ph) 5)) \<le> 260000"
    using v(4) by simp
  show "mesh_fits DEFAULT_MESH_PROTOCOL_LIMITS 1 (payload_json (AgreementCertificate (sample_certificate ph) 5))"
    using v(5)[of "Suc (Suc 0)"] by (simp add: byteLength_plain plain_char_def)
qed

lemma sample_commit_id [simp]:
  "plain_text (cc_certificateId sample_commit)" "length (cc_certificateId sample_commit) = 57"
  "plain_text (cc_certificateDigest sample_commit)" "length (cc_certificateDigest sample_commit) = 71"
  by (simp_all add: sample_commit_def sample_commit_digest_def plain_char_def)

lemma commit_json_facts:
  "plain_json (commit_certificate_json sample_commit)" "object_keys (commit_certificate_json sample_commit) \<le> 300"
  "array_items (commit_certificate_json sample_commit) \<le> 10" "text_bound (commit_certificate_json sample_commit) \<le> 14000"
  "d < 20 \<Longrightarrow> mesh_fits DEFAULT_MESH_PROTOCOL_LIMITS d (commit_certificate_json sample_commit)"
proof -
  note a = certificate_json_facts[where ph = Prevote] and b = certificate_json_facts[where ph = Precommit]
  note v = value_json_facts
  have f: "cc_schemaVersion sample_commit = 1" "cc_kind sample_commit = ''commit_certificate''"
    "cc_proposalId sample_commit = ''q''" by (simp_all add: sample_commit_def sample_commit_core_def)
  note defs = commit_certificate_json_def commit_certificate_body_def f
  have c: "text_bound (coordinate_json sample_coordinate) \<le> 300" by simp
  show "plain_json (commit_certificate_json sample_commit)" "object_keys (commit_certificate_json sample_commit) \<le> 300"
    "array_items (commit_certificate_json sample_commit) \<le> 10"
    using a(1-3) b(1-3) v(1-3) by (simp_all add: defs plain_char_def)
  show "text_bound (commit_certificate_json sample_commit) \<le> 14000"
    by (simp add: defs) (use a(4) b(4) v(4) c in linarith)
  show "mesh_fits DEFAULT_MESH_PROTOCOL_LIMITS d (commit_certificate_json sample_commit)" if "d < 20"
    using a(5)[of "Suc d"] b(5)[of "Suc d"] v(5)[of "Suc d"] that by (simp add: defs byteLength_plain plain_char_def)
qed

lemma commit_sendable: "sendable (AgreementCommit sample_commit 5)"
  unfolding sendable_def
proof (intro conjI)
  note v = commit_json_facts
  show "validateCollectiveAgreementPayloadV1 sample_platform (AgreementCommit sample_commit 5)
      = Some (AgreementCommit sample_commit 5)"
    by (simp add: sample_commit_shape)
  show "plain_json (payload_json (AgreementCommit sample_commit 5))"
    "object_keys (payload_json (AgreementCommit sample_commit 5)) \<le> 2000"
    "array_items (payload_json (AgreementCommit sample_commit 5)) \<le> 4000"
    using v(1-3) by (simp_all add: plain_char_def)
  show "text_bound (payload_json (AgreementCommit sample_commit 5)) \<le> 260000"
    using v(4) by simp
  show "mesh_fits DEFAULT_MESH_PROTOCOL_LIMITS 1 (payload_json (AgreementCommit sample_commit 5))"
    using v(5)[of "Suc (Suc 0)"] by (simp add: byteLength_plain plain_char_def)
qed

subsection \<open>The validators\<close>

definition sample_options :: "string \<Rightarrow> int peer_options" where
  "sample_options i = \<lparr>po_platform = sample_platform, po_scope = sample_scope i, po_signing = sample_signing,
     po_resolver = sample_resolver, po_membership = (\<lambda>_ _ _ _. Inr (Some sample_membership)),
     po_semantics = (\<lambda>_ _ _ _ _. Inr True), po_readiness = None, po_report = None, po_maximumEnvelopeTtlMs = None\<rparr>"

lemma sample_options_fields [simp]:
  "po_platform (sample_options i) = sample_platform" "po_scope (sample_options i) = sample_scope i"
  "po_signing (sample_options i) = sample_signing" "po_resolver (sample_options i) = sample_resolver"
  "po_membership (sample_options i) a b c d = Inr (Some sample_membership)"
  "po_semantics (sample_options i) e f g h j = Inr True" "po_readiness (sample_options i) = None"
  "po_report (sample_options i) = None" "peer_ttl (sample_options i) = 30000"
  "sc_peerId (sample_scope i) = i" "cl_wallTime sample_clock = wall" "cl_logicalTimeMs sample_clock = 5"
  by (simp_all add: sample_options_def peer_ttl_def sample_scope_def sample_clock_def)

lemma sample_message_fields [simp]:
  "en_payload (sample_message i a p) = p" "en_senderPeerId (sample_message i a p) = i"
  "en_audiencePeerId (sample_message i a p) = a" "en_tenantId (sample_message i a p) = ''t''"
  "en_meshId (sample_message i a p) = ''m''" "en_senderInstanceId (sample_message i a p) = ''n''"
  "en_keyId (sample_message i a p) = ''k''" "en_messageId (sample_message i a p) = sample_messageId i a p"
  by (simp_all add: sample_message_def unsigned_message_def)

text \<open>A message of the proposer is handed to the handler of its type.\<close>

lemma sample_dispatch:
  assumes "sendable p" "peer_name i"
  shows "handle (sample_options i) sample_clock (sample_message ''p1'' i p) =
    (case p of
       AgreementProposal q \<Rightarrow> handle_proposal (sample_options i) ''p1'' q sample_membership sample_clock
     | AgreementCertificate c t \<Rightarrow> handle_certificate (sample_options i) ''p1'' c sample_membership sample_clock
     | AgreementCommit c t \<Rightarrow>
         handle_commit (sample_options i) ''p1'' (sample_messageId ''p1'' i p) c sample_membership sample_clock
     | _ \<Rightarrow> rejected ''invalid_envelope'')"
proof -
  note v = message_verified(2)[OF assms(1) value_ids(6) assms(2), of 30000]
    message_verified(3)[OF assms(1) value_ids(6) assms(2), of 30000]
  have m: "memberMatches sample_membership (sample_message ''p1'' i p)"
    by (simp add: memberMatches_def sample_validators_def)
  have s: "sc_tenantId (sample_scope i) = ''t''" "sc_meshId (sample_scope i) = ''m''"
    by (simp_all add: sample_scope_def)
  show ?thesis
    unfolding handle_def using v m s
    by (auto simp: fun_eq_iff Let_def bindS_def sample_membership_valid split: agreement_payload.splits)
qed

lemma sample_peer_vote:
  assumes "peer_name i"
  shows "peer_vote (sample_options i) (sample_vote_payload ph i) ''p1'' sample_clock = Inr (sample_vote ph i)"
  using message_created[OF vote_sendable[OF assms] assms value_ids(6)]
  by (simp add: peer_vote_def sample_vote_def)

subsection \<open>The first step: the proposal\<close>

definition sample_key :: "vote_phase \<Rightarrow> string" where
  "sample_key ph = voteKey sample_coordinate ph ''local''"

definition prevoted_state :: "string \<Rightarrow> peer_state" where
  "prevoted_state i = (empty_repository\<lparr>
     rp_states := [coordinateKey sample_coordinate \<mapsto> \<lparr>as_highestRound = 0, as_lockedRound = None, as_lockedValueDigest = None\<rparr>],
     rp_localVotes := [sample_key Prevote \<mapsto> sample_vote Prevote i]\<rparr>, [])"

lemma sample_round: "co_round sample_coordinate = 0" "co_height sample_coordinate = 1"
  by (simp_all add: sample_coordinate_def)

lemma handles_proposal:
  assumes "peer_name i"
  shows "handle (sample_options i) sample_clock (sample_message ''p1'' i (AgreementProposal sample_proposal)) fresh_peer
    = (Inr (PeerAccepted (vote_message (sample_vote Prevote i))), prevoted_state i)"
proof -
  have f: "pp_coordinate sample_proposal = sample_coordinate" "pp_proposalId sample_proposal = ''q''"
    "pp_proposerPeerId sample_proposal = ''p1''" "pp_value sample_proposal = sample_value"
    "pp_validRound sample_proposal = None" "pp_justification sample_proposal = None"
    by (simp_all add: sample_proposal_def)
  have p: "collectiveAgreementProposerV1 sample_membership 1 0 = Inr ''p1''"
    by (simp add: collectiveAgreementProposerV1_def sample_validators_def)
  have for_me: "prevote_for (sample_options i) sample_proposal sample_clock = sample_vote_payload Prevote i"
    by (simp add: prevote_for_def f sample_vote_payload_def)
  show ?thesis
    unfolding sample_dispatch[OF proposal_sendable assms]
    by (simp add: handle_proposal_def f sample_round p vote_on_proposal_def ready_def for_me sample_peer_vote[OF assms]
        bindS_def onRepository_def recordLocalVote_def fresh_peer_def empty_repository_def Let_def
        prevoted_state_def sample_key_def) (simp add: sample_vote_payload_def)
qed

text \<open>The same proposal again is answered with the same vote.\<close>

lemma handles_proposal_again:
  assumes "peer_name i"
  shows "handle (sample_options i) sample_clock (sample_message ''p1'' i (AgreementProposal sample_proposal)) (prevoted_state i)
    = (Inr (PeerAccepted (vote_message (sample_vote Prevote i))), prevoted_state i)"
proof -
  have f: "pp_coordinate sample_proposal = sample_coordinate" "pp_proposalId sample_proposal = ''q''"
    "pp_proposerPeerId sample_proposal = ''p1''" "pp_value sample_proposal = sample_value"
    "pp_validRound sample_proposal = None" "pp_justification sample_proposal = None"
    by (simp_all add: sample_proposal_def)
  have p: "collectiveAgreementProposerV1 sample_membership 1 0 = Inr ''p1''"
    by (simp add: collectiveAgreementProposerV1_def sample_validators_def)
  show ?thesis
    unfolding sample_dispatch[OF proposal_sendable assms]
    by (simp add: handle_proposal_def f sample_round p vote_on_proposal_def ready_def bindS_def onRepository_def
        recordLocalVote_def Let_def prevoted_state_def sample_key_def) (simp add: sample_vote_payload_def)
qed

subsection \<open>The second step: the prevote certificate\<close>

definition observed_ok :: "repository \<Rightarrow> bool" where
  "observed_ok R \<longleftrightarrow> (\<forall>k w. rp_observedVotes R k = Some w \<longrightarrow>
     (\<exists>ph i. w = sample_vote ph i \<and> k = voteKey sample_coordinate ph i))"

lemma sample_keyed: "keyed sample_coordinate"
  by (rule keyed_valid[OF sample_coordinate_valid])

lemma sample_vote_payload_fields [simp]:
  "vp_coordinate (sample_vote_payload ph i) = sample_coordinate" "vp_phase (sample_vote_payload ph i) = ph"
  "vp_proposalId (sample_vote_payload ph i) = ''q''" "vp_voterPeerId (sample_vote_payload ph i) = i"
  "vp_valueDigest (sample_vote_payload ph i) = Some (av_valueDigest sample_value)"
  by (simp_all add: sample_vote_payload_def)

lemma observe_sample:
  assumes "observed_ok R"
  shows "\<exists>W. observeVote P (sample_vote ph i) R = (Inr None, R\<lparr>rp_observedVotes := W\<rparr>)
    \<and> observed_ok (R\<lparr>rp_observedVotes := W\<rparr>)"
proof (cases "rp_observedVotes R (voteKey sample_coordinate ph i)")
  case None
  with assms show ?thesis
    by (intro exI[of _ "(rp_observedVotes R)(voteKey sample_coordinate ph i \<mapsto> sample_vote ph i)"])
      (auto simp: observeVote_def Let_def observed_ok_def)
next
  case (Some w)
  with assms obtain ph' i' where w: "w = sample_vote ph' i'" "voteKey sample_coordinate ph i = voteKey sample_coordinate ph' i'"
    unfolding observed_ok_def by blast
  then have "w = sample_vote ph i" by (simp add: voteKey_inject sample_keyed)
  with Some assms show ?thesis
    by (intro exI[of _ "rp_observedVotes R"]) (simp add: observeVote_def Let_def)
qed

lemma observe_samples:
  assumes "observed_ok R"
  shows "\<exists>W. observe_votes (sample_options j) (map (sample_vote ph) is) (R, reports)
      = (Inr (), (R\<lparr>rp_observedVotes := W\<rparr>, reports)) \<and> observed_ok (R\<lparr>rp_observedVotes := W\<rparr>)"
  using assms
proof (induction "is" arbitrary: R)
  case Nil
  then show ?case by (intro exI[of _ "rp_observedVotes R"]) simp
next
  case (Cons i rest)
  from observe_sample[OF Cons.prems, of sample_platform ph i] obtain W where
    W: "observeVote sample_platform (sample_vote ph i) R = (Inr None, R\<lparr>rp_observedVotes := W\<rparr>)"
      "observed_ok (R\<lparr>rp_observedVotes := W\<rparr>)" by blast
  from Cons.IH[OF W(2)] obtain W' where
    W': "observe_votes (sample_options j) (map (sample_vote ph) rest) (R\<lparr>rp_observedVotes := W\<rparr>, reports)
       = (Inr (), (R\<lparr>rp_observedVotes := W'\<rparr>, reports))" "observed_ok (R\<lparr>rp_observedVotes := W'\<rparr>)" by auto
  then show ?case by (intro exI[of _ W']) (simp add: bindS_def onRepository_def W)
qed

lemma observe_sample_certificate:
  assumes "observed_ok R"
  shows "\<exists>W. observeCertificate (sample_options j) (sample_certificate ph) (R, reports)
      = (Inr (), (R\<lparr>rp_observedVotes := W\<rparr>, reports)) \<and> observed_ok (R\<lparr>rp_observedVotes := W\<rparr>)"
  using observe_samples[OF assms] by (simp add: observeCertificate_def sample_votes_def del: list.map)

definition precommitted_state :: "string \<Rightarrow> peer_state" where
  "precommitted_state i =
     snd (handle (sample_options i) sample_clock
       (sample_message ''p1'' i (AgreementCertificate (sample_certificate Prevote) 5)) (prevoted_state i))"

lemma handles_certificate:
  assumes "peer_name i"
  shows "fst (handle (sample_options i) sample_clock
       (sample_message ''p1'' i (AgreementCertificate (sample_certificate Prevote) 5)) (prevoted_state i))
      = Inr (PeerAccepted (vote_message (sample_vote Precommit i)))"
    "rp_localVotes (fst (precommitted_state i)) = [sample_key Prevote \<mapsto> sample_vote Prevote i,
       sample_key Precommit \<mapsto> sample_vote Precommit i]"
proof -
  have empty: "observed_ok (fst (prevoted_state i))"
    by (simp add: observed_ok_def prevoted_state_def empty_repository_def)
  from observe_sample_certificate[OF this, of i Prevote "[]"] obtain W where
    W: "observeCertificate (sample_options i) (sample_certificate Prevote) (prevoted_state i)
      = (Inr (), ((fst (prevoted_state i))\<lparr>rp_observedVotes := W\<rparr>, []))" by (auto simp: prevoted_state_def)
  have for_me: "precommit_for (sample_options i) (sample_certificate Prevote) sample_clock = sample_vote_payload Precommit i"
    by (simp add: precommit_for_def sample_vote_payload_def)
  have v: "verifyCollectiveAgreementVoteCertificateV1 sample_platform sample_resolver wall sample_membership
      (sample_certificate Prevote) = Inr (Some (sample_certificate Prevote))"
    by (simp add: verifyCollectiveAgreementVoteCertificateV1_def sample_certificate_verified)
  have key: "sample_key Prevote \<noteq> sample_key Precommit" by (simp add: sample_key_def voteKey_inject sample_keyed)
  have "handle (sample_options i) sample_clock
       (sample_message ''p1'' i (AgreementCertificate (sample_certificate Prevote) 5)) (prevoted_state i)
    = (Inr (PeerAccepted (vote_message (sample_vote Precommit i))),
       (empty_repository\<lparr>
         rp_states := [coordinateKey sample_coordinate \<mapsto>
           \<lparr>as_highestRound = 0, as_lockedRound = Some 0, as_lockedValueDigest = Some (av_valueDigest sample_value)\<rparr>],
         rp_localVotes := [sample_key Prevote \<mapsto> sample_vote Prevote i, sample_key Precommit \<mapsto> sample_vote Precommit i],
         rp_observedVotes := W\<rparr>, []))"
    unfolding sample_dispatch[OF certificate_sendable assms]
    using key
    by (simp add: handle_certificate_def v ready_def for_me
        W[unfolded prevoted_state_def empty_repository_def sample_key_def, simplified] sample_peer_vote[OF assms] bindS_def onRepository_def
        recordLocalVote_def prevoted_state_def empty_repository_def Let_def sample_round sample_key_def)
  then show "fst (handle (sample_options i) sample_clock
       (sample_message ''p1'' i (AgreementCertificate (sample_certificate Prevote) 5)) (prevoted_state i))
      = Inr (PeerAccepted (vote_message (sample_vote Precommit i)))"
    "rp_localVotes (fst (precommitted_state i)) = [sample_key Prevote \<mapsto> sample_vote Prevote i,
       sample_key Precommit \<mapsto> sample_vote Precommit i]"
    by (simp_all add: precommitted_state_def empty_repository_def)
qed

subsection \<open>The third step: the commit\<close>

definition sample_ack :: "string \<Rightarrow> ack_payload" where
  "sample_ack i = \<lparr>ap_requestMessageId = sample_messageId ''p1'' i (AgreementCommit sample_commit 5),
     ap_coordinate = sample_coordinate, ap_acknowledgement = ''commit_stored'', ap_acknowledgedAtLogicalMs = 5\<rparr>"

lemma ack_sendable: "sendable (AgreementAck (sample_ack i))"
  unfolding sendable_def
proof (intro conjI)
  note m = sample_messageId_ok[of "''p1''" i "AgreementCommit sample_commit 5"]
  note defs = ack_payload_json_def sample_ack_def
  have c: "text_bound (coordinate_json sample_coordinate) \<le> 300" by simp
  show "validateCollectiveAgreementPayloadV1 sample_platform (AgreementAck (sample_ack i)) = Some (AgreementAck (sample_ack i))"
    using m(1) sample_coordinate_valid by (simp add: sample_ack_def)
  show "plain_json (payload_json (AgreementAck (sample_ack i)))"
    "object_keys (payload_json (AgreementAck (sample_ack i))) \<le> 2000"
    "array_items (payload_json (AgreementAck (sample_ack i))) \<le> 4000"
    using m(2) by (simp_all add: defs plain_char_def)
  show "text_bound (payload_json (AgreementAck (sample_ack i))) \<le> 260000"
    by (simp add: defs) (use m(3) c in linarith)
  show "mesh_fits DEFAULT_MESH_PROTOCOL_LIMITS 1 (payload_json (AgreementAck (sample_ack i)))"
    using m(2,3) by (simp add: defs byteLength_plain plain_char_def)
qed

lemma sample_commit_height: "coordinateKey (cc_coordinate sample_commit) = stateKey ''d'' ''s'' 1"
  by (simp add: coordinateKey_def sample_coordinate_def)

lemma sample_saved:
  assumes "rp_commits R = Map.empty"
  shows "saveCommit sample_commit R = (SaveStored, R\<lparr>rp_commits := [coordinateKey sample_coordinate \<mapsto> sample_commit]\<rparr>)"
proof -
  have "av_previousCommitDigest sample_value = None" by (simp add: sample_value_def sample_value_core_def)
  then show ?thesis using assms
    by (simp add: saveCommit_def Let_def commitKey_def coordinateKey_def sample_round)
qed

definition committed_peer :: "string \<Rightarrow> peer_state" where
  "committed_peer i =
     snd (handle (sample_options i) sample_clock (sample_message ''p1'' i (AgreementCommit sample_commit 5)) fresh_peer)"

lemma handles_commit:
  assumes "peer_name i"
  shows "fst (handle (sample_options i) sample_clock (sample_message ''p1'' i (AgreementCommit sample_commit 5)) fresh_peer)
      = Inr (PeerAccepted (sample_message i ''p1'' (AgreementAck (sample_ack i))))"
    "rp_commits (fst (committed_peer i)) = [coordinateKey sample_coordinate \<mapsto> sample_commit]"
proof -
  have empty: "observed_ok empty_repository" by (simp add: observed_ok_def empty_repository_def)
  from observe_sample_certificate[OF this, of i Prevote "[]"] obtain W where
    W: "observeCertificate (sample_options i) (sample_certificate Prevote) fresh_peer
      = (Inr (), (empty_repository\<lparr>rp_observedVotes := W\<rparr>, []))" "observed_ok (empty_repository\<lparr>rp_observedVotes := W\<rparr>)"
    unfolding fresh_peer_def by blast
  from observe_sample_certificate[OF W(2), of i Precommit "[]"] obtain V where
    V: "observeCertificate (sample_options i) (sample_certificate Precommit) (empty_repository\<lparr>rp_observedVotes := W\<rparr>, [])
      = (Inr (), (empty_repository\<lparr>rp_observedVotes := V\<rparr>, []))" by auto
  have save: "saveCommit sample_commit (empty_repository\<lparr>rp_observedVotes := V\<rparr>) = (SaveStored,
      empty_repository\<lparr>rp_observedVotes := V, rp_commits := [coordinateKey sample_coordinate \<mapsto> sample_commit]\<rparr>)"
    by (subst sample_saved) (simp_all add: empty_repository_def)
  note ack = message_created[OF ack_sendable assms value_ids(6), of i, unfolded sample_ack_def]
  have "handle (sample_options i) sample_clock (sample_message ''p1'' i (AgreementCommit sample_commit 5)) fresh_peer
    = (Inr (PeerAccepted (sample_message i ''p1'' (AgreementAck (sample_ack i)))),
       (empty_repository\<lparr>rp_observedVotes := V, rp_commits := [coordinateKey sample_coordinate \<mapsto> sample_commit]\<rparr>, []))"
    unfolding sample_dispatch[OF commit_sendable assms]
    by (simp add: handle_commit_def sample_commit_verified W(1) V ready_def bindS_def onRepository_def save ack sample_ack_def)
  then show "fst (handle (sample_options i) sample_clock (sample_message ''p1'' i (AgreementCommit sample_commit 5)) fresh_peer)
      = Inr (PeerAccepted (sample_message i ''p1'' (AgreementAck (sample_ack i))))"
    "rp_commits (fst (committed_peer i)) = [coordinateKey sample_coordinate \<mapsto> sample_commit]"
    by (simp_all add: committed_peer_def empty_repository_def)
qed

lemma committed_reachable:
  assumes "peer_name i"
  shows "peer_step (sample_options i) fresh_peer (committed_peer i)"
  unfolding peer_step_iff using handles_commit(1)[OF assms] unfolding committed_peer_def by (metis prod.collapse)

lemma committed_log:
  assumes "peer_name i"
  shows "represents (fst (committed_peer i)) ''d'' ''s'' [sample_commit]"
proof -
  let ?R = "snd (saveCommit sample_commit empty_repository)"
  have n: "no_nul ''d''" "no_nul ''s''" by (simp_all add: no_nul_def)
  have v: "valid_coordinate (cc_coordinate sample_commit)" using sample_coordinate_valid by simp
  have "append_commit sample_commit [] = (SaveStored, [sample_commit])"
    by (simp add: append_commit_def sample_round) (simp add: sample_value_def sample_value_core_def)
  moreover have "co_policyDomainId (cc_coordinate sample_commit) = ''d''" "co_slotId (cc_coordinate sample_commit) = ''s''"
    by (simp_all add: sample_coordinate_def)
  ultimately have "represents ?R ''d'' ''s'' [sample_commit]"
    using save_refines[OF represents_empty n v prod.collapse[symmetric]] by auto
  moreover have "rp_commits (fst (committed_peer i)) = rp_commits ?R"
    using handles_commit(2)[OF assms] by (subst sample_saved) (simp_all add: empty_repository_def)
  ultimately show ?thesis using represents_same by blast
qed

lemma represents_same_log: "represents R pd slot L \<Longrightarrow> represents R pd slot [c] \<Longrightarrow> L = [c]"
proof -
  assume a: "represents R pd slot L" and b: "represents R pd slot [c]"
  have get: "(if 1 \<le> h \<and> h \<le> int (length L) then Some (L ! nat (h - 1)) else None)
      = (if 1 \<le> h \<and> h \<le> 1 then Some c else None)" for h
    using a b by (simp add: represents_def)
  from get[of 1] have "1 \<le> length L" "L ! 0 = c" by (auto split: if_splits)
  moreover from get[of 2] have "\<not> 2 \<le> length L" by (auto split: if_splits)
  ultimately have "length L = 1" "L ! 0 = c" by linarith+
  then show "L = [c]" by (cases L) simp_all
qed

subsection \<open>A catch-up bundle\<close>

definition sample_bundle_core :: catchup_bundle where
  "sample_bundle_core = \<lparr>cb_schemaVersion = 1, cb_policyDomainId = ''d'', cb_slotId = ''s'', cb_fromHeightExclusive = 0,
     cb_toHeightInclusive = 1, cb_commits = [sample_commit], cb_bundleDigest = []\<rparr>"

definition sample_bundle :: catchup_bundle where
  "sample_bundle = sample_bundle_core\<lparr>cb_bundleDigest := sample_hash (JObj (catchup_bundle_body sample_bundle_core))\<rparr>"

lemma sample_bundle_created:
  "createCollectiveAgreementCatchupBundleV1 sample_platform ''d'' ''s'' 0 [sample_commit] = Inr (Some sample_bundle)"
proof -
  note v = commit_json_facts
  have "mesh_ok (JObj (catchup_bundle_body sample_bundle_core))"
    by (rule mesh_ok_plain)
      (use v(1-4) v(5)[of "Suc (Suc 0)"] in \<open>simp_all add: catchup_bundle_body_def sample_bundle_core_def plain_char_def byteLength_plain\<close>)
  note d = sample_digest[OF this]
  have core: "\<lparr>cb_schemaVersion = 1, cb_policyDomainId = ''d'', cb_slotId = ''s'', cb_fromHeightExclusive = 0,
     cb_toHeightInclusive = 1, cb_commits = [sample_commit], cb_bundleDigest = []\<rparr> = sample_bundle_core"
    by (simp add: sample_bundle_core_def)
  have "co_policyDomainId sample_coordinate = ''d''" "co_slotId sample_coordinate = ''s''" by (simp_all add: sample_coordinate_def)
  then show ?thesis
    by (simp add: createCollectiveAgreementCatchupBundleV1_def js_sort_def isSafeInteger_def maximumSafeInteger_def
        bundle_position_def Let_def sample_round core d) (simp add: sample_bundle_def)
qed

lemma sample_catchup:
  "applyCollectiveAgreementCatchupBundleV1 sample_platform sample_resolver wall (\<lambda>_. Inr (Some sample_membership))
     sample_bundle empty_repository
   = (Inr (Some (1, 1)), empty_repository\<lparr>rp_commits := [coordinateKey sample_coordinate \<mapsto> sample_commit]\<rparr>)"
proof -
  have f: "cb_schemaVersion sample_bundle = 1" "cb_policyDomainId sample_bundle = ''d''" "cb_slotId sample_bundle = ''s''"
    "cb_fromHeightExclusive sample_bundle = 0" "cb_toHeightInclusive sample_bundle = 1" "cb_commits sample_bundle = [sample_commit]"
    by (simp_all add: sample_bundle_def sample_bundle_core_def)
  have prev: "av_previousCommitDigest sample_value = None" by (simp add: sample_value_def sample_value_core_def)
  have save: "saveCommit sample_commit empty_repository
      = (SaveStored, empty_repository\<lparr>rp_commits := [coordinateKey sample_coordinate \<mapsto> sample_commit]\<rparr>)"
    by (rule sample_saved) (simp add: empty_repository_def)
  show ?thesis
    by (simp add: applyCollectiveAgreementCatchupBundleV1_def verifyCollectiveAgreementCatchupBundleV1_def f
        sample_bundle_created prev sample_commit_verified save)
qed

end
