(* ===== verification/AgSampleNetwork.thy ===== *)
theory AgSampleNetwork
  imports AgSafety AgSampleRuns
begin

text \<open>
  A round of the sample network in which three of the four validators run the code and the fourth
  is faulty: each of the three prevotes and then precommits the value.
\<close>

definition sample_network :: "int network" where
  "sample_network = \<lparr>nw_membership = sample_membership, nw_honest = {''p1'', ''p2'', ''p3''},
     nw_options = sample_options, nw_base = sample_coordinate\<rparr>"

definition start :: network_state where
  "start = (\<lambda>_. fresh_peer)"

definition after_prevotes :: network_state where
  "after_prevotes = start(''p1'' := prevoted_state ''p1'', ''p2'' := prevoted_state ''p2'', ''p3'' := prevoted_state ''p3'')"

definition after_precommits :: network_state where
  "after_precommits = after_prevotes(''p1'' := precommitted_state ''p1'', ''p2'' := precommitted_state ''p2'',
     ''p3'' := precommitted_state ''p3'')"

lemma sample_network_fields [simp]:
  "nw_membership sample_network = sample_membership" "nw_honest sample_network = {''p1'', ''p2'', ''p3''}"
  "nw_options sample_network = sample_options" "nw_base sample_network = sample_coordinate"
  by (simp_all add: sample_network_def)

lemma sample_initial: "initial sample_network start"
proof -
  have "voters sample_network - nw_honest sample_network = {''p4''}"
    by (auto simp: voters_def sample_validators_def)
  then have "card (voters sample_network - nw_honest sample_network) \<le> faults sample_network"
    by (simp add: faults_def)
  with sample_keyed sample_membership_valid show ?thesis
    unfolding initial_def well_formed_def start_def fresh_peer_def by auto
qed

lemma deliver_proposal:
  assumes "i \<in> {''p1'', ''p2'', ''p3''}" "s i = fresh_peer"
  shows "net_step sample_network s [] (s(i := prevoted_state i))"
proof -
  let ?e = "sample_message ''p1'' i (AgreementProposal sample_proposal)"
  have i: "peer_name i" using assms(1) value_ids by auto
  have "handle (nw_options sample_network i) sample_clock (sample_message ''p1'' i (AgreementProposal sample_proposal)) (s i)
      = (Inr (PeerAccepted (vote_message (sample_vote Prevote i))), prevoted_state i)"
    using handles_proposal[OF i] assms(2) by simp
  moreover have "admissible sample_network s i sample_clock (en_payload ?e)"
    by (simp add: admissible_def sample_proposal_def answered_def)
  moreover have "verified_certificates sample_network i sample_clock (en_payload ?e) = []"
    by (simp add: verified_certificates_def sample_proposal_def)
  ultimately show ?thesis using deliver[of i sample_network s sample_clock ?e] assms(1) by simp
qed

definition recorded_votes :: "vote_phase \<Rightarrow> network_state \<Rightarrow> bool" where
  "recorded_votes ph s \<longleftrightarrow>
     (\<forall>i \<in> {''p1'', ''p2'', ''p3''}. rp_localVotes (fst (s i)) (sample_key ph) = Some (sample_vote ph i))"

lemma sample_unforged:
  assumes "recorded_votes ph s" "ids \<in> sample_quorums"
  shows "unforged sample_network s P resolve t (quorum_certificate ids ph)"
  using assms by (fastforce simp: unforged_def quorum_votes_def recorded_votes_def sample_quorums_def)

lemma deliver_certificate:
  assumes "i \<in> {''p1'', ''p2'', ''p3''}" "s i = prevoted_state i" "recorded_votes Prevote s"
  shows "\<exists>cs. net_step sample_network s cs (s(i := precommitted_state i)) \<and> set cs \<subseteq> {sample_certificate Prevote}"
proof -
  let ?e = "sample_message ''p1'' i (AgreementCertificate (sample_certificate Prevote) 5)"
  have i: "peer_name i" using assms(1) value_ids by auto
  have "handle (nw_options sample_network i) sample_clock
      (sample_message ''p1'' i (AgreementCertificate (sample_certificate Prevote) 5)) (s i)
      = (Inr (PeerAccepted (vote_message (sample_vote Precommit i))), precommitted_state i)"
    unfolding assms(2) precommitted_state_def using handles_certificate(1)[OF i] by (simp add: prod_eq_iff)
  moreover have "admissible sample_network s i sample_clock (en_payload ?e)"
    using sample_unforged[OF assms(3) sample_quorums_in(1)] by (simp add: admissible_def answered_def)
  moreover have "set (verified_certificates sample_network i sample_clock (en_payload ?e)) \<subseteq> {sample_certificate Prevote}"
    by (simp add: verified_certificates_def Let_def)
  ultimately show ?thesis using deliver[of i sample_network s sample_clock ?e] assms(1) by auto
qed

lemma sample_run:
  "\<exists>cs. net_run sample_network start cs after_precommits \<and> set cs \<subseteq> {sample_certificate Prevote}"
  "recorded_votes Prevote after_precommits"
  "recorded_votes Precommit after_precommits"
proof -
  have pre: "rp_localVotes (fst (prevoted_state i)) (sample_key Prevote) = Some (sample_vote Prevote i)" for i
    by (simp add: prevoted_state_def)
  have key: "sample_key Prevote \<noteq> sample_key Precommit" by (simp add: sample_key_def voteKey_inject sample_keyed)
  have both: "rp_localVotes (fst (precommitted_state i)) (sample_key ph) = Some (sample_vote ph i)"
    if "i \<in> {''p1'', ''p2'', ''p3''}" for i ph
  proof -
    have "peer_name i" using that value_ids by auto
    with handles_certificate(2) key show ?thesis by (cases ph) simp_all
  qed
  define a where "a = start(''p1'' := prevoted_state ''p1'')"
  define b where "b = a(''p2'' := prevoted_state ''p2'')"
  have b3: "b(''p3'' := prevoted_state ''p3'') = after_prevotes" by (simp add: b_def a_def after_prevotes_def)
  define c where "c = after_prevotes(''p1'' := precommitted_state ''p1'')"
  define d where "d = c(''p2'' := precommitted_state ''p2'')"
  have d3: "d(''p3'' := precommitted_state ''p3'') = after_precommits" by (simp add: d_def c_def after_precommits_def)
  have rec: "recorded_votes Prevote after_prevotes" "recorded_votes Prevote c" "recorded_votes Prevote d"
    using pre both by (simp_all add: recorded_votes_def after_prevotes_def c_def d_def)
  have "net_step sample_network start [] a" "net_step sample_network a [] b" "net_step sample_network b [] after_prevotes"
    unfolding a_def b_def b3[symmetric] by (rule deliver_proposal; simp add: start_def a_def b_def)+
  then have "net_run sample_network start [] after_prevotes"
    using more[OF more[OF more[OF here]]] by (metis append_Nil)
  moreover obtain c1 c2 c3 where
    "net_step sample_network after_prevotes c1 c" "net_step sample_network c c2 d" "net_step sample_network d c3 after_precommits"
    and only: "set c1 \<union> set c2 \<union> set c3 \<subseteq> {sample_certificate Prevote}"
    using deliver_certificate[of "''p1''" after_prevotes] deliver_certificate[of "''p2''" c] deliver_certificate[of "''p3''" d] rec
    by (fastforce simp: after_prevotes_def c_def d_def d3[symmetric])
  ultimately have "net_run sample_network start ((([] @ c1) @ c2) @ c3) after_precommits" by (metis more)
  then show "\<exists>cs. net_run sample_network start cs after_precommits \<and> set cs \<subseteq> {sample_certificate Prevote}"
    using only by fastforce
  show "recorded_votes Prevote after_precommits" "recorded_votes Precommit after_precommits"
    using both by (simp_all add: recorded_votes_def after_precommits_def)
qed

lemma sample_commits_here:
  assumes "ids \<in> sample_quorums"
  shows "commits_here sample_network after_precommits sample_platform sample_resolver wall (quorum_commit ids)"
  using sample_unforged[OF sample_run(2) assms] sample_unforged[OF sample_run(3) assms] quorum_commit_verified[OF assms]
  by (simp add: commits_here_def same_height_def)

lemma quorum_parts_bound: "x \<in> commit_parts (quorum_commit ids) \<Longrightarrow> bound x"
  using sample_certificate_bound by (auto simp: commit_parts_def)

lemma quorum_commits_differ: "quorum_commit first_quorum \<noteq> quorum_commit last_quorum"
proof
  assume "quorum_commit first_quorum = quorum_commit last_quorum"
  then have "map en_senderPeerId (vc_votes (cc_precommitCertificate (quorum_commit first_quorum)))
      = map en_senderPeerId (vc_votes (cc_precommitCertificate (quorum_commit last_quorum)))" by (rule arg_cong)
  then show False by (simp add: quorum_votes_def)
qed

end
