(* ===== verification/AgClient.thy ===== *)
theory AgClient
  imports AgPeer
begin

text \<open>
  \<open>CollectiveAgreementClientV1\<close> of \<open>packages/collective-quorum/src/agreement-client.ts\<close>, the
  proposer's side of a round, and the process-local transport of \<open>agreement-transport.ts\<close>. The
  world outside the proposer is a state \<open>'w\<close> that the transport changes and the clock is read
  from. \<open>Promise.allSettled\<close> issues the requests in the order of the validators and the
  responses are examined in that order; a request that fails in any way has no response
  (\<open>None\<close>). The timeout and the abort signal only turn a response into none, which is the
  transport's choice here.
\<close>

record ('k, 'w) client_options =
  ct_platform :: "'k platform"
  ct_scope :: agreement_scope
  ct_signing :: "'k agreement_signing"
  ct_resolver :: "'k resolver"
  ct_membership :: "string \<Rightarrow> int \<Rightarrow> string \<Rightarrow> int \<Rightarrow> membership option res"
  ct_transport :: "string \<Rightarrow> agreement_payload envelope \<Rightarrow> 'w \<Rightarrow> agreement_payload envelope option \<times> 'w"
  ct_clock :: "'w \<Rightarrow> clock_reading"
  ct_report :: "(equivocation_proof \<Rightarrow> unit res) option"
  ct_requestTimeoutMs :: "int option"
  ct_maximumEnvelopeTtlMs :: "int option"

record decision_input =
  di_membership :: membership
  di_policyDomainId :: string
  di_slotId :: string
  di_height :: int
  di_round :: int
  di_value :: agreement_value
  di_validRound :: "int option"
  di_justification :: "vote_certificate option"
  di_logicalTimeMs :: int

text \<open>The client's repository, the reports it has made, and the world.\<close>

type_synonym 'w client_state = "repository \<times> equivocation_proof list \<times> 'w"

definition construct_client :: "('k, 'w) client_options \<Rightarrow> unit res" where
  "construct_client o1 =
     (let timeout = (case ct_requestTimeoutMs o1 of None \<Rightarrow> 5000 | Some n \<Rightarrow> n) in
      if sc_peerId (ct_scope o1) = [] then Inl (TypeError ''agreement client options are required'')
      else if \<not> isSafeInteger timeout \<or> timeout < 1 \<or> timeout > 300000
      then Inl (RangeError ''requestTimeoutMs is out of range'')
      else Inr ())"

definition client_ttl :: "('k, 'w) client_options \<Rightarrow> int" where
  "client_ttl o1 = (case ct_maximumEnvelopeTtlMs o1 of None \<Rightarrow> 30000 | Some n \<Rightarrow> n)"

definition clock_now :: "('k, 'w) client_options \<Rightarrow> ('w client_state, clock_reading) comp" where
  "clock_now o1 = (\<lambda>(repo, reports, w). (Inr (ct_clock o1 w), (repo, reports, w)))"

definition onClientRepository :: "(repository, 'a) comp \<Rightarrow> ('w client_state, 'a) comp" where
  "onClientRepository m = (\<lambda>(repo, reports, w). case m repo of (r, repo') \<Rightarrow> (r, (repo', reports, w)))"

definition resolveMembership :: "('k, 'w) client_options \<Rightarrow> decision_input \<Rightarrow> membership option res" where
  "resolveMembership o1 input =
     (case validateCollectiveAgreementMembershipV1 (ct_platform o1) (di_membership input) of
        None \<Rightarrow> Inr None
      | Some candidate \<Rightarrow>
          bindE (ct_membership o1 (di_policyDomainId input) (me_epoch candidate)
              (me_configurationDigest candidate) (di_logicalTimeMs input)) (\<lambda>resolved.
            Inr (case Option.bind resolved (validateCollectiveAgreementMembershipV1 (ct_platform o1)) of
                None \<Rightarrow> None
              | Some membership \<Rightarrow>
                  if me_configurationDigest membership = me_configurationDigest candidate
                    \<and> list_ex (\<lambda>v. va_peerId v = sc_peerId (ct_scope o1)
                        \<and> va_instanceId v = sc_instanceId (ct_scope o1)
                        \<and> va_keyId v = sg_keyId (ct_signing o1)) (me_validators membership)
                  then Some membership else None)))"

definition validChain :: "decision_input \<Rightarrow> string option \<Rightarrow> repository \<Rightarrow> bool" where
  "validChain input previousCommitDigest repo \<longleftrightarrow>
     (if di_height input = 1 then previousCommitDigest = None
      else case getCommit (di_policyDomainId input) (di_slotId input) (di_height input - 1) repo of
        None \<Rightarrow> False
      | Some previous \<Rightarrow> previousCommitDigest = Some (cc_certificateDigest previous))"

definition client_request ::
  "('k, 'w) client_options \<Rightarrow> string \<Rightarrow> agreement_payload \<Rightarrow> ('w client_state, agreement_payload envelope) comp" where
  "client_request o1 peerId payload =
     bindS (clock_now o1) (\<lambda>now. liftE (createSignedCollectiveAgreementEnvelopeV1 (ct_platform o1) (ct_scope o1)
       (ct_signing o1) peerId payload now (Some (client_ttl o1))))"

text \<open>One request and its response; a request that cannot be signed is not sent.\<close>

definition client_exchange ::
  "('k, 'w) client_options \<Rightarrow> agreement_payload \<Rightarrow> string \<Rightarrow> 'w client_state
     \<Rightarrow> agreement_payload envelope option \<times> 'w client_state" where
  "client_exchange o1 payload peerId s =
     (case client_request o1 peerId payload s of
        (Inl _, s') \<Rightarrow> (None, s')
      | (Inr request, (repo, reports, w)) \<Rightarrow>
          (case ct_transport o1 peerId request w of (response, w') \<Rightarrow> (response, (repo, reports, w'))))"

fun exchange_all ::
  "('k, 'w) client_options \<Rightarrow> agreement_payload \<Rightarrow> string list \<Rightarrow> 'w client_state
     \<Rightarrow> agreement_payload envelope option list \<times> 'w client_state" where
  "exchange_all o1 payload [] s = ([], s)"
| "exchange_all o1 payload (peerId # peerIds) s =
     (case client_exchange o1 payload peerId s of
        (response, s') \<Rightarrow>
          (case exchange_all o1 payload peerIds s' of (responses, s'') \<Rightarrow> (response # responses, s'')))"

text \<open>What a response must be to count as a vote for this request.\<close>

definition acceptable_vote ::
  "('k, 'w) client_options \<Rightarrow> membership \<Rightarrow> vote_phase \<Rightarrow> string \<Rightarrow> string \<Rightarrow> coordinate \<Rightarrow> clock_reading
     \<Rightarrow> agreement_payload envelope \<Rightarrow> vote_payload envelope option" where
  "acceptable_vote o1 membership phase proposalId valueDigest coordinate now response =
     (case verifyCollectiveAgreementLiveEnvelopeV1 (ct_platform o1) (ct_resolver o1) (cl_wallTime now)
         (client_ttl o1) response of
        None \<Rightarrow> None
      | Some verified \<Rightarrow>
          if \<not> collectiveAgreementEnvelopeIsFreshV1 verified (cl_wallTime now) (client_ttl o1) then None
          else case en_payload verified of
            AgreementVote p \<Rightarrow>
              if en_audiencePeerId verified = sc_peerId (ct_scope o1)
                \<and> vp_voterPeerId p = en_senderPeerId verified
                \<and> vp_phase p = phase \<and> vp_proposalId p = proposalId \<and> vp_valueDigest p = Some valueDigest
                \<and> sameCollectiveAgreementCoordinateV1 (vp_coordinate p) coordinate
                \<and> list_ex (\<lambda>v. va_peerId v = en_senderPeerId verified
                    \<and> va_instanceId v = en_senderInstanceId verified
                    \<and> va_keyId v = en_keyId verified) (me_validators membership)
              then Some (with_payload verified p) else None
          | _ \<Rightarrow> None)"

definition client_report :: "('k, 'w) client_options \<Rightarrow> equivocation_proof \<Rightarrow> ('w client_state, unit) comp" where
  "client_report o1 proof =
     (case ct_report o1 of
        None \<Rightarrow> retS ()
      | Some report \<Rightarrow> (\<lambda>(repo, reports, w). (report proof, (repo, reports @ [proof], w))))"

text \<open>The loop over the responses; \<open>votes\<close> is the \<open>Map\<close> of votes by sender, in insertion order.\<close>

fun collect_votes ::
  "('k, 'w) client_options \<Rightarrow> membership \<Rightarrow> vote_phase \<Rightarrow> string \<Rightarrow> string \<Rightarrow> coordinate
     \<Rightarrow> (string \<times> vote_payload envelope) list \<Rightarrow> agreement_payload envelope option list
     \<Rightarrow> ('w client_state, (string \<times> vote_payload envelope) list) comp" where
  "collect_votes o1 membership phase proposalId valueDigest coordinate votes [] = retS votes"
| "collect_votes o1 membership phase proposalId valueDigest coordinate votes (response # responses) =
     (let continue = (\<lambda>votes. collect_votes o1 membership phase proposalId valueDigest coordinate votes responses) in
      case response of
        None \<Rightarrow> continue votes
      | Some e \<Rightarrow>
          bindS (clock_now o1) (\<lambda>now.
            case acceptable_vote o1 membership phase proposalId valueDigest coordinate now e of
              None \<Rightarrow> continue votes
            | Some verified \<Rightarrow>
                bindS (onClientRepository (observeVote (ct_platform o1) verified)) (\<lambda>proof.
                  case proof of
                    Some p \<Rightarrow>
                      bindS (client_report o1 p) (\<lambda>_.
                        continue (AList.delete (en_senderPeerId verified) votes))
                  | None \<Rightarrow>
                      continue (if map_of votes (en_senderPeerId verified) = None
                        then votes @ [(en_senderPeerId verified, verified)] else votes))))"

definition exchangeForVotes ::
  "('k, 'w) client_options \<Rightarrow> membership \<Rightarrow> agreement_payload \<Rightarrow> vote_phase \<Rightarrow> string \<Rightarrow> string \<Rightarrow> coordinate
     \<Rightarrow> ('w client_state, vote_payload envelope list) comp" where
  "exchangeForVotes o1 membership payload phase proposalId valueDigest coordinate s =
     (case exchange_all o1 payload (map va_peerId (me_validators membership)) s of
        (responses, s') \<Rightarrow>
          bindS (collect_votes o1 membership phase proposalId valueDigest coordinate [] responses)
            (\<lambda>votes. retS (map snd votes)) s')"

text \<open>The conditions on a verified justification, in the client's words.\<close>

definition justifies_round :: "vote_certificate \<Rightarrow> agreement_value \<Rightarrow> int option \<Rightarrow> coordinate \<Rightarrow> bool" where
  "justifies_round justification v validRound coordinate \<longleftrightarrow>
     (let c = vc_coordinate justification in
      vc_phase justification = Prevote
      \<and> vc_valueDigest justification = Some (av_valueDigest v)
      \<and> validRound = Some (co_round c)
      \<and> co_round c < co_round coordinate
      \<and> co_policyDomainId c = co_policyDomainId coordinate
      \<and> co_slotId c = co_slotId coordinate
      \<and> co_height c = co_height coordinate
      \<and> co_membershipEpoch c = co_membershipEpoch coordinate
      \<and> co_membershipConfigurationDigest c = co_membershipConfigurationDigest coordinate)"

definition proposal_core_json :: "proposal_payload \<Rightarrow> json" where
  "proposal_core_json p = JObj [
     (''coordinate'', coordinate_json (pp_coordinate p)),
     (''proposerPeerId'', JStr (pp_proposerPeerId p)),
     (''valueDigest'', JStr (av_valueDigest (pp_value p))),
     (''validRound'', case pp_validRound p of None \<Rightarrow> JNull | Some r \<Rightarrow> JNum r),
     (''justificationDigest'', json_nullable (map_option vc_certificateDigest (pp_justification p)))]"

text \<open>One phase: ask every validator, and certify the votes when there is a quorum of them.\<close>

definition gather_certificate ::
  "('k, 'w) client_options \<Rightarrow> membership \<Rightarrow> agreement_payload \<Rightarrow> vote_phase \<Rightarrow> string \<Rightarrow> string \<Rightarrow> coordinate
     \<Rightarrow> ('w client_state, vote_certificate option) comp" where
  "gather_certificate o1 membership payload phase proposalId valueDigest coordinate =
     bindS (exchangeForVotes o1 membership payload phase proposalId valueDigest coordinate) (\<lambda>votes.
     if int (length votes) < collectiveAgreementQuorumThresholdV1 membership then retS None
     else bindS (clock_now o1) (\<lambda>now.
       liftE (createCollectiveAgreementVoteCertificateV1 (ct_platform o1) (ct_resolver o1) (cl_wallTime now)
         membership votes)))"

definition broadcast_commit ::
  "('k, 'w) client_options \<Rightarrow> membership \<Rightarrow> agreement_payload \<Rightarrow> ('w client_state, unit) comp" where
  "broadcast_commit o1 membership payload s =
     (Inr (), snd (exchange_all o1 payload (map va_peerId (me_validators membership)) s))"

text \<open>From the proposal on: the two phases, the commit, its storage and its broadcast.\<close>

definition run_round ::
  "('k, 'w) client_options \<Rightarrow> membership \<Rightarrow> agreement_value \<Rightarrow> int \<Rightarrow> proposal_payload
     \<Rightarrow> ('w client_state, commit_certificate option) comp" where
  "run_round o1 membership v logicalTimeMs proposal =
     bindS (gather_certificate o1 membership (AgreementProposal proposal) Prevote (pp_proposalId proposal)
         (av_valueDigest v) (pp_coordinate proposal)) (\<lambda>prevotes.
     case prevotes of
       None \<Rightarrow> retS None
     | Some prevoteCertificate \<Rightarrow>
         bindS (gather_certificate o1 membership (AgreementCertificate prevoteCertificate logicalTimeMs) Precommit
             (pp_proposalId proposal) (av_valueDigest v) (pp_coordinate proposal)) (\<lambda>precommits.
         case precommits of
           None \<Rightarrow> retS None
         | Some precommitCertificate \<Rightarrow>
             bindS (clock_now o1) (\<lambda>now.
             bindS (liftE (createCollectiveAgreementCommitCertificateV1 (ct_platform o1) (ct_resolver o1)
                 (cl_wallTime now) membership v prevoteCertificate precommitCertificate logicalTimeMs)) (\<lambda>created.
             case created of
               None \<Rightarrow> retS None
             | Some commit \<Rightarrow>
                 bindS (onClientRepository (\<lambda>repo. case saveCommit commit repo of (r, repo') \<Rightarrow> (Inr r, repo')))
                   (\<lambda>saved.
                   if saved = SaveConflict \<or> saved = SaveChainGap then retS None
                   else bindS (broadcast_commit o1 membership (AgreementCommit commit logicalTimeMs))
                     (\<lambda>_. retS (Some commit)))))))"

definition decide ::
  "('k, 'w) client_options \<Rightarrow> decision_input \<Rightarrow> ('w client_state, commit_certificate option) comp" where
  "decide o1 input =
     bindS (liftE (resolveMembership o1 input)) (\<lambda>membership_or_null.
     case (membership_or_null, validateCollectiveAgreementValueV1 (ct_platform o1) (di_value input)) of
       (Some membership, Some v) \<Rightarrow>
         bindS (liftE (collectiveAgreementProposerV1 membership (di_height input) (di_round input))) (\<lambda>proposer.
         if proposer \<noteq> sc_peerId (ct_scope o1) then retS None
         else bindS (getsS (\<lambda>(repo, _). validChain input (av_previousCommitDigest v) repo)) (\<lambda>chain_ok.
         if \<not> chain_ok then retS None
         else let coordinate = \<lparr>co_policyDomainId = di_policyDomainId input, co_slotId = di_slotId input,
               co_height = di_height input, co_round = di_round input, co_membershipEpoch = me_epoch membership,
               co_membershipConfigurationDigest = me_configurationDigest membership\<rparr>
           in bindS (case di_justification input of
               None \<Rightarrow> retS None
             | Some c \<Rightarrow> bindS (clock_now o1) (\<lambda>now. liftE (verifyCollectiveAgreementVoteCertificateV1
                 (ct_platform o1) (ct_resolver o1) (cl_wallTime now) membership c))) (\<lambda>verifiedJustification.
             if (di_validRound input = None) \<noteq> (di_justification input = None)
               \<or> (di_justification input \<noteq> None \<and> (case verifiedJustification of
                   None \<Rightarrow> True
                 | Some j \<Rightarrow> \<not> justifies_round j v (di_validRound input) coordinate))
             then retS None
             else let core = \<lparr>pp_proposalId = [], pp_coordinate = coordinate,
                   pp_proposerPeerId = sc_peerId (ct_scope o1), pp_value = v,
                   pp_validRound = di_validRound input, pp_justification = verifiedJustification,
                   pp_proposedAtLogicalMs = di_logicalTimeMs input\<rparr>
               in bindS (liftE (collectiveAgreementDigestV1 (ct_platform o1) (proposal_core_json core))) (\<lambda>d.
                 run_round o1 membership v (di_logicalTimeMs input)
                   (core\<lparr>pp_proposalId := ''agreement.proposal.'' @ digest_slice d\<rparr>)))))
     | _ \<Rightarrow> retS None)"

subsection \<open>The process-local transport\<close>

text \<open>The registered peers; the world of a client is their states.\<close>

definition register_peer ::
  "string \<Rightarrow> 'k peer_options \<Rightarrow> (string \<rightharpoonup> 'k peer_options) \<Rightarrow> (string \<rightharpoonup> 'k peer_options) res" where
  "register_peer peerId peer peers =
     (if peerId = [] then Inl (TypeError ''peerId and peer are required'')
      else if peers peerId \<noteq> None then Inl (PortError ''peer_already_registered'')
      else Inr (peers(peerId \<mapsto> peer)))"

definition unregister_peer :: "string \<Rightarrow> (string \<rightharpoonup> 'k peer_options) \<Rightarrow> bool \<times> (string \<rightharpoonup> 'k peer_options)" where
  "unregister_peer peerId peers = (peers peerId \<noteq> None, peers(peerId := None))"

text \<open>
  \<open>exchange\<close>: the peer's answer when it accepts. A handler that throws rejects the exchange,
  which the client turns into no response; the peer keeps what it had written.
\<close>

definition in_memory_exchange ::
  "(string \<rightharpoonup> 'k peer_options) \<Rightarrow> (string \<Rightarrow> clock_reading) \<Rightarrow> string \<Rightarrow> agreement_payload envelope
     \<Rightarrow> (string \<Rightarrow> peer_state) \<Rightarrow> agreement_payload envelope option \<times> (string \<Rightarrow> peer_state)" where
  "in_memory_exchange peers clocks peerId request s =
     (case peers peerId of
        None \<Rightarrow> (None, s)
      | Some peer \<Rightarrow>
          (case handle peer (clocks peerId) request (s peerId) of
             (Inr (PeerAccepted response), t) \<Rightarrow> (Some response, s(peerId := t))
           | (_, t) \<Rightarrow> (None, s(peerId := t))))"

end
