(* ===== verification/AgProperties.thy ===== *)
theory AgProperties
  imports AgSampleNetwork AgClient AgBase64
begin

text \<open>
  The properties of the agreement protocol, each with a witness at the sample membership.
\<close>

lemma certified_overlap:
  assumes "validateCollectiveAgreementMembershipV1 Q m = Some m" "certified_by P r t m p votes" "certified_by P' r' t' m p' votes'"
  shows "me_faultThreshold m + 1 \<le> int (card (en_senderPeerId ` set votes \<inter> en_senderPeerId ` set votes'))"
proof -
  let ?V = "va_peerId ` set (me_validators m)"
  note m = valid_membership_facts[OF assms(1)]
  have card: "2 * me_faultThreshold m + 1 \<le> int (card (en_senderPeerId ` set vs)) \<and> en_senderPeerId ` set vs \<subseteq> ?V"
    if "certified_by R s u m q vs" for R :: "'x platform" and s u q vs
  proof -
    from that have "distinct (map en_senderPeerId vs)" and l: "2 * me_faultThreshold m + 1 \<le> int (length vs)"
      by (simp_all add: certified_by_def collectiveAgreementQuorumThresholdV1_def)
    from distinct_card[OF this(1)] l that show ?thesis by (force simp: certified_by_def image_iff)
  qed
  note a = card[OF assms(2)] and b = card[OF assms(3)]
  have V: "int (card ?V) = 3 * me_faultThreshold m + 1" using distinct_card[OF m(1)] m(2) by simp
  have "card (en_senderPeerId ` set votes \<union> en_senderPeerId ` set votes') \<le> card ?V"
    using a b by (intro card_mono) auto
  with a b V card_Un_Int[of "en_senderPeerId ` set votes" "en_senderPeerId ` set votes'"] show ?thesis by simp
qed

lemma applied_bundle:
  assumes "applyCollectiveAgreementCatchupBundleV1 P resolve t membershipFor b R = (Inr (Some (n, h)), R')"
  shows "\<exists>d. createCollectiveAgreementCatchupBundleV1 P (cb_policyDomainId b) (cb_slotId b) (cb_fromHeightExclusive b)
        (cb_commits b) = Inr (Some d) \<and> cb_toHeightInclusive d = h
      \<and> verify_commits P resolve t membershipFor (cb_commits b) = Inr True
      \<and> save_commits (cb_commits b) 0 R = (Some n, R')"
proof -
  obtain prev x where v: "verifyCollectiveAgreementCatchupBundleV1 P resolve t membershipFor prev b = Inr (Some x)"
    and s: "save_commits (cb_commits x) 0 R = (Some n, R')" "cb_toHeightInclusive x = h"
    using assms by (auto simp: applyCollectiveAgreementCatchupBundleV1_def Let_def
        split: if_splits sum.splits option.splits prod.splits)
  from v obtain d where "createCollectiveAgreementCatchupBundleV1 P (cb_policyDomainId b) (cb_slotId b)
      (cb_fromHeightExclusive b) (cb_commits b) = Inr (Some d)" "cb_toHeightInclusive d = cb_toHeightInclusive b" "x = b"
    "verify_commits P resolve t membershipFor (cb_commits b) = Inr True"
    by (auto simp: verifyCollectiveAgreementCatchupBundleV1_def bindE_def split: if_splits sum.splits option.splits)
  with s show ?thesis by simp
qed

lemma verified_commits:
  assumes "verify_commits P r t membershipFor cs = Inr True" "c \<in> set cs"
  shows "\<exists>m. membershipFor c = Inr (Some m) \<and> verifyCollectiveAgreementCommitCertificateV1 P r t m c = Inr (Some c)"
    "valid_coordinate (cc_coordinate c)"
proof -
  from verify_commits_True[OF assms] obtain m where m: "membershipFor c = Inr (Some m)"
    "verifyCollectiveAgreementCommitCertificateV1 P r t m c \<noteq> Inr None"
    "verifyCollectiveAgreementCommitCertificateV1 P r t m c \<notin> range Inl" by blast
  then obtain d where d: "verifyCollectiveAgreementCommitCertificateV1 P r t m c = Inr (Some d)"
    by (cases "verifyCollectiveAgreementCommitCertificateV1 P r t m c") auto
  note c = commit_certificate_Some(1,2)[OF d]
  from m(1) d c(1) show "\<exists>m. membershipFor c = Inr (Some m) \<and> verifyCollectiveAgreementCommitCertificateV1 P r t m c = Inr (Some c)"
    by blast
  from c(2) show "valid_coordinate (cc_coordinate c)"
    by (auto simp: validateCollectiveAgreementCommitCertificateShapeV1_def split: if_splits)
qed

lemma created_signed:
  assumes "createSignedCollectiveAgreementEnvelopeV1 P scope signing audience payload clock ttl = Inr e"
  shows "\<exists>u bytes signature. e = u\<lparr>en_signature := Some (encodeBase64Url signature)\<rparr> \<and> en_signature u = None
    \<and> validate_envelope P True e = Some e \<and> canonicalBytes (message_json u) = Inr bytes
    \<and> pl_sign P (ck_handle (sg_privateKey signing)) bytes = Some signature
    \<and> en_payload u = payload \<and> en_tenantId u = sc_tenantId scope \<and> en_meshId u = sc_meshId scope
    \<and> en_senderPeerId u = sc_peerId scope \<and> en_audiencePeerId u = audience \<and> en_keyId u = sg_keyId signing
    \<and> en_algorithm u = MESH_SIGNATURE_ALGORITHM \<and> en_issuedAt u = cl_wallTime clock"
proof -
  from assms obtain u where u: "signCollectiveAgreementEnvelopeV1 P u (sg_privateKey signing) = Inr e"
    and f: "en_signature u = None" "en_payload u = payload" "en_tenantId u = sc_tenantId scope" "en_meshId u = sc_meshId scope"
      "en_senderPeerId u = sc_peerId scope" "en_audiencePeerId u = audience" "en_keyId u = sg_keyId signing"
      "en_issuedAt u = cl_wallTime clock"
    by (auto simp: createSignedCollectiveAgreementEnvelopeV1_def bindE_Inr_iff Let_def split: if_splits)
  from u obtain v where v: "validate_envelope P False u = Some v"
    by (auto simp: signCollectiveAgreementEnvelopeV1_def split: option.splits)
  then have same: "v = u" by (rule valid_envelope_same)
  from v have "en_algorithm u = MESH_SIGNATURE_ALGORITHM" by (auto simp: validate_envelope_def split: if_splits)
  moreover from u[unfolded signCollectiveAgreementEnvelopeV1_def v option.case same] obtain bytes signature w where
    "canonicalBytes (message_json u) = Inr bytes" "pl_sign P (ck_handle (sg_privateKey signing)) bytes = Some signature"
    "validate_envelope P True (u\<lparr>en_signature := Some (encodeBase64Url signature)\<rparr>) = Some w" "e = w"
    by (auto simp: bindE_def split: if_splits sum.splits option.splits)
  moreover from this(3) have "w = u\<lparr>en_signature := Some (encodeBase64Url signature)\<rparr>" by (rule valid_envelope_same)
  ultimately show ?thesis using f by blast
qed



text \<open>
  C2. A verified vote certificate is what the protocol needs of it: at least \<open>2 f + 1\<close> votes, each
  with a verified signature, from distinct members of a valid membership under their registered instance
  and key, all for one proposal, value, phase and coordinate of this membership; and two verified
  certificates of a membership have at least \<open>f + 1\<close> voters in common.
\<close>

theorem certificate_sound:
  assumes "verifyVoteCertificate P resolve t m fresh c = Inr (Some d)"
    and "verifyVoteCertificate P' resolve' t' m fresh' c' = Inr (Some d')"
  shows "d = c \<and> certified_by P resolve t m (en_payload (hd (vc_votes c))) (vc_votes c)
    \<and> me_faultThreshold m + 1
        \<le> int (card (en_senderPeerId ` set (vc_votes c) \<inter> en_senderPeerId ` set (vc_votes c')))"
proof -
  note c = verify_certificate_Some[OF assms(1)] and c' = verify_certificate_Some[OF assms(2)]
  show ?thesis using c(1,4) certified_overlap[OF c(3,4) c'(4)] by simp
qed

lemma certificate_sound_witness:
  "me_faultThreshold sample_membership + 1 \<le> int (card (en_senderPeerId ` set (sample_votes Prevote)
     \<inter> en_senderPeerId ` set (sample_votes Precommit)))"
  using certificate_sound[OF sample_certificate_verified[of True Prevote] sample_certificate_verified[of False Precommit]]
  by simp

text \<open>
  C3. A validator never signs two different votes for the same height, round and phase: whatever
  messages it handles, from a fresh start and in any order, a vote that it answers with later is the very
  envelope it answered with before, and this holds across membership epochs too.
\<close>

theorem one_vote_per_round:
  assumes "(peer_step o1)\<^sup>*\<^sup>* fresh_peer s" "handle o1 now e s = (Inr (PeerAccepted x), t)" "(peer_step o1)\<^sup>*\<^sup>* t u"
    and "handle o1 now' e' u = (Inr (PeerAccepted y), w)"
    and "en_payload x = AgreementVote p" "en_payload y = AgreementVote q"
    and "same_height (vp_coordinate p) (vp_coordinate q)" "co_round (vp_coordinate p) = co_round (vp_coordinate q)"
      "vp_phase p = vp_phase q"
  shows "y = x"
  by (rule one_vote[OF assms])

lemma one_vote_per_round_witness:
  "vote_message (sample_vote Prevote ''p2'') = vote_message (sample_vote Prevote ''p2'')
   \<and> handle (sample_options ''p2'') sample_clock (sample_message ''p1'' ''p2'' (AgreementProposal sample_proposal))
        (prevoted_state ''p2'') = (Inr (PeerAccepted (vote_message (sample_vote Prevote ''p2''))), prevoted_state ''p2'')"
proof -
  note again = handles_proposal_again[OF value_ids(7)]
  have "vote_message (sample_vote Prevote ''p2'') = vote_message (sample_vote Prevote ''p2'')"
    by (rule one_vote_per_round[OF _ handles_proposal[OF value_ids(7)] _ again]) (simp_all add: same_height_def)
  with again show ?thesis by simp
qed

text \<open>
  C4. The commits of a slot implement an append-only, hash-linked log. Whatever messages a validator
  has handled, its repository represents a linked log of the slot; \<open>saveCommit\<close> then does to the log
  what \<open>append_commit\<close> says, with the same answer; \<open>listCommits\<close> reads a segment of it; and whatever
  is handled later only appends.
\<close>

theorem commit_log:
  assumes "is_identifier pd" "is_identifier slot" "(peer_step o1)\<^sup>*\<^sup>* fresh_peer s"
  shows "\<exists>L. represents (fst s) pd slot L
    \<and> (\<forall>c res R. valid_coordinate (cc_coordinate c) \<longrightarrow> co_policyDomainId (cc_coordinate c) = pd \<longrightarrow>
         co_slotId (cc_coordinate c) = slot \<longrightarrow> saveCommit c (fst s) = (res, R) \<longrightarrow>
         (\<exists>M. append_commit c L = (res, M) \<and> represents R pd slot M))
    \<and> (\<forall>k n. 1 \<le> n \<longrightarrow> n \<le> 1024 \<longrightarrow> listCommits pd slot (int k) n (fst s) = Inr (take (nat n) (drop k L)))
    \<and> (\<forall>t. (peer_step o1)\<^sup>*\<^sup>* s t \<longrightarrow> (\<exists>M. represents (fst t) pd slot (L @ M)))"
proof -
  note n = no_nul_identifier[OF assms(1)] no_nul_identifier[OF assms(2)]
  have "represents (fst fresh_peer) pd slot []" by (simp add: fresh_peer_def represents_empty)
  from run_extends[OF assms(3) this n] obtain L where L: "represents (fst s) pd slot L" by auto
  show ?thesis
    using L save_refines[OF L n] listCommits_log[OF L] run_extends[OF _ L n] by (intro exI[of _ L]) fastforce
qed

lemma commit_log_witness:
  "\<exists>L. represents (fst (committed_peer ''p2'')) ''d'' ''s'' L \<and> L = [sample_commit]"
proof -
  have run: "(peer_step (sample_options ''p2''))\<^sup>*\<^sup>* fresh_peer (committed_peer ''p2'')"
    using committed_reachable[OF value_ids(7)] by simp
  from commit_log[OF value_ids(3,4) run] obtain L where L: "represents (fst (committed_peer ''p2'')) ''d'' ''s'' L"
    by blast
  from represents_same_log[OF L committed_log[OF value_ids(7)]] L show ?thesis by blast
qed

text \<open>
  C21. Catching up only appends what is certified: when applying a bundle succeeds, every commit of it has
  been verified against the membership that the port answers for it, the log of the slot is the old one
  followed by commits of the bundle, as many as it reports, and it now holds, at its height, a commit with
  the digest of each commit of the bundle, for every height from the first to the one it reports.
\<close>

theorem catchup_applies:
  assumes "applyCollectiveAgreementCatchupBundleV1 P resolve t membershipFor b R = (Inr (Some (n, h)), R')"
    and "represents R (cb_policyDomainId b) (cb_slotId b) L"
    and "is_identifier (cb_policyDomainId b)" "is_identifier (cb_slotId b)"
  shows "\<exists>M. represents R' (cb_policyDomainId b) (cb_slotId b) (L @ M) \<and> length M = n \<and> set M \<subseteq> set (cb_commits b)
    \<and> h = cb_fromHeightExclusive b + int (length (cb_commits b))
    \<and> (\<lambda>c. co_height (cc_coordinate c)) ` set (cb_commits b) = {cb_fromHeightExclusive b + 1..h}
    \<and> (\<forall>c \<in> set (cb_commits b).
         (\<exists>m. membershipFor c = Inr (Some m)
            \<and> verifyCollectiveAgreementCommitCertificateV1 P resolve t m c = Inr (Some c))
         \<and> nat (co_height (cc_coordinate c)) \<le> length (L @ M)
         \<and> cc_certificateDigest ((L @ M) ! nat (co_height (cc_coordinate c) - 1)) = cc_certificateDigest c)"
proof -
  from applied_bundle[OF assms(1)] obtain d x where b:
    "createCollectiveAgreementCatchupBundleV1 P (cb_policyDomainId b) (cb_slotId b) (cb_fromHeightExclusive b) (cb_commits b)
       = Inr (Some d)" "cb_toHeightInclusive d = h"
    "verify_commits P resolve t membershipFor (cb_commits b) = Inr True"
    "save_commits (cb_commits b) 0 R = (Some n, R')" by blast
  note created = createBundle_Some[OF b(1)]
  note v = verified_commits[OF b(3)]
  from save_commits_log[OF b(4) assms(2) no_nul_identifier[OF assms(3)] no_nul_identifier[OF assms(4)]] created(3) v(2)
  obtain M where "represents R' (cb_policyDomainId b) (cb_slotId b) (L @ M)" "n = length M" "set M \<subseteq> set (cb_commits b)"
    "\<forall>c \<in> set (cb_commits b). nat (co_height (cc_coordinate c)) \<le> length (L @ M)
         \<and> cc_certificateDigest ((L @ M) ! nat (co_height (cc_coordinate c) - 1)) = cc_certificateDigest c" by auto
  then show ?thesis using v(1) created(4,5) b(2) by (intro exI[of _ M]) simp
qed

lemma catchup_applies_witness:
  "\<exists>M. represents (empty_repository\<lparr>rp_commits := [coordinateKey sample_coordinate \<mapsto> sample_commit]\<rparr>) ''d'' ''s'' M
    \<and> length M = 1 \<and> set M \<subseteq> {sample_commit}"
proof -
  have "cb_policyDomainId sample_bundle = ''d''" "cb_slotId sample_bundle = ''s''" "cb_commits sample_bundle = [sample_commit]"
    by (simp_all add: sample_bundle_def sample_bundle_core_def)
  with catchup_applies[OF sample_catchup, of "[]"] represents_empty value_ids(3,4) show ?thesis by fastforce
qed

text \<open>
  C22. A signed message verifies: when the platform signs and verifies as Ed25519 does (a signature has 64
  bytes and verifies under the public key that belongs to the private one), a message that
  \<open>createSigned...EnvelopeV1\<close> returns carries the payload, is from the sender's scope to the audience,
  and is verified unchanged by every peer whose resolver has the active key, at every time.
\<close>

theorem signed_message_verifies:
  assumes "createSignedCollectiveAgreementEnvelopeV1 P scope signing audience payload clock ttl = Inr e"
    and "\<And>bytes signature. pl_sign P (ck_handle (sg_privateKey signing)) bytes = Some signature \<Longrightarrow>
      bytes_ok signature \<and> length signature = 64 \<and> pl_verify P (ck_handle (mk_publicKey key)) signature bytes = Some True"
    and "resolve (sc_tenantId scope) (sc_meshId scope) (sc_peerId scope) (sg_keyId signing) MESH_SIGNATURE_ALGORITHM = Some key"
    and "mk_peerId key = sc_peerId scope" "mk_keyId key = sg_keyId signing" "mk_algorithm key = MESH_SIGNATURE_ALGORITHM"
    and "mk_status key = ''active''" "ed25519 (mk_publicKey key) ''public'' ''verify''"
    and "within (cl_wallTime clock) (mk_validFrom key) (mk_validUntil key)" "mesh_timestamp verifiedAt"
  shows "verifyCollectiveAgreementEnvelopeV1 P resolve verifiedAt e = Some e \<and> en_payload e = payload
    \<and> en_senderPeerId e = sc_peerId scope \<and> en_audiencePeerId e = audience"
proof -
  from created_signed[OF assms(1)] obtain u bytes signature where u:
    "e = u\<lparr>en_signature := Some (encodeBase64Url signature)\<rparr>" "en_signature u = None"
    "validate_envelope P True e = Some e" "canonicalBytes (message_json u) = Inr bytes"
    "pl_sign P (ck_handle (sg_privateKey signing)) bytes = Some signature"
    and f: "en_payload u = payload" "en_tenantId u = sc_tenantId scope" "en_meshId u = sc_meshId scope"
      "en_senderPeerId u = sc_peerId scope" "en_audiencePeerId u = audience" "en_keyId u = sg_keyId signing"
      "en_algorithm u = MESH_SIGNATURE_ALGORITHM" "en_issuedAt u = cl_wallTime clock" by blast
  note s = assms(2)[OF u(5)]
  have "u\<lparr>en_signature := None\<rparr> = u" using u(2) by simp
  moreover have "key_of resolve e = Some key" using assms(3) f u(1) by (simp add: key_of_def)
  moreover have "decodeBase64Url (encodeBase64Url signature) = Some signature" using s by (intro decode_encode) auto
  ultimately show ?thesis
    unfolding verifyCollectiveAgreementEnvelopeV1_def u(3) option.case
    using assms(4-10) f u(1,4) s by (auto simp: key_usable_at_def)
qed

lemma signed_message_verifies_witness:
  "verifyCollectiveAgreementEnvelopeV1 sample_platform sample_resolver wall_expiry
     (sample_message ''p1'' ''p2'' (AgreementProposal sample_proposal))
   = Some (sample_message ''p1'' ''p2'' (AgreementProposal sample_proposal))"
proof -
  obtain key where key: "sample_resolver (sc_tenantId (sample_scope ''p1'')) (sc_meshId (sample_scope ''p1''))
      (sc_peerId (sample_scope ''p1'')) (sg_keyId sample_signing) MESH_SIGNATURE_ALGORITHM = Some key" "ck_handle (mk_publicKey key) = 7"
    "mk_peerId key = ''p1''" "mk_keyId key = ''k''" "mk_algorithm key = MESH_SIGNATURE_ALGORITHM" "mk_status key = ''active''"
    "ed25519 (mk_publicKey key) ''public'' ''verify''" "mk_validFrom key = ''2026-01-01T00:00:00Z''"
    "mk_validUntil key = ''2027-01-01T00:00:00Z''"
    by (simp add: sample_resolver_def sample_signing_def MESH_SIGNATURE_ALGORITHM_def ed25519_def)
  have "bytes_ok (replicate 64 7)" by (simp add: bytes_ok_def list_all_iff)
  then show ?thesis
    using signed_message_verifies[where resolve = sample_resolver and key = key and verifiedAt = wall_expiry,
        OF message_created[OF proposal_sendable value_ids(6,7)]] key
    by (simp add: sample_platform_def sample_signing_def within_def compare_wall mesh_timestamp_def)
qed

end
