(* ===== verification/AgFindings.thy ===== *)
theory AgFindings
  imports AgProperties
begin

text \<open>
  Behaviours of the agreement code that are recorded as findings: the fields of a certificate and
  of an equivocation proof that its digest is not compared with, and memberships that are too large
  for any commit.
\<close>

subsection \<open>Restated certificates\<close>

text \<open>A vote certificate with other fields around the same votes and digest.\<close>

definition restated :: "vote_certificate \<Rightarrow> vote_phase \<Rightarrow> coordinate \<Rightarrow> string \<Rightarrow> string option \<Rightarrow> vote_certificate" where
  "restated c ph x q d = c\<lparr>vc_phase := ph, vc_coordinate := x, vc_proposalId := q, vc_valueDigest := d\<rparr>"

definition forged_core :: "vote_certificate \<Rightarrow> coordinate \<Rightarrow> string \<Rightarrow> agreement_value \<Rightarrow> int \<Rightarrow> commit_certificate" where
  "forged_core c x q v time = \<lparr>cc_schemaVersion = 1, cc_kind = ''commit_certificate'', cc_certificateId = [],
     cc_coordinate = x, cc_proposalId = q, cc_value = v,
     cc_prevoteCertificate = restated c Prevote x q (Some (av_valueDigest v)),
     cc_precommitCertificate = restated c Precommit x q (Some (av_valueDigest v)),
     cc_committedAtLogicalMs = time, cc_certificateDigest = []\<rparr>"

definition forged_commit :: "vote_certificate \<Rightarrow> coordinate \<Rightarrow> string \<Rightarrow> agreement_value \<Rightarrow> int \<Rightarrow> string \<Rightarrow> commit_certificate" where
  "forged_commit c x q v time d = (forged_core c x q v time)\<lparr>
     cc_certificateId := ''agreement.commit.'' @ digest_slice d, cc_certificateDigest := d\<rparr>"

lemma restated_verified:
  assumes "verifyVoteCertificate P resolve t m fresh c = Inr (Some c)"
    and "valid_coordinate x" "is_identifier q" "null_or digest_text d"
  shows "verifyVoteCertificate P resolve t m fresh (restated c ph x q d) = Inr (Some (restated c ph x q d))"
proof -
  from verify_certificate_Some(2)[OF assms(1)] assms(2-4)
  have shape: "validateCollectiveAgreementVoteCertificateShapeV1 (restated c ph x q d) = Some (restated c ph x q d)"
    by (auto simp: validateCollectiveAgreementVoteCertificateShapeV1_def restated_def split: if_splits)
  have same: "vc_votes (restated c ph x q d) = vc_votes c" "vc_certificateDigest (restated c ph x q d) = vc_certificateDigest c"
    by (simp_all add: restated_def)
  from assms(1) verify_certificate_Some(2)[OF assms(1)] show ?thesis
    unfolding verifyVoteCertificate_def shape option.case same
    by (auto simp: bindE_Inr_iff split: if_splits)
qed

lemma commit_id_digest:
  assumes "digest_text d"
  shows "is_identifier (''agreement.commit.'' @ digest_slice d)"
proof -
  have id: "''agreement.commit.'' @ s = CHR ''a'' # ''greement.commit.'' @ s" for s by simp
  have chars: "list_all (\<lambda>c. is_alnum c \<or> c \<in> set ''._:@/+-='') ''greement.commit.''" "is_alnum (CHR ''a'')" by code_simp+
  have slice: "list_all (\<lambda>c. is_alnum c \<or> c \<in> set ''._:@/+-='') (digest_slice d)" "length (digest_slice d) = 40"
    using assms by (auto simp: digest_slice_def digest_text_def list_all_iff lower_hex_plain dest: in_set_takeD)
  show ?thesis unfolding id is_identifier_def list.case list_all_append using chars slice by simp
qed

lemma valid_value_digest: "validateCollectiveAgreementValueV1 P v = Some w \<Longrightarrow> digest_text (av_valueDigest v)"
  by (auto simp: validateCollectiveAgreementValueV1_def split: if_splits)

text \<open>
  C38. One verified vote certificate is enough to forge a commit of anything: for every valid value, every
  coordinate and proposal identifier, the same votes under restated fields are verified as its prevote and as its
  precommit certificate, and the commit built from them is verified. The code compares the digest of the
  certificate that the votes make, and not the fields, with the certificate it is given.
\<close>

theorem forged_commit_verifies:
  assumes "verifyVoteCertificate P resolve t m False c = Inr (Some c)"
    and "validateCollectiveAgreementValueV1 P v = Some v" "valid_coordinate x" "is_identifier q" "logical time"
    and "collectiveAgreementDigestV1 P (JObj (commit_certificate_body (forged_core c x q v time))) = Inr d" "digest_text d"
  shows "verifyCollectiveAgreementCommitCertificateV1 P resolve t m (forged_commit c x q v time d)
      = Inr (Some (forged_commit c x q v time d))
    \<and> cc_value (forged_commit c x q v time d) = v \<and> cc_coordinate (forged_commit c x q v time d) = x"
proof -
  let ?f = "forged_commit c x q v time d"
  let ?r = "\<lambda>ph. restated c ph x q (Some (av_valueDigest v))"
  have dv: "null_or digest_text (Some (av_valueDigest v))" using valid_value_digest[OF assms(2)] by (simp add: null_or_def)
  note r = restated_verified[OF assms(1,3,4) dv]
  have shapes: "validateCollectiveAgreementVoteCertificateShapeV1 (?r ph) = Some (?r ph)" for ph
    by (rule verify_certificate_Some(2)[OF r])
  have f: "cc_value ?f = v" "cc_prevoteCertificate ?f = ?r Prevote" "cc_precommitCertificate ?f = ?r Precommit"
    "cc_committedAtLogicalMs ?f = time" "cc_coordinate ?f = x" "cc_certificateDigest ?f = d"
    "cc_certificateId ?f = ''agreement.commit.'' @ digest_slice d" "cc_schemaVersion ?f = 1"
    "cc_kind ?f = ''commit_certificate''" "cc_proposalId ?f = q"
    by (simp_all add: forged_commit_def forged_core_def)
  have shape: "validateCollectiveAgreementCommitCertificateShapeV1 P ?f = Some ?f"
    using assms(2-5,7) commit_id_digest[OF assms(7)]
    by (simp add: validateCollectiveAgreementCommitCertificateShapeV1_def f shapes)
  have fields: "vc_phase (?r ph) = ph" "vc_coordinate (?r ph) = x" "vc_proposalId (?r ph) = q"
    "vc_valueDigest (?r ph) = Some (av_valueDigest v)" for ph
    by (simp_all add: restated_def)
  have core: "\<lparr>cc_schemaVersion = 1, cc_kind = ''commit_certificate'', cc_certificateId = [],
     cc_coordinate = x, cc_proposalId = q, cc_value = v, cc_prevoteCertificate = ?r Prevote,
     cc_precommitCertificate = ?r Precommit, cc_committedAtLogicalMs = time, cc_certificateDigest = []\<rparr>
     = forged_core c x q v time" by (simp add: forged_core_def)
  have forged: "(forged_core c x q v time)\<lparr>cc_certificateId := ''agreement.commit.'' @ digest_slice d,
      cc_certificateDigest := d\<rparr> = ?f" by (simp add: forged_commit_def)
  have "assembleCollectiveAgreementCommitCertificateV1 P resolve t m v (?r Prevote) (?r Precommit) time False
      = Inr (Some ?f)"
    using assms(5) unfolding assembleCollectiveAgreementCommitCertificateV1_def r bindE_simps assms(2) option.case prod.case
    by (simp add: fields Let_def core assms(6) forged[simplified] shape logical_def ag_nonnegative_def)
  then show ?thesis
    unfolding verifyCollectiveAgreementCommitCertificateV1_def shape option.case f by (simp add: f)
qed

text \<open>A rival of the sample value, committed with the prevotes for the sample value.\<close>

definition rival_value_core :: agreement_value where
  "rival_value_core = sample_value_core\<lparr>av_valueId := ''w''\<rparr>"

definition rival_value :: agreement_value where
  "rival_value = rival_value_core\<lparr>av_valueDigest := sample_hash (JObj (agreement_value_body rival_value_core))\<rparr>"

lemma rival_value_valid: "validateCollectiveAgreementValueV1 sample_platform rival_value = Some rival_value"
proof -
  have body: "agreement_value_body rival_value = agreement_value_body rival_value_core"
    by (simp add: agreement_value_body_def rival_value_def)
  note defs = agreement_value_body_def rival_value_def rival_value_core_def sample_value_core_def json_nullable_def
    plain_char_def byteLength_plain
  have "mesh_ok (JObj (agreement_value_body rival_value_core))"
    by (rule mesh_ok_plain) (simp_all add: defs)
  note d = sample_digest[OF this]
  have "mesh_ok (agreement_value_json rival_value)"
    unfolding agreement_value_json_def body by (rule mesh_ok_plain) (simp_all add: defs)
  then have c: "canonicalBytes (agreement_value_json rival_value)
      = Inr (encode_utf8 (render (json_norm (agreement_value_json rival_value))))" by (simp add: canonicalBytes_iff)
  have "is_identifier ''w''" by code_simp
  then show ?thesis
    unfolding validateCollectiveAgreementValueV1_def body d c
    using value_ids by (simp add: rival_value_def rival_value_core_def sample_value_core_def null_or_def)
qed

definition forged_body :: json where
  "forged_body = JObj (commit_certificate_body (forged_core (sample_certificate Prevote) sample_coordinate ''q'' rival_value 5))"

lemma forged_body_ok: "mesh_ok forged_body"
proof -
  let ?r = "\<lambda>ph. restated (sample_certificate Prevote) ph sample_coordinate ''q'' (Some (av_valueDigest rival_value))"
  note v1 = vote_json_facts[OF value_ids(6), where ph = Prevote] and v2 = vote_json_facts[OF value_ids(7), where ph = Prevote]
    and v3 = vote_json_facts[OF value_ids(8), where ph = Prevote]
  have dig: "plain_text (av_valueDigest rival_value)" "length (av_valueDigest rival_value) = 71"
    by (simp_all add: rival_value_def)
  note defs = vote_certificate_body_def vote_certificate_json_def restated_def sample_certificate_def sample_certificate_core_def
    sample_votes_def json_nullable_def
  note val = agreement_value_json_def agreement_value_body_def rival_value_core_def rival_value_def sample_value_core_def json_nullable_def
  have c: "text_bound (coordinate_json sample_coordinate) \<le> 300" by simp
  have p: "length (phase_text ph) \<le> 9" for ph by simp
  have r: "plain_json (vote_certificate_json (?r ph))" "object_keys (vote_certificate_json (?r ph)) = 98"
    "array_items (vote_certificate_json (?r ph)) = 3"
    "mesh_fits DEFAULT_MESH_PROTOCOL_LIMITS 1 (vote_certificate_json (?r ph))" for ph
    using v1(1-3) v2(1-3) v3(1-3) dig
      v1(5)[of "Suc (Suc (Suc 0))"] v2(5)[of "Suc (Suc (Suc 0))"] v3(5)[of "Suc (Suc (Suc 0))"]
    by (simp_all add: defs plain_char_def byteLength_plain)
  have rt: "text_bound (vote_certificate_json (?r ph)) \<le> 6100" for ph
    by (simp add: defs dig) (use v1(4) v2(4) v3(4) c p[of ph] in linarith)
  have v: "plain_json (agreement_value_json rival_value)" "object_keys (agreement_value_json rival_value) = 7"
    "array_items (agreement_value_json rival_value) = 0" "text_bound (agreement_value_json rival_value) \<le> 400"
    "mesh_fits DEFAULT_MESH_PROTOCOL_LIMITS 1 (agreement_value_json rival_value)"
    by (simp_all add: val plain_char_def byteLength_plain)
  note body = forged_body_def commit_certificate_body_def forged_core_def
  show ?thesis
  proof (rule mesh_ok_plain)
    show "plain_json forged_body" "object_keys forged_body \<le> 2048" "array_items forged_body \<le> 4096"
      using r(1-3) v(1-3) by (simp_all add: body plain_char_def)
    show "text_bound forged_body \<le> 262144"
      by (simp add: body) (use rt[of Prevote] rt[of Precommit] v(4) c in linarith)
    show "mesh_fits DEFAULT_MESH_PROTOCOL_LIMITS 0 forged_body"
      using r(4) v(5) by (simp add: body byteLength_plain plain_char_def)
  qed
qed

lemma forged_commit_verifies_witness:
  "verifyCollectiveAgreementCommitCertificateV1 sample_platform sample_resolver wall sample_membership
     (forged_commit (sample_certificate Prevote) sample_coordinate ''q'' rival_value 5 (sample_hash forged_body))
   = Inr (Some (forged_commit (sample_certificate Prevote) sample_coordinate ''q'' rival_value 5 (sample_hash forged_body)))"
  using forged_commit_verifies[OF sample_certificate_verified rival_value_valid sample_coordinate_valid value_ids(5)
      small_logical(1) sample_digest[OF forged_body_ok[unfolded forged_body_def]] sample_hash_ok(1)]
  by (simp add: forged_body_def)

subsection \<open>Equivocation proofs\<close>

definition misattributed :: "equivocation_proof \<Rightarrow> string \<Rightarrow> coordinate \<Rightarrow> vote_phase \<Rightarrow> equivocation_proof" where
  "misattributed p accused x ph = p\<lparr>ep_accusedPeerId := accused, ep_coordinate := x, ep_phase := ph\<rparr>"

text \<open>
  C39. A verified equivocation proof convicts the signer of its two votes, which are verified, from one
  voter, for one coordinate and phase and for different proposals or values; but the proof stays verified when
  the accused peer, the coordinate and the phase that it names are replaced by any others.
\<close>

theorem equivocation_misattributed:
  assumes "verifyCollectiveAgreementEquivocationProofV1 P resolve t p = Inr (Some q)"
  shows "q = p \<and> verify_vote P resolve t (ep_first p) \<and> verify_vote P resolve t (ep_second p)
    \<and> en_senderPeerId (ep_first p) = en_senderPeerId (ep_second p)
    \<and> vp_coordinate (en_payload (ep_first p)) = vp_coordinate (en_payload (ep_second p))
    \<and> vp_phase (en_payload (ep_first p)) = vp_phase (en_payload (ep_second p))
    \<and> (vp_valueDigest (en_payload (ep_first p)), vp_proposalId (en_payload (ep_first p)))
        \<noteq> (vp_valueDigest (en_payload (ep_second p)), vp_proposalId (en_payload (ep_second p)))
    \<and> verifyCollectiveAgreementEquivocationProofV1 P resolve t (misattributed p accused x ph)
        = Inr (Some (misattributed p accused x ph))"
proof -
  from assms obtain r where r: "createCollectiveAgreementEquivocationProofV1 P (ep_first p) (ep_second p) = Inr (Some r)"
    "ep_proofDigest r = ep_proofDigest p" "q = p" "ep_schemaVersion p = 1" "ep_kind p = ''equivocation_proof''"
    "verify_vote P resolve t (ep_first p)" "verify_vote P resolve t (ep_second p)"
    by (auto simp: verifyCollectiveAgreementEquivocationProofV1_def bindE_Inr_iff split: if_splits)
  from r(1) have "en_senderPeerId (ep_first p) = en_senderPeerId (ep_second p)"
    "vp_coordinate (en_payload (ep_first p)) = vp_coordinate (en_payload (ep_second p))"
    "vp_phase (en_payload (ep_first p)) = vp_phase (en_payload (ep_second p))"
    "(vp_valueDigest (en_payload (ep_first p)), vp_proposalId (en_payload (ep_first p)))
        \<noteq> (vp_valueDigest (en_payload (ep_second p)), vp_proposalId (en_payload (ep_second p)))"
    by (auto simp: createCollectiveAgreementEquivocationProofV1_def split: if_splits)
  moreover have "verifyCollectiveAgreementEquivocationProofV1 P resolve t (misattributed p accused x ph)
        = Inr (Some (misattributed p accused x ph))"
    using r by (simp add: verifyCollectiveAgreementEquivocationProofV1_def misattributed_def)
  ultimately show ?thesis using r by simp
qed

text \<open>The first validator prevotes two proposals; the proof is turned against the second.\<close>

definition second_payload :: vote_payload where
  "second_payload = (sample_vote_payload Prevote ''p1'')\<lparr>vp_proposalId := ''r''\<rparr>"

definition second_vote :: "vote_payload envelope" where
  "second_vote = with_payload (sample_message ''p1'' ''p1'' (AgreementVote second_payload)) second_payload"

lemma second_payload_facts:
  "plain_json (vote_payload_json second_payload)" "object_keys (vote_payload_json second_payload) = 13"
  "array_items (vote_payload_json second_payload) = 0" "text_bound (vote_payload_json second_payload) \<le> 600"
  "d < 31 \<Longrightarrow> mesh_fits DEFAULT_MESH_PROTOCOL_LIMITS d (vote_payload_json second_payload)"
proof -
  have c: "text_bound (coordinate_json sample_coordinate) \<le> 300" by simp
  note defs = vote_payload_json_def second_payload_def sample_vote_payload_def json_nullable_def
  show "text_bound (vote_payload_json second_payload) \<le> 600" by (simp add: defs) (use c in linarith)
  show "plain_json (vote_payload_json second_payload)" "object_keys (vote_payload_json second_payload) = 13"
    "array_items (vote_payload_json second_payload) = 0"
    "d < 31 \<Longrightarrow> mesh_fits DEFAULT_MESH_PROTOCOL_LIMITS d (vote_payload_json second_payload)"
    by (simp_all add: defs plain_char_def byteLength_plain)
qed

lemma second_sendable: "sendable (AgreementVote second_payload)"
  unfolding sendable_def
proof (intro conjI)
  have "is_identifier ''r''" by code_simp
  with value_ids(6) sample_coordinate_valid
  show "validateCollectiveAgreementPayloadV1 sample_platform (AgreementVote second_payload) = Some (AgreementVote second_payload)"
    by (simp add: second_payload_def peer_name_def null_or_def) (simp add: sample_vote_payload_def)
qed (use second_payload_facts(1-4) second_payload_facts(5)[of 1] in \<open>simp_all add: le_trans\<close>)

lemma second_vote_message: "vote_message second_vote = sample_message ''p1'' ''p1'' (AgreementVote second_payload)"
  by (simp add: vote_message_def second_vote_def with_payload_def sample_message_def unsigned_message_def)

lemma second_vote_verified: "verify_vote sample_platform sample_resolver wall second_vote"
  using message_verified(1)[OF second_sendable value_ids(6,6)] by (simp add: verify_vote_def second_vote_message)

lemma second_vote_json:
  "plain_json (vote_json second_vote)" "object_keys (vote_json second_vote) = 28" "array_items (vote_json second_vote) = 0"
  "text_bound (vote_json second_vote) \<le> 1500" "d < 30 \<Longrightarrow> mesh_fits DEFAULT_MESH_PROTOCOL_LIMITS d (vote_json second_vote)"
proof -
  note p = second_payload_facts
  note i = sample_messageId_ok[of "''p1''" "''p1''" "AgreementVote second_payload"] wall_text sample_signature_ok(3,4)
  note defs = vote_json_def envelope_json_def proof_json_def jobject_def map_filter_simps second_vote_def with_payload_def
    sample_message_def unsigned_message_def
  show "text_bound (vote_json second_vote) \<le> 1500" using p(4) i by (simp add: defs)
  show "plain_json (vote_json second_vote)" "object_keys (vote_json second_vote) = 28" "array_items (vote_json second_vote) = 0"
    using p(1-3) i by (simp_all add: defs plain_char_def)
  show "mesh_fits DEFAULT_MESH_PROTOCOL_LIMITS d (vote_json second_vote)" if "d < 30"
    using p(5)[of "Suc d"] i that by (simp add: defs byteLength_plain plain_char_def)
qed

definition sample_proof_core :: equivocation_proof where
  "sample_proof_core =
     (let ordered = js_sort (\<lambda>l r. pl_localeCompare sample_platform (en_messageId l) (en_messageId r))
        [sample_vote Prevote ''p1'', second_vote]
      in \<lparr>ep_schemaVersion = 1, ep_kind = ''equivocation_proof'', ep_accusedPeerId = ''p1'',
        ep_coordinate = sample_coordinate, ep_phase = Prevote, ep_first = ordered ! 0, ep_second = ordered ! 1,
        ep_proofDigest = []\<rparr>)"

definition sample_proof :: equivocation_proof where
  "sample_proof = sample_proof_core\<lparr>ep_proofDigest := sample_hash (JObj (equivocation_proof_body sample_proof_core))\<rparr>"

lemma second_vote_fields [simp]:
  "en_senderPeerId second_vote = ''p1''" "en_payload second_vote = second_payload"
  by (simp_all add: second_vote_def with_payload_def)

lemma second_payload_fields [simp]:
  "vp_voterPeerId second_payload = ''p1''" "vp_coordinate second_payload = sample_coordinate"
  "vp_phase second_payload = Prevote" "vp_proposalId second_payload = ''r''"
  by (simp_all add: second_payload_def)

lemma sample_proof_votes:
  obtains "ep_first sample_proof_core = sample_vote Prevote ''p1''" "ep_second sample_proof_core = second_vote"
    | "ep_first sample_proof_core = second_vote" "ep_second sample_proof_core = sample_vote Prevote ''p1''"
  by (cases "en_messageId (sample_vote Prevote ''p1'')" "en_messageId second_vote" rule: linorder_cases)
    (auto simp: sample_proof_core_def js_sort_def sample_platform_def Let_def)

lemma sample_proof_sorted:
  "js_sort (\<lambda>l r. pl_localeCompare sample_platform (en_messageId l) (en_messageId r))
     [ep_first sample_proof_core, ep_second sample_proof_core] = [ep_first sample_proof_core, ep_second sample_proof_core]"
  by (cases "en_messageId (sample_vote Prevote ''p1'')" "en_messageId second_vote" rule: linorder_cases)
    (auto simp: sample_proof_core_def js_sort_def sample_platform_def Let_def)

lemma sample_proof_verified:
  "verifyCollectiveAgreementEquivocationProofV1 sample_platform sample_resolver wall sample_proof = Inr (Some sample_proof)"
proof -
  note v1 = vote_json_facts[OF value_ids(6), where ph = Prevote] and v2 = second_vote_json
  have c: "text_bound (coordinate_json sample_coordinate) \<le> 300" by simp
  have f: "ep_schemaVersion sample_proof_core = 1" "ep_kind sample_proof_core = ''equivocation_proof''"
    "ep_accusedPeerId sample_proof_core = ''p1''" "ep_coordinate sample_proof_core = sample_coordinate"
    "ep_phase sample_proof_core = Prevote" "ep_proofDigest sample_proof_core = []"
    by (simp_all add: sample_proof_core_def Let_def)
  have "mesh_ok (JObj (equivocation_proof_body sample_proof_core))"
  proof (rule mesh_ok_plain)
    show "plain_json (JObj (equivocation_proof_body sample_proof_core))"
      "object_keys (JObj (equivocation_proof_body sample_proof_core)) \<le> 2048"
      "array_items (JObj (equivocation_proof_body sample_proof_core)) \<le> 4096"
      "mesh_fits DEFAULT_MESH_PROTOCOL_LIMITS 0 (JObj (equivocation_proof_body sample_proof_core))"
      by (rule sample_proof_votes; use v1(1-3) v2(1-3) v1(5)[of 1] v2(5)[of 1]
          in \<open>simp add: equivocation_proof_body_def f plain_char_def byteLength_plain\<close>)+
    show "text_bound (JObj (equivocation_proof_body sample_proof_core)) \<le> 262144"
      by (rule sample_proof_votes; simp add: equivocation_proof_body_def f) (use v1(4) v2(4) c in linarith)+
  qed
  note d = sample_digest[OF this]
  have votes: "verify_vote sample_platform sample_resolver wall (ep_first sample_proof_core)"
    "verify_vote sample_platform sample_resolver wall (ep_second sample_proof_core)"
    by (rule sample_proof_votes; use sample_vote_verified(1)[OF value_ids(6)] second_vote_verified in simp)+
  have core: "\<lparr>ep_schemaVersion = 1, ep_kind = ''equivocation_proof'', ep_accusedPeerId = ''p1'',
        ep_coordinate = sample_coordinate, ep_phase = Prevote, ep_first = ep_first sample_proof_core,
        ep_second = ep_second sample_proof_core, ep_proofDigest = []\<rparr> = sample_proof_core"
    by (rule equivocation_proof.equality) (simp_all add: f)
  have core_digest: "\<lparr>ep_schemaVersion = 1, ep_kind = ''equivocation_proof'', ep_accusedPeerId = ''p1'',
        ep_coordinate = sample_coordinate, ep_phase = Prevote, ep_first = ep_first sample_proof_core,
        ep_second = ep_second sample_proof_core, ep_proofDigest = h\<rparr> = sample_proof_core\<lparr>ep_proofDigest := h\<rparr>" for h
    by (rule equivocation_proof.equality) (simp_all add: f)
  have "createCollectiveAgreementEquivocationProofV1 sample_platform (ep_first sample_proof_core) (ep_second sample_proof_core)
      = Inr (Some sample_proof)"
    unfolding createCollectiveAgreementEquivocationProofV1_def sample_proof_sorted
    using core core_digest
    by (rule_tac sample_proof_votes; simp add: Let_def d sample_proof_def)
  then show ?thesis
    using votes f by (simp add: verifyCollectiveAgreementEquivocationProofV1_def sample_proof_def)
qed

lemma equivocation_misattributed_witness:
  "verifyCollectiveAgreementEquivocationProofV1 sample_platform sample_resolver wall
     (misattributed sample_proof ''p2'' sample_coordinate Precommit)
   = Inr (Some (misattributed sample_proof ''p2'' sample_coordinate Precommit))"
  using equivocation_misattributed[OF sample_proof_verified] by blast

subsection \<open>Large memberships\<close>

lemma vote_keys: "en_signature v \<noteq> None \<Longrightarrow> object_keys (vote_json v) = 28"
  by (auto simp: vote_json_def envelope_json_def proof_json_def jobject_def map_filter_simps vote_payload_json_def
      coordinate_json_def json_nullable_def split: option.splits)

lemma verified_signature: "verify_vote P resolve t v \<Longrightarrow> en_signature v \<noteq> None"
  by (auto simp: verify_vote_def verifyCollectiveAgreementEnvelopeV1_def validate_envelope_def vote_message_def
      with_payload_def split: option.splits if_splits)

lemma sum_list_const: "(\<And>x. x \<in> set xs \<Longrightarrow> f x = k) \<Longrightarrow> sum_list (map f xs) = k * length xs" for k :: nat
  by (induction xs) simp_all

lemma certificate_keys:
  assumes "certified_by P resolve t m p (vc_votes c)" "0 \<le> me_faultThreshold m"
  shows "28 * (2 * nat (me_faultThreshold m) + 1) \<le> object_keys (vote_certificate_json c)"
proof -
  have "object_keys (vote_json v) = 28" if "v \<in> set (vc_votes c)" for v
  proof -
    from assms that have "verify_vote P resolve t v" by (simp add: certified_by_def)
    from vote_keys[OF verified_signature[OF this]] show ?thesis .
  qed
  then have "sum_list (map (\<lambda>v. object_keys (vote_json v)) (vc_votes c)) = 28 * length (vc_votes c)"
    by (rule sum_list_const)
  moreover have "2 * nat (me_faultThreshold m) + 1 \<le> length (vc_votes c)"
  proof -
    have "2 * me_faultThreshold m + 1 \<le> int (length (vc_votes c))"
      using assms(1) by (simp add: certified_by_def collectiveAgreementQuorumThresholdV1_def)
    moreover have "int (nat (me_faultThreshold m)) = me_faultThreshold m" using assms(2) by simp
    ultimately show ?thesis by linarith
  qed
  ultimately show ?thesis
    by (simp add: vote_certificate_json_def vote_certificate_body_def comp_def)
qed

lemma commit_digest:
  assumes "verifyCollectiveAgreementCommitCertificateV1 P r t m c = Inr (Some d)"
  shows "\<exists>b. mesh_ok (JObj (commit_certificate_body b)) \<and> cc_prevoteCertificate b = cc_prevoteCertificate c
    \<and> cc_precommitCertificate b = cc_precommitCertificate c"
proof -
  note c = commit_certificate_Some[OF assms]
  from assms c(2) obtain x where x: "assembleCollectiveAgreementCommitCertificateV1 P r t m (cc_value c)
      (cc_prevoteCertificate c) (cc_precommitCertificate c) (cc_committedAtLogicalMs c) False = Inr (Some x)"
    by (auto simp: verifyCollectiveAgreementCommitCertificateV1_def bindE_Inr_iff split: option.splits)
  then obtain b h where "collectiveAgreementDigestV1 P (JObj (commit_certificate_body b)) = Inr h"
    "cc_prevoteCertificate b = cc_prevoteCertificate c" "cc_precommitCertificate b = cc_precommitCertificate c"
    unfolding assembleCollectiveAgreementCommitCertificateV1_def c(3,4) bindE_simps
    by (force simp: bindE_Inr_iff split: option.splits if_splits)
  then show ?thesis by (auto simp: collectiveAgreementDigestV1_def bindE_Inr_iff canonicalBytes_iff)
qed

definition large_core :: "nat \<Rightarrow> membership" where
  "large_core f = \<lparr>me_schemaVersion = 1, me_epoch = 1, me_configurationDigest = [], me_faultThreshold = int f,
     me_validators = map (\<lambda>n. \<lparr>va_peerId = [char_of (97 + n div 26), char_of (97 + n mod 26)],
       va_instanceId = ''n'', va_keyId = ''k''\<rparr>) [0..<3 * f + 1]\<rparr>"

definition large_membership :: "nat \<Rightarrow> membership" where
  "large_membership f = (large_core f)\<lparr>me_configurationDigest := sample_hash (JObj (membership_body (large_core f)))\<rparr>"

lemma large_body_ok:
  assumes "f \<le> 42" "length (show_int (int f)) \<le> 2"
  shows "plain_json (JObj (membership_body (large_core f)))" "mesh_fits DEFAULT_MESH_PROTOCOL_LIMITS 0 (JObj (membership_body (large_core f)))"
    "object_keys (JObj (membership_body (large_core f))) \<le> 2048" "array_items (JObj (membership_body (large_core f))) \<le> 4096"
    "text_bound (JObj (membership_body (large_core f))) \<le> 262144"
proof -
  have letter: "plain_char (char_of (97 + n div 26))" "plain_char (char_of (97 + n mod 26))" if "n < 3 * f + 1" for n :: nat
  proof -
    have "n div 26 < 26" "n mod 26 < 26" using that assms(1) by simp_all
    then show "plain_char (char_of (97 + n div 26))" "plain_char (char_of (97 + n mod 26))"
      by (simp_all add: plain_char_def Let_def)
  qed
  have n: "isSafeInteger (int f)" "3 * f \<le> 126" using assms(1) by (simp_all add: isSafeInteger_def maximumSafeInteger_def)
  note defs = membership_body_def large_core_def validator_json_def
  show "plain_json (JObj (membership_body (large_core f)))"
    using letter by (simp add: defs list_all_iff plain_char_def del: upt_Suc)
  show "mesh_fits DEFAULT_MESH_PROTOCOL_LIMITS 0 (JObj (membership_body (large_core f)))"
    using letter n by (simp add: defs list_all_iff byteLength_plain plain_char_def del: upt_Suc)
  show "object_keys (JObj (membership_body (large_core f))) \<le> 2048" "array_items (JObj (membership_body (large_core f))) \<le> 4096"
    using n by (simp_all add: defs comp_def sum_list_triv del: upt_Suc)
  show "text_bound (JObj (membership_body (large_core f))) \<le> 262144"
    using n assms(2) by (simp add: defs comp_def sum_list_triv del: upt_Suc)
qed

lemma increasing_upt:
  "(\<And>n. a \<le> n \<Longrightarrow> Suc n < b \<Longrightarrow> g n < g (Suc n)) \<Longrightarrow> increasing (map g [a..<b])"
proof (induction "b - a" arbitrary: a)
  case (Suc k)
  show ?case
  proof (cases "Suc a < b")
    case True
    then have "[a..<b] = a # Suc a # [Suc (Suc a)..<b]" by (simp add: upt_conv_Cons)
    moreover have "increasing (map g [Suc a..<b])" using Suc by (intro Suc(1)) auto
    ultimately show ?thesis using Suc(3)[of a] True by (simp add: upt_conv_Cons)
  next
    case False
    with Suc(2) have "[a..<b] = [a]" by (simp add: upt_conv_Cons)
    then show ?thesis by simp
  qed
qed simp

lemma letters:
  assumes "k < (26 :: nat)"
  shows "is_alnum (char_of (97 + k))" "l < 26 \<Longrightarrow> char_of (97 + k) < (char_of (97 + l) :: char) \<longleftrightarrow> k < l"
proof -
  have "k \<le> 25" using assms by linarith
  then show "is_alnum (char_of (97 + k))" by (simp add: is_alnum_def Let_def)
  show "char_of (97 + k) < (char_of (97 + l) :: char) \<longleftrightarrow> k < l" if "l < 26" using assms that by (simp add: less_char_def)
qed

lemma large_names:
  assumes "n < 127"
  shows "is_identifier [char_of (97 + n div 26), char_of (97 + n mod 26)]"
    "[char_of (97 + n div 26), char_of (97 + n mod 26)] < [char_of (97 + Suc n div 26), char_of (97 + Suc n mod 26) :: char]"
proof -
  have d: "n div 26 < 26" "Suc n div 26 < 26" using assms by simp_all
  have m: "n mod 26 < 26" "Suc n mod 26 < 26" by simp_all
  show "is_identifier [char_of (97 + n div 26), char_of (97 + n mod 26)]"
    using letters(1)[OF d(1)] letters(1)[OF m(1)] by (simp add: is_identifier_def del: of_nat_add)
  have "n div 26 < Suc n div 26 \<or> n div 26 = Suc n div 26 \<and> n mod 26 < Suc n mod 26"
    by (simp add: mod_Suc div_Suc)
  with letters(2)[OF d] letters(2)[OF m]
  show "[char_of (97 + n div 26), char_of (97 + n mod 26)] < [char_of (97 + Suc n div 26), char_of (97 + Suc n mod 26) :: char]"
    unfolding Cons_less_Cons by metis
qed

lemma large_membership_valid:
  assumes "1 \<le> f" "f \<le> 42"
  shows "validateCollectiveAgreementMembershipV1 sample_platform (large_membership f) = Some (large_membership f)"
proof -
  have body: "membership_body (large_membership f) = membership_body (large_core f)"
    by (simp add: membership_body_def large_membership_def)
  have "list_all (\<lambda>k. length (show_int (int k)) \<le> 2) [0..<43]" by code_simp
  with assms have "length (show_int (int f)) \<le> 2" by (simp add: list_all_iff del: upt_rec_numeral)
  note d = sample_digest[OF mesh_ok_plain[OF large_body_ok[OF assms(2) this]]]
  have names: "increasing (map va_peerId (me_validators (large_core f)))"
    using large_names(2) assms by (auto simp: large_core_def comp_def simp del: upt_Suc intro!: increasing_upt)
  have ids: "\<not> list_ex (\<lambda>v. \<not> is_identifier (va_peerId v) \<or> \<not> is_identifier (va_instanceId v) \<or> \<not> is_identifier (va_keyId v))
        (me_validators (large_core f))"
  proof -
    have "is_identifier ''n''" "is_identifier ''k''" by code_simp+
    with large_names(1) assms show ?thesis by (auto simp: large_core_def list_ex_iff simp del: upt_Suc)
  qed
  have f: "me_validators (large_membership f) = me_validators (large_core f)" "me_schemaVersion (large_membership f) = 1"
    "me_epoch (large_membership f) = 1" "me_faultThreshold (large_membership f) = int f"
    "me_configurationDigest (large_membership f) = sample_hash (JObj (membership_body (large_core f)))"
    "length (me_validators (large_core f)) = 3 * f + 1"
    by (simp_all add: large_membership_def large_core_def)
  show ?thesis
    unfolding validateCollectiveAgreementMembershipV1_def body d f
    using names ids assms by (simp add: ag_positive_def ag_nonnegative_def isSafeInteger_def maximumSafeInteger_def)
qed



end
