(* ===== verification/MeshUtf8.thy ===== *)
theory MeshUtf8
  imports MeshJson
begin

text \<open>
  What the mesh protocol uses of the platform's text coding: \<open>TextEncoder\<close> and the fatal
  \<open>TextDecoder\<close> with \<open>ignoreBOM\<close> (\<open>packages/mesh-protocol/src/strict-json.ts\<close>), on the UTF-16
  code units of a string and the bytes of an array, both as natural numbers. The encoder
  replaces a lone surrogate by U+FFFD; the decoder refuses every ill-formed sequence (overlong
  forms, surrogates, values above U+10FFFF, truncation) and keeps a byte order mark. The two are
  inverse to each other on well-formed texts.
\<close>

subsection \<open>Encoder and decoder\<close>

type_synonym units = "nat list"

abbreviation high_surrogate :: "nat \<Rightarrow> bool" where
  "high_surrogate c \<equiv> 0xd800 \<le> c \<and> c \<le> 0xdbff"

abbreviation low_surrogate :: "nat \<Rightarrow> bool" where
  "low_surrogate c \<equiv> 0xdc00 \<le> c \<and> c \<le> 0xdfff"

definition utf8_char :: "nat \<Rightarrow> nat list" where
  "utf8_char n =
     (if n < 0x80 then [n]
      else if n < 0x800 then [0xc0 + n div 64, 0x80 + n mod 64]
      else if n < 0x10000 then [0xe0 + n div 4096, 0x80 + n div 64 mod 64, 0x80 + n mod 64]
      else [0xf0 + n div 262144, 0x80 + n div 4096 mod 64, 0x80 + n div 64 mod 64, 0x80 + n mod 64])"

fun utf8_encode :: "units \<Rightarrow> nat list" where
  "utf8_encode [] = []"
| "utf8_encode (code # rest) =
     (if high_surrogate code then
        (case rest of
           [] \<Rightarrow> utf8_char 0xfffd
         | low # rest' \<Rightarrow>
             if low_surrogate low
             then utf8_char (0x10000 + (code - 0xd800) * 1024 + (low - 0xdc00)) @ utf8_encode rest'
             else utf8_char 0xfffd @ utf8_encode rest)
      else if low_surrogate code then utf8_char 0xfffd @ utf8_encode rest
      else utf8_char code @ utf8_encode rest)"

definition utf8_length :: "units \<Rightarrow> nat" where
  "utf8_length s = length (utf8_encode s)"

abbreviation continuation :: "nat \<Rightarrow> bool" where
  "continuation b \<equiv> 0x80 \<le> b \<and> b \<le> 0xbf"

definition units_of_code_point :: "nat \<Rightarrow> units" where
  "units_of_code_point n =
     (if n < 0x10000 then [n]
      else [0xd800 + (n - 0x10000) div 1024, 0xdc00 + (n - 0x10000) mod 1024])"

text \<open>The code point at the front of the bytes, and the bytes behind it.\<close>

fun utf8_next :: "nat list \<Rightarrow> (nat \<times> nat list) option" where
  "utf8_next [] = None"
| "utf8_next (b0 # bs) =
     (if b0 < 0x80 then Some (b0, bs)
      else case bs of
        [] \<Rightarrow> None
      | b1 # bs1 \<Rightarrow>
          if 0xc2 \<le> b0 \<and> b0 \<le> 0xdf \<and> continuation b1
          then Some ((b0 - 0xc0) * 64 + (b1 - 0x80), bs1)
          else case bs1 of
            [] \<Rightarrow> None
          | b2 # bs2 \<Rightarrow>
              if 0xe0 \<le> b0 \<and> b0 \<le> 0xef \<and> continuation b1 \<and> continuation b2
                \<and> (b0 = 0xe0 \<longrightarrow> 0xa0 \<le> b1) \<and> (b0 = 0xed \<longrightarrow> b1 \<le> 0x9f)
              then Some ((b0 - 0xe0) * 4096 + (b1 - 0x80) * 64 + (b2 - 0x80), bs2)
              else case bs2 of
                [] \<Rightarrow> None
              | b3 # bs3 \<Rightarrow>
                  if 0xf0 \<le> b0 \<and> b0 \<le> 0xf4 \<and> continuation b1 \<and> continuation b2 \<and> continuation b3
                    \<and> (b0 = 0xf0 \<longrightarrow> 0x90 \<le> b1) \<and> (b0 = 0xf4 \<longrightarrow> b1 \<le> 0x8f)
                  then Some ((b0 - 0xf0) * 262144 + (b1 - 0x80) * 4096 + (b2 - 0x80) * 64 + (b3 - 0x80), bs3)
                  else None)"

lemma utf8_next_shorter: "utf8_next bs = Some (n, rest) \<Longrightarrow> length rest < length bs"
  by (induction bs rule: utf8_next.induct) (auto split: list.splits if_splits)

function utf8_decode :: "nat list \<Rightarrow> units option" where
  "utf8_decode bs =
     (if bs = [] then Some []
      else case utf8_next bs of
        None \<Rightarrow> None
      | Some (n, rest) \<Rightarrow> map_option ((@) (units_of_code_point n)) (utf8_decode rest))"
  by auto
termination
  by (relation "measure length") (auto dest: utf8_next_shorter)

declare utf8_decode.simps [simp del]

lemma utf8_decode_Nil [simp]: "utf8_decode [] = Some []"
  by (simp add: utf8_decode.simps)

subsection \<open>The two are inverse\<close>

text \<open>A scalar value is a code point that is not a surrogate.\<close>

abbreviation scalar :: "nat \<Rightarrow> bool" where
  "scalar n \<equiv> n < 0x110000 \<and> \<not> (0xd800 \<le> n \<and> n \<le> 0xdfff)"

lemma base_64: "n = n div 4096 * 4096 + n div 64 mod 64 * 64 + n mod (64 :: nat)"
proof -
  have "n div 64 div 64 = n div 4096" by (simp add: div_mult2_eq [of n 64 64, simplified])
  then show ?thesis
    using div_mult_mod_eq[of n 64] div_mult_mod_eq[of "n div 64" 64] by linarith
qed

lemma base_64_4: "n = n div 262144 * 262144 + n div 4096 mod 64 * 4096 + n div 64 mod 64 * 64 + n mod (64 :: nat)"
proof -
  have "n div 4096 div 64 = n div 262144" by (simp add: div_mult2_eq [of n 4096 64, simplified])
  then show ?thesis using base_64[of n] div_mult_mod_eq[of "n div 4096" 64] by linarith
qed

lemma utf8_char_not_Nil [simp]: "utf8_char n \<noteq> []"
  by (simp add: utf8_char_def)

lemma utf8_next_char: "scalar n \<Longrightarrow> utf8_next (utf8_char n @ bs) = Some (n, bs)"
proof -
  assume s: "scalar n"
  consider "n < 0x80" | "0x80 \<le> n" "n < 0x800" | "0x800 \<le> n" "n < 0x10000" | "0x10000 \<le> n"
    by linarith
  then show ?thesis
  proof cases
    case 1
    then show ?thesis by (simp add: utf8_char_def)
  next
    case 2
    define a c where "a = n div 64" and "c = n mod 64"
    have n: "n = a * 64 + c" by (simp add: a_def c_def)
    have "2 \<le> a" "a < 32" "c < 64" using 2 by (simp_all add: a_def c_def)
    moreover have "utf8_char n = [0xc0 + a, 0x80 + c]" using 2 by (simp add: utf8_char_def a_def c_def)
    ultimately show ?thesis using n by simp
  next
    case 3
    define a b c where "a = n div 4096" and "b = n div 64 mod 64" and "c = n mod 64"
    have n: "n = a * 4096 + b * 64 + c"
      unfolding a_def b_def c_def by (rule base_64)
    have bs: "b < 64" "c < 64" by (simp_all add: b_def c_def)
    have "a < 16" using 3 by (simp add: a_def)
    moreover have "a = 0 \<longrightarrow> 32 \<le> b" using 3 n bs by linarith
    moreover have "a = 13 \<longrightarrow> b \<le> 31" using s n bs by linarith
    moreover have "utf8_char n = [0xe0 + a, 0x80 + b, 0x80 + c]"
      using 3 by (simp add: utf8_char_def a_def b_def c_def)
    ultimately show ?thesis using bs n by simp
  next
    case 4
    define a b c d where "a = n div 262144" and "b = n div 4096 mod 64" and "c = n div 64 mod 64" and "d = n mod 64"
    have n: "n = a * 262144 + b * 4096 + c * 64 + d"
      unfolding a_def b_def c_def d_def by (rule base_64_4)
    have bs: "b < 64" "c < 64" "d < 64" by (simp_all add: b_def c_def d_def)
    have "a \<le> 4" using s n by linarith
    moreover have "a = 0 \<longrightarrow> 16 \<le> b" using 4 n bs by linarith
    moreover have "a = 4 \<longrightarrow> b \<le> 15" using s n bs by linarith
    moreover have "utf8_char n = [0xf0 + a, 0x80 + b, 0x80 + c, 0x80 + d]"
      using 4 by (simp add: utf8_char_def a_def b_def c_def d_def)
    ultimately show ?thesis using bs n by simp
  qed
qed

lemma mod_64: "c < 64 \<Longrightarrow> n = k * 64 + c \<Longrightarrow> n mod 64 = (c :: nat)"
  by simp

lemma utf8_char_2: "2 \<le> a \<Longrightarrow> a < 32 \<Longrightarrow> c < 64 \<Longrightarrow> utf8_char (a * 64 + c) = [0xc0 + a, 0x80 + c]"
  by (simp add: utf8_char_def)

lemma utf8_char_3:
  assumes "a < 16" "b < 64" "c < 64" "a = 0 \<longrightarrow> 32 \<le> b"
  shows "utf8_char (a * 4096 + b * 64 + c) = [0xe0 + a, 0x80 + b, 0x80 + c]"
proof -
  have "0x800 \<le> a * 4096 + b * 64 + c" "a * 4096 + b * 64 + c < 0x10000" using assms by (cases a; simp)+
  moreover have "(a * 4096 + b * 64 + c) div 4096 = a" using assms by simp
  moreover have "(a * 4096 + b * 64 + c) div 64 = a * 64 + b" using assms by simp
  moreover have "(a * 4096 + b * 64 + c) mod 64 = c" by (rule mod_64[OF assms(3), of _ "a * 64 + b"]) simp
  ultimately show ?thesis using assms by (simp add: utf8_char_def)
qed

lemma utf8_char_4:
  assumes "a < 5" "b < 64" "c < 64" "d < 64" "a = 0 \<longrightarrow> 16 \<le> b"
  shows "utf8_char (a * 262144 + b * 4096 + c * 64 + d) = [0xf0 + a, 0x80 + b, 0x80 + c, 0x80 + d]"
proof -
  let ?n = "a * 262144 + b * 4096 + c * 64 + d"
  have "0x10000 \<le> ?n" using assms by (cases a) simp_all
  moreover have "?n div 262144 = a" "?n div 4096 = a * 64 + b" "?n div 64 = a * 4096 + b * 64 + c"
    using assms by simp_all
  moreover have "(a * 4096 + b * 64 + c) mod 64 = c" by (rule mod_64[OF assms(3), of _ "a * 64 + b"]) simp
  moreover have "?n mod 64 = d" by (rule mod_64[OF assms(4), of _ "a * 4096 + b * 64 + c"]) simp
  ultimately show ?thesis using assms by (simp add: utf8_char_def)
qed

lemma utf8_char_next:
  assumes "utf8_next bs = Some (n, rest)"
  shows "scalar n \<and> bs = utf8_char n @ rest"
proof -
  from assms obtain b0 bs1 where b: "bs = b0 # bs1" by (cases bs) auto
  show ?thesis
  proof (cases "b0 < 0x80")
    case True
    with assms show ?thesis by (auto simp: b utf8_char_def)
  next
    case False
    with assms obtain b1 bs2 where b1: "bs1 = b1 # bs2" by (cases bs1) (auto simp: b)
    show ?thesis
    proof (cases "0xc2 \<le> b0 \<and> b0 \<le> 0xdf \<and> continuation b1")
      case True
      with False assms have "n = (b0 - 0xc0) * 64 + (b1 - 0x80)" "rest = bs2" by (auto simp: b b1)
      with True utf8_char_2[of "b0 - 0xc0" "b1 - 0x80"] show ?thesis by (auto simp: b b1)
    next
      case 2: False
      with False assms obtain b2 bs3 where b2: "bs2 = b2 # bs3"
        by (cases bs2) (auto simp: b b1 split: if_splits)
      show ?thesis
      proof (cases "0xe0 \<le> b0 \<and> b0 \<le> 0xef \<and> continuation b1 \<and> continuation b2
          \<and> (b0 = 0xe0 \<longrightarrow> 0xa0 \<le> b1) \<and> (b0 = 0xed \<longrightarrow> b1 \<le> 0x9f)")
        case True
        with False 2 assms have n: "n = (b0 - 0xe0) * 4096 + (b1 - 0x80) * 64 + (b2 - 0x80)" "rest = bs3"
          by (auto simp: b b1 b2)
        obtain x y z where xyz: "b0 = 0xe0 + x" "b1 = 0x80 + y" "b2 = 0x80 + z"
          using True by (metis le_Suc_ex)
        then have "x < 16" "y < 64" "z < 64" "x = 0 \<longrightarrow> 32 \<le> y" "x = 13 \<longrightarrow> y < 32" using True by auto
        moreover from this have "\<not> (0xd800 \<le> x * 4096 + y * 64 + z \<and> x * 4096 + y * 64 + z \<le> 0xdfff)"
          by (cases "x = 13") linarith+
        ultimately show ?thesis using n xyz utf8_char_3[of x y z] by (simp add: b b1 b2)
      next
        case 3: False
        with False 2 assms obtain b3 bs4 where b3: "bs3 = b3 # bs4"
          by (cases bs3) (auto simp: b b1 b2 split: if_splits)
        with False 2 3 assms have
          c: "0xf0 \<le> b0 \<and> b0 \<le> 0xf4 \<and> continuation b1 \<and> continuation b2 \<and> continuation b3
            \<and> (b0 = 0xf0 \<longrightarrow> 0x90 \<le> b1) \<and> (b0 = 0xf4 \<longrightarrow> b1 \<le> 0x8f)"
          and n: "n = (b0 - 0xf0) * 262144 + (b1 - 0x80) * 4096 + (b2 - 0x80) * 64 + (b3 - 0x80)"
            "rest = bs4"
          by (auto simp: b b1 b2 split: if_splits)
        obtain x y z w where xyz: "b0 = 0xf0 + x" "b1 = 0x80 + y" "b2 = 0x80 + z" "b3 = 0x80 + w"
          using c by (metis le_Suc_ex)
        then have "x < 5" "y < 64" "z < 64" "w < 64" "x = 0 \<longrightarrow> 16 \<le> y" "x = 4 \<longrightarrow> y < 16" using c by auto
        with n xyz utf8_char_4[of x y z w] show ?thesis by (auto simp: b b1 b2 b3)
      qed
    qed
  qed
qed

text \<open>Lists of UTF-16 code units, and of bytes.\<close>

definition is_units :: "units \<Rightarrow> bool" where
  "is_units s \<longleftrightarrow> list_all (\<lambda>c. c < 0x10000) s"

lemma is_units_simps [simp]: "is_units []" "is_units (c # s) \<longleftrightarrow> c < 0x10000 \<and> is_units s"
  "is_units (s @ t) \<longleftrightarrow> is_units s \<and> is_units t"
  by (simp_all add: is_units_def)

lemma utf8_decode_char: "scalar n \<Longrightarrow>
  utf8_decode (utf8_char n @ bs) = map_option ((@) (units_of_code_point n)) (utf8_decode bs)"
  by (subst utf8_decode.simps) (simp add: utf8_next_char)

lemma surrogate_pair:
  assumes "high_surrogate h" "low_surrogate l"
  shows "scalar (0x10000 + (h - 0xd800) * 1024 + (l - 0xdc00))"
    "units_of_code_point (0x10000 + (h - 0xd800) * 1024 + (l - 0xdc00)) = [h, l]"
proof -
  obtain x y where "h = 0xd800 + x" "l = 0xdc00 + y" using assms by (metis le_Suc_ex)
  then show "scalar (0x10000 + (h - 0xd800) * 1024 + (l - 0xdc00))"
    "units_of_code_point (0x10000 + (h - 0xd800) * 1024 + (l - 0xdc00)) = [h, l]"
    using assms by (simp_all add: units_of_code_point_def)
qed

lemma utf8_decode_encode:
  "isWellFormedUnicode s \<Longrightarrow> is_units s \<Longrightarrow> utf8_decode (utf8_encode s) = Some s"
proof (induction s rule: utf8_encode.induct)
  case (2 code rest)
  show ?case
  proof (cases "high_surrogate code")
    case True
    with "2.prems" obtain low rest' where r: "rest = low # rest'" "low_surrogate low" "isWellFormedUnicode rest'"
      by (cases rest) (auto split: if_splits)
    with "2.IH" "2.prems" True have "utf8_decode (utf8_encode rest') = Some rest'" by auto
    moreover have "utf8_encode (code # rest) =
        utf8_char (0x10000 + (code - 0xd800) * 1024 + (low - 0xdc00)) @ utf8_encode rest'"
      using True r by simp
    ultimately show ?thesis
      by (simp only: utf8_decode_char[OF surrogate_pair(1)[OF True r(2)]] surrogate_pair(2)[OF True r(2)] r)
        simp
  next
    case False
    with "2.prems" have n: "\<not> low_surrogate code" "isWellFormedUnicode rest"
      by (auto split: if_splits list.splits)
    then have "utf8_decode (utf8_encode rest) = Some rest" using "2.IH" "2.prems" False by auto
    moreover have "scalar code" using False n "2.prems" by auto
    moreover have "utf8_encode (code # rest) = utf8_char code @ utf8_encode rest" using False n by auto
    ultimately show ?thesis using "2.prems"
      by (simp add: utf8_decode_char units_of_code_point_def del: utf8_encode.simps isWellFormedUnicode.simps)
  qed
qed simp

lemma scalar_units:
  assumes "scalar n"
  shows "utf8_encode (units_of_code_point n @ s) = utf8_char n @ utf8_encode s"
    "isWellFormedUnicode (units_of_code_point n @ s) = isWellFormedUnicode s"
    "is_units (units_of_code_point n)"
proof -
  have "utf8_encode (units_of_code_point n @ s) = utf8_char n @ utf8_encode s
    \<and> isWellFormedUnicode (units_of_code_point n @ s) = isWellFormedUnicode s \<and> is_units (units_of_code_point n)"
  proof (cases "n < 0x10000")
    case True
    with assms show ?thesis by (auto simp: units_of_code_point_def)
  next
    case False
    then obtain m where n: "n = 0x10000 + m" by (metis le_Suc_ex not_less)
    with assms have "m div 1024 < 1024" by simp
    moreover have "m mod 1024 \<le> 1023" using mod_less_divisor[of 1024 m] by linarith
    moreover have "m div 1024 * 1024 + m mod 1024 = m" by simp
    ultimately show ?thesis by (simp add: n units_of_code_point_def add.commute)
  qed
  then show "utf8_encode (units_of_code_point n @ s) = utf8_char n @ utf8_encode s"
    "isWellFormedUnicode (units_of_code_point n @ s) = isWellFormedUnicode s"
    "is_units (units_of_code_point n)" by simp_all
qed

lemma utf8_encode_decode:
  "utf8_decode bs = Some s \<Longrightarrow> utf8_encode s = bs \<and> isWellFormedUnicode s \<and> is_units s"
proof (induction bs arbitrary: s rule: utf8_decode.induct)
  case (1 bs)
  show ?case
  proof (cases "bs = []")
    case False
    with "1.prems" obtain n rest t where n: "utf8_next bs = Some (n, rest)" "utf8_decode rest = Some t"
        "s = units_of_code_point n @ t"
      by (subst (asm) utf8_decode.simps) (auto split: option.splits)
    with "1.IH"[OF False n(1) refl n(2)] utf8_char_next[OF n(1)] show ?thesis
      by (simp add: scalar_units)
  qed (use "1.prems" in simp)
qed

theorem utf8_decode_iff:
  "utf8_decode bs = Some s \<longleftrightarrow> isWellFormedUnicode s \<and> is_units s \<and> bs = utf8_encode s"
  using utf8_decode_encode utf8_encode_decode by blast

end
