(* ===== verification/MeshParse.thy ===== *)
theory MeshParse
  imports MeshUtf8
begin

text \<open>
  The strict JSON parser of the mesh protocol (\<open>packages/mesh-protocol/src/strict-json.ts\<close>),
  through which every message from the network passes: \<open>StrictJsonParser\<close> with its counters,
  its limits and the path of a failure. The parser's \<open>source\<close> and \<open>index\<close> are represented by
  the text that remains, \<open>source.slice(index)\<close>. A number is kept as its lexeme and stands for
  the double nearest to it, \<open>Number(lexeme)\<close>.
\<close>

subsection \<open>Values, failures and paths\<close>

datatype strict_value =
    SNull
  | SBool bool
  | SNum units
  | SStr units
  | SArr "strict_value list"
  | SObj "(units \<times> strict_value) list"

datatype strict_json_error_code = Invalid_json | Duplicate_object_key | Structural_limit_exceeded

datatype path_part = PKey units | PIndex nat

type_synonym path = "path_part list"
type_synonym strict_json_failure = "strict_json_error_code \<times> units"

text \<open>\<open>JSON.stringify\<close> of a string, in which lone surrogates are escaped.\<close>

definition hex_unit :: "nat \<Rightarrow> nat" where
  "hex_unit n = (if n < 10 then 48 + n else 87 + n)"

definition escape_u :: "nat \<Rightarrow> units" where
  "escape_u c = [92, 117, hex_unit (c div 4096), hex_unit (c div 256 mod 16),
     hex_unit (c div 16 mod 16), hex_unit (c mod 16)]"

definition escape_unit :: "nat \<Rightarrow> units" where
  "escape_unit c =
     (if c = 34 then [92, 34]
      else if c = 92 then [92, 92]
      else if c = 8 then [92, 98]
      else if c = 9 then [92, 116]
      else if c = 10 then [92, 110]
      else if c = 12 then [92, 102]
      else if c = 13 then [92, 114]
      else if c < 32 then escape_u c
      else [c])"

fun stringify_body :: "units \<Rightarrow> units" where
  "stringify_body [] = []"
| "stringify_body (code # rest) =
     (if high_surrogate code then
        (case rest of
           [] \<Rightarrow> escape_u code
         | low # rest' \<Rightarrow>
             if low_surrogate low then code # low # stringify_body rest'
             else escape_u code @ stringify_body rest)
      else if low_surrogate code then escape_u code @ stringify_body rest
      else escape_unit code @ stringify_body rest)"

definition stringify_units :: "units \<Rightarrow> units" where
  "stringify_units s = 34 # stringify_body s @ [34]"

fun part_text :: "path_part \<Rightarrow> units" where
  "part_text (PIndex n) = 91 # code_units (digits_nat n) @ [93]"
| "part_text (PKey key) = 91 # stringify_units key @ [93]"

definition truncatePath :: "units \<Rightarrow> units" where
  "truncatePath path =
     (let finalCodeUnit = path ! (253 - 1);
          end_index = (if high_surrogate finalCodeUnit then 253 - 1 else 253)
      in take end_index path @ [46, 46, 46])"

fun format_parts :: "units \<Rightarrow> path \<Rightarrow> units" where
  "format_parts formatted [] = formatted"
| "format_parts formatted (part # rest) =
     (let formatted = formatted @ part_text part
      in if length formatted > 256 then truncatePath formatted else format_parts formatted rest)"

definition formatJsonPath :: "path \<Rightarrow> units" where
  "formatJsonPath path = format_parts [36] path"

definition fail_at :: "strict_json_error_code \<Rightarrow> path \<Rightarrow> strict_json_failure + 'a" where
  "fail_at code path = Inl (code, formatJsonPath path)"

subsection \<open>The state of the parser\<close>

record parser =
  remaining :: units
  totalObjectKeys :: nat
  totalArrayItems :: nat
  payloadByteLength :: "nat option"

definition new_parser :: "units \<Rightarrow> parser" where
  "new_parser source = \<lparr>remaining = source, totalObjectKeys = 0, totalArrayItems = 0, payloadByteLength = None\<rparr>"

text \<open>\<open>this.source[this.index]\<close>, and advancing the index.\<close>

definition current :: "parser \<Rightarrow> nat option" where
  "current p = (case remaining p of [] \<Rightarrow> None | c # _ \<Rightarrow> Some c)"

definition advance :: "nat \<Rightarrow> parser \<Rightarrow> parser" where
  "advance n p = p\<lparr>remaining := drop n (remaining p)\<rparr>"

definition is_whitespace :: "nat \<Rightarrow> bool" where
  "is_whitespace c \<longleftrightarrow> c = 32 \<or> c = 10 \<or> c = 13 \<or> c = 9"

definition skipWhitespace :: "parser \<Rightarrow> parser" where
  "skipWhitespace p = p\<lparr>remaining := dropWhile is_whitespace (remaining p)\<rparr>"

definition assertDepth :: "strict_json_limits \<Rightarrow> nat \<Rightarrow> path \<Rightarrow> strict_json_failure + unit" where
  "assertDepth L depth path =
     (if depth > maximumNestingDepth L then fail_at Structural_limit_exceeded path else Inr ())"

definition parseLiteral :: "string \<Rightarrow> strict_value \<Rightarrow> path \<Rightarrow> parser \<Rightarrow> strict_json_failure + strict_value \<times> parser" where
  "parseLiteral word value path p =
     (if take (length word) (remaining p) \<noteq> code_units word then fail_at Invalid_json path
      else Inr (value, advance (length word) p))"

subsection \<open>Strings\<close>

definition is_hex :: "nat \<Rightarrow> bool" where
  "is_hex c \<longleftrightarrow> 48 \<le> c \<and> c \<le> 57 \<or> 97 \<le> c \<and> c \<le> 102 \<or> 65 \<le> c \<and> c \<le> 70"

definition hex_value :: "nat \<Rightarrow> nat" where
  "hex_value c = (if c \<le> 57 then c - 48 else if c \<le> 70 then c - 55 else c - 87)"

text \<open>The escapes \<open>\"\<close>, \<open>\\\<close>, \<open>/\<close>, \<open>b\<close>, \<open>f\<close>, \<open>n\<close>, \<open>r\<close>, \<open>t\<close> and what they stand for.\<close>

definition escapes :: "(nat \<times> nat) list" where
  "escapes = [(34, 34), (92, 92), (47, 47), (98, 8), (102, 12), (110, 10), (114, 13), (116, 9)]"

text \<open>The loop of \<open>parseString\<close> behind the opening quote: the text behind the closing one.\<close>

function (sequential) scan_string :: "units \<Rightarrow> units option" where
  "scan_string [] = None"
| "scan_string (code # cs) =
     (if code = 0x22 then Some cs
      else if code \<le> 0x1f then None
      else if code = 0x5c then
        (case cs of
           [] \<Rightarrow> None
         | escape # cs' \<Rightarrow>
             if escape = 117 then
               (if length (take 4 cs') = 4 \<and> list_all is_hex (take 4 cs') then scan_string (drop 4 cs') else None)
             else if map_of escapes escape = None then None
             else scan_string cs')
      else scan_string cs)"
  by pat_completeness auto
termination
  by (relation "measure length") auto

text \<open>\<open>JSON.parse\<close> of a text that starts with a quote: the string literal it is, if it is one.\<close>

function (sequential) json_parse_body :: "units \<Rightarrow> units option" where
  "json_parse_body [] = None"
| "json_parse_body (code # cs) =
     (if code = 34 then (if cs = [] then Some [] else None)
      else if code < 32 then None
      else if code = 92 then
        (case cs of
           [] \<Rightarrow> None
         | escape # cs' \<Rightarrow>
             if escape = 117 then
               (case cs' of
                  a # b # c # d # cs'' \<Rightarrow>
                    if list_all is_hex [a, b, c, d]
                    then map_option ((#) (hex_value a * 4096 + hex_value b * 256 + hex_value c * 16 + hex_value d))
                           (json_parse_body cs'')
                    else None
                | _ \<Rightarrow> None)
             else case map_of escapes escape of
                 None \<Rightarrow> None
               | Some value \<Rightarrow> map_option ((#) value) (json_parse_body cs'))
      else map_option ((#) code) (json_parse_body cs))"
  by pat_completeness auto
termination
  by (relation "measure length") auto

definition json_parse_string :: "units \<Rightarrow> units option" where
  "json_parse_string raw = (case raw of [] \<Rightarrow> None | c # body \<Rightarrow> if c = 34 then json_parse_body body else None)"

definition parseString :: "strict_json_limits \<Rightarrow> path \<Rightarrow> parser \<Rightarrow> strict_json_failure + units \<times> parser" where
  "parseString L path p =
     (case scan_string (drop 1 (remaining p)) of
        None \<Rightarrow> fail_at Invalid_json path
      | Some after \<Rightarrow>
          let raw = take (length (remaining p) - length after) (remaining p) in
          case json_parse_string raw of
            None \<Rightarrow> fail_at Invalid_json path
          | Some value \<Rightarrow>
              if \<not> isWellFormedUnicode value \<or> utf8_length value > maximumStringBytes L
              then fail_at (if isWellFormedUnicode value then Structural_limit_exceeded else Invalid_json) path
              else Inr (value, p\<lparr>remaining := after\<rparr>))"

subsection \<open>Numbers\<close>

definition digit_unit :: "nat \<Rightarrow> bool" where
  "digit_unit c \<longleftrightarrow> 48 \<le> c \<and> c \<le> 57"

text \<open>
  The groups of \<open>numberPattern\<close>. Each is greedy and none can give characters back to a later
  one, so matching needs no backtracking: an optional group that does not match is empty.
\<close>

definition match_integer :: "units \<Rightarrow> (units \<times> units) option" where
  "match_integer s = (case s of
      [] \<Rightarrow> None
    | c # cs \<Rightarrow>
        if c = 48 then Some ([c], cs)
        else if digit_unit c then Some (c # takeWhile digit_unit cs, dropWhile digit_unit cs)
        else None)"

definition match_fraction :: "units \<Rightarrow> units \<times> units" where
  "match_fraction s = (case s of
      [] \<Rightarrow> ([], s)
    | c # cs \<Rightarrow>
        if c = 46 \<and> takeWhile digit_unit cs \<noteq> [] then (c # takeWhile digit_unit cs, dropWhile digit_unit cs)
        else ([], s))"

definition match_sign :: "nat list \<Rightarrow> units \<Rightarrow> units \<times> units" where
  "match_sign signs s = (case s of [] \<Rightarrow> ([], s) | c # cs \<Rightarrow> if c \<in> set signs then ([c], cs) else ([], s))"

definition match_exponent :: "units \<Rightarrow> units \<times> units" where
  "match_exponent s = (case s of
      [] \<Rightarrow> ([], s)
    | c # cs \<Rightarrow>
        let (sign, ds) = match_sign [43, 45] cs in
        if (c = 101 \<or> c = 69) \<and> takeWhile digit_unit ds \<noteq> []
        then (c # sign @ takeWhile digit_unit ds, dropWhile digit_unit ds)
        else ([], s))"

record number_match =
  sign_part :: units
  integer_part :: units
  fraction_part :: units
  exponent_part :: units

definition match_number :: "units \<Rightarrow> (number_match \<times> units) option" where
  "match_number s =
     (let (sign, s) = match_sign [45] s in
      case match_integer s of
        None \<Rightarrow> None
      | Some (whole, s) \<Rightarrow>
          let (frac, s) = match_fraction s; (exponent, s) = match_exponent s
          in Some (\<lparr>sign_part = sign, integer_part = whole, fraction_part = frac, exponent_part = exponent\<rparr>, s))"

definition lexeme :: "number_match \<Rightarrow> units" where
  "lexeme m = sign_part m @ integer_part m @ fraction_part m @ exponent_part m"

definition units_value :: "units \<Rightarrow> int" where
  "units_value ds = foldl (\<lambda>n d. 10 * n + int (d - 48)) 0 ds"

definition exponent_value :: "units \<Rightarrow> int" where
  "exponent_value e =
     (let (sign, ds) = match_sign [43, 45] (drop 1 e)
      in if sign = [45] then - units_value ds else units_value ds)"

text \<open>
  \<open>Number.isFinite(Number(match[0]))\<close>: the lexeme denotes \<open>m * 10 ^ e\<close>, and a double
  is finite if and only if the magnitude is below the midpoint of the largest double and \<open>2 ^ 1024\<close>.
\<close>

definition number_finite :: "number_match \<Rightarrow> bool" where
  "number_finite n =
     (let m = units_value (integer_part n @ drop 1 (fraction_part n));
          e = exponent_value (exponent_part n) - int (length (drop 1 (fraction_part n)));
          bound = 2 ^ 1024 - 2 ^ 970
      in if 0 \<le> e then m * 10 ^ nat e < bound else m < bound * 10 ^ nat (- e))"

definition parseNumber :: "path \<Rightarrow> parser \<Rightarrow> strict_json_failure + strict_value \<times> parser" where
  "parseNumber path p =
     (case match_number (remaining p) of
        None \<Rightarrow> fail_at Invalid_json path
      | Some (m, after) \<Rightarrow>
          if \<not> number_finite m then fail_at Invalid_json path
          else Inr (SNum (lexeme m), p\<lparr>remaining := after\<rparr>))"

subsection \<open>Values\<close>

text \<open>
  \<open>parseMembers\<close> and \<open>parseItems\<close> are the loops of \<open>parseObject\<close> and \<open>parseArray\<close>; \<open>keys\<close>
  are the keys seen so far (\<open>objectKeyCount\<close> is their number) and \<open>count\<close> is \<open>result.length\<close>.
  The object under construction is the list of its members in the order of the text. The
  recursion ends because of the limits: nesting is bounded by \<open>maximumNestingDepth\<close> and each
  loop by the largest number of keys or items.
\<close>

definition consumed :: "parser \<Rightarrow> parser \<Rightarrow> units" where
  "consumed p q = take (length (remaining p) - length (remaining q)) (remaining p)"

lemma bindE_cong [fundef_cong]:
  "m = m' \<Longrightarrow> (\<And>x. m' = Inr x \<Longrightarrow> f x = g x) \<Longrightarrow> bindE m f = bindE m' g"
  by (cases m') simp_all

function (sequential)
  parseValue :: "strict_json_limits \<Rightarrow> path \<Rightarrow> nat \<Rightarrow> parser \<Rightarrow> strict_json_failure + strict_value \<times> parser"
  and parseObject :: "strict_json_limits \<Rightarrow> path \<Rightarrow> nat \<Rightarrow> parser \<Rightarrow> strict_json_failure + strict_value \<times> parser"
  and parseArray :: "strict_json_limits \<Rightarrow> path \<Rightarrow> nat \<Rightarrow> parser \<Rightarrow> strict_json_failure + strict_value \<times> parser"
  and parseMembers :: "strict_json_limits \<Rightarrow> path \<Rightarrow> nat \<Rightarrow> units list \<Rightarrow> parser \<Rightarrow>
    strict_json_failure + (units \<times> strict_value) list \<times> parser"
  and parseItems :: "strict_json_limits \<Rightarrow> path \<Rightarrow> nat \<Rightarrow> nat \<Rightarrow> parser \<Rightarrow>
    strict_json_failure + strict_value list \<times> parser"
where
  "parseValue L path depth p =
     (case current p of
        None \<Rightarrow> fail_at Invalid_json path
      | Some c \<Rightarrow>
          if c = 123 then parseObject L path (depth + 1) p
          else if c = 91 then parseArray L path (depth + 1) p
          else if c = 34 then bindE (parseString L path p) (\<lambda>(s, p). Inr (SStr s, p))
          else if c = 116 then parseLiteral ''true'' (SBool True) path p
          else if c = 102 then parseLiteral ''false'' (SBool False) path p
          else if c = 110 then parseLiteral ''null'' SNull path p
          else if c = 45 \<or> digit_unit c then parseNumber path p
          else fail_at Invalid_json path)"
| "parseObject L path depth p =
     bindE (assertDepth L depth path) (\<lambda>_.
       let p = skipWhitespace (advance 1 p) in
       if current p = Some 125 then Inr (SObj [], advance 1 p)
       else bindE (parseMembers L path depth [] p) (\<lambda>(members, p). Inr (SObj members, p)))"
| "parseArray L path depth p =
     bindE (assertDepth L depth path) (\<lambda>_.
       let p = skipWhitespace (advance 1 p) in
       if current p = Some 93 then Inr (SArr [], advance 1 p)
       else bindE (parseItems L path depth 0 p) (\<lambda>(items, p). Inr (SArr items, p)))"
| "parseMembers L path depth keys p =
     (if current p \<noteq> Some 34 then fail_at Invalid_json path
      else bindE (parseString L path p) (\<lambda>(key, p).
        let keyPath = path @ [PKey key] in
        if key \<in> set keys then fail_at Duplicate_object_key keyPath
        else let p = p\<lparr>totalObjectKeys := totalObjectKeys p + 1\<rparr> in
        if length keys + 1 > maximumObjectKeys L \<or> totalObjectKeys p > maximumTotalObjectKeys L
        then fail_at Structural_limit_exceeded keyPath
        else let p = skipWhitespace p in
        if current p \<noteq> Some 58 then fail_at Invalid_json keyPath
        else let p = skipWhitespace (advance 1 p) in
        bindE (parseValue L keyPath depth p) (\<lambda>(v, q).
          let q = (if depth = 1 \<and> key = code_units ''payload''
                   then q\<lparr>payloadByteLength := Some (utf8_length (consumed p q))\<rparr> else q);
              q = skipWhitespace q
          in if current q = Some 125 then Inr ([(key, v)], advance 1 q)
             else if current q \<noteq> Some 44 then fail_at Invalid_json path
             else bindE (parseMembers L path depth (keys @ [key]) (skipWhitespace (advance 1 q)))
               (\<lambda>(members, r). Inr ((key, v) # members, r)))))"
| "parseItems L path depth count p =
     (if remaining p = [] then fail_at Invalid_json path
      else if count + 1 > maximumArrayItems L \<or> totalArrayItems p + 1 > maximumTotalArrayItems L
      then fail_at Structural_limit_exceeded (path @ [PIndex count])
      else bindE (parseValue L (path @ [PIndex count]) depth (p\<lparr>totalArrayItems := totalArrayItems p + 1\<rparr>))
        (\<lambda>(v, q).
          let q = skipWhitespace q
          in if current q = Some 93 then Inr ([v], advance 1 q)
             else if current q \<noteq> Some 44 then fail_at Invalid_json path
             else bindE (parseItems L path depth (count + 1) (skipWhitespace (advance 1 q)))
               (\<lambda>(items, r). Inr (v # items, r))))"
  by pat_completeness auto
termination
  by (relation "measures [\<lambda>x. case x of
          Inl (Inl (L, path, d, p)) \<Rightarrow> maximumNestingDepth L + 1 - d
        | Inl (Inr (L, path, d, p)) \<Rightarrow> maximumNestingDepth L + 2 - d
        | Inr (Inl (L, path, d, p)) \<Rightarrow> maximumNestingDepth L + 2 - d
        | Inr (Inr (Inl (L, path, d, keys, p))) \<Rightarrow> maximumNestingDepth L + 1 - d
        | Inr (Inr (Inr (L, path, d, count, p))) \<Rightarrow> maximumNestingDepth L + 1 - d,
      \<lambda>x. case x of
          Inl (Inl (L, path, d, p)) \<Rightarrow> 1
        | Inl (Inr (L, path, d, p)) \<Rightarrow> 0
        | Inr (Inl (L, path, d, p)) \<Rightarrow> 0
        | Inr (Inr (Inl (L, path, d, keys, p))) \<Rightarrow> 2 + (maximumObjectKeys L + 1 - length keys)
        | Inr (Inr (Inr (L, path, d, count, p))) \<Rightarrow> 2 + (maximumArrayItems L + 1 - count)]")
    (auto simp: assertDepth_def fail_at_def split: if_splits)

declare parseValue.simps [simp del] parseObject.simps [simp del] parseArray.simps [simp del]
  parseMembers.simps [simp del] parseItems.simps [simp del]

subsection \<open>Documents\<close>

definition parse_source :: "strict_json_limits \<Rightarrow> units \<Rightarrow> strict_json_failure + strict_value \<times> nat option" where
  "parse_source L source =
     bindE (parseValue L [] 0 (skipWhitespace (new_parser source))) (\<lambda>(v, p).
       let p = skipWhitespace p in
       if remaining p \<noteq> [] then fail_at Invalid_json [] else Inr (v, payloadByteLength p))"

datatype document_input = Text units | Bytes "nat list"

definition parseStrictJsonDocument ::
  "document_input \<Rightarrow> strict_json_limits \<Rightarrow> strict_json_failure + strict_value \<times> nat option" where
  "parseStrictJsonDocument input L =
     (case input of
        Text s \<Rightarrow>
          if utf8_length s > maximumEnvelopeBytes L then fail_at Structural_limit_exceeded []
          else parse_source L s
      | Bytes b \<Rightarrow>
          if length b > maximumEnvelopeBytes L then fail_at Structural_limit_exceeded []
          else case utf8_decode b of None \<Rightarrow> fail_at Invalid_json [] | Some s \<Rightarrow> parse_source L s)"

end
