(* ===== verification/MeshGrammar.thy ===== *)
theory MeshGrammar
  imports MeshParse
begin

text \<open>
  JSON texts as RFC 8259 defines them, as inductive relations between a value and its text, and
  the lexical level of the parser: a string literal or a number is read from the front of the
  text exactly when the grammar has it there.
\<close>

subsection \<open>The grammar\<close>

definition ws :: "units \<Rightarrow> bool" where
  "ws w \<longleftrightarrow> list_all is_whitespace w"

inductive string_text :: "units \<Rightarrow> units \<Rightarrow> bool" where
  string_end: "string_text [] []"
| string_plain: "32 \<le> c \<Longrightarrow> c \<noteq> 34 \<Longrightarrow> c \<noteq> 92 \<Longrightarrow> string_text v t \<Longrightarrow> string_text (c # v) (c # t)"
| string_escape: "map_of escapes e = Some c \<Longrightarrow> string_text v t \<Longrightarrow> string_text (c # v) (92 # e # t)"
| string_unicode: "list_all is_hex [a, b, c, d] \<Longrightarrow> string_text v t \<Longrightarrow>
    string_text ((hex_value a * 4096 + hex_value b * 256 + hex_value c * 16 + hex_value d) # v)
      (92 # 117 # a # b # c # d # t)"

definition number_parts :: "number_match \<Rightarrow> bool" where
  "number_parts m \<longleftrightarrow>
     (sign_part m = [] \<or> sign_part m = [45])
     \<and> (integer_part m = [48]
        \<or> (\<exists>c ds. integer_part m = c # ds \<and> 49 \<le> c \<and> c \<le> 57 \<and> list_all digit_unit ds))
     \<and> (fraction_part m = [] \<or> (\<exists>ds. fraction_part m = 46 # ds \<and> ds \<noteq> [] \<and> list_all digit_unit ds))
     \<and> (exponent_part m = [] \<or> (\<exists>c sign ds. exponent_part m = c # sign @ ds \<and> (c = 101 \<or> c = 69)
        \<and> (sign = [] \<or> sign = [43] \<or> sign = [45]) \<and> ds \<noteq> [] \<and> list_all digit_unit ds))"

definition number_text :: "units \<Rightarrow> bool" where
  "number_text s \<longleftrightarrow> (\<exists>m. number_parts m \<and> s = lexeme m)"

inductive value_text :: "strict_value \<Rightarrow> units \<Rightarrow> bool"
  and items_text :: "strict_value list \<Rightarrow> units \<Rightarrow> bool"
  and member_text :: "units \<times> strict_value \<Rightarrow> units \<Rightarrow> bool"
  and members_text :: "(units \<times> strict_value) list \<Rightarrow> units \<Rightarrow> bool"
where
  text_null: "value_text SNull (code_units ''null'')"
| text_true: "value_text (SBool True) (code_units ''true'')"
| text_false: "value_text (SBool False) (code_units ''false'')"
| text_number: "number_text s \<Longrightarrow> value_text (SNum s) s"
| text_string: "string_text v t \<Longrightarrow> value_text (SStr v) (34 # t @ [34])"
| text_array_empty: "ws w \<Longrightarrow> value_text (SArr []) (91 # w @ [93])"
| text_array: "ws w \<Longrightarrow> items_text vs s \<Longrightarrow> value_text (SArr vs) (91 # w @ s @ [93])"
| text_object_empty: "ws w \<Longrightarrow> value_text (SObj []) (123 # w @ [125])"
| text_object: "ws w \<Longrightarrow> members_text ms s \<Longrightarrow> value_text (SObj ms) (123 # w @ s @ [125])"
| text_item: "value_text v s \<Longrightarrow> ws w \<Longrightarrow> items_text [v] (s @ w)"
| text_items: "value_text v s \<Longrightarrow> ws w \<Longrightarrow> ws w' \<Longrightarrow> items_text vs t \<Longrightarrow> items_text (v # vs) (s @ w @ 44 # w' @ t)"
| text_pair: "string_text k t \<Longrightarrow> ws a \<Longrightarrow> ws b \<Longrightarrow> value_text v s \<Longrightarrow>
    member_text (k, v) (34 # t @ 34 # a @ 58 # b @ s)"
| text_member: "member_text m s \<Longrightarrow> ws w \<Longrightarrow> members_text [m] (s @ w)"
| text_members: "member_text m s \<Longrightarrow> ws w \<Longrightarrow> ws w' \<Longrightarrow> members_text ms t \<Longrightarrow> members_text (m # ms) (s @ w @ 44 # w' @ t)"

text \<open>A document is a value between whitespace.\<close>

definition document_text :: "strict_value \<Rightarrow> units \<Rightarrow> bool" where
  "document_text v s \<longleftrightarrow> (\<exists>a t b. s = a @ t @ b \<and> ws a \<and> value_text v t \<and> ws b)"

inductive_cases member_textE: "member_text m s"

lemmas text_intros = text_null text_true text_false text_number text_string text_array_empty text_array
  text_object_empty text_object text_item text_items text_pair text_member text_members

subsection \<open>Where a lexeme stops\<close>

definition stops :: "(nat \<Rightarrow> bool) \<Rightarrow> units \<Rightarrow> bool" where
  "stops P s \<longleftrightarrow> s = [] \<or> \<not> P (hd s)"

lemma stops_simps [simp]: "stops P []" "stops P (c # s) \<longleftrightarrow> \<not> P c"
  by (simp_all add: stops_def)

lemma span_append:
  assumes "list_all P s" "stops P t"
  shows "takeWhile P (s @ t) = s" "dropWhile P (s @ t) = t"
  using assms by (cases t; induction s; simp)+

lemma takeWhile_dropWhile_stops [simp]: "stops P (dropWhile P s)"
  by (induction s) auto

lemma list_all_takeWhile [simp]: "list_all P (takeWhile P s)"
  by (induction s) auto

definition number_ends :: "units \<Rightarrow> bool" where
  "number_ends s \<longleftrightarrow> stops (\<lambda>c. digit_unit c \<or> c = 46 \<or> c = 101 \<or> c = 69) s"

lemma ws_simps [simp]: "ws []" "ws (c # w) \<longleftrightarrow> is_whitespace c \<and> ws w" "ws (v @ w) \<longleftrightarrow> ws v \<and> ws w"
  by (simp_all add: ws_def)

lemma number_ends_ws [simp]:
  "number_ends []"
  "ws w \<Longrightarrow> number_ends (w @ s) \<longleftrightarrow> w \<noteq> [] \<or> number_ends s"
  "number_ends (c # s) \<longleftrightarrow> \<not> digit_unit c \<and> c \<noteq> 46 \<and> c \<noteq> 101 \<and> c \<noteq> 69"
  by (cases w; auto simp: number_ends_def is_whitespace_def digit_unit_def)+

subsection \<open>Strings\<close>

lemma escapes_no_u [simp]: "map_of escapes 117 = None"
  by (simp add: escapes_def)

lemma four_units:
  assumes "length (take 4 s) = 4"
  shows "\<exists>a b c d r. s = a # b # c # d # r"
proof -
  from assms have "4 \<le> length s" by simp
  then show ?thesis by (auto simp: numeral_eq_Suc Suc_le_length_iff)
qed

lemma string_text_scan: "string_text v t \<Longrightarrow> scan_string (t @ 34 # s) = Some s"
  by (induction rule: string_text.induct) (auto split: if_splits)

lemma string_text_parse: "string_text v t \<Longrightarrow> json_parse_body (t @ [34]) = Some v"
  by (induction rule: string_text.induct) (auto split: if_splits)

lemma scan_string_text: "scan_string s = Some u \<Longrightarrow> \<exists>v t. s = t @ 34 # u \<and> string_text v t"
proof (induction s rule: scan_string.induct)
  case (2 code cs)
  consider "code = 34" | "32 \<le> code" "code \<noteq> 34" "code \<noteq> 92" | "code = 92"
    using "2.prems" by (force split: if_splits)
  then show ?case
  proof cases
    case 1
    with "2.prems" string_end show ?thesis by auto
  next
    case 2
    then have "scan_string cs = Some u" using "2.prems" by simp
    with "2.IH"(3) 2 obtain v t where "cs = t @ 34 # u" "string_text v t" by auto
    with 2 string_plain[of code v t] show ?thesis by (intro exI[of _ "code # v"] exI[of _ "code # t"]) simp
  next
    case 3
    with "2.prems" obtain e cs' where cs: "cs = e # cs'" by (cases cs) auto
    show ?thesis
    proof (cases "e = 117")
      case True
      with "2.prems" 3 cs have h: "length (take 4 cs') = 4" "list_all is_hex (take 4 cs')"
        "scan_string (drop 4 cs') = Some u" by (auto split: if_splits)
      from four_units[OF h(1)] obtain a b c d r where r: "cs' = a # b # c # d # r" by blast
      with "2.IH"(1)[OF _ _ _ cs True] 3 h obtain v t where "r = t @ 34 # u" "string_text v t" by auto
      with string_unicode[of a b c d v t] h r show ?thesis unfolding cs 3 True by auto
    next
      case False
      with "2.prems" 3 cs obtain c where c: "map_of escapes e = Some c" "scan_string cs' = Some u"
        by (auto split: if_splits option.splits)
      with "2.IH"(2)[OF _ _ _ cs False] 3 obtain v t where "cs' = t @ 34 # u" "string_text v t" by auto
      with string_escape[OF c(1)] show ?thesis unfolding cs 3 by (metis append_Cons)
    qed
  qed
qed simp

lemma string_text_unique: "string_text v t \<Longrightarrow> string_text w t \<Longrightarrow> v = w"
  using string_text_parse[of v t] string_text_parse[of w t] by simp

text \<open>In particular \<open>JSON.parse\<close> of a literal that has been scanned never fails.\<close>

lemma scanned_literal_parses:
  assumes "scan_string s = Some u"
  shows "json_parse_string (take (length (34 # s) - length u) (34 # s)) \<noteq> None"
proof -
  from scan_string_text[OF assms] obtain v t where "s = t @ 34 # u" "string_text v t" by blast
  then show ?thesis using string_text_parse by (simp add: json_parse_string_def)
qed

lemma parseString_iff:
  assumes "remaining p = 34 # s"
  shows "parseString L path p = Inr (v, q) \<longleftrightarrow>
    (\<exists>t u. s = t @ 34 # u \<and> string_text v t \<and> isWellFormedUnicode v \<and> utf8_length v \<le> maximumStringBytes L
      \<and> q = p\<lparr>remaining := u\<rparr>)"
proof (cases "scan_string s")
  case None
  then have "\<nexists>t u. s = t @ 34 # u \<and> string_text v t" using string_text_scan by fastforce
  with None show ?thesis using assms by (auto simp: parseString_def fail_at_def)
next
  case (Some u)
  then obtain w t where s: "s = t @ 34 # u" "string_text w t" using scan_string_text by blast
  have u: "u' = u \<and> t' = t \<and> v = w" if "s = t' @ 34 # u'" "string_text v t'" for u' t'
  proof -
    have "u' = u" using string_text_scan[OF that(2)] Some that by simp
    with that s have "t' = t" by simp
    with that s \<open>u' = u\<close> string_text_unique show ?thesis by blast
  qed
  have "json_parse_string (take (length (remaining p) - length u) (remaining p)) = Some w"
    using string_text_parse[OF s(2)] by (simp add: assms s json_parse_string_def)
  then have run: "parseString L path p =
      (if \<not> isWellFormedUnicode w \<or> utf8_length w > maximumStringBytes L
       then fail_at (if isWellFormedUnicode w then Structural_limit_exceeded else Invalid_json) path
       else Inr (w, p\<lparr>remaining := u\<rparr>))"
    using Some by (simp add: parseString_def assms)
  have "(\<exists>t' u'. s = t' @ 34 # u' \<and> string_text v t' \<and> P u') \<longleftrightarrow> v = w \<and> P u" for P
    using u s by blast
  from this[of "\<lambda>u. isWellFormedUnicode v \<and> utf8_length v \<le> maximumStringBytes L \<and> q = p\<lparr>remaining := u\<rparr>"]
  show ?thesis unfolding run by (auto simp: fail_at_def)
qed

subsection \<open>Numbers\<close>

lemma match_number_complete:
  assumes "number_parts m" "number_ends s"
  shows "match_number (lexeme m @ s) = Some (m, s)"
proof -
  let ?e = "exponent_part m @ s" and ?f = "fraction_part m @ exponent_part m @ s"
  have e: "match_exponent ?e = (exponent_part m, s)"
  proof (cases "exponent_part m = []")
    case True
    with assms(2) show ?thesis
      by (cases s) (auto simp: match_exponent_def Let_def split: prod.splits)
  next
    case False
    with assms(1) obtain c sign ds where c: "exponent_part m = c # sign @ ds" "c = 101 \<or> c = 69"
        "sign = [] \<or> sign = [43] \<or> sign = [45]" "ds \<noteq> []" "list_all digit_unit ds"
      by (auto simp: number_parts_def)
    have "match_sign [43, 45] (sign @ ds @ s) = (sign, ds @ s)"
      using c(3-5) by (cases ds) (auto simp: match_sign_def digit_unit_def)
    moreover have "stops digit_unit s" using assms(2) by (cases s) auto
    ultimately show ?thesis using c span_append[of digit_unit ds s]
      by (auto simp: match_exponent_def)
  qed
  have stop: "stops digit_unit ?e"
    using assms by (cases s) (auto simp: number_parts_def digit_unit_def)
  have f: "match_fraction ?f = (fraction_part m, ?e)"
  proof (cases "fraction_part m = []")
    case True
    have "?e = [] \<or> hd ?e \<noteq> 46" using assms by (cases s) (auto simp: number_parts_def)
    with True show ?thesis by (cases ?e) (auto simp: match_fraction_def)
  next
    case False
    with assms(1) obtain ds where "fraction_part m = 46 # ds" "ds \<noteq> []" "list_all digit_unit ds"
      by (auto simp: number_parts_def)
    with span_append[of digit_unit ds ?e] stop show ?thesis by (simp add: match_fraction_def)
  qed
  have "stops digit_unit ?f" using stop assms(1) by (auto simp: number_parts_def digit_unit_def)
  then have i: "match_integer (integer_part m @ ?f) = Some (integer_part m, ?f)"
    using assms(1) span_append[of digit_unit _ ?f] by (auto simp: number_parts_def match_integer_def digit_unit_def)
  have "match_sign [45] (sign_part m @ integer_part m @ ?f) = (sign_part m, integer_part m @ ?f)"
    using assms(1) by (auto simp: number_parts_def match_sign_def)
  with i f e show ?thesis by (simp add: match_number_def lexeme_def)
qed

lemma match_sign_sound: "match_sign cs s = (sign, t) \<Longrightarrow> s = sign @ t \<and> (sign = [] \<or> (\<exists>c \<in> set cs. sign = [c]))"
  by (auto simp: match_sign_def split: list.splits if_splits)

lemma match_number_sound:
  assumes "match_number s = Some (m, u)"
  shows "number_parts m \<and> s = lexeme m @ u"
proof -
  from assms obtain s1 s2 s3 where
    sign: "match_sign [45] s = (sign_part m, s1)" and int: "match_integer s1 = Some (integer_part m, s2)"
    and frac: "match_fraction s2 = (fraction_part m, s3)" and exponent: "match_exponent s3 = (exponent_part m, u)"
    by (auto simp: match_number_def split: prod.splits option.splits)
  from int obtain c cs where "s1 = c # cs" "c = 48 \<and> integer_part m = [48] \<and> s2 = cs
      \<or> 49 \<le> c \<and> c \<le> 57 \<and> integer_part m = c # takeWhile digit_unit cs \<and> s2 = dropWhile digit_unit cs"
    by (cases s1) (auto simp: match_integer_def digit_unit_def split: if_splits)
  then have "s1 = integer_part m @ s2 \<and> (integer_part m = [48]
      \<or> (\<exists>c ds. integer_part m = c # ds \<and> 49 \<le> c \<and> c \<le> 57 \<and> list_all digit_unit ds))"
    by auto
  moreover from frac have "fraction_part m = [] \<and> s3 = s2 \<or> (\<exists>cs. s2 = 46 # cs \<and> takeWhile digit_unit cs \<noteq> []
      \<and> fraction_part m = 46 # takeWhile digit_unit cs \<and> s3 = dropWhile digit_unit cs)"
    by (auto simp: match_fraction_def split: list.splits if_splits)
  then have "s2 = fraction_part m @ s3
      \<and> (fraction_part m = [] \<or> (\<exists>ds. fraction_part m = 46 # ds \<and> ds \<noteq> [] \<and> list_all digit_unit ds))"
    by auto
  moreover have "s3 = exponent_part m @ u \<and> (exponent_part m = [] \<or> (\<exists>c sign ds. exponent_part m = c # sign @ ds
      \<and> (c = 101 \<or> c = 69) \<and> (sign = [] \<or> sign = [43] \<or> sign = [45]) \<and> ds \<noteq> [] \<and> list_all digit_unit ds))"
  proof (cases "exponent_part m = []")
    case True
    with exponent show ?thesis by (auto simp: match_exponent_def split: list.splits if_splits prod.splits)
  next
    case False
    with exponent obtain c cs sign ds where c: "s3 = c # cs" "match_sign [43, 45] cs = (sign, ds)"
        "c = 101 \<or> c = 69" "takeWhile digit_unit ds \<noteq> []" "exponent_part m = c # sign @ takeWhile digit_unit ds"
        "u = dropWhile digit_unit ds"
      by (auto simp: match_exponent_def split: list.splits if_splits prod.splits)
    from match_sign_sound[OF c(2)] have sign: "cs = sign @ ds" "sign = [] \<or> sign = [43] \<or> sign = [45]" by auto
    then have "s3 = exponent_part m @ u" by (simp add: c(1,5,6))
    moreover have "\<exists>c sign ds. exponent_part m = c # sign @ ds \<and> (c = 101 \<or> c = 69)
        \<and> (sign = [] \<or> sign = [43] \<or> sign = [45]) \<and> ds \<noteq> [] \<and> list_all digit_unit ds"
      by (rule exI[of _ c], rule exI[of _ sign], rule exI[of _ "takeWhile digit_unit ds"]) (use c sign in simp)
    ultimately show ?thesis by blast
  qed
  ultimately show ?thesis using match_sign_sound[OF sign] by (auto simp: number_parts_def lexeme_def)
qed

definition finite_lexeme :: "units \<Rightarrow> bool" where
  "finite_lexeme s = (case match_number s of Some (m, []) \<Rightarrow> number_finite m | _ \<Rightarrow> False)"

lemma parseNumber_complete:
  assumes "remaining p = s @ u" "number_text s" "finite_lexeme s" "number_ends u"
  shows "parseNumber path p = Inr (SNum s, p\<lparr>remaining := u\<rparr>)"
proof -
  from assms(2) obtain m where m: "number_parts m" "s = lexeme m" by (auto simp: number_text_def)
  with match_number_complete[of m "[]"] assms(3) have "number_finite m" by (simp add: finite_lexeme_def)
  with match_number_complete[of m u] m assms show ?thesis by (simp add: parseNumber_def)
qed

lemma parseNumber_sound:
  assumes "parseNumber path p = Inr (v, q)"
  shows "\<exists>s u. v = SNum s \<and> remaining p = s @ u \<and> number_text s \<and> finite_lexeme s \<and> q = p\<lparr>remaining := u\<rparr>"
proof -
  from assms obtain m u where m: "match_number (remaining p) = Some (m, u)" "number_finite m"
      "v = SNum (lexeme m)" "q = p\<lparr>remaining := u\<rparr>"
    by (auto simp: parseNumber_def fail_at_def split: option.splits if_splits)
  with match_number_sound[OF m(1)] match_number_complete[of m "[]"] show ?thesis
    by (auto simp: number_text_def finite_lexeme_def)
qed

end
