(* ===== verification/MeshParseFacts.thy ===== *)
theory MeshParseFacts
  imports MeshGrammar
begin

text \<open>
  The parser against the grammar: what it returns is a value of the text it has consumed, within
  the limits and without duplicate keys (soundness), and it returns every such value
  (completeness). Both go through the counters of keys and items.
\<close>

subsection \<open>The limits\<close>

fun strict_fits :: "strict_json_limits \<Rightarrow> nat \<Rightarrow> strict_value \<Rightarrow> bool" where
  "strict_fits L d (SNum s) \<longleftrightarrow> finite_lexeme s"
| "strict_fits L d (SStr s) \<longleftrightarrow> isWellFormedUnicode s \<and> utf8_length s \<le> maximumStringBytes L"
| "strict_fits L d (SArr vs) \<longleftrightarrow> d < maximumNestingDepth L \<and> length vs \<le> maximumArrayItems L
     \<and> list_all (strict_fits L (d + 1)) vs"
| "strict_fits L d (SObj ms) \<longleftrightarrow> d < maximumNestingDepth L \<and> length ms \<le> maximumObjectKeys L
     \<and> distinct (map fst ms)
     \<and> list_all (\<lambda>(k, v). isWellFormedUnicode k \<and> utf8_length k \<le> maximumStringBytes L \<and> strict_fits L (d + 1) v) ms"
| "strict_fits L d v \<longleftrightarrow> True"

fun value_keys :: "strict_value \<Rightarrow> nat" where
  "value_keys (SArr vs) = sum_list (map value_keys vs)"
| "value_keys (SObj ms) = length ms + sum_list (map (\<lambda>(k, v). value_keys v) ms)"
| "value_keys v = 0"

fun value_items :: "strict_value \<Rightarrow> nat" where
  "value_items (SArr vs) = length vs + sum_list (map value_items vs)"
| "value_items (SObj ms) = sum_list (map (\<lambda>(k, v). value_items v) ms)"
| "value_items v = 0"

definition member_fits :: "strict_json_limits \<Rightarrow> nat \<Rightarrow> units \<times> strict_value \<Rightarrow> bool" where
  "member_fits L d = (\<lambda>(k, v). isWellFormedUnicode k \<and> utf8_length k \<le> maximumStringBytes L \<and> strict_fits L d v)"

text \<open>What the parser does to its state: it consumes a text and counts keys and items, within the limits.\<close>

definition counts :: "strict_json_limits \<Rightarrow> parser \<Rightarrow> nat \<Rightarrow> nat \<Rightarrow> parser \<Rightarrow> bool" where
  "counts L p ks is q \<longleftrightarrow>
     totalObjectKeys q = totalObjectKeys p + ks \<and> totalArrayItems q = totalArrayItems p + is
     \<and> (totalObjectKeys p \<le> maximumTotalObjectKeys L \<longrightarrow> totalObjectKeys q \<le> maximumTotalObjectKeys L)
     \<and> (totalArrayItems p \<le> maximumTotalArrayItems L \<longrightarrow> totalArrayItems q \<le> maximumTotalArrayItems L)"

lemma counts_refl: "totalObjectKeys q = totalObjectKeys p \<Longrightarrow> totalArrayItems q = totalArrayItems p \<Longrightarrow> counts L p 0 0 q"
  by (simp add: counts_def)

lemma counts_trans: "counts L p a b q \<Longrightarrow> counts L q c d r \<Longrightarrow> counts L p (a + c) (b + d) r"
  by (auto simp: counts_def)

lemma skip_simps [simp]:
  "totalObjectKeys (skipWhitespace p) = totalObjectKeys p" "totalArrayItems (skipWhitespace p) = totalArrayItems p"
  "payloadByteLength (skipWhitespace p) = payloadByteLength p"
  "totalObjectKeys (advance n p) = totalObjectKeys p" "totalArrayItems (advance n p) = totalArrayItems p"
  "payloadByteLength (advance n p) = payloadByteLength p" "remaining (advance n p) = drop n (remaining p)"
  by (simp_all add: skipWhitespace_def advance_def)

lemma remaining_skip: "remaining (skipWhitespace p) = dropWhile is_whitespace (remaining p)"
  by (simp add: skipWhitespace_def)

lemma current_Some: "current p = Some c \<longleftrightarrow> (\<exists>s. remaining p = c # s)"
  by (auto simp: current_def split: list.splits)

lemma skip_split: "\<exists>w u. ws w \<and> remaining p = w @ u \<and> remaining (skipWhitespace p) = u"
  by (rule exI[of _ "takeWhile is_whitespace (remaining p)"]) (simp add: ws_def remaining_skip)

lemma fail_at_not_Inr [simp]: "fail_at c path \<noteq> Inr x" "Inr x \<noteq> fail_at c path"
  by (simp_all add: fail_at_def)

lemma assertDepth_Inr [simp]: "assertDepth L d path = Inr u \<longleftrightarrow> d \<le> maximumNestingDepth L"
  by (auto simp: assertDepth_def)

lemma parseLiteral_sound:
  "parseLiteral t v path p = Inr (w, q) \<Longrightarrow> w = v \<and> (\<exists>u. remaining p = code_units t @ u \<and> q = p\<lparr>remaining := u\<rparr>)"
  by (auto simp: parseLiteral_def advance_def split: if_splits) (metis append_take_drop_id)

subsection \<open>One round of the loops\<close>

definition member_end :: "parser \<Rightarrow> nat \<Rightarrow> units \<Rightarrow> parser \<Rightarrow> parser" where
  "member_end p d key q = (if d = 1 \<and> key = code_units ''payload''
     then q\<lparr>payloadByteLength := Some (utf8_length (consumed p q))\<rparr> else q)"

lemma member_end_simps [simp]:
  "remaining (member_end p d key q) = remaining q"
  "totalObjectKeys (member_end p d key q) = totalObjectKeys q"
  "totalArrayItems (member_end p d key q) = totalArrayItems q"
  by (simp_all add: member_end_def)

lemma parseMembers_run:
  assumes "current p = Some 34" "parseString L path p = Inr (key, p1)" "key \<notin> set keys"
    and "length keys + 1 \<le> maximumObjectKeys L" "totalObjectKeys p1 + 1 \<le> maximumTotalObjectKeys L"
    and "p3 = skipWhitespace (p1\<lparr>totalObjectKeys := totalObjectKeys p1 + 1\<rparr>)" "current p3 = Some 58"
    and "p4 = skipWhitespace (advance 1 p3)" "parseValue L (path @ [PKey key]) d p4 = Inr (v, q0)"
    and "q = skipWhitespace (member_end p4 d key q0)"
  shows "parseMembers L path d keys p =
      (if current q = Some 125 then Inr ([(key, v)], advance 1 q)
       else if current q \<noteq> Some 44 then fail_at Invalid_json path
       else bindE (parseMembers L path d (keys @ [key]) (skipWhitespace (advance 1 q)))
         (\<lambda>(members, r). Inr ((key, v) # members, r)))"
  by (subst parseMembers.simps) (use assms in \<open>simp add: Let_def member_end_def\<close>)

lemma parseMembers_Inr:
  assumes "parseMembers L path d keys p = Inr (ms, r)"
  obtains key p1 p3 p4 v q0 q where
    "current p = Some 34" "parseString L path p = Inr (key, p1)" "key \<notin> set keys"
    "length keys + 1 \<le> maximumObjectKeys L" "totalObjectKeys p1 + 1 \<le> maximumTotalObjectKeys L"
    "p3 = skipWhitespace (p1\<lparr>totalObjectKeys := totalObjectKeys p1 + 1\<rparr>)" "current p3 = Some 58"
    "p4 = skipWhitespace (advance 1 p3)" "parseValue L (path @ [PKey key]) d p4 = Inr (v, q0)"
    "q = skipWhitespace (member_end p4 d key q0)"
    "current q = Some 125 \<and> ms = [(key, v)] \<and> r = advance 1 q
     \<or> current q = Some 44 \<and> (\<exists>ms'. ms = (key, v) # ms'
         \<and> parseMembers L path d (keys @ [key]) (skipWhitespace (advance 1 q)) = Inr (ms', r))"
proof -
  from assms have quote: "current p = Some 34" by (auto simp: parseMembers.simps split: if_splits)
  with assms obtain key p1 where key: "parseString L path p = Inr (key, p1)"
    by (auto simp: parseMembers.simps bindE_Inr_iff)
  define p3 where "p3 = skipWhitespace (p1\<lparr>totalObjectKeys := totalObjectKeys p1 + 1\<rparr>)"
  define p4 where "p4 = skipWhitespace (advance 1 p3)"
  from assms quote key have g: "key \<notin> set keys" "length keys + 1 \<le> maximumObjectKeys L"
    "totalObjectKeys p1 + 1 \<le> maximumTotalObjectKeys L" "current p3 = Some 58"
    by (auto simp: parseMembers.simps Let_def p3_def split: if_splits)
  with assms quote key obtain v q0 where v: "parseValue L (path @ [PKey key]) d p4 = Inr (v, q0)"
    by (auto simp: parseMembers.simps Let_def p4_def p3_def bindE_Inr_iff)
  define q where "q = skipWhitespace (member_end p4 d key q0)"
  note run = parseMembers_run[OF quote key g(1-3) p3_def g(4) p4_def v q_def]
  have "current q = Some 125 \<and> ms = [(key, v)] \<and> r = advance 1 q
     \<or> current q = Some 44 \<and> (\<exists>ms'. ms = (key, v) # ms'
         \<and> parseMembers L path d (keys @ [key]) (skipWhitespace (advance 1 q)) = Inr (ms', r))"
    using assms unfolding run by (auto simp: bindE_Inr_iff split: if_splits)
  with that quote key g p3_def p4_def v q_def show ?thesis by blast
qed

lemma parseItems_run:
  assumes "remaining p \<noteq> []" "count + 1 \<le> maximumArrayItems L" "totalArrayItems p + 1 \<le> maximumTotalArrayItems L"
    and "parseValue L (path @ [PIndex count]) d (p\<lparr>totalArrayItems := totalArrayItems p + 1\<rparr>) = Inr (v, q0)"
    and "q = skipWhitespace q0"
  shows "parseItems L path d count p =
      (if current q = Some 93 then Inr ([v], advance 1 q)
       else if current q \<noteq> Some 44 then fail_at Invalid_json path
       else bindE (parseItems L path d (count + 1) (skipWhitespace (advance 1 q)))
         (\<lambda>(items, r). Inr (v # items, r)))"
  by (subst parseItems.simps) (use assms in \<open>simp add: Let_def\<close>)

lemma parseItems_Inr:
  assumes "parseItems L path d count p = Inr (vs, r)"
  obtains v q0 q where "remaining p \<noteq> []" "count + 1 \<le> maximumArrayItems L"
    "totalArrayItems p + 1 \<le> maximumTotalArrayItems L"
    "parseValue L (path @ [PIndex count]) d (p\<lparr>totalArrayItems := totalArrayItems p + 1\<rparr>) = Inr (v, q0)"
    "q = skipWhitespace q0"
    "current q = Some 93 \<and> vs = [v] \<and> r = advance 1 q
     \<or> current q = Some 44 \<and> (\<exists>vs'. vs = v # vs'
         \<and> parseItems L path d (count + 1) (skipWhitespace (advance 1 q)) = Inr (vs', r))"
proof -
  from assms have c: "remaining p \<noteq> []" "count + 1 \<le> maximumArrayItems L"
    "totalArrayItems p + 1 \<le> maximumTotalArrayItems L"
    by (auto simp: parseItems.simps split: if_splits)
  with assms obtain v q0 where v: "parseValue L (path @ [PIndex count]) d (p\<lparr>totalArrayItems := totalArrayItems p + 1\<rparr>) = Inr (v, q0)"
    by (auto simp: parseItems.simps bindE_Inr_iff)
  have "current (skipWhitespace q0) = Some 93 \<and> vs = [v] \<and> r = advance 1 (skipWhitespace q0)
     \<or> current (skipWhitespace q0) = Some 44 \<and> (\<exists>vs'. vs = v # vs'
         \<and> parseItems L path d (count + 1) (skipWhitespace (advance 1 (skipWhitespace q0))) = Inr (vs', r))"
    using assms unfolding parseItems_run[OF c v refl] by (auto simp: bindE_Inr_iff split: if_splits)
  with that c v show ?thesis by blast
qed

subsection \<open>Soundness\<close>

definition value_read :: "strict_json_limits \<Rightarrow> nat \<Rightarrow> parser \<Rightarrow> strict_value \<Rightarrow> parser \<Rightarrow> bool" where
  "value_read L d p v q \<longleftrightarrow>
     (\<exists>s. remaining p = s @ remaining q \<and> value_text v s) \<and> strict_fits L d v
     \<and> counts L p (value_keys v) (value_items v) q"

definition members_read :: "strict_json_limits \<Rightarrow> nat \<Rightarrow> units list \<Rightarrow> parser \<Rightarrow> (units \<times> strict_value) list \<Rightarrow> parser \<Rightarrow> bool" where
  "members_read L d keys p ms q \<longleftrightarrow>
     (\<exists>s. remaining p = s @ 125 # remaining q \<and> members_text ms s)
     \<and> distinct (map fst ms) \<and> set keys \<inter> fst ` set ms = {} \<and> length keys + length ms \<le> maximumObjectKeys L
     \<and> list_all (member_fits L d) ms
     \<and> counts L p (length ms + sum_list (map (\<lambda>(k, v). value_keys v) ms)) (sum_list (map (\<lambda>(k, v). value_items v) ms)) q"

definition items_read :: "strict_json_limits \<Rightarrow> nat \<Rightarrow> nat \<Rightarrow> parser \<Rightarrow> strict_value list \<Rightarrow> parser \<Rightarrow> bool" where
  "items_read L d count p vs q \<longleftrightarrow>
     (\<exists>s. remaining p = s @ 93 # remaining q \<and> items_text vs s)
     \<and> count + length vs \<le> maximumArrayItems L \<and> list_all (strict_fits L d) vs
     \<and> counts L p (sum_list (map value_keys vs)) (length vs + sum_list (map value_items vs)) q"

lemma value_readI:
  "remaining p = s @ remaining q \<Longrightarrow> value_text v s \<Longrightarrow> strict_fits L d v
   \<Longrightarrow> counts L p (value_keys v) (value_items v) q \<Longrightarrow> value_read L d p v q"
  by (auto simp: value_read_def)

lemma counts_update [simp]: "counts L p a b (q\<lparr>payloadByteLength := x\<rparr>) \<longleftrightarrow> counts L p a b q"
  "counts L p a b (q\<lparr>remaining := s\<rparr>) \<longleftrightarrow> counts L p a b q"
  "counts L p a b (skipWhitespace q) \<longleftrightarrow> counts L p a b q"
  "counts L p a b (advance n q) \<longleftrightarrow> counts L p a b q"
  "counts L (skipWhitespace p) a b q \<longleftrightarrow> counts L p a b q"
  "counts L (advance n p) a b q \<longleftrightarrow> counts L p a b q"
  by (simp_all add: counts_def)

text \<open>The cases of the induction, each from what the calls it makes are known to read.\<close>

lemma object_sound:
  assumes "parseObject L path (d + 1) p = Inr (v, q)" "current p = Some 123"
    and IH: "\<And>p ms q. d < maximumNestingDepth L \<Longrightarrow> parseMembers L path (d + 1) [] p = Inr (ms, q) \<Longrightarrow>
      members_read L (d + 1) [] p ms q"
  shows "value_read L d p v q"
proof -
  let ?p = "skipWhitespace (advance 1 p)"
  from assms(1) have d: "d < maximumNestingDepth L" by (auto simp: parseObject.simps bindE_Inr_iff)
  from assms(2) obtain r where "remaining p = 123 # r" by (auto simp: current_Some)
  with skip_split[of "advance 1 p"] obtain w u where w: "ws w" "remaining p = 123 # w @ u" "remaining ?p = u" by auto
  show ?thesis
  proof (cases "current ?p = Some 125")
    case True
    with assms(1) have v: "v = SObj []" "q = advance 1 ?p" by (auto simp: parseObject.simps bindE_Inr_iff)
    with True w have "remaining p = (123 # w @ [125]) @ remaining q" by (auto simp: current_Some)
    from value_readI[OF this text_object_empty[OF w(1)]] v d show ?thesis by (simp add: counts_refl)
  next
    case False
    with assms(1) obtain ms where ms: "parseMembers L path (d + 1) [] ?p = Inr (ms, q)" "v = SObj ms"
      by (auto simp: parseObject.simps bindE_Inr_iff)
    from IH[OF d ms(1)] obtain s where
      s: "u = s @ 125 # remaining q" "members_text ms s" "distinct (map fst ms)"
        "length ms \<le> maximumObjectKeys L" "list_all (member_fits L (d + 1)) ms"
        "counts L p (length ms + sum_list (map (\<lambda>(k, v). value_keys v) ms)) (sum_list (map (\<lambda>(k, v). value_items v) ms)) q"
      by (auto simp: members_read_def w(3)[simplified])
    have "remaining p = (123 # w @ s @ [125]) @ remaining q" using w(2) s(1) by simp
    from value_readI[OF this text_object[OF w(1) s(2)]] s d ms(2) show ?thesis by (simp add: member_fits_def)
  qed
qed

lemma array_sound:
  assumes "parseArray L path (d + 1) p = Inr (v, q)" "current p = Some 91"
    and IH: "\<And>p vs q. d < maximumNestingDepth L \<Longrightarrow> parseItems L path (d + 1) 0 p = Inr (vs, q) \<Longrightarrow>
      items_read L (d + 1) 0 p vs q"
  shows "value_read L d p v q"
proof -
  let ?p = "skipWhitespace (advance 1 p)"
  from assms(1) have d: "d < maximumNestingDepth L" by (auto simp: parseArray.simps bindE_Inr_iff)
  from assms(2) obtain r where "remaining p = 91 # r" by (auto simp: current_Some)
  with skip_split[of "advance 1 p"] obtain w u where w: "ws w" "remaining p = 91 # w @ u" "remaining ?p = u" by auto
  show ?thesis
  proof (cases "current ?p = Some 93")
    case True
    with assms(1) have v: "v = SArr []" "q = advance 1 ?p" by (auto simp: parseArray.simps bindE_Inr_iff)
    with True w have "remaining p = (91 # w @ [93]) @ remaining q" by (auto simp: current_Some)
    from value_readI[OF this text_array_empty[OF w(1)]] v d show ?thesis by (simp add: counts_refl)
  next
    case False
    with assms(1) obtain vs where vs: "parseItems L path (d + 1) 0 ?p = Inr (vs, q)" "v = SArr vs"
      by (auto simp: parseArray.simps bindE_Inr_iff)
    from IH[OF d vs(1)] obtain s where
      s: "u = s @ 93 # remaining q" "items_text vs s" "length vs \<le> maximumArrayItems L"
        "list_all (strict_fits L (d + 1)) vs"
        "counts L p (sum_list (map value_keys vs)) (length vs + sum_list (map value_items vs)) q"
      by (auto simp: items_read_def w(3)[simplified])
    have "remaining p = (91 # w @ s @ [93]) @ remaining q" using w(2) s(1) by simp
    from value_readI[OF this text_array[OF w(1) s(2)]] s d vs(2) show ?thesis by simp
  qed
qed

lemma members_sound:
  assumes run: "parseMembers L path d keys p = Inr (ms, r)"
    and IH: "\<And>path p v q. parseValue L path d p = Inr (v, q) \<Longrightarrow> value_read L d p v q"
      "\<And>key p ms q. length keys + 1 \<le> maximumObjectKeys L \<Longrightarrow>
        parseMembers L path d (keys @ [key]) p = Inr (ms, q) \<Longrightarrow> members_read L d (keys @ [key]) p ms q"
  shows "members_read L d keys p ms r"
proof -
  from run obtain key p1 p3 p4 v q0 q where
    quote: "current p = Some 34" and key: "parseString L path p = Inr (key, p1)" "key \<notin> set keys"
    and room: "length keys + 1 \<le> maximumObjectKeys L" "totalObjectKeys p1 + 1 \<le> maximumTotalObjectKeys L"
    and p3: "p3 = skipWhitespace (p1\<lparr>totalObjectKeys := totalObjectKeys p1 + 1\<rparr>)" "current p3 = Some 58"
    and p4: "p4 = skipWhitespace (advance 1 p3)" and v: "parseValue L (path @ [PKey key]) d p4 = Inr (v, q0)"
    and q: "q = skipWhitespace (member_end p4 d key q0)"
    and cont: "current q = Some 125 \<and> ms = [(key, v)] \<and> r = advance 1 q
     \<or> current q = Some 44 \<and> (\<exists>ms'. ms = (key, v) # ms'
         \<and> parseMembers L path d (keys @ [key]) (skipWhitespace (advance 1 q)) = Inr (ms', r))"
    by (rule parseMembers_Inr)
  from quote obtain x where x: "remaining p = 34 # x" by (auto simp: current_Some)
  with key(1) parseString_iff[OF x] obtain t u where t: "x = t @ 34 # u" "string_text key t" "isWellFormedUnicode key"
      "utf8_length key \<le> maximumStringBytes L" "p1 = p\<lparr>remaining := u\<rparr>" by auto
  from skip_split[of "p1\<lparr>totalObjectKeys := totalObjectKeys p1 + 1\<rparr>"] skip_split[of "advance 1 p3"] p3(2)
  obtain a b z where ab: "ws a" "ws b" "u = a @ 58 # b @ z" "remaining p4 = z"
    by (auto simp: current_Some t(5) p3(1) p4)
  from IH(1)[OF v] obtain s where s: "z = s @ remaining q0" "value_text v s" "strict_fits L d v"
    "counts L p4 (value_keys v) (value_items v) q0" by (auto simp: value_read_def ab(4))
  have "counts L p 1 0 p4" using room(2) by (simp add: counts_def p4 p3(1) t(5))
  from counts_trans[OF this s(4)] have cq: "counts L p (1 + value_keys v) (value_items v) q"
    by (simp add: q member_end_def)
  have member: "member_text (key, v) (34 # t @ 34 # a @ 58 # b @ s)"
    "remaining p = (34 # t @ 34 # a @ 58 # b @ s) @ remaining q0"
    using text_pair[OF t(2) ab(1,2) s(2)] s(1) unfolding x t(1) ab(3) by simp_all
  have fits: "member_fits L d (key, v)" using t s by (simp add: member_fits_def)
  from skip_split[of "member_end p4 d key q0"] obtain w y where w: "ws w" "remaining q0 = w @ y" "remaining q = y"
    by (auto simp: q)
  show ?thesis
    using cont
  proof (elim disjE conjE exE)
    assume "current q = Some 125" "ms = [(key, v)]" "r = advance 1 q"
    with cq member fits w key(2) room text_member[OF member(1) w(1)] show ?thesis
      by (fastforce simp: members_read_def current_Some)
  next
    fix ms' assume c: "current q = Some 44" and ms: "ms = (key, v) # ms'"
      and rest: "parseMembers L path d (keys @ [key]) (skipWhitespace (advance 1 q)) = Inr (ms', r)"
    from skip_split[of "advance 1 q"] obtain w' y' where w': "ws w'" "y = 44 # w' @ y'"
        "remaining (skipWhitespace (advance 1 q)) = y'" using c w(3) by (auto simp: current_Some)
    from IH(2)[OF room(1) rest] obtain t' where
      t': "y' = t' @ 125 # remaining r" "members_text ms' t'"
      "distinct (map fst ms')" "set (keys @ [key]) \<inter> fst ` set ms' = {}"
      "length keys + 1 + length ms' \<le> maximumObjectKeys L" "list_all (member_fits L d) ms'"
      "counts L q (length ms' + sum_list (map (\<lambda>(k, v). value_keys v) ms')) (sum_list (map (\<lambda>(k, v). value_items v) ms')) r"
      by (auto simp: members_read_def w'(3)[simplified])
    have "\<exists>s. remaining p = s @ 125 # remaining r \<and> members_text ms s"
      using text_members[OF member(1) w(1) w'(1) t'(2)] member(2) w(2) w'(2) t'(1) ms by auto
    moreover have "distinct (map fst ms)" "set keys \<inter> fst ` set ms = {}" using t'(3,4) ms key(2) by auto
    ultimately show ?thesis using counts_trans[OF cq t'(7)] t' fits ms
      by (simp add: members_read_def ac_simps)
  qed
qed

lemma items_sound:
  assumes run: "parseItems L path d count p = Inr (vs, r)"
    and IH: "\<And>path p v q. parseValue L path d p = Inr (v, q) \<Longrightarrow> value_read L d p v q"
      "\<And>p vs q. count + 1 \<le> maximumArrayItems L \<Longrightarrow>
        parseItems L path d (count + 1) p = Inr (vs, q) \<Longrightarrow> items_read L d (count + 1) p vs q"
  shows "items_read L d count p vs r"
proof -
  let ?p = "p\<lparr>totalArrayItems := totalArrayItems p + 1\<rparr>"
  from run obtain v q0 q where c: "remaining p \<noteq> []" "count + 1 \<le> maximumArrayItems L"
      "totalArrayItems p + 1 \<le> maximumTotalArrayItems L"
    and v: "parseValue L (path @ [PIndex count]) d ?p = Inr (v, q0)" and q: "q = skipWhitespace q0"
    and cont: "current q = Some 93 \<and> vs = [v] \<and> r = advance 1 q
     \<or> current q = Some 44 \<and> (\<exists>vs'. vs = v # vs'
         \<and> parseItems L path d (count + 1) (skipWhitespace (advance 1 q)) = Inr (vs', r))"
    by (rule parseItems_Inr)
  have c1: "counts L p 0 1 ?p" using c(3) by (simp add: counts_def)
  from IH(1)[OF v] obtain s where s: "remaining p = s @ remaining q0" "value_text v s" "strict_fits L d v"
    "counts L ?p (value_keys v) (value_items v) q0" by (auto simp: value_read_def)
  have cq: "counts L p (value_keys v) (1 + value_items v) q" using counts_trans[OF c1 s(4)] by (simp add: q)
  from skip_split[of q0] obtain w u where w: "ws w" "remaining q0 = w @ u" "remaining q = u" by (auto simp: q)
  show ?thesis
    using cont
  proof (elim disjE conjE exE)
    assume "current q = Some 93" "vs = [v]" "r = advance 1 q"
    with s w c cq text_item[OF s(2) w(1)] show ?thesis
      by (fastforce simp: items_read_def current_Some)
  next
    fix vs' assume d: "current q = Some 44" and vs: "vs = v # vs'"
      and rest: "parseItems L path d (count + 1) (skipWhitespace (advance 1 q)) = Inr (vs', r)"
    from skip_split[of "advance 1 q"] obtain w' y where w': "ws w'" "u = 44 # w' @ y"
        "remaining (skipWhitespace (advance 1 q)) = y" using d w(3) by (auto simp: current_Some)
    from IH(2)[OF c(2) rest] obtain t where t: "y = t @ 93 # remaining r" "items_text vs' t"
      "count + 1 + length vs' \<le> maximumArrayItems L" "list_all (strict_fits L d) vs'"
      "counts L q (sum_list (map value_keys vs')) (length vs' + sum_list (map value_items vs')) r"
      by (auto simp: items_read_def w'(3)[simplified])
    from counts_trans[OF cq t(5)]
    have "counts L p (sum_list (map value_keys vs)) (length vs + sum_list (map value_items vs)) r"
      by (simp add: vs ac_simps)
    moreover have "remaining p = (s @ w @ 44 # w' @ t) @ 93 # remaining r" using s(1) w(2) w'(2) t(1) by simp
    ultimately show ?thesis using text_items[OF s(2) w(1) w'(1) t(2)] s(3) t(3,4) vs
      unfolding items_read_def by auto
  qed
qed

lemma leaf_sound:
  assumes "parseValue L path d p = Inr (v, q)" "current p = Some c" "c \<noteq> 123" "c \<noteq> 91"
  shows "value_read L d p v q"
proof -
  consider "c = 34" | "c = 116" | "c = 102" | "c = 110" | "c \<notin> {34, 116, 102, 110}" by blast
  then show ?thesis
  proof cases
    case 1
    with assms obtain s where s: "parseString L path p = Inr (s, q)" "v = SStr s"
      by (auto simp: parseValue.simps bindE_Inr_iff)
    from assms(2) 1 obtain r where r: "remaining p = 34 # r" by (auto simp: current_Some)
    with s parseString_iff[OF r] obtain t u where t: "r = t @ 34 # u" "string_text s t" "isWellFormedUnicode s"
        "utf8_length s \<le> maximumStringBytes L" "q = p\<lparr>remaining := u\<rparr>" by auto
    then show ?thesis using text_string[OF t(2)] r s by (auto simp: value_read_def counts_def)
  next
    case 5
    with assms have "parseNumber path p = Inr (v, q)" by (auto simp: parseValue.simps split: if_splits)
    from parseNumber_sound[OF this] show ?thesis
      by (auto simp: value_read_def counts_def intro: text_number)
  qed (use assms in \<open>auto simp: parseValue.simps value_read_def counts_def
      dest!: parseLiteral_sound intro: text_null text_true text_false\<close>)
qed

text \<open>The loops by the room that is left, the values by the depth that is left.\<close>

lemma members_sound_all:
  assumes "\<And>path p v q. parseValue L path d p = Inr (v, q) \<Longrightarrow> value_read L d p v q"
  shows "parseMembers L path d keys p = Inr (ms, q) \<Longrightarrow> members_read L d keys p ms q"
proof (induction "maximumObjectKeys L - length keys" arbitrary: keys p ms q rule: less_induct)
  case less
  show ?case by (rule members_sound[OF less.prems]) (use assms less.hyps in auto)
qed

lemma items_sound_all:
  assumes "\<And>path p v q. parseValue L path d p = Inr (v, q) \<Longrightarrow> value_read L d p v q"
  shows "parseItems L path d count p = Inr (vs, q) \<Longrightarrow> items_read L d count p vs q"
proof (induction "maximumArrayItems L - count" arbitrary: count p vs q rule: less_induct)
  case less
  show ?case by (rule items_sound[OF less.prems]) (use assms less.hyps in auto)
qed

theorem parseValue_sound: "parseValue L path d p = Inr (v, q) \<Longrightarrow> value_read L d p v q"
proof (induction "maximumNestingDepth L - d" arbitrary: path d p v q rule: less_induct)
  case less
  from less.prems obtain c where c: "current p = Some c"
    by (auto simp: parseValue.simps split: option.splits)
  have deeper: "value_read L (d + 1) p v q" if "d < maximumNestingDepth L" "parseValue L path (d + 1) p = Inr (v, q)"
    for path p v q
    by (rule less.hyps[OF _ that(2)]) (use that(1) in simp)
  consider "c = 123" | "c = 91" | "c \<noteq> 123" "c \<noteq> 91" by blast
  then show ?case
  proof cases
    case 1
    with less.prems c have "parseObject L path (d + 1) p = Inr (v, q)" by (simp add: parseValue.simps)
    then show ?thesis by (rule object_sound) (use c 1 members_sound_all deeper in blast)+
  next
    case 2
    with less.prems c have "parseArray L path (d + 1) p = Inr (v, q)" by (simp add: parseValue.simps)
    then show ?thesis by (rule array_sound) (use c 2 items_sound_all deeper in blast)+
  qed (use leaf_sound[OF less.prems c] in blast)
qed

end
