(* ===== verification/MeshComplete.thy ===== *)
theory MeshComplete
  imports MeshParseFacts
begin

text \<open>Completeness of the strict parser: every JSON text within the limits is read as its value.\<close>

subsection \<open>How texts begin\<close>

definition starts :: "units \<Rightarrow> bool" where
  "starts s \<longleftrightarrow> (\<exists>c r. s = c # r \<and> \<not> is_whitespace c \<and> c \<noteq> 93 \<and> c \<noteq> 125)"

lemma number_text_starts: "number_text s \<Longrightarrow> \<exists>c r. s = c # r \<and> (c = 45 \<or> digit_unit c)"
  by (auto simp: number_text_def number_parts_def lexeme_def digit_unit_def)

lemma text_starts:
  "value_text v s \<Longrightarrow> starts s" "items_text vs s \<Longrightarrow> starts s"
  "member_text m s \<Longrightarrow> \<exists>r. s = 34 # r" "members_text ms s \<Longrightarrow> \<exists>r. s = 34 # r"
proof (induction rule: value_text_items_text_member_text_members_text.inducts)
  case (text_number s)
  from number_text_starts[OF this] show ?case by (auto simp: starts_def is_whitespace_def digit_unit_def)
qed (auto simp: starts_def is_whitespace_def code_units_def)

lemma skip_to:
  "remaining p = w @ s \<Longrightarrow> ws w \<Longrightarrow> starts s \<Longrightarrow> remaining (skipWhitespace p) = s"
  "remaining p = w @ c # s \<Longrightarrow> ws w \<Longrightarrow> \<not> is_whitespace c \<Longrightarrow> remaining (skipWhitespace p) = c # s"
  by (auto simp: remaining_skip starts_def ws_def list_all_iff dropWhile_append2)

subsection \<open>One round of the loops\<close>

definition advanced :: "parser \<Rightarrow> nat \<Rightarrow> nat \<Rightarrow> units \<Rightarrow> parser \<Rightarrow> bool" where
  "advanced p ks is s q \<longleftrightarrow> remaining q = s \<and> totalObjectKeys q = totalObjectKeys p + ks
     \<and> totalArrayItems q = totalArrayItems p + is"

definition room :: "strict_json_limits \<Rightarrow> parser \<Rightarrow> nat \<Rightarrow> nat \<Rightarrow> bool" where
  "room L p ks is \<longleftrightarrow> totalObjectKeys p + ks \<le> maximumTotalObjectKeys L
     \<and> totalArrayItems p + is \<le> maximumTotalArrayItems L"

definition reads :: "strict_json_limits \<Rightarrow> nat \<Rightarrow> strict_value \<Rightarrow> units \<Rightarrow> bool" where
  "reads L d v s \<longleftrightarrow> (\<forall>path p u. remaining p = s @ u \<longrightarrow> number_ends u \<longrightarrow> room L p (value_keys v) (value_items v) \<longrightarrow>
     (\<exists>q. parseValue L path d p = Inr (v, q) \<and> advanced p (value_keys v) (value_items v) u q))"

lemma readsD:
  assumes "reads L d v s" "remaining p = s @ u" "number_ends u" "room L p (value_keys v) (value_items v)"
  obtains q where "parseValue L path d p = Inr (v, q)" "advanced p (value_keys v) (value_items v) u q"
  using assms unfolding reads_def by blast

lemma number_ends_delimiter: "ws w \<Longrightarrow> c \<in> {44, 93, 125} \<Longrightarrow> number_ends (w @ c # s)"
  by (auto simp: digit_unit_def)

lemma parseItems_step:
  assumes v: "reads L d v s" and w: "ws w" and c: "c = 93 \<or> c = 44"
    and p: "remaining p = s @ w @ c # u" "s \<noteq> []"
    and room: "count + 1 \<le> maximumArrayItems L" "room L p (value_keys v) (1 + value_items v)"
  obtains q where "advanced p (value_keys v) (1 + value_items v) u q"
    "parseItems L path d count p =
      (if c = 93 then Inr ([v], q)
       else bindE (parseItems L path d (count + 1) (skipWhitespace q)) (\<lambda>(items, r). Inr (v # items, r)))"
proof -
  let ?p = "p\<lparr>totalArrayItems := totalArrayItems p + 1\<rparr>"
  have "room L ?p (value_keys v) (value_items v)" using room by (simp add: room_def)
  moreover have "remaining ?p = s @ (w @ c # u)" "number_ends (w @ c # u)"
    using p number_ends_delimiter[OF w] c by auto
  ultimately obtain q where q: "parseValue L (path @ [PIndex count]) d ?p = Inr (v, q)"
    "advanced ?p (value_keys v) (value_items v) (w @ c # u) q"
    using readsD[OF v] by blast
  then have "remaining q = w @ c # u" by (simp add: advanced_def)
  from skip_to(2)[OF this w] c have cur: "current (skipWhitespace q) = Some c" "remaining (advance 1 (skipWhitespace q)) = u"
    by (auto simp: current_def is_whitespace_def)
  have g: "remaining p \<noteq> []" "totalArrayItems p + 1 \<le> maximumTotalArrayItems L"
    using p room(2) by (simp_all add: room_def)
  have "parseItems L path d count p =
      (if c = 93 then Inr ([v], advance 1 (skipWhitespace q))
       else bindE (parseItems L path d (count + 1) (skipWhitespace (advance 1 (skipWhitespace q))))
         (\<lambda>(items, r). Inr (v # items, r)))"
    using parseItems_run[OF g(1) room(1) g(2) q(1) refl] cur c by auto
  moreover have "advanced p (value_keys v) (1 + value_items v) u (advance 1 (skipWhitespace q))"
    using q(2) cur(2) by (simp add: advanced_def)
  ultimately show ?thesis using that by blast
qed

lemma parseMembers_step:
  assumes v: "reads L d v s" and w: "ws a" "ws b" "ws w" and c: "c = 125 \<or> c = 44"
    and p: "remaining p = 34 # t @ 34 # a @ 58 # b @ s @ w @ c # u" "starts s" "string_text k t"
    and k: "k \<notin> set keys" "isWellFormedUnicode k" "utf8_length k \<le> maximumStringBytes L"
    and room: "length keys + 1 \<le> maximumObjectKeys L" "room L p (1 + value_keys v) (value_items v)"
  obtains q where "advanced p (1 + value_keys v) (value_items v) u q"
    "parseMembers L path d keys p =
      (if c = 125 then Inr ([(k, v)], q)
       else bindE (parseMembers L path d (keys @ [k]) (skipWhitespace q)) (\<lambda>(members, r). Inr ((k, v) # members, r)))"
proof -
  let ?rest = "a @ 58 # b @ s @ w @ c # u"
  define p1 where "p1 = p\<lparr>remaining := ?rest\<rparr>"
  define p2 where "p2 = p1\<lparr>totalObjectKeys := totalObjectKeys p1 + 1\<rparr>"
  define p3 where "p3 = skipWhitespace p2"
  define p4 where "p4 = skipWhitespace (advance 1 p3)"
  have key: "parseString L path p = Inr (k, p1)"
    unfolding p1_def by (subst parseString_iff[OF p(1)]) (use p(3) k in blast)
  have "remaining p2 = a @ 58 # b @ s @ w @ c # u" by (simp add: p2_def p1_def)
  from skip_to(2)[OF this w(1)] have p3: "remaining p3 = 58 # b @ s @ w @ c # u"
    by (simp add: is_whitespace_def p3_def)
  then have "remaining (advance 1 p3) = b @ (s @ w @ c # u)" by simp
  from skip_to(1)[OF this w(2)] p(2) have p4: "remaining p4 = s @ (w @ c # u)" by (auto simp: starts_def p4_def)
  have "room L p4 (value_keys v) (value_items v)"
    using room by (simp add: room_def p4_def p3_def p2_def p1_def)
  with readsD[OF v p4] number_ends_delimiter[OF w(3)] c
  obtain q where q: "parseValue L (path @ [PKey k]) d p4 = Inr (v, q)"
      "advanced p4 (value_keys v) (value_items v) (w @ c # u) q" by blast
  define q2 where "q2 = skipWhitespace (member_end p4 d k q)"
  have "remaining (member_end p4 d k q) = w @ c # u" using q(2) by (simp add: advanced_def)
  from skip_to(2)[OF this w(3)] c have cur: "current q2 = Some c" "remaining (advance 1 q2) = u"
    by (auto simp: current_def is_whitespace_def q2_def)
  have g: "current p = Some 34" "current p3 = Some 58" "totalObjectKeys p1 + 1 \<le> maximumTotalObjectKeys L"
    using p room p3 by (simp_all add: current_def room_def p1_def)
  have "parseMembers L path d keys p =
      (if c = 125 then Inr ([(k, v)], advance 1 q2)
       else bindE (parseMembers L path d (keys @ [k]) (skipWhitespace (advance 1 q2)))
         (\<lambda>(members, r). Inr ((k, v) # members, r)))"
    using parseMembers_run[OF g(1) key k(1) room(1) g(3) p3_def[unfolded p2_def] g(2) p4_def q(1) q2_def] cur c
    by auto
  moreover have "advanced p (1 + value_keys v) (value_items v) u (advance 1 q2)"
    using q(2) cur(2) by (auto simp: advanced_def q2_def p4_def p3_def p2_def p1_def)
  ultimately show ?thesis using that by blast
qed

subsection \<open>The induction over the grammar\<close>

definition items_complete :: "strict_json_limits \<Rightarrow> strict_value list \<Rightarrow> units \<Rightarrow> bool" where
  "items_complete L vs s \<longleftrightarrow> (\<forall>d count path p u. list_all (strict_fits L d) vs \<longrightarrow>
     count + length vs \<le> maximumArrayItems L \<longrightarrow> remaining p = s @ 93 # u \<longrightarrow>
     room L p (sum_list (map value_keys vs)) (length vs + sum_list (map value_items vs)) \<longrightarrow>
     (\<exists>q. parseItems L path d count p = Inr (vs, q)
        \<and> advanced p (sum_list (map value_keys vs)) (length vs + sum_list (map value_items vs)) u q))"

abbreviation members_keys :: "(units \<times> strict_value) list \<Rightarrow> nat" where
  "members_keys ms \<equiv> length ms + sum_list (map (\<lambda>(k, v). value_keys v) ms)"

abbreviation members_items :: "(units \<times> strict_value) list \<Rightarrow> nat" where
  "members_items ms \<equiv> sum_list (map (\<lambda>(k, v). value_items v) ms)"

definition members_complete :: "strict_json_limits \<Rightarrow> (units \<times> strict_value) list \<Rightarrow> units \<Rightarrow> bool" where
  "members_complete L ms s \<longleftrightarrow> (\<forall>d keys path p u. list_all (member_fits L d) ms \<longrightarrow> distinct (map fst ms) \<longrightarrow>
     set keys \<inter> fst ` set ms = {} \<longrightarrow> length keys + length ms \<le> maximumObjectKeys L \<longrightarrow>
     remaining p = s @ 125 # u \<longrightarrow> room L p (members_keys ms) (members_items ms) \<longrightarrow>
     (\<exists>q. parseMembers L path d keys p = Inr (ms, q) \<and> advanced p (members_keys ms) (members_items ms) u q))"

definition member_complete :: "strict_json_limits \<Rightarrow> units \<times> strict_value \<Rightarrow> units \<Rightarrow> bool" where
  "member_complete L m s \<longleftrightarrow> (\<exists>t a b x. s = 34 # t @ 34 # a @ 58 # b @ x \<and> string_text (fst m) t \<and> ws a \<and> ws b
     \<and> starts x \<and> (\<forall>d. strict_fits L d (snd m) \<longrightarrow> reads L d (snd m) x))"

lemma room_mono: "room L p a b \<Longrightarrow> c \<le> a \<Longrightarrow> d \<le> b \<Longrightarrow> room L p c d"
  by (auto simp: room_def)

lemma room_after: "room L p (a + c) (b + d) \<Longrightarrow> advanced p a b s q \<Longrightarrow> room L (skipWhitespace q) c d"
  by (auto simp: room_def advanced_def)

lemma starts_append: "starts s \<Longrightarrow> starts (s @ t)"
  by (auto simp: starts_def)

lemma item_complete:
  assumes v: "\<And>d. strict_fits L d v \<Longrightarrow> reads L d v s" and s: "starts s" and w: "ws w"
  shows "items_complete L [v] (s @ w)"
  unfolding items_complete_def
proof (intro allI impI)
  fix d count path and p :: parser and u
  assume fits: "list_all (strict_fits L d) [v]" and n: "count + length [v] \<le> maximumArrayItems L"
    and p: "remaining p = (s @ w) @ 93 # u"
    and room: "room L p (sum_list (map value_keys [v])) (length [v] + sum_list (map value_items [v]))"
  have "remaining p = s @ w @ 93 # u" "s \<noteq> []" "reads L d v s" "count + 1 \<le> maximumArrayItems L"
    "room L p (value_keys v) (1 + value_items v)"
    using p s v fits n room by (auto simp: starts_def)
  from parseItems_step[OF this(3) w _ this(1,2,4,5), of path]
  show "\<exists>q. parseItems L path d count p = Inr ([v], q)
      \<and> advanced p (sum_list (map value_keys [v])) (length [v] + sum_list (map value_items [v])) u q"
    by force
qed

lemma items_step_complete:
  assumes v: "\<And>d. strict_fits L d v \<Longrightarrow> reads L d v s" and s: "starts s" and w: "ws w" "ws w'"
    and IH: "items_complete L vs t" "starts t"
  shows "items_complete L (v # vs) (s @ w @ 44 # w' @ t)"
  unfolding items_complete_def
proof (intro allI impI)
  fix d count path and p :: parser and u
  assume fits: "list_all (strict_fits L d) (v # vs)" and n: "count + length (v # vs) \<le> maximumArrayItems L"
    and p: "remaining p = (s @ w @ 44 # w' @ t) @ 93 # u"
    and room: "room L p (sum_list (map value_keys (v # vs))) (length (v # vs) + sum_list (map value_items (v # vs)))"
  let ?ks = "sum_list (map value_keys vs)" and ?is = "length vs + sum_list (map value_items vs)"
  have r: "room L p (value_keys v + ?ks) ((1 + value_items v) + ?is)" using room by (simp add: ac_simps)
  have "remaining p = s @ w @ 44 # (w' @ t @ 93 # u)" "s \<noteq> []" "reads L d v s" "count + 1 \<le> maximumArrayItems L"
    "room L p (value_keys v) (1 + value_items v)"
    using p s v fits n room_mono[OF r] by (auto simp: starts_def)
  from parseItems_step[OF this(3) w(1) _ this(1,2,4,5), of path] obtain q where
    q: "advanced p (value_keys v) (1 + value_items v) (w' @ (t @ 93 # u)) q"
    "parseItems L path d count p = bindE (parseItems L path d (count + 1) (skipWhitespace q)) (\<lambda>(items, r). Inr (v # items, r))"
    by auto
  then have "remaining (skipWhitespace q) = t @ 93 # u"
    by (intro skip_to(1)[OF _ w(2)]) (auto simp: advanced_def starts_append[OF IH(2)])
  moreover have "list_all (strict_fits L d) vs" "count + 1 + length vs \<le> maximumArrayItems L" using fits n by auto
  ultimately obtain q' where
    "parseItems L path d (count + 1) (skipWhitespace q) = Inr (vs, q')" "advanced (skipWhitespace q) ?ks ?is u q'"
    using IH(1) room_after[OF r q(1)] unfolding items_complete_def by blast
  then show "\<exists>q. parseItems L path d count p = Inr (v # vs, q)
      \<and> advanced p (sum_list (map value_keys (v # vs))) (length (v # vs) + sum_list (map value_items (v # vs))) u q"
    using q by (auto simp: advanced_def)
qed

lemma member_step_complete:
  assumes m: "member_complete L m s" and w: "ws w" and c: "c = 125 \<or> c = 44"
    and p: "remaining p = s @ w @ c # u" and fits: "member_fits L d m" "fst m \<notin> set keys"
    and room: "length keys + 1 \<le> maximumObjectKeys L" "room L p (1 + value_keys (snd m)) (value_items (snd m))"
  obtains q where "advanced p (1 + value_keys (snd m)) (value_items (snd m)) u q"
    "parseMembers L path d keys p =
      (if c = 125 then Inr ([m], q)
       else bindE (parseMembers L path d (keys @ [fst m]) (skipWhitespace q)) (\<lambda>(members, r). Inr (m # members, r)))"
proof -
  obtain k v where kv: "m = (k, v)" by (cases m)
  from m obtain t a b x where x: "s = 34 # t @ 34 # a @ 58 # b @ x" "string_text k t" "ws a" "ws b" "starts x"
      "\<And>d. strict_fits L d v \<Longrightarrow> reads L d v x"
    by (auto simp: member_complete_def kv)
  have rem: "remaining p = 34 # t @ 34 # a @ 58 # b @ x @ w @ c # u" using p x(1) by simp
  have v: "reads L d v x" and k: "k \<notin> set keys" "isWellFormedUnicode k" "utf8_length k \<le> maximumStringBytes L"
    using fits x(6) by (auto simp: member_fits_def kv)
  have "room L p (1 + value_keys v) (value_items v)" using room(2) by (simp add: kv)
  then show ?thesis
    using parseMembers_step[OF v x(3,4) w c rem x(5,2) k room(1)] that unfolding kv fst_conv snd_conv by blast
qed

lemma members_one_complete:
  assumes m: "member_complete L m s" and w: "ws w"
  shows "members_complete L [m] (s @ w)"
  unfolding members_complete_def
proof (intro allI impI)
  fix d keys path and p :: parser and u
  assume a: "list_all (member_fits L d) [m]" "distinct (map fst [m])" "set keys \<inter> fst ` set [m] = {}"
    "length keys + length [m] \<le> maximumObjectKeys L" "remaining p = (s @ w) @ 125 # u"
    "room L p (members_keys [m]) (members_items [m])"
  then show "\<exists>q. parseMembers L path d keys p = Inr ([m], q) \<and> advanced p (members_keys [m]) (members_items [m]) u q"
    using member_step_complete[OF m w, of 125 p u d keys path] by (fastforce split: prod.splits)
qed

lemma members_step_complete:
  assumes m: "member_complete L m s" and w: "ws w" "ws w'"
    and IH: "members_complete L ms t" "starts t"
  shows "members_complete L (m # ms) (s @ w @ 44 # w' @ t)"
  unfolding members_complete_def
proof (intro allI impI)
  fix d keys path and p :: parser and u
  assume fits: "list_all (member_fits L d) (m # ms)" and dist: "distinct (map fst (m # ms))"
    and keys: "set keys \<inter> fst ` set (m # ms) = {}" and n: "length keys + length (m # ms) \<le> maximumObjectKeys L"
    and p: "remaining p = (s @ w @ 44 # w' @ t) @ 125 # u"
    and room: "room L p (members_keys (m # ms)) (members_items (m # ms))"
  have r: "room L p ((1 + value_keys (snd m)) + members_keys ms) (value_items (snd m) + members_items ms)"
    using room by (simp add: ac_simps split: prod.splits)
  have "remaining p = s @ w @ 44 # (w' @ t @ 125 # u)" "member_fits L d m" "fst m \<notin> set keys"
    "length keys + 1 \<le> maximumObjectKeys L" "room L p (1 + value_keys (snd m)) (value_items (snd m))"
    using p fits keys n room_mono[OF r] by auto
  from member_step_complete[OF m w(1) _ this, of path] obtain q where
    q: "advanced p (1 + value_keys (snd m)) (value_items (snd m)) (w' @ (t @ 125 # u)) q"
    "parseMembers L path d keys p = bindE (parseMembers L path d (keys @ [fst m]) (skipWhitespace q)) (\<lambda>(members, r). Inr (m # members, r))"
    by auto
  then have "remaining (skipWhitespace q) = t @ 125 # u"
    by (intro skip_to(1)[OF _ w(2)]) (auto simp: advanced_def starts_append[OF IH(2)])
  moreover have "list_all (member_fits L d) ms" "distinct (map fst ms)" "set (keys @ [fst m]) \<inter> fst ` set ms = {}"
    "length (keys @ [fst m]) + length ms \<le> maximumObjectKeys L" using fits dist keys n by auto
  ultimately obtain q' where
    "parseMembers L path d (keys @ [fst m]) (skipWhitespace q) = Inr (ms, q')"
    "advanced (skipWhitespace q) (members_keys ms) (members_items ms) u q'"
    using IH(1) room_after[OF r q(1)] unfolding members_complete_def by blast
  then show "\<exists>q. parseMembers L path d keys p = Inr (m # ms, q)
      \<and> advanced p (members_keys (m # ms)) (members_items (m # ms)) u q"
    using q by (auto simp: advanced_def split: prod.splits)
qed

lemma reads_by:
  assumes "\<And>path p u. remaining p = s @ u \<Longrightarrow> number_ends u \<Longrightarrow> room L p (value_keys v) (value_items v) \<Longrightarrow>
    \<exists>q. parseValue L path d p = Inr (v, q) \<and> advanced p (value_keys v) (value_items v) u q"
  shows "reads L d v s"
  using assms by (simp add: reads_def)

lemma literal_complete:
  "reads L d SNull (code_units ''null'')" "reads L d (SBool True) (code_units ''true'')"
  "reads L d (SBool False) (code_units ''false'')"
  by (rule reads_by, simp add: parseValue.simps parseLiteral_def current_def code_units_def advanced_def advance_def)+

lemma number_complete:
  assumes "number_text s" "finite_lexeme s"
  shows "reads L d (SNum s) s"
proof (rule reads_by)
  fix path and p :: parser and u
  assume p: "remaining p = s @ u" "number_ends u"
  from number_text_starts[OF assms(1)] obtain c r where c: "s = c # r" "c = 45 \<or> digit_unit c" by blast
  then have "parseValue L path d p = parseNumber path p"
    using p(1) by (auto simp: parseValue.simps current_def digit_unit_def)
  with parseNumber_complete[OF p(1) assms p(2)]
  show "\<exists>q. parseValue L path d p = Inr (SNum s, q) \<and> advanced p (value_keys (SNum s)) (value_items (SNum s)) u q"
    by (simp add: advanced_def)
qed

lemma string_complete:
  assumes "string_text v t" "isWellFormedUnicode v" "utf8_length v \<le> maximumStringBytes L"
  shows "reads L d (SStr v) (34 # t @ [34])"
proof (rule reads_by)
  fix path and p :: parser and u
  assume p: "remaining p = (34 # t @ [34]) @ u"
  then have "parseString L path p = Inr (v, p\<lparr>remaining := u\<rparr>)"
    using parseString_iff[of p "t @ 34 # u"] assms by auto
  then show "\<exists>q. parseValue L path d p = Inr (SStr v, q) \<and> advanced p (value_keys (SStr v)) (value_items (SStr v)) u q"
    using p by (simp add: parseValue.simps current_def advanced_def)
qed

lemma array_run:
  assumes p: "remaining p = 91 # w @ x" and w: "ws w" and x: "starts x \<or> (\<exists>u. x = 93 # u)"
    and d: "d < maximumNestingDepth L"
  obtains q where "remaining q = x" "totalObjectKeys q = totalObjectKeys p" "totalArrayItems q = totalArrayItems p"
    "parseValue L path d p = (if \<exists>u. x = 93 # u then Inr (SArr [], advance 1 q)
       else bindE (parseItems L path (d + 1) 0 q) (\<lambda>(items, p). Inr (SArr items, p)))"
proof -
  let ?q = "skipWhitespace (advance 1 p)"
  have r: "remaining (advance 1 p) = w @ x" using p by simp
  have q: "remaining ?q = x"
    using x skip_to(1)[OF r w] skip_to(2)[of "advance 1 p" w 93] r w by (auto simp: is_whitespace_def)
  then have "current ?q = Some 93 \<longleftrightarrow> (\<exists>u. x = 93 # u)" by (simp add: current_Some)
  then have "parseValue L path d p = (if \<exists>u. x = 93 # u then Inr (SArr [], advance 1 ?q)
       else bindE (parseItems L path (d + 1) 0 ?q) (\<lambda>(items, p). Inr (SArr items, p)))"
    using p d by (simp add: parseValue.simps parseArray.simps current_def[of p] assertDepth_def)
  with q show ?thesis using that by simp
qed

lemma object_run:
  assumes p: "remaining p = 123 # w @ x" and w: "ws w" and x: "starts x \<or> (\<exists>u. x = 125 # u)"
    and d: "d < maximumNestingDepth L"
  obtains q where "remaining q = x" "totalObjectKeys q = totalObjectKeys p" "totalArrayItems q = totalArrayItems p"
    "parseValue L path d p = (if \<exists>u. x = 125 # u then Inr (SObj [], advance 1 q)
       else bindE (parseMembers L path (d + 1) [] q) (\<lambda>(members, p). Inr (SObj members, p)))"
proof -
  let ?q = "skipWhitespace (advance 1 p)"
  have r: "remaining (advance 1 p) = w @ x" using p by simp
  have q: "remaining ?q = x"
    using x skip_to(1)[OF r w] skip_to(2)[of "advance 1 p" w 125] r w by (auto simp: is_whitespace_def)
  then have "current ?q = Some 125 \<longleftrightarrow> (\<exists>u. x = 125 # u)" by (simp add: current_Some)
  then have "parseValue L path d p = (if \<exists>u. x = 125 # u then Inr (SObj [], advance 1 ?q)
       else bindE (parseMembers L path (d + 1) [] ?q) (\<lambda>(members, p). Inr (SObj members, p)))"
    using p d by (simp add: parseValue.simps parseObject.simps current_def[of p] assertDepth_def)
  with q show ?thesis using that by simp
qed

lemma array_complete:
  assumes items: "items_complete L vs s" "starts s" and w: "ws w" and fits: "strict_fits L d (SArr vs)"
  shows "reads L d (SArr vs) (91 # w @ s @ [93])"
proof (rule reads_by)
  fix path and p :: parser and u
  assume p: "remaining p = (91 # w @ s @ [93]) @ u" and room: "room L p (value_keys (SArr vs)) (value_items (SArr vs))"
  have p': "remaining p = 91 # w @ (s @ 93 # u)" using p by simp
  obtain q where q: "remaining q = s @ 93 # u" "totalObjectKeys q = totalObjectKeys p" "totalArrayItems q = totalArrayItems p"
    and run: "parseValue L path d p = (if \<exists>u'. s @ 93 # u = 93 # u' then Inr (SArr [], advance 1 q)
       else bindE (parseItems L path (d + 1) 0 q) (\<lambda>(items, p). Inr (SArr items, p)))"
    by (rule array_run[OF p' w, of d L path]) (use fits starts_append[OF items(2)] in auto)
  have "\<nexists>u'. s @ 93 # u = 93 # u'" using items(2) by (auto simp: starts_def)
  moreover have "room L q (sum_list (map value_keys vs)) (length vs + sum_list (map value_items vs))"
    using room q by (simp add: room_def)
  moreover have "list_all (strict_fits L (d + 1)) vs" "0 + length vs \<le> maximumArrayItems L" using fits by simp_all
  ultimately obtain r where "parseItems L path (d + 1) 0 q = Inr (vs, r)"
      "advanced q (sum_list (map value_keys vs)) (length vs + sum_list (map value_items vs)) u r"
    using items(1) q(1) unfolding items_complete_def by blast
  with run \<open>\<nexists>u'. s @ 93 # u = 93 # u'\<close> q(2,3)
  show "\<exists>q. parseValue L path d p = Inr (SArr vs, q)
      \<and> advanced p (value_keys (SArr vs)) (value_items (SArr vs)) u q"
    by (simp add: advanced_def)
qed

lemma object_complete:
  assumes members: "members_complete L ms s" "starts s" and w: "ws w" and fits: "strict_fits L d (SObj ms)"
  shows "reads L d (SObj ms) (123 # w @ s @ [125])"
proof (rule reads_by)
  fix path and p :: parser and u
  assume p: "remaining p = (123 # w @ s @ [125]) @ u" and room: "room L p (value_keys (SObj ms)) (value_items (SObj ms))"
  have p': "remaining p = 123 # w @ (s @ 125 # u)" using p by simp
  obtain q where q: "remaining q = s @ 125 # u" "totalObjectKeys q = totalObjectKeys p" "totalArrayItems q = totalArrayItems p"
    and run: "parseValue L path d p = (if \<exists>u'. s @ 125 # u = 125 # u' then Inr (SObj [], advance 1 q)
       else bindE (parseMembers L path (d + 1) [] q) (\<lambda>(members, p). Inr (SObj members, p)))"
    by (rule object_run[OF p' w, of d L path]) (use fits starts_append[OF members(2)] in auto)
  have "\<nexists>u'. s @ 125 # u = 125 # u'" using members(2) by (auto simp: starts_def)
  moreover have "room L q (members_keys ms) (members_items ms)" using room q by (simp add: room_def)
  moreover have "list_all (member_fits L (d + 1)) ms" "distinct (map fst ms)" "set [] \<inter> fst ` set ms = {}"
    "length [] + length ms \<le> maximumObjectKeys L" using fits by (simp_all add: member_fits_def)
  ultimately obtain r where "parseMembers L path (d + 1) [] q = Inr (ms, r)"
      "advanced q (members_keys ms) (members_items ms) u r"
    using members(1) q(1) unfolding members_complete_def by blast
  with run \<open>\<nexists>u'. s @ 125 # u = 125 # u'\<close> q(2,3)
  show "\<exists>q. parseValue L path d p = Inr (SObj ms, q)
      \<and> advanced p (value_keys (SObj ms)) (value_items (SObj ms)) u q"
    by (simp add: advanced_def)
qed

lemma empty_complete:
  assumes w: "ws w" and d: "d < maximumNestingDepth L"
  shows "reads L d (SArr []) (91 # w @ [93])" "reads L d (SObj []) (123 # w @ [125])"
proof -
  show "reads L d (SArr []) (91 # w @ [93])"
  proof (rule reads_by)
    fix path and p :: parser and u
    assume "remaining p = (91 # w @ [93]) @ u"
    then have p: "remaining p = 91 # w @ (93 # u)" by simp
    show "\<exists>q. parseValue L path d p = Inr (SArr [], q) \<and> advanced p (value_keys (SArr [])) (value_items (SArr [])) u q"
      by (rule array_run[OF p w _ d, of path]) (auto simp: advanced_def)
  qed
  show "reads L d (SObj []) (123 # w @ [125])"
  proof (rule reads_by)
    fix path and p :: parser and u
    assume "remaining p = (123 # w @ [125]) @ u"
    then have p: "remaining p = 123 # w @ (125 # u)" by simp
    show "\<exists>q. parseValue L path d p = Inr (SObj [], q) \<and> advanced p (value_keys (SObj [])) (value_items (SObj [])) u q"
      by (rule object_run[OF p w _ d, of path]) (auto simp: advanced_def)
  qed
qed

lemma text_complete:
  "value_text v s \<Longrightarrow> strict_fits L d v \<longrightarrow> reads L d v s"
  "items_text vs s \<Longrightarrow> items_complete L vs s"
  "member_text m s \<Longrightarrow> member_complete L m s"
  "members_text ms s \<Longrightarrow> members_complete L ms s"
proof (induction arbitrary: d and and and
    rule: value_text_items_text_member_text_members_text.inducts)
  case (text_array w vs s)
  with text_starts(2) array_complete show ?case by blast
next
  case (text_object w ms s)
  with text_starts(4)[OF text_object.hyps(2)] show ?case
    by (intro impI object_complete) (auto simp: starts_def is_whitespace_def)
next
  case (text_item v s w)
  then show ?case by (intro item_complete) (auto dest: text_starts(1))
next
  case (text_items v s w w' vs t)
  then show ?case by (intro items_step_complete) (auto dest: text_starts(1,2))
next
  case (text_pair k t a b v s)
  then show ?case using text_starts(1)[OF text_pair.hyps(4)] by (auto simp: member_complete_def)
next
  case (text_member m s w)
  then show ?case by (intro members_one_complete)
next
  case (text_members m s w w' ms t)
  then show ?case
    using text_starts(4)[OF text_members.hyps(4)]
    by (intro members_step_complete) (auto simp: starts_def is_whitespace_def)
qed (simp_all add: literal_complete number_complete string_complete empty_complete)

theorem parseValue_complete:
  assumes "value_text v s" "strict_fits L d v" "remaining p = s @ u" "number_ends u"
    and "room L p (value_keys v) (value_items v)"
  obtains q where "parseValue L path d p = Inr (v, q)" "advanced p (value_keys v) (value_items v) u q"
  using readsD[OF mp[OF text_complete(1)[OF assms(1)] assms(2)] assms(3-5)] by blast

end
