(* ===== verification/MeshRoundTrip.thy ===== *)
theory MeshRoundTrip
  imports MeshComplete
begin

text \<open>
  The canonical text of the mesh serializer is a text of the grammar, so the strict parser reads
  it back. \<open>strict_of\<close> is the value that the parser returns for a \<open>json\<close> value.
\<close>

fun strict_of :: "json \<Rightarrow> strict_value" where
  "strict_of JNull = SNull"
| "strict_of (JBool b) = SBool b"
| "strict_of (JNum n) = SNum (code_units (show_int n))"
| "strict_of (JStr s) = SStr (code_units s)"
| "strict_of (JArr vs) = SArr (map strict_of vs)"
| "strict_of (JObj fs) = SObj (map (\<lambda>(k, v). (code_units k, strict_of v)) fs)"

text \<open>
  What a JavaScript value gives besides: no object has two properties of one name, and the
  numbers of the model are safe integers.
\<close>

fun js_value :: "json \<Rightarrow> bool" where
  "js_value (JNum n) \<longleftrightarrow> isSafeInteger n"
| "js_value (JArr vs) \<longleftrightarrow> list_all js_value vs"
| "js_value (JObj fs) \<longleftrightarrow> distinct (map fst fs) \<and> list_all (\<lambda>(k, v). js_value v) fs"
| "js_value v \<longleftrightarrow> True"

subsection \<open>Code units and bytes of strings\<close>

lemma code_units_simps [simp]:
  "code_units [] = []" "code_units (c # s) = of_char c # code_units s"
  "code_units (s @ t) = code_units s @ code_units t" "length (code_units s) = length s"
  by (simp_all add: code_units_def)

lemma inj_code_units [simp]: "code_units s = code_units t \<longleftrightarrow> s = t"
  by (simp add: code_units_def inj_map_eq_map inj_on_def)

lemma is_units_code_units [simp]: "is_units (code_units s)"
proof (induction s)
  case (Cons c s)
  have "(of_char c :: nat) < 65536" using nat_of_char_less_256[of c] by linarith
  with Cons show ?case by simp
qed simp

lemma utf8_encode_code_units: "utf8_encode (code_units s) = map nat (encode_utf8 s)"
proof (induction s)
  case (Cons c s)
  define n where "n = (of_char c :: nat)"
  have n: "n < 0x800" "\<not> high_surrogate n" "\<not> low_surrogate n"
    using nat_of_char_less_256[of c] unfolding n_def by linarith+
  have i: "(of_char c :: int) = int n" unfolding n_def by (rule of_nat_of_char[symmetric])
  have "utf8_encode (code_units (c # s)) = utf8_char n @ utf8_encode (code_units s)"
    using n by (simp add: n_def[symmetric])
  also have "utf8_char n = map nat (encode_utf8 [c])"
    using n(1) by (simp add: encode_utf8_def utf8_char_def Let_def i nat_add_distrib nat_div_distrib nat_mod_distrib)
  finally show ?case using Cons by (simp add: encode_utf8_def)
qed (simp add: encode_utf8_def)

lemma utf8_length_code_units: "utf8_length (code_units s) = byteLength s"
  by (simp add: utf8_length_def byteLength_def utf8_encode_code_units)

subsection \<open>Scalars\<close>

lemma hex_hexdig: "n < 16 \<Longrightarrow> is_hex (of_char (hexdig n)) \<and> hex_value (of_char (hexdig n)) = n"
  by (auto simp: hexdig_def is_hex_def hex_value_def)

lemma string_text_char:
  assumes "string_text v t"
  shows "string_text (of_char c # v) (code_units (escape_char c) @ t)"
proof -
  let ?n = "of_char c :: nat"
  consider "?n \<in> {34, 92, 8, 9, 10, 12, 13}" | "?n < 32" "?n \<notin> {8, 9, 10, 12, 13}" | "32 \<le> ?n" "?n \<noteq> 34" "?n \<noteq> 92"
    by (cases "?n < 32") auto
  then show ?thesis
  proof cases
    case 1
    then have "\<exists>e. map_of escapes e = Some ?n \<and> code_units (escape_char c) = [92, e]"
      by (intro exI[of _ "if ?n = 8 then 98 else if ?n = 9 then 116 else if ?n = 10 then 110
        else if ?n = 12 then 102 else if ?n = 13 then 114 else ?n"]) (auto simp: escapes_def escape_char_def)
    with string_escape assms show ?thesis by fastforce
  next
    case 2
    then have d: "?n div 16 < 16" "?n mod 16 < 16" by simp_all
    have "string_text ((0 * 4096 + 0 * 256 + ?n div 16 * 16 + ?n mod 16) # v)
        (92 # 117 # 48 # 48 # of_char (hexdig (?n div 16)) # of_char (hexdig (?n mod 16)) # t)"
      using string_unicode[of 48 48 "of_char (hexdig (?n div 16))" "of_char (hexdig (?n mod 16))" v t] assms
        hex_hexdig[OF d(1)] hex_hexdig[OF d(2)] by (simp add: is_hex_def hex_value_def)
    moreover have "code_units (escape_char c) = [92, 117, 48, 48, of_char (hexdig (?n div 16)), of_char (hexdig (?n mod 16))]"
      using 2 by (simp add: escape_char_def Let_def)
    moreover have "0 * 4096 + 0 * 256 + ?n div 16 * 16 + ?n mod 16 = ?n" by simp
    ultimately show ?thesis by simp
  next
    case 3
    then have "code_units (escape_char c) = [?n]" by (simp add: escape_char_def)
    with 3 string_plain[of ?n v t] assms show ?thesis by simp
  qed
qed

lemma string_text_stringify: "\<exists>t. code_units (stringify_string s) = 34 # t @ [34] \<and> string_text (code_units s) t"
proof -
  have "string_text (code_units s) (code_units (concat (map escape_char s)))"
    by (induction s) (auto simp: string_end string_text_char)
  then show ?thesis by (intro exI[of _ "code_units (concat (map escape_char s))"]) (simp add: stringify_string_def quote_def)
qed

lemma digits_units: "list_all digit_unit (code_units (digits_nat n))"
  using digits_nat_all[of n] by (auto simp: list_all_iff code_units_def is_digit_def digit_unit_def)

lemma digits_head: "0 < n \<Longrightarrow> \<exists>c ds. code_units (digits_nat n) = c # ds \<and> 49 \<le> c \<and> c \<le> 57"
proof (induction n rule: digits_nat.induct)
  case (1 n)
  show ?case
  proof (cases "n < 10")
    case True
    with 1(2) show ?thesis by (subst digits_nat.simps) auto
  next
    case False
    then have "0 < n div 10" by (simp add: div_greater_zero_iff)
    with 1(1) False obtain c ds where "code_units (digits_nat (n div 10)) = c # ds \<and> 49 \<le> c \<and> c \<le> 57" by auto
    with False show ?thesis by (subst digits_nat.simps) simp
  qed
qed

lemma units_value_digits: "units_value (code_units (digits_nat n)) = int n"
proof -
  have "foldl (\<lambda>n d. 10 * n + int (d - 48)) (int a) (code_units s) = int (nat_of_digits a s)" for a s
  proof (induction s arbitrary: a)
    case (Cons c s)
    from Cons[of "10 * a + digit_val c"] show ?case by (simp add: digit_val_def)
  qed simp
  from this[of 0 "digits_nat n"] show ?thesis by (simp add: units_value_def)
qed

definition int_match :: "int \<Rightarrow> number_match" where
  "int_match n = \<lparr>sign_part = (if n < 0 then [45] else []), integer_part = code_units (digits_nat (nat \<bar>n\<bar>)),
     fraction_part = [], exponent_part = []\<rparr>"

lemma int_match: "number_parts (int_match n)" "lexeme (int_match n) = code_units (show_int n)"
proof -
  have "code_units (digits_nat m) = [48] \<or>
      (\<exists>c ds. code_units (digits_nat m) = c # ds \<and> 49 \<le> c \<and> c \<le> 57 \<and> list_all digit_unit ds)" for m
  proof (cases "m = 0")
    case True
    then show ?thesis by (subst digits_nat.simps) simp
  next
    case False
    with digits_head[of m] digits_units[of m] show ?thesis by auto
  qed
  then show "number_parts (int_match n)" by (simp add: number_parts_def int_match_def)
  show "lexeme (int_match n) = code_units (show_int n)" by (auto simp: lexeme_def int_match_def show_int_def)
qed

lemma int_lexeme:
  "number_text (code_units (show_int n))"
  "isSafeInteger n \<Longrightarrow> finite_lexeme (code_units (show_int n))"
proof -
  show "number_text (code_units (show_int n))" unfolding number_text_def using int_match by metis
  assume n: "isSafeInteger n"
  have "\<bar>n\<bar> < 2 ^ 1024 - 2 ^ 970"
  proof -
    from n have "\<bar>n\<bar> < 2 ^ 54" by (simp add: isSafeInteger_def maximumSafeInteger_def)
    also have "\<dots> \<le> 2 ^ 1024 - (2 ^ 970 :: int)" by simp
    finally show ?thesis .
  qed
  then have "number_finite (int_match n)"
    by (simp add: number_finite_def int_match_def units_value_digits exponent_value_def match_sign_def units_value_def[of "[]"] Let_def)
  with match_number_complete[OF int_match(1), of "[]" n] show "finite_lexeme (code_units (show_int n))"
    by (simp add: finite_lexeme_def int_match)
qed

subsection \<open>The canonical text is a text of the grammar\<close>

lemma items_text_joined:
  "list_all2 value_text vs (map code_units ss) \<Longrightarrow> vs \<noteq> [] \<Longrightarrow> items_text vs (code_units (joined ss))"
proof (induction ss arbitrary: vs rule: joined.induct)
  case (2 s)
  then obtain v where "vs = [v]" "value_text v (code_units s)" by (auto simp: list_all2_Cons2)
  with text_item[of v "code_units s" "[]"] show ?case by simp
next
  case (3 s t ss)
  then obtain v ws where "vs = v # ws" "value_text v (code_units s)" "list_all2 value_text ws (map code_units (t # ss))"
    by (auto simp: list_all2_Cons2)
  with text_items[of v "code_units s" "[]" "[]" ws] 3(1)[of ws] show ?case by auto
qed auto

lemma members_text_joined:
  "list_all2 member_text ms (map code_units ss) \<Longrightarrow> ms \<noteq> [] \<Longrightarrow> members_text ms (code_units (joined ss))"
proof (induction ss arbitrary: ms rule: joined.induct)
  case (2 s)
  then obtain m where "ms = [m]" "member_text m (code_units s)" by (auto simp: list_all2_Cons2)
  with text_member[of m "code_units s" "[]"] show ?case by simp
next
  case (3 s t ss)
  then obtain m ns where "ms = m # ns" "member_text m (code_units s)" "list_all2 member_text ns (map code_units (t # ss))"
    by (auto simp: list_all2_Cons2)
  with text_members[of m "code_units s" "[]" "[]" ns] 3(1)[of ns] show ?case by auto
qed auto

lemma render_text: "value_text (strict_of v) (code_units (render v))"
proof (induction v)
  case JNull
  with text_null show ?case by simp
next
  case (JBool b)
  with text_true text_false show ?case by simp
next
  case (JNum n)
  with text_number[OF int_lexeme(1)] show ?case by simp
next
  case (JStr s)
  with string_text_stringify[of s] text_string show ?case by fastforce
next
  case (JArr vs)
  show ?case
  proof (cases "vs = []")
    case True
    with text_array_empty[of "[]"] show ?thesis by simp
  next
    case False
    from JArr have "list_all2 value_text (map strict_of vs) (map code_units (map render vs))"
      by (simp add: list_all2_conv_all_nth)
    from items_text_joined[OF this] False text_array[of "[]"] show ?thesis by auto
  qed
next
  case (JObj fs)
  show ?case
  proof (cases "fs = []")
    case True
    with text_object_empty[of "[]"] show ?thesis by simp
  next
    case False
    have "member_text (code_units k, strict_of v) (code_units (stringify_string k @ CHR '':'' # render v))"
      if "(k, v) \<in> set fs" for k v
    proof -
      from string_text_stringify[of k] obtain t where t: "code_units (stringify_string k) = 34 # t @ [34]"
        "string_text (code_units k) t" by blast
      have "value_text (strict_of v) (code_units (render v))" using JObj that by fastforce
      with text_pair[OF t(2), of "[]" "[]"] show ?thesis by (simp add: t(1))
    qed
    then have "list_all2 member_text (map (\<lambda>(k, v). (code_units k, strict_of v)) fs)
        (map code_units (map (\<lambda>(k, v). stringify_string k @ CHR '':'' # render v) fs))"
      by (auto simp: list_all2_conv_all_nth split: prod.splits) (metis nth_mem)
    from members_text_joined[OF this] False text_object[of "[]"] show ?thesis by auto
  qed
qed

end
