(* ===== verification/MeshParseProperties.thy ===== *)
theory MeshParseProperties
  imports MeshRoundTrip
begin

text \<open>
  What the strict parser promises: it accepts exactly the JSON texts within its limits, reads the
  canonical text back, measures the payload, and reports failures at bounded paths.
\<close>

subsection \<open>Acceptance\<close>

definition within_limits :: "strict_json_limits \<Rightarrow> strict_value \<Rightarrow> bool" where
  "within_limits L v \<longleftrightarrow> strict_fits L 0 v \<and> value_keys v \<le> maximumTotalObjectKeys L
     \<and> value_items v \<le> maximumTotalArrayItems L"

lemma new_parser_simps [simp]:
  "remaining (new_parser s) = s" "totalObjectKeys (new_parser s) = 0" "totalArrayItems (new_parser s) = 0"
  "payloadByteLength (new_parser s) = None"
  by (simp_all add: new_parser_def)

lemma parse_source_sound:
  assumes "parse_source L s = Inr (v, n)"
  shows "document_text v s \<and> within_limits L v"
proof -
  let ?p = "skipWhitespace (new_parser s)"
  from assms obtain q where q: "parseValue L [] 0 ?p = Inr (v, q)" "remaining (skipWhitespace q) = []"
    by (auto simp: parse_source_def bindE_Inr_iff Let_def split: if_splits)
  from parseValue_sound[OF q(1)] obtain t where t: "remaining ?p = t @ remaining q" "value_text v t" "strict_fits L 0 v"
    "counts L ?p (value_keys v) (value_items v) q" by (auto simp: value_read_def)
  from skip_split[of "new_parser s"] skip_split[of q] t(1) q(2) obtain a b where
    "ws a" "ws b" "s = a @ t @ b" by auto
  moreover have "value_keys v \<le> maximumTotalObjectKeys L" "value_items v \<le> maximumTotalArrayItems L"
    using t(4) by (auto simp: counts_def)
  ultimately show ?thesis using t by (auto simp: document_text_def within_limits_def)
qed

lemma parse_source_complete:
  assumes "document_text v s" "within_limits L v"
  shows "\<exists>n. parse_source L s = Inr (v, n)"
proof -
  from assms(1) obtain a t b where s: "s = a @ t @ b" "ws a" "value_text v t" "ws b" by (auto simp: document_text_def)
  let ?p = "skipWhitespace (new_parser s)"
  have "remaining (new_parser s) = a @ (t @ b)" by (simp add: s)
  from skip_to(1)[OF this s(2)] have p: "remaining ?p = t @ b" using starts_append text_starts(1)[OF s(3)] by blast
  moreover have "number_ends b" using s(4) number_ends_ws(2)[of b "[]"] by simp
  moreover have "strict_fits L 0 v" "room L ?p (value_keys v) (value_items v)"
    using assms(2) by (auto simp: within_limits_def room_def)
  ultimately obtain q where q: "parseValue L [] 0 ?p = Inr (v, q)" "advanced ?p (value_keys v) (value_items v) b q"
    using parseValue_complete[OF s(3)] by blast
  then have "remaining (skipWhitespace q) = []" using s(4) by (simp add: advanced_def remaining_skip ws_def list_all_iff)
  with q(1) show ?thesis by (simp add: parse_source_def)
qed

lemma parse_source_iff:
  "(\<exists>n. parse_source L s = Inr (v, n)) \<longleftrightarrow> document_text v s \<and> within_limits L v"
  using parse_source_sound parse_source_complete by blast

text \<open>
  C25. The strict parser accepts exactly the JSON documents within its limits: for every byte
  sequence, it returns a value if and only if the bytes are the UTF-8 encoding of a text of that
  value, no longer than an envelope may be, and the value has no object with two equal keys, no
  lone surrogate, no infinite number, and respects the limits of depth, keys, items and strings.
\<close>

theorem strict_parser_exact:
  "(\<exists>n. parseStrictJsonDocument (Bytes b) L = Inr (v, n)) \<longleftrightarrow>
     length b \<le> maximumEnvelopeBytes L
     \<and> (\<exists>s. is_units s \<and> isWellFormedUnicode s \<and> b = utf8_encode s \<and> document_text v s)
     \<and> within_limits L v"
proof (cases "utf8_decode b")
  case None
  then have "\<nexists>s. isWellFormedUnicode s \<and> is_units s \<and> b = utf8_encode s"
    using utf8_decode_iff by (metis option.distinct(1))
  with None show ?thesis by (auto simp: parseStrictJsonDocument_def)
next
  case (Some s)
  then have "isWellFormedUnicode s \<and> is_units s \<and> b = utf8_encode s" by (simp add: utf8_decode_iff)
  moreover have "t = s" if "isWellFormedUnicode t" "is_units t" "b = utf8_encode t" for t
    using Some utf8_decode_iff[of b t] that by simp
  ultimately have "(\<exists>t. is_units t \<and> isWellFormedUnicode t \<and> b = utf8_encode t \<and> document_text v t) \<longleftrightarrow> document_text v s"
    by blast
  then show ?thesis using Some parse_source_iff[of L s v] by (simp add: parseStrictJsonDocument_def)
qed

subsection \<open>The round trip\<close>

lemma mesh_fits_norm [simp]: "mesh_fits L d (json_norm v) = mesh_fits L d v"
proof (induction L d v rule: mesh_fits.induct)
  case (2 L d fs)
  then show ?case by (auto simp: list_all_iff)
qed (auto simp: list_all_iff)

lemma distinct_map_sort_key: "distinct (map f (sort_key f xs)) = distinct (map f xs)"
proof -
  have "distinct (map f (insort_key f x xs)) \<longleftrightarrow> f x \<notin> f ` set xs \<and> distinct (map f xs)" for x xs
    by (induction xs) (auto simp: set_insort_key)
  then show ?thesis by (induction xs) simp_all
qed

lemma distinct_code_units: "distinct (map code_units ks) = distinct ks"
  by (simp add: distinct_map inj_on_def)

lemma js_value_norm [simp]: "js_value (json_norm v) = js_value v"
proof (induction v)
  case (JObj fs)
  have "distinct (map fst (sort_key fst (map (\<lambda>(k, v). (k, json_norm v)) fs))) = distinct (map fst fs)"
    unfolding distinct_map_sort_key by (simp add: case_prod_beta' comp_def)
  with JObj show ?case by (auto simp: list_all_iff)
qed (auto simp: list_all_iff)

lemma strict_counts:
  "value_keys (strict_of (json_norm v)) = object_keys v" "value_items (strict_of (json_norm v)) = array_items v"
proof (induction v)
  case (JArr vs)
  case 1 with JArr(1) show ?case by (simp add: comp_def cong: map_cong)
  case 2 with JArr(2) show ?case by (simp add: comp_def cong: map_cong)
next
  case (JObj fs)
  have "value_keys (strict_of (json_norm v)) = object_keys v" "value_items (strict_of (json_norm v)) = array_items v"
    if "(k, v) \<in> set fs" for k v using JObj that by fastforce+
  then have m: "map (\<lambda>x. value_keys (strict_of (json_norm (snd x)))) fs = map (\<lambda>x. object_keys (snd x)) fs"
    "map (\<lambda>x. value_items (strict_of (json_norm (snd x)))) fs = map (\<lambda>x. array_items (snd x)) fs" by auto
  case 1 show ?case
    by (simp add: comp_def case_prod_beta' sum_list_sort_key[of "\<lambda>x. value_keys (strict_of (snd x))"] m(1))
  case 2 show ?case
    by (simp add: comp_def case_prod_beta' sum_list_sort_key[of "\<lambda>x. value_items (strict_of (snd x))"] m(2))
qed simp_all

lemma strict_fits_of: "mesh_fits L d v \<Longrightarrow> js_value v \<Longrightarrow> strict_fits L d (strict_of v)"
proof (induction L d v rule: mesh_fits.induct)
  case (2 L d fs)
  have "map fst (map (\<lambda>(k, v). (code_units k, strict_of v)) fs) = map code_units (map fst fs)" by auto
  then have "distinct (map fst (map (\<lambda>(k, v). (code_units k, strict_of v)) fs)) = distinct (map fst fs)"
    by (simp only: distinct_code_units)
  moreover have "byteLength k \<le> maximumStringBytes L \<and> strict_fits L (d + 1) (strict_of v)" if "(k, v) \<in> set fs" for k v
    using 2 that by (fastforce simp: list_all_iff)
  ultimately show ?case using "2.prems" by (auto simp: list_all_iff utf8_length_code_units simp del: map_map)
qed (auto simp: list_all_iff utf8_length_code_units int_lexeme(2))

text \<open>
  C26. What the canonical serializer writes, the strict parser reads back: the bytes of a value
  parse, under the same limits, as the value with its object keys sorted.
\<close>

theorem canonical_parses_back:
  assumes "canonicalizeMeshJsonBytes v = Inr bytes" "js_value v"
  shows "\<exists>n. parseStrictJsonDocument (Bytes (map nat bytes)) DEFAULT_MESH_PROTOCOL_LIMITS
    = Inr (strict_of (json_norm v), n)"
proof -
  let ?D = DEFAULT_MESH_PROTOCOL_LIMITS and ?t = "render (json_norm v)"
  from assms(1) have v: "mesh_fits ?D 0 v" "object_keys v \<le> 2048" "array_items v \<le> 4096" "byteLength ?t \<le> 262144"
    and bytes: "bytes = encode_utf8 ?t" by (auto simp: canonicalizeMeshJsonBytes_iff mesh_ok_def)
  have b: "map nat bytes = utf8_encode (code_units ?t)" by (simp add: bytes utf8_encode_code_units)
  have "length (map nat bytes) \<le> maximumEnvelopeBytes ?D"
    using v(4) by (simp add: bytes byteLength_def DEFAULT_MESH_PROTOCOL_LIMITS_def)
  moreover have "within_limits ?D (strict_of (json_norm v))"
    using v assms(2) strict_fits_of[of ?D 0 "json_norm v"]
    by (simp add: within_limits_def strict_counts) (simp add: DEFAULT_MESH_PROTOCOL_LIMITS_def)
  moreover have "document_text (strict_of (json_norm v)) (code_units ?t)"
    unfolding document_text_def
    by (rule exI[of _ "[]"], rule exI[of _ "code_units ?t"], rule exI[of _ "[]"]) (simp add: render_text)
  moreover have "is_units (code_units ?t) \<and> isWellFormedUnicode (code_units ?t)" by simp
  ultimately show ?thesis unfolding strict_parser_exact b by blast
qed

subsection \<open>The measured payload\<close>

lemma parseString_payload: "parseString L path p = Inr (s, q) \<Longrightarrow> payloadByteLength q = payloadByteLength p"
  by (auto simp: parseString_def fail_at_def Let_def split: option.splits if_splits)

definition consumes :: "parser \<Rightarrow> parser \<Rightarrow> bool" where
  "consumes p q \<longleftrightarrow> (\<exists>x. remaining p = x @ remaining q)"

lemma consumes_trans: "consumes p q \<Longrightarrow> consumes q r \<Longrightarrow> consumes p r"
  by (metis consumes_def append_assoc)

lemma consumes_steps:
  "consumes p (skipWhitespace p)" "consumes p (advance n p)"
  "consumes p (skipWhitespace (p\<lparr>totalObjectKeys := k\<rparr>))"
  "consumes p (skipWhitespace (advance n p))" "consumes p (skipWhitespace (member_end p' d key p))"
proof -
  have skip: "consumes p (skipWhitespace p)" for p using skip_split[of p] by (auto simp: consumes_def)
  have advance: "consumes p (advance n p)" for p
    unfolding consumes_def by (rule exI[of _ "take n (remaining p)"]) simp
  show "consumes p (skipWhitespace p)" "consumes p (advance n p)" by (fact skip advance)+
  show "consumes p (skipWhitespace (advance n p))" by (rule consumes_trans[OF advance skip])
  show "consumes p (skipWhitespace (p\<lparr>totalObjectKeys := k\<rparr>))"
    using skip[of "p\<lparr>totalObjectKeys := k\<rparr>"] by (simp add: consumes_def)
  show "consumes p (skipWhitespace (member_end p' d key p))"
    using skip[of "member_end p' d key p"] by (simp add: consumes_def)
qed

lemma parseString_consumes: "current p = Some 34 \<Longrightarrow> parseString L path p = Inr (s, q) \<Longrightarrow> consumes p q"
  by (auto simp: current_Some parseString_iff consumes_def)

lemma items_keep_payload:
  assumes "\<And>path p v q. parseValue L path d p = Inr (v, q) \<Longrightarrow> payloadByteLength q = payloadByteLength p"
  shows "parseItems L path d count p = Inr (vs, q) \<Longrightarrow> payloadByteLength q = payloadByteLength p"
proof (induction "maximumArrayItems L - count" arbitrary: count p vs q rule: less_induct)
  case less
  from less.prems obtain v q0 q1 where r: "count + 1 \<le> maximumArrayItems L"
    "parseValue L (path @ [PIndex count]) d (p\<lparr>totalArrayItems := totalArrayItems p + 1\<rparr>) = Inr (v, q0)"
    "q1 = skipWhitespace q0"
    "current q1 = Some 93 \<and> vs = [v] \<and> q = advance 1 q1
     \<or> current q1 = Some 44 \<and> (\<exists>vs'. vs = v # vs'
         \<and> parseItems L path d (count + 1) (skipWhitespace (advance 1 q1)) = Inr (vs', q))"
    by (rule parseItems_Inr)
  have "payloadByteLength q1 = payloadByteLength p" using assms[OF r(2)] r(3) by simp
  moreover have "maximumArrayItems L - (count + 1) < maximumArrayItems L - count" using r(1) by simp
  ultimately show ?case using r(4) less.hyps by fastforce
qed

text \<open>What a round of an object's loop does to the payload, at the top level and below.\<close>

lemma members_payload:
  assumes v: "\<And>path p v q. parseValue L path d p = Inr (v, q) \<Longrightarrow> payloadByteLength q = payloadByteLength p"
  shows "parseMembers L path d keys p = Inr (ms, r) \<Longrightarrow>
    payloadByteLength r = payloadByteLength p \<and> \<not> (d = 1 \<and> code_units ''payload'' \<in> fst ` set ms)
    \<or> d = 1 \<and> (\<exists>w t x y. (code_units ''payload'', w) \<in> set ms \<and> value_text w t \<and> remaining p = x @ t @ y
        \<and> payloadByteLength r = Some (utf8_length t))"
proof (induction "maximumObjectKeys L - length keys" arbitrary: keys p ms r rule: less_induct)
  case less
  let ?pay = "code_units ''payload''"
  from less.prems obtain key p1 p3 p4 w q0 q where
    m: "current p = Some 34" "parseString L path p = Inr (key, p1)" "key \<notin> set keys" "length keys + 1 \<le> maximumObjectKeys L"
    "p3 = skipWhitespace (p1\<lparr>totalObjectKeys := totalObjectKeys p1 + 1\<rparr>)" "current p3 = Some 58"
    "p4 = skipWhitespace (advance 1 p3)" "parseValue L (path @ [PKey key]) d p4 = Inr (w, q0)"
    "q = skipWhitespace (member_end p4 d key q0)"
    "current q = Some 125 \<and> ms = [(key, w)] \<and> r = advance 1 q
     \<or> current q = Some 44 \<and> (\<exists>ms'. ms = (key, w) # ms'
         \<and> parseMembers L path d (keys @ [key]) (skipWhitespace (advance 1 q)) = Inr (ms', r))"
    by (rule parseMembers_Inr)
  have kept: "payloadByteLength q0 = payloadByteLength p"
    using v[OF m(8)] parseString_payload[OF m(2)] by (simp add: m(5,7))
  have p4: "consumes p p4"
    using consumes_trans[OF consumes_trans[OF parseString_consumes[OF m(1,2)] consumes_steps(3)] consumes_steps(4)]
    unfolding m(5,7) .
  then obtain x where x: "remaining p = x @ remaining p4" by (auto simp: consumes_def)
  from parseValue_sound[OF m(8)] obtain t where t: "remaining p4 = t @ remaining q0" "value_text w t"
    by (auto simp: value_read_def)
  have first: "payloadByteLength q = (if d = 1 \<and> key = ?pay then Some (utf8_length t) else payloadByteLength p)"
    using kept t(1) by (simp add: m(9) member_end_def consumed_def)
  from m(10) show ?case
  proof (elim disjE conjE exE)
    assume "ms = [(key, w)]" "r = advance 1 q"
    with first x t show ?thesis by (cases "d = 1 \<and> key = ?pay") auto
  next
    fix ms' assume c: "current q = Some 44" and ms: "ms = (key, w) # ms'"
      and rest: "parseMembers L path d (keys @ [key]) (skipWhitespace (advance 1 q)) = Inr (ms', r)"
    from members_sound_all[OF parseValue_sound rest] have "key \<notin> fst ` set ms'" by (auto simp: members_read_def)
    have "consumes p4 q0" using t(1) by (auto simp: consumes_def)
    then have "consumes p (skipWhitespace (advance 1 q))"
      unfolding m(9)
      by (rule consumes_trans[OF consumes_trans[OF consumes_trans[OF p4] consumes_steps(5)] consumes_steps(4)])
    then obtain y where y: "remaining p = y @ remaining (skipWhitespace (advance 1 q))" by (auto simp: consumes_def)
    have "maximumObjectKeys L - length (keys @ [key]) < maximumObjectKeys L - length keys" using m(4) by simp
    note IH = less.hyps[OF this rest]
    show ?thesis
    proof (cases "d = 1 \<and> key = ?pay")
      case True
      with IH \<open>key \<notin> fst ` set ms'\<close> have "payloadByteLength r = payloadByteLength q" by force
      with first True have "(?pay, w) \<in> set ms" "payloadByteLength r = Some (utf8_length t)" by (simp_all add: ms)
      moreover have "remaining p = x @ t @ remaining q0" using x t(1) by simp
      ultimately show ?thesis using t(2) True by blast
    next
      case False
      from IH show ?thesis
      proof (elim disjE conjE exE)
        assume "payloadByteLength r = payloadByteLength (skipWhitespace (advance 1 q))"
          "\<not> (d = 1 \<and> ?pay \<in> fst ` set ms')"
        with first False show ?thesis by (auto simp: ms)
      next
        fix w' t' x' y'
        assume "d = 1" "(?pay, w') \<in> set ms'" "value_text w' t'" "payloadByteLength r = Some (utf8_length t')"
          and "remaining (skipWhitespace (advance 1 q)) = x' @ t' @ y'"
        moreover from this(5) y have "remaining p = (y @ x') @ t' @ y'" by simp
        ultimately show ?thesis by (metis ms list.set_intros(2))
      qed
    qed
  qed
qed

lemma leaf_payload:
  assumes "parseValue L path d p = Inr (v, q)" "current p = Some c" "c \<noteq> 123" "c \<noteq> 91"
  shows "payloadByteLength q = payloadByteLength p \<and> (\<nexists>ms. v = SObj ms)"
  using assms by (auto simp: parseValue.simps parseLiteral_def parseNumber_def fail_at_def bindE_Inr_iff advance_def
      dest: parseString_payload split: if_splits option.splits)

lemma value_keeps_payload:
  "parseValue L path d p = Inr (v, q) \<Longrightarrow> 0 < d \<Longrightarrow> payloadByteLength q = payloadByteLength p"
proof (induction "maximumNestingDepth L - d" arbitrary: path d p v q rule: less_induct)
  case less
  have deeper: "payloadByteLength q = payloadByteLength p" if "d < maximumNestingDepth L" "parseValue L path (d + 1) p = Inr (v, q)"
    for path p v q by (rule less.hyps[OF _ that(2)]) (use that(1) in simp_all)
  from less.prems obtain c where c: "current p = Some c" by (auto simp: parseValue.simps split: option.splits)
  consider "c = 123" | "c = 91" | "c \<noteq> 123" "c \<noteq> 91" by blast
  then show ?case
  proof cases
    case 1
    with less.prems c have "parseObject L path (d + 1) p = Inr (v, q)" by (simp add: parseValue.simps)
    then show ?thesis using members_payload[of L "d + 1" path "[]"] deeper less.prems(2)
      by (fastforce simp: parseObject.simps bindE_Inr_iff Let_def split: if_splits)
  next
    case 2
    with less.prems c have "parseArray L path (d + 1) p = Inr (v, q)" by (simp add: parseValue.simps)
    then show ?thesis using items_keep_payload[of L "d + 1" path 0] deeper
      by (fastforce simp: parseArray.simps bindE_Inr_iff Let_def split: if_splits)
  next
    case 3
    with leaf_payload[OF less.prems(1) c] show ?thesis by blast
  qed
qed

text \<open>What the reported length \<open>n\<close> says of a value \<open>v\<close> that is read from the text \<open>s\<close>.\<close>

definition payload_report :: "strict_value \<Rightarrow> nat list \<Rightarrow> nat option \<Rightarrow> bool" where
  "payload_report v s n \<longleftrightarrow> (case n of
     None \<Rightarrow> \<forall>ms. v = SObj ms \<longrightarrow> code_units ''payload'' \<notin> fst ` set ms
   | Some k \<Rightarrow> \<exists>ms w t x y. v = SObj ms \<and> (code_units ''payload'', w) \<in> set ms \<and> value_text w t
       \<and> s = x @ t @ y \<and> k = utf8_length t)"

lemma payload_report_append: "payload_report v s n \<Longrightarrow> payload_report v (a @ s) n"
proof (cases n)
  case (Some k)
  moreover assume "payload_report v s n"
  ultimately obtain ms w t x y where "v = SObj ms" "(code_units ''payload'', w) \<in> set ms" "value_text w t"
    "a @ s = (a @ x) @ t @ y" "k = utf8_length t" by (auto simp: payload_report_def)
  then show ?thesis unfolding payload_report_def Some option.case by blast
qed (simp add: payload_report_def)

lemma value_payload: "parseValue L path 1 p = Inr (v, q) \<Longrightarrow> payloadByteLength q = payloadByteLength p"
  using value_keeps_payload by simp

lemma object_payload:
  assumes "parseObject L [] 1 p = Inr (v, q)" "payloadByteLength p = None"
  shows "payload_report v (remaining p) (payloadByteLength q)"
proof (cases "current (skipWhitespace (advance 1 p)) = Some 125")
  case True
  with assms show ?thesis by (auto simp: parseObject.simps bindE_Inr_iff payload_report_def)
next
  case False
  let ?q = "skipWhitespace (advance 1 p)"
  from False assms(1) obtain ms where ms: "parseMembers L [] 1 [] ?q = Inr (ms, q)" "v = SObj ms"
    by (auto simp: parseObject.simps bindE_Inr_iff)
  from consumes_steps(4)[of p 1] obtain y where y: "remaining p = y @ remaining ?q" unfolding consumes_def by blast
  have "payloadByteLength q = payloadByteLength ?q \<and> \<not> (1 = (1 :: nat) \<and> code_units ''payload'' \<in> fst ` set ms)
    \<or> 1 = (1 :: nat) \<and> (\<exists>w t x z. (code_units ''payload'', w) \<in> set ms \<and> value_text w t \<and> remaining ?q = x @ t @ z
        \<and> payloadByteLength q = Some (utf8_length t))"
    by (rule members_payload[of L 1, OF _ ms(1)]) (rule value_payload)
  then have "payload_report v (remaining ?q) (payloadByteLength q)"
    using assms(2) by (auto simp: payload_report_def ms(2)) blast
  then show ?thesis unfolding y by (rule payload_report_append)
qed

lemma array_payload:
  assumes "parseArray L [] 1 p = Inr (v, q)"
  shows "payloadByteLength q = payloadByteLength p \<and> (\<nexists>ms. v = SObj ms)"
proof -
  have "payloadByteLength q = payloadByteLength p" if "parseItems L [] 1 0 p = Inr (vs, q)" for p vs q
    by (rule items_keep_payload[of L 1, OF _ that]) (rule value_payload)
  with assms show ?thesis
    by (fastforce simp: parseArray.simps bindE_Inr_iff Let_def split: if_splits)
qed

lemma root_payload:
  assumes "parseValue L [] 0 p = Inr (v, q)" "payloadByteLength p = None"
  shows "payload_report v (remaining p) (payloadByteLength q)"
proof -
  from assms(1) obtain c where c: "current p = Some c" by (auto simp: parseValue.simps split: option.splits)
  consider "c = 123" | "c = 91" | "c \<noteq> 123" "c \<noteq> 91" by blast
  then show ?thesis
  proof cases
    case 1
    with assms c show ?thesis by (intro object_payload[of L]) (simp_all add: parseValue.simps)
  next
    case 2
    with assms c array_payload[of L p v q] show ?thesis by (simp add: parseValue.simps payload_report_def)
  next
    case 3
    with leaf_payload[OF assms(1) c] assms(2) show ?thesis by (simp add: payload_report_def)
  qed
qed

text \<open>
  The parser measures the payload: it reports a length exactly when the document is an
  object with a member \<open>payload\<close>, and then the number of UTF-8 bytes of the text of its value.
\<close>

theorem payload_measured:
  assumes "parseStrictJsonDocument input L = Inr (v, n)"
  shows "\<exists>s. (input = Text s \<or> input = Bytes (utf8_encode s)) \<and> document_text v s
    \<and> (case n of
         None \<Rightarrow> \<forall>ms. v = SObj ms \<longrightarrow> code_units ''payload'' \<notin> fst ` set ms
       | Some k \<Rightarrow> \<exists>ms w t x y. v = SObj ms \<and> (code_units ''payload'', w) \<in> set ms \<and> value_text w t
           \<and> s = x @ t @ y \<and> k = utf8_length t)"
proof -
  from assms obtain s where s: "input = Text s \<or> input = Bytes (utf8_encode s)" "parse_source L s = Inr (v, n)"
    by (auto simp: parseStrictJsonDocument_def utf8_decode_iff split: document_input.splits if_splits option.splits)
  let ?p = "skipWhitespace (new_parser s)"
  from s(2) obtain q where q: "parseValue L [] 0 ?p = Inr (v, q)" "n = payloadByteLength q"
    by (auto simp: parse_source_def bindE_Inr_iff Let_def split: if_splits)
  from consumes_steps(1)[of "new_parser s"] obtain a where a: "s = a @ remaining ?p" by (auto simp: consumes_def)
  have "payload_report v (remaining ?p) n" unfolding q(2) by (rule root_payload[OF q(1)]) simp
  then have "payload_report v s n" by (subst a) (rule payload_report_append)
  moreover have "document_text v s" using parse_source_sound[OF s(2)] by simp
  ultimately show ?thesis using s(1) unfolding payload_report_def by blast
qed

subsection \<open>Where failures are reported\<close>

definition units_path :: "path \<Rightarrow> bool" where
  "units_path path \<longleftrightarrow> (\<forall>k. PKey k \<in> set path \<longrightarrow> isWellFormedUnicode k)"

lemma units_path_simps [simp]: "units_path []" "units_path (path @ [PIndex n]) \<longleftrightarrow> units_path path"
  "units_path (path @ [PKey k]) \<longleftrightarrow> units_path path \<and> isWellFormedUnicode k"
  by (auto simp: units_path_def)

definition reported :: "strict_json_failure \<Rightarrow> bool" where
  "reported e \<longleftrightarrow> (\<exists>code path. units_path path \<and> e = (code, formatJsonPath path))"

lemma fail_at_Inl [simp]: "fail_at code path = Inl e \<longleftrightarrow> e = (code, formatJsonPath path)"
  by (auto simp: fail_at_def)

lemma reportedI [intro]: "units_path path \<Longrightarrow> reported (code, formatJsonPath path)"
  by (auto simp: reported_def)

lemma bindE_Inl_iff: "bindE m f = Inl e \<longleftrightarrow> m = Inl e \<or> (\<exists>x. m = Inr x \<and> f x = Inl e)"
  by (cases m) auto

lemma parseString_reported: "parseString L path p = Inl e \<Longrightarrow> units_path path \<Longrightarrow> reported e"
  by (auto simp: parseString_def Let_def split: option.splits if_splits)

lemma parseString_units: "parseString L path p = Inr (s, q) \<Longrightarrow> isWellFormedUnicode s"
  by (auto simp: parseString_def fail_at_def Let_def split: option.splits if_splits)

lemma members_reported:
  assumes v: "\<And>path p e. parseValue L path d p = Inl e \<Longrightarrow> units_path path \<Longrightarrow> reported e" and path: "units_path path"
  shows "parseMembers L path d keys p = Inl e \<Longrightarrow> reported e"
proof (induction "maximumObjectKeys L - length keys" arbitrary: keys p e rule: less_induct)
  case less
  have "reported e" if "length keys + 1 \<le> maximumObjectKeys L" "parseMembers L path d (keys @ [k]) p = Inl e" for k p e
    by (rule less.hyps[OF _ that(2)]) (use that(1) in simp)
  moreover have "reported e" if "parseValue L (path @ [PKey k]) d p = Inl e" "parseString L path p' = Inr (k, q)" for k p p' q e
    using v[OF that(1)] parseString_units[OF that(2)] path by simp
  ultimately show ?case using less.prems[unfolded parseMembers.simps[of L path d keys p]] path
    by (cases e) (auto simp: bindE_Inl_iff Let_def intro!: reportedI intro: parseString_units parseString_reported split: if_splits)
qed

lemma items_reported:
  assumes v: "\<And>path p e. parseValue L path d p = Inl e \<Longrightarrow> units_path path \<Longrightarrow> reported e" and path: "units_path path"
  shows "parseItems L path d count p = Inl e \<Longrightarrow> reported e"
proof (induction "maximumArrayItems L - count" arbitrary: count p e rule: less_induct)
  case less
  have "reported e" if "count + 1 \<le> maximumArrayItems L" "parseItems L path d (count + 1) p = Inl e" for p e
    by (rule less.hyps[OF _ that(2)]) (use that(1) in simp)
  then show ?case using less.prems[unfolded parseItems.simps[of L path d count p]] path
    by (cases e) (auto simp: bindE_Inl_iff Let_def intro: v split: if_splits)
qed

lemma value_reported: "parseValue L path d p = Inl e \<Longrightarrow> units_path path \<Longrightarrow> reported e"
proof (induction "maximumNestingDepth L - d" arbitrary: path d p e rule: less_induct)
  case less
  have deeper: "reported e" if "d < maximumNestingDepth L" "parseValue L path (d + 1) p = Inl e" "units_path path" for path p e
    by (rule less.hyps[OF _ that(2,3)]) (use that(1) in simp)
  have object: "reported e" if "parseObject L path (d + 1) p = Inl e" for p e
    using that less.prems(2) members_reported[OF deeper]
    by (auto simp: parseObject.simps bindE_Inl_iff Let_def assertDepth_def split: if_splits)
  have array: "reported e" if "parseArray L path (d + 1) p = Inl e" for p e
    using that less.prems(2) items_reported[OF deeper]
    by (auto simp: parseArray.simps bindE_Inl_iff Let_def assertDepth_def split: if_splits)
  show ?case using less.prems object array
    by (auto simp: parseValue.simps parseLiteral_def parseNumber_def bindE_Inl_iff
        intro: parseString_reported split: option.splits if_splits)
qed

lemma source_reported:
  assumes "parse_source L s = Inl e"
  shows "reported e"
proof -
  from assms consider "parseValue L [] 0 (skipWhitespace (new_parser s)) = Inl e" | "e = (Invalid_json, formatJsonPath [])"
    by (auto simp: parse_source_def bindE_Inl_iff Let_def split: if_splits)
  then show ?thesis by cases (simp_all add: value_reported reportedI)
qed

lemma document_reported:
  assumes "parseStrictJsonDocument input L = Inl e"
  shows "reported e"
proof -
  have "(\<exists>code. e = (code, formatJsonPath [])) \<or> (\<exists>s. parse_source L s = Inl e)"
  proof (cases input)
    case (Text s)
    with assms show ?thesis by (simp add: parseStrictJsonDocument_def split: if_splits) blast+
  next
    case (Bytes b)
    with assms show ?thesis by (simp add: parseStrictJsonDocument_def split: if_splits option.splits) blast+
  qed
  then show ?thesis
  proof (elim disjE exE)
    fix code assume "e = (code, formatJsonPath [])"
    then show ?thesis by (simp add: reportedI)
  qed (rule source_reported)
qed

text \<open>Prefixes of a well-formed text that do not cut a pair.\<close>

lemma well_formed_append: "isWellFormedUnicode s \<Longrightarrow> isWellFormedUnicode t \<Longrightarrow> isWellFormedUnicode (s @ t)"
proof (induction s rule: isWellFormedUnicode.induct)
  case (2 code rest)
  show ?case
  proof (cases "high_surrogate code")
    case True
    with "2.prems" obtain low rest' where r: "rest = low # rest'" "low_surrogate low" "isWellFormedUnicode rest'"
      by (cases rest) (auto split: if_splits)
    with "2.IH"(1)[OF True r(1)] "2.prems" True show ?thesis by auto
  next
    case False
    with "2.prems" have "isWellFormedUnicode rest" "\<not> low_surrogate code" by (auto split: if_splits)
    with "2.IH"(2)[OF False] "2.prems" False show ?thesis by auto
  qed
qed simp

lemma well_formed_plain: "\<forall>c \<in> set s. c < 0xd800 \<Longrightarrow> isWellFormedUnicode s"
  by (induction s) auto

lemma well_formed_take:
  "isWellFormedUnicode s \<Longrightarrow> n \<le> length s \<Longrightarrow> n = 0 \<or> \<not> high_surrogate (s ! (n - 1)) \<Longrightarrow> isWellFormedUnicode (take n s)"
proof (induction s arbitrary: n rule: isWellFormedUnicode.induct)
  case (2 code rest)
  show ?case
  proof (cases "high_surrogate code")
    case True
    with "2.prems" obtain low rest' where r: "rest = low # rest'" "low_surrogate low" "isWellFormedUnicode rest'"
      by (cases rest) (auto split: if_splits)
    consider "n = 0" | "n = 1" | m where "n = Suc (Suc m)" by (metis One_nat_def not0_implies_Suc)
    then show ?thesis
    proof cases
      case 3
      with "2.prems" r have "m \<le> length rest'" "m = 0 \<or> \<not> high_surrogate (rest' ! (m - 1))"
        by (auto simp: nth_Cons' split: if_splits)
      with "2.IH"(1)[OF _ r(1)] True r 3 show ?thesis by auto
    qed (use True "2.prems" in auto)
  next
    case False
    with "2.prems" have r: "isWellFormedUnicode rest" "\<not> low_surrogate code" by (auto split: if_splits)
    show ?thesis
    proof (cases n)
      case (Suc m)
      with "2.prems" have "m \<le> length rest" "m = 0 \<or> \<not> high_surrogate (rest ! (m - 1))"
        by (auto simp: nth_Cons' split: if_splits)
      with "2.IH"(2) False r Suc show ?thesis by auto
    qed simp
  qed
qed simp

lemma well_formed_pair:
  "isWellFormedUnicode s \<Longrightarrow> Suc i < length s \<Longrightarrow> high_surrogate (s ! i) \<Longrightarrow> low_surrogate (s ! Suc i)"
proof (induction s arbitrary: i rule: isWellFormedUnicode.induct)
  case (2 code rest)
  show ?case
  proof (cases "high_surrogate code")
    case True
    with "2.prems" obtain low rest' where r: "rest = low # rest'" "low_surrogate low" "isWellFormedUnicode rest'"
      by (cases rest) (auto split: if_splits)
    consider "i = 0" | "i = 1" | m where "i = Suc (Suc m)" by (metis One_nat_def not0_implies_Suc)
    then show ?thesis
    proof cases
      case 3
      with "2.IH"(1)[OF _ r(1), of m] "2.prems" True r show ?thesis by auto
    qed (use "2.prems" r in auto)
  next
    case False
    with "2.prems" have r: "isWellFormedUnicode rest" "\<not> low_surrogate code" by (auto split: if_splits)
    with "2.IH"(2) False "2.prems" show ?thesis by (cases i) auto
  qed
qed simp

lemma well_formed_dots: "isWellFormedUnicode s \<Longrightarrow> isWellFormedUnicode (s @ [46, 46, 46])"
  by (rule well_formed_append) simp_all

lemma truncate_bounded:
  assumes "isWellFormedUnicode s" "256 < length s"
  shows "length (truncatePath s) \<le> 256 \<and> isWellFormedUnicode (truncatePath s)"
proof (cases "high_surrogate (s ! 252)")
  case True
  have "\<not> high_surrogate (s ! 251)" using well_formed_pair[OF assms(1), of 251] assms(2) True by auto
  then have "isWellFormedUnicode (take 252 s)" using assms by (intro well_formed_take) auto
  with True assms show ?thesis by (auto simp: truncatePath_def intro: well_formed_dots)
next
  case False
  then have "isWellFormedUnicode (take 253 s)" using assms by (intro well_formed_take) auto
  with False assms show ?thesis by (auto simp: truncatePath_def intro: well_formed_dots)
qed

lemma hex_unit_bound: "n < 16 \<Longrightarrow> hex_unit n < 0xd800"
  by (simp add: hex_unit_def)

lemma stringify_well_formed: "isWellFormedUnicode s \<Longrightarrow> isWellFormedUnicode (stringify_body s)"
proof (induction s rule: stringify_body.induct)
  case (2 code rest)
  show ?case
  proof (cases "high_surrogate code")
    case True
    with "2.prems" obtain low rest' where "rest = low # rest'" "low_surrogate low" "isWellFormedUnicode rest'"
      by (cases rest) (auto split: if_splits)
    with "2.IH" True show ?thesis by auto
  next
    case False
    with "2.prems" have r: "isWellFormedUnicode rest" "\<not> low_surrogate code" by (auto split: if_splits)
    have "isWellFormedUnicode (escape_unit code)"
    proof (cases "code < 32")
      case True
      then have "code div 16 < 16" by simp
      with True show ?thesis
        by (intro well_formed_plain) (auto simp: escape_unit_def escape_u_def hex_unit_def)
    qed (use False r in \<open>auto simp: escape_unit_def\<close>)
    with "2.IH" False r show ?thesis by (auto intro: well_formed_append)
  qed
qed simp

lemma part_well_formed: "units_path (part # path) \<Longrightarrow> isWellFormedUnicode (part_text part)"
  by (cases part)
    (auto simp: units_path_def stringify_units_def intro!: well_formed_append stringify_well_formed)

lemma format_bounded:
  "units_path path \<Longrightarrow> isWellFormedUnicode s \<Longrightarrow> length s \<le> 256 \<Longrightarrow>
    length (format_parts s path) \<le> 256 \<and> isWellFormedUnicode (format_parts s path)"
proof (induction path arbitrary: s)
  case (Cons part path)
  have w: "isWellFormedUnicode (s @ part_text part)"
    by (rule well_formed_append[OF Cons.prems(2) part_well_formed[OF Cons.prems(1)]])
  have "units_path path" using Cons.prems(1) by (simp add: units_path_def)
  with truncate_bounded[OF w] Cons.IH[OF _ w] show ?case
    by (cases "256 < length (s @ part_text part)") (simp_all add: Let_def)
qed simp

text \<open>
  Every refused document is reported at a path of at most 256 code units which is
  well-formed Unicode: the truncation never cuts a surrogate pair, however long the keys are.
\<close>

theorem failure_path_bounded:
  assumes "parseStrictJsonDocument input L = Inl (code, path)"
  shows "length path \<le> 256 \<and> isWellFormedUnicode path"
proof -
  from document_reported[OF assms] obtain parts where "units_path parts" "path = formatJsonPath parts"
    by (auto simp: reported_def)
  then show ?thesis using format_bounded[of parts "[36]"] by (simp add: formatJsonPath_def)
qed

subsection \<open>Samples\<close>

definition sample_document :: json where
  "sample_document = JObj [(''b'', JArr [JStr ''x'', JNull]), (''a'', JBool True)]"

theorem canonical_parses_back_witness:
  "\<exists>n. parseStrictJsonDocument (Bytes (map nat (encode_utf8 (render (json_norm sample_document)))))
      DEFAULT_MESH_PROTOCOL_LIMITS = Inr (strict_of (JObj [(''a'', JBool True), (''b'', JArr [JStr ''x'', JNull])]), n)"
proof -
  have norm: "json_norm sample_document = JObj [(''a'', JBool True), (''b'', JArr [JStr ''x'', JNull])]"
    by (simp add: sample_document_def)
  moreover have "js_value sample_document" by (simp add: sample_document_def)
  moreover have "mesh_ok sample_document"
    unfolding mesh_ok_def norm
    by (simp add: sample_document_def DEFAULT_MESH_PROTOCOL_LIMITS_def stringify_string_def escape_char_def quote_def
        byteLength_ascii)
  ultimately
  show ?thesis using canonical_parses_back[of sample_document] by (simp add: canonicalizeMeshJsonBytes_iff)
qed

text \<open>
  The parser runs on a concrete text by rewriting, if nothing is rewritten inside a
  continuation before it is reached.
\<close>

lemma bindE_weak: "m = m' \<Longrightarrow> bindE m f = bindE m' f"
  by simp

lemmas run_defs = parseStrictJsonDocument_def parse_source_def new_parser_def parseValue.simps parseObject.simps
  parseArray.simps parseMembers.simps parseItems.simps assertDepth_def current_def advance_def skipWhitespace_def
  is_whitespace_def parseString_def parseLiteral_def fail_at_def json_parse_string_def Let_def
  DEFAULT_MESH_PROTOCOL_LIMITS_def utf8_length_def utf8_char_def consumed_def formatJsonPath_def
  digit_unit_def stringify_units_def escape_unit_def

lemma one_digit: "digits_nat (Suc 0) = ''1''"
  by code_simp

text \<open>The document \<open>{"payload": "e"}\<close> with an acute accent on the e: the value has three characters and four bytes.\<close>

definition sample_source :: units where
  "sample_source = [123, 34] @ code_units ''payload'' @ [34, 58, 32, 34, 233, 34, 125]"

lemma sample_parse:
  "parseStrictJsonDocument (Text sample_source) DEFAULT_MESH_PROTOCOL_LIMITS
     = Inr (SObj [(code_units ''payload'', SStr [233])], Some 4)"
  unfolding sample_source_def by (simp add: run_defs cong: bindE_weak let_weak_cong)

theorem payload_measured_witness:
  "parseStrictJsonDocument (Text sample_source) DEFAULT_MESH_PROTOCOL_LIMITS
      = Inr (SObj [(code_units ''payload'', SStr [233])], Some 4)
   \<and> (\<exists>t x y. value_text (SStr [233]) t \<and> sample_source = x @ t @ y \<and> 4 = utf8_length t)"
  using payload_measured[OF sample_parse] sample_parse by auto

lemma sample_failure:
  "parseStrictJsonDocument (Text ([123, 34, 97, 34, 58, 91] @ code_units ''null,]}'')) DEFAULT_MESH_PROTOCOL_LIMITS
     = Inl (Invalid_json, [36, 91, 34, 97, 34, 93, 91, 49, 93])"
  by (simp add: run_defs one_digit cong: bindE_weak let_weak_cong)

theorem failure_path_bounded_witness:
  "parseStrictJsonDocument (Text ([123, 34, 97, 34, 58, 91] @ code_units ''null,]}'')) DEFAULT_MESH_PROTOCOL_LIMITS
     = Inl (Invalid_json, code_units ''$['' @ [34, 97, 34] @ code_units ''][1]'')
   \<and> length (code_units ''$['' @ [34, 97, 34] @ code_units ''][1]'') \<le> 256"
  using failure_path_bounded[OF sample_failure] sample_failure by simp

end
