(* ===== verification/AgSparse.thy ===== *)
theory AgSparse
  imports AgCodec
begin

text \<open>
  \<open>packages/collective-quorum/src/sparse-agreement.ts\<close>: agreement by small committees. A
  committee is drawn from a membership by ranking digests under a seed, with a cap for each
  independence group; its members sign shares; a quorum of shares makes a committee certificate
  with an aggregate signature; the certificates of the required shards and one of the
  reconciliation committee make a finality certificate; two finality certificates make a joint
  reconfiguration. The aggregate signature scheme is a port: its operations are parameters
  (\<open>Inl\<close> when the returned promise is rejected). The methods are asynchronous, but each
  awaits what it calls before it goes on and shares no state with another call.
\<close>

subsection \<open>Data\<close>

record sparse_validator =
  sv_peerId :: string
  sv_instanceId :: string
  sv_keyId :: string
  sv_eligibilityDigest :: string
  sv_independenceGroupId :: string

record sparse_membership =
  sm_schemaVersion :: int
  sm_epoch :: int
  sm_configurationDigest :: string
  sm_selectionSeedDigest :: string
  sm_validators :: "sparse_validator list"

text \<open>The input of a policy is a policy without its schema version and digest.\<close>

record sparse_policy_input =
  sp_policyId :: string
  sp_policyVersion :: int
  sp_committeeSize :: int
  sp_faultThreshold :: int
  sp_reconciliationCommitteeSize :: int
  sp_reconciliationFaultThreshold :: int
  sp_maximumCommittees :: int
  sp_maximumValidatorsPerIndependenceGroup :: int

record sparse_policy = sparse_policy_input +
  sp_schemaVersion :: int
  sp_policyDigest :: string

record sparse_assignment =
  sa_schemaVersion :: int
  sa_committeeId :: string
  sa_purpose :: string
  sa_shardId :: string
  sa_epoch :: int
  sa_membershipConfigurationDigest :: string
  sa_policyDigest :: string
  sa_validators :: "sparse_validator list"
  sa_faultThreshold :: int
  sa_quorumThreshold :: int
  sa_assignmentDigest :: string

record sparse_share =
  sh_schemaVersion :: int
  sh_committeeAssignmentDigest :: string
  sh_coordinateDigest :: string
  sh_proposalDigest :: string
  sh_valueDigest :: string
  sh_phase :: string
  sh_signerPeerId :: string
  sh_signerInstanceId :: string
  sh_signerKeyId :: string
  sh_signature :: string
  sh_shareDigest :: string

record sparse_aggregate =
  au_algorithm :: string
  au_signerPeerIds :: "string list"
  au_signerSetDigest :: string
  au_value :: string

record sparse_certificate =
  scc_schemaVersion :: int
  scc_certificateId :: string
  scc_assignment :: sparse_assignment
  scc_coordinateDigest :: string
  scc_proposalDigest :: string
  scc_valueDigest :: string
  scc_phase :: string
  scc_aggregateSignature :: sparse_aggregate
  scc_shareDigests :: "string list"
  scc_certifiedAtLogicalMs :: int
  scc_certificateDigest :: string

record sparse_finality =
  sf_schemaVersion :: int
  sf_certificateId :: string
  sf_coordinateDigest :: string
  sf_proposalDigest :: string
  sf_valueDigest :: string
  sf_epoch :: int
  sf_membershipConfigurationDigest :: string
  sf_policyDigest :: string
  sf_requiredShardIds :: "string list"
  sf_shardCertificateDigests :: "string list"
  sf_shardCertificateRootDigest :: string
  sf_reconciliationCertificate :: sparse_certificate
  sf_finalizedAtLogicalMs :: int
  sf_certificateDigest :: string

record sparse_joint =
  sj_schemaVersion :: int
  sj_priorMembershipConfigurationDigest :: string
  sj_nextMembershipConfigurationDigest :: string
  sj_priorFinalityCertificate :: sparse_finality
  sj_nextFinalityCertificate :: sparse_finality
  sj_certificateDigest :: string

record sparse_signatures =
  ss_algorithm :: string
  ss_verifyShare :: "sparse_validator \<Rightarrow> string \<Rightarrow> string \<Rightarrow> bool res"
  ss_aggregate :: "string \<Rightarrow> sparse_share list \<Rightarrow> sparse_aggregate res"
  ss_verifyAggregate :: "string \<Rightarrow> sparse_validator list \<Rightarrow> sparse_aggregate \<Rightarrow> bool res"

subsection \<open>Digests and checks of fields\<close>

definition collectiveQuorumDigestV1 :: "'k platform \<Rightarrow> json \<Rightarrow> string res" where
  "collectiveQuorumDigestV1 P v = (case canonicalizeMeshJsonBytes v of
     Inl _ \<Rightarrow> Inl (TypeError ''Value is not canonical JSON'')
   | Inr bytes \<Rightarrow> (case pl_digest P bytes of
       None \<Rightarrow> Inl (CollectiveQuorumCryptoErrorV1 ''crypto_operation_failed'')
     | Some d \<Rightarrow> Inr (''sha256:'' @ toHex d)))"

definition ensure :: "bool \<Rightarrow> js_error \<Rightarrow> unit res" where
  "ensure b e = (if b then Inr () else Inl e)"

definition sparse_identifier :: "string \<Rightarrow> string \<Rightarrow> unit res" where
  "sparse_identifier v label = ensure (is_identifier v) (TypeError (label @ '' is invalid''))"

definition quorumDigest :: "string \<Rightarrow> string \<Rightarrow> unit res" where
  "quorumDigest v label = ensure (digest_text v) (TypeError (label @ '' is invalid''))"

definition sparse_token :: "string \<Rightarrow> nat \<Rightarrow> bool" where
  "sparse_token v maximum \<longleftrightarrow> v \<noteq> [] \<and> length v \<le> maximum \<and> list_all (\<lambda>c. (of_char c :: nat) > 31) v"

definition sparse_integer :: "int \<Rightarrow> string \<Rightarrow> int \<Rightarrow> int \<Rightarrow> unit res" where
  "sparse_integer v label minimum maximum =
     ensure (isSafeInteger v \<and> minimum \<le> v \<and> v \<le> maximum) (RangeError (label @ '' is invalid''))"

text \<open>A \<open>Set\<close> drops repetitions and \<open>sort()\<close> orders by code unit.\<close>

definition canonicalIdentifiers :: "string list \<Rightarrow> string \<Rightarrow> string list res" where
  "canonicalIdentifiers values label =
     bindE (ensure (length values \<le> 100000) (TypeError (label @ '' is invalid''))) (\<lambda>_.
     bindE (seqE (map (\<lambda>v. sparse_identifier v label) values)) (\<lambda>_.
       let result = sort (remdups values)
       in if length result \<noteq> length values \<or> list_ex (\<lambda>(x, y). x \<noteq> y) (zip result values)
          then Inl (TypeError (label @ '' must be canonical''))
          else Inr result))"

subsection \<open>The values as JSON\<close>

definition sparse_validator_json :: "sparse_validator \<Rightarrow> json" where
  "sparse_validator_json v = JObj [(''peerId'', JStr (sv_peerId v)), (''instanceId'', JStr (sv_instanceId v)),
     (''keyId'', JStr (sv_keyId v)), (''eligibilityDigest'', JStr (sv_eligibilityDigest v)),
     (''independenceGroupId'', JStr (sv_independenceGroupId v))]"

definition sparse_policy_body :: "'a sparse_policy_input_scheme \<Rightarrow> json" where
  "sparse_policy_body p = JObj [(''schemaVersion'', JNum 2), (''policyId'', JStr (sp_policyId p)),
     (''policyVersion'', JNum (sp_policyVersion p)), (''committeeSize'', JNum (sp_committeeSize p)),
     (''faultThreshold'', JNum (sp_faultThreshold p)),
     (''reconciliationCommitteeSize'', JNum (sp_reconciliationCommitteeSize p)),
     (''reconciliationFaultThreshold'', JNum (sp_reconciliationFaultThreshold p)),
     (''maximumCommittees'', JNum (sp_maximumCommittees p)),
     (''maximumValidatorsPerIndependenceGroup'', JNum (sp_maximumValidatorsPerIndependenceGroup p))]"

definition sparse_assignment_fields :: "json \<Rightarrow> sparse_assignment \<Rightarrow> (string \<times> json) list" where
  "sparse_assignment_fields committeeId a = [(''schemaVersion'', JNum (sa_schemaVersion a)),
     (''committeeId'', committeeId), (''purpose'', JStr (sa_purpose a)), (''shardId'', JStr (sa_shardId a)),
     (''epoch'', JNum (sa_epoch a)),
     (''membershipConfigurationDigest'', JStr (sa_membershipConfigurationDigest a)),
     (''policyDigest'', JStr (sa_policyDigest a)),
     (''validators'', JArr (map sparse_validator_json (sa_validators a))),
     (''faultThreshold'', JNum (sa_faultThreshold a)), (''quorumThreshold'', JNum (sa_quorumThreshold a))]"

definition sparse_assignment_json :: "sparse_assignment \<Rightarrow> json" where
  "sparse_assignment_json a = JObj (sparse_assignment_fields (JStr (sa_committeeId a)) a
     @ [(''assignmentDigest'', JStr (sa_assignmentDigest a))])"

definition sparse_share_body :: "sparse_share \<Rightarrow> json" where
  "sparse_share_body s = JObj [(''schemaVersion'', JNum (sh_schemaVersion s)),
     (''committeeAssignmentDigest'', JStr (sh_committeeAssignmentDigest s)),
     (''coordinateDigest'', JStr (sh_coordinateDigest s)), (''proposalDigest'', JStr (sh_proposalDigest s)),
     (''valueDigest'', JStr (sh_valueDigest s)), (''phase'', JStr (sh_phase s)),
     (''signerPeerId'', JStr (sh_signerPeerId s)), (''signerInstanceId'', JStr (sh_signerInstanceId s)),
     (''signerKeyId'', JStr (sh_signerKeyId s)), (''signature'', JStr (sh_signature s))]"

definition sparse_aggregate_json :: "sparse_aggregate \<Rightarrow> json" where
  "sparse_aggregate_json u = JObj [(''algorithm'', JStr (au_algorithm u)),
     (''signerPeerIds'', JArr (map JStr (au_signerPeerIds u))),
     (''signerSetDigest'', JStr (au_signerSetDigest u)), (''value'', JStr (au_value u))]"

definition sparse_certificate_fields :: "json \<Rightarrow> sparse_certificate \<Rightarrow> (string \<times> json) list" where
  "sparse_certificate_fields certificateId c = [(''schemaVersion'', JNum (scc_schemaVersion c)),
     (''certificateId'', certificateId), (''assignment'', sparse_assignment_json (scc_assignment c)),
     (''coordinateDigest'', JStr (scc_coordinateDigest c)), (''proposalDigest'', JStr (scc_proposalDigest c)),
     (''valueDigest'', JStr (scc_valueDigest c)), (''phase'', JStr (scc_phase c)),
     (''aggregateSignature'', sparse_aggregate_json (scc_aggregateSignature c)),
     (''shareDigests'', JArr (map JStr (scc_shareDigests c))),
     (''certifiedAtLogicalMs'', JNum (scc_certifiedAtLogicalMs c))]"

definition sparse_certificate_json :: "sparse_certificate \<Rightarrow> json" where
  "sparse_certificate_json c = JObj (sparse_certificate_fields (JStr (scc_certificateId c)) c
     @ [(''certificateDigest'', JStr (scc_certificateDigest c))])"

definition sparse_finality_fields :: "json \<Rightarrow> sparse_finality \<Rightarrow> (string \<times> json) list" where
  "sparse_finality_fields certificateId f = [(''schemaVersion'', JNum (sf_schemaVersion f)),
     (''certificateId'', certificateId), (''coordinateDigest'', JStr (sf_coordinateDigest f)),
     (''proposalDigest'', JStr (sf_proposalDigest f)), (''valueDigest'', JStr (sf_valueDigest f)),
     (''epoch'', JNum (sf_epoch f)),
     (''membershipConfigurationDigest'', JStr (sf_membershipConfigurationDigest f)),
     (''policyDigest'', JStr (sf_policyDigest f)),
     (''requiredShardIds'', JArr (map JStr (sf_requiredShardIds f))),
     (''shardCertificateDigests'', JArr (map JStr (sf_shardCertificateDigests f))),
     (''shardCertificateRootDigest'', JStr (sf_shardCertificateRootDigest f)),
     (''reconciliationCertificate'', sparse_certificate_json (sf_reconciliationCertificate f)),
     (''finalizedAtLogicalMs'', JNum (sf_finalizedAtLogicalMs f))]"

definition sparse_finality_json :: "sparse_finality \<Rightarrow> json" where
  "sparse_finality_json f = JObj (sparse_finality_fields (JStr (sf_certificateId f)) f
     @ [(''certificateDigest'', JStr (sf_certificateDigest f))])"

definition sparse_joint_body :: "sparse_joint \<Rightarrow> json" where
  "sparse_joint_body j = JObj [(''schemaVersion'', JNum (sj_schemaVersion j)),
     (''priorMembershipConfigurationDigest'', JStr (sj_priorMembershipConfigurationDigest j)),
     (''nextMembershipConfigurationDigest'', JStr (sj_nextMembershipConfigurationDigest j)),
     (''priorFinalityCertificate'', sparse_finality_json (sj_priorFinalityCertificate j)),
     (''nextFinalityCertificate'', sparse_finality_json (sj_nextFinalityCertificate j))]"

end
