(* ===== verification/AgSparseCommittee.thy ===== *)
theory AgSparseCommittee
  imports AgSparse
begin

text \<open>
  Policies, memberships and the selection of committees (\<open>sparse-agreement.ts\<close>).
\<close>

subsection \<open>Policies and memberships\<close>

text \<open>\<open>validatePolicy\<close>: \<open>policyDigest\<close> is the property of that name, when there is one.\<close>

definition validatePolicy :: "int \<Rightarrow> 'a sparse_policy_input_scheme \<Rightarrow> string option \<Rightarrow> unit res" where
  "validatePolicy schemaVersion p policyDigest = seqE [
     ensure (schemaVersion = 2) (TypeError ''sparse committee policy schema is invalid''),
     sparse_identifier (sp_policyId p) ''policyId'',
     sparse_integer (sp_policyVersion p) ''policyVersion'' 1 maximumSafeInteger,
     sparse_integer (sp_committeeSize p) ''committeeSize'' 4 100000,
     sparse_integer (sp_faultThreshold p) ''faultThreshold'' 1 33333,
     sparse_integer (sp_reconciliationCommitteeSize p) ''reconciliationCommitteeSize'' 4 100000,
     sparse_integer (sp_reconciliationFaultThreshold p) ''reconciliationFaultThreshold'' 1 33333,
     sparse_integer (sp_maximumCommittees p) ''maximumCommittees'' 1 100000,
     sparse_integer (sp_maximumValidatorsPerIndependenceGroup p)
       ''maximumValidatorsPerIndependenceGroup'' 1 100000,
     (case policyDigest of None \<Rightarrow> Inr () | Some d \<Rightarrow> quorumDigest d ''policyDigest''),
     ensure (\<not> (sp_committeeSize p < 3 * sp_faultThreshold p + 1
         \<or> sp_reconciliationCommitteeSize p < 3 * sp_reconciliationFaultThreshold p + 1))
       (RangeError ''sparse committee policy fault model is invalid'')]"

definition createSparseCommitteePolicyV2 :: "'k platform \<Rightarrow> sparse_policy_input \<Rightarrow> sparse_policy res" where
  "createSparseCommitteePolicyV2 P input =
     bindE (validatePolicy 2 input None) (\<lambda>_.
     bindE (collectiveQuorumDigestV1 P (JObj [(''domain'', JStr ''sparse-committee-policy-v2''),
         (''body'', sparse_policy_body input)])) (\<lambda>d.
       Inr (sparse_policy_input.extend input (sparse_policy.fields 2 d))))"

text \<open>The schema version of the argument is taken off before the policy is built again.\<close>

definition validateSparseCommitteePolicyV2 :: "'k platform \<Rightarrow> sparse_policy \<Rightarrow> sparse_policy res" where
  "validateSparseCommitteePolicyV2 P input =
     bindE (createSparseCommitteePolicyV2 P (sparse_policy_input.truncate input)) (\<lambda>rebuilt.
       if sp_policyDigest rebuilt \<noteq> sp_policyDigest input
       then Inl (TypeError ''sparse committee policy digest is invalid'')
       else Inr rebuilt)"

definition sparse_validator_fields :: "sparse_validator \<Rightarrow> unit res" where
  "sparse_validator_fields v = seqE [
     sparse_identifier (sv_peerId v) ''peerId'',
     sparse_identifier (sv_instanceId v) ''instanceId'',
     sparse_identifier (sv_keyId v) ''keyId'',
     sparse_identifier (sv_independenceGroupId v) ''independenceGroupId'',
     quorumDigest (sv_eligibilityDigest v) ''eligibilityDigest'']"

definition membership_peer :: "string list \<Rightarrow> sparse_validator \<Rightarrow> string list res" where
  "membership_peer peers v = bindE (sparse_validator_fields v) (\<lambda>_.
     if sv_peerId v \<in> set peers then Inl (TypeError ''sparse membership peer duplicated'')
     else Inr (sv_peerId v # peers))"

definition validateMembership :: "sparse_membership \<Rightarrow> unit res" where
  "validateMembership m = seqE [
     ensure (sm_schemaVersion m = 2) (TypeError ''sparse agreement membership schema is invalid''),
     sparse_integer (sm_epoch m) ''epoch'' 1 maximumSafeInteger,
     quorumDigest (sm_configurationDigest m) ''configurationDigest'',
     quorumDigest (sm_selectionSeedDigest m) ''selectionSeedDigest'',
     ensure (4 \<le> length (sm_validators m) \<and> length (sm_validators m) \<le> 1000000)
       (RangeError ''sparse agreement membership size is invalid''),
     bindE (foldE membership_peer [] (sm_validators m)) (\<lambda>_. Inr ())]"

subsection \<open>Assignments\<close>

text \<open>The loop carries the peers seen and the prior peer.\<close>

definition assignment_peer ::
  "'k platform \<Rightarrow> string list \<times> string option \<Rightarrow> sparse_validator \<Rightarrow> (string list \<times> string option) res" where
  "assignment_peer P = (\<lambda>(peers, prior) v. bindE (sparse_validator_fields v) (\<lambda>_.
     if sv_peerId v \<in> set peers
       \<or> (case prior of None \<Rightarrow> False | Some q \<Rightarrow> pl_localeCompare P q (sv_peerId v) \<ge> 0)
     then Inl (TypeError ''sparse committee validators must be canonical and unique'')
     else Inr (sv_peerId v # peers, Some (sv_peerId v))))"

definition validateAssignment :: "'k platform \<Rightarrow> sparse_assignment \<Rightarrow> unit res" where
  "validateAssignment P a = seqE [
     ensure (sa_schemaVersion a = 2) (TypeError ''sparse committee assignment schema is invalid''),
     sparse_identifier (sa_committeeId a) ''committeeId'',
     ensure (sa_purpose a = ''shard'' \<or> sa_purpose a = ''reconciliation'')
       (TypeError ''sparse committee purpose is invalid''),
     sparse_identifier (sa_shardId a) ''shardId'',
     quorumDigest (sa_assignmentDigest a) ''assignmentDigest'',
     quorumDigest (sa_membershipConfigurationDigest a) ''membershipConfigurationDigest'',
     quorumDigest (sa_policyDigest a) ''policyDigest'',
     sparse_integer (sa_epoch a) ''epoch'' 1 maximumSafeInteger,
     sparse_integer (sa_faultThreshold a) ''faultThreshold'' 1 maximumSafeInteger,
     sparse_integer (sa_quorumThreshold a) ''quorumThreshold'' 1 maximumSafeInteger,
     ensure (sa_validators a \<noteq> []) (TypeError ''sparse committee validators are unavailable''),
     bindE (foldE (assignment_peer P) ([], None) (sa_validators a)) (\<lambda>_. Inr ()),
     ensure (\<not> (int (length (sa_validators a)) < 3 * sa_faultThreshold a + 1
         \<or> sa_quorumThreshold a \<noteq> 2 * sa_faultThreshold a + 1))
       (TypeError ''sparse committee assignment threshold is invalid'')]"

definition sparse_assignment_digest :: "'k platform \<Rightarrow> sparse_assignment \<Rightarrow> string res" where
  "sparse_assignment_digest P a = collectiveQuorumDigestV1 P (JObj (sparse_assignment_fields JNull a))"

definition validateSparseCommitteeAssignmentDigestV2 ::
  "'k platform \<Rightarrow> sparse_assignment \<Rightarrow> sparse_assignment res" where
  "validateSparseCommitteeAssignmentDigestV2 P a =
     bindE (validateAssignment P a) (\<lambda>_.
     bindE (sparse_assignment_digest P a) (\<lambda>actual.
       if actual \<noteq> sa_assignmentDigest a \<or> sa_committeeId a \<noteq> ''committee:'' @ digest_slice actual
       then Inl (TypeError ''sparse committee assignment digest is invalid'')
       else Inr a))"

subsection \<open>The selection\<close>

definition sparse_rank :: "'k platform \<Rightarrow> sparse_membership \<Rightarrow> sparse_policy \<Rightarrow> string \<Rightarrow> string \<Rightarrow>
    sparse_validator \<Rightarrow> (sparse_validator \<times> string) res" where
  "sparse_rank P m p purpose shardId v =
     bindE (collectiveQuorumDigestV1 P (JObj [(''domain'', JStr ''sparse-committee-selection-v2''),
         (''selectionSeedDigest'', JStr (sm_selectionSeedDigest m)),
         (''membershipConfigurationDigest'', JStr (sm_configurationDigest m)),
         (''policyDigest'', JStr (sp_policyDigest p)), (''purpose'', JStr purpose),
         (''shardId'', JStr shardId), (''peerId'', JStr (sv_peerId v)),
         (''eligibilityDigest'', JStr (sv_eligibilityDigest v))])) (\<lambda>d. Inr (v, d))"

definition rank_order :: "'k platform \<Rightarrow> sparse_validator \<times> string \<Rightarrow> sparse_validator \<times> string \<Rightarrow> int" where
  "rank_order P = (\<lambda>(v, r) (w, q).
     if pl_localeCompare P r q \<noteq> 0 then pl_localeCompare P r q
     else pl_localeCompare P (sv_peerId v) (sv_peerId w))"

text \<open>
  The loop over the ranked candidates: \<open>groups\<close> counts the members of each independence
  group, a candidate of a full group is passed over, and the loop ends when \<open>wanted\<close> (the code: \<open>size\<close>) are selected.
\<close>

fun pick_committee :: "int \<Rightarrow> int \<Rightarrow> (string \<rightharpoonup> int) \<Rightarrow> sparse_validator list \<Rightarrow> sparse_validator list \<Rightarrow>
    sparse_validator list" where
  "pick_committee wanted cap groups selected [] = selected"
| "pick_committee wanted cap groups selected (v # vs) =
     (let count = (case groups (sv_independenceGroupId v) of None \<Rightarrow> 0 | Some n \<Rightarrow> n) in
      if count \<ge> cap then pick_committee wanted cap groups selected vs
      else let selected = selected @ [v];
               groups = groups(sv_independenceGroupId v \<mapsto> count + 1)
           in if int (length selected) = wanted then selected
              else pick_committee wanted cap groups selected vs)"

definition selectSparseCommitteeV2 :: "'k platform \<Rightarrow> sparse_membership \<Rightarrow> sparse_policy \<Rightarrow> string \<Rightarrow> string \<Rightarrow>
    sparse_assignment res" where
  "selectSparseCommitteeV2 P m p purpose shardId =
     bindE (validateMembership m) (\<lambda>_.
     bindE (validateSparseCommitteePolicyV2 P p) (\<lambda>_.
     bindE (sparse_identifier shardId ''shardId'') (\<lambda>_.
     let wanted = (if purpose = ''shard'' then sp_committeeSize p else sp_reconciliationCommitteeSize p);
         faultThreshold = (if purpose = ''shard'' then sp_faultThreshold p else sp_reconciliationFaultThreshold p)
     in bindE (mapE (sparse_rank P m p purpose shardId) (sm_validators m)) (\<lambda>ranked.
       let selected = pick_committee wanted (sp_maximumValidatorsPerIndependenceGroup p) (\<lambda>_. None) []
             (map fst (js_sort (rank_order P) ranked))
       in if int (length selected) \<noteq> wanted
          then Inl (RangeError ''sparse committee cannot satisfy size and independence constraints'')
          else if int (length selected) < 3 * faultThreshold + 1
          then Inl (RangeError ''sparse committee does not satisfy the declared fault model'')
          else let body = \<lparr>sa_schemaVersion = 2, sa_committeeId = ''pending'', sa_purpose = purpose,
                 sa_shardId = shardId, sa_epoch = sm_epoch m,
                 sa_membershipConfigurationDigest = sm_configurationDigest m,
                 sa_policyDigest = sp_policyDigest p,
                 sa_validators = js_sort (\<lambda>l r. pl_localeCompare P (sv_peerId l) (sv_peerId r)) selected,
                 sa_faultThreshold = faultThreshold, sa_quorumThreshold = 2 * faultThreshold + 1,
                 sa_assignmentDigest = []\<rparr>
            in bindE (sparse_assignment_digest P body) (\<lambda>d.
                 Inr (body\<lparr>sa_committeeId := ''committee:'' @ digest_slice d, sa_assignmentDigest := d\<rparr>))))))"

definition validateSelectedSparseCommitteeV2 ::
  "'k platform \<Rightarrow> sparse_assignment \<Rightarrow> sparse_membership \<Rightarrow> sparse_policy \<Rightarrow> bool res" where
  "validateSelectedSparseCommitteeV2 P a m p =
     bindE (validateSparseCommitteeAssignmentDigestV2 P a) (\<lambda>_.
     bindE (validateMembership m) (\<lambda>_.
     bindE (validateSparseCommitteePolicyV2 P p) (\<lambda>_.
       if sa_epoch a \<noteq> sm_epoch m \<or> sa_membershipConfigurationDigest a \<noteq> sm_configurationDigest m
         \<or> sa_policyDigest a \<noteq> sp_policyDigest p
       then Inr False
       else bindE (selectSparseCommitteeV2 P m p (sa_purpose a) (sa_shardId a)) (\<lambda>expected.
         Inr (sa_assignmentDigest expected = sa_assignmentDigest a)))))"

end
