(* ===== verification/AgSparseCertificates.thy ===== *)
theory AgSparseCertificates
  imports AgSparseCommittee
begin

text \<open>
  Shares, committee certificates, finality certificates and joint reconfigurations
  (\<open>sparse-agreement.ts\<close>). A function that returns \<open>null\<close> returns an option.
\<close>

subsection \<open>Shares\<close>

definition validateShare :: "sparse_share \<Rightarrow> unit res" where
  "validateShare s = seqE [
     ensure (sh_schemaVersion s = 2) (TypeError ''sparse agreement share schema is invalid''),
     quorumDigest (sh_committeeAssignmentDigest s) ''committeeAssignmentDigest'',
     quorumDigest (sh_coordinateDigest s) ''coordinateDigest'',
     quorumDigest (sh_proposalDigest s) ''proposalDigest'',
     quorumDigest (sh_valueDigest s) ''valueDigest'',
     quorumDigest (sh_shareDigest s) ''shareDigest'',
     ensure (sh_phase s \<in> set [''prepare'', ''commit'', ''reconcile''])
       (TypeError ''sparse agreement phase is invalid''),
     sparse_identifier (sh_signerPeerId s) ''signerPeerId'',
     sparse_identifier (sh_signerInstanceId s) ''signerInstanceId'',
     sparse_identifier (sh_signerKeyId s) ''signerKeyId'',
     ensure (sparse_token (sh_signature s) 16384) (TypeError ''sparse agreement signature is invalid'')]"

definition createSparseAgreementShareV2 :: "'k platform \<Rightarrow> sparse_assignment \<Rightarrow> string \<Rightarrow> string \<Rightarrow> string \<Rightarrow>
    string \<Rightarrow> string \<Rightarrow> string \<Rightarrow> string \<Rightarrow> string \<Rightarrow> sparse_share res" where
  "createSparseAgreementShareV2 P a coordinateDigest proposalDigest valueDigest phase
       signerPeerId signerInstanceId signerKeyId signature =
     bindE (validateSparseCommitteeAssignmentDigestV2 P a) (\<lambda>_.
     bindE (seqE [
       quorumDigest coordinateDigest ''coordinateDigest'',
       quorumDigest proposalDigest ''proposalDigest'',
       quorumDigest valueDigest ''valueDigest'',
       sparse_identifier signerPeerId ''signerPeerId'',
       sparse_identifier signerInstanceId ''signerInstanceId'',
       sparse_identifier signerKeyId ''signerKeyId'',
       ensure (list_ex (\<lambda>v. sv_peerId v = signerPeerId \<and> sv_instanceId v = signerInstanceId
           \<and> sv_keyId v = signerKeyId) (sa_validators a))
         (TypeError ''sparse agreement signer is outside the committee''),
       ensure (sparse_token signature 16384) (TypeError ''sparse agreement signature is invalid'')]) (\<lambda>_.
     let body = \<lparr>sh_schemaVersion = 2, sh_committeeAssignmentDigest = sa_assignmentDigest a,
           sh_coordinateDigest = coordinateDigest, sh_proposalDigest = proposalDigest,
           sh_valueDigest = valueDigest, sh_phase = phase, sh_signerPeerId = signerPeerId,
           sh_signerInstanceId = signerInstanceId, sh_signerKeyId = signerKeyId,
           sh_signature = signature, sh_shareDigest = []\<rparr>
     in bindE (collectiveQuorumDigestV1 P (sparse_share_body body)) (\<lambda>d. Inr (body\<lparr>sh_shareDigest := d\<rparr>))))"

text \<open>\<open>sparseShareMessageDigestV2\<close> on the five fields that it reads.\<close>

definition sparseShareMessageDigestV2 :: "'k platform \<Rightarrow> string \<Rightarrow> string \<Rightarrow> string \<Rightarrow> string \<Rightarrow> string \<Rightarrow> string res" where
  "sparseShareMessageDigestV2 P committeeAssignmentDigest coordinateDigest proposalDigest valueDigest phase =
     collectiveQuorumDigestV1 P (JObj [(''domain'', JStr ''sparse-agreement-share-message-v2''),
       (''committeeAssignmentDigest'', JStr committeeAssignmentDigest),
       (''coordinateDigest'', JStr coordinateDigest), (''proposalDigest'', JStr proposalDigest),
       (''valueDigest'', JStr valueDigest), (''phase'', JStr phase)])"

definition share_message :: "'k platform \<Rightarrow> sparse_share \<Rightarrow> string res" where
  "share_message P s = sparseShareMessageDigestV2 P (sh_committeeAssignmentDigest s) (sh_coordinateDigest s)
     (sh_proposalDigest s) (sh_valueDigest s) (sh_phase s)"

subsection \<open>Aggregate signatures\<close>

definition sparseAggregateSignerSetDigestV2 :: "'k platform \<Rightarrow> string \<Rightarrow> string list \<Rightarrow> string res" where
  "sparseAggregateSignerSetDigestV2 P algorithm signerPeerIds =
     bindE (ensure (sparse_token algorithm 256) (TypeError ''sparse aggregate algorithm is invalid'')) (\<lambda>_.
     bindE (canonicalIdentifiers signerPeerIds ''signerPeerIds'') (\<lambda>canonical.
       collectiveQuorumDigestV1 P (JObj [(''domain'', JStr ''sparse-aggregate-signer-set-v2''),
         (''algorithm'', JStr algorithm), (''signerPeerIds'', JArr (map JStr canonical))])))"

definition by_peer :: "'k platform \<Rightarrow> sparse_validator \<Rightarrow> sparse_validator \<Rightarrow> int" where
  "by_peer P l r = pl_localeCompare P (sv_peerId l) (sv_peerId r)"

definition validateAggregateSignatureV2 ::
  "'k platform \<Rightarrow> sparse_signatures \<Rightarrow> sparse_aggregate \<Rightarrow> sparse_validator list \<Rightarrow> bool res" where
  "validateAggregateSignatureV2 P S u validators =
     (if au_algorithm u \<noteq> ss_algorithm S \<or> \<not> sparse_token (au_value u) 65536 then Inr False
      else bindE (canonicalIdentifiers (au_signerPeerIds u) ''signerPeerIds'') (\<lambda>signerPeerIds.
        if length signerPeerIds \<noteq> length validators
          \<or> list_ex (\<lambda>(item, v). item \<noteq> sv_peerId v) (zip signerPeerIds (js_sort (by_peer P) validators))
        then Inr False
        else bindE (quorumDigest (au_signerSetDigest u) ''signerSetDigest'') (\<lambda>_.
          bindE (sparseAggregateSignerSetDigestV2 P (au_algorithm u) signerPeerIds) (\<lambda>d.
            Inr (au_signerSetDigest u = d)))))"

subsection \<open>Committee certificates\<close>

text \<open>\<open>new Map\<close> of a list of entries: the last entry of a key stays.\<close>

definition validators_by_id :: "sparse_validator list \<Rightarrow> string \<rightharpoonup> sparse_validator" where
  "validators_by_id vs = map_of (rev (map (\<lambda>v. (sv_peerId v, v)) vs))"

text \<open>
  The loop over the shares carries \<open>seen\<close> and \<open>verified\<close>; \<open>None\<close> is its
  \<open>return null\<close>.
\<close>

fun collect_shares :: "'k platform \<Rightarrow> sparse_signatures \<Rightarrow> sparse_assignment \<Rightarrow> sparse_share \<Rightarrow>
    string list \<Rightarrow> sparse_share list \<Rightarrow> sparse_share list \<Rightarrow> (string list \<times> sparse_share list) option res" where
  "collect_shares P S a first seen verified [] = Inr (Some (seen, verified))"
| "collect_shares P S a first seen verified (share # shares) =
     bindE (validateShare share) (\<lambda>_.
     bindE (collectiveQuorumDigestV1 P (sparse_share_body share)) (\<lambda>d.
       if d \<noteq> sh_shareDigest share then Inr None
       else case validators_by_id (sa_validators a) (sh_signerPeerId share) of
         None \<Rightarrow> Inr None
       | Some v \<Rightarrow>
           if sh_signerPeerId share \<in> set seen
             \<or> sh_committeeAssignmentDigest share \<noteq> sa_assignmentDigest a
             \<or> sh_coordinateDigest share \<noteq> sh_coordinateDigest first
             \<or> sh_proposalDigest share \<noteq> sh_proposalDigest first
             \<or> sh_valueDigest share \<noteq> sh_valueDigest first
             \<or> sh_phase share \<noteq> sh_phase first
             \<or> sv_instanceId v \<noteq> sh_signerInstanceId share
             \<or> sv_keyId v \<noteq> sh_signerKeyId share
           then Inr None
           else bindE (share_message P share) (\<lambda>message.
             bindE (ss_verifyShare S v message (sh_signature share)) (\<lambda>ok.
               if \<not> ok then Inr None
               else collect_shares P S a first (seen @ [sh_signerPeerId share]) (verified @ [share]) shares))))"

definition sparse_certificate_digest :: "'k platform \<Rightarrow> sparse_certificate \<Rightarrow> string res" where
  "sparse_certificate_digest P c = collectiveQuorumDigestV1 P (JObj (sparse_certificate_fields JNull c))"

definition createSparseCommitteeCertificateV2 :: "'k platform \<Rightarrow> sparse_signatures \<Rightarrow> sparse_assignment \<Rightarrow>
    sparse_membership \<Rightarrow> sparse_policy \<Rightarrow> sparse_share list \<Rightarrow> int \<Rightarrow> sparse_certificate option res" where
  "createSparseCommitteeCertificateV2 P S a m p shares certifiedAtLogicalMs =
     bindE (validateSelectedSparseCommitteeV2 P a m p) (\<lambda>selected.
     if \<not> selected then Inr None
     else bindE (sparse_integer certifiedAtLogicalMs ''certifiedAtLogicalMs'' 0 maximumSafeInteger) (\<lambda>_.
     if int (length shares) < sa_quorumThreshold a then Inr None
     else let first = hd shares in
     bindE (collect_shares P S a first [] [] shares) (\<lambda>collected. case collected of
       None \<Rightarrow> Inr None
     | Some (seen, verified) \<Rightarrow>
         if int (length seen) < sa_quorumThreshold a then Inr None
         else let verified = js_sort (\<lambda>l r. pl_localeCompare P (sh_signerPeerId l) (sh_signerPeerId r)) verified;
                  validators = map (\<lambda>s. the (validators_by_id (sa_validators a) (sh_signerPeerId s))) verified
         in bindE (share_message P first) (\<lambda>message.
            bindE (ss_aggregate S message verified) (\<lambda>u.
            bindE (validateAggregateSignatureV2 P S u validators) (\<lambda>shaped.
            bindE (if shaped then ss_verifyAggregate S message validators u else Inr False) (\<lambda>ok.
            if \<not> ok then Inr None
            else let body = \<lparr>scc_schemaVersion = 2, scc_certificateId = ''pending'', scc_assignment = a,
                   scc_coordinateDigest = sh_coordinateDigest first, scc_proposalDigest = sh_proposalDigest first,
                   scc_valueDigest = sh_valueDigest first, scc_phase = sh_phase first,
                   scc_aggregateSignature = u, scc_shareDigests = sort (map sh_shareDigest verified),
                   scc_certifiedAtLogicalMs = certifiedAtLogicalMs, scc_certificateDigest = []\<rparr>
              in bindE (sparse_certificate_digest P body) (\<lambda>d.
                   Inr (Some (body\<lparr>scc_certificateId := ''committee-certificate:'' @ digest_slice d,
                     scc_certificateDigest := d\<rparr>))))))))))"

definition validateSparseCommitteeCertificateV2 :: "'k platform \<Rightarrow> sparse_signatures \<Rightarrow> sparse_membership \<Rightarrow>
    sparse_policy \<Rightarrow> sparse_certificate \<Rightarrow> bool res" where
  "validateSparseCommitteeCertificateV2 P S m p c =
     (if scc_schemaVersion c \<noteq> 2 then Inr False
      else bindE (validateSelectedSparseCommitteeV2 P (scc_assignment c) m p) (\<lambda>selected.
      if \<not> selected then Inr False
      else bindE (seqE [
        quorumDigest (scc_coordinateDigest c) ''coordinateDigest'',
        quorumDigest (scc_proposalDigest c) ''proposalDigest'',
        quorumDigest (scc_valueDigest c) ''valueDigest'',
        quorumDigest (scc_certificateDigest c) ''certificateDigest'',
        sparse_integer (scc_certifiedAtLogicalMs c) ''certifiedAtLogicalMs'' 0 maximumSafeInteger]) (\<lambda>_.
      if scc_phase c \<notin> set [''prepare'', ''commit'', ''reconcile'']
        \<or> (sa_purpose (scc_assignment c) = ''reconciliation'') \<noteq> (scc_phase c = ''reconcile'')
      then Inr False
      else let shareDigests = sort (scc_shareDigests c) in
      if int (length shareDigests) < sa_quorumThreshold (scc_assignment c)
        \<or> card (set shareDigests) \<noteq> length shareDigests
        \<or> list_ex (\<lambda>(x, y). x \<noteq> y) (zip shareDigests (scc_shareDigests c))
      then Inr False
      else bindE (seqE (map (\<lambda>d. quorumDigest d ''shareDigest'') shareDigests)) (\<lambda>_.
      bindE (canonicalIdentifiers (au_signerPeerIds (scc_aggregateSignature c)) ''signerPeerIds'') (\<lambda>signerPeerIds.
      if int (length signerPeerIds) < sa_quorumThreshold (scc_assignment c) then Inr False
      else let found = map (validators_by_id (sa_validators (scc_assignment c))) signerPeerIds in
      if list_ex (\<lambda>v. v = None) found then Inr False
      else let validators = map the found in
      bindE (sparseShareMessageDigestV2 P (sa_assignmentDigest (scc_assignment c)) (scc_coordinateDigest c)
          (scc_proposalDigest c) (scc_valueDigest c) (scc_phase c)) (\<lambda>message.
      bindE (validateAggregateSignatureV2 P S (scc_aggregateSignature c) validators) (\<lambda>shaped.
      if \<not> shaped then Inr False
      else bindE (ss_verifyAggregate S message validators (scc_aggregateSignature c)) (\<lambda>ok.
      if \<not> ok then Inr False
      else bindE (sparse_certificate_digest P c) (\<lambda>actual.
        Inr (actual = scc_certificateDigest c
          \<and> scc_certificateId c = ''committee-certificate:'' @ digest_slice actual))))))))))"

subsection \<open>Finality\<close>

definition sparse_finality_digest :: "'k platform \<Rightarrow> sparse_finality \<Rightarrow> string res" where
  "sparse_finality_digest P f = collectiveQuorumDigestV1 P (JObj (sparse_finality_fields JNull f))"

definition shard_root_digest :: "'k platform \<Rightarrow> sparse_certificate \<Rightarrow> string list \<Rightarrow> string list \<Rightarrow> string res" where
  "shard_root_digest P first requiredShardIds shardCertificateDigests =
     collectiveQuorumDigestV1 P (JObj [(''domain'', JStr ''sparse-shard-certificate-root-v2''),
       (''coordinateDigest'', JStr (scc_coordinateDigest first)),
       (''proposalDigest'', JStr (scc_proposalDigest first)),
       (''valueDigest'', JStr (scc_valueDigest first)),
       (''requiredShardIds'', JArr (map JStr requiredShardIds)),
       (''shardCertificateDigests'', JArr (map JStr shardCertificateDigests))])"

text \<open>Two certificates of the same epoch, membership and policy.\<close>

definition same_configuration :: "sparse_certificate \<Rightarrow> sparse_certificate \<Rightarrow> bool" where
  "same_configuration c d \<longleftrightarrow> sa_epoch (scc_assignment c) = sa_epoch (scc_assignment d)
     \<and> sa_membershipConfigurationDigest (scc_assignment c) = sa_membershipConfigurationDigest (scc_assignment d)
     \<and> sa_policyDigest (scc_assignment c) = sa_policyDigest (scc_assignment d)"

definition createSparseFinalityCertificateV2 :: "'k platform \<Rightarrow> sparse_signatures \<Rightarrow> string list \<Rightarrow>
    sparse_certificate list \<Rightarrow> sparse_certificate \<Rightarrow> sparse_membership \<Rightarrow> sparse_policy \<Rightarrow> int \<Rightarrow>
    sparse_finality option res" where
  "createSparseFinalityCertificateV2 P S required shardCertificates reconciliation m p finalizedAtLogicalMs =
     bindE (canonicalIdentifiers required ''requiredShardIds'') (\<lambda>requiredShardIds.
     if length requiredShardIds = 0 \<or> int (length requiredShardIds) > sp_maximumCommittees p then Inr None
     else let shards = js_sort (\<lambda>l r. pl_localeCompare P (sa_shardId (scc_assignment l))
            (sa_shardId (scc_assignment r))) shardCertificates in
     bindE (everyE (validateSparseCommitteeCertificateV2 P S m p) (shards @ [reconciliation])) (\<lambda>certified.
     if \<not> certified then Inr None
     else if length shards \<noteq> length requiredShardIds
       \<or> list_ex (\<lambda>(c, shardId). sa_purpose (scc_assignment c) \<noteq> ''shard''
           \<or> sa_shardId (scc_assignment c) \<noteq> shardId \<or> scc_phase c \<noteq> ''commit'') (zip shards requiredShardIds)
     then Inr None
     else let first = hd shards in
     if list_ex (\<lambda>c. scc_coordinateDigest c \<noteq> scc_coordinateDigest first
         \<or> scc_proposalDigest c \<noteq> scc_proposalDigest first \<or> scc_valueDigest c \<noteq> scc_valueDigest first
         \<or> \<not> same_configuration c first) shards
     then Inr None
     else let shardCertificateDigests = sort (map scc_certificateDigest shards) in
     bindE (shard_root_digest P first requiredShardIds shardCertificateDigests) (\<lambda>root.
     if sa_purpose (scc_assignment reconciliation) \<noteq> ''reconciliation''
       \<or> scc_phase reconciliation \<noteq> ''reconcile''
       \<or> scc_coordinateDigest reconciliation \<noteq> scc_coordinateDigest first
       \<or> scc_proposalDigest reconciliation \<noteq> scc_proposalDigest first
       \<or> scc_valueDigest reconciliation \<noteq> root
       \<or> \<not> same_configuration reconciliation first
     then Inr None
     else bindE (sparse_integer finalizedAtLogicalMs ''finalizedAtLogicalMs''
         (scc_certifiedAtLogicalMs reconciliation) maximumSafeInteger) (\<lambda>_.
     let body = \<lparr>sf_schemaVersion = 2, sf_certificateId = ''pending'',
           sf_coordinateDigest = scc_coordinateDigest first, sf_proposalDigest = scc_proposalDigest first,
           sf_valueDigest = scc_valueDigest first, sf_epoch = sa_epoch (scc_assignment first),
           sf_membershipConfigurationDigest = sa_membershipConfigurationDigest (scc_assignment first),
           sf_policyDigest = sa_policyDigest (scc_assignment first),
           sf_requiredShardIds = requiredShardIds, sf_shardCertificateDigests = shardCertificateDigests,
           sf_shardCertificateRootDigest = root, sf_reconciliationCertificate = reconciliation,
           sf_finalizedAtLogicalMs = finalizedAtLogicalMs, sf_certificateDigest = []\<rparr>
     in bindE (sparse_finality_digest P body) (\<lambda>d.
          Inr (Some (body\<lparr>sf_certificateId := ''sparse-finality:'' @ digest_slice d,
            sf_certificateDigest := d\<rparr>)))))))"

definition validateSparseFinalityCertificateV2 :: "'k platform \<Rightarrow> sparse_signatures \<Rightarrow> sparse_certificate list \<Rightarrow>
    sparse_membership \<Rightarrow> sparse_policy \<Rightarrow> sparse_finality \<Rightarrow> bool res" where
  "validateSparseFinalityCertificateV2 P S shardCertificates m p f =
     (if sf_schemaVersion f \<noteq> 2 then Inr False
      else bindE (createSparseFinalityCertificateV2 P S (sf_requiredShardIds f) shardCertificates
          (sf_reconciliationCertificate f) m p (sf_finalizedAtLogicalMs f)) (\<lambda>rebuilt.
        Inr (case rebuilt of None \<Rightarrow> False
             | Some r \<Rightarrow> sf_certificateDigest r = sf_certificateDigest f)))"

subsection \<open>Joint reconfiguration\<close>

text \<open>One side of the input: a membership with its policy, port, finality and shard certificates.\<close>

record sparse_side =
  si_membership :: sparse_membership
  si_policy :: sparse_policy
  si_signatures :: sparse_signatures
  si_finalityCertificate :: sparse_finality
  si_shardCertificates :: "sparse_certificate list"

definition validate_side :: "'k platform \<Rightarrow> sparse_side \<Rightarrow> bool res" where
  "validate_side P x = validateSparseFinalityCertificateV2 P (si_signatures x) (si_shardCertificates x)
     (si_membership x) (si_policy x) (si_finalityCertificate x)"

definition createSparseJointReconfigurationCertificateV2 ::
  "'k platform \<Rightarrow> sparse_side \<Rightarrow> sparse_side \<Rightarrow> sparse_joint res" where
  "createSparseJointReconfigurationCertificateV2 P prior nxt =
     bindE (validateMembership (si_membership prior)) (\<lambda>_.
     bindE (validateMembership (si_membership nxt)) (\<lambda>_.
     bindE (everyE (validate_side P) [prior, nxt]) (\<lambda>valid.
     if \<not> valid then Inl (TypeError ''sparse joint reconfiguration certificate validation failed'')
     else if sm_epoch (si_membership nxt) \<noteq> sm_epoch (si_membership prior) + 1
       \<or> sf_membershipConfigurationDigest (si_finalityCertificate prior) \<noteq> sm_configurationDigest (si_membership prior)
       \<or> sf_membershipConfigurationDigest (si_finalityCertificate nxt) \<noteq> sm_configurationDigest (si_membership nxt)
       \<or> sf_coordinateDigest (si_finalityCertificate prior) \<noteq> sf_coordinateDigest (si_finalityCertificate nxt)
       \<or> sf_proposalDigest (si_finalityCertificate prior) \<noteq> sf_proposalDigest (si_finalityCertificate nxt)
       \<or> sf_valueDigest (si_finalityCertificate prior) \<noteq> sf_valueDigest (si_finalityCertificate nxt)
     then Inl (TypeError ''sparse joint reconfiguration binding is invalid'')
     else let body = \<lparr>sj_schemaVersion = 2,
            sj_priorMembershipConfigurationDigest = sm_configurationDigest (si_membership prior),
            sj_nextMembershipConfigurationDigest = sm_configurationDigest (si_membership nxt),
            sj_priorFinalityCertificate = si_finalityCertificate prior,
            sj_nextFinalityCertificate = si_finalityCertificate nxt, sj_certificateDigest = []\<rparr>
       in bindE (collectiveQuorumDigestV1 P (sparse_joint_body body)) (\<lambda>d.
            Inr (body\<lparr>sj_certificateDigest := d\<rparr>)))))"

end
