(* ===== verification/AgSparseFinality.thy ===== *)
theory AgSparseFinality
  imports AgSparseCertificates
begin

text \<open>
  The finality boundary of the collective host
  (\<open>packages/collective-host/src/reference-integrated-stack.ts\<close>, class
  \<open>VerifiedSparseBftFinalityRuntimeV1\<close>): decisions are submitted to a gateway, and what the
  gateway delivers is verified against the runtime's own membership, policy and signature port.
  The state is the bounded cache of shard certificates (a \<open>Map\<close>, so in order of insertion).
  The gateway's methods are parameters, a rejected promise is an \<open>Inl\<close>. Of the three
  ports of the class, \<open>adaptation\<close> and the verification of \<open>execution\<close> are here;
  \<open>planning\<close> and the certification of executions compute their digests from plans and
  assessments of other packages and then call the same methods.
\<close>

type_synonym delivery = "sparse_finality \<times> sparse_certificate list"

type_synonym shard_cache = "(string \<times> sparse_certificate list) list"

record certification =
  cq_decisionClass :: string
  cq_decisionId :: string
  cq_proposalDigest :: string
  cq_valueDigest :: string
  cq_commandBindingDigest :: "string option"
  cq_evidenceDigests :: "string list"
  cq_logicalTimeMs :: int

record finality_runtime =
  fr_membership :: sparse_membership
  fr_policy :: sparse_policy
  fr_signatures :: sparse_signatures
  fr_certify :: "certification \<Rightarrow> delivery option res"
  fr_shardCertificates :: "sparse_finality \<Rightarrow> int \<Rightarrow> sparse_certificate list option res"
  fr_reconcileCertification :: "(certification \<Rightarrow> delivery option res) option"
  fr_maximumCachedCertificates :: nat

definition canonicalDigests :: "string list \<Rightarrow> string list res" where
  "canonicalDigests values = (let result = sort (remdups values) in
     bindE (seqE (map (\<lambda>d. quorumDigest d ''evidenceDigest'') result)) (\<lambda>_. Inr result))"

fun evict_oldest :: "nat \<Rightarrow> shard_cache \<Rightarrow> shard_cache" where
  "evict_oldest maximum [] = []"
| "evict_oldest maximum (x # xs) = (if Suc (length xs) > maximum then evict_oldest maximum xs else x # xs)"

definition cacheVerifiedShards :: "finality_runtime \<Rightarrow> string \<Rightarrow> sparse_certificate list \<Rightarrow> shard_cache \<Rightarrow> shard_cache" where
  "cacheVerifiedShards R certificateDigest shards cache =
     evict_oldest (fr_maximumCachedCertificates R)
       (filter (\<lambda>(d, _). d \<noteq> certificateDigest) cache @ [(certificateDigest, shards)])"

text \<open>A validation that throws is caught, and the envelope is not verified.\<close>

definition verifyEnvelope :: "'k platform \<Rightarrow> finality_runtime \<Rightarrow> sparse_finality \<Rightarrow> sparse_certificate list \<Rightarrow>
    string \<Rightarrow> string \<Rightarrow> int \<Rightarrow> bool res" where
  "verifyEnvelope P R f shardCertificates proposalDigest valueDigest logicalTimeMs =
     bindE (sparse_integer logicalTimeMs ''logicalTimeMs'' 0 maximumSafeInteger) (\<lambda>_.
       if sf_proposalDigest f \<noteq> proposalDigest \<or> sf_valueDigest f \<noteq> valueDigest
         \<or> sf_epoch f \<noteq> sm_epoch (fr_membership R)
         \<or> sf_membershipConfigurationDigest f \<noteq> sm_configurationDigest (fr_membership R)
         \<or> sf_policyDigest f \<noteq> sp_policyDigest (fr_policy R)
         \<or> sf_finalizedAtLogicalMs f > logicalTimeMs
       then Inr False
       else case validateSparseFinalityCertificateV2 P (fr_signatures R) shardCertificates
           (fr_membership R) (fr_policy R) f of
         Inl _ \<Rightarrow> Inr False
       | Inr valid \<Rightarrow> Inr valid)"

text \<open>The last steps of \<open>#certify\<close> and \<open>#reconcileCertification\<close>.\<close>

definition accept_delivery :: "'k platform \<Rightarrow> finality_runtime \<Rightarrow> certification \<Rightarrow> delivery \<Rightarrow>
    (shard_cache, sparse_finality option) comp" where
  "accept_delivery P R q delivered =
     (case delivered of (certificate, shards) \<Rightarrow>
       bindS (liftE (verifyEnvelope P R certificate shards (cq_proposalDigest q) (cq_valueDigest q)
           (cq_logicalTimeMs q))) (\<lambda>verified.
         if \<not> verified then retS None
         else (\<lambda>cache. (Inr (Some certificate),
           cacheVerifiedShards R (sf_certificateDigest certificate) shards cache))))"

definition finality_certify :: "'k platform \<Rightarrow> finality_runtime \<Rightarrow> certification \<Rightarrow>
    (shard_cache, sparse_finality option) comp" where
  "finality_certify P R q =
     bindS (liftE (seqE [sparse_identifier (cq_decisionId q) ''decisionId'',
       quorumDigest (cq_proposalDigest q) ''proposalDigest'', quorumDigest (cq_valueDigest q) ''valueDigest'',
       (case cq_commandBindingDigest q of None \<Rightarrow> Inr () | Some d \<Rightarrow> quorumDigest d ''commandBindingDigest'')])) (\<lambda>_.
     bindS (liftE (canonicalDigests (cq_evidenceDigests q))) (\<lambda>evidenceDigests.
     bindS (liftE (fr_certify R (q\<lparr>cq_evidenceDigests := evidenceDigests\<rparr>))) (\<lambda>delivered. case delivered of
       None \<Rightarrow> retS None
     | Some x \<Rightarrow>
         if sf_finalizedAtLogicalMs (fst x) \<noteq> cq_logicalTimeMs q then retS None
         else accept_delivery P R q x)))"

definition finality_reconcile :: "'k platform \<Rightarrow> finality_runtime \<Rightarrow> certification \<Rightarrow>
    (shard_cache, sparse_finality option) comp" where
  "finality_reconcile P R q =
     bindS (liftE (seqE [sparse_identifier (cq_decisionId q) ''decisionId'',
       quorumDigest (cq_proposalDigest q) ''proposalDigest'', quorumDigest (cq_valueDigest q) ''valueDigest'',
       (case cq_commandBindingDigest q of
          None \<Rightarrow> Inl (TypeError ''commandBindingDigest is invalid'')
        | Some d \<Rightarrow> quorumDigest d ''commandBindingDigest''),
       sparse_integer (cq_logicalTimeMs q) ''logicalTimeMs'' 0 maximumSafeInteger])) (\<lambda>_.
     case fr_reconcileCertification R of
       None \<Rightarrow> retS None
     | Some reconcile \<Rightarrow> bindS (liftE (reconcile q)) (\<lambda>delivered. case delivered of
         None \<Rightarrow> retS None
       | Some x \<Rightarrow> accept_delivery P R q x))"

definition finality_verify :: "'k platform \<Rightarrow> finality_runtime \<Rightarrow> sparse_finality \<Rightarrow> string \<Rightarrow> string \<Rightarrow> int \<Rightarrow>
    (shard_cache, bool) comp" where
  "finality_verify P R certificate proposalDigest valueDigest logicalTimeMs =
     bindS (getsS (\<lambda>cache. map_of cache (sf_certificateDigest certificate))) (\<lambda>cached.
     bindS (case cached of
       Some shards \<Rightarrow> retS (Some shards)
     | None \<Rightarrow> liftE (fr_shardCertificates R certificate logicalTimeMs)) (\<lambda>found. case found of
       None \<Rightarrow> retS False
     | Some shards \<Rightarrow>
         bindS (liftE (verifyEnvelope P R certificate shards proposalDigest valueDigest logicalTimeMs)) (\<lambda>verified.
           if verified
           then (\<lambda>cache. (Inr True, cacheVerifiedShards R (sf_certificateDigest certificate) shards cache))
           else retS False)))"

subsection \<open>The ports\<close>

definition verifyExecution :: "'k platform \<Rightarrow> finality_runtime \<Rightarrow> sparse_finality \<Rightarrow> string \<Rightarrow> string \<Rightarrow> int \<Rightarrow>
    (shard_cache, bool) comp" where
  "verifyExecution P R certificate decisionDigest effectProposalDigest logicalTimeMs =
     finality_verify P R certificate decisionDigest effectProposalDigest logicalTimeMs"

definition certifyAdaptation :: "'k platform \<Rightarrow> finality_runtime \<Rightarrow> string \<Rightarrow> string \<Rightarrow> string list \<Rightarrow> string list \<Rightarrow>
    string \<Rightarrow> int \<Rightarrow> (shard_cache, sparse_finality option) comp" where
  "certifyAdaptation P R cycleId bundleDigest actionDigests signalDigests safetyDecisionDigest logicalTimeMs =
     finality_certify P R \<lparr>cq_decisionClass = ''adaptation'', cq_decisionId = cycleId,
       cq_proposalDigest = bundleDigest, cq_valueDigest = bundleDigest, cq_commandBindingDigest = None,
       cq_evidenceDigests = actionDigests @ signalDigests @ [safetyDecisionDigest],
       cq_logicalTimeMs = logicalTimeMs\<rparr>"

definition verifyAdaptation :: "'k platform \<Rightarrow> finality_runtime \<Rightarrow> sparse_finality \<Rightarrow> string \<Rightarrow> int \<Rightarrow>
    (shard_cache, bool) comp" where
  "verifyAdaptation P R certificate bundleDigest logicalTimeMs =
     finality_verify P R certificate bundleDigest bundleDigest logicalTimeMs"

end
