(* ===== verification/AgSparseFacts.thy ===== *)
theory AgSparseFacts
  imports AgSparseFinality
begin

text \<open>
  What the checks of sparse agreement admit, the order of a sorted committee, and what the loop
  that picks a committee returns.
\<close>

subsection \<open>Checks\<close>

lemma ensure_Inr [simp]: "ensure b e = Inr u \<longleftrightarrow> b"
  by (simp add: ensure_def)

lemma ensure_True [simp]: "ensure True e = Inr ()"
  by (simp add: ensure_def)

lemma field_checks [simp]:
  "sparse_identifier v label = Inr u \<longleftrightarrow> is_identifier v"
  "quorumDigest v label = Inr u \<longleftrightarrow> digest_text v"
  "sparse_integer n label lo hi = Inr u \<longleftrightarrow> isSafeInteger n \<and> lo \<le> n \<and> n \<le> hi"
  by (simp_all add: sparse_identifier_def quorumDigest_def sparse_integer_def)

lemma list_ex_zip_neq: "length xs = length ys \<Longrightarrow> list_ex (\<lambda>(x, y). x \<noteq> y) (zip xs ys) \<longleftrightarrow> xs \<noteq> ys"
  by (induction xs ys rule: list_induct2) auto

lemma seqE_map_Inr: "seqE (map f xs) = Inr u \<longleftrightarrow> list_all (\<lambda>x. f x = Inr ()) xs"
  by (simp add: seqE_Inr_iff list_all_iff)

lemma sorted_sort_remdups: "sort (remdups xs) = xs \<longleftrightarrow> sorted_wrt (<) (xs :: string list)"
proof
  assume "sort (remdups xs) = xs"
  then have "sorted xs \<and> distinct xs" by (metis distinct_remdups distinct_sort sorted_sort)
  then show "sorted_wrt (<) xs" by (simp add: strict_sorted_iff)
next
  assume "sorted_wrt (<) xs"
  then have "sorted xs \<and> distinct xs" by (simp add: strict_sorted_iff)
  then show "sort (remdups xs) = xs" by (simp add: sorted_sort_id distinct_remdups_id)
qed

lemma canonicalIdentifiers_iff:
  "canonicalIdentifiers xs label = Inr ys \<longleftrightarrow>
     length xs \<le> 100000 \<and> list_all is_identifier xs \<and> sorted_wrt (<) xs \<and> ys = xs"
proof -
  have "(length (sort (remdups xs)) \<noteq> length xs \<or> list_ex (\<lambda>(x, y). x \<noteq> y) (zip (sort (remdups xs)) xs))
      \<longleftrightarrow> sort (remdups xs) \<noteq> xs" using list_ex_zip_neq by metis
  then show ?thesis unfolding canonicalIdentifiers_def Let_def sorted_sort_remdups[symmetric]
    by (auto simp: bindE_Inr_iff seqE_map_Inr)
qed

subsection \<open>Digests\<close>

lemma collectiveQuorumDigestV1_iff:
  "collectiveQuorumDigestV1 P v = Inr d \<longleftrightarrow> mesh_ok v
     \<and> (\<exists>h. pl_digest P (encode_utf8 (render (json_norm v))) = Some h \<and> d = ''sha256:'' @ toHex h)"
proof (cases "canonicalizeMeshJsonBytes v")
  case (Inl e)
  then have "\<not> mesh_ok v" using canonicalizeMeshJsonBytes_iff[of v "encode_utf8 (render (json_norm v))"] by auto
  with Inl show ?thesis by (simp add: collectiveQuorumDigestV1_def)
next
  case (Inr bytes)
  then have "mesh_ok v" "bytes = encode_utf8 (render (json_norm v))" by (simp_all add: canonicalizeMeshJsonBytes_iff)
  then show ?thesis by (auto simp: collectiveQuorumDigestV1_def Inr split: option.splits)
qed

text \<open>The digests of SHA-256 are 32 bytes.\<close>

definition sha256_digests :: "'k platform \<Rightarrow> bool" where
  "sha256_digests P \<longleftrightarrow> (\<forall>bytes h. pl_digest P bytes = Some h \<longrightarrow>
     length h = 32 \<and> (\<forall>b \<in> set h. 0 \<le> b \<and> b < 256))"

lemma toHex_format:
  assumes "\<forall>b \<in> set h. 0 \<le> b \<and> b < 256"
  shows "length (toHex h) = 2 * length h" "list_all lower_hex (toHex h)"
proof -
  show "length (toHex h) = 2 * length h" "list_all lower_hex (toHex h)"
    using assms by (induction h) (auto simp: toHex_def intro!: lower_hex_hex_digit)
qed

lemma digest_shape:
  assumes "sha256_digests P" "collectiveQuorumDigestV1 P v = Inr d"
  shows "digest_text d"
proof -
  from assms obtain h where "length h = 32" "\<forall>b \<in> set h. 0 \<le> b \<and> b < 256" "d = ''sha256:'' @ toHex h"
    by (auto simp: sha256_digests_def collectiveQuorumDigestV1_iff)
  with toHex_format[of h] show ?thesis by (simp add: digest_text_def)
qed

lemma digest_slice_alnum: "digest_text d \<Longrightarrow> list_all is_alnum (digest_slice d) \<and> length (digest_slice d) = 40"
  by (auto simp: digest_text_def digest_slice_def list_all_iff lower_hex_alnum dest!: in_set_takeD)

lemma committee_identifier: "digest_text d \<Longrightarrow> is_identifier (''committee:'' @ digest_slice d)"
  using digest_slice_alnum[of d] by (auto simp: is_identifier_def list_all_iff) (simp_all add: is_alnum_def)

subsection \<open>Policies and memberships\<close>

lemma validatePolicy_iff:
  "validatePolicy n p d = Inr u \<longleftrightarrow> n = 2 \<and> is_identifier (sp_policyId p)
     \<and> isSafeInteger (sp_policyVersion p) \<and> 1 \<le> sp_policyVersion p
     \<and> 4 \<le> sp_committeeSize p \<and> sp_committeeSize p \<le> 100000
     \<and> 1 \<le> sp_faultThreshold p \<and> sp_faultThreshold p \<le> 33333
     \<and> 4 \<le> sp_reconciliationCommitteeSize p \<and> sp_reconciliationCommitteeSize p \<le> 100000
     \<and> 1 \<le> sp_reconciliationFaultThreshold p \<and> sp_reconciliationFaultThreshold p \<le> 33333
     \<and> 1 \<le> sp_maximumCommittees p \<and> sp_maximumCommittees p \<le> 100000
     \<and> 1 \<le> sp_maximumValidatorsPerIndependenceGroup p \<and> sp_maximumValidatorsPerIndependenceGroup p \<le> 100000
     \<and> (case d of None \<Rightarrow> True | Some x \<Rightarrow> digest_text x)
     \<and> 3 * sp_faultThreshold p + 1 \<le> sp_committeeSize p
     \<and> 3 * sp_reconciliationFaultThreshold p + 1 \<le> sp_reconciliationCommitteeSize p"
  by (cases d) (auto simp: validatePolicy_def seqE_Inr_iff isSafeInteger_def maximumSafeInteger_def)

definition sparse_policy_digest :: "'k platform \<Rightarrow> 'a sparse_policy_input_scheme \<Rightarrow> string res" where
  "sparse_policy_digest P p = collectiveQuorumDigestV1 P
     (JObj [(''domain'', JStr ''sparse-committee-policy-v2''), (''body'', sparse_policy_body p)])"

lemma sparse_policy_input_of [simp]:
  "sp_policyId (sparse_policy_input.truncate p) = sp_policyId p"
  "sp_policyVersion (sparse_policy_input.truncate p) = sp_policyVersion p"
  "sp_committeeSize (sparse_policy_input.truncate p) = sp_committeeSize p"
  "sp_faultThreshold (sparse_policy_input.truncate p) = sp_faultThreshold p"
  "sp_reconciliationCommitteeSize (sparse_policy_input.truncate p) = sp_reconciliationCommitteeSize p"
  "sp_reconciliationFaultThreshold (sparse_policy_input.truncate p) = sp_reconciliationFaultThreshold p"
  "sp_maximumCommittees (sparse_policy_input.truncate p) = sp_maximumCommittees p"
  "sp_maximumValidatorsPerIndependenceGroup (sparse_policy_input.truncate p)
     = sp_maximumValidatorsPerIndependenceGroup p"
  by (simp_all add: sparse_policy_input.truncate_def)

lemma sparse_policy_body_input [simp]:
  "sparse_policy_body (sparse_policy_input.truncate p) = sparse_policy_body p"
  by (simp add: sparse_policy_body_def)

text \<open>A valid policy, whatever schema version it states, is built again with schema version 2.\<close>

lemma validateSparseCommitteePolicyV2_iff:
  "validateSparseCommitteePolicyV2 P p = Inr q \<longleftrightarrow> validatePolicy 2 p None = Inr ()
     \<and> sparse_policy_digest P p = Inr (sp_policyDigest p) \<and> q = p\<lparr>sp_schemaVersion := 2\<rparr>"
proof -
  have body: "validatePolicy 2 (sparse_policy_input.truncate p) None = validatePolicy 2 p None"
    by (simp add: validatePolicy_def)
  have ext: "sparse_policy_input.extend (sparse_policy_input.truncate p) (sparse_policy.fields 2 d)
      = p\<lparr>sp_schemaVersion := 2, sp_policyDigest := d\<rparr>" for d
    by (cases p) (simp add: sparse_policy_input.defs sparse_policy.defs)
  have same: "p\<lparr>sp_schemaVersion := 2, sp_policyDigest := sp_policyDigest p\<rparr> = p\<lparr>sp_schemaVersion := 2\<rparr>"
    by (cases p) simp
  show ?thesis
    unfolding validateSparseCommitteePolicyV2_def createSparseCommitteePolicyV2_def body ext
    by (auto simp: bindE_Inr_iff sparse_policy_digest_def same)
qed

definition sparse_validator_ok :: "sparse_validator \<Rightarrow> bool" where
  "sparse_validator_ok v \<longleftrightarrow> is_identifier (sv_peerId v) \<and> is_identifier (sv_instanceId v)
     \<and> is_identifier (sv_keyId v) \<and> is_identifier (sv_independenceGroupId v) \<and> digest_text (sv_eligibilityDigest v)"

lemma sparse_validator_fields_iff [simp]: "sparse_validator_fields v = Inr u \<longleftrightarrow> sparse_validator_ok v"
  by (simp add: sparse_validator_fields_def sparse_validator_ok_def seqE_Inr_iff)

lemma membership_peers:
  "foldE membership_peer peers vs = Inr r \<longleftrightarrow> list_all sparse_validator_ok vs \<and> distinct (map sv_peerId vs)
     \<and> set peers \<inter> sv_peerId ` set vs = {} \<and> r = rev (map sv_peerId vs) @ peers"
  by (induction vs arbitrary: peers) (auto simp: membership_peer_def bindE_Inr_iff)

lemma validateMembership_iff:
  "validateMembership m = Inr u \<longleftrightarrow> sm_schemaVersion m = 2 \<and> isSafeInteger (sm_epoch m) \<and> 1 \<le> sm_epoch m
     \<and> digest_text (sm_configurationDigest m) \<and> digest_text (sm_selectionSeedDigest m)
     \<and> 4 \<le> length (sm_validators m) \<and> length (sm_validators m) \<le> 1000000
     \<and> list_all sparse_validator_ok (sm_validators m) \<and> distinct (map sv_peerId (sm_validators m))"
  by (auto simp: validateMembership_def seqE_Inr_iff bindE_Inr_iff membership_peers isSafeInteger_def)

subsection \<open>Assignments\<close>

text \<open>\<open>localeCompare\<close> on identifiers: only equal ones compare as equal, and it is antisymmetric.\<close>

definition collates :: "'k platform \<Rightarrow> bool" where
  "collates P \<longleftrightarrow> (\<forall>x y. is_identifier x \<longrightarrow> is_identifier y \<longrightarrow>
     (pl_localeCompare P x y = 0 \<longrightarrow> x = y) \<and> (pl_localeCompare P x y > 0 \<longrightarrow> pl_localeCompare P y x < 0))"

definition ascending :: "'k platform \<Rightarrow> string list \<Rightarrow> bool" where
  "ascending P = successively (\<lambda>x y. pl_localeCompare P x y < 0)"

lemma assignment_peers:
  "(\<exists>r. foldE (assignment_peer P) (peers, prior) vs = Inr r) \<longleftrightarrow>
     list_all sparse_validator_ok vs \<and> distinct (map sv_peerId vs) \<and> set peers \<inter> sv_peerId ` set vs = {}
     \<and> ascending P ((case prior of None \<Rightarrow> [] | Some q \<Rightarrow> [q]) @ map sv_peerId vs)"
proof (induction vs arbitrary: peers prior)
  case Nil
  then show ?case by (simp add: ascending_def split: option.splits)
next
  case (Cons v vs)
  have "(\<exists>r. foldE (assignment_peer P) (peers, prior) (v # vs) = Inr r) \<longleftrightarrow>
      sparse_validator_ok v \<and> sv_peerId v \<notin> set peers
      \<and> (case prior of None \<Rightarrow> True | Some q \<Rightarrow> pl_localeCompare P q (sv_peerId v) < 0)
      \<and> (\<exists>r. foldE (assignment_peer P) (sv_peerId v # peers, Some (sv_peerId v)) vs = Inr r)"
    by (auto simp: assignment_peer_def bindE_Inr_iff split: option.splits)
  with Cons.IH show ?case by (auto simp: ascending_def split: option.splits)
qed

definition assignment_ok :: "'k platform \<Rightarrow> sparse_assignment \<Rightarrow> bool" where
  "assignment_ok P a \<longleftrightarrow> sa_schemaVersion a = 2 \<and> is_identifier (sa_committeeId a)
     \<and> (sa_purpose a = ''shard'' \<or> sa_purpose a = ''reconciliation'') \<and> is_identifier (sa_shardId a)
     \<and> digest_text (sa_assignmentDigest a) \<and> digest_text (sa_membershipConfigurationDigest a)
     \<and> digest_text (sa_policyDigest a) \<and> isSafeInteger (sa_epoch a) \<and> 1 \<le> sa_epoch a
     \<and> isSafeInteger (sa_faultThreshold a) \<and> 1 \<le> sa_faultThreshold a
     \<and> isSafeInteger (sa_quorumThreshold a) \<and> sa_quorumThreshold a = 2 * sa_faultThreshold a + 1
     \<and> 3 * sa_faultThreshold a + 1 \<le> int (length (sa_validators a))
     \<and> list_all sparse_validator_ok (sa_validators a) \<and> distinct (map sv_peerId (sa_validators a))
     \<and> ascending P (map sv_peerId (sa_validators a))"

lemma validateAssignment_iff: "validateAssignment P a = Inr u \<longleftrightarrow> assignment_ok P a"
  using assignment_peers[of P "[]" None "sa_validators a"]
  by (auto simp: validateAssignment_def assignment_ok_def seqE_Inr_iff bindE_Inr_iff isSafeInteger_def)

lemma validate_assignment_digest_iff:
  "validateSparseCommitteeAssignmentDigestV2 P a = Inr b \<longleftrightarrow> b = a \<and> assignment_ok P a
     \<and> sparse_assignment_digest P a = Inr (sa_assignmentDigest a)
     \<and> sa_committeeId a = ''committee:'' @ digest_slice (sa_assignmentDigest a)"
  by (auto simp: validateSparseCommitteeAssignmentDigestV2_def bindE_Inr_iff validateAssignment_iff)

lemma sparse_assignment_digest_body [simp]:
  "sparse_assignment_digest P (a\<lparr>sa_committeeId := i, sa_assignmentDigest := d\<rparr>) = sparse_assignment_digest P a"
  by (simp add: sparse_assignment_digest_def sparse_assignment_fields_def)

end
