(* ===== verification/AgSparseSelection.thy ===== *)
theory AgSparseSelection
  imports AgSparseFacts
begin

text \<open>
  The selection of a committee: what is selected satisfies the policy, it is refused only when no
  committee of the membership does, and the assignment is accepted when it is validated.
\<close>

subsection \<open>The members of a group\<close>

definition group_count :: "string \<Rightarrow> sparse_validator list \<Rightarrow> nat" where
  "group_count g vs = length (filter (\<lambda>v. sv_independenceGroupId v = g) vs)"

lemma group_count_simps [simp]:
  "group_count g [] = 0"
  "group_count g (v # vs) = (if sv_independenceGroupId v = g then 1 else 0) + group_count g vs"
  "group_count g (xs @ ys) = group_count g xs + group_count g ys"
  "group_count g (js_sort cmp vs) = group_count g vs"
  by (simp_all add: group_count_def)

lemma length_by_group:
  assumes "finite G" "sv_independenceGroupId ` set vs \<subseteq> G"
  shows "length vs = (\<Sum>g \<in> G. group_count g vs)"
  using assms(2)
proof (induction vs)
  case (Cons v vs)
  have "(\<Sum>g \<in> G. group_count g (v # vs)) = (\<Sum>g \<in> G. if sv_independenceGroupId v = g then 1 else 0)
      + (\<Sum>g \<in> G. group_count g vs)" by (simp add: sum.distrib)
  with Cons assms(1) show ?case by simp
qed simp

lemma group_count_mono:
  assumes "distinct xs" "set xs \<subseteq> set ys"
  shows "group_count g xs \<le> group_count g ys"
proof -
  let ?p = "\<lambda>v. sv_independenceGroupId v = g"
  have "group_count g xs = card (set (filter ?p xs))"
    unfolding group_count_def by (rule distinct_card[symmetric]) (simp add: assms(1))
  also have "\<dots> \<le> card (set (filter ?p ys))" by (rule card_mono) (use assms(2) in auto)
  also have "\<dots> \<le> group_count g ys" unfolding group_count_def by (rule card_length)
  finally show ?thesis .
qed

subsection \<open>Admissible committees\<close>

text \<open>What a committee must be: so many different validators of the membership, at most \<open>cap\<close> of a group.\<close>

definition admissible :: "sparse_validator list \<Rightarrow> int \<Rightarrow> int \<Rightarrow> sparse_validator list \<Rightarrow> bool" where
  "admissible vs wanted cap C \<longleftrightarrow> distinct (map sv_peerId C) \<and> set C \<subseteq> set vs \<and> int (length C) = wanted
     \<and> (\<forall>g. int (group_count g C) \<le> cap)"

lemma admissible_set: "set vs = set ws \<Longrightarrow> admissible vs = admissible ws"
  by (simp add: admissible_def fun_eq_iff)

definition counts_groups :: "(string \<rightharpoonup> int) \<Rightarrow> sparse_validator list \<Rightarrow> bool" where
  "counts_groups groups selected \<longleftrightarrow>
     (\<forall>g. (case groups g of None \<Rightarrow> 0 | Some n \<Rightarrow> n) = int (group_count g selected))"

lemma counts_groups_simps:
  "counts_groups (\<lambda>_. None) []"
  "counts_groups groups selected \<Longrightarrow>
     counts_groups (groups(sv_independenceGroupId v \<mapsto> int (group_count (sv_independenceGroupId v) selected) + 1)) (selected @ [v])"
  by (auto simp: counts_groups_def)

text \<open>One turn of the loop, with the counts taken from what is selected.\<close>

lemma pick_committee_turn:
  assumes "counts_groups groups selected"
  shows "pick_committee wanted cap groups selected (v # vs) =
     (if int (group_count (sv_independenceGroupId v) selected) \<ge> cap
      then pick_committee wanted cap groups selected vs
      else if int (length (selected @ [v])) = wanted then selected @ [v]
      else pick_committee wanted cap
        (groups(sv_independenceGroupId v \<mapsto> int (group_count (sv_independenceGroupId v) selected) + 1)) (selected @ [v]) vs)"
  using assms by (simp add: counts_groups_def Let_def)

text \<open>
  The loop keeps the members different and the groups within the cap, and when it has not found
  enough validators it has taken from each group as many as the cap allows.
\<close>

lemma pick_committee_facts:
  assumes "counts_groups groups selected" "distinct (map sv_peerId (selected @ vs))"
    and "\<forall>g. int (group_count g selected) \<le> cap" "int (length selected) < wanted"
  defines "r \<equiv> pick_committee wanted cap groups selected vs"
  shows "set r \<subseteq> set (selected @ vs) \<and> distinct (map sv_peerId r) \<and> (\<forall>g. int (group_count g r) \<le> cap)
    \<and> int (length r) \<le> wanted
    \<and> (int (length r) \<noteq> wanted \<longrightarrow> (\<forall>g. int (group_count g r) = min cap (int (group_count g (selected @ vs)))))"
  using assms(1-4) unfolding r_def
proof (induction vs arbitrary: groups selected)
  case Nil
  then show ?case by (auto simp: min_absorb2)
next
  case (Cons v vs)
  let ?g = "sv_independenceGroupId v"
  let ?full = "int (group_count ?g selected) \<ge> cap"
  show ?case
  proof (cases ?full)
    case True
    then have run: "pick_committee wanted cap groups selected (v # vs) = pick_committee wanted cap groups selected vs"
      using pick_committee_turn[OF Cons.prems(1)] by simp
    have eq: "int (group_count ?g selected) = cap" using True Cons.prems(3) by (simp add: order_antisym)
    have "min cap (int (group_count g (selected @ vs))) = min cap (int (group_count g (selected @ v # vs)))" for g
      using eq by (cases "g = ?g") auto
    with Cons.IH[OF Cons.prems(1) _ Cons.prems(3,4)] Cons.prems(2) show ?thesis unfolding run by auto
  next
    case False
    have within: "\<forall>g. int (group_count g (selected @ [v])) \<le> cap" using False Cons.prems(3) by auto
    show ?thesis
    proof (cases "int (length (selected @ [v])) = wanted")
      case True
      then have "pick_committee wanted cap groups selected (v # vs) = selected @ [v]"
        using False pick_committee_turn[OF Cons.prems(1)] by simp
      with True within Cons.prems(2) show ?thesis by auto
    next
      case more: False
      let ?groups = "groups(?g \<mapsto> int (group_count ?g selected) + 1)"
      have run: "pick_committee wanted cap groups selected (v # vs)
          = pick_committee wanted cap ?groups (selected @ [v]) vs"
        using False more pick_committee_turn[OF Cons.prems(1)] by simp
      have len: "int (length (selected @ [v])) < wanted" using more Cons.prems(4) by simp
      have app: "(selected @ [v]) @ vs = selected @ v # vs" by simp
      show ?thesis unfolding run
        by (rule Cons.IH[OF counts_groups_simps(2)[OF Cons.prems(1)] _ within len, unfolded app, OF Cons.prems(2)])
    qed
  qed
qed

lemma pick_committee_exact:
  assumes "distinct (map sv_peerId vs)" "1 \<le> cap" "1 \<le> wanted"
  defines "r \<equiv> pick_committee wanted cap (\<lambda>_. None) [] vs"
  shows "int (length r) = wanted \<Longrightarrow> admissible vs wanted cap r"
    "int (length r) \<noteq> wanted \<Longrightarrow> \<not> admissible vs wanted cap C"
proof -
  have f: "set r \<subseteq> set vs" "distinct (map sv_peerId r)" "\<forall>g. int (group_count g r) \<le> cap" "int (length r) \<le> wanted"
    "int (length r) \<noteq> wanted \<longrightarrow> (\<forall>g. int (group_count g r) = min cap (int (group_count g vs)))"
    using pick_committee_facts[OF counts_groups_simps(1), of vs cap wanted] assms by (auto simp: r_def)
  then show "int (length r) = wanted \<Longrightarrow> admissible vs wanted cap r" by (simp add: admissible_def)
  assume short: "int (length r) \<noteq> wanted"
  show "\<not> admissible vs wanted cap C"
  proof
    assume C: "admissible vs wanted cap C"
    let ?G = "sv_independenceGroupId ` set vs"
    have "group_count g C \<le> group_count g r" for g
    proof -
      have "group_count g C \<le> group_count g vs"
        using C by (intro group_count_mono) (auto simp: admissible_def distinct_map)
      moreover have "int (group_count g C) \<le> cap" using C by (simp add: admissible_def)
      moreover have "int (group_count g r) = min cap (int (group_count g vs))" using f(5) short by blast
      ultimately show ?thesis by simp
    qed
    then have "(\<Sum>g \<in> ?G. group_count g C) \<le> (\<Sum>g \<in> ?G. group_count g r)" by (rule sum_mono)
    then have "length C \<le> length r"
      using C f(1) by (subst (1 2) length_by_group[of ?G]) (auto simp: admissible_def)
    with C f(4) short show False by (simp add: admissible_def)
  qed
qed

subsection \<open>The selection\<close>

definition wanted_size :: "sparse_policy \<Rightarrow> string \<Rightarrow> int" where
  "wanted_size p purpose = (if purpose = ''shard'' then sp_committeeSize p else sp_reconciliationCommitteeSize p)"

definition wanted_threshold :: "sparse_policy \<Rightarrow> string \<Rightarrow> int" where
  "wanted_threshold p purpose = (if purpose = ''shard'' then sp_faultThreshold p else sp_reconciliationFaultThreshold p)"

text \<open>The validators in the order of their ranks.\<close>

definition ranked_validators :: "'k platform \<Rightarrow> sparse_membership \<Rightarrow> sparse_policy \<Rightarrow> string \<Rightarrow> string \<Rightarrow>
    sparse_validator list res" where
  "ranked_validators P m p purpose shardId =
     bindE (mapE (sparse_rank P m p purpose shardId) (sm_validators m)) (\<lambda>ranked.
       Inr (map fst (js_sort (rank_order P) ranked)))"

lemma ranked_permutation:
  assumes "ranked_validators P m p purpose shardId = Inr vs"
  shows "set vs = set (sm_validators m)" "distinct (map sv_peerId (sm_validators m)) \<Longrightarrow> distinct (map sv_peerId vs)"
proof -
  from assms obtain ranked where r: "mapE (sparse_rank P m p purpose shardId) (sm_validators m) = Inr ranked"
    "vs = map fst (js_sort (rank_order P) ranked)" by (auto simp: ranked_validators_def bindE_Inr_iff)
  have "map fst ranked = sm_validators m"
    using mapE_Inr[OF r(1)] by (induction rule: list_all2_induct) (auto simp: sparse_rank_def bindE_Inr_iff)
  then show "set vs = set (sm_validators m)" unfolding r(2) by (metis list.set_map set_js_sort)
  assume "distinct (map sv_peerId (sm_validators m))"
  then have "distinct (map (sv_peerId \<circ> fst) (js_sort (rank_order P) ranked))"
    unfolding distinct_js_sort \<open>map fst ranked = sm_validators m\<close>[symmetric] by simp
  then show "distinct (map sv_peerId vs)" unfolding r(2) by simp
qed

definition committee_body :: "'k platform \<Rightarrow> sparse_membership \<Rightarrow> sparse_policy \<Rightarrow> string \<Rightarrow> string \<Rightarrow>
    sparse_validator list \<Rightarrow> sparse_assignment" where
  "committee_body P m p purpose shardId selected = \<lparr>sa_schemaVersion = 2, sa_committeeId = ''pending'',
     sa_purpose = purpose, sa_shardId = shardId, sa_epoch = sm_epoch m,
     sa_membershipConfigurationDigest = sm_configurationDigest m, sa_policyDigest = sp_policyDigest p,
     sa_validators = js_sort (by_peer P) selected, sa_faultThreshold = wanted_threshold p purpose,
     sa_quorumThreshold = 2 * wanted_threshold p purpose + 1, sa_assignmentDigest = []\<rparr>"

lemma select_unfold:
  "selectSparseCommitteeV2 P m p purpose shardId =
     bindE (validateMembership m) (\<lambda>_.
     bindE (validateSparseCommitteePolicyV2 P p) (\<lambda>_.
     bindE (sparse_identifier shardId ''shardId'') (\<lambda>_.
     bindE (ranked_validators P m p purpose shardId) (\<lambda>vs.
       let selected = pick_committee (wanted_size p purpose) (sp_maximumValidatorsPerIndependenceGroup p) (\<lambda>_. None) [] vs;
           body = committee_body P m p purpose shardId selected
       in if int (length selected) \<noteq> wanted_size p purpose
          then Inl (RangeError ''sparse committee cannot satisfy size and independence constraints'')
          else if int (length selected) < 3 * wanted_threshold p purpose + 1
          then Inl (RangeError ''sparse committee does not satisfy the declared fault model'')
          else bindE (sparse_assignment_digest P body) (\<lambda>d.
            Inr (body\<lparr>sa_committeeId := ''committee:'' @ digest_slice d, sa_assignmentDigest := d\<rparr>))))))"
  unfolding selectSparseCommitteeV2_def ranked_validators_def bindE_assoc committee_body_def
    wanted_size_def wanted_threshold_def by_peer_def Let_def bindE_simps by (rule refl)

lemma wanted_bounds:
  assumes "validatePolicy n p d = Inr ()"
  shows "4 \<le> wanted_size p purpose" "1 \<le> wanted_threshold p purpose" "wanted_threshold p purpose \<le> 33333"
    "3 * wanted_threshold p purpose + 1 \<le> wanted_size p purpose"
  using assms by (auto simp: validatePolicy_iff wanted_size_def wanted_threshold_def)

lemma cap_positive: "validatePolicy n p d = Inr () \<Longrightarrow> 1 \<le> sp_maximumValidatorsPerIndependenceGroup p"
  by (simp add: validatePolicy_iff)

lemma select_Inr:
  assumes "selectSparseCommitteeV2 P m p purpose shardId = Inr a"
  obtains selected d where "validateMembership m = Inr ()" "validatePolicy 2 p None = Inr ()"
    "sparse_policy_digest P p = Inr (sp_policyDigest p)" "is_identifier shardId"
    "admissible (sm_validators m) (wanted_size p purpose) (sp_maximumValidatorsPerIndependenceGroup p) selected"
    "sparse_assignment_digest P (committee_body P m p purpose shardId selected) = Inr d"
    "a = (committee_body P m p purpose shardId selected)\<lparr>sa_committeeId := ''committee:'' @ digest_slice d, sa_assignmentDigest := d\<rparr>"
proof -
  from assms obtain vs d where r: "validateMembership m = Inr ()" "validatePolicy 2 p None = Inr ()"
    "sparse_policy_digest P p = Inr (sp_policyDigest p)" "is_identifier shardId"
    "ranked_validators P m p purpose shardId = Inr vs" and
    s: "int (length (pick_committee (wanted_size p purpose) (sp_maximumValidatorsPerIndependenceGroup p) (\<lambda>_. None) [] vs))
        = wanted_size p purpose"
    "sparse_assignment_digest P (committee_body P m p purpose shardId
        (pick_committee (wanted_size p purpose) (sp_maximumValidatorsPerIndependenceGroup p) (\<lambda>_. None) [] vs)) = Inr d"
    "a = (committee_body P m p purpose shardId
        (pick_committee (wanted_size p purpose) (sp_maximumValidatorsPerIndependenceGroup p) (\<lambda>_. None) [] vs))
        \<lparr>sa_committeeId := ''committee:'' @ digest_slice d, sa_assignmentDigest := d\<rparr>"
    unfolding select_unfold Let_def
    by (auto simp: bindE_Inr_iff validateSparseCommitteePolicyV2_iff split: if_splits)
  note w = wanted_bounds[OF r(2), of purpose]
  have "distinct (map sv_peerId vs)"
    using ranked_permutation(2)[OF r(5)] r(1) by (simp add: validateMembership_iff)
  from pick_committee_exact(1)[OF this, of "sp_maximumValidatorsPerIndependenceGroup p" "wanted_size p purpose"] w s(1)
  have "admissible (sm_validators m) (wanted_size p purpose) (sp_maximumValidatorsPerIndependenceGroup p)
      (pick_committee (wanted_size p purpose) (sp_maximumValidatorsPerIndependenceGroup p) (\<lambda>_. None) [] vs)"
    using admissible_set[OF ranked_permutation(1)[OF r(5)]] cap_positive[OF r(2)] by auto
  from that[OF r(1-4) this s(2,3)] show thesis .
qed

lemma admissible_sorted: "admissible vs n cap (js_sort cmp C) = admissible vs n cap C"
  by (simp add: admissible_def distinct_js_sort)

text \<open>The committee in the order of its peers.\<close>

lemma ascending_strict:
  assumes "collates P"
  shows "successively (\<lambda>x y. by_peer P x y \<le> 0) ws \<Longrightarrow> distinct (map sv_peerId ws)
    \<Longrightarrow> \<forall>v \<in> set ws. is_identifier (sv_peerId v) \<Longrightarrow> ascending P (map sv_peerId ws)"
proof (induction ws rule: induct_list012)
  case (3 x y zs)
  then have "by_peer P x y \<noteq> 0" using assms by (auto simp: collates_def by_peer_def)
  with 3 show ?case by (simp add: ascending_def by_peer_def)
qed (simp_all add: ascending_def)

lemma ascending_committee:
  assumes "collates P" "list_all sparse_validator_ok vs" "distinct (map sv_peerId vs)"
  shows "ascending P (map sv_peerId (js_sort (by_peer P) vs))"
proof -
  have ids: "is_identifier (sv_peerId v)" if "v \<in> set vs" for v
    using assms(2) that by (auto simp: list_all_iff sparse_validator_ok_def)
  have s: "successively (\<lambda>x y. by_peer P x y \<le> 0) (js_sort (by_peer P) vs)"
    by (rule js_sort_adjacent) (use assms(1) ids in \<open>auto simp: collates_def by_peer_def intro: less_imp_le\<close>)
  let ?ws = "js_sort (by_peer P) vs"
  have "distinct (map sv_peerId ?ws)" "\<forall>v \<in> set ?ws. is_identifier (sv_peerId v)"
    using assms(3) ids by (simp_all add: distinct_js_sort)
  with s ascending_strict[OF assms(1)] show ?thesis by blast
qed

lemma select_digests:
  assumes "selectSparseCommitteeV2 P m p purpose shardId = Inr a" "sha256_digests P"
  shows "digest_text (sa_assignmentDigest a)" "digest_text (sp_policyDigest p)"
  using digest_shape[OF assms(2)]
  by (rule select_Inr[OF assms(1)], auto simp: sparse_assignment_digest_def sparse_policy_digest_def)+

lemma selected_is_valid:
  assumes "selectSparseCommitteeV2 P m p purpose shardId = Inr a" "collates P"
    and "digest_text (sa_assignmentDigest a)" "digest_text (sp_policyDigest p)"
    and "purpose = ''shard'' \<or> purpose = ''reconciliation''"
  shows "validateSelectedSparseCommitteeV2 P a m p = Inr True"
proof -
  from assms(1) obtain selected d where r: "validateMembership m = Inr ()" "validatePolicy 2 p None = Inr ()"
    "sparse_policy_digest P p = Inr (sp_policyDigest p)" "is_identifier shardId"
    "admissible (sm_validators m) (wanted_size p purpose) (sp_maximumValidatorsPerIndependenceGroup p) selected"
    and d: "sparse_assignment_digest P (committee_body P m p purpose shardId selected) = Inr d"
    and a: "a = (committee_body P m p purpose shardId selected)\<lparr>sa_committeeId := ''committee:'' @ digest_slice d, sa_assignmentDigest := d\<rparr>"
    by (rule select_Inr)
  note m = r(1)[unfolded validateMembership_iff] and w = wanted_bounds[OF r(2), of purpose]
  have shape: "digest_text d" using assms(3) by (simp add: a)
  have members: "list_all sparse_validator_ok selected" "distinct (map sv_peerId selected)"
    using r(5) m by (auto simp: admissible_def list_all_iff)
  have len: "int (length selected) = wanted_size p purpose" using r(5) by (simp add: admissible_def)
  have small: "isSafeInteger (wanted_threshold p purpose)" "isSafeInteger (2 * wanted_threshold p purpose + 1)"
    using w by (simp_all add: isSafeInteger_def maximumSafeInteger_def)
  have "assignment_ok P a"
    using m w shape assms(4) members len small assms(5) r(4) committee_identifier[OF shape] ascending_committee[OF assms(2) members]
    by (simp add: assignment_ok_def a committee_body_def distinct_js_sort list_all_iff)
  then have "validateSparseCommitteeAssignmentDigestV2 P a = Inr a"
    using d by (simp add: validate_assignment_digest_iff) (simp add: a)
  moreover have "sa_purpose a = purpose" "sa_shardId a = shardId" "sa_epoch a = sm_epoch m"
    "sa_membershipConfigurationDigest a = sm_configurationDigest m" "sa_policyDigest a = sp_policyDigest p"
    by (simp_all add: a committee_body_def)
  moreover have "validateSparseCommitteePolicyV2 P p = Inr (p\<lparr>sp_schemaVersion := 2\<rparr>)"
    using r by (simp add: validateSparseCommitteePolicyV2_iff)
  ultimately show ?thesis using assms(1) r(1) by (simp add: validateSelectedSparseCommitteeV2_def)
qed

text \<open>
  C5. The selection is sound: the committee of an assignment has the size that the policy asks for,
  different validators of the membership, no independence group above the cap, and thresholds
  \<open>f\<close> and \<open>2 f + 1\<close> with at least \<open>3 f + 1\<close> members.
\<close>

theorem selected_committee_sound:
  assumes "selectSparseCommitteeV2 P m p purpose shardId = Inr a"
  shows "distinct (map sv_peerId (sa_validators a)) \<and> set (sa_validators a) \<subseteq> set (sm_validators m)
    \<and> int (length (sa_validators a)) = (if purpose = ''shard'' then sp_committeeSize p else sp_reconciliationCommitteeSize p)
    \<and> (\<forall>g. int (length (filter (\<lambda>v. sv_independenceGroupId v = g) (sa_validators a)))
         \<le> sp_maximumValidatorsPerIndependenceGroup p)
    \<and> sa_quorumThreshold a = 2 * sa_faultThreshold a + 1
    \<and> 3 * sa_faultThreshold a + 1 \<le> int (length (sa_validators a))"
proof -
  from assms obtain selected d where r: "validatePolicy 2 p None = Inr ()"
    "admissible (sm_validators m) (wanted_size p purpose) (sp_maximumValidatorsPerIndependenceGroup p) selected"
    and a: "a = (committee_body P m p purpose shardId selected)\<lparr>sa_committeeId := ''committee:'' @ digest_slice d, sa_assignmentDigest := d\<rparr>"
    by (rule select_Inr)
  have "admissible (sm_validators m) (wanted_size p purpose) (sp_maximumValidatorsPerIndependenceGroup p) (sa_validators a)"
    using r(2) by (simp add: a committee_body_def admissible_sorted)
  with wanted_bounds[OF r(1), of purpose] show ?thesis
    by (simp add: admissible_def group_count_def wanted_size_def a committee_body_def)
qed

text \<open>
  C6. The selection is complete: of a valid membership and policy, it reports that no committee
  satisfies the constraints exactly when there is none.
\<close>

theorem selection_refused_iff_impossible:
  assumes "validateMembership m = Inr ()" "validateSparseCommitteePolicyV2 P p = Inr q" "is_identifier shardId"
    and "\<forall>v \<in> set (sm_validators m). \<exists>r. sparse_rank P m p purpose shardId v = Inr r"
  shows "selectSparseCommitteeV2 P m p purpose shardId
      = Inl (RangeError ''sparse committee cannot satisfy size and independence constraints'')
    \<longleftrightarrow> (\<nexists>C. distinct (map sv_peerId C) \<and> set C \<subseteq> set (sm_validators m)
          \<and> int (length C) = (if purpose = ''shard'' then sp_committeeSize p else sp_reconciliationCommitteeSize p)
          \<and> (\<forall>g. int (length (filter (\<lambda>v. sv_independenceGroupId v = g) C)) \<le> sp_maximumValidatorsPerIndependenceGroup p))"
proof -
  let ?cap = "sp_maximumValidatorsPerIndependenceGroup p" and ?n = "wanted_size p purpose"
  have "\<exists>rs. mapE f xs = Inr rs" if "\<forall>x \<in> set xs. \<exists>r. f x = Inr r" for f :: "sparse_validator \<Rightarrow> (sparse_validator \<times> string) res" and xs
    using that by (induction xs) fastforce+
  from this[OF assms(4)] obtain vs where vs: "ranked_validators P m p purpose shardId = Inr vs"
    by (auto simp: ranked_validators_def)
  let ?r = "pick_committee ?n ?cap (\<lambda>_. None) [] vs"
  from assms(2) have p: "validatePolicy 2 p None = Inr ()" by (simp add: validateSparseCommitteePolicyV2_iff)
  note w = wanted_bounds[OF p, of purpose]
  have "selectSparseCommitteeV2 P m p purpose shardId
      = Inl (RangeError ''sparse committee cannot satisfy size and independence constraints'')
    \<longleftrightarrow> int (length ?r) \<noteq> ?n"
    unfolding select_unfold using assms(1-3) vs w(4)
    by (auto simp: Let_def sparse_identifier_def bindE_def sparse_assignment_digest_def collectiveQuorumDigestV1_def
        split: sum.splits option.splits)
  moreover have "distinct (map sv_peerId vs)"
    using ranked_permutation(2)[OF vs] assms(1) by (simp add: validateMembership_iff)
  note exact = pick_committee_exact[OF this cap_positive[OF p], of ?n, unfolded admissible_set[OF ranked_permutation(1)[OF vs]]]
  have "int (length ?r) \<noteq> ?n \<longleftrightarrow> (\<nexists>C. admissible (sm_validators m) ?n ?cap C)" using exact w(1) by auto
  ultimately show ?thesis by (simp add: admissible_def wanted_size_def group_count_def)
qed

text \<open>
  C7. What is selected is accepted: the assignment of a committee passes the validation that every
  certificate repeats.
\<close>

theorem selected_committee_validates:
  assumes "selectSparseCommitteeV2 P m p purpose shardId = Inr a" "collates P" "sha256_digests P"
    and "purpose = ''shard'' \<or> purpose = ''reconciliation''"
  shows "validateSelectedSparseCommitteeV2 P a m p = Inr True"
  using selected_is_valid[OF assms(1,2) select_digests[OF assms(1,3)] assms(4)] .

text \<open>
  The canonical form bounds a committee: an assignment has at most 407 validators, although a
  policy may ask for 100000.
\<close>

theorem committee_size_bounded:
  assumes "selectSparseCommitteeV2 P m p purpose shardId = Inr a"
  shows "length (sa_validators a) \<le> 407"
proof -
  from assms obtain selected d where
    d: "sparse_assignment_digest P (committee_body P m p purpose shardId selected) = Inr d"
    and a: "a = (committee_body P m p purpose shardId selected)\<lparr>sa_committeeId := ''committee:'' @ digest_slice d, sa_assignmentDigest := d\<rparr>"
    by (rule select_Inr)
  have "object_keys (sparse_validator_json v) = 5" for v by (simp add: sparse_validator_json_def)
  then have "sum_list (map (object_keys \<circ> sparse_validator_json) vs) = 5 * length vs" for vs
    by (induction vs) simp_all
  then have "object_keys (JObj (sparse_assignment_fields JNull b)) = 10 + 5 * length (sa_validators b)" for b
    by (simp add: sparse_assignment_fields_def)
  moreover from d have "object_keys (JObj (sparse_assignment_fields JNull (committee_body P m p purpose shardId selected))) \<le> 2048"
    by (simp add: sparse_assignment_digest_def collectiveQuorumDigestV1_iff mesh_ok_def)
  ultimately show ?thesis by (simp add: a)
qed

end
