(* ===== verification/AgSparseRounds.thy ===== *)
theory AgSparseRounds
  imports AgSparseSelection AgVoting
begin

text \<open>
  Committee certificates: when one is accepted, what the loop over the shares has verified, and the
  certificate that is made of them.
\<close>

subsection \<open>Early returns\<close>

text \<open>What is left when no statement has returned \<open>false\<close> or \<open>null\<close>.\<close>

named_theorems returns "rules for statements that may return early"

lemma early_returns [returns]:
  "(if b then Inr False else r) = Inr True \<longleftrightarrow> \<not> b \<and> r = Inr True"
  "(if b then Inr None else q) = Inr (Some x) \<longleftrightarrow> \<not> b \<and> q = Inr (Some x)"
  "(if b then r else Inr False) = Inr True \<longleftrightarrow> b \<and> r = Inr True"
  by auto

lemma bindE_bool [returns]:
  "bindE m (\<lambda>b. if \<not> b then Inr False else r) = Inr True \<longleftrightarrow> m = Inr True \<and> r = Inr True"
  "bindE m (\<lambda>b. if \<not> b then Inr None else q) = Inr (Some x) \<longleftrightarrow> m = Inr True \<and> q = Inr (Some x)"
  by (cases m; simp; blast)+

lemma bindE_both [returns]:
  "bindE m (\<lambda>a. bindE (if a then r else Inr False) (\<lambda>b. if \<not> b then Inr None else q)) = Inr (Some x)
    \<longleftrightarrow> m = Inr True \<and> r = Inr True \<and> q = Inr (Some x)"
proof (cases m)
  case (Inr a)
  then show ?thesis by (cases a) (simp_all add: bindE_bool)
qed simp

lemma bindE_option:
  "bindE m (\<lambda>y. case y of None \<Rightarrow> Inr None | Some z \<Rightarrow> f z) = Inr (Some x)
    \<longleftrightarrow> (\<exists>z. m = Inr (Some z) \<and> f z = Inr (Some x))"
proof (cases m)
  case (Inr y)
  then show ?thesis by (cases y) simp_all
qed simp

lemma bindE_value [returns]:
  "bindE (u :: unit res) f = Inr x \<longleftrightarrow> u = Inr () \<and> f () = Inr x"
  "bindE (s :: string res) g = Inr x \<longleftrightarrow> (\<exists>v. s = Inr v \<and> g v = Inr x)"
  "bindE (a :: sparse_aggregate res) k = Inr x \<longleftrightarrow> (\<exists>v. a = Inr v \<and> k v = Inr x)"
  by (simp_all add: bindE_Inr_iff)

lemma bindE_canonical [returns]:
  "bindE (canonicalIdentifiers xs label) f = Inr x \<longleftrightarrow>
     length xs \<le> 100000 \<and> list_all is_identifier xs \<and> sorted_wrt (<) xs \<and> f xs = Inr x"
  by (auto simp: bindE_Inr_iff canonicalIdentifiers_iff)

subsection \<open>Accepted certificates\<close>

definition aggregate_ok :: "'k platform \<Rightarrow> sparse_signatures \<Rightarrow> sparse_aggregate \<Rightarrow> sparse_validator list \<Rightarrow> bool" where
  "aggregate_ok P S u vs \<longleftrightarrow> au_algorithm u = ss_algorithm S \<and> sparse_token (au_value u) 65536
     \<and> length (au_signerPeerIds u) \<le> 100000 \<and> list_all is_identifier (au_signerPeerIds u)
     \<and> sorted_wrt (<) (au_signerPeerIds u) \<and> au_signerPeerIds u = map sv_peerId (js_sort (by_peer P) vs)
     \<and> digest_text (au_signerSetDigest u)
     \<and> sparseAggregateSignerSetDigestV2 P (au_algorithm u) (au_signerPeerIds u) = Inr (au_signerSetDigest u)"

lemma aggregate_signers:
  "aggregate_ok P S u vs \<Longrightarrow> length (au_signerPeerIds u) \<le> 100000
     \<and> list_all is_identifier (au_signerPeerIds u) \<and> sorted_wrt (<) (au_signerPeerIds u)"
  unfolding aggregate_ok_def by blast

lemma zip_peer_neq:
  "length xs = length ys \<Longrightarrow> list_ex (\<lambda>(x, v). x \<noteq> sv_peerId v) (zip xs ys) \<longleftrightarrow> xs \<noteq> map sv_peerId ys"
  by (induction xs ys rule: list_induct2) auto

lemma validateAggregateSignatureV2_iff: "validateAggregateSignatureV2 P S u vs = Inr True \<longleftrightarrow> aggregate_ok P S u vs"
proof (cases "length (au_signerPeerIds u) = length vs")
  case True
  with zip_peer_neq[of "au_signerPeerIds u" "js_sort (by_peer P) vs"] show ?thesis
    by (auto simp: validateAggregateSignatureV2_def aggregate_ok_def bindE_Inr_iff canonicalIdentifiers_iff)
next
  case False
  then have "au_signerPeerIds u \<noteq> map sv_peerId (js_sort (by_peer P) vs)" by (metis length_js_sort length_map)
  with False show ?thesis
    by (auto simp: validateAggregateSignatureV2_def aggregate_ok_def bindE_Inr_iff canonicalIdentifiers_iff)
qed

text \<open>The validators that the signers of a certificate name.\<close>

definition certificate_signers :: "sparse_certificate \<Rightarrow> sparse_validator list" where
  "certificate_signers c = map (\<lambda>i. the (validators_by_id (sa_validators (scc_assignment c)) i))
     (au_signerPeerIds (scc_aggregateSignature c))"

definition certificate_message :: "'k platform \<Rightarrow> sparse_certificate \<Rightarrow> string res" where
  "certificate_message P c = sparseShareMessageDigestV2 P (sa_assignmentDigest (scc_assignment c))
     (scc_coordinateDigest c) (scc_proposalDigest c) (scc_valueDigest c) (scc_phase c)"

definition certificate_ok :: "'k platform \<Rightarrow> sparse_signatures \<Rightarrow> sparse_membership \<Rightarrow> sparse_policy \<Rightarrow>
    sparse_certificate \<Rightarrow> bool" where
  "certificate_ok P S m p c \<longleftrightarrow> scc_schemaVersion c = 2
     \<and> validateSelectedSparseCommitteeV2 P (scc_assignment c) m p = Inr True
     \<and> digest_text (scc_coordinateDigest c) \<and> digest_text (scc_proposalDigest c)
     \<and> digest_text (scc_valueDigest c) \<and> digest_text (scc_certificateDigest c)
     \<and> isSafeInteger (scc_certifiedAtLogicalMs c) \<and> 0 \<le> scc_certifiedAtLogicalMs c
     \<and> scc_phase c \<in> {''prepare'', ''commit'', ''reconcile''}
     \<and> (sa_purpose (scc_assignment c) = ''reconciliation'' \<longleftrightarrow> scc_phase c = ''reconcile'')
     \<and> sa_quorumThreshold (scc_assignment c) \<le> int (length (scc_shareDigests c))
     \<and> sorted_wrt (<) (scc_shareDigests c) \<and> list_all digest_text (scc_shareDigests c)
     \<and> sa_quorumThreshold (scc_assignment c) \<le> int (length (au_signerPeerIds (scc_aggregateSignature c)))
     \<and> set (au_signerPeerIds (scc_aggregateSignature c)) \<subseteq> sv_peerId ` set (sa_validators (scc_assignment c))
     \<and> aggregate_ok P S (scc_aggregateSignature c) (certificate_signers c)
     \<and> (\<exists>message. certificate_message P c = Inr message
         \<and> ss_verifyAggregate S message (certificate_signers c) (scc_aggregateSignature c) = Inr True)
     \<and> sparse_certificate_digest P c = Inr (scc_certificateDigest c)
     \<and> scc_certificateId c = ''committee-certificate:'' @ digest_slice (scc_certificateDigest c)"

lemma validators_by_id_dom: "validators_by_id vs i = None \<longleftrightarrow> i \<notin> sv_peerId ` set vs"
  by (force simp: validators_by_id_def map_of_eq_None_iff)

lemma validators_by_id_Some:
  "validators_by_id vs i = Some v \<Longrightarrow> v \<in> set vs \<and> sv_peerId v = i"
  by (auto simp: validators_by_id_def dest!: map_of_SomeD)

lemma validators_by_id_distinct:
  "distinct (map sv_peerId vs) \<Longrightarrow> v \<in> set vs \<Longrightarrow> validators_by_id vs (sv_peerId v) = Some v"
  by (auto simp: validators_by_id_def rev_map[symmetric] o_def intro!: map_of_is_SomeI)

lemma sorted_digests:
  "card (set (sort ds)) = length (sort ds) \<and> sort ds = ds \<longleftrightarrow> sorted_wrt (<) (ds :: string list)"
  by (metis card_distinct distinct_card sorted_sort sorted_sort_id strict_sorted_iff)

lemma validateSparseCommitteeCertificateV2_iff:
  "validateSparseCommitteeCertificateV2 P S m p c = Inr True \<longleftrightarrow> certificate_ok P S m p c"
proof -
  let ?ds = "scc_shareDigests c" and ?ids = "au_signerPeerIds (scc_aggregateSignature c)"
  let ?vs = "sa_validators (scc_assignment c)"
  have zip: "list_ex (\<lambda>(x, y). x \<noteq> y) (zip (sort ?ds) ?ds) \<longleftrightarrow> sort ?ds \<noteq> ?ds" by (rule list_ex_zip_neq) simp
  have "list_ex (\<lambda>v. v = None) (map f xs) \<longleftrightarrow> (\<exists>x \<in> set xs. f x = None)" for f :: "string \<rightharpoonup> sparse_validator" and xs
    by (induction xs) auto
  then have found: "list_ex (\<lambda>v. v = None) (map (validators_by_id ?vs) ?ids) \<longleftrightarrow> \<not> set ?ids \<subseteq> sv_peerId ` set ?vs"
    using validators_by_id_dom[of ?vs] by (auto simp: subset_iff)
  have those: "map the (map (validators_by_id ?vs) ?ids) = certificate_signers c"
    by (simp add: certificate_signers_def)
  have message: "sparseShareMessageDigestV2 P (sa_assignmentDigest (scc_assignment c)) (scc_coordinateDigest c)
      (scc_proposalDigest c) (scc_valueDigest c) (scc_phase c) = certificate_message P c"
    by (simp add: certificate_message_def)
  have fields: "seqE [quorumDigest (scc_coordinateDigest c) ''coordinateDigest'',
      quorumDigest (scc_proposalDigest c) ''proposalDigest'', quorumDigest (scc_valueDigest c) ''valueDigest'',
      quorumDigest (scc_certificateDigest c) ''certificateDigest'',
      sparse_integer (scc_certifiedAtLogicalMs c) ''certifiedAtLogicalMs'' 0 maximumSafeInteger] = Inr ()
    \<longleftrightarrow> digest_text (scc_coordinateDigest c) \<and> digest_text (scc_proposalDigest c)
     \<and> digest_text (scc_valueDigest c) \<and> digest_text (scc_certificateDigest c)
     \<and> isSafeInteger (scc_certifiedAtLogicalMs c) \<and> 0 \<le> scc_certifiedAtLogicalMs c"
    by (auto simp: seqE_Inr_iff isSafeInteger_def)
  have shares: "\<not> (int (length (sort ?ds)) < q \<or> card (set (sort ?ds)) \<noteq> length (sort ?ds) \<or> sort ?ds \<noteq> ?ds)
    \<longleftrightarrow> q \<le> int (length ?ds) \<and> sorted_wrt (<) ?ds" for q
    using sorted_digests[of ?ds] by auto
  have digests: "seqE (map (\<lambda>d. quorumDigest d ''shareDigest'') (sort ?ds)) = Inr () \<longleftrightarrow> list_all digest_text ?ds"
    by (simp add: seqE_map_Inr)
  have identity: "(\<exists>v. sparse_certificate_digest P c = Inr v
        \<and> Inr (v = scc_certificateDigest c \<and> scc_certificateId c = ''committee-certificate:'' @ digest_slice v) = (Inr True :: bool res))
    \<longleftrightarrow> sparse_certificate_digest P c = Inr (scc_certificateDigest c)
      \<and> scc_certificateId c = ''committee-certificate:'' @ digest_slice (scc_certificateDigest c)" by auto
  have phase: "\<not> (scc_phase c \<notin> set [''prepare'', ''commit'', ''reconcile'']
        \<or> (sa_purpose (scc_assignment c) = ''reconciliation'') \<noteq> (scc_phase c = ''reconcile''))
    \<longleftrightarrow> scc_phase c \<in> {''prepare'', ''commit'', ''reconcile''}
      \<and> (sa_purpose (scc_assignment c) = ''reconciliation'' \<longleftrightarrow> scc_phase c = ''reconcile'')"
    by (simp only: list.set de_Morgan_disj not_not)
  show ?thesis
    unfolding validateSparseCommitteeCertificateV2_def Let_def certificate_ok_def
    by (simp only: returns zip found those message fields shares digests phase identity not_less not_not
        validateAggregateSignatureV2_iff)
      (rule iffI, (elim conjE exE, intro conjI exI, assumption+),
        (elim conjE exE, frule aggregate_signers, elim conjE, intro conjI exI, assumption+))
qed

lemma validate_selected_ok: "validateSelectedSparseCommitteeV2 P a m p = Inr b \<Longrightarrow> assignment_ok P a"
  by (auto simp: validateSelectedSparseCommitteeV2_def bindE_Inr_iff validate_assignment_digest_iff)

lemma certificate_okD:
  assumes "certificate_ok P S m p c"
  shows "assignment_ok P (scc_assignment c)" "aggregate_ok P S (scc_aggregateSignature c) (certificate_signers c)"
    "sa_quorumThreshold (scc_assignment c) \<le> int (length (au_signerPeerIds (scc_aggregateSignature c)))"
    "set (au_signerPeerIds (scc_aggregateSignature c)) \<subseteq> sv_peerId ` set (sa_validators (scc_assignment c))"
    "\<exists>message. certificate_message P c = Inr message
       \<and> ss_verifyAggregate S message (certificate_signers c) (scc_aggregateSignature c) = Inr True"
  using assms validate_selected_ok unfolding certificate_ok_def by blast+

subsection \<open>The loop over the shares\<close>

definition share_ok :: "'k platform \<Rightarrow> sparse_signatures \<Rightarrow> sparse_assignment \<Rightarrow> sparse_share \<Rightarrow> sparse_share \<Rightarrow> bool" where
  "share_ok P S a first s \<longleftrightarrow> validateShare s = Inr ()
     \<and> collectiveQuorumDigestV1 P (sparse_share_body s) = Inr (sh_shareDigest s)
     \<and> sh_committeeAssignmentDigest s = sa_assignmentDigest a \<and> sh_coordinateDigest s = sh_coordinateDigest first
     \<and> sh_proposalDigest s = sh_proposalDigest first \<and> sh_valueDigest s = sh_valueDigest first
     \<and> sh_phase s = sh_phase first
     \<and> (\<exists>v message. validators_by_id (sa_validators a) (sh_signerPeerId s) = Some v
         \<and> sv_instanceId v = sh_signerInstanceId s \<and> sv_keyId v = sh_signerKeyId s
         \<and> share_message P s = Inr message \<and> ss_verifyShare S v message (sh_signature s) = Inr True)"

lemma collect_shares_iff:
  "collect_shares P S a first seen verified shares = Inr (Some r) \<longleftrightarrow>
     list_all (share_ok P S a first) shares \<and> distinct (map sh_signerPeerId shares)
     \<and> set seen \<inter> sh_signerPeerId ` set shares = {}
     \<and> r = (seen @ map sh_signerPeerId shares, verified @ shares)"
proof (induction shares arbitrary: seen verified)
  case (Cons s shares)
  have "collect_shares P S a first seen verified (s # shares) = Inr (Some r) \<longleftrightarrow>
      share_ok P S a first s \<and> sh_signerPeerId s \<notin> set seen
      \<and> collect_shares P S a first (seen @ [sh_signerPeerId s]) (verified @ [s]) shares = Inr (Some r)"
    by (auto simp: share_ok_def bindE_Inr_iff split: option.splits if_splits)
  with Cons.IH show ?case by auto
qed auto

lemma bindE_collected [returns]:
  "bindE (collect_shares P S a first [] [] shares) (\<lambda>y. case y of
     None \<Rightarrow> Inr None | Some z \<Rightarrow> (case z of (seen, verified) \<Rightarrow> f seen verified)) = Inr (Some x)
   \<longleftrightarrow> list_all (share_ok P S a first) shares \<and> distinct (map sh_signerPeerId shares)
     \<and> f (map sh_signerPeerId shares) shares = Inr (Some x)"
  unfolding bindE_option collect_shares_iff by auto

text \<open>The certificate that is made of verified shares with the aggregate signature \<open>u\<close>.\<close>

definition by_signer :: "'k platform \<Rightarrow> sparse_share \<Rightarrow> sparse_share \<Rightarrow> int" where
  "by_signer P l r = pl_localeCompare P (sh_signerPeerId l) (sh_signerPeerId r)"

definition certificate_body :: "sparse_assignment \<Rightarrow> sparse_share list \<Rightarrow> sparse_aggregate \<Rightarrow> int \<Rightarrow> sparse_certificate" where
  "certificate_body a shares u t = \<lparr>scc_schemaVersion = 2, scc_certificateId = ''pending'', scc_assignment = a,
     scc_coordinateDigest = sh_coordinateDigest (hd shares), scc_proposalDigest = sh_proposalDigest (hd shares),
     scc_valueDigest = sh_valueDigest (hd shares), scc_phase = sh_phase (hd shares),
     scc_aggregateSignature = u, scc_shareDigests = sort (map sh_shareDigest shares),
     scc_certifiedAtLogicalMs = t, scc_certificateDigest = []\<rparr>"

definition share_signers :: "'k platform \<Rightarrow> sparse_assignment \<Rightarrow> sparse_share list \<Rightarrow> sparse_validator list" where
  "share_signers P a shares = map (\<lambda>s. the (validators_by_id (sa_validators a) (sh_signerPeerId s)))
     (js_sort (by_signer P) shares)"

lemma sort_map_sort_insert:
  "sort (map (f :: 'a \<Rightarrow> 'b :: linorder) (sort_insert cmp x xs)) = insort (f x) (sort (map f xs))"
  by (induction xs) (simp_all add: insort_left_comm)

lemma sort_map_js_sort: "sort (map (f :: 'a \<Rightarrow> 'b :: linorder) (js_sort cmp xs)) = sort (map f xs)"
  by (induction xs) (simp_all add: js_sort_simps sort_map_sort_insert)

lemma create_certificate_Inr:
  assumes "createSparseCommitteeCertificateV2 P S a m p shares t = Inr (Some c)"
  obtains message u d where "validateSelectedSparseCommitteeV2 P a m p = Inr True"
    "isSafeInteger t" "0 \<le> t" "sa_quorumThreshold a \<le> int (length shares)"
    "list_all (share_ok P S a (hd shares)) shares" "distinct (map sh_signerPeerId shares)"
    "share_message P (hd shares) = Inr message"
    "ss_aggregate S message (js_sort (by_signer P) shares) = Inr u"
    "aggregate_ok P S u (share_signers P a shares)"
    "ss_verifyAggregate S message (share_signers P a shares) u = Inr True"
    "sparse_certificate_digest P (certificate_body a shares u t) = Inr d"
    "c = (certificate_body a shares u t)\<lparr>scc_certificateId := ''committee-certificate:'' @ digest_slice d, scc_certificateDigest := d\<rparr>"
proof -
  from assms have "\<exists>message u d. validateSelectedSparseCommitteeV2 P a m p = Inr True
    \<and> isSafeInteger t \<and> 0 \<le> t \<and> sa_quorumThreshold a \<le> int (length shares)
    \<and> list_all (share_ok P S a (hd shares)) shares \<and> distinct (map sh_signerPeerId shares)
    \<and> share_message P (hd shares) = Inr message
    \<and> ss_aggregate S message (js_sort (by_signer P) shares) = Inr u
    \<and> aggregate_ok P S u (share_signers P a shares)
    \<and> ss_verifyAggregate S message (share_signers P a shares) u = Inr True
    \<and> sparse_certificate_digest P (certificate_body a shares u t) = Inr d
    \<and> c = (certificate_body a shares u t)\<lparr>scc_certificateId := ''committee-certificate:'' @ digest_slice d, scc_certificateDigest := d\<rparr>"
    unfolding createSparseCommitteeCertificateV2_def Let_def by_signer_def[symmetric]
    by (simp only: returns sort_map_js_sort validateAggregateSignatureV2_iff
        share_signers_def[symmetric] certificate_body_def[symmetric]) (auto simp: not_less)
  with that show thesis by blast
qed

subsection \<open>From creation to validation\<close>

lemma sparse_certificate_digest_body [simp]:
  "sparse_certificate_digest P (c\<lparr>scc_certificateId := i, scc_certificateDigest := d\<rparr>) = sparse_certificate_digest P c"
  by (simp add: sparse_certificate_digest_def sparse_certificate_fields_def)

lemma share_ok_signer:
  assumes "share_ok P S a first s"
  shows "sv_peerId (the (validators_by_id (sa_validators a) (sh_signerPeerId s))) = sh_signerPeerId s"
    "the (validators_by_id (sa_validators a) (sh_signerPeerId s)) \<in> set (sa_validators a)"
  using assms by (auto simp: share_ok_def dest: validators_by_id_Some)

lemma share_signers_sorted:
  assumes "list_all (share_ok P S a first) shares" "collates P"
  shows "map sv_peerId (share_signers P a shares) = map sh_signerPeerId (js_sort (by_signer P) shares)"
    "js_sort (by_peer P) (share_signers P a shares) = share_signers P a shares"
    "sv_peerId ` set (share_signers P a shares) \<subseteq> sv_peerId ` set (sa_validators a)"
proof -
  let ?sorted = "js_sort (by_signer P) shares"
  have ok: "\<forall>s \<in> set ?sorted. share_ok P S a first s" using assms(1) by (simp add: list_all_iff)
  then show peers: "map sv_peerId (share_signers P a shares) = map sh_signerPeerId ?sorted"
    using share_ok_signer(1) by (fastforce simp: share_signers_def)
  show "sv_peerId ` set (share_signers P a shares) \<subseteq> sv_peerId ` set (sa_validators a)"
    using ok share_ok_signer(2) by (fastforce simp: share_signers_def)
  have ids: "is_identifier (sh_signerPeerId s)" if "s \<in> set shares" for s
    using assms(1) that by (auto simp: list_all_iff share_ok_def validateShare_def seqE_Inr_iff)
  have "successively (\<lambda>x y. by_signer P x y \<le> 0) ?sorted"
    by (rule js_sort_adjacent) (use assms(2) ids in \<open>auto simp: collates_def by_signer_def intro: less_imp_le\<close>)
  then have "successively (\<lambda>x y. pl_localeCompare P x y \<le> 0) (map sv_peerId (share_signers P a shares))"
    unfolding peers by (simp add: successively_map by_signer_def)
  then show "js_sort (by_peer P) (share_signers P a shares) = share_signers P a shares"
    by (intro js_sort_fixed) (simp add: successively_map by_peer_def)
qed


subsection \<open>Agreement in a committee\<close>

text \<open>
  What the aggregate signature scheme promises of the validators in \<open>honest\<close>: a verified aggregate
  signature of a message has been signed by each of them that it names. And what an honest
  validator promises: it signs at most one proposal and value for an assignment, coordinate and
  phase.
\<close>

definition unforgeable :: "sparse_signatures \<Rightarrow> sparse_validator set \<Rightarrow> (sparse_validator \<Rightarrow> string \<Rightarrow> bool) \<Rightarrow> bool" where
  "unforgeable S honest has_signed \<longleftrightarrow> (\<forall>message vs u. ss_verifyAggregate S message vs u = Inr True \<longrightarrow>
     (\<forall>v \<in> set vs \<inter> honest. has_signed v message))"

definition signs_once :: "'k platform \<Rightarrow> string \<Rightarrow> string \<Rightarrow> string \<Rightarrow> (sparse_validator \<Rightarrow> string \<Rightarrow> bool) \<Rightarrow>
    sparse_validator \<Rightarrow> bool" where
  "signs_once P assignmentDigest coordinateDigest phase has_signed v \<longleftrightarrow>
     (\<forall>p1 v1 p2 v2 m1 m2. has_signed v m1 \<longrightarrow> has_signed v m2
        \<longrightarrow> sparseShareMessageDigestV2 P assignmentDigest coordinateDigest p1 v1 phase = Inr m1
        \<longrightarrow> sparseShareMessageDigestV2 P assignmentDigest coordinateDigest p2 v2 phase = Inr m2
        \<longrightarrow> p1 = p2 \<and> v1 = v2)"

text \<open>The signers of an accepted certificate are different validators of the committee, a quorum of them.\<close>

lemma sparse_quorum:
  assumes "certificate_ok P S m p c"
  shows "set (certificate_signers c) \<subseteq> set (sa_validators (scc_assignment c))"
    "2 * sa_faultThreshold (scc_assignment c) + 1 \<le> int (card (set (certificate_signers c)))"
    "assignment_ok P (scc_assignment c)"
proof -
  let ?ids = "au_signerPeerIds (scc_aggregateSignature c)" and ?vs = "sa_validators (scc_assignment c)"
  note ok = certificate_okD[OF assms]
  show "assignment_ok P (scc_assignment c)" by (fact ok(1))
  have sub: "set ?ids \<subseteq> sv_peerId ` set ?vs" and sorted: "sorted_wrt (<) ?ids" 
    using ok(4) aggregate_signers[OF ok(2)] by blast+
  have q: "2 * sa_faultThreshold (scc_assignment c) + 1 \<le> int (length ?ids)"
    using ok(1,3) by (simp add: assignment_ok_def)
  have found: "the (validators_by_id ?vs i) \<in> set ?vs \<and> sv_peerId (the (validators_by_id ?vs i)) = i" if "i \<in> set ?ids" for i
  proof -
    have "validators_by_id ?vs i \<noteq> None" using that sub unfolding validators_by_id_dom by blast
    then obtain v where "validators_by_id ?vs i = Some v" by blast
    with validators_by_id_Some[OF this] show ?thesis by simp
  qed
  then show "set (certificate_signers c) \<subseteq> set ?vs" by (auto simp: certificate_signers_def)
  have "map sv_peerId (certificate_signers c) = ?ids"
    using found by (auto simp: certificate_signers_def intro!: map_idI)
  then have "distinct (certificate_signers c)" "length (certificate_signers c) = length ?ids"
    using sorted by (metis distinct_map strict_sorted_iff, metis length_map)
  with q show "2 * sa_faultThreshold (scc_assignment c) + 1 \<le> int (card (set (certificate_signers c)))"
    by (simp add: distinct_card)
qed

text \<open>
  C9. Agreement: two accepted certificates of one committee of \<open>3 f + 1\<close> validators, for one
  coordinate and phase, certify one proposal and one value, when at most \<open>f\<close> of the validators
  are not honest.
\<close>

theorem certificates_agree:
  assumes "validateSparseCommitteeCertificateV2 P S m p c = Inr True"
    and "validateSparseCommitteeCertificateV2 P S m p d = Inr True"
    and "scc_assignment d = scc_assignment c" "scc_coordinateDigest d = scc_coordinateDigest c"
    and "scc_phase d = scc_phase c"
    and "int (length (sa_validators (scc_assignment c))) = 3 * sa_faultThreshold (scc_assignment c) + 1"
    and "int (card (set (sa_validators (scc_assignment c)) - honest)) \<le> sa_faultThreshold (scc_assignment c)"
    and "unforgeable S honest has_signed"
    and "\<forall>v \<in> honest. signs_once P (sa_assignmentDigest (scc_assignment c)) (scc_coordinateDigest c)
      (scc_phase c) has_signed v"
  shows "scc_proposalDigest d = scc_proposalDigest c \<and> scc_valueDigest d = scc_valueDigest c"
proof -
  let ?V = "set (sa_validators (scc_assignment c))" and ?f = "nat (sa_faultThreshold (scc_assignment c))"
  note ok = assms(1,2)[unfolded validateSparseCommitteeCertificateV2_iff]
  note qc = sparse_quorum[OF ok(1)] and qd = sparse_quorum[OF ok(2), unfolded assms(3)]
  obtain mc md where mc: "certificate_message P c = Inr mc"
      "ss_verifyAggregate S mc (certificate_signers c) (scc_aggregateSignature c) = Inr True"
    and md: "certificate_message P d = Inr md"
      "ss_verifyAggregate S md (certificate_signers d) (scc_aggregateSignature d) = Inr True"
    using certificate_okD(5)[OF ok(1)] certificate_okD(5)[OF ok(2)] by blast
  have f: "1 \<le> sa_faultThreshold (scc_assignment c)" and dist: "distinct (map sv_peerId (sa_validators (scc_assignment c)))"
    using qc(3) by (simp_all add: assignment_ok_def)
  have V: "card ?V = 3 * ?f + 1" using distinct_card[of "sa_validators (scc_assignment c)"] dist assms(6) f
    by (auto simp: distinct_map)
  have c: "quorum ?V honest ?f (\<lambda>v. has_signed v mc)"
    unfolding quorum_def
    by (rule exI[of _ "set (certificate_signers c)"]) (use qc f mc(2) assms(8) in \<open>auto simp: unforgeable_def\<close>)
  have d: "quorum ?V honest ?f (\<lambda>v. has_signed v md)"
    unfolding quorum_def
    by (rule exI[of _ "set (certificate_signers d)"]) (use qd f md(2) assms(8) in \<open>auto simp: unforgeable_def\<close>)
  have "card (?V - honest) \<le> ?f" using assms(7) f by simp
  from quorum_meet[OF c d _ V this] obtain v where "v \<in> honest" "has_signed v mc" "has_signed v md" by blast
  with assms(9) mc(1) md(1) show ?thesis
    unfolding signs_once_def certificate_message_def assms(3-5) by metis
qed

subsection \<open>The order of the signers\<close>

lemma signers_in_both_orders:
  assumes "certificate_ok P S m p c" "collates P"
  shows "successively (\<lambda>x y. x < y \<and> pl_localeCompare P x y \<le> 0) (au_signerPeerIds (scc_aggregateSignature c))"
proof -
  note ok = certificate_okD[OF assms(1)]
  have ids: "is_identifier (sv_peerId v)" if "v \<in> set (certificate_signers c)" for v
    using sparse_quorum(1)[OF assms(1)] ok(1) that by (auto simp: assignment_ok_def sparse_validator_ok_def list_all_iff)
  have "successively (\<lambda>x y. by_peer P x y \<le> 0) (js_sort (by_peer P) (certificate_signers c))"
    by (rule js_sort_adjacent) (use assms(2) ids in \<open>auto simp: collates_def by_peer_def intro: less_imp_le\<close>)
  then have "successively (\<lambda>x y. pl_localeCompare P x y \<le> 0) (au_signerPeerIds (scc_aggregateSignature c))"
    using ok(2) by (simp add: aggregate_ok_def successively_map by_peer_def)
  moreover have "successively (<) (au_signerPeerIds (scc_aggregateSignature c))"
    using aggregate_signers[OF ok(2)] by (simp add: successively_if_sorted_wrt)
  moreover have "successively Q xs \<Longrightarrow> successively R xs \<Longrightarrow> successively (\<lambda>x y. R x y \<and> Q x y) xs" for Q R and xs :: "string list"
    by (induction xs rule: induct_list012) auto
  ultimately show ?thesis by blast
qed


end
