(* ===== verification/AgSparseFinalityFacts.thy ===== *)
theory AgSparseFinalityFacts
  imports AgSparseRounds
begin

text \<open>
  Finality certificates: what the creation of one has checked, and what the finality boundary of
  the collective host verifies of one.
\<close>

definition by_shard :: "'k platform \<Rightarrow> sparse_certificate \<Rightarrow> sparse_certificate \<Rightarrow> int" where
  "by_shard P l r = pl_localeCompare P (sa_shardId (scc_assignment l)) (sa_shardId (scc_assignment r))"

definition finality_body :: "sparse_certificate \<Rightarrow> string list \<Rightarrow> sparse_certificate list \<Rightarrow> string \<Rightarrow>
    sparse_certificate \<Rightarrow> int \<Rightarrow> sparse_finality" where
  "finality_body first required shards root reconciliation t = \<lparr>sf_schemaVersion = 2, sf_certificateId = ''pending'',
     sf_coordinateDigest = scc_coordinateDigest first, sf_proposalDigest = scc_proposalDigest first,
     sf_valueDigest = scc_valueDigest first, sf_epoch = sa_epoch (scc_assignment first),
     sf_membershipConfigurationDigest = sa_membershipConfigurationDigest (scc_assignment first),
     sf_policyDigest = sa_policyDigest (scc_assignment first), sf_requiredShardIds = required,
     sf_shardCertificateDigests = sort (map scc_certificateDigest shards), sf_shardCertificateRootDigest = root,
     sf_reconciliationCertificate = reconciliation, sf_finalizedAtLogicalMs = t, sf_certificateDigest = []\<rparr>"

text \<open>The certificates of the required shards, in their order, and of the reconciliation committee.\<close>

definition shards_ok :: "string list \<Rightarrow> sparse_certificate list \<Rightarrow> bool" where
  "shards_ok required shards \<longleftrightarrow> map (sa_shardId \<circ> scc_assignment) shards = required
     \<and> (\<forall>c \<in> set shards. sa_purpose (scc_assignment c) = ''shard'' \<and> scc_phase c = ''commit''
          \<and> scc_coordinateDigest c = scc_coordinateDigest (hd shards)
          \<and> scc_proposalDigest c = scc_proposalDigest (hd shards) \<and> scc_valueDigest c = scc_valueDigest (hd shards)
          \<and> same_configuration c (hd shards))"

definition reconciliation_ok :: "sparse_certificate \<Rightarrow> sparse_certificate \<Rightarrow> string \<Rightarrow> bool" where
  "reconciliation_ok c first root \<longleftrightarrow> sa_purpose (scc_assignment c) = ''reconciliation'' \<and> scc_phase c = ''reconcile''
     \<and> scc_coordinateDigest c = scc_coordinateDigest first \<and> scc_proposalDigest c = scc_proposalDigest first
     \<and> scc_valueDigest c = root \<and> same_configuration c first"

lemma everyE_Inr_True: "everyE f xs = Inr True \<longleftrightarrow> (\<forall>x \<in> set xs. f x = Inr True)"
  by (induction xs) (auto simp: bindE_Inr_iff split: if_splits)

lemma shards_named:
  "length shards = length required \<Longrightarrow>
   \<not> list_ex (\<lambda>(c, shardId). sa_purpose (scc_assignment c) \<noteq> ''shard'' \<or> sa_shardId (scc_assignment c) \<noteq> shardId
       \<or> scc_phase c \<noteq> ''commit'') (zip shards required)
   \<longleftrightarrow> map (sa_shardId \<circ> scc_assignment) shards = required
     \<and> (\<forall>c \<in> set shards. sa_purpose (scc_assignment c) = ''shard'' \<and> scc_phase c = ''commit'')"
  by (induction shards required rule: list_induct2) auto

lemma shards_ok_checks:
  "shards_ok required shards \<longleftrightarrow>
     \<not> (length shards \<noteq> length required
        \<or> list_ex (\<lambda>(c, shardId). sa_purpose (scc_assignment c) \<noteq> ''shard'' \<or> sa_shardId (scc_assignment c) \<noteq> shardId
            \<or> scc_phase c \<noteq> ''commit'') (zip shards required))
     \<and> \<not> list_ex (\<lambda>c. scc_coordinateDigest c \<noteq> scc_coordinateDigest (hd shards)
        \<or> scc_proposalDigest c \<noteq> scc_proposalDigest (hd shards) \<or> scc_valueDigest c \<noteq> scc_valueDigest (hd shards)
        \<or> \<not> same_configuration c (hd shards)) shards"
proof (cases "length shards = length required")
  case True
  with shards_named[OF True] show ?thesis unfolding shards_ok_def by (simp add: list_ex_iff) blast
next
  case False
  then have "map (sa_shardId \<circ> scc_assignment) shards \<noteq> required" by auto
  with False show ?thesis by (simp add: shards_ok_def)
qed

lemma create_finality_Inr:
  assumes "createSparseFinalityCertificateV2 P S required certificates reconciliation m p t = Inr (Some f)"
  obtains shards root d where "shards = js_sort (by_shard P) certificates"
    "length required \<le> 100000" "list_all is_identifier required" "sorted_wrt (<) required" "required \<noteq> []"
    "int (length required) \<le> sp_maximumCommittees p"
    "\<forall>c \<in> set (shards @ [reconciliation]). validateSparseCommitteeCertificateV2 P S m p c = Inr True"
    "shards_ok required shards" "shard_root_digest P (hd shards) required (sort (map scc_certificateDigest shards)) = Inr root"
    "reconciliation_ok reconciliation (hd shards) root"
    "isSafeInteger t" "scc_certifiedAtLogicalMs reconciliation \<le> t"
    "sparse_finality_digest P (finality_body (hd shards) required shards root reconciliation t) = Inr d"
    "f = (finality_body (hd shards) required shards root reconciliation t)
       \<lparr>sf_certificateId := ''sparse-finality:'' @ digest_slice d, sf_certificateDigest := d\<rparr>"
proof -
  let ?shards = "js_sort (by_shard P) certificates"
  have r: "reconciliation_ok reconciliation (hd ?shards) root \<longleftrightarrow>
     \<not> (sa_purpose (scc_assignment reconciliation) \<noteq> ''reconciliation'' \<or> scc_phase reconciliation \<noteq> ''reconcile''
       \<or> scc_coordinateDigest reconciliation \<noteq> scc_coordinateDigest (hd ?shards)
       \<or> scc_proposalDigest reconciliation \<noteq> scc_proposalDigest (hd ?shards)
       \<or> scc_valueDigest reconciliation \<noteq> root \<or> \<not> same_configuration reconciliation (hd ?shards))" for root
    unfolding reconciliation_ok_def by blast
  from assms have "\<exists>root d. length required \<le> 100000 \<and> list_all is_identifier required \<and> sorted_wrt (<) required
    \<and> \<not> (length required = 0 \<or> int (length required) > sp_maximumCommittees p)
    \<and> (\<forall>c \<in> set (?shards @ [reconciliation]). validateSparseCommitteeCertificateV2 P S m p c = Inr True)
    \<and> shards_ok required ?shards
    \<and> shard_root_digest P (hd ?shards) required (sort (map scc_certificateDigest ?shards)) = Inr root
    \<and> reconciliation_ok reconciliation (hd ?shards) root
    \<and> isSafeInteger t \<and> scc_certifiedAtLogicalMs reconciliation \<le> t
    \<and> sparse_finality_digest P (finality_body (hd ?shards) required ?shards root reconciliation t) = Inr d
    \<and> f = (finality_body (hd ?shards) required ?shards root reconciliation t)
        \<lparr>sf_certificateId := ''sparse-finality:'' @ digest_slice d, sf_certificateDigest := d\<rparr>"
    unfolding createSparseFinalityCertificateV2_def Let_def by_shard_def[symmetric]
    by (simp only: returns finality_body_def[symmetric] everyE_Inr_True shards_ok_checks r field_checks sum.inject option.inject)
      blast
  with that[OF refl] show thesis by (auto simp: not_less)
qed


subsection \<open>The identity of a finality certificate\<close>

lemma created_finality_fields:
  assumes "createSparseFinalityCertificateV2 P S required certificates reconciliation m p t = Inr (Some f)"
  shows "sf_schemaVersion f = 2" "sf_requiredShardIds f = required" "sf_reconciliationCertificate f = reconciliation"
    "sf_finalizedAtLogicalMs f = t"
  by (rule create_finality_Inr[OF assms], simp add: finality_body_def)+

text \<open>The fields that the validation of a finality certificate reads.\<close>

lemma validate_finality_reads:
  assumes "sf_schemaVersion g = sf_schemaVersion f" "sf_requiredShardIds g = sf_requiredShardIds f"
    and "sf_reconciliationCertificate g = sf_reconciliationCertificate f"
    and "sf_finalizedAtLogicalMs g = sf_finalizedAtLogicalMs f" "sf_certificateDigest g = sf_certificateDigest f"
  shows "validateSparseFinalityCertificateV2 P S certificates m p g = validateSparseFinalityCertificateV2 P S certificates m p f"
  unfolding validateSparseFinalityCertificateV2_def assms by (rule refl)

subsection \<open>The finality boundary\<close>

lemma evict_oldest_snoc: "0 < n \<Longrightarrow> \<exists>ys. evict_oldest n (xs @ [x]) = ys @ [x] \<and> set ys \<subseteq> set xs"
proof (induction xs)
  case (Cons y xs)
  then show ?case by (cases "Suc (length (xs @ [x])) > n") auto
qed simp

lemma cached_shards:
  assumes "0 < fr_maximumCachedCertificates R"
  shows "map_of (cacheVerifiedShards R d shards cache) d = Some shards"
proof -
  obtain ys where ys: "cacheVerifiedShards R d shards cache = ys @ [(d, shards)]"
    "set ys \<subseteq> set (filter (\<lambda>(e, _). e \<noteq> d) cache)"
    using evict_oldest_snoc[OF assms] unfolding cacheVerifiedShards_def by blast
  then have "d \<notin> fst ` set ys" by auto
  then have "map_of ys d = None" by (simp add: map_of_eq_None_iff)
  then show ?thesis by (simp add: ys(1) map_add_def)
qed

lemma finality_verify_Inr:
  assumes "finality_verify P R f proposal value t cache = (Inr True, cache')"
  obtains shards where "verifyEnvelope P R f shards proposal value t = Inr True"
    "cache' = cacheVerifiedShards R (sf_certificateDigest f) shards cache"
  using assms by (auto simp: finality_verify_def bindS_def split: option.splits sum.splits prod.splits if_splits)

lemma verifyEnvelope_Inr:
  "verifyEnvelope P R f shards proposal value t = Inr True \<longleftrightarrow> isSafeInteger t \<and> 0 \<le> t
     \<and> sf_proposalDigest f = proposal \<and> sf_valueDigest f = value \<and> sf_epoch f = sm_epoch (fr_membership R)
     \<and> sf_membershipConfigurationDigest f = sm_configurationDigest (fr_membership R)
     \<and> sf_policyDigest f = sp_policyDigest (fr_policy R) \<and> sf_finalizedAtLogicalMs f \<le> t
     \<and> validateSparseFinalityCertificateV2 P (fr_signatures R) shards (fr_membership R) (fr_policy R) f = Inr True"
  by (auto simp: verifyEnvelope_def bindE_Inr_iff isSafeInteger_def split: sum.splits if_splits)

text \<open>
  C32. The finality boundary accepts forged decisions: once a certificate has been verified, the same
  certificate with any other proposal and value written into it is verified for that proposal and
  value, because its digest is compared with the certificate that is built again and not with its
  own fields.
\<close>

theorem forged_decision_verified:
  assumes "verifyExecution P R f decision proposal t cache = (Inr True, cache')"
    and "0 < fr_maximumCachedCertificates R"
  shows "fst (verifyExecution P R (f\<lparr>sf_proposalDigest := decision', sf_valueDigest := proposal'\<rparr>)
    decision' proposal' t cache') = Inr True"
proof -
  let ?g = "f\<lparr>sf_proposalDigest := decision', sf_valueDigest := proposal'\<rparr>"
  from assms(1) obtain shards where v: "verifyEnvelope P R f shards decision proposal t = Inr True"
    and cache: "cache' = cacheVerifiedShards R (sf_certificateDigest f) shards cache"
    unfolding verifyExecution_def by (rule finality_verify_Inr)
  have "verifyEnvelope P R ?g shards decision' proposal' t = Inr True"
    using v validate_finality_reads[where P = P and g = ?g and f = f] by (simp add: verifyEnvelope_Inr)
  then show ?thesis
    using cached_shards[OF assms(2), of "sf_certificateDigest f" shards cache]
    by (simp add: verifyExecution_def finality_verify_def cache bindS_def)
qed

text \<open>
  What the boundary does establish: the certificate has the digest of a finality certificate
  that its shard certificates make, under the runtime's own membership, policy and port.
\<close>

theorem verified_finality_rebuilt:
  assumes "finality_verify P R f proposal value t cache = (Inr True, cache')"
  shows "\<exists>shards g. createSparseFinalityCertificateV2 P (fr_signatures R) (sf_requiredShardIds f) shards
      (sf_reconciliationCertificate f) (fr_membership R) (fr_policy R) (sf_finalizedAtLogicalMs f) = Inr (Some g)
    \<and> sf_certificateDigest g = sf_certificateDigest f \<and> sf_proposalDigest f = proposal \<and> sf_valueDigest f = value
    \<and> sf_finalizedAtLogicalMs f \<le> t"
proof -
  from assms obtain shards where "verifyEnvelope P R f shards proposal value t = Inr True"
    by (rule finality_verify_Inr)
  then show ?thesis
    by (auto simp: verifyEnvelope_Inr validateSparseFinalityCertificateV2_def bindE_Inr_iff split: if_splits option.splits)
qed

text \<open>The cache stays within its bound, whatever is verified or certified.\<close>

lemma evict_oldest_bounded: "length (evict_oldest n xs) \<le> n"
  by (induction xs) auto

theorem finality_cache_bounded:
  assumes "length cache \<le> fr_maximumCachedCertificates R"
  shows "length (snd (finality_verify P R f proposal value t cache)) \<le> fr_maximumCachedCertificates R"
    "length (snd (finality_certify P R q cache)) \<le> fr_maximumCachedCertificates R"
    "length (snd (finality_reconcile P R q cache)) \<le> fr_maximumCachedCertificates R"
proof -
  have cached: "length (cacheVerifiedShards R d shards c) \<le> fr_maximumCachedCertificates R" for d shards c
    unfolding cacheVerifiedShards_def by (rule evict_oldest_bounded)
  show "length (snd (finality_verify P R f proposal value t cache)) \<le> fr_maximumCachedCertificates R"
    using assms cached by (simp add: finality_verify_def bindS_def split: option.splits sum.splits)
  have "length (snd (accept_delivery P R q x cache)) \<le> fr_maximumCachedCertificates R" for x
    using assms cached by (simp add: accept_delivery_def bindS_def split: prod.splits sum.splits)
  then show "length (snd (finality_certify P R q cache)) \<le> fr_maximumCachedCertificates R"
    "length (snd (finality_reconcile P R q cache)) \<le> fr_maximumCachedCertificates R"
    using assms by (simp_all add: finality_certify_def finality_reconcile_def bindS_def split: option.splits sum.splits)
qed

subsection \<open>Joint reconfiguration\<close>

lemma joint_Inr:
  "createSparseJointReconfigurationCertificateV2 P prior nxt = Inr j \<Longrightarrow>
     validate_side P prior = Inr True \<and> validate_side P nxt = Inr True
     \<and> sm_epoch (si_membership nxt) = sm_epoch (si_membership prior) + 1
     \<and> sf_valueDigest (si_finalityCertificate prior) = sf_valueDigest (si_finalityCertificate nxt)
     \<and> sj_priorFinalityCertificate j = si_finalityCertificate prior
     \<and> sj_nextFinalityCertificate j = si_finalityCertificate nxt"
  by (auto simp: createSparseJointReconfigurationCertificateV2_def bindE_Inr_iff everyE_Inr_True Let_def
      simp del: everyE.simps split: if_splits)

text \<open>
  The same gap in a joint reconfiguration: the finality certificates of two consecutive memberships
  are joined whatever they have finalized, when the coordinate, proposal and value of the one are
  written into the other.
\<close>

theorem joint_certificate_of_any_values:
  assumes "validateMembership (si_membership prior) = Inr ()" "validateMembership (si_membership nxt) = Inr ()"
    and "validate_side P prior = Inr True" "validate_side P nxt = Inr True"
    and "sm_epoch (si_membership nxt) = sm_epoch (si_membership prior) + 1"
    and "sf_membershipConfigurationDigest (si_finalityCertificate prior) = sm_configurationDigest (si_membership prior)"
    and "sf_membershipConfigurationDigest (si_finalityCertificate nxt) = sm_configurationDigest (si_membership nxt)"
  defines "f \<equiv> si_finalityCertificate prior"
  defines "g \<equiv> (si_finalityCertificate nxt)\<lparr>sf_coordinateDigest := sf_coordinateDigest f,
      sf_proposalDigest := sf_proposalDigest f, sf_valueDigest := sf_valueDigest f\<rparr>"
  assumes "collectiveQuorumDigestV1 P (sparse_joint_body \<lparr>sj_schemaVersion = 2,
      sj_priorMembershipConfigurationDigest = sm_configurationDigest (si_membership prior),
      sj_nextMembershipConfigurationDigest = sm_configurationDigest (si_membership nxt),
      sj_priorFinalityCertificate = f, sj_nextFinalityCertificate = g, sj_certificateDigest = []\<rparr>) = Inr d"
  shows "\<exists>j. createSparseJointReconfigurationCertificateV2 P prior (nxt\<lparr>si_finalityCertificate := g\<rparr>) = Inr j"
proof -
  have "validate_side P (nxt\<lparr>si_finalityCertificate := g\<rparr>) = Inr True"
    using assms(4) validate_finality_reads[where P = P and g = g and f = "si_finalityCertificate nxt"]
    by (simp add: validate_side_def g_def)
  then have "everyE (validate_side P) [prior, nxt\<lparr>si_finalityCertificate := g\<rparr>] = Inr True"
    unfolding everyE_Inr_True using assms(3) by simp
  moreover have "sf_membershipConfigurationDigest g = sf_membershipConfigurationDigest (si_finalityCertificate nxt)"
    "sf_coordinateDigest g = sf_coordinateDigest f" "sf_proposalDigest g = sf_proposalDigest f" "sf_valueDigest g = sf_valueDigest f"
    by (simp_all add: g_def)
  ultimately show ?thesis
    unfolding createSparseJointReconfigurationCertificateV2_def Let_def
    using assms(1,2,5,6,7,10) by (simp add: f_def)
qed

end
