(* ===== verification/AgSparseSamples.thy ===== *)
theory AgSparseSamples
  imports AgSparseFinalityFacts AgSamples
begin

text \<open>
  Concrete memberships, policies, committees, certificates and a finality certificate, to which the
  properties of sparse agreement are applied. A committee is a whole membership here, of four or of
  six validators, with one fault.
\<close>

subsection \<open>Platforms\<close>

text \<open>
  Besides \<open>sample_platform\<close>, a platform that keeps the messages of shares apart: what it returns
  for a text whose twelfth byte is an \<open>A\<close> is the text itself. Of the values that are hashed here
  only the messages (and the bodies of shares) have such a text, since they begin with the key
  \<open>committeeAssignmentDigest\<close>.
\<close>

definition tagged :: "json \<Rightarrow> bool" where
  "tagged v \<longleftrightarrow> encode_utf8 (render (json_norm v)) ! 11 = 65"

definition tagging_platform :: "int platform" where
  "tagging_platform = sample_platform\<lparr>pl_digest := (\<lambda>bytes.
     if bytes ! 11 = 65 then Some bytes else Some (hex_bytes (sha256Hex bytes)))\<rparr>"

text \<open>A platform hashes the values that are not tagged with SHA-256, and orders by code unit.\<close>

definition hashing :: "int platform \<Rightarrow> bool" where
  "hashing P \<longleftrightarrow> (\<forall>v. mesh_ok v \<longrightarrow> \<not> tagged v \<longrightarrow> collectiveQuorumDigestV1 P v = Inr (sample_hash v))
     \<and> pl_localeCompare P = pl_localeCompare sample_platform"

lemma encode_ascii [simp]: "(of_char c :: int) < 128 \<Longrightarrow> encode_utf8 (c # s) = of_char c # encode_utf8 s"
  by (simp add: encode_utf8_def Let_def)

lemma quorum_digest_sample:
  assumes "mesh_ok v"
  shows "collectiveQuorumDigestV1 sample_platform v = Inr (sample_hash v)"
    "\<not> tagged v \<Longrightarrow> collectiveQuorumDigestV1 tagging_platform v = Inr (sample_hash v)"
    "tagged v \<Longrightarrow> collectiveQuorumDigestV1 tagging_platform v = Inr (''sha256:'' @ toHex (encode_utf8 (render (json_norm v))))"
proof -
  have hex: "toHex (hex_bytes (sha256Hex bytes)) = sha256Hex bytes" for bytes
    using sha256Hex_format[of bytes] by (intro toHex_bytes) simp_all
  show "collectiveQuorumDigestV1 sample_platform v = Inr (sample_hash v)"
    "\<not> tagged v \<Longrightarrow> collectiveQuorumDigestV1 tagging_platform v = Inr (sample_hash v)"
    "tagged v \<Longrightarrow> collectiveQuorumDigestV1 tagging_platform v = Inr (''sha256:'' @ toHex (encode_utf8 (render (json_norm v))))"
    using assms by (auto simp: collectiveQuorumDigestV1_iff sample_platform_def tagging_platform_def sample_hash_def hex tagged_def)
qed

lemma hashing_platforms: "hashing sample_platform" "hashing tagging_platform"
  using quorum_digest_sample by (simp_all add: hashing_def tagging_platform_def)

lemma sample_collates: "hashing P \<Longrightarrow> collates P"
  by (simp add: hashing_def collates_def sample_platform_def)

lemma sample_sha256: "sha256_digests sample_platform"
proof -
  have even: "length (hex_bytes s) = length s div 2" for s by (induction s rule: hex_bytes.induct) simp_all
  have "\<forall>b \<in> set (hex_bytes s). 0 \<le> b \<and> b < 256" if "\<forall>c \<in> set s. lower_hex c" for s
    using that
  proof (induction s rule: hex_bytes.induct)
    case (1 a b rest)
    then have "0 \<le> hex_value a" "hex_value a < 16" "0 \<le> hex_value b" "hex_value b < 16" using hex_value_ok by auto
    then show ?case using 1 by simp
  qed simp_all
  from this[OF sha256Hex_format(2)] show ?thesis
    using sha256Hex_format(1) by (simp add: sha256_digests_def sample_platform_def even)
qed

subsection \<open>Memberships and policies\<close>

definition fixed_digest :: "char \<Rightarrow> string" where
  "fixed_digest c = ''sha256:'' @ replicate 64 c"

lemma fixed_digest_ok [simp]:
  "lower_hex c \<Longrightarrow> digest_text (fixed_digest c)" "lower_hex c \<Longrightarrow> plain_text (fixed_digest c)"
  "length (fixed_digest c) = 71"
  by (simp_all add: fixed_digest_def digest_text_def list_all_iff plain_text_def lower_hex_plain)
    (simp add: plain_char_def)

lemma hex_chars [simp]: "lower_hex (CHR ''0'')" "lower_hex (CHR ''1'')" "lower_hex (CHR ''2'')" "lower_hex (CHR ''3'')"
  by code_simp+

definition sparse_peer :: "string \<Rightarrow> sparse_validator" where
  "sparse_peer i = \<lparr>sv_peerId = i, sv_instanceId = ''n'', sv_keyId = ''k'', sv_eligibilityDigest = fixed_digest (CHR ''0''),
     sv_independenceGroupId = ''g''\<rparr>"

definition four :: "string list" where
  "four = [''a'', ''b'', ''c'', ''d'']"

definition six :: "string list" where
  "six = [''a'', ''b'', ''c'', ''d'', ''e'', ''f'']"

definition sparse_members :: "string list \<Rightarrow> sparse_membership" where
  "sparse_members ids = \<lparr>sm_schemaVersion = 2, sm_epoch = 1, sm_configurationDigest = fixed_digest (CHR ''0''),
     sm_selectionSeedDigest = fixed_digest (CHR ''0''), sm_validators = map sparse_peer ids\<rparr>"

definition sparse_policy_for :: "string list \<Rightarrow> sparse_policy_input" where
  "sparse_policy_for ids = \<lparr>sp_policyId = ''p'', sp_policyVersion = 1, sp_committeeSize = int (length ids),
     sp_faultThreshold = 1, sp_reconciliationCommitteeSize = int (length ids), sp_reconciliationFaultThreshold = 1,
     sp_maximumCommittees = 1, sp_maximumValidatorsPerIndependenceGroup = int (length ids)\<rparr>"

definition sparse_sample_policy :: "string list \<Rightarrow> sparse_policy" where
  "sparse_sample_policy ids = sparse_policy_input.extend (sparse_policy_for ids) (sparse_policy.fields 2
     (sample_hash (JObj [(''domain'', JStr ''sparse-committee-policy-v2''), (''body'', sparse_policy_body (sparse_policy_for ids))])))"

lemma show_int_sizes [simp]: "show_int 2 = ''2''" "show_int 3 = ''3''" "show_int 4 = ''4''" "show_int 6 = ''6''"
  by code_simp+

lemma ids_length [simp]: "length four = 4" "length six = 6"
  by (simp_all add: four_def six_def)

lemma sample_policy_valid:
  assumes "hashing P" "ids = four \<or> ids = six"
  shows "validatePolicy 2 (sparse_sample_policy ids) None = Inr ()"
    "sparse_policy_digest P (sparse_sample_policy ids) = Inr (sp_policyDigest (sparse_sample_policy ids))"
    "digest_text (sp_policyDigest (sparse_sample_policy ids))"
proof -
  have id: "is_identifier ''p''" by code_simp
  show "validatePolicy 2 (sparse_sample_policy ids) None = Inr ()"
    using assms(2) id by (auto simp: validatePolicy_iff sparse_sample_policy_def sparse_policy_for_def
        sparse_policy_input.defs isSafeInteger_def maximumSafeInteger_def)
  let ?v = "JObj [(''domain'', JStr ''sparse-committee-policy-v2''), (''body'', sparse_policy_body (sparse_policy_for ids))]"
  have "mesh_ok ?v" using assms(2)
    by (intro mesh_ok_plain) (auto simp: sparse_policy_body_def sparse_policy_for_def plain_char_def byteLength_plain)
  moreover have "\<not> tagged ?v"
    by (simp add: tagged_def sparse_policy_body_def stringify_plain_text plain_char_def)
  moreover have "sparse_policy_body (sparse_sample_policy ids) = sparse_policy_body (sparse_policy_for ids)"
    by (simp add: sparse_policy_body_def sparse_sample_policy_def sparse_policy_input.defs)
  ultimately show "sparse_policy_digest P (sparse_sample_policy ids) = Inr (sp_policyDigest (sparse_sample_policy ids))"
    using assms(1) by (simp add: sparse_policy_digest_def hashing_def sparse_sample_policy_def sparse_policy_input.defs
        sparse_policy.defs)
  show "digest_text (sp_policyDigest (sparse_sample_policy ids))"
    by (simp add: sparse_sample_policy_def sparse_policy_input.defs sparse_policy.defs)
qed

subsection \<open>The committee\<close>

lemma sparse_members_valid: "ids = four \<or> ids = six \<Longrightarrow> validateMembership (sparse_members ids) = Inr ()"
proof -
  have i: "\<forall>i \<in> set (six @ [''n'', ''k'', ''g'']). is_identifier i" by code_simp
  have "distinct four" "distinct six" by code_simp+
  moreover have "sv_peerId \<circ> sparse_peer = id" by (simp add: fun_eq_iff sparse_peer_def)
  ultimately have "distinct (map (sv_peerId \<circ> sparse_peer) ids)" if "ids = four \<or> ids = six" using that by auto
  moreover have "set four \<subseteq> set six" by code_simp
  ultimately show "ids = four \<or> ids = six \<Longrightarrow> validateMembership (sparse_members ids) = Inr ()"
    using i by (auto simp: validateMembership_iff sparse_members_def list_all_iff sparse_validator_ok_def
        sparse_peer_def isSafeInteger_def maximumSafeInteger_def)
qed

definition sparse_committee_body :: "string list \<Rightarrow> string \<Rightarrow> sparse_assignment" where
  "sparse_committee_body ids purpose = \<lparr>sa_schemaVersion = 2, sa_committeeId = ''pending'', sa_purpose = purpose,
     sa_shardId = ''s'', sa_epoch = 1, sa_membershipConfigurationDigest = fixed_digest (CHR ''0''),
     sa_policyDigest = sp_policyDigest (sparse_sample_policy ids), sa_validators = map sparse_peer ids,
     sa_faultThreshold = 1, sa_quorumThreshold = 3, sa_assignmentDigest = []\<rparr>"

definition sparse_committee :: "string list \<Rightarrow> string \<Rightarrow> sparse_assignment" where
  "sparse_committee ids purpose = (let d = sample_hash (JObj (sparse_assignment_fields JNull (sparse_committee_body ids purpose)))
     in (sparse_committee_body ids purpose)\<lparr>sa_committeeId := ''committee:'' @ digest_slice d, sa_assignmentDigest := d\<rparr>)"

lemma sample_policy_digest_ok [simp]:
  "plain_text (sp_policyDigest (sparse_sample_policy ids))" "length (sp_policyDigest (sparse_sample_policy ids)) = 71"
  by (simp_all add: sparse_sample_policy_def sparse_policy_input.defs sparse_policy.defs)

lemma sample_policy_fields [simp]:
  "sp_committeeSize (sparse_sample_policy ids) = int (length ids)" "sp_faultThreshold (sparse_sample_policy ids) = 1"
  "sp_reconciliationCommitteeSize (sparse_sample_policy ids) = int (length ids)"
  "sp_reconciliationFaultThreshold (sparse_sample_policy ids) = 1" "sp_maximumCommittees (sparse_sample_policy ids) = 1"
  "sp_maximumValidatorsPerIndependenceGroup (sparse_sample_policy ids) = int (length ids)"
  by (simp_all add: sparse_sample_policy_def sparse_policy_input.defs sparse_policy_for_def)

lemma sparse_peers_json [simp]:
  "plain_text i \<Longrightarrow> plain_json (sparse_validator_json (sparse_peer i))"
  "d < 20 \<Longrightarrow> length i \<le> 10 \<Longrightarrow> plain_text i \<Longrightarrow> mesh_fits DEFAULT_MESH_PROTOCOL_LIMITS d (sparse_validator_json (sparse_peer i))"
  "object_keys (sparse_validator_json (sparse_peer i)) = 5" "array_items (sparse_validator_json (sparse_peer i)) = 0"
  "length i \<le> 10 \<Longrightarrow> text_bound (sparse_validator_json (sparse_peer i)) \<le> 200"
  by (simp_all add: sparse_validator_json_def sparse_peer_def plain_char_def byteLength_plain)

lemma peer_names: "i \<in> set six \<Longrightarrow> plain_text i \<and> length i = 1"
  by (auto simp: six_def plain_char_def)

lemma peers_json:
  assumes "ids = four \<or> ids = six"
  shows "list_all plain_json (map (sparse_validator_json \<circ> sparse_peer) ids)"
    "d < 20 \<Longrightarrow> list_all (mesh_fits DEFAULT_MESH_PROTOCOL_LIMITS d) (map (sparse_validator_json \<circ> sparse_peer) ids)"
    "sum_list (map object_keys (map (sparse_validator_json \<circ> sparse_peer) ids)) = 5 * length ids"
    "sum_list (map array_items (map (sparse_validator_json \<circ> sparse_peer) ids)) = 0"
    "sum_list (map (\<lambda>v. text_bound v + 1) (map (sparse_validator_json \<circ> sparse_peer) ids)) \<le> 1206"
proof -
  have sub: "set ids \<subseteq> set six" "length ids \<le> 6" using assms by (auto simp: four_def six_def)
  have "sum_list (map (\<lambda>v. text_bound v + 1) (map (sparse_validator_json \<circ> sparse_peer) ids)) \<le> sum_list (map (\<lambda>_. 201) ids)"
    unfolding map_map by (rule sum_list_mono) (use sub peer_names in fastforce)
  also have "\<dots> \<le> 1206" using sub(2) by (simp add: sum_list_const_mult sum_list_triv)
  finally show "sum_list (map (\<lambda>v. text_bound v + 1) (map (sparse_validator_json \<circ> sparse_peer) ids)) \<le> 1206" .
  show "list_all plain_json (map (sparse_validator_json \<circ> sparse_peer) ids)"
    "d < 20 \<Longrightarrow> list_all (mesh_fits DEFAULT_MESH_PROTOCOL_LIMITS d) (map (sparse_validator_json \<circ> sparse_peer) ids)"
    using sub peer_names by (fastforce simp: list_all_iff)+
  show "sum_list (map object_keys (map (sparse_validator_json \<circ> sparse_peer) ids)) = 5 * length ids"
    "sum_list (map array_items (map (sparse_validator_json \<circ> sparse_peer) ids)) = 0"
    by (induction ids) simp_all
qed

text \<open>The fields of a sample assignment, with a committee identifier \<open>j\<close> of at most 60 characters.\<close>

lemma assignment_fields_json:
  assumes "ids = four \<or> ids = six" "purpose = ''shard'' \<or> purpose = ''reconciliation''"
    and "plain_json j" "\<And>d. mesh_fits DEFAULT_MESH_PROTOCOL_LIMITS d j" "object_keys j = 0" "array_items j = 0" "text_bound j \<le> 60"
  defines "fs \<equiv> sparse_assignment_fields j (sparse_committee_body ids purpose)"
  shows "list_all (\<lambda>(k, v). plain_text k \<and> plain_json v) fs"
    "d < 18 \<Longrightarrow> list_all (\<lambda>(k, v). byteLength k \<le> 65536 \<and> mesh_fits DEFAULT_MESH_PROTOCOL_LIMITS d v) fs"
    "length fs = 10" "sum_list (map (\<lambda>(k, v). object_keys v) fs) = 5 * length ids"
    "sum_list (map (\<lambda>(k, v). array_items v) fs) = length ids"
    "sum_list (map (\<lambda>(k, v). length k + text_bound v + 4) fs) \<le> 2000"
  using assms(2-7) peers_json[OF assms(1)] assms(1)
  by (auto simp: fs_def sparse_assignment_fields_def sparse_committee_body_def plain_char_def byteLength_plain)

lemma assignment_digest_json:
  assumes "ids = four \<or> ids = six" "purpose = ''shard'' \<or> purpose = ''reconciliation''"
  shows "mesh_ok (JObj (sparse_assignment_fields JNull (sparse_committee_body ids purpose)))"
    "\<not> tagged (JObj (sparse_assignment_fields JNull (sparse_committee_body ids purpose)))"
proof -
  note f = assignment_fields_json[OF assms, of JNull, simplified]
  have n: "length ids \<le> 6" using assms(1) by auto
  show "mesh_ok (JObj (sparse_assignment_fields JNull (sparse_committee_body ids purpose)))"
    by (rule mesh_ok_plain) (use f(1) f(2)[of 1] f(3-6) n in simp_all)
  show "\<not> tagged (JObj (sparse_assignment_fields JNull (sparse_committee_body ids purpose)))"
    by (simp add: tagged_def sparse_assignment_fields_def sparse_committee_body_def stringify_plain_text plain_char_def)
qed

lemma sample_rank:
  assumes "hashing P" "i \<in> set six" "purpose = ''shard'' \<or> purpose = ''reconciliation''"
  shows "\<exists>r. sparse_rank P (sparse_members ids) (sparse_sample_policy ids) purpose ''s'' (sparse_peer i) = Inr r"
proof -
  let ?v = "JObj [(''domain'', JStr ''sparse-committee-selection-v2''),
      (''selectionSeedDigest'', JStr (sm_selectionSeedDigest (sparse_members ids))),
      (''membershipConfigurationDigest'', JStr (sm_configurationDigest (sparse_members ids))),
      (''policyDigest'', JStr (sp_policyDigest (sparse_sample_policy ids))), (''purpose'', JStr purpose),
      (''shardId'', JStr ''s''), (''peerId'', JStr (sv_peerId (sparse_peer i))),
      (''eligibilityDigest'', JStr (sv_eligibilityDigest (sparse_peer i)))]"
  have "mesh_ok ?v" using assms(3) peer_names[OF assms(2)]
    by (intro mesh_ok_plain) (auto simp: sparse_members_def sparse_peer_def plain_char_def byteLength_plain)
  moreover have "\<not> tagged ?v"
    by (simp add: tagged_def stringify_plain_text plain_char_def)
  ultimately show ?thesis using assms(1) by (simp add: sparse_rank_def hashing_def)
qed

lemma mapE_defined: "\<forall>x \<in> set xs. \<exists>y. f x = Inr y \<Longrightarrow> \<exists>ys. mapE f xs = Inr ys"
  by (induction xs) fastforce+

lemma sample_order:
  assumes "hashing P" "ids = four \<or> ids = six" "distinct (map sv_peerId ws)" "set ws = sparse_peer ` set ids"
  shows "js_sort (by_peer P) ws = map sparse_peer ids"
proof -
  have "\<forall>i \<in> set six. is_identifier i" by code_simp
  moreover have "set four \<subseteq> set six" by code_simp
  ultimately have ok: "list_all sparse_validator_ok ws"
    using assms(2,4) sparse_members_valid[OF assms(2)] by (auto simp: list_all_iff validateMembership_iff sparse_members_def)
  have less: "pl_localeCompare P x y < 0 \<longleftrightarrow> x < y" for x y
    using assms(1) by (simp add: hashing_def sample_platform_def)
  let ?peers = "map sv_peerId (js_sort (by_peer P) ws)"
  have "sorted_wrt (<) ?peers"
    using ascending_committee[OF sample_collates[OF assms(1)] ok assms(3)]
    by (simp add: ascending_def less successively_conv_sorted_wrt)
  moreover have "sorted_wrt (<) ids" using assms(2) by (auto simp: four_def six_def)
  moreover have "set ids = set ?peers" by (simp add: assms(4) image_image sparse_peer_def)
  ultimately have "?peers = ids" by (metis strict_sorted_equal)
  moreover have "sparse_peer (sv_peerId v) = v" if "v \<in> set ws" for v
    using that unfolding assms(4) by (auto simp: sparse_peer_def)
  then have "map (sparse_peer \<circ> sv_peerId) (js_sort (by_peer P) ws) = js_sort (by_peer P) ws"
    by (intro map_idI) (simp add: set_js_sort)
  ultimately show ?thesis by (metis map_map)
qed

lemma sample_selection:
  assumes "hashing P" "ids = four \<or> ids = six" "purpose = ''shard'' \<or> purpose = ''reconciliation''"
  shows "selectSparseCommitteeV2 P (sparse_members ids) (sparse_sample_policy ids) purpose ''s''
      = Inr (sparse_committee ids purpose)"
proof -
  let ?m = "sparse_members ids" and ?p = "sparse_sample_policy ids" and ?n = "int (length ids)"
  note m = sparse_members_valid[OF assms(2)] and p = sample_policy_valid[OF assms(1,2)]
  have sub: "set ids \<subseteq> set six" "distinct ids" "4 \<le> length ids" using assms(2) by (auto simp: four_def six_def)
  have "\<forall>v \<in> set (sm_validators ?m). \<exists>r. sparse_rank P ?m ?p purpose ''s'' v = Inr r"
    using sample_rank[OF assms(1) _ assms(3)] sub(1) by (auto simp: sparse_members_def)
  from mapE_defined[OF this] obtain vs where vs: "ranked_validators P ?m ?p purpose ''s'' = Inr vs"
    by (auto simp: ranked_validators_def)
  let ?r = "pick_committee ?n ?n (\<lambda>_. None) [] vs"
  have peers: "map sv_peerId (map sparse_peer ids) = ids" by (simp add: sparse_peer_def map_idI)
  have "distinct (map sv_peerId vs)" using ranked_permutation(2)[OF vs] m by (simp add: validateMembership_iff)
  note exact = pick_committee_exact[OF this, of ?n ?n, unfolded admissible_set[OF ranked_permutation(1)[OF vs]]]
  have "admissible (sm_validators ?m) ?n ?n (map sparse_peer ids)"
    using peers sub(2) by (simp add: admissible_def sparse_members_def group_count_def)
  with exact(2) sub(3) have len: "int (length ?r) = ?n" by auto
  with exact(1) sub(3) have adm: "admissible (sm_validators ?m) ?n ?n ?r" by auto
  then have "set ?r \<subseteq> sparse_peer ` set ids" "distinct (map sv_peerId ?r)" by (simp_all add: admissible_def sparse_members_def)
  moreover have "card (set ?r) = card (sparse_peer ` set ids)"
  proof -
    have "distinct (map sparse_peer ids)" using peers sub(2) by (metis distinct_map)
    then have "card (sparse_peer ` set ids) = length ids" by (metis distinct_card length_map list.set_map)
    moreover have "card (set ?r) = length ?r" using \<open>distinct (map sv_peerId ?r)\<close> by (simp add: distinct_card distinct_map)
    ultimately show ?thesis using len by simp
  qed
  ultimately have "js_sort (by_peer P) ?r = map sparse_peer ids"
    by (intro sample_order[OF assms(1,2)]) (simp_all add: card_subset_eq)
  then have body: "committee_body P ?m ?p purpose ''s'' ?r = sparse_committee_body ids purpose"
    using assms(3) by (auto simp: committee_body_def sparse_committee_body_def sparse_members_def wanted_threshold_def)
  have size: "wanted_size ?p purpose = ?n" "wanted_threshold ?p purpose = 1" by (simp_all add: wanted_size_def wanted_threshold_def)
  have policy: "validateSparseCommitteePolicyV2 P ?p = Inr (?p\<lparr>sp_schemaVersion := 2\<rparr>)"
    using p by (simp add: validateSparseCommitteePolicyV2_iff)
  have s: "is_identifier ''s''" by code_simp
  note d = assignment_digest_json[OF assms(2,3)]
  from d assms(1) have dig: "sparse_assignment_digest P (sparse_committee_body ids purpose)
      = Inr (sample_hash (JObj (sparse_assignment_fields JNull (sparse_committee_body ids purpose))))"
    by (simp add: sparse_assignment_digest_def hashing_def)
  have shard: "sparse_identifier ''s'' ''shardId'' = Inr ()" using s by simp
  show ?thesis
    unfolding select_unfold Let_def m policy bindE_simps shard vs size sample_policy_fields body dig
    using len sub(3) by (simp add: sparse_committee_def Let_def)
qed

lemma sample_committee_selected:
  assumes "hashing P" "ids = four \<or> ids = six" "purpose = ''shard'' \<or> purpose = ''reconciliation''"
  shows "validateSelectedSparseCommitteeV2 P (sparse_committee ids purpose) (sparse_members ids) (sparse_sample_policy ids) = Inr True"
  by (rule selected_is_valid[OF sample_selection[OF assms] sample_collates[OF assms(1)] _ sample_policy_valid(3)[OF assms(1,2)] assms(3)])
    (simp add: sparse_committee_def Let_def)

subsection \<open>Certificates\<close>

text \<open>A signature port that knows who has signed what: \<open>M\<close> is the set of peers and messages.\<close>

definition sparse_aggregate_of :: "string list \<Rightarrow> sparse_aggregate" where
  "sparse_aggregate_of signers = \<lparr>au_algorithm = ''agg'', au_signerPeerIds = signers,
     au_signerSetDigest = sample_hash (JObj [(''domain'', JStr ''sparse-aggregate-signer-set-v2''),
       (''algorithm'', JStr ''agg''), (''signerPeerIds'', JArr (map JStr signers))]), au_value = ''v''\<rparr>"

definition sparse_port :: "(string \<times> string) set \<Rightarrow> sparse_signatures" where
  "sparse_port M = \<lparr>ss_algorithm = ''agg'', ss_verifyShare = (\<lambda>v m s. Inr ((sv_peerId v, m) \<in> M)),
     ss_aggregate = (\<lambda>m shares. Inr (sparse_aggregate_of (map sh_signerPeerId shares))),
     ss_verifyAggregate = (\<lambda>m vs u. Inr (\<forall>v \<in> set vs. (sv_peerId v, m) \<in> M))\<rparr>"

definition sparse_cert_body :: "string list \<Rightarrow> string \<Rightarrow> string \<Rightarrow> string \<Rightarrow> string list \<Rightarrow> string list \<Rightarrow> sparse_certificate" where
  "sparse_cert_body ids purpose phase V signers ds = \<lparr>scc_schemaVersion = 2, scc_certificateId = ''pending'',
     scc_assignment = sparse_committee ids purpose, scc_coordinateDigest = fixed_digest (CHR ''1''),
     scc_proposalDigest = fixed_digest (CHR ''2''), scc_valueDigest = V, scc_phase = phase,
     scc_aggregateSignature = sparse_aggregate_of signers, scc_shareDigests = ds, scc_certifiedAtLogicalMs = 5,
     scc_certificateDigest = []\<rparr>"

definition sparse_cert :: "string list \<Rightarrow> string \<Rightarrow> string \<Rightarrow> string \<Rightarrow> string list \<Rightarrow> string list \<Rightarrow> sparse_certificate" where
  "sparse_cert ids purpose phase V signers ds = (let body = sparse_cert_body ids purpose phase V signers ds;
       d = sample_hash (JObj (sparse_certificate_fields JNull body))
     in body\<lparr>scc_certificateId := ''committee-certificate:'' @ digest_slice d, scc_certificateDigest := d\<rparr>)"

text \<open>A digest as the samples use it, and the parameters of a sample certificate.\<close>

definition sample_text :: "string \<Rightarrow> bool" where
  "sample_text V \<longleftrightarrow> digest_text V \<and> plain_text V \<and> length V = 71"

definition sample_shape :: "string list \<Rightarrow> string \<Rightarrow> string \<Rightarrow> string \<Rightarrow> string list \<Rightarrow> string list \<Rightarrow> bool" where
  "sample_shape ids purpose phase V signers ds \<longleftrightarrow> (ids = four \<or> ids = six)
     \<and> (purpose = ''shard'' \<and> (phase = ''prepare'' \<or> phase = ''commit'') \<or> purpose = ''reconciliation'' \<and> phase = ''reconcile'')
     \<and> sample_text V \<and> sorted_wrt (<) signers \<and> set signers \<subseteq> set ids \<and> length signers = 3
     \<and> list_all sample_text ds \<and> length ds = 3"

lemma sample_text_ok [simp]: "sample_text (sample_hash v)" "lower_hex c \<Longrightarrow> sample_text (fixed_digest c)"
  by (simp_all add: sample_text_def)

lemma strings_json:
  assumes "\<forall>s \<in> set ss. plain_text s \<and> length s \<le> 71" "length ss \<le> 3"
  shows "list_all plain_json (map JStr ss)" "list_all (mesh_fits DEFAULT_MESH_PROTOCOL_LIMITS d) (map JStr ss)"
    "sum_list (map object_keys (map JStr ss)) = 0" "sum_list (map array_items (map JStr ss)) = 0"
    "sum_list (map (\<lambda>v. text_bound v + 1) (map JStr ss)) \<le> 300"
proof -
  have "sum_list (map (\<lambda>v. text_bound v + 1) (map JStr ss)) \<le> sum_list (map (\<lambda>_. 74) ss)"
    unfolding map_map by (rule sum_list_mono) (use assms(1) in fastforce)
  also have "\<dots> \<le> 300" using assms(2) by (simp add: sum_list_triv)
  finally show "sum_list (map (\<lambda>v. text_bound v + 1) (map JStr ss)) \<le> 300" .
  show "list_all plain_json (map JStr ss)" "list_all (mesh_fits DEFAULT_MESH_PROTOCOL_LIMITS d) (map JStr ss)"
    using assms(1) by (auto simp: list_all_iff byteLength_plain)
  show "sum_list (map object_keys (map JStr ss)) = 0" "sum_list (map array_items (map JStr ss)) = 0"
    by (induction ss) simp_all
qed

lemma strings_counts [simp]:
  "sum_list (map (object_keys \<circ> JStr) ss) = 0" "sum_list (map (array_items \<circ> JStr) ss) = 0"
  by (induction ss) simp_all

lemma committee_fields [simp]:
  "sparse_assignment_fields j (sparse_committee ids purpose) = sparse_assignment_fields j (sparse_committee_body ids purpose)"
  "sample_text (sa_assignmentDigest (sparse_committee ids purpose))"
  "sa_purpose (sparse_committee ids purpose) = purpose" "sa_shardId (sparse_committee ids purpose) = ''s''"
  "sa_validators (sparse_committee ids purpose) = map sparse_peer ids"
  "sa_faultThreshold (sparse_committee ids purpose) = 1" "sa_quorumThreshold (sparse_committee ids purpose) = 3"
  "sa_epoch (sparse_committee ids purpose) = 1"
  "sa_membershipConfigurationDigest (sparse_committee ids purpose) = fixed_digest (CHR ''0'')"
  "sa_policyDigest (sparse_committee ids purpose) = sp_policyDigest (sparse_sample_policy ids)"
  by (simp_all add: sparse_committee_def Let_def sparse_assignment_fields_def) (simp_all add: sparse_committee_body_def)

lemma committee_id [simp]: "plain_text (sa_committeeId (sparse_committee ids purpose))"
    "length (sa_committeeId (sparse_committee ids purpose)) = 50"
  by (simp_all add: sparse_committee_def Let_def plain_char_def)

lemma committee_json:
  assumes "ids = four \<or> ids = six" "purpose = ''shard'' \<or> purpose = ''reconciliation''"
  defines "v \<equiv> sparse_assignment_json (sparse_committee ids purpose)"
  shows "plain_json v" "d < 17 \<Longrightarrow> mesh_fits DEFAULT_MESH_PROTOCOL_LIMITS d v" "object_keys v = 11 + 5 * length ids"
    "array_items v = length ids" "text_bound v \<le> 2200"
proof -
  have j: "mesh_fits DEFAULT_MESH_PROTOCOL_LIMITS d (JStr (sa_committeeId (sparse_committee ids purpose)))" for d
    by (simp add: byteLength_plain)
  note f = assignment_fields_json[OF assms(1,2), of "JStr (sa_committeeId (sparse_committee ids purpose))", simplified, OF j[simplified]]
  have t: "plain_text (sa_assignmentDigest (sparse_committee ids purpose))" "length (sa_assignmentDigest (sparse_committee ids purpose)) = 71"
    using committee_fields(2) by (simp_all add: sample_text_def)
  show "plain_json v" "d < 17 \<Longrightarrow> mesh_fits DEFAULT_MESH_PROTOCOL_LIMITS d v" "object_keys v = 11 + 5 * length ids"
    "array_items v = length ids" "text_bound v \<le> 2200"
    using f(1) f(2)[of "Suc d"] f(3-6) t
    by (simp_all add: v_def sparse_assignment_json_def plain_char_def byteLength_plain)
qed

lemma certificate_fields_json:
  assumes "sample_shape ids purpose phase V signers ds"
    and "plain_json j" "\<And>d. mesh_fits DEFAULT_MESH_PROTOCOL_LIMITS d j" "object_keys j = 0" "array_items j = 0" "text_bound j \<le> 80"
  defines "fs \<equiv> sparse_certificate_fields j (sparse_cert_body ids purpose phase V signers ds)"
  shows "list_all (\<lambda>(k, v). plain_text k \<and> plain_json v) fs"
    "d < 16 \<Longrightarrow> list_all (\<lambda>(k, v). byteLength k \<le> 65536 \<and> mesh_fits DEFAULT_MESH_PROTOCOL_LIMITS d v) fs"
    "length fs = 10" "sum_list (map (\<lambda>(k, v). object_keys v) fs) = 15 + 5 * length ids"
    "sum_list (map (\<lambda>(k, v). array_items v) fs) = 6 + length ids"
    "sum_list (map (\<lambda>(k, v). length k + text_bound v + 4) fs) \<le> 4500"
proof -
  have c: "ids = four \<or> ids = six" "purpose = ''shard'' \<or> purpose = ''reconciliation''"
    "phase = ''prepare'' \<or> phase = ''commit'' \<or> phase = ''reconcile''" "plain_text V" "length V = 71"
    "length signers \<le> 3" "length ds \<le> 3" "length signers = 3" "length ds = 3"
    using assms(1) by (auto simp: sample_shape_def sample_text_def)
  have "set signers \<subseteq> set six" using assms(1) by (auto simp: sample_shape_def four_def six_def)
  then have s: "\<forall>s \<in> set signers. plain_text s \<and> length s \<le> 71" using peer_names by fastforce
  have d: "\<forall>s \<in> set ds. plain_text s \<and> length s \<le> 71"
    using assms(1) by (auto simp: sample_shape_def sample_text_def list_all_iff)
  note a = committee_json[OF c(1,2)] and strings = strings_json[OF s c(6)] strings_json[OF d c(7)]
  show "list_all (\<lambda>(k, v). plain_text k \<and> plain_json v) fs"
    "length fs = 10" "sum_list (map (\<lambda>(k, v). object_keys v) fs) = 15 + 5 * length ids"
    "sum_list (map (\<lambda>(k, v). array_items v) fs) = 6 + length ids"
    "sum_list (map (\<lambda>(k, v). length k + text_bound v + 4) fs) \<le> 4500"
    using c a strings assms(2-6)
    by (auto simp: fs_def sparse_certificate_fields_def sparse_cert_body_def sparse_aggregate_json_def
        sparse_aggregate_of_def plain_char_def)
  show "d < 16 \<Longrightarrow> list_all (\<lambda>(k, v). byteLength k \<le> 65536 \<and> mesh_fits DEFAULT_MESH_PROTOCOL_LIMITS d v) fs"
    using c a(2)[of d] strings(2,7) assms(2-6)
    by (auto simp: fs_def sparse_certificate_fields_def sparse_cert_body_def sparse_aggregate_json_def
        sparse_aggregate_of_def plain_char_def byteLength_plain)
qed

lemma certificate_digest_json:
  assumes "sample_shape ids purpose phase V signers ds"
  shows "mesh_ok (JObj (sparse_certificate_fields JNull (sparse_cert_body ids purpose phase V signers ds)))"
    "\<not> tagged (JObj (sparse_certificate_fields JNull (sparse_cert_body ids purpose phase V signers ds)))"
proof -
  note f = certificate_fields_json[OF assms, of JNull, simplified]
  have n: "length ids \<le> 6" using assms by (auto simp: sample_shape_def)
  show "mesh_ok (JObj (sparse_certificate_fields JNull (sparse_cert_body ids purpose phase V signers ds)))"
    by (rule mesh_ok_plain) (use f(1) f(2)[of 1] f(3-6) n in simp_all)
  show "\<not> tagged (JObj (sparse_certificate_fields JNull (sparse_cert_body ids purpose phase V signers ds)))"
    by (simp add: tagged_def sparse_certificate_fields_def stringify_plain_text plain_char_def)
qed

lemma signer_set_json:
  assumes "set signers \<subseteq> set six" "length signers = 3"
  defines "v \<equiv> JObj [(''domain'', JStr ''sparse-aggregate-signer-set-v2''), (''algorithm'', JStr ''agg''),
      (''signerPeerIds'', JArr (map JStr signers))]"
  shows "mesh_ok v" "\<not> tagged v"
proof -
  have s: "\<forall>s \<in> set signers. plain_text s \<and> length s \<le> 71" using peer_names assms(1) by fastforce
  note strings = strings_json[OF s]
  show "mesh_ok v" unfolding v_def using strings assms(2)
    by (intro mesh_ok_plain) (auto simp: plain_char_def byteLength_plain)
  show "\<not> tagged v" by (simp add: v_def tagged_def stringify_plain_text plain_char_def)
qed

lemma sample_aggregate_ok:
  assumes "hashing P" "set signers \<subseteq> set ids" "sorted_wrt (<) signers" "length signers = 3" "ids = four \<or> ids = six"
  shows "aggregate_ok P (sparse_port M) (sparse_aggregate_of signers) (map sparse_peer signers)"
proof -
  have six: "set signers \<subseteq> set six" using assms(2,5) by (auto simp: four_def six_def)
  have "\<forall>i \<in> set six. is_identifier i" by code_simp
  then have ids: "list_all is_identifier signers" using six by (auto simp: list_all_iff)
  have order: "js_sort (by_peer P) (map sparse_peer signers) = map sparse_peer signers"
  proof (rule js_sort_fixed)
    have "successively (<) signers" using assms(3) by (rule successively_if_sorted_wrt)
    then show "successively (\<lambda>x y. by_peer P x y \<le> 0) (map sparse_peer signers)"
      using assms(1) unfolding successively_map
      by (elim successively_mono) (simp add: by_peer_def sparse_peer_def hashing_def sample_platform_def)
  qed
  have peers: "map sv_peerId (map sparse_peer signers) = signers" by (simp add: sparse_peer_def map_idI)
  have tokens: "sparse_token ''agg'' 256" "sparse_token ''v'' 65536" by (simp_all add: sparse_token_def)
  note d = signer_set_json[OF six assms(4)]
  have "sparseAggregateSignerSetDigestV2 P ''agg'' signers = Inr (au_signerSetDigest (sparse_aggregate_of signers))"
    using tokens(1) d assms(1,3,4) ids
    by (simp add: sparseAggregateSignerSetDigestV2_def returns sparse_aggregate_of_def hashing_def)
  then show ?thesis
    using ids assms(3,4) tokens unfolding aggregate_ok_def order peers
    by (simp add: sparse_aggregate_of_def sparse_port_def)
qed

text \<open>The message of a sample certificate.\<close>

definition sparse_message_json :: "string list \<Rightarrow> string \<Rightarrow> string \<Rightarrow> string \<Rightarrow> string \<Rightarrow> json" where
  "sparse_message_json ids purpose phase Pd V = JObj [(''domain'', JStr ''sparse-agreement-share-message-v2''),
     (''committeeAssignmentDigest'', JStr (sa_assignmentDigest (sparse_committee ids purpose))),
     (''coordinateDigest'', JStr (fixed_digest (CHR ''1''))), (''proposalDigest'', JStr Pd),
     (''valueDigest'', JStr V), (''phase'', JStr phase)]"

definition sparse_message :: "int platform \<Rightarrow> string list \<Rightarrow> string \<Rightarrow> string \<Rightarrow> string \<Rightarrow> string" where
  "sparse_message P ids purpose phase V = projr (collectiveQuorumDigestV1 P
     (sparse_message_json ids purpose phase (fixed_digest (CHR ''2'')) V))"

lemma message_digest:
  assumes "P = sample_platform \<or> P = tagging_platform" "sample_text V"
    and "phase = ''prepare'' \<or> phase = ''commit'' \<or> phase = ''reconcile''"
  shows "collectiveQuorumDigestV1 P (sparse_message_json ids purpose phase (fixed_digest (CHR ''2'')) V)
      = Inr (sparse_message P ids purpose phase V)"
    "mesh_ok (sparse_message_json ids purpose phase (fixed_digest (CHR ''2'')) V)"
    "tagged (sparse_message_json ids purpose phase (fixed_digest (CHR ''2'')) V)"
proof -
  have t: "plain_text V" "length V = 71" "plain_text (sa_assignmentDigest (sparse_committee ids purpose))"
    "length (sa_assignmentDigest (sparse_committee ids purpose)) = 71"
    using assms(2) committee_fields(2) by (auto simp: sample_text_def)
  show ok: "mesh_ok (sparse_message_json ids purpose phase (fixed_digest (CHR ''2'')) V)"
    unfolding sparse_message_json_def using t assms(3)
    by (intro mesh_ok_plain) (auto simp: plain_char_def byteLength_plain)
  show "tagged (sparse_message_json ids purpose phase (fixed_digest (CHR ''2'')) V)"
    by (simp add: tagged_def sparse_message_json_def stringify_plain_text plain_char_def)
  with ok quorum_digest_sample(1,3)[OF ok] assms(1)
  show "collectiveQuorumDigestV1 P (sparse_message_json ids purpose phase (fixed_digest (CHR ''2'')) V)
      = Inr (sparse_message P ids purpose phase V)"
    by (auto simp: sparse_message_def)
qed

lemma sample_certificate_ok:
  assumes "P = sample_platform \<or> P = tagging_platform" "sample_shape ids purpose phase V signers ds"
    and "sorted_wrt (<) ds" "\<forall>i \<in> set signers. (i, sparse_message P ids purpose phase V) \<in> M"
  shows "validateSparseCommitteeCertificateV2 P (sparse_port M) (sparse_members ids) (sparse_sample_policy ids)
    (sparse_cert ids purpose phase V signers ds) = Inr True"
proof -
  let ?c = "sparse_cert ids purpose phase V signers ds"
  have P: "hashing P" using assms(1) hashing_platforms by auto
  have sh: "ids = four \<or> ids = six" "purpose = ''shard'' \<or> purpose = ''reconciliation''"
    "phase = ''prepare'' \<or> phase = ''commit'' \<or> phase = ''reconcile''"
    "purpose = ''reconciliation'' \<longleftrightarrow> phase = ''reconcile''" "sample_text V" "sorted_wrt (<) signers"
    "set signers \<subseteq> set ids" "length signers = 3" "list_all sample_text ds" "length ds = 3"
    using assms(2) by (auto simp: sample_shape_def)
  have fields: "scc_schemaVersion ?c = 2" "scc_assignment ?c = sparse_committee ids purpose"
    "scc_coordinateDigest ?c = fixed_digest (CHR ''1'')" "scc_proposalDigest ?c = fixed_digest (CHR ''2'')"
    "scc_valueDigest ?c = V" "scc_phase ?c = phase" "scc_aggregateSignature ?c = sparse_aggregate_of signers"
    "scc_shareDigests ?c = ds" "scc_certifiedAtLogicalMs ?c = 5"
    by (simp_all add: sparse_cert_def Let_def) (simp_all add: sparse_cert_body_def)
  have signers: "au_signerPeerIds (sparse_aggregate_of signers) = signers" by (simp add: sparse_aggregate_of_def)
  have "distinct ids" using sh(1) by (auto simp: four_def six_def)
  then have dist: "distinct (map sv_peerId (map sparse_peer ids))" by (simp add: sparse_peer_def map_idI)
  have "validators_by_id (map sparse_peer ids) i = Some (sparse_peer i)" if "i \<in> set ids" for i
    using validators_by_id_distinct[OF dist, of "sparse_peer i"] that by (simp add: sparse_peer_def)
  then have who: "certificate_signers ?c = map sparse_peer signers"
    using sh(7) by (auto simp: certificate_signers_def fields signers)
  have "certificate_message P ?c = Inr (sparse_message P ids purpose phase V)"
    using message_digest(1)[OF assms(1) sh(5,3)]
    by (simp add: certificate_message_def fields sparseShareMessageDigestV2_def sparse_message_json_def)
  moreover have "ss_verifyAggregate (sparse_port M) (sparse_message P ids purpose phase V) (map sparse_peer signers)
      (sparse_aggregate_of signers) = Inr True"
    using assms(4) by (simp add: sparse_port_def sparse_peer_def)
  moreover have "sparse_certificate_digest P ?c = Inr (scc_certificateDigest ?c)"
    "scc_certificateId ?c = ''committee-certificate:'' @ digest_slice (scc_certificateDigest ?c)"
    "digest_text (scc_certificateDigest ?c)"
    using certificate_digest_json[OF assms(2)] P
    by (simp_all add: sparse_cert_def Let_def) (simp add: sparse_certificate_digest_def hashing_def)
  moreover have "set signers \<subseteq> sv_peerId ` set (map sparse_peer ids)"
    using sh(7) by (force simp: sparse_peer_def)
  moreover have "digest_text V" "list_all digest_text ds" using sh(5,9) by (auto simp: sample_text_def list_all_iff)
  ultimately show ?thesis
    using sample_committee_selected[OF P sh(1,2)] sample_aggregate_ok[OF P sh(7,6,8,1)] sh(3,4,8,10) assms(3)
    unfolding validateSparseCommitteeCertificateV2_iff certificate_ok_def who fields committee_fields signers
    by (simp add: isSafeInteger_def maximumSafeInteger_def)
qed

end
