(* ===== verification/AgSparseProperties.thy ===== *)
theory AgSparseProperties
  imports AgSparseSamples
begin

text \<open>
  The properties of sparse agreement applied to the samples, and what a committee that is larger
  than its thresholds are made for can certify.
\<close>

subsection \<open>Committees\<close>

lemma sample_selected:
  "selectSparseCommitteeV2 sample_platform (sparse_members four) (sparse_sample_policy four) ''shard'' ''s''
    = Inr (sparse_committee four ''shard'')"
  by (rule sample_selection[OF hashing_platforms(1)]) simp_all

theorem selected_committee_sound_witness:
  "distinct (map sv_peerId (sa_validators (sparse_committee four ''shard'')))
    \<and> set (sa_validators (sparse_committee four ''shard'')) \<subseteq> set (sm_validators (sparse_members four))
    \<and> int (length (sa_validators (sparse_committee four ''shard''))) = 4"
  using selected_committee_sound[OF sample_selected] by simp

theorem selection_refused_witness:
  "\<exists>C. distinct (map sv_peerId C) \<and> set C \<subseteq> set (sm_validators (sparse_members four)) \<and> int (length C) = 4"
proof -
  have v: "validateSparseCommitteePolicyV2 sample_platform (sparse_sample_policy four)
      = Inr ((sparse_sample_policy four)\<lparr>sp_schemaVersion := 2\<rparr>)"
    using sample_policy_valid[OF hashing_platforms(1)] by (simp add: validateSparseCommitteePolicyV2_iff)
  have s: "is_identifier ''s''" by code_simp
  have "\<forall>v \<in> set (sm_validators (sparse_members four)). \<exists>r. sparse_rank sample_platform (sparse_members four)
      (sparse_sample_policy four) ''shard'' ''s'' v = Inr r"
  proof -
    have "set four \<subseteq> set six" by code_simp
    then show ?thesis using sample_rank[OF hashing_platforms(1)] by (auto simp: sparse_members_def)
  qed
  from selection_refused_iff_impossible[OF sparse_members_valid v s this] show ?thesis
    by (simp add: sample_selected) blast
qed

theorem selected_committee_validates_witness:
  "validateSelectedSparseCommitteeV2 sample_platform (sparse_committee four ''shard'') (sparse_members four)
    (sparse_sample_policy four) = Inr True"
  by (rule selected_committee_validates[OF sample_selected sample_collates[OF hashing_platforms(1)] sample_sha256]) simp

theorem committee_size_bounded_witness: "length (sa_validators (sparse_committee four ''shard'')) \<le> 407"
  by (rule committee_size_bounded[OF sample_selected])

subsection \<open>Certificates\<close>

definition share_digests :: "string list" where
  "share_digests = [fixed_digest (CHR ''0''), fixed_digest (CHR ''1''), fixed_digest (CHR ''2'')]"

lemma share_digests_ok: "sorted_wrt (<) share_digests" "list_all sample_text share_digests" "length share_digests = 3"
proof -
  have "sorted_wrt (<) share_digests" unfolding share_digests_def fixed_digest_def by code_simp
  then show "sorted_wrt (<) share_digests" "list_all sample_text share_digests" "length share_digests = 3"
    by (simp_all add: share_digests_def)
qed

definition agreed_cert :: "string list \<Rightarrow> string list \<Rightarrow> char \<Rightarrow> sparse_certificate" where
  "agreed_cert ids signers c = sparse_cert ids ''shard'' ''commit'' (fixed_digest c) signers share_digests"

lemma agreed_cert_shape:
  "(ids = four \<or> ids = six) \<Longrightarrow> sorted_wrt (<) signers \<Longrightarrow> set signers \<subseteq> set ids \<Longrightarrow> length signers = 3
    \<Longrightarrow> lower_hex c \<Longrightarrow> sample_shape ids ''shard'' ''commit'' (fixed_digest c) signers share_digests"
  using share_digests_ok by (auto simp: sample_shape_def)

lemma agreed_cert_fields [simp]:
  "scc_assignment (agreed_cert ids signers c) = sparse_committee ids ''shard''"
  "scc_coordinateDigest (agreed_cert ids signers c) = fixed_digest (CHR ''1'')"
  "scc_proposalDigest (agreed_cert ids signers c) = fixed_digest (CHR ''2'')"
  "scc_valueDigest (agreed_cert ids signers c) = fixed_digest c" "scc_phase (agreed_cert ids signers c) = ''commit''"
  "au_signerPeerIds (scc_aggregateSignature (agreed_cert ids signers c)) = signers"
  "scc_certifiedAtLogicalMs (agreed_cert ids signers c) = 5"
  by (simp_all add: agreed_cert_def sparse_cert_def Let_def sparse_cert_body_def sparse_aggregate_of_def)

lemma agreed_cert_valid:
  assumes "P = sample_platform \<or> P = tagging_platform" "ids = four \<or> ids = six" "sorted_wrt (<) signers"
    and "set signers \<subseteq> set ids" "length signers = 3" "lower_hex c"
    and "\<forall>i \<in> set signers. (i, sparse_message P ids ''shard'' ''commit'' (fixed_digest c)) \<in> M"
  shows "validateSparseCommitteeCertificateV2 P (sparse_port M) (sparse_members ids) (sparse_sample_policy ids)
    (agreed_cert ids signers c) = Inr True"
  unfolding agreed_cert_def
  by (rule sample_certificate_ok[OF assms(1) agreed_cert_shape[OF assms(2-6)] share_digests_ok(1) assms(7)])


subsection \<open>Agreement, applied\<close>

lemma hex_value_digit: "0 \<le> n \<Longrightarrow> n < 16 \<Longrightarrow> hex_value (hex_digit n) = n"
proof -
  have "\<forall>n \<in> {0..<16}. hex_value (hex_digit n) = n" by code_simp
  then show "0 \<le> n \<Longrightarrow> n < 16 \<Longrightarrow> hex_value (hex_digit n) = n" by simp
qed

lemma hex_bytes_toHex: "\<forall>b \<in> set bs. 0 \<le> b \<and> b < 256 \<Longrightarrow> hex_bytes (toHex bs) = bs"
  by (induction bs) (auto simp: toHex_def hex_value_digit)

lemma encode_utf8_bytes: "\<forall>b \<in> set (encode_utf8 s). 0 \<le> b \<and> b < 256"
proof -
  have c: "0 \<le> (of_char c :: int) \<and> (of_char c :: int) < 256" for c
    using nat_of_char_less_256[of c] by (metis of_nat_0_le_iff of_nat_less_iff of_nat_numeral of_nat_of_char)
  have "0 \<le> n \<Longrightarrow> n < 256 \<Longrightarrow> 0 \<le> 192 + n div 64 \<and> 192 + n div 64 < 256 \<and> 0 \<le> 128 + n mod 64 \<and> 128 + n mod 64 < 256"
    for n :: int by presburger
  with c show ?thesis by (fastforce simp: encode_utf8_def Let_def split: if_splits)
qed

text \<open>The tagging platform keeps different messages apart.\<close>

lemma tagging_messages:
  assumes "sparseShareMessageDigestV2 tagging_platform A C p1 v1 ph = Inr d"
    and "sparseShareMessageDigestV2 tagging_platform A C p2 v2 ph = Inr d"
  shows "p1 = p2 \<and> v1 = v2"
proof -
  let ?v = "\<lambda>p v. JObj [(''domain'', JStr ''sparse-agreement-share-message-v2''), (''committeeAssignmentDigest'', JStr A),
      (''coordinateDigest'', JStr C), (''proposalDigest'', JStr p), (''valueDigest'', JStr v), (''phase'', JStr ph)]"
  have t: "tagged (?v p v)" for p v by (simp add: tagged_def stringify_plain_text plain_char_def)
  have ok: "mesh_ok (?v p1 v1)" "mesh_ok (?v p2 v2)"
    using assms by (auto simp: sparseShareMessageDigestV2_def collectiveQuorumDigestV1_iff)
  from assms have "''sha256:'' @ toHex (encode_utf8 (render (json_norm (?v p1 v1))))
      = ''sha256:'' @ toHex (encode_utf8 (render (json_norm (?v p2 v2))))"
    unfolding sparseShareMessageDigestV2_def quorum_digest_sample(3)[OF ok(1) t] quorum_digest_sample(3)[OF ok(2) t]
    by (metis sum.inject(2))
  then have "toHex (encode_utf8 (render (json_norm (?v p1 v1)))) = toHex (encode_utf8 (render (json_norm (?v p2 v2))))"
    by (simp only: same_append_eq)
  then have "encode_utf8 (render (json_norm (?v p1 v1))) = encode_utf8 (render (json_norm (?v p2 v2)))"
    using hex_bytes_toHex[OF encode_utf8_bytes] by metis
  note same = this
  have "canonicalizeMeshJsonBytes (?v p1 v1) = Inr (encode_utf8 (render (json_norm (?v p2 v2))))"
    unfolding canonicalizeMeshJsonBytes_iff using ok(1) same[symmetric] by (rule conjI)
  moreover have "canonicalizeMeshJsonBytes (?v p2 v2) = Inr (encode_utf8 (render (json_norm (?v p2 v2))))"
    unfolding canonicalizeMeshJsonBytes_iff using ok(2) refl by (rule conjI)
  ultimately have "json_norm (?v p1 v1) = json_norm (?v p2 v2)" by (rule canonicalizeMeshJsonBytes_inject)
  then show ?thesis by simp
qed

theorem certificates_agree_witness:
  "scc_valueDigest (agreed_cert four [''b'', ''c'', ''d''] (CHR ''3'')) = scc_valueDigest (agreed_cert four [''a'', ''b'', ''c''] (CHR ''3''))"
proof -
  let ?m = "sparse_message tagging_platform four ''shard'' ''commit'' (fixed_digest (CHR ''3''))"
  let ?M = "UNIV \<times> {?m}" and ?c = "agreed_cert four [''a'', ''b'', ''c''] (CHR ''3'')"
    and ?d = "agreed_cert four [''b'', ''c'', ''d''] (CHR ''3'')"
  let ?has_signed = "\<lambda>(v :: sparse_validator) m. m = ?m"
  have c: "validateSparseCommitteeCertificateV2 tagging_platform (sparse_port ?M) (sparse_members four) (sparse_sample_policy four) ?c = Inr True"
    by (rule agreed_cert_valid) (simp_all add: four_def)
  have d: "validateSparseCommitteeCertificateV2 tagging_platform (sparse_port ?M) (sparse_members four) (sparse_sample_policy four) ?d = Inr True"
    by (rule agreed_cert_valid) (simp_all add: four_def)
  have u: "unforgeable (sparse_port ?M) UNIV ?has_signed" by (auto simp: unforgeable_def sparse_port_def)
  have o: "\<forall>v \<in> UNIV. signs_once tagging_platform (sa_assignmentDigest (scc_assignment ?c)) (scc_coordinateDigest ?c)
      (scc_phase ?c) ?has_signed v"
    unfolding signs_once_def using tagging_messages by blast
  have "scc_proposalDigest ?d = scc_proposalDigest ?c \<and> scc_valueDigest ?d = scc_valueDigest ?c"
    by (rule certificates_agree[OF c d _ _ _ _ _ u o]) simp_all
  then show ?thesis ..
qed

text \<open>A collation that puts \<open>a\<close> before \<open>B\<close>: letters are compared without their case first.\<close>

definition fold_case :: "char \<Rightarrow> nat" where
  "fold_case c = (let n = of_char c in if 65 \<le> n \<and> n \<le> 90 then n + 32 else n)"

definition case_platform :: "int platform" where
  "case_platform = sample_platform\<lparr>pl_localeCompare := (\<lambda>l r.
     if map fold_case l < map fold_case r \<or> map fold_case l = map fold_case r \<and> l < r then -1
     else if l = r then 0 else 1)\<rparr>"

definition mixed_cert :: sparse_certificate where
  "mixed_cert = (let c = agreed_cert four [''a'', ''b'', ''c''] (CHR ''3'') in
     c\<lparr>scc_assignment := (scc_assignment c)\<lparr>sa_validators := map sparse_peer [''a'', ''B'', ''c'', ''D'']\<rparr>\<rparr>)"


subsection \<open>From shares to a certificate, applied\<close>

definition sample_share_body :: "string \<Rightarrow> sparse_share" where
  "sample_share_body i = \<lparr>sh_schemaVersion = 2,
     sh_committeeAssignmentDigest = sa_assignmentDigest (sparse_committee four ''shard''),
     sh_coordinateDigest = fixed_digest (CHR ''1''), sh_proposalDigest = fixed_digest (CHR ''2''),
     sh_valueDigest = fixed_digest (CHR ''3''), sh_phase = ''commit'', sh_signerPeerId = i,
     sh_signerInstanceId = ''n'', sh_signerKeyId = ''k'', sh_signature = ''v'', sh_shareDigest = []\<rparr>"

definition sample_share :: "string \<Rightarrow> sparse_share" where
  "sample_share i = (sample_share_body i)\<lparr>sh_shareDigest := sample_hash (sparse_share_body (sample_share_body i))\<rparr>"

lemma sample_share_ok:
  assumes "i \<in> set four"
  shows "share_ok sample_platform (sparse_port UNIV) (sparse_committee four ''shard'') (sample_share j) (sample_share i)"
proof -
  have t: "digest_text (sa_assignmentDigest (sparse_committee four ''shard''))"
    "plain_text (sa_assignmentDigest (sparse_committee four ''shard''))"
    "length (sa_assignmentDigest (sparse_committee four ''shard'')) = 71"
    using committee_fields(2)[of four "''shard''"] by (auto simp: sample_text_def)
  have i: "plain_text i" "length i = 1" using peer_names[of i] assms by (auto simp: four_def six_def)
  have "\<forall>i \<in> set (four @ [''n'', ''k'']). is_identifier i" by code_simp
  with assms have ids: "is_identifier i" "is_identifier ''n''" "is_identifier ''k''" by auto
  have body: "sparse_share_body (sample_share i) = sparse_share_body (sample_share_body i)"
    by (simp add: sparse_share_body_def sample_share_def)
  have "mesh_ok (sparse_share_body (sample_share_body i))"
    unfolding sparse_share_body_def using t i
    by (intro mesh_ok_plain) (auto simp: sample_share_body_def plain_char_def byteLength_plain)
  then have d: "collectiveQuorumDigestV1 sample_platform (sparse_share_body (sample_share i)) = Inr (sh_shareDigest (sample_share i))"
    unfolding body by (simp add: quorum_digest_sample(1) sample_share_def)
  have m: "share_message sample_platform (sample_share i)
      = Inr (sparse_message sample_platform four ''shard'' ''commit'' (fixed_digest (CHR ''3'')))"
    using message_digest(1)[of sample_platform "fixed_digest (CHR ''3'')" "''commit''" four "''shard''"]
    by (simp add: share_message_def sparseShareMessageDigestV2_def sparse_message_json_def sample_share_def sample_share_body_def)
  have "distinct four" by code_simp
  then have "distinct (map sv_peerId (map sparse_peer four))" by (simp add: sparse_peer_def map_idI)
  from validators_by_id_distinct[OF this, of "sparse_peer i"] assms
  have v: "validators_by_id (map sparse_peer four) i = Some (sparse_peer i)" by (simp add: sparse_peer_def)
  have "validateShare (sample_share i) = Inr ()"
    using t ids by (simp add: validateShare_def seqE_Inr_iff sample_share_def sample_share_body_def sparse_token_def)
  with d m v show ?thesis
    by (simp add: share_ok_def) (simp add: sample_share_def sample_share_body_def sparse_peer_def sparse_port_def)
qed

lemma sample_certificate_created:
  "\<exists>c. createSparseCommitteeCertificateV2 sample_platform (sparse_port UNIV) (sparse_committee four ''shard'')
      (sparse_members four) (sparse_sample_policy four) (map sample_share [''a'', ''b'', ''c'']) 5 = Inr (Some c)
    \<and> scc_phase c = ''commit''"
proof -
  let ?a = "sparse_committee four ''shard''" and ?S = "sparse_port UNIV" and ?shares = "map sample_share [''a'', ''b'', ''c'']"
  let ?m = "sparse_message sample_platform four ''shard'' ''commit'' (fixed_digest (CHR ''3''))"
  let ?signers = "[''a'', ''b'', ''c'']"
  have sel: "validateSelectedSparseCommitteeV2 sample_platform ?a (sparse_members four) (sparse_sample_policy four) = Inr True"
    using sample_committee_selected[OF hashing_platforms(1)] by simp
  have signer: "sh_signerPeerId (sample_share i) = i" for i by (simp add: sample_share_def sample_share_body_def)
  have sort: "js_sort (\<lambda>l r. pl_localeCompare sample_platform (sh_signerPeerId l) (sh_signerPeerId r)) ?shares = ?shares"
    by (rule js_sort_fixed) (simp add: signer sample_platform_def)
  have collect: "collect_shares sample_platform ?S ?a (hd ?shares) [] [] ?shares = Inr (Some (?signers, ?shares))"
    unfolding collect_shares_iff using sample_share_ok by (auto simp: signer four_def)
  have message: "share_message sample_platform (hd ?shares) = Inr ?m"
    using message_digest(1)[of sample_platform "fixed_digest (CHR ''3'')" "''commit''" four "''shard''"]
    by (simp add: share_message_def sparseShareMessageDigestV2_def sparse_message_json_def sample_share_def sample_share_body_def)
  have "distinct four" by code_simp
  then have "distinct (map sv_peerId (map sparse_peer four))" by (simp add: sparse_peer_def map_idI)
  from validators_by_id_distinct[OF this] have by_id: "validators_by_id (map sparse_peer four) i = Some (sparse_peer i)"
    if "i \<in> set four" for i using that by (force simp: sparse_peer_def)
  have vs: "map (\<lambda>s. the (validators_by_id (map sparse_peer four) (sh_signerPeerId s))) ?shares = map sparse_peer ?signers"
    using by_id by (simp add: signer four_def)
  have agg: "ss_aggregate ?S ?m ?shares = Inr (sparse_aggregate_of ?signers)" by (simp add: sparse_port_def signer)
  have ok: "validateAggregateSignatureV2 sample_platform ?S (sparse_aggregate_of ?signers) (map sparse_peer ?signers) = Inr True"
    unfolding validateAggregateSignatureV2_iff
    by (rule sample_aggregate_ok[OF hashing_platforms(1), where ids = four]) (simp_all add: four_def)
  have ver: "ss_verifyAggregate ?S ?m (map sparse_peer ?signers) (sparse_aggregate_of ?signers) = Inr True"
    by (simp add: sparse_port_def)
  define ds where "ds = sort (map sh_shareDigest ?shares)"
  have shape: "sample_shape four ''shard'' ''commit'' (fixed_digest (CHR ''3'')) ?signers ds"
  proof -
    have "list_all sample_text (map sh_shareDigest ?shares)" by (simp add: sample_share_def)
    then have "list_all sample_text ds" unfolding ds_def list_all_iff set_sort .
    moreover have "length ds = 3" unfolding ds_def length_sort by simp
    ultimately show ?thesis by (simp add: sample_shape_def four_def)
  qed
  have body: "\<lparr>scc_schemaVersion = 2, scc_certificateId = ''pending'', scc_assignment = ?a,
      scc_coordinateDigest = sh_coordinateDigest (hd ?shares), scc_proposalDigest = sh_proposalDigest (hd ?shares),
      scc_valueDigest = sh_valueDigest (hd ?shares), scc_phase = sh_phase (hd ?shares),
      scc_aggregateSignature = sparse_aggregate_of ?signers, scc_shareDigests = ds,
      scc_certifiedAtLogicalMs = 5, scc_certificateDigest = []\<rparr>
    = sparse_cert_body four ''shard'' ''commit'' (fixed_digest (CHR ''3'')) ?signers ds"
    by (simp add: sparse_cert_body_def sample_share_def sample_share_body_def)
  obtain d where d: "sparse_certificate_digest sample_platform
      (sparse_cert_body four ''shard'' ''commit'' (fixed_digest (CHR ''3'')) ?signers ds) = Inr d"
    using certificate_digest_json(1)[OF shape] by (simp add: sparse_certificate_digest_def quorum_digest_sample(1))
  have time: "sparse_integer 5 ''certifiedAtLogicalMs'' 0 maximumSafeInteger = Inr ()"
    by (simp add: isSafeInteger_def maximumSafeInteger_def)
  have n: "int (length ?shares) = 3" "int (length ?signers) = 3" by simp_all
  have "createSparseCommitteeCertificateV2 sample_platform ?S ?a (sparse_members four) (sparse_sample_policy four) ?shares 5
      = Inr (Some ((sparse_cert_body four ''shard'' ''commit'' (fixed_digest (CHR ''3'')) ?signers ds)
          \<lparr>scc_certificateId := ''committee-certificate:'' @ digest_slice d, scc_certificateDigest := d\<rparr>))"
    unfolding createSparseCommitteeCertificateV2_def Let_def sel bindE_simps time collect sum.case option.case prod.case
      committee_fields sort message agg vs ok ver if_True ds_def[symmetric] body d n by simp
  then show ?thesis by (simp add: sparse_cert_body_def)
qed


subsection \<open>Finality, applied\<close>

definition shard_cert :: sparse_certificate where
  "shard_cert = agreed_cert four [''a'', ''b'', ''c''] (CHR ''3'')"

definition sample_root_json :: json where
  "sample_root_json = JObj [(''domain'', JStr ''sparse-shard-certificate-root-v2''),
     (''coordinateDigest'', JStr (fixed_digest (CHR ''1''))), (''proposalDigest'', JStr (fixed_digest (CHR ''2''))),
     (''valueDigest'', JStr (fixed_digest (CHR ''3''))), (''requiredShardIds'', JArr [JStr ''s'']),
     (''shardCertificateDigests'', JArr [JStr (scc_certificateDigest shard_cert)])]"

definition reconciliation_cert :: sparse_certificate where
  "reconciliation_cert = sparse_cert four ''reconciliation'' ''reconcile'' (sample_hash sample_root_json)
     [''a'', ''b'', ''c''] share_digests"

definition sample_finality_body :: sparse_finality where
  "sample_finality_body = finality_body shard_cert [''s''] [shard_cert] (sample_hash sample_root_json) reconciliation_cert 9"

definition sample_finality :: sparse_finality where
  "sample_finality = (let d = sample_hash (JObj (sparse_finality_fields JNull sample_finality_body)) in
     sample_finality_body\<lparr>sf_certificateId := ''sparse-finality:'' @ digest_slice d, sf_certificateDigest := d\<rparr>)"

lemma shard_cert_digest: "sample_text (scc_certificateDigest shard_cert)"
  by (simp add: shard_cert_def agreed_cert_def sparse_cert_def Let_def)

lemma reconciliation_shape:
  "sample_shape four ''reconciliation'' ''reconcile'' (sample_hash sample_root_json) [''a'', ''b'', ''c''] share_digests"
  using share_digests_ok by (simp add: sample_shape_def four_def)

lemma reconciliation_json:
  "plain_json (sparse_certificate_json reconciliation_cert)"
  "mesh_fits DEFAULT_MESH_PROTOCOL_LIMITS 1 (sparse_certificate_json reconciliation_cert)"
  "object_keys (sparse_certificate_json reconciliation_cert) = 46"
  "array_items (sparse_certificate_json reconciliation_cert) = 10"
  "text_bound (sparse_certificate_json reconciliation_cert) \<le> 5000"
proof -
  let ?body = "sparse_cert_body four ''reconciliation'' ''reconcile'' (sample_hash sample_root_json) [''a'', ''b'', ''c''] share_digests"
  let ?d = "sample_hash (JObj (sparse_certificate_fields JNull ?body))"
  let ?j = "JStr (''committee-certificate:'' @ digest_slice ?d)"
  have "sparse_certificate_json reconciliation_cert
      = JObj (sparse_certificate_fields ?j ?body @ [(''certificateDigest'', JStr ?d)])"
    by (simp add: sparse_certificate_json_def sparse_certificate_fields_def reconciliation_cert_def sparse_cert_def Let_def)
  moreover have "plain_json ?j" "mesh_fits DEFAULT_MESH_PROTOCOL_LIMITS e ?j" "object_keys ?j = 0" "array_items ?j = 0"
    "text_bound ?j \<le> 80" for e by (simp_all add: plain_char_def byteLength_plain)
  note f = certificate_fields_json[OF reconciliation_shape this]
  ultimately show "plain_json (sparse_certificate_json reconciliation_cert)"
    "mesh_fits DEFAULT_MESH_PROTOCOL_LIMITS 1 (sparse_certificate_json reconciliation_cert)"
    "object_keys (sparse_certificate_json reconciliation_cert) = 46"
    "array_items (sparse_certificate_json reconciliation_cert) = 10"
    "text_bound (sparse_certificate_json reconciliation_cert) \<le> 5000"
    using f(1) f(2)[of 2] f(3-6) by (simp_all add: plain_char_def byteLength_plain)
qed

lemma root_digest:
  "shard_root_digest sample_platform shard_cert [''s''] [scc_certificateDigest shard_cert] = Inr (sample_hash sample_root_json)"
proof -
  have "mesh_ok sample_root_json"
    unfolding sample_root_json_def using shard_cert_digest
    by (intro mesh_ok_plain) (auto simp: sample_text_def plain_char_def byteLength_plain)
  then show ?thesis
    using quorum_digest_sample(1)[of sample_root_json]
    by (simp add: shard_root_digest_def sample_root_json_def shard_cert_def)
qed

lemma finality_digest:
  "sparse_finality_digest sample_platform sample_finality_body
    = Inr (sample_hash (JObj (sparse_finality_fields JNull sample_finality_body)))"
proof -
  have show_9: "show_int 9 = ''9''" by code_simp
  have "mesh_ok (JObj (sparse_finality_fields JNull sample_finality_body))"
    unfolding sparse_finality_fields_def sample_finality_body_def finality_body_def
    using reconciliation_json shard_cert_digest sample_policy_digest_ok[of four] show_9
    by (intro mesh_ok_plain) (auto simp: sample_text_def plain_char_def byteLength_plain shard_cert_def)
  then show ?thesis by (simp add: sparse_finality_digest_def quorum_digest_sample(1))
qed

lemma sample_certificates_valid:
  "everyE (validateSparseCommitteeCertificateV2 sample_platform (sparse_port UNIV) (sparse_members four) (sparse_sample_policy four))
    [shard_cert, reconciliation_cert] = Inr True"
proof -
  have s: "validateSparseCommitteeCertificateV2 sample_platform (sparse_port UNIV) (sparse_members four) (sparse_sample_policy four)
      shard_cert = Inr True"
    unfolding shard_cert_def by (rule agreed_cert_valid) (simp_all add: four_def)
  have r: "validateSparseCommitteeCertificateV2 sample_platform (sparse_port UNIV) (sparse_members four) (sparse_sample_policy four)
      reconciliation_cert = Inr True"
    unfolding reconciliation_cert_def by (rule sample_certificate_ok[OF _ reconciliation_shape share_digests_ok(1)]) simp_all
  show ?thesis unfolding everyE_Inr_True using s r by simp
qed

lemma reconciliation_fields:
  "sa_purpose (scc_assignment reconciliation_cert) = ''reconciliation''" "scc_phase reconciliation_cert = ''reconcile''"
  "scc_coordinateDigest reconciliation_cert = fixed_digest (CHR ''1'')"
  "scc_proposalDigest reconciliation_cert = fixed_digest (CHR ''2'')"
  "scc_valueDigest reconciliation_cert = sample_hash sample_root_json"
  "scc_assignment reconciliation_cert = sparse_committee four ''reconciliation''"
  "scc_certifiedAtLogicalMs reconciliation_cert = 5"
  by (simp_all add: reconciliation_cert_def sparse_cert_def Let_def sparse_cert_body_def)

lemma sample_finality_created:
  "createSparseFinalityCertificateV2 sample_platform (sparse_port UNIV) [''s''] [shard_cert] reconciliation_cert
    (sparse_members four) (sparse_sample_policy four) 9 = Inr (Some sample_finality)"
proof -
  have "is_identifier ''s''" by code_simp
  then have ids: "canonicalIdentifiers [''s''] ''requiredShardIds'' = Inr [''s'']" by (simp add: canonicalIdentifiers_iff)
  have sort: "js_sort cmp [shard_cert] = [shard_cert]" for cmp by (simp add: js_sort_simps)
  have digests: "sort (map scc_certificateDigest [shard_cert]) = [scc_certificateDigest shard_cert]" by simp
  have body: "\<lparr>sf_schemaVersion = 2, sf_certificateId = ''pending'',
       sf_coordinateDigest = scc_coordinateDigest shard_cert, sf_proposalDigest = scc_proposalDigest shard_cert,
       sf_valueDigest = scc_valueDigest shard_cert, sf_epoch = sa_epoch (scc_assignment shard_cert),
       sf_membershipConfigurationDigest = sa_membershipConfigurationDigest (scc_assignment shard_cert),
       sf_policyDigest = sa_policyDigest (scc_assignment shard_cert), sf_requiredShardIds = [''s''],
       sf_shardCertificateDigests = [scc_certificateDigest shard_cert],
       sf_shardCertificateRootDigest = sample_hash sample_root_json, sf_reconciliationCertificate = reconciliation_cert,
       sf_finalizedAtLogicalMs = 9, sf_certificateDigest = []\<rparr> = sample_finality_body"
    by (simp add: sample_finality_body_def finality_body_def)
  have "scc_phase shard_cert = ''commit''" "sa_purpose (scc_assignment shard_cert) = ''shard''"
    "sa_shardId (scc_assignment shard_cert) = ''s''"
    "same_configuration reconciliation_cert shard_cert" "same_configuration shard_cert shard_cert"
    "scc_coordinateDigest shard_cert = fixed_digest (CHR ''1'')" "scc_proposalDigest shard_cert = fixed_digest (CHR ''2'')"
    by (simp_all add: shard_cert_def same_configuration_def reconciliation_fields)
  then show ?thesis
    unfolding createSparseFinalityCertificateV2_def ids bindE_simps Let_def sort append.simps sample_certificates_valid
      list.sel digests root_digest body finality_digest
    by (simp add: reconciliation_fields sample_finality_def Let_def sparse_integer_def isSafeInteger_def maximumSafeInteger_def)
qed


definition sample_finality_runtime :: finality_runtime where
  "sample_finality_runtime = \<lparr>fr_membership = sparse_members four, fr_policy = sparse_sample_policy four,
     fr_signatures = sparse_port UNIV, fr_certify = (\<lambda>_. Inr None),
     fr_shardCertificates = (\<lambda>_ _. Inr (Some [shard_cert])), fr_reconcileCertification = None,
     fr_maximumCachedCertificates = 4096\<rparr>"

lemma sample_finality_verified:
  "finality_verify sample_platform sample_finality_runtime sample_finality (fixed_digest (CHR ''2'')) (fixed_digest (CHR ''3'')) 9 []
    = (Inr True, cacheVerifiedShards sample_finality_runtime (sf_certificateDigest sample_finality) [shard_cert] [])"
proof -
  note created_finality_fields[OF sample_finality_created]
  then have v: "validateSparseFinalityCertificateV2 sample_platform (sparse_port UNIV) [shard_cert] (sparse_members four)
      (sparse_sample_policy four) sample_finality = Inr True"
    using sample_finality_created by (simp add: validateSparseFinalityCertificateV2_def)
  have "sf_proposalDigest sample_finality = fixed_digest (CHR ''2'')" "sf_valueDigest sample_finality = fixed_digest (CHR ''3'')"
    "sf_epoch sample_finality = 1" "sf_membershipConfigurationDigest sample_finality = fixed_digest (CHR ''0'')"
    "sf_policyDigest sample_finality = sp_policyDigest (sparse_sample_policy four)" "sf_finalizedAtLogicalMs sample_finality = 9"
    by (simp_all add: sample_finality_def Let_def) (simp_all add: sample_finality_body_def finality_body_def shard_cert_def)
  with v have "verifyEnvelope sample_platform sample_finality_runtime sample_finality [shard_cert]
      (fixed_digest (CHR ''2'')) (fixed_digest (CHR ''3'')) 9 = Inr True"
    by (simp add: verifyEnvelope_Inr sample_finality_runtime_def sparse_members_def isSafeInteger_def maximumSafeInteger_def)
  then show ?thesis by (simp add: finality_verify_def bindS_def sample_finality_runtime_def)
qed

theorem forged_decision_witness:
  "fst (verifyExecution sample_platform sample_finality_runtime
     (sample_finality\<lparr>sf_proposalDigest := fixed_digest (CHR ''9''), sf_valueDigest := fixed_digest (CHR ''9'')\<rparr>)
     (fixed_digest (CHR ''9'')) (fixed_digest (CHR ''9'')) 9
     (cacheVerifiedShards sample_finality_runtime (sf_certificateDigest sample_finality) [shard_cert] [])) = Inr True"
  by (rule forged_decision_verified[OF sample_finality_verified[folded verifyExecution_def]])
    (simp add: sample_finality_runtime_def)

theorem verified_finality_witness:
  "\<exists>shards g. createSparseFinalityCertificateV2 sample_platform (fr_signatures sample_finality_runtime)
      (sf_requiredShardIds sample_finality) shards (sf_reconciliationCertificate sample_finality)
      (fr_membership sample_finality_runtime) (fr_policy sample_finality_runtime)
      (sf_finalizedAtLogicalMs sample_finality) = Inr (Some g)
    \<and> sf_certificateDigest g = sf_certificateDigest sample_finality
    \<and> sf_proposalDigest sample_finality = fixed_digest (CHR ''2'') \<and> sf_valueDigest sample_finality = fixed_digest (CHR ''3'')
    \<and> sf_finalizedAtLogicalMs sample_finality \<le> 9"
  by (rule verified_finality_rebuilt[OF sample_finality_verified])

end
